(* ===== verification/Prelude.thy ===== *)
theory Prelude
  imports Main "HOL-Library.Word" "HOL-Library.List_Lexorder" "HOL-Library.Char_ord"
begin

text \<open>
  Shared vocabulary of the development: results that carry an error, decimal text as
  \<open>std::to_string\<close> prints it, bytes of a \<open>std::string\<close>, and \<open>std::map\<close> as a key-sorted
  association list.  The collections declared here are the simplification sets the component
  theories use: \<open>res_simps\<close> (results), \<open>str_simps\<close> (text) and \<open>amap_simps\<close> (maps).
\<close>

named_theorems res_simps "results that carry an error"
named_theorems str_simps "text and bytes"
named_theorems amap_simps "sorted association lists"

section \<open>Results\<close>

text \<open>A C++ function that may throw returns \<open>Inl\<close> of the exception or \<open>Inr\<close> of its value.\<close>

definition rbind :: "'e + 'a \<Rightarrow> ('a \<Rightarrow> 'e + 'b) \<Rightarrow> 'e + 'b" where
  "rbind r f = (case r of Inl e \<Rightarrow> Inl e | Inr x \<Rightarrow> f x)"

definition rmap :: "('a \<Rightarrow> 'b) \<Rightarrow> 'e + 'a \<Rightarrow> 'e + 'b" where
  "rmap f r = rbind r (\<lambda>x. Inr (f x))"

text \<open>A range-for whose body may throw: the first exception ends the loop.\<close>

fun rtraverse :: "('a \<Rightarrow> 'e + 'b) \<Rightarrow> 'a list \<Rightarrow> 'e + 'b list" where
  "rtraverse f [] = Inr []"
| "rtraverse f (x # xs) = rbind (f x) (\<lambda>y. rmap (\<lambda>ys. y # ys) (rtraverse f xs))"

lemma rbind_Inr [simp, res_simps]: "rbind (Inr x) f = f x"
  by (simp add: rbind_def)

lemma rbind_Inl [simp, res_simps]: "rbind (Inl e) f = Inl e"
  by (simp add: rbind_def)

lemma rmap_Inr [simp, res_simps]: "rmap f (Inr x) = Inr (f x)"
  by (simp add: rmap_def)

lemma rmap_Inl [simp, res_simps]: "rmap f (Inl e) = Inl e"
  by (simp add: rmap_def)

lemma rbind_eq_Inr_iff [res_simps]: "rbind r f = Inr y \<longleftrightarrow> (\<exists>x. r = Inr x \<and> f x = Inr y)"
  by (cases r) auto

lemma rmap_eq_Inr_iff [res_simps]: "rmap f r = Inr y \<longleftrightarrow> (\<exists>x. r = Inr x \<and> f x = y)"
  by (cases r) auto

lemma rbind_eq_Inl_iff [res_simps]:
  "rbind r f = Inl e \<longleftrightarrow> r = Inl e \<or> (\<exists>x. r = Inr x \<and> f x = Inl e)"
  by (cases r) auto

lemma rtraverse_Inr [res_simps]:
  "(\<And>x. x \<in> set xs \<Longrightarrow> f (g x) = Inr x) \<Longrightarrow> rtraverse f (map g xs) = Inr xs"
  by (induction xs) auto

lemma rtraverse_length: "rtraverse f xs = Inr ys \<Longrightarrow> length ys = length xs"
  by (induction xs arbitrary: ys) (auto simp: res_simps)

lemma rbind_cong [fundef_cong]:
  "r = r' \<Longrightarrow> (\<And>x. r' = Inr x \<Longrightarrow> f x = f' x) \<Longrightarrow> rbind r f = rbind r' f'"
  by (cases r') auto

lemma rtraverse_cong [fundef_cong]:
  "xs = ys \<Longrightarrow> (\<And>x. x \<in> set ys \<Longrightarrow> f x = g x) \<Longrightarrow> rtraverse f xs = rtraverse g ys"
  by (induction xs arbitrary: ys) auto

section \<open>Bytes and decimal text\<close>

text \<open>A \<open>std::string\<close> is a list of bytes; \<open>byte_of\<close> is \<open>static_cast<unsigned char>\<close>.\<close>

definition byte_of :: "char \<Rightarrow> nat" where
  "byte_of c = of_char c"

definition chr :: "nat \<Rightarrow> char" where
  "chr n = char_of n"

lemma byte_of_less [simp]: "byte_of c < 256"
  by (simp add: byte_of_def)

lemma byte_of_chr [simp, str_simps]: "n < 256 \<Longrightarrow> byte_of (chr n) = n"
  by (simp add: byte_of_def chr_def)

lemma chr_byte_of [simp, str_simps]: "chr (byte_of c) = c"
  by (simp add: byte_of_def chr_def)

lemma byte_of_inject [simp]: "byte_of c = byte_of d \<longleftrightarrow> c = d"
  by (metis chr_byte_of)

definition is_digit :: "char \<Rightarrow> bool" where
  "is_digit c \<longleftrightarrow> 48 \<le> byte_of c \<and> byte_of c \<le> 57"

definition digit_char :: "nat \<Rightarrow> char" where
  "digit_char d = chr (48 + d)"

definition digit_value :: "char \<Rightarrow> nat" where
  "digit_value c = byte_of c - 48"

lemma is_digit_digit_char [simp]: "d < 10 \<Longrightarrow> is_digit (digit_char d)"
  by (simp add: is_digit_def digit_char_def)

lemma digit_value_digit_char [simp]: "d < 10 \<Longrightarrow> digit_value (digit_char d) = d"
  by (simp add: digit_value_def digit_char_def)

text \<open>\<open>std::to_string\<close> on an unsigned and on a signed number.\<close>

fun dec_nat :: "nat \<Rightarrow> string" where
  "dec_nat n = (if n < 10 then [digit_char n] else dec_nat (n div 10) @ [digit_char (n mod 10)])"

declare dec_nat.simps [simp del]

definition dec_int :: "int \<Rightarrow> string" where
  "dec_int i = (if i < 0 then CHR ''-'' # dec_nat (nat (- i)) else dec_nat (nat i))"

text \<open>The number a digit string denotes, most significant digit first.\<close>

definition nat_of_digits :: "string \<Rightarrow> nat" where
  "nat_of_digits ds = foldl (\<lambda>n c. 10 * n + digit_value c) 0 ds"

lemma nat_of_digits_Nil [simp]: "nat_of_digits [] = 0"
  by (simp add: nat_of_digits_def)

lemma nat_of_digits_snoc [simp]: "nat_of_digits (ds @ [c]) = 10 * nat_of_digits ds + digit_value c"
  by (simp add: nat_of_digits_def)

lemma nat_of_digits_append:
  "nat_of_digits (xs @ ys) = nat_of_digits xs * 10 ^ length ys + nat_of_digits ys"
  by (induction ys rule: rev_induct)
     (simp_all flip: append_assoc add: algebra_simps)

lemma dec_nat_digits [simp]: "c \<in> set (dec_nat n) \<Longrightarrow> is_digit c"
  by (induction n rule: dec_nat.induct) (subst (asm) (2) dec_nat.simps, auto split: if_splits)

lemma dec_nat_not_Nil [simp]: "dec_nat n \<noteq> []"
  by (subst dec_nat.simps) simp

lemma nat_of_digits_dec_nat [simp, str_simps]: "nat_of_digits (dec_nat n) = n"
proof (induction n rule: dec_nat.induct)
  case (1 n)
  show ?case
  proof (cases "n < 10")
    case True
    then show ?thesis
      using nat_of_digits_snoc [of "[]"] by (subst dec_nat.simps) simp
  next
    case False
    with 1 show ?thesis by (subst dec_nat.simps) simp
  qed
qed

lemma dec_nat_inject [simp]: "dec_nat m = dec_nat n \<longleftrightarrow> m = n"
  by (metis nat_of_digits_dec_nat)

text \<open>\<open>std::to_string\<close> prints no leading zero.\<close>

lemma dec_nat_hd: "0 < n \<Longrightarrow> hd (dec_nat n) \<noteq> CHR ''0''"
proof (induction n rule: dec_nat.induct)
  case (1 n)
  show ?case
  proof (cases "n < 10")
    case True
    have "digit_char n \<noteq> CHR ''0''"
      using True 1 digit_value_digit_char [of n] by (auto simp: digit_value_def byte_of_def)
    with True show ?thesis by (subst dec_nat.simps) simp
  next
    case False
    with 1 show ?thesis by (subst dec_nat.simps) simp
  qed
qed

section \<open>\<open>std::map\<close> as a key-sorted association list\<close>

text \<open>
  The keys are strictly ascending, as an iteration of the map visits them.  \<open>amap_find\<close> is
  \<open>find\<close>, \<open>amap_put\<close> is \<open>operator[]\<close> followed by an assignment, \<open>amap_emplace\<close> keeps the value
  already stored, \<open>amap_erase\<close> is \<open>erase\<close>.
\<close>

type_synonym ('k, 'v) amap = "('k \<times> 'v) list"

definition amap_ok :: "('k::linorder \<times> 'v) list \<Rightarrow> bool" where
  "amap_ok m = sorted_wrt (<) (map fst m)"

fun amap_find :: "'k \<Rightarrow> ('k \<times> 'v) list \<Rightarrow> 'v option" where
  "amap_find k [] = None"
| "amap_find k ((k', v) # m) = (if k = k' then Some v else amap_find k m)"

fun amap_put :: "'k::linorder \<Rightarrow> 'v \<Rightarrow> ('k \<times> 'v) list \<Rightarrow> ('k \<times> 'v) list" where
  "amap_put k v [] = [(k, v)]"
| "amap_put k v ((k', v') # m) =
     (if k < k' then (k, v) # (k', v') # m
      else if k = k' then (k, v) # m
      else (k', v') # amap_put k v m)"

definition amap_emplace :: "'k::linorder \<Rightarrow> 'v \<Rightarrow> ('k \<times> 'v) list \<Rightarrow> ('k \<times> 'v) list" where
  "amap_emplace k v m = (case amap_find k m of Some _ \<Rightarrow> m | None \<Rightarrow> amap_put k v m)"

fun amap_erase :: "'k \<Rightarrow> ('k \<times> 'v) list \<Rightarrow> ('k \<times> 'v) list" where
  "amap_erase k [] = []"
| "amap_erase k ((k', v) # m) = (if k = k' then m else (k', v) # amap_erase k m)"

definition amap_of_list :: "('k::linorder \<times> 'v) list \<Rightarrow> ('k \<times> 'v) list" where
  "amap_of_list kvs = foldl (\<lambda>m (k, v). amap_put k v m) [] kvs"

lemma amap_ok_Nil [simp, amap_simps]: "amap_ok []"
  by (simp add: amap_ok_def)

lemma amap_ok_Cons [amap_simps]:
  "amap_ok ((k, v) # m) \<longleftrightarrow> (\<forall>k' \<in> fst ` set m. k < k') \<and> amap_ok m"
  by (auto simp: amap_ok_def)

lemma amap_ok_single [simp]: "amap_ok [(k, v)]"
  by (simp add: amap_ok_def)

lemma amap_find_None_iff: "amap_find k m = None \<longleftrightarrow> k \<notin> fst ` set m"
proof (induction m)
  case (Cons kv m)
  then show ?case by (cases kv) auto
qed simp

lemma amap_find_Some_in: "amap_find k m = Some v \<Longrightarrow> (k, v) \<in> set m"
  by (induction m) (auto split: if_splits)

lemma amap_find_in_iff: "amap_ok m \<Longrightarrow> amap_find k m = Some v \<longleftrightarrow> (k, v) \<in> set m"
  by (induction m) (force simp: amap_ok_Cons split: if_splits)+

lemma amap_find_put [simp, amap_simps]:
  "amap_find k (amap_put k' v m) = (if k = k' then Some v else amap_find k m)"
  by (induction m) auto

lemma amap_put_keys [simp, amap_simps]: "fst ` set (amap_put k v m) = insert k (fst ` set m)"
proof (induction m)
  case (Cons kv m)
  then show ?case by (cases kv) auto
qed simp

lemma amap_put_ok [simp, amap_simps]: "amap_ok m \<Longrightarrow> amap_ok (amap_put k v m)"
proof (induction m)
  case (Cons kv m)
  obtain k' v' where kv: "kv = (k', v')" by (cases kv)
  have keys: "\<forall>x \<in> fst ` set m. k' < x" and m: "amap_ok m"
    using Cons.prems by (auto simp: kv amap_ok_Cons)
  consider "k < k'" | "k = k'" | "k' < k" by (rule linorder_cases)
  then show ?case
  proof cases
    case 1
    with keys m show ?thesis by (fastforce simp: kv amap_ok_Cons dest: less_trans)
  next
    case 2
    with keys m show ?thesis by (simp add: kv amap_ok_Cons)
  next
    case 3
    then have "amap_put k v (kv # m) = kv # amap_put k v m" by (auto simp: kv)
    with 3 keys m Cons.IH show ?thesis by (simp add: kv amap_ok_Cons)
  qed
qed simp

lemma amap_put_same [simp]: "amap_ok m \<Longrightarrow> amap_find k m = Some v \<Longrightarrow> amap_put k v m = m"
  by (induction m) (force simp: amap_ok_Cons amap_find_in_iff split: if_splits)+

lemma amap_emplace_ok [simp, amap_simps]: "amap_ok m \<Longrightarrow> amap_ok (amap_emplace k v m)"
  by (simp add: amap_emplace_def split: option.split)

lemma amap_find_emplace [simp, amap_simps]:
  "amap_find k (amap_emplace k' v m) =
     (if k = k' \<and> amap_find k m = None then Some v else amap_find k m)"
  by (auto simp: amap_emplace_def split: option.split)


lemma amap_erase_subset: "set (amap_erase k m) \<subseteq> set m"
proof (induction m)
  case (Cons kv m)
  then show ?case by (cases kv) auto
qed simp

lemma amap_erase_ok [simp, amap_simps]: "amap_ok m \<Longrightarrow> amap_ok (amap_erase k m)"
proof (induction m)
  case (Cons kv m)
  then show ?case
    using amap_erase_subset [of k m] by (cases kv) (auto simp: amap_ok_Cons)
qed simp

lemma amap_find_erase [simp, amap_simps]: "amap_ok m \<Longrightarrow>
    amap_find k (amap_erase k' m) = (if k = k' then None else amap_find k m)"
proof (induction m)
  case (Cons kv m)
  obtain a b where kv: "kv = (a, b)" by (cases kv)
  have absent: "amap_find a m = None" and m: "amap_ok m"
    using Cons.prems by (auto simp: kv amap_ok_Cons amap_find_None_iff)
  then show ?case using Cons.IH by (auto simp: kv)
qed simp

lemma amap_erase_absent [simp]: "amap_find k m = None \<Longrightarrow> amap_erase k m = m"
  by (induction m) (auto split: if_splits)

text \<open>Two sorted maps with the same lookups are the same list.\<close>

lemma amap_eqI:
  fixes m n :: "('k::linorder \<times> 'v) list"
  assumes "amap_ok m" "amap_ok n" "\<And>k. amap_find k m = amap_find k n"
  shows "m = n"
proof (rule map_sorted_distinct_set_unique [of fst])
  show eq: "set m = set n"
    using assms by (auto simp flip: amap_find_in_iff)
  show "inj_on fst (set m \<union> set n)"
    using assms(1) by (auto simp: inj_on_def eq simp flip: amap_find_in_iff)
       (simp_all add: amap_find_in_iff [OF assms(1), symmetric] flip: eq)
qed (use assms in \<open>auto simp: amap_ok_def strict_sorted_iff\<close>)

lemma amap_put_fresh_erase:
  "amap_ok m \<Longrightarrow> amap_find k m = None \<Longrightarrow> amap_erase k (amap_put k v m) = m"
  by (rule amap_eqI) (auto simp: amap_simps)

lemma amap_put_put [simp]: "amap_ok m \<Longrightarrow> amap_put k v (amap_put k v' m) = amap_put k v m"
  by (rule amap_eqI) (auto simp: amap_simps)

lemma amap_put_commute:
  "amap_ok m \<Longrightarrow> k \<noteq> k' \<Longrightarrow> amap_put k v (amap_put k' v' m) = amap_put k' v' (amap_put k v m)"
  by (rule amap_eqI) (auto simp: amap_simps)

lemma amap_of_list_ok [simp]: "amap_ok (amap_of_list kvs)"
proof -
  have "amap_ok m \<Longrightarrow> amap_ok (foldl (\<lambda>m (k, v). amap_put k v m) m kvs)" for m
    by (induction kvs arbitrary: m) auto
  then show ?thesis by (simp add: amap_of_list_def)
qed

text \<open>Inserting the entries of a sorted map one after the other into the empty map rebuilds it.\<close>

lemma amap_put_greatest:
  "\<forall>k' \<in> fst ` set m. k' < k \<Longrightarrow> amap_put k v m = m @ [(k, v)]"
proof (induction m)
  case (Cons kv m)
  then show ?case by (cases kv) auto
qed simp

lemma amap_emplace_greatest:
  assumes "\<forall>k' \<in> fst ` set m. k' < k"
  shows "amap_emplace k v m = m @ [(k, v)]"
proof -
  have "amap_find k m = None" using assms by (auto simp: amap_find_None_iff)
  with assms show ?thesis by (simp add: amap_emplace_def amap_put_greatest)
qed

end
