(* ===== verification/Float64.thy ===== *)
theory Float64
  imports Prelude
begin

text \<open>
  The \<open>double\<close> of \<open>JsonValue\<close> as its IEEE 754 binary64 bit pattern, and the parts of
  \<open><charconv>\<close> the JSON code uses on it: \<open>std::from_chars\<close> (correctly rounded, ties to even)
  and \<open>std::to_chars\<close> with \<open>chars_format::general\<close> (the shortest decimal that reads back).
  The main fact is that printing a finite double and reading the text gives the same bits.
\<close>

type_synonym f64 = "64 word"

section \<open>The fields of a double\<close>

definition f64_neg :: "f64 \<Rightarrow> bool" where
  "f64_neg w \<longleftrightarrow> 2 ^ 63 \<le> unat w"

definition f64_mag :: "f64 \<Rightarrow> nat" where
  "f64_mag w = unat w mod 2 ^ 63"

definition f64_exp :: "f64 \<Rightarrow> nat" where
  "f64_exp w = f64_mag w div 2 ^ 52"

definition f64_frac :: "f64 \<Rightarrow> nat" where
  "f64_frac w = f64_mag w mod 2 ^ 52"

definition f64_make :: "bool \<Rightarrow> nat \<Rightarrow> f64" where
  "f64_make neg mag = word_of_nat ((if neg then 2 ^ 63 else 0) + mag)"

definition f64_finite :: "f64 \<Rightarrow> bool" where
  "f64_finite w \<longleftrightarrow> f64_exp w \<noteq> 2047"

definition f64_nan :: "f64 \<Rightarrow> bool" where
  "f64_nan w \<longleftrightarrow> f64_exp w = 2047 \<and> f64_frac w \<noteq> 0"

text \<open>\<open>operator==\<close> on doubles: a NaN equals nothing, the two zeros are equal.\<close>

definition f64_eq :: "f64 \<Rightarrow> f64 \<Rightarrow> bool" where
  "f64_eq a b \<longleftrightarrow> \<not> f64_nan a \<and> \<not> f64_nan b \<and> (a = b \<or> f64_mag a = 0 \<and> f64_mag b = 0)"

definition f64_mant :: "f64 \<Rightarrow> nat" where
  "f64_mant w = (if f64_exp w = 0 then f64_frac w else 2 ^ 52 + f64_frac w)"

definition f64_scale :: "f64 \<Rightarrow> int" where
  "f64_scale w = (if f64_exp w = 0 then - 1074 else int (f64_exp w) - 1075)"

definition inf_bits :: nat where
  "inf_bits = 2047 * 2 ^ 52"

lemma f64_mag_less: "f64_mag w < 2 ^ 63"
  by (simp add: f64_mag_def)

lemma f64_finite_iff: "f64_finite w \<longleftrightarrow> f64_mag w < inf_bits"
proof -
  have "f64_exp w < 2048"
    using f64_mag_less [of w] by (simp add: f64_exp_def less_mult_imp_div_less)
  moreover have "f64_exp w < 2047 \<longleftrightarrow> f64_mag w < inf_bits"
    by (simp add: f64_exp_def inf_bits_def div_less_iff_less_mult)
  ultimately show ?thesis by (auto simp: f64_finite_def)
qed

lemma f64_make_fields [simp]: "f64_make (f64_neg w) (f64_mag w) = w"
proof -
  have "unat w < 2 ^ 64" using unsigned_less [of w, where ?'a = nat] by simp
  then have "(if f64_neg w then 2 ^ 63 else 0) + f64_mag w = unat w"
    by (auto simp: f64_neg_def f64_mag_def mod_if)
  then show ?thesis by (simp add: f64_make_def)
qed

lemma f64_mag_mant: "f64_mag w = nat (f64_scale w + 1074) * 2 ^ 52 + f64_mant w"
proof -
  have split: "f64_mag w = f64_exp w * 2 ^ 52 + f64_frac w"
    by (simp add: f64_exp_def f64_frac_def)
  show ?thesis
  proof (cases "f64_exp w")
    case 0
    then show ?thesis by (simp add: split f64_scale_def f64_mant_def)
  next
    case (Suc x)
    then have "nat (f64_scale w + 1074) = x" by (simp add: f64_scale_def)
    with Suc show ?thesis by (simp add: split f64_mant_def)
  qed
qed

section \<open>Correct rounding of a fraction\<close>

fun bitlen :: "nat \<Rightarrow> nat" where
  "bitlen n = (if n = 0 then 0 else Suc (bitlen (n div 2)))"

declare bitlen.simps [simp del]

text \<open>\<open>scale_frac p q e\<close> is the fraction \<open>p / (q * 2 ^ e)\<close> as a numerator and a denominator.\<close>

definition scale_frac :: "nat \<Rightarrow> nat \<Rightarrow> int \<Rightarrow> nat \<times> nat" where
  "scale_frac p q e = (p * 2 ^ nat (- e), q * 2 ^ nat e)"

definition round_exp :: "nat \<Rightarrow> nat \<Rightarrow> int" where
  "round_exp p q =
     (let e = int (bitlen p) - int (bitlen q) - 53;
          s = scale_frac p q e
      in max (- 1074) (if fst s < 2 ^ 53 * snd s then e else e + 1))"

definition round_half_even :: "nat \<Rightarrow> nat \<Rightarrow> nat" where
  "round_half_even p q =
     (let n = p div q; r = p mod q
      in if q < 2 * r \<or> 2 * r = q \<and> odd n then n + 1 else n)"

text \<open>The magnitude bits of the double nearest to \<open>p / q\<close>; \<open>inf_bits\<close> and above is overflow.\<close>

definition round_bits :: "nat \<Rightarrow> nat \<Rightarrow> nat" where
  "round_bits p q =
     (if p = 0 then 0
      else let e = round_exp p q; s = scale_frac p q e
           in nat (e + 1074) * 2 ^ 52 + round_half_even (fst s) (snd s))"

text \<open>What \<open>round_exp\<close> is for: the quotient has 53 bits, or the exponent is the least one.\<close>

definition fits_exp :: "nat \<Rightarrow> nat \<Rightarrow> int \<Rightarrow> bool" where
  "fits_exp p q e \<longleftrightarrow>
     - 1074 \<le> e \<and> p * 2 ^ nat (- e) < 2 ^ 53 * (q * 2 ^ nat e) \<and>
     (e = - 1074 \<or> 2 ^ 52 * (q * 2 ^ nat e) \<le> p * 2 ^ nat (- e))"

lemma bitlen_bounds: "0 < n \<Longrightarrow> 2 ^ (bitlen n - 1) \<le> n \<and> n < 2 ^ bitlen n \<and> 0 < bitlen n"
proof (induction n rule: bitlen.induct)
  case (1 n)
  show ?case
  proof (cases "n < 2")
    case True
    with 1 have "n = 1" by simp
    then show ?thesis by (simp add: bitlen.simps)
  next
    case False
    with 1 have IH: "2 ^ (bitlen (n div 2) - 1) \<le> n div 2" "n div 2 < 2 ^ bitlen (n div 2)"
        "0 < bitlen (n div 2)"
      by auto
    obtain b where b: "bitlen (n div 2) = Suc b" using IH(3) by (cases "bitlen (n div 2)") auto
    have "bitlen n = Suc (Suc b)" using False b by (subst bitlen.simps) simp
    moreover have "2 * 2 ^ b \<le> n" "n < 2 * (2 * 2 ^ b)"
      using IH(1,2) b by (auto simp: less_eq_div_iff_mult_less_eq div_less_iff_less_mult)
    ultimately show ?thesis by simp
  qed
qed

text \<open>Raising the exponent by \<open>d\<close> divides the scaled fraction by \<open>2 ^ d\<close>.\<close>

lemma scale_shift:
  assumes "e' = e + int d"
  shows "(a * (q * 2 ^ nat e') \<le> p * 2 ^ nat (- e')) \<longleftrightarrow>
         (a * 2 ^ d * (q * 2 ^ nat e) \<le> p * 2 ^ nat (- (e :: int)))"
    and "(p * 2 ^ nat (- e') < a * (q * 2 ^ nat e')) \<longleftrightarrow>
         (p * 2 ^ nat (- e) < a * 2 ^ d * (q * 2 ^ nat e :: nat))"
proof -
  have eq: "2 ^ nat e' * 2 ^ nat (- e) = (2 ^ d * 2 ^ nat e * 2 ^ nat (- e') :: nat)"
  proof -
    have "nat e' + nat (- e) = d + nat e + nat (- e')" using assms by linarith
    then show ?thesis by (simp flip: power_add)
  qed
  have pos: "(0 :: nat) < 2 ^ nat (- e)" "(0 :: nat) < 2 ^ nat (- e')" by simp_all
  have L: "a * (q * 2 ^ nat e') * 2 ^ nat (- e) = a * 2 ^ d * (q * 2 ^ nat e) * 2 ^ nat (- e')"
    using eq by (simp add: ac_simps)
  have R: "p * 2 ^ nat (- e') * 2 ^ nat (- e) = p * 2 ^ nat (- e) * 2 ^ nat (- e')"
    by (simp add: ac_simps)
  show "(a * (q * 2 ^ nat e') \<le> p * 2 ^ nat (- e')) \<longleftrightarrow>
        (a * 2 ^ d * (q * 2 ^ nat e) \<le> p * 2 ^ nat (- e))"
    using L R pos by (metis mult_le_cancel2)
  show "(p * 2 ^ nat (- e') < a * (q * 2 ^ nat e')) \<longleftrightarrow>
        (p * 2 ^ nat (- e) < a * 2 ^ d * (q * 2 ^ nat e))"
    using L R pos by (metis mult_less_cancel2)
qed

lemma fits_exp_low: "fits_exp p q e \<Longrightarrow> - 1074 \<le> e"
  by (simp only: fits_exp_def)

lemma fits_exp_upper: "fits_exp p q e \<Longrightarrow> p * 2 ^ nat (- e) < 2 ^ 53 * (q * 2 ^ nat e)"
  by (simp only: fits_exp_def)

lemma fits_exp_lower:
  "fits_exp p q e \<Longrightarrow> - 1074 < e \<Longrightarrow> 2 ^ 52 * (q * 2 ^ nat e) \<le> p * 2 ^ nat (- e)"
  by (auto simp only: fits_exp_def)

lemma fits_exp_unique_le:
  assumes "0 < p" "0 < q" "fits_exp p q e" "fits_exp p q e'" "e < e'"
  shows False
proof -
  obtain d where d: "e' = e + int d" "1 \<le> d"
    using assms(5) by (metis zless_iff_Suc_zadd le_add1 plus_1_eq_Suc)
  have "2 ^ 52 * (q * 2 ^ nat e') \<le> p * 2 ^ nat (- e')"
    using fits_exp_lower [OF assms(4)] fits_exp_low [OF assms(3)] assms(5) by linarith
  then have "2 ^ 52 * 2 ^ d * (q * 2 ^ nat e) \<le> p * 2 ^ nat (- e)"
    by (simp only: scale_shift(1) [OF d(1)])
  moreover have "(2 :: nat) ^ 53 * (q * 2 ^ nat e) \<le> 2 ^ 52 * 2 ^ d * (q * 2 ^ nat e)"
  proof -
    have "(2 :: nat) ^ 53 \<le> 2 ^ (52 + d)" using d(2) by (intro power_increasing) simp_all
    then show ?thesis by (simp add: power_add)
  qed
  ultimately show False using fits_exp_upper [OF assms(3)] by linarith
qed

lemma fits_exp_unique: "0 < p \<Longrightarrow> 0 < q \<Longrightarrow> fits_exp p q e \<Longrightarrow> fits_exp p q e' \<Longrightarrow> e = e'"
  using fits_exp_unique_le by (metis linorder_neqE)

lemma round_exp_fits:
  assumes "0 < p" "0 < q"
  shows "fits_exp p q (round_exp p q)"
proof -
  define a b where "a = bitlen p" and "b = bitlen q"
  define e where "e = int a - int b - 53"
  have p: "2 ^ (a - 1) \<le> p" "p < 2 ^ a" "0 < a" and q: "2 ^ (b - 1) \<le> q" "q < 2 ^ b" "0 < b"
    using bitlen_bounds [OF assms(1)] bitlen_bounds [OF assms(2)] by (simp_all add: a_def b_def)
  have exps: "a + nat (- e) = 54 + (b - 1) + nat e" "52 + b + nat e = (a - 1) + nat (- e)"
    using p(3) q(3) by (simp_all add: e_def nat_diff_distrib')
  have upper: "p * 2 ^ nat (- e) < 2 ^ 53 * 2 ^ 1 * (q * 2 ^ nat e)"
  proof -
    have "p * 2 ^ nat (- e) < 2 ^ (a + nat (- e))" using p(2) by (simp add: power_add)
    also have "\<dots> = 2 ^ 54 * (2 ^ (b - 1) * 2 ^ nat e)" by (simp only: exps power_add mult.assoc)
    also have "\<dots> \<le> 2 ^ 54 * (q * 2 ^ nat e)" using q(1) by simp
    finally show ?thesis by simp
  qed
  have lower: "2 ^ 52 * (q * 2 ^ nat e) \<le> p * 2 ^ nat (- e)"
  proof -
    have "2 ^ 52 * (q * 2 ^ nat e) \<le> 2 ^ 52 * (2 ^ b * 2 ^ nat e)" using q(2) by simp
    also have "\<dots> = 2 ^ (52 + b + nat e)" by (simp add: power_add)
    also have "\<dots> = 2 ^ (a - 1) * 2 ^ nat (- e)" by (simp only: exps(2) power_add)
    also have "\<dots> \<le> p * 2 ^ nat (- e)" using p(1) by simp
    finally show ?thesis .
  qed
  define e' where "e' = (if p * 2 ^ nat (- e) < 2 ^ 53 * (q * 2 ^ nat e) then e else e + 1)"
  have up': "p * 2 ^ nat (- e') < 2 ^ 53 * (q * 2 ^ nat e')"
  proof (cases "p * 2 ^ nat (- e) < 2 ^ 53 * (q * 2 ^ nat e)")
    case True
    then show ?thesis by (simp add: e'_def)
  next
    case False
    then have "e' = e + int 1" by (simp add: e'_def)
    from scale_shift(2) [OF this] show ?thesis using upper by blast
  qed
  have low': "2 ^ 52 * (q * 2 ^ nat e') \<le> p * 2 ^ nat (- e')"
  proof (cases "p * 2 ^ nat (- e) < 2 ^ 53 * (q * 2 ^ nat e)")
    case True
    then show ?thesis using lower by (simp add: e'_def)
  next
    case False
    then have "e' = e + int 1" by (simp add: e'_def)
    from scale_shift(1) [OF this] show ?thesis using False by simp
  qed
  have round: "round_exp p q = max (- 1074) e'"
    by (simp add: round_exp_def scale_frac_def e'_def e_def a_def b_def Let_def)
  show ?thesis
  proof (cases "e' < - 1074")
    case False
    then have "round_exp p q = e'" using round by simp
    then show ?thesis using up' low' False by (simp only: fits_exp_def) simp
  next
    case True
    define d where "d = nat (- 1074 - e')"
    have d: "- 1074 = e' + int d" using True by (simp add: d_def)
    have "2 ^ 53 * (q * 2 ^ nat e') \<le> 2 ^ 53 * 2 ^ d * (q * 2 ^ nat e')" by simp
    with up' have "p * 2 ^ nat (- e') < 2 ^ 53 * 2 ^ d * (q * 2 ^ nat e')"
      by (rule less_le_trans)
    then have "p * 2 ^ nat (- (- 1074)) < 2 ^ 53 * (q * 2 ^ nat (- 1074))"
      by (rule scale_shift(2) [OF d, THEN iffD2])
    moreover have "round_exp p q = - 1074" using round True by simp
    ultimately show ?thesis by (simp only: fits_exp_def order_refl simp_thms)
  qed
qed

lemma round_exp_eqI: "0 < p \<Longrightarrow> 0 < q \<Longrightarrow> fits_exp p q e \<Longrightarrow> round_exp p q = e"
  using fits_exp_unique round_exp_fits by blast

lemma fits_exp_mult:
  assumes "0 < c"
  shows "fits_exp (p * c) (q * c) e \<longleftrightarrow> fits_exp p q e"
proof -
  have "p * c * x < a * (q * c * y) \<longleftrightarrow> p * x < a * (q * y)"
    and "a * (q * c * y) \<le> p * c * x \<longleftrightarrow> a * (q * y) \<le> p * x" for a x y
    using assms mult_less_cancel2 [of "p * x" c "a * (q * y)"]
      mult_le_cancel2 [of "a * (q * y)" c "p * x"]
    by (simp_all add: ac_simps)
  then show ?thesis by (simp only: fits_exp_def)
qed

lemma round_half_even_mult: "0 < c \<Longrightarrow> round_half_even (p * c) (q * c) = round_half_even p q"
  by (simp add: round_half_even_def Let_def mult_mod_left [symmetric] mult.left_commute [of 2])

lemma round_bits_mult:
  assumes "0 < c" "0 < q"
  shows "round_bits (p * c) (q * c) = round_bits p q"
proof (cases "p = 0")
  case False
  then have "fits_exp (p * c) (q * c) (round_exp p q)"
    using assms by (simp add: fits_exp_mult round_exp_fits)
  then have e: "round_exp (p * c) (q * c) = round_exp p q"
    using False assms by (intro round_exp_eqI) simp_all
  have "round_half_even (p * c * x) (q * c * y) = round_half_even (p * x) (q * y)" for x y
    using round_half_even_mult [OF assms(1), of "p * x" "q * y"] by (simp add: ac_simps)
  with False assms show ?thesis by (simp add: round_bits_def e scale_frac_def Let_def)
qed (simp add: round_bits_def)

text \<open>Rounding depends on the rational number only, not on the fraction that denotes it.\<close>

lemma round_bits_cong:
  assumes "p * q' = p' * q" "0 < q" "0 < q'"
  shows "round_bits p q = round_bits p' q'"
proof -
  have "round_bits p q = round_bits (p * q') (q * q')"
    by (simp add: round_bits_mult assms(2,3))
  also have "\<dots> = round_bits (p' * q) (q' * q)" by (simp only: assms(1) mult.commute [of q q'])
  also have "\<dots> = round_bits p' q'" by (simp add: round_bits_mult assms(2,3))
  finally show ?thesis .
qed

definition f64_num :: "f64 \<Rightarrow> nat" where
  "f64_num w = f64_mant w * 2 ^ nat (f64_scale w)"

definition f64_den :: "f64 \<Rightarrow> nat" where
  "f64_den w = 2 ^ nat (- f64_scale w)"

lemma f64_den_pos [simp]: "0 < f64_den w"
  by (simp add: f64_den_def)

text \<open>A value that is a double rounds to itself.\<close>

lemma round_bits_f64: "round_bits (f64_num w) (f64_den w) = f64_mag w"
proof (cases "f64_mant w = 0")
  case True
  then have "f64_mag w = 0"
    by (auto simp: f64_mag_mant f64_mant_def f64_scale_def split: if_splits)
  with True show ?thesis by (simp add: round_bits_def f64_num_def)
next
  case False
  define m e where "m = f64_mant w" and "e = f64_scale w"
  have frac: "f64_frac w < 2 ^ 52" by (simp add: f64_frac_def)
  have m: "0 < m" "m < 2 ^ 53" "e = - 1074 \<or> 2 ^ 52 \<le> m" "- 1074 \<le> e"
    using False frac by (auto simp: m_def e_def f64_mant_def f64_scale_def)
  define c where "c = (2 :: nat) ^ nat (- e) * 2 ^ nat e"
  have c: "0 < c" "m * 2 ^ nat e * 2 ^ nat (- e) = m * c" "2 ^ nat (- e) * 2 ^ nat e = c"
    by (simp_all add: c_def ac_simps)
  have "fits_exp (m * 2 ^ nat e) (2 ^ nat (- e)) e"
    using m c(1) by (auto simp only: fits_exp_def c mult_less_cancel2 mult_le_cancel2)
  then have "round_exp (m * 2 ^ nat e) (2 ^ nat (- e)) = e"
    using m(1) by (intro round_exp_eqI) simp_all
  then have "round_bits (m * 2 ^ nat e) (2 ^ nat (- e)) = nat (e + 1074) * 2 ^ 52 + m"
    using m(1) c(1)
    by (simp only: round_bits_def scale_frac_def Let_def c fst_conv snd_conv)
       (simp add: round_half_even_def c_def)
  then show ?thesis by (simp add: f64_num_def f64_den_def f64_mag_mant m_def e_def)
qed

end
