(* ===== verification/Float_Text.thy ===== *)
theory Float_Text
  imports Float64
begin

text \<open>
  The decimal text of a double: \<open>std::from_chars\<close> as \<open>JsonParser.cpp\<close> calls it on a number
  token, and \<open>std::to_chars\<close> with \<open>chars_format::general\<close> as \<open>JsonValueFormatDouble\<close> of
  \<open>JsonValue.cpp\<close> calls it.  \<open>from_chars_to_chars\<close> is the round trip for every finite double.
\<close>

section \<open>Reading a decimal\<close>

text \<open>The outcome of \<open>std::from_chars\<close>: a value, \<open>result_out_of_range\<close> or \<open>invalid_argument\<close>.\<close>

datatype 'a fc_result = FcOk 'a | FcRange | FcInvalid

fun strip_minus :: "string \<Rightarrow> bool \<times> string" where
  "strip_minus (c # cs) = (if c = CHR ''-'' then (True, cs) else (False, c # cs))"
| "strip_minus [] = (False, [])"

definition span_digits :: "string \<Rightarrow> string \<times> string" where
  "span_digits s = (takeWhile is_digit s, dropWhile is_digit s)"

text \<open>An optional fraction: its digits and the rest.\<close>

fun scan_fraction :: "string \<Rightarrow> string \<times> string" where
  "scan_fraction (c # cs) = (if c = CHR ''.'' then span_digits cs else ([], c # cs))"
| "scan_fraction [] = ([], [])"

text \<open>An optional exponent: a sign and digits after \<open>e\<close> or \<open>E\<close>; without digits it is none.\<close>

fun scan_exponent :: "string \<Rightarrow> int" where
  "scan_exponent (c # cs) =
     (if c = CHR ''e'' \<or> c = CHR ''E'' then
        (case cs of
           [] \<Rightarrow> 0
         | d # ds \<Rightarrow>
             if d = CHR ''-'' then - int (nat_of_digits (takeWhile is_digit ds))
             else if d = CHR ''+'' then int (nat_of_digits (takeWhile is_digit ds))
             else int (nat_of_digits (takeWhile is_digit cs)))
      else 0)"
| "scan_exponent [] = 0"

text \<open>\<open>n * 10 ^ k\<close> as a fraction.\<close>

definition dec_ratio :: "nat \<Rightarrow> int \<Rightarrow> nat \<times> nat" where
  "dec_ratio n k = (n * 10 ^ nat k, 10 ^ nat (- k))"

definition round_decimal :: "nat \<Rightarrow> int \<Rightarrow> nat" where
  "round_decimal n k = round_bits (fst (dec_ratio n k)) (snd (dec_ratio n k))"

text \<open>The number a token denotes: its sign, and an integer times a power of ten.\<close>

definition read_decimal :: "string \<Rightarrow> (bool \<times> nat \<times> int) option" where
  "read_decimal t =
     (let (neg, t1) = strip_minus t;
          (ip, t2) = span_digits t1;
          (fp, t3) = scan_fraction t2
      in if ip @ fp = [] then None
         else Some (neg, nat_of_digits (ip @ fp), scan_exponent t3 - int (length fp)))"

definition from_chars_double :: "string \<Rightarrow> f64 fc_result" where
  "from_chars_double t =
     (case read_decimal t of
        None \<Rightarrow> FcInvalid
      | Some (neg, n, k) \<Rightarrow>
          let b = round_decimal n k
          in if inf_bits \<le> b \<or> b = 0 \<and> n \<noteq> 0 then FcRange else FcOk (f64_make neg b))"

section \<open>Printing the shortest decimal\<close>

text \<open>\<open>floor (log10 (p / q))\<close>.\<close>

definition dec_exponent :: "nat \<Rightarrow> nat \<Rightarrow> int" where
  "dec_exponent p q =
     (if q \<le> p then int (length (dec_nat (p div q))) - 1
      else - int (length (dec_nat ((q - 1) div p))))"

text \<open>The two decimals with \<open>d\<close> significant digits around \<open>p / q\<close>, the nearer one first.\<close>

definition dec_candidates :: "nat \<Rightarrow> nat \<Rightarrow> nat \<Rightarrow> (nat \<times> int) list" where
  "dec_candidates p q d =
     (let k = dec_exponent p q - int d + 1;
          p' = p * 10 ^ nat (- k);
          q' = q * 10 ^ nat k;
          n = p' div q'
      in if 2 * (p' mod q') \<le> q' then [(n, k), (n + 1, k)] else [(n + 1, k), (n, k)])"

text \<open>The exact decimal expansion of a double, which has finitely many digits.\<close>

definition exact_decimal :: "f64 \<Rightarrow> nat \<times> int" where
  "exact_decimal w =
     (if 0 \<le> f64_scale w then (f64_mant w * 2 ^ nat (f64_scale w), 0)
      else (f64_mant w * 5 ^ nat (- f64_scale w), f64_scale w))"

definition shortest_decimal :: "f64 \<Rightarrow> nat \<times> int" where
  "shortest_decimal w =
     (case find (\<lambda>(n, k). n \<noteq> 0 \<and> round_decimal n k = f64_mag w)
        (concat (map (dec_candidates (f64_num w) (f64_den w)) [1..<18])) of
        Some nk \<Rightarrow> nk
      | None \<Rightarrow> exact_decimal w)"

fun strip_zeros :: "nat \<Rightarrow> int \<Rightarrow> nat \<times> int" where
  "strip_zeros n k = (if n \<noteq> 0 \<and> 10 dvd n then strip_zeros (n div 10) (k + 1) else (n, k))"

declare strip_zeros.simps [simp del]

definition pad2 :: "string \<Rightarrow> string" where
  "pad2 s = (if length s < 2 then CHR ''0'' # s else s)"

text \<open>
  The \<open>%g\<close> layout: positional when the decimal exponent is at least -4 and less than 6, else
  scientific with a signed exponent of at least two digits.
\<close>

definition layout_decimal :: "string \<Rightarrow> int \<Rightarrow> string" where
  "layout_decimal ds k =
     (let x = k + int (length ds) - 1
      in if - 4 \<le> x \<and> x < 6 then
           (if 0 \<le> k then ds @ replicate (nat k) CHR ''0''
            else if 0 \<le> x then take (nat (x + 1)) ds @ CHR ''.'' # drop (nat (x + 1)) ds
            else ''0.'' @ replicate (nat (- x - 1)) CHR ''0'' @ ds)
         else take 1 ds @ (if drop 1 ds = [] then [] else CHR ''.'' # drop 1 ds) @
              CHR ''e'' # (if x < 0 then CHR ''-'' else CHR ''+'') #
              pad2 (dec_nat (nat \<bar>x\<bar>)))"

definition format_general :: "nat \<Rightarrow> int \<Rightarrow> string" where
  "format_general n0 k0 = (case strip_zeros n0 k0 of (n, k) \<Rightarrow> layout_decimal (dec_nat n) k)"

definition to_chars_double :: "f64 \<Rightarrow> string" where
  "to_chars_double w =
     (if f64_neg w then ''-'' else []) @
     (if f64_mag w = 0 then ''0''
      else case shortest_decimal w of (n, k) \<Rightarrow> format_general n k)"

section \<open>The shape of a number token\<close>

text \<open>
  The grammar of a JSON number: an integer part without a leading zero, an optional fraction,
  an optional exponent.  \<open>num_token_ok\<close> states what the parts may be.
\<close>

definition num_token :: "bool \<Rightarrow> string \<Rightarrow> string \<Rightarrow> string \<Rightarrow> string" where
  "num_token neg ip fp ep =
     (if neg then ''-'' else []) @ ip @ (if fp = [] then [] else CHR ''.'' # fp) @ ep"

definition exp_part_ok :: "string \<Rightarrow> bool" where
  "exp_part_ok ep \<longleftrightarrow> ep = [] \<or>
     (\<exists>sg ds. ep = CHR ''e'' # sg # ds \<and> (sg = CHR ''+'' \<or> sg = CHR ''-'') \<and> ds \<noteq> [] \<and>
        list_all is_digit ds)"

definition num_token_ok :: "string \<Rightarrow> string \<Rightarrow> string \<Rightarrow> bool" where
  "num_token_ok ip fp ep \<longleftrightarrow>
     ip \<noteq> [] \<and> list_all is_digit ip \<and> (ip = ''0'' \<or> hd ip \<noteq> CHR ''0'') \<and>
     list_all is_digit fp \<and> exp_part_ok ep"

text \<open>What ends a run of digits.\<close>

definition no_digit_start :: "string \<Rightarrow> bool" where
  "no_digit_start s \<longleftrightarrow> s = [] \<or> \<not> is_digit (hd s)"

lemma is_digit_numerals [simp]:
  "\<not> is_digit CHR ''.''" "\<not> is_digit CHR ''e''" "\<not> is_digit CHR ''E''" "\<not> is_digit CHR ''-''"
  "\<not> is_digit CHR ''+''" "is_digit CHR ''0''"
  by (simp_all add: is_digit_def byte_of_def)

lemma no_digit_start_simps [simp]:
  "no_digit_start []" "no_digit_start (c # s) \<longleftrightarrow> \<not> is_digit c"
  by (simp_all add: no_digit_start_def)

lemma takeWhile_digits_append:
  "list_all is_digit ds \<Longrightarrow> no_digit_start s \<Longrightarrow> takeWhile is_digit (ds @ s) = ds"
  by (cases s) (auto simp: list_all_iff)

lemma dropWhile_digits_append:
  "list_all is_digit ds \<Longrightarrow> no_digit_start s \<Longrightarrow> dropWhile is_digit (ds @ s) = s"
  by (cases s) (auto simp: list_all_iff dropWhile_append)

lemma span_digits_append [simp]:
  "list_all is_digit ds \<Longrightarrow> no_digit_start s \<Longrightarrow> span_digits (ds @ s) = (ds, s)"
  by (simp add: span_digits_def takeWhile_digits_append dropWhile_digits_append)

lemma dec_nat_all_digits [simp]: "list_all is_digit (dec_nat n)"
  by (auto simp: list_all_iff)

lemma exp_part_no_digit [simp]: "exp_part_ok ep \<Longrightarrow> no_digit_start ep"
  by (auto simp: exp_part_ok_def)

lemma strip_minus_digits: "list_all is_digit ip \<Longrightarrow> ip \<noteq> [] \<Longrightarrow> strip_minus (ip @ s) = (False, ip @ s)"
  by (cases ip) auto

lemma read_decimal_num_token:
  assumes "num_token_ok ip fp ep"
  shows "read_decimal (num_token neg ip fp ep) =
    Some (neg, nat_of_digits (ip @ fp), scan_exponent ep - int (length fp))"
proof -
  have ok: "ip \<noteq> []" "list_all is_digit ip" "list_all is_digit fp" "exp_part_ok ep"
    using assms by (simp_all add: num_token_ok_def)
  have minus: "strip_minus (num_token neg ip fp ep) =
      (neg, ip @ (if fp = [] then [] else CHR ''.'' # fp) @ ep)"
    using ok by (cases neg) (simp_all add: num_token_def strip_minus_digits)
  have frac: "scan_fraction ep = ([], ep)"
    using ok(4) by (auto simp: exp_part_ok_def)
  show ?thesis
    using ok by (simp add: read_decimal_def minus frac)
qed

section \<open>The layout keeps the value\<close>

lemma round_decimal_shift: "round_decimal (n * 10 ^ j) (k - int j) = round_decimal n k"
proof -
  have "nat (k - int j) + j + nat (- k) = nat k + nat (int j - k)" by linarith
  then have "(10 :: nat) ^ (nat (k - int j) + j + nat (- k)) = 10 ^ (nat k + nat (int j - k))"
    by (rule arg_cong)
  then have "n * 10 ^ j * 10 ^ nat (k - int j) * 10 ^ nat (- k) =
      n * 10 ^ nat k * 10 ^ nat (- (k - int j))"
    by (simp add: power_add ac_simps)
  then show ?thesis
    unfolding round_decimal_def dec_ratio_def fst_conv snd_conv
    by (rule round_bits_cong) simp_all
qed

lemma strip_zeros_value:
  "strip_zeros n k = (n', k') \<Longrightarrow>
     round_decimal n' k' = round_decimal n k \<and> (n' = 0 \<longleftrightarrow> n = 0)"
proof (induction n k rule: strip_zeros.induct)
  case (1 n k)
  show ?case
  proof (cases "n \<noteq> 0 \<and> 10 dvd n")
    case True
    then have IH: "round_decimal n' k' = round_decimal (n div 10) (k + 1)"
        "n' = 0 \<longleftrightarrow> n div 10 = 0"
      using 1 by (simp_all add: strip_zeros.simps [of n k])
    have n: "n = n div 10 * 10 ^ 1" using True by simp
    have "round_decimal n k = round_decimal (n div 10) (k + 1)"
      using round_decimal_shift [of "n div 10" 1 "k + 1"] n by simp
    with IH True n show ?thesis by auto
  next
    case False
    then have "strip_zeros n k = (n, k)" by (simp only: strip_zeros.simps [of n k] if_False)
    with 1 show ?thesis by simp
  qed
qed

lemma nat_of_digits_zeros [simp]: "nat_of_digits (replicate z CHR ''0'') = 0"
proof (induction z)
  case (Suc z)
  have "replicate (Suc z) CHR ''0'' = replicate z CHR ''0'' @ [CHR ''0'']"
    by (simp add: replicate_append_same)
  with Suc show ?case by (simp only: nat_of_digits_snoc) (simp add: digit_value_def byte_of_def)
qed simp

lemma nat_of_digits_zero_Cons [simp]: "nat_of_digits (CHR ''0'' # ds) = nat_of_digits ds"
  using nat_of_digits_append [of "[CHR ''0'']" ds] nat_of_digits_zeros [of 1] by simp

lemma nat_of_digits_pad2 [simp]: "nat_of_digits (pad2 s) = nat_of_digits s"
  by (simp add: pad2_def)

lemma pad2_digits [simp]: "list_all is_digit (pad2 s) \<longleftrightarrow> list_all is_digit s" "pad2 s \<noteq> []"
  by (auto simp: pad2_def)

lemma takeWhile_all_digits: "list_all is_digit ds \<Longrightarrow> takeWhile is_digit ds = ds"
  by (simp add: list_all_iff takeWhile_eq_all_conv)

text \<open>A token whose value is \<open>n * 10 ^ k\<close>.\<close>

definition token_of :: "string \<Rightarrow> string \<Rightarrow> string \<Rightarrow> nat \<Rightarrow> int \<Rightarrow> bool" where
  "token_of ip fp ep n k \<longleftrightarrow> num_token_ok ip fp ep \<and>
     round_decimal (nat_of_digits (ip @ fp)) (scan_exponent ep - int (length fp)) =
       round_decimal n k \<and>
     (nat_of_digits (ip @ fp) = 0 \<longleftrightarrow> n = 0)"

lemma format_digits_shape:
  assumes n: "0 < n" and ds: "ds = dec_nat n" and x: "x = k + int (length ds) - 1"
  shows "token_of (ds @ replicate (nat k) CHR ''0'') [] [] n k \<or> k < 0"
    and "0 \<le> x \<Longrightarrow> k < 0 \<Longrightarrow>
      token_of (take (nat (x + 1)) ds) (drop (nat (x + 1)) ds) [] n k \<and> drop (nat (x + 1)) ds \<noteq> []"
    and "x < 0 \<Longrightarrow> token_of ''0'' (replicate (nat (- x - 1)) CHR ''0'' @ ds) [] n k"
    and "token_of (take 1 ds) (drop 1 ds)
      (CHR ''e'' # (if x < 0 then CHR ''-'' else CHR ''+'') # pad2 (dec_nat (nat \<bar>x\<bar>))) n k"
proof -
  have hd: "hd ds \<noteq> CHR ''0''" using dec_nat_hd [OF n] ds by simp
  have len: "0 < length ds" and ne: "ds \<noteq> []" and dig: "list_all is_digit ds"
    using ds by simp_all
  have val: "nat_of_digits ds = n" using ds by simp
  have hd_take: "hd (take (Suc m) ds) \<noteq> CHR ''0''" for m
    using hd ne by (cases ds) simp_all
  have dig_part: "list_all is_digit (take m ds)" "list_all is_digit (drop m ds)" for m
    using dig by (auto simp: list_all_iff dest: in_set_takeD in_set_dropD)
  show "token_of (ds @ replicate (nat k) CHR ''0'') [] [] n k \<or> k < 0"
  proof (cases "k < 0")
    case False
    have "round_decimal (n * 10 ^ nat k) 0 = round_decimal n k"
      using False round_decimal_shift [of n "nat k" k] by simp
    then show ?thesis
      using hd ne dig n
      by (simp add: token_of_def num_token_ok_def exp_part_ok_def nat_of_digits_append val
          list_all_iff ball_Un)
  qed simp
  show "token_of (take (nat (x + 1)) ds) (drop (nat (x + 1)) ds) [] n k \<and>
      drop (nat (x + 1)) ds \<noteq> []" if "0 \<le> x" "k < 0"
  proof -
    obtain m where m: "nat (x + 1) = Suc m" using \<open>0 \<le> x\<close> by (cases "nat (x + 1)") auto
    have "- int (length (drop (nat (x + 1)) ds)) = k" "nat (x + 1) < length ds"
      using that x by auto
    then show ?thesis
      using hd_take [of m] ne n
      by (auto simp: token_of_def num_token_ok_def exp_part_ok_def val dig_part m)
  qed
  show "token_of ''0'' (replicate (nat (- x - 1)) CHR ''0'' @ ds) [] n k" if "x < 0"
  proof -
    have "- int (nat (- x - 1)) - int (length ds) = k" using that x by simp
    then show ?thesis
      using dig n
      by (simp add: token_of_def num_token_ok_def exp_part_ok_def nat_of_digits_append val
          list_all_iff ball_Un)
  qed
  define ep where
    "ep = CHR ''e'' # (if x < 0 then CHR ''-'' else CHR ''+'') # pad2 (dec_nat (nat \<bar>x\<bar>))"
  have ep: "exp_part_ok ep" "scan_exponent ep = x"
    by (auto simp: ep_def exp_part_ok_def takeWhile_all_digits)
  have "int (length (drop 1 ds)) = int (length ds) - 1" using len by (cases ds) simp_all
  then have "scan_exponent ep - int (length (drop 1 ds)) = k" using x ep(2) by simp
  then have "token_of (take 1 ds) (drop 1 ds) ep n k"
    using hd_take [of 0] ne n ep(1)
    by (simp add: token_of_def num_token_ok_def val dig_part flip: nat_of_digits_append)
  then show "token_of (take 1 ds) (drop 1 ds)
      (CHR ''e'' # (if x < 0 then CHR ''-'' else CHR ''+'') # pad2 (dec_nat (nat \<bar>x\<bar>))) n k"
    by (simp only: ep_def)
qed

lemma token_of_digits:
  assumes "token_of ip fp ep n k" and "round_decimal n k = round_decimal n' k'" and "n = 0 \<longleftrightarrow> n' = 0"
  shows "token_of ip fp ep n' k'"
  using assms by (simp add: token_of_def)

lemma format_general_shape:
  assumes "0 < n0"
  shows "\<exists>ip fp ep. format_general n0 k0 = num_token False ip fp ep \<and> token_of ip fp ep n0 k0"
proof -
  obtain n k where nk: "strip_zeros n0 k0 = (n, k)" by (cases "strip_zeros n0 k0")
  define ds x where "ds = dec_nat n" and "x = k + int (length ds) - 1"
  have strip: "round_decimal n k = round_decimal n0 k0" "0 < n"
    using strip_zeros_value [OF nk] assms by auto
  note shapes = format_digits_shape [OF strip(2) ds_def x_def]
  have layout: "format_general n0 k0 =
      (if - 4 \<le> x \<and> x < 6 then
         (if 0 \<le> k then ds @ replicate (nat k) CHR ''0''
          else if 0 \<le> x then take (nat (x + 1)) ds @ CHR ''.'' # drop (nat (x + 1)) ds
          else ''0.'' @ replicate (nat (- x - 1)) CHR ''0'' @ ds)
       else num_token False (take 1 ds) (drop 1 ds)
          (CHR ''e'' # (if x < 0 then CHR ''-'' else CHR ''+'') # pad2 (dec_nat (nat \<bar>x\<bar>))))"
    by (simp only: format_general_def nk prod.case layout_decimal_def Let_def num_token_def ds_def
        x_def if_False append_Nil)
  have "\<exists>ip fp ep. format_general n0 k0 = num_token False ip fp ep \<and> token_of ip fp ep n k"
  proof (cases "- 4 \<le> x \<and> x < 6")
    case False
    with layout show ?thesis using shapes(4) by metis
  next
    case fixed: True
    consider "0 \<le> k" | "k < 0" "0 \<le> x" | "x < 0" "k < 0"
      using x_def by linarith
    then show ?thesis
    proof cases
      case 1
      then have "format_general n0 k0 = num_token False (ds @ replicate (nat k) CHR ''0'') [] []"
        using fixed by (simp add: layout num_token_def)
      then show ?thesis using shapes(1) 1 by (metis linorder_not_less)
    next
      case 2
      then have "format_general n0 k0 =
          num_token False (take (nat (x + 1)) ds) (drop (nat (x + 1)) ds) []"
        using fixed conjunct2 [OF shapes(2)] by (simp only: layout num_token_def) simp
      then show ?thesis using shapes(2) 2 by blast
    next
      case 3
      then have "format_general n0 k0 =
          num_token False ''0'' (replicate (nat (- x - 1)) CHR ''0'' @ ds) []"
        using fixed by (simp only: layout num_token_def) (simp add: ds_def)
      then show ?thesis using shapes(3) 3 by blast
    qed
  qed
  then show ?thesis using token_of_digits strip assms by blast
qed

section \<open>Reading back what was printed\<close>

lemma shortest_decimal_value:
  assumes "f64_mag w \<noteq> 0" and "shortest_decimal w = (n, k)"
  shows "0 < n \<and> round_decimal n k = f64_mag w"
proof (cases "find (\<lambda>(n, k). n \<noteq> 0 \<and> round_decimal n k = f64_mag w)
    (concat (map (dec_candidates (f64_num w) (f64_den w)) [1..<18]))")
  case None
  have mant: "0 < f64_mant w"
    using assms(1) by (auto simp: f64_mag_mant f64_scale_def f64_mant_def split: if_splits)
  have nk: "exact_decimal w = (n, k)" using assms(2) by (simp only: shortest_decimal_def None option.case)
  have "round_bits (fst (dec_ratio n k)) (snd (dec_ratio n k)) = round_bits (f64_num w) (f64_den w)"
  proof (rule round_bits_cong)
    show "fst (dec_ratio n k) * f64_den w = f64_num w * snd (dec_ratio n k)"
      using nk by (auto simp: exact_decimal_def dec_ratio_def f64_num_def f64_den_def
          simp flip: power_mult_distrib split: if_splits)
  qed (simp_all add: dec_ratio_def f64_den_def)
  then show ?thesis
    using nk mant by (auto simp: round_decimal_def round_bits_f64 exact_decimal_def split: if_splits)
next
  case (Some nk)
  then have "nk = (n, k)" using assms(2) by (simp only: shortest_decimal_def option.case)
  with Some show ?thesis by (auto simp: find_Some_iff)
qed

text \<open>Every double prints as a token that rounds back to its magnitude.\<close>

lemma to_chars_shape:
  "\<exists>ip fp ep n k. to_chars_double w = num_token (f64_neg w) ip fp ep \<and> token_of ip fp ep n k \<and>
     round_decimal n k = f64_mag w \<and> (n = 0 \<longleftrightarrow> f64_mag w = 0)"
proof (cases "f64_mag w = 0")
  case True
  have "token_of ''0'' [] [] 0 0" "round_decimal 0 0 = 0"
    by (simp_all add: token_of_def num_token_ok_def exp_part_ok_def round_decimal_def
        dec_ratio_def round_bits_def)
  moreover have "to_chars_double w = num_token (f64_neg w) ''0'' [] []"
    using True by (simp add: to_chars_double_def num_token_def)
  ultimately show ?thesis using True by metis
next
  case False
  obtain n k where nk: "shortest_decimal w = (n, k)" by (cases "shortest_decimal w")
  then have val: "0 < n" "round_decimal n k = f64_mag w"
    using shortest_decimal_value [OF False] by simp_all
  obtain ip fp ep where tok: "format_general n k = num_token False ip fp ep" "token_of ip fp ep n k"
    using format_general_shape [OF val(1)] by blast
  have "to_chars_double w = num_token (f64_neg w) ip fp ep"
    using False tok(1) by (simp add: to_chars_double_def nk num_token_def)
  with tok(2) val False show ?thesis by (intro exI conjI) auto
qed

lemma from_chars_token:
  assumes "token_of ip fp ep n k" and "round_decimal n k = f64_mag w" and "n = 0 \<longleftrightarrow> f64_mag w = 0"
    and "f64_finite w"
  shows "from_chars_double (num_token (f64_neg w) ip fp ep) = FcOk w"
  using assms
  by (auto simp: token_of_def from_chars_double_def read_decimal_num_token Let_def f64_finite_iff)

theorem from_chars_to_chars: "f64_finite w \<Longrightarrow> from_chars_double (to_chars_double w) = FcOk w"
  using to_chars_shape [of w] from_chars_token by metis

text \<open>Appending \<open>.0\<close> to an integral token keeps its value.\<close>

lemma token_of_point_zero:
  assumes "token_of ip [] [] n k"
  shows "token_of ip ''0'' [] n k"
proof -
  define N where "N = nat_of_digits ip"
  have "round_decimal (N * 10 ^ 1) (0 - int 1) = round_decimal N 0"
    by (rule round_decimal_shift)
  then show ?thesis
    using assms by (auto simp: token_of_def num_token_ok_def N_def nat_of_digits_append)
qed

end
