(* ===== verification/Json_Value.thy ===== *)
theory Json_Value
  imports Float_Text
begin

text \<open>
  \<open>JsonValue\<close> (\<open>include/mcp/JsonValue.hpp\<close>, \<open>src/core/JsonValue.cpp\<close>) with its accessors, and
  the errors they throw (\<open>ErrorCodes.hpp\<close>, \<open>McpError.hpp\<close>).  An object is a \<open>std::map\<close>: a
  key-sorted association list; \<open>json_ok\<close> is the invariant that every object of a value is
  sorted, which each operation keeps.
\<close>

section \<open>Error codes\<close>

text \<open>
  \<open>enum class McpErrorCode : int32_t\<close> has a fixed underlying type, so every 32-bit integer is a
  value of it; the enumerators are constants.
\<close>

type_synonym error_code = "32 word"

named_theorems error_codes "the numbers of the error codes"

definition ParseError :: error_code where [error_codes]: "ParseError = word_of_int (- 32700)"
definition InvalidRequest :: error_code where [error_codes]: "InvalidRequest = word_of_int (- 32600)"
definition MethodNotFound :: error_code where [error_codes]: "MethodNotFound = word_of_int (- 32601)"
definition InvalidParams :: error_code where [error_codes]: "InvalidParams = word_of_int (- 32602)"
definition InternalError :: error_code where [error_codes]: "InternalError = word_of_int (- 32603)"
definition HeaderMismatch :: error_code where [error_codes]: "HeaderMismatch = word_of_int (- 32020)"
definition MissingRequiredClientCapability :: error_code where
  [error_codes]: "MissingRequiredClientCapability = word_of_int (- 32021)"
definition UnsupportedProtocolVersion :: error_code where
  [error_codes]: "UnsupportedProtocolVersion = word_of_int (- 32022)"
definition UrlElicitationRequired :: error_code where
  [error_codes]: "UrlElicitationRequired = word_of_int (- 32042)"
definition ResourceNotFound :: error_code where
  [error_codes]: "ResourceNotFound = word_of_int (- 32002)"
definition ConnectionClosed :: error_code where
  [error_codes]: "ConnectionClosed = word_of_int (- 32000)"
definition RequestTimeout :: error_code where [error_codes]: "RequestTimeout = word_of_int (- 32001)"
definition RequestCancelled :: error_code where
  [error_codes]: "RequestCancelled = word_of_int (- 32800)"
definition ConnectionRefused :: error_code where
  [error_codes]: "ConnectionRefused = word_of_int (- 32003)"
definition TlsHandshakeFailed :: error_code where
  [error_codes]: "TlsHandshakeFailed = word_of_int (- 32004)"
definition ProtocolViolation :: error_code where
  [error_codes]: "ProtocolViolation = word_of_int (- 32005)"
definition TaskNotFound :: error_code where [error_codes]: "TaskNotFound = word_of_int (- 32006)"
definition HandlerError :: error_code where [error_codes]: "HandlerError = word_of_int (- 32007)"
definition DeserializeFailed :: error_code where
  [error_codes]: "DeserializeFailed = word_of_int (- 32008)"
definition SessionExpired :: error_code where [error_codes]: "SessionExpired = word_of_int (- 32009)"

text \<open>\<open>McpErrorCategory::message\<close>.\<close>

definition category_message :: "error_code \<Rightarrow> string" where
  "category_message ev =
     (if ev = ParseError then ''Parse error''
      else if ev = InvalidRequest then ''Invalid request''
      else if ev = MethodNotFound then ''Method not found''
      else if ev = InvalidParams then ''Invalid params''
      else if ev = InternalError then ''Internal error''
      else if ev = HeaderMismatch then ''Header mismatch''
      else if ev = MissingRequiredClientCapability then ''Missing required client capability''
      else if ev = UnsupportedProtocolVersion then ''Unsupported protocol version''
      else if ev = UrlElicitationRequired then ''URL elicitation required''
      else if ev = ResourceNotFound then ''Resource not found''
      else if ev = ConnectionClosed then ''Connection closed''
      else if ev = RequestTimeout then ''Request timeout''
      else if ev = RequestCancelled then ''Request cancelled''
      else if ev = DeserializeFailed then ''Deserialize failed''
      else if ev = ConnectionRefused then ''Connection refused''
      else if ev = TlsHandshakeFailed then ''TLS handshake failed''
      else if ev = ProtocolViolation then ''Protocol violation''
      else if ev = TaskNotFound then ''Task not found''
      else if ev = HandlerError then ''Handler error''
      else if ev = SessionExpired then ''Session expired''
      else ''Unknown MCP error'')"

text \<open>\<open>McpErrorCategory::default_error_condition\<close>: a portable condition or the code itself.\<close>

datatype error_condition =
    ConnectionAborted | IoError | NoSuchProcess | NoSuchFileOrDirectory | CategoryCondition error_code

definition default_error_condition :: "error_code \<Rightarrow> error_condition" where
  "default_error_condition ev =
     (if ev \<in> {ConnectionClosed, RequestTimeout, ConnectionRefused, TlsHandshakeFailed, SessionExpired}
      then ConnectionAborted
      else if ev \<in> {InternalError, DeserializeFailed, ProtocolViolation, HandlerError} then IoError
      else if ev = TaskNotFound then NoSuchProcess
      else if ev = ResourceNotFound then NoSuchFileOrDirectory
      else CategoryCondition ev)"

section \<open>Values\<close>

type_synonym i64 = "64 word"

datatype json =
    JNull
  | JBool bool
  | JInt i64
  | JDouble f64
  | JString string
  | JArray "json list"
  | JObject "(string \<times> json) list"

datatype mcp_error =
    McpError (err_code: error_code) (err_message: string) (err_data: "json option")

type_synonym 'a mres = "mcp_error + 'a"
type_synonym members = "(string \<times> json) list"

definition throw :: "error_code \<Rightarrow> string \<Rightarrow> 'a mres" where
  "throw c m = Inl (McpError c m None)"

lemma throw_neq_Inr [simp]: "throw c m \<noteq> Inr x" "Inr x \<noteq> throw c m"
  by (simp_all add: throw_def)

lemma rbind_throw [simp]: "rbind (throw c m) f = throw c m"
  by (simp add: throw_def)

text \<open>Every object in the value is a map.\<close>

fun json_ok :: "json \<Rightarrow> bool" where
  "json_ok (JArray xs) = list_all json_ok xs"
| "json_ok (JObject m) = (amap_ok m \<and> list_all (\<lambda>kv. json_ok (snd kv)) m)"
| "json_ok _ = True"

fun json_depth :: "json \<Rightarrow> nat" where
  "json_depth (JArray xs) = Suc (Max (insert 0 (set (map json_depth xs))))"
| "json_depth (JObject m) = Suc (Max (insert 0 (set (map (\<lambda>kv. json_depth (snd kv)) m))))"
| "json_depth _ = 0"

fun is_null :: "json \<Rightarrow> bool" where
  "is_null JNull = True" | "is_null _ = False"

fun is_bool :: "json \<Rightarrow> bool" where
  "is_bool (JBool _) = True" | "is_bool _ = False"

fun is_int :: "json \<Rightarrow> bool" where
  "is_int (JInt _) = True" | "is_int _ = False"

fun is_double :: "json \<Rightarrow> bool" where
  "is_double (JDouble _) = True" | "is_double _ = False"

definition is_number :: "json \<Rightarrow> bool" where
  "is_number j \<longleftrightarrow> is_int j \<or> is_double j"

fun is_string :: "json \<Rightarrow> bool" where
  "is_string (JString _) = True" | "is_string _ = False"

fun is_array :: "json \<Rightarrow> bool" where
  "is_array (JArray _) = True" | "is_array _ = False"

fun is_object :: "json \<Rightarrow> bool" where
  "is_object (JObject _) = True" | "is_object _ = False"

text \<open>\<open>detail::JsonValueTypeName\<close>.\<close>

definition json_type_name :: "json \<Rightarrow> string" where
  "json_type_name j =
     (if is_null j then ''null'' else if is_bool j then ''bool'' else if is_int j then ''int''
      else if is_double j then ''double'' else if is_string j then ''string''
      else if is_array j then ''array'' else ''object'')"

section \<open>Typed access\<close>

fun get_bool :: "json \<Rightarrow> bool mres" where
  "get_bool (JBool b) = Inr b"
| "get_bool j = throw DeserializeFailed
     (''JsonValue::GetBool: expected bool, got '' @ json_type_name j)"

fun get_int :: "json \<Rightarrow> i64 mres" where
  "get_int (JInt i) = Inr i"
| "get_int j = throw DeserializeFailed
     (''JsonValue::GetInt: expected int, got '' @ json_type_name j)"

fun get_double :: "json \<Rightarrow> f64 mres" where
  "get_double (JDouble d) = Inr d"
| "get_double j = throw DeserializeFailed
     (''JsonValue::GetDouble: expected double, got '' @ json_type_name j)"

fun get_string :: "json \<Rightarrow> string mres" where
  "get_string (JString s) = Inr s"
| "get_string j = throw DeserializeFailed
     (''JsonValue::GetString: expected string, got '' @ json_type_name j)"

fun get_array :: "json \<Rightarrow> json list mres" where
  "get_array (JArray xs) = Inr xs"
| "get_array j = throw DeserializeFailed
     (''JsonValue::GetArray: expected array, got '' @ json_type_name j)"

fun get_object :: "json \<Rightarrow> members mres" where
  "get_object (JObject m) = Inr m"
| "get_object j = throw DeserializeFailed
     (''JsonValue::GetObject: expected object, got '' @ json_type_name j)"

fun json_size :: "json \<Rightarrow> nat" where
  "json_size (JArray xs) = length xs"
| "json_size (JObject m) = length m"
| "json_size (JString s) = length s"
| "json_size _ = 0"

fun json_empty :: "json \<Rightarrow> bool" where
  "json_empty (JArray xs) = (xs = [])"
| "json_empty (JObject m) = (m = [])"
| "json_empty j = is_null j"

fun json_find :: "string \<Rightarrow> json \<Rightarrow> json option" where
  "json_find k (JObject m) = amap_find k m"
| "json_find k _ = None"

definition json_contains :: "string \<Rightarrow> json \<Rightarrow> bool" where
  "json_contains k j \<longleftrightarrow> json_find k j \<noteq> None"

text \<open>\<open>JsonValueLookupRequired\<close>, the constant \<open>operator[]\<close> and \<open>At\<close>.\<close>

definition lookup_required :: "members \<Rightarrow> string \<Rightarrow> string \<Rightarrow> json mres" where
  "lookup_required m k msg =
     (case amap_find k m of
        None \<Rightarrow> throw DeserializeFailed (msg @ k @ [chr 39])
      | Some v \<Rightarrow> Inr v)"

definition json_at :: "string \<Rightarrow> json \<Rightarrow> json mres" where
  "json_at k j = rbind (get_object j)
     (\<lambda>m. lookup_required m k (''JsonValue: key not found: '' @ [chr 39]))"

definition json_At :: "string \<Rightarrow> json \<Rightarrow> json mres" where
  "json_At k j = rbind (get_object j)
     (\<lambda>m. lookup_required m k (''JsonValue::At: key not found: '' @ [chr 39]))"

text \<open>The mutable \<open>operator[]\<close>: a missing key is added with \<open>null\<close>; \<open>json_set\<close> assigns to it.\<close>

definition json_index :: "string \<Rightarrow> json \<Rightarrow> (json \<times> json) mres" where
  "json_index k j = rbind (get_object j) (\<lambda>m.
     let m' = amap_emplace k JNull m
     in case amap_find k m' of
          Some v \<Rightarrow> Inr (JObject m', v)
        | None \<Rightarrow> throw DeserializeFailed [])"

definition json_set :: "string \<Rightarrow> json \<Rightarrow> json \<Rightarrow> json mres" where
  "json_set k v j = rbind (get_object j) (\<lambda>m. Inr (JObject (amap_put k v m)))"

definition json_push_back :: "json \<Rightarrow> json \<Rightarrow> json mres" where
  "json_push_back v j = rbind (get_array j) (\<lambda>xs. Inr (JArray (xs @ [v])))"

text \<open>
  \<open>operator==\<close> is the one of \<open>std::variant\<close>: the same alternative and equal contents, where
  doubles compare as IEEE numbers.
\<close>

fun json_eq :: "json \<Rightarrow> json \<Rightarrow> bool"
  and json_list_eq :: "json list \<Rightarrow> json list \<Rightarrow> bool"
  and json_members_eq :: "(string \<times> json) list \<Rightarrow> (string \<times> json) list \<Rightarrow> bool" where
  "json_eq JNull JNull = True"
| "json_eq (JBool a) (JBool b) = (a = b)"
| "json_eq (JInt a) (JInt b) = (a = b)"
| "json_eq (JDouble a) (JDouble b) = f64_eq a b"
| "json_eq (JString a) (JString b) = (a = b)"
| "json_eq (JArray a) (JArray b) = json_list_eq a b"
| "json_eq (JObject a) (JObject b) = json_members_eq a b"
| "json_eq _ _ = False"
| "json_list_eq [] [] = True"
| "json_list_eq (x # xs) (y # ys) = (json_eq x y \<and> json_list_eq xs ys)"
| "json_list_eq _ _ = False"
| "json_members_eq [] [] = True"
| "json_members_eq ((k, x) # xs) ((l, y) # ys) = (k = l \<and> json_eq x y \<and> json_members_eq xs ys)"
| "json_members_eq _ _ = False"

section \<open>Facts\<close>

lemma json_index_value: "json_index k j = Inr (j', v) \<Longrightarrow>
    v = (case json_find k j of Some x \<Rightarrow> x | None \<Rightarrow> JNull) \<and> json_find k j' = Some v"
  by (cases j) (auto simp: json_index_def Let_def split: option.splits if_splits)

lemma json_set_find: "json_set k v j = Inr j' \<Longrightarrow>
    json_find l j' = (if l = k then Some v else json_find l j)"
  by (cases j) (auto simp: json_set_def)

lemma json_set_ok: "json_set k v j = Inr j' \<Longrightarrow> json_ok j \<Longrightarrow> json_ok v \<Longrightarrow> json_ok j'"
proof -
  have "list_all (\<lambda>kv. json_ok (snd kv)) m \<Longrightarrow> json_ok v \<Longrightarrow>
      list_all (\<lambda>kv. json_ok (snd kv)) (amap_put k v m)" for m
  proof (induction m)
    case (Cons kv m)
    then show ?case by (cases kv) auto
  qed simp
  then show "json_set k v j = Inr j' \<Longrightarrow> json_ok j \<Longrightarrow> json_ok v \<Longrightarrow> json_ok j'"
    by (cases j) (auto simp: json_set_def)
qed

text \<open>No NaN inside: then \<open>operator==\<close> is reflexive.\<close>

fun json_no_nan :: "json \<Rightarrow> bool" where
  "json_no_nan (JDouble d) = (\<not> f64_nan d)"
| "json_no_nan (JArray xs) = list_all json_no_nan xs"
| "json_no_nan (JObject m) = list_all (\<lambda>kv. json_no_nan (snd kv)) m"
| "json_no_nan _ = True"

lemma json_list_eq_refl: "(\<And>x. x \<in> set xs \<Longrightarrow> json_eq x x) \<Longrightarrow> json_list_eq xs xs"
  by (induction xs) auto

lemma json_members_eq_refl: "(\<And>kv. kv \<in> set m \<Longrightarrow> json_eq (snd kv) (snd kv)) \<Longrightarrow> json_members_eq m m"
proof (induction m)
  case (Cons kv m)
  then show ?case by (cases kv) force
qed simp

lemma json_eq_refl: "json_no_nan j \<Longrightarrow> json_eq j j"
proof (induction j)
  case (JDouble d)
  then show ?case by (simp add: f64_eq_def)
next
  case (JArray xs)
  then show ?case by (auto intro!: json_list_eq_refl simp: list_all_iff)
next
  case (JObject m)
  then show ?case by (auto intro!: json_members_eq_refl simp: list_all_iff)
qed simp_all

end
