(* ===== verification/Utf8.thy ===== *)
theory Utf8
  imports Json_Value
begin

text \<open>
  UTF-8 as \<open>JsonParser.cpp\<close> and \<open>JsonValue.cpp\<close> handle it: the classification of a lead byte,
  \<open>AppendUtf8\<close> (encoding), the check of one sequence, and \<open>JsonValue::SanitizeUtf8\<close>.
  \<open>utf8_valid\<close> is the specification: a text is valid when it is the concatenation of the
  encodings of Unicode scalar values.
\<close>

section \<open>Encoding\<close>

text \<open>\<open>Parser::AppendUtf8\<close>: the bytes appended for a code point.\<close>

definition append_utf8 :: "nat \<Rightarrow> string" where
  "append_utf8 cp =
     (if cp < 0x80 then [chr cp]
      else if cp < 0x800 then [chr (0xC0 + cp div 0x40), chr (0x80 + cp mod 0x40)]
      else if cp < 0x10000 then
        [chr (0xE0 + cp div 0x1000), chr (0x80 + cp div 0x40 mod 0x40), chr (0x80 + cp mod 0x40)]
      else
        [chr (0xF0 + cp div 0x40000), chr (0x80 + cp div 0x1000 mod 0x40),
         chr (0x80 + cp div 0x40 mod 0x40), chr (0x80 + cp mod 0x40)])"

text \<open>A Unicode scalar value: a code point that is not a surrogate.\<close>

definition scalar_value :: "nat \<Rightarrow> bool" where
  "scalar_value cp \<longleftrightarrow> cp < 0xD800 \<or> 0xE000 \<le> cp \<and> cp \<le> 0x10FFFF"

definition utf8_valid :: "string \<Rightarrow> bool" where
  "utf8_valid s \<longleftrightarrow> (\<exists>cps. list_all scalar_value cps \<and> s = concat (map append_utf8 cps))"

section \<open>Checking one sequence\<close>

text \<open>
  For a lead byte of at least \<open>0x80\<close>: the number of continuation bytes and the range of the
  first of them, or \<open>None\<close> if no sequence starts with it.  Both \<open>ValidateUtf8Sequence\<close> and
  \<open>SanitizeUtf8\<close> use this table.
\<close>

definition utf8_lead :: "nat \<Rightarrow> (nat \<times> nat \<times> nat) option" where
  "utf8_lead b0 =
     (if 0xC2 \<le> b0 \<and> b0 \<le> 0xDF then Some (1, 0x80, 0xBF)
      else if 0xE0 \<le> b0 \<and> b0 \<le> 0xEF then
        Some (2, if b0 = 0xE0 then 0xA0 else 0x80, if b0 = 0xED then 0x9F else 0xBF)
      else if 0xF0 \<le> b0 \<and> b0 \<le> 0xF4 then
        Some (3, if b0 = 0xF0 then 0x90 else 0x80, if b0 = 0xF4 then 0x8F else 0xBF)
      else None)"

text \<open>\<open>(c & 0xC0) == 0x80\<close>.\<close>

definition is_continuation :: "char \<Rightarrow> bool" where
  "is_continuation c \<longleftrightarrow> byte_of c div 0x40 = 2"

text \<open>
  The loop body of \<open>SanitizeUtf8\<close> from the lead byte on: the length of the well-formed sequence at
  the head of the text, if there is one.
\<close>

definition utf8_seq_length :: "string \<Rightarrow> nat option" where
  "utf8_seq_length s =
     (case s of
        [] \<Rightarrow> None
      | c # _ \<Rightarrow>
          (case utf8_lead (byte_of c) of
             None \<Rightarrow> None
           | Some (cont, lo, hi) \<Rightarrow>
               if cont < length s \<and> lo \<le> byte_of (s ! 1) \<and> byte_of (s ! 1) \<le> hi \<and>
                  list_all is_continuation (take (cont - 1) (drop 2 s))
               then Some (cont + 1) else None))"

lemma utf8_lead_cont: "utf8_lead b = Some (cont, lo, hi) \<Longrightarrow> 1 \<le> cont \<and> cont \<le> 3"
  by (auto simp: utf8_lead_def split: if_splits)

lemma utf8_seq_length_bounds: "utf8_seq_length s = Some n \<Longrightarrow> 2 \<le> n \<and> n \<le> 4 \<and> n \<le> length s"
  by (auto simp: utf8_seq_length_def split: list.splits option.splits if_splits
      dest!: utf8_lead_cont)

text \<open>\<open>JsonValue::SanitizeUtf8\<close>: each byte that starts no sequence becomes U+FFFD.\<close>

definition replacement_char :: string where
  "replacement_char = [chr 0xEF, chr 0xBF, chr 0xBD]"

function sanitize_utf8 :: "string \<Rightarrow> string" where
  "sanitize_utf8 [] = []"
| "sanitize_utf8 (c # cs) =
     (if byte_of c < 0x80 then c # sanitize_utf8 cs
      else case utf8_seq_length (c # cs) of
             Some n \<Rightarrow> take n (c # cs) @ sanitize_utf8 (drop n (c # cs))
           | None \<Rightarrow> replacement_char @ sanitize_utf8 cs)"
  by pat_completeness auto
termination
  by (relation "measure length") (auto dest: utf8_seq_length_bounds)

text \<open>The text is a sequence of ASCII bytes and well-formed sequences: the check as a scan.\<close>

function utf8_scan_ok :: "string \<Rightarrow> bool" where
  "utf8_scan_ok [] = True"
| "utf8_scan_ok (c # cs) =
     (if byte_of c < 0x80 then utf8_scan_ok cs
      else case utf8_seq_length (c # cs) of
             Some n \<Rightarrow> utf8_scan_ok (drop n (c # cs))
           | None \<Rightarrow> False)"
  by pat_completeness auto
termination
  by (relation "measure length") (auto dest: utf8_seq_length_bounds)

declare sanitize_utf8.simps(2) [simp del]
declare utf8_scan_ok.simps(2) [simp del]

section \<open>The scan accepts exactly the encoded texts\<close>

lemma is_continuation_iff: "is_continuation c \<longleftrightarrow> 0x80 \<le> byte_of c \<and> byte_of c < 0xC0"
  by (auto simp: is_continuation_def)

text \<open>The three shapes of a sequence, as conditions on its bytes.\<close>

lemma seq_length_2:
  "utf8_lead (byte_of c0) = Some (1, lo, hi) \<Longrightarrow> lo \<le> byte_of c1 \<Longrightarrow> byte_of c1 \<le> hi \<Longrightarrow>
     n = 2 \<Longrightarrow> utf8_seq_length (c0 # c1 # s) = Some n"
  by (simp add: utf8_seq_length_def)

lemma seq_length_3:
  "utf8_lead (byte_of c0) = Some (2, lo, hi) \<Longrightarrow> lo \<le> byte_of c1 \<Longrightarrow> byte_of c1 \<le> hi \<Longrightarrow>
     is_continuation c2 \<Longrightarrow> n = 3 \<Longrightarrow> utf8_seq_length (c0 # c1 # c2 # s) = Some n"
  by (simp add: utf8_seq_length_def)

lemma seq_length_4:
  "utf8_lead (byte_of c0) = Some (3, lo, hi) \<Longrightarrow> lo \<le> byte_of c1 \<Longrightarrow> byte_of c1 \<le> hi \<Longrightarrow>
     is_continuation c2 \<Longrightarrow> is_continuation c3 \<Longrightarrow>
     n = 4 \<Longrightarrow> utf8_seq_length (c0 # c1 # c2 # c3 # s) = Some n"
  by (simp add: utf8_seq_length_def)

lemma horner_64: "y < 64 \<Longrightarrow> (a * 64 + y) div 64 = a" "y < 64 \<Longrightarrow> (a * 64 + y) mod 64 = y" for y a :: nat
  by simp_all

text \<open>An encoded scalar value beyond ASCII is one sequence.\<close>

lemma append_utf8_seq:
  assumes "scalar_value cp" "0x80 \<le> cp"
  shows "utf8_seq_length (append_utf8 cp @ s) = Some (length (append_utf8 cp)) \<and>
    append_utf8 cp \<noteq> [] \<and> 0x80 \<le> byte_of (hd (append_utf8 cp))"
proof -
  have low: "is_continuation (chr (0x80 + n mod 0x40))" for n
    by (simp add: is_continuation_iff)
  consider "cp < 0x800" | "0x800 \<le> cp" "cp < 0x10000" | "0x10000 \<le> cp"
    by linarith
  then show ?thesis
  proof cases
    case 1
    define a where "a = cp div 0x40"
    have a: "2 \<le> a" "a < 32" using 1 assms by (auto simp: a_def)
    have enc: "append_utf8 cp = [chr (0xC0 + a), chr (0x80 + cp mod 0x40)]"
      using 1 assms by (simp add: append_utf8_def a_def)
    have "utf8_lead (0xC0 + a) = Some (1, 0x80, 0xBF)" using a by (simp add: utf8_lead_def)
    then show ?thesis using a by (simp add: enc seq_length_2)
  next
    case 2
    define a b where "a = cp div 0x1000" and "b = cp div 0x40 mod 0x40"
    have enc: "append_utf8 cp = [chr (0xE0 + a), chr (0x80 + b), chr (0x80 + cp mod 0x40)]"
      using 2 by (simp add: append_utf8_def a_def b_def)
    have a: "a < 16" and b: "b < 64" using 2 by (simp_all add: a_def b_def)
    have a0: "32 \<le> b" if "a = 0" using that 2 by (simp add: a_def b_def)
    have a13: "b < 32" if "a = 13"
    proof -
      have "cp < 0xD800" using that assms 2 by (auto simp: a_def scalar_value_def)
      moreover have "0xD000 \<le> cp" using that by (simp add: a_def)
      ultimately obtain r where "cp = 0xD000 + r" "r < 0x800"
        by (intro that [of "cp - 0xD000"]) simp_all
      then have "cp div 0x40 = 832 + r div 64" "r div 64 < 32" by simp_all
      then show ?thesis using horner_64(2) [of "r div 64" 13] by (simp add: b_def)
    qed
    have "utf8_lead (0xE0 + a) = Some (2, if a = 0 then 0xA0 else 0x80, if a = 13 then 0x9F else 0xBF)"
      using a by (simp add: utf8_lead_def)
    then show ?thesis
      using a b a0 a13 low by (auto simp: enc intro!: seq_length_3)
  next
    case 3
    define a b where "a = cp div 0x40000" and "b = cp div 0x1000 mod 0x40"
    have enc: "append_utf8 cp = [chr (0xF0 + a), chr (0x80 + b), chr (0x80 + cp div 0x40 mod 0x40),
        chr (0x80 + cp mod 0x40)]"
      using 3 by (simp add: append_utf8_def a_def b_def)
    have top: "cp \<le> 0x10FFFF" using 3 assms by (simp add: scalar_value_def)
    have a: "a \<le> 4" and b: "b < 64" using top by (simp_all add: a_def b_def)
    have a0: "16 \<le> b" if "a = 0"
    proof -
      have "cp < 0x40000" using that by (simp add: a_def)
      then show ?thesis using 3 by (simp add: b_def)
    qed
    have a4: "b < 16" if "a = 4"
    proof -
      have "0x100000 \<le> cp" using that by (simp add: a_def)
      with top obtain r where "cp = 0x100000 + r" "r < 0x10000"
        by (intro that [of "cp - 0x100000"]) simp_all
      then have "cp div 0x1000 = 256 + r div 0x1000" "r div 0x1000 < 16" by simp_all
      then show ?thesis using horner_64(2) [of "r div 0x1000" 4] by (simp add: b_def)
    qed
    have "utf8_lead (0xF0 + a) = Some (3, if a = 0 then 0x90 else 0x80, if a = 4 then 0x8F else 0xBF)"
      using a by (simp add: utf8_lead_def)
    then show ?thesis
      using a b a0 a4 low by (auto simp: enc intro!: seq_length_4)
  qed
qed

text \<open>Conversely a sequence is the encoding of a scalar value.\<close>

lemma byte_eqI: "byte_of c = n \<Longrightarrow> chr n = c"
  by auto

lemma utf8_seq_decode:
  assumes "utf8_seq_length s = Some n"
  shows "\<exists>cp. scalar_value cp \<and> 0x80 \<le> cp \<and> take n s = append_utf8 cp"
proof -
  obtain c0 t cont lo hi where s: "s = c0 # t"
    and lead: "utf8_lead (byte_of c0) = Some (cont, lo, hi)"
    and len: "cont \<le> length t" "n = cont + 1"
    and b1: "lo \<le> byte_of (s ! 1)" "byte_of (s ! 1) \<le> hi"
    and tl: "list_all is_continuation (take (cont - 1) (drop 2 s))"
    using assms by (auto simp: utf8_seq_length_def split: list.splits option.splits if_splits)
  define x0 where "x0 = byte_of c0"
  have "1 \<le> cont" using utf8_lead_cont [OF lead] by simp
  then obtain c1 t1 where t: "t = c1 # t1" using len by (cases t) auto
  define x1 where "x1 = byte_of c1"
  have x1: "lo \<le> x1" "x1 \<le> hi" using b1 by (simp_all add: s t x1_def)
  consider "cont = 1" | "cont = 2" | "cont = 3"
    using utf8_lead_cont [OF lead] by linarith
  then show ?thesis
  proof cases
    case 1
    then have x0: "0xC2 \<le> x0" "x0 \<le> 0xDF" "lo = 0x80" "hi = 0xBF"
      using lead by (auto simp: utf8_lead_def x0_def split: if_splits)
    define y where "y = x1 - 0x80"
    have y: "y < 64" "x1 = 0x80 + y" using x0 x1 by (auto simp: y_def)
    define cp where "cp = (x0 - 0xC0) * 0x40 + y"
    have cp: "cp div 0x40 = x0 - 0xC0" "cp mod 0x40 = x1 - 0x80" "0x80 \<le> cp" "cp < 0x800"
      using x0 y by (auto simp: cp_def)
    have "append_utf8 cp = [c0, c1]"
      using cp x0 x1 y by (auto simp: append_utf8_def x0_def x1_def intro!: byte_eqI)
    then show ?thesis
      using cp 1 len by (intro exI [of _ cp]) (simp add: s t scalar_value_def)
  next
    case 2
    then obtain c2 t2 where t1: "t1 = c2 # t2" using len t by (cases t1) auto
    define x2 where "x2 = byte_of c2"
    have x2: "0x80 \<le> x2" "x2 < 0xC0" using tl 2 by (simp_all add: s t t1 x2_def is_continuation_iff)
    have x0: "0xE0 \<le> x0" "x0 \<le> 0xEF" "x0 = 0xE0 \<longrightarrow> 0xA0 \<le> x1" "0x80 \<le> x1" "x1 \<le> 0xBF"
        "x0 = 0xED \<longrightarrow> x1 \<le> 0x9F"
      using lead 2 x1 by (auto simp: utf8_lead_def x0_def split: if_splits)
    define y0 y1 y2 where "y0 = x0 - 0xE0" and "y1 = x1 - 0x80" and "y2 = x2 - 0x80"
    have y: "y0 < 16" "y1 < 64" "y2 < 64" "y0 = 0 \<longrightarrow> 32 \<le> y1" "y0 = 13 \<longrightarrow> y1 < 32"
      using x0 x2 by (auto simp: y0_def y1_def y2_def)
    define z where "z = y0 * 0x40 + y1"
    define cp where "cp = z * 0x40 + y2"
    have h: "cp div 0x40 = z" "cp mod 0x40 = y2" "z div 0x40 = y0" "z mod 0x40 = y1"
      unfolding cp_def z_def using y by (simp_all only: horner_64)
    have cp: "cp div 0x1000 = y0" "cp div 0x40 mod 0x40 = y1" "cp mod 0x40 = y2"
      using div_mult2_eq [of cp 64 64] by (simp_all add: h)
    have range: "0x800 \<le> cp" "cp < 0x10000" using y by (auto simp: cp_def z_def)
    have "scalar_value cp"
      using y range by (cases "y0 < 13"; cases "y0 = 13") (auto simp: scalar_value_def cp_def z_def)
    moreover have "append_utf8 cp = [c0, c1, c2]"
      using cp range x0 x2
      by (auto simp: append_utf8_def y0_def y1_def y2_def x0_def x1_def x2_def intro!: byte_eqI)
    ultimately show ?thesis
      using range 2 len by (intro exI [of _ cp]) (simp add: s t t1)
  next
    case 3
    then obtain c2 c3 t3 where t1: "t1 = c2 # c3 # t3" using len t
      by (cases t1; cases "tl t1") auto
    define x2 x3 where "x2 = byte_of c2" and "x3 = byte_of c3"
    have x2: "0x80 \<le> x2" "x2 < 0xC0" "0x80 \<le> x3" "x3 < 0xC0"
      using tl 3 by (simp_all add: s t t1 x2_def x3_def is_continuation_iff)
    have x0: "0xF0 \<le> x0" "x0 \<le> 0xF4" "x0 = 0xF0 \<longrightarrow> 0x90 \<le> x1" "0x80 \<le> x1" "x1 \<le> 0xBF"
        "x0 = 0xF4 \<longrightarrow> x1 \<le> 0x8F"
      using lead 3 x1 by (auto simp: utf8_lead_def x0_def split: if_splits)
    define y0 y1 y2 y3 where "y0 = x0 - 0xF0" and "y1 = x1 - 0x80" and "y2 = x2 - 0x80"
      and "y3 = x3 - 0x80"
    have y: "y0 \<le> 4" "y1 < 64" "y2 < 64" "y3 < 64" "y0 = 0 \<longrightarrow> 16 \<le> y1" "y0 = 4 \<longrightarrow> y1 < 16"
      using x0 x2 by (auto simp: y0_def y1_def y2_def y3_def)
    define z where "z = y0 * 0x40 + y1"
    define z' where "z' = z * 0x40 + y2"
    define cp where "cp = z' * 0x40 + y3"
    have h: "cp div 0x40 = z'" "cp mod 0x40 = y3" "z' div 0x40 = z" "z' mod 0x40 = y2"
        "z div 0x40 = y0" "z mod 0x40 = y1"
      unfolding cp_def z'_def z_def using y by (simp_all only: horner_64)
    have cp: "cp div 0x40000 = y0" "cp div 0x1000 mod 0x40 = y1" "cp div 0x40 mod 0x40 = y2"
        "cp mod 0x40 = y3"
      using div_mult2_eq [of cp 64 64] div_mult2_eq [of cp 64 4096] div_mult2_eq [of z' 64 64]
      by (simp_all add: h)
    have range: "0x10000 \<le> cp" "cp \<le> 0x10FFFF" using y by (auto simp: cp_def z'_def z_def)
    have "append_utf8 cp = [c0, c1, c2, c3]"
      using cp range x0 x2
      by (auto simp: append_utf8_def y0_def y1_def y2_def y3_def x0_def x1_def x2_def x3_def
          intro!: byte_eqI)
    then show ?thesis
      using range 3 len by (intro exI [of _ cp]) (simp add: s t t1 scalar_value_def)
  qed
qed

section \<open>Sanitising\<close>

lemma utf8_seq_take:
  assumes "utf8_seq_length s = Some n"
  shows "utf8_seq_length (take n s @ t) = Some n"
proof -
  obtain cp where cp: "scalar_value cp" "0x80 \<le> cp" "take n s = append_utf8 cp"
    using utf8_seq_decode [OF assms] by blast
  have "length (take n s) = n" using utf8_seq_length_bounds [OF assms] by simp
  then show ?thesis using append_utf8_seq [OF cp(1,2), of t] by (simp add: cp(3))
qed

lemma scan_ok_ascii [simp]: "byte_of c < 0x80 \<Longrightarrow> utf8_scan_ok (c # s) = utf8_scan_ok s"
  by (simp add: utf8_scan_ok.simps)

lemma scan_ok_seq:
  assumes "utf8_seq_length (take n s @ t) = Some n" "n \<le> length s" "0x80 \<le> byte_of (hd (take n s))"
  shows "utf8_scan_ok (take n s @ t) = utf8_scan_ok t"
proof -
  have "2 \<le> n" using utf8_seq_length_bounds [OF assms(1)] by simp
  then obtain c cs where cs: "take n s = c # cs" using assms(2) by (cases s; cases n) auto
  have "length (take n s) = n" using assms(2) by simp
  then have n: "n = Suc (length cs)" by (simp add: cs)
  have "utf8_seq_length (c # cs @ t) = Some n" "0x80 \<le> byte_of c"
    using assms(1,3) by (simp_all only: cs append_Cons list.sel)
  then have "utf8_scan_ok (c # cs @ t) = utf8_scan_ok t" by (simp add: n utf8_scan_ok.simps)
  then show ?thesis by (simp only: cs append_Cons)
qed

lemma append_utf8_ascii: "cp < 0x80 \<Longrightarrow> append_utf8 cp = [chr cp]"
  by (simp add: append_utf8_def)

lemma scan_ok_encoded: "scalar_value cp \<Longrightarrow> utf8_scan_ok (append_utf8 cp @ s) = utf8_scan_ok s"
proof (cases "cp < 0x80")
  case False
  assume "scalar_value cp"
  with False append_utf8_seq [of cp s] scan_ok_seq [of "length (append_utf8 cp)" "append_utf8 cp" s]
  show ?thesis by simp
qed (simp add: append_utf8_ascii)

text \<open>The scan accepts exactly the encoded sequences of scalar values.\<close>

lemma utf8_valid_scan_ok: "utf8_valid s \<Longrightarrow> utf8_scan_ok s"
proof -
  have "list_all scalar_value cps \<Longrightarrow> utf8_scan_ok (concat (map append_utf8 cps))" for cps
    by (induction cps) (auto simp: scan_ok_encoded)
  then show "utf8_valid s \<Longrightarrow> utf8_scan_ok s" by (auto simp: utf8_valid_def)
qed

lemma utf8_scan_ok_valid: "utf8_scan_ok s \<Longrightarrow> utf8_valid s"
proof (induction s rule: utf8_scan_ok.induct)
  case 1
  have "list_all scalar_value [] \<and> [] = concat (map append_utf8 [])" by simp
  then show ?case unfolding utf8_valid_def by blast
next
  case (2 c cs)
  have "\<exists>cp t. scalar_value cp \<and> c # cs = append_utf8 cp @ t \<and> utf8_valid t"
  proof (cases "byte_of c < 0x80")
    case True
    with 2 have "utf8_valid cs" by (simp add: utf8_scan_ok.simps)
    with True show ?thesis
      by (intro exI [of _ "byte_of c"] exI [of _ cs])
         (simp add: scalar_value_def append_utf8_ascii)
  next
    case False
    then obtain n where n: "utf8_seq_length (c # cs) = Some n"
        "utf8_scan_ok (drop n (c # cs))"
      using "2.prems" by (auto simp: utf8_scan_ok.simps split: option.splits)
    with "2.IH"(2) False have "utf8_valid (drop n (c # cs))" by blast
    with utf8_seq_decode [OF n(1)] show ?thesis by (metis append_take_drop_id)
  qed
  then obtain cp t cps where "scalar_value cp" "c # cs = append_utf8 cp @ t"
      "list_all scalar_value cps" "t = concat (map append_utf8 cps)"
    by (auto simp: utf8_valid_def)
  then show ?case
    unfolding utf8_valid_def by (intro exI [of _ "cp # cps"]) simp
qed

lemma utf8_scan_ok_iff: "utf8_scan_ok s \<longleftrightarrow> utf8_valid s"
  using utf8_valid_scan_ok utf8_scan_ok_valid by blast

lemma utf8_valid_append: "utf8_valid s \<Longrightarrow> utf8_valid t \<Longrightarrow> utf8_valid (s @ t)"
  unfolding utf8_valid_def
  by (metis concat_append list_all_append map_append)

lemma replacement_char_encoded: "replacement_char = append_utf8 0xFFFD"
  by (simp add: replacement_char_def append_utf8_def)

lemma sanitize_scan_ok: "utf8_scan_ok (sanitize_utf8 s)"
proof (induction s rule: sanitize_utf8.induct)
  case (2 c cs)
  show ?case
  proof (cases "byte_of c < 0x80")
    case True
    with 2 show ?thesis by (simp add: sanitize_utf8.simps)
  next
    case high: False
    show ?thesis
    proof (cases "utf8_seq_length (c # cs)")
      case None
      with high 2 show ?thesis
        by (simp add: sanitize_utf8.simps replacement_char_encoded scan_ok_encoded scalar_value_def)
    next
      case (Some n)
      have n: "0 < n" "n \<le> length (c # cs)" using utf8_seq_length_bounds [OF Some] by simp_all
      have "hd (take n (c # cs)) = c" using n by (cases n) simp_all
      then have "utf8_scan_ok (take n (c # cs) @ sanitize_utf8 (drop n (c # cs))) =
          utf8_scan_ok (sanitize_utf8 (drop n (c # cs)))"
        using high n(2) utf8_seq_take [OF Some] by (intro scan_ok_seq) simp_all
      with high Some 2 show ?thesis by (simp add: sanitize_utf8.simps)
    qed
  qed
qed simp

lemma sanitize_id: "utf8_scan_ok s \<Longrightarrow> sanitize_utf8 s = s"
  by (induction s rule: utf8_scan_ok.induct)
     (auto simp: utf8_scan_ok.simps sanitize_utf8.simps split: if_splits option.splits)

end
