(* ===== verification/Json_Parser.thy ===== *)
theory Json_Parser
  imports Utf8
begin

text \<open>
  \<open>src/core/JsonParser.cpp\<close>: the iterative JSON parser.  The state of \<open>class Parser\<close>, the
  input and the offset \<open>pos_\<close>, is the rest of the input from \<open>pos_\<close> on; the offset that
  \<open>Fail\<close> reports is the size \<open>n\<close> of the whole input minus the length of the rest.  The
  explicit stack of \<open>ParseContainer\<close> is kept: \<open>container_step\<close> is one iteration of its loop.
\<close>

section \<open>Failing, white space, literals\<close>

definition parse_fail :: "nat \<Rightarrow> string \<Rightarrow> string \<Rightarrow> 'a mres" where
  "parse_fail n reason rest = throw ParseError
     (''JSON parse error: '' @ reason @ '' at offset '' @ dec_nat (n - length rest))"

lemma parse_fail_neq_Inr [simp]: "parse_fail n r s \<noteq> Inr x"
  by (simp add: parse_fail_def)

lemma rbind_parse_fail [simp]: "rbind (parse_fail n r s) f = parse_fail n r s"
  by (simp add: parse_fail_def)

definition is_ws :: "char \<Rightarrow> bool" where
  "is_ws c \<longleftrightarrow> c = CHR '' '' \<or> c = chr 9 \<or> c = chr 13 \<or> c = chr 10"

definition skip_ws :: "string \<Rightarrow> string" where
  "skip_ws = dropWhile is_ws"

definition parse_literal :: "nat \<Rightarrow> string \<Rightarrow> (json \<times> string) mres" where
  "parse_literal n s =
     (if take 4 s = ''null'' then Inr (JNull, drop 4 s)
      else if take 4 s = ''true'' then Inr (JBool True, drop 4 s)
      else if take 5 s = ''false'' then Inr (JBool False, drop 5 s)
      else parse_fail n ''invalid literal'' s)"

section \<open>Strings\<close>

definition dquote :: char where "dquote = chr 34"
definition backslash :: char where "backslash = chr 92"

definition hex_digit_value :: "char \<Rightarrow> nat option" where
  "hex_digit_value c =
     (let b = byte_of c in
      if 48 \<le> b \<and> b \<le> 57 then Some (b - 48)
      else if 97 \<le> b \<and> b \<le> 102 then Some (b - 97 + 10)
      else if 65 \<le> b \<and> b \<le> 70 then Some (b - 65 + 10)
      else None)"

fun hex_value :: "nat \<Rightarrow> string \<Rightarrow> nat option" where
  "hex_value v [] = Some v"
| "hex_value v (c # cs) =
     (case hex_digit_value c of None \<Rightarrow> None | Some d \<Rightarrow> hex_value (16 * v + d) cs)"

definition parse_hex4 :: "nat \<Rightarrow> string \<Rightarrow> (nat \<times> string) mres" where
  "parse_hex4 n s =
     (if length s < 4 then parse_fail n ''truncated unicode escape'' s
      else case hex_value 0 (take 4 s) of
             None \<Rightarrow> parse_fail n ''invalid hex digit'' s
           | Some v \<Rightarrow> Inr (v, drop 4 s))"

text \<open>\<open>ParseUnicodeEscape\<close>, from the character after the \<open>u\<close>: the bytes to append.\<close>

definition parse_unicode_escape :: "nat \<Rightarrow> string \<Rightarrow> (string \<times> string) mres" where
  "parse_unicode_escape n s = rbind (parse_hex4 n s) (\<lambda>(cp, s1).
     if 0xD800 \<le> cp \<and> cp \<le> 0xDBFF then
       (if length s1 < 2 \<or> s1 ! 0 \<noteq> backslash \<or> s1 ! 1 \<noteq> CHR ''u''
        then parse_fail n ''unpaired high surrogate'' s1
        else rbind (parse_hex4 n (drop 2 s1)) (\<lambda>(lo, s2).
          if lo < 0xDC00 \<or> 0xDFFF < lo then parse_fail n ''invalid low surrogate'' s2
          else Inr (append_utf8 (0x10000 + (cp - 0xD800) * 0x400 + (lo - 0xDC00)), s2)))
     else if 0xDC00 \<le> cp \<and> cp \<le> 0xDFFF then parse_fail n ''unpaired low surrogate'' s1
     else Inr (append_utf8 cp, s1))"

text \<open>\<open>ValidateUtf8Sequence\<close>: the length of the sequence at the head of a non-empty text.\<close>

definition validate_utf8_sequence :: "nat \<Rightarrow> string \<Rightarrow> nat mres" where
  "validate_utf8_sequence n s =
     (case utf8_lead (byte_of (hd s)) of
        None \<Rightarrow> parse_fail n ''invalid UTF-8 leading byte'' s
      | Some (cont, lo, hi) \<Rightarrow>
          if length s \<le> cont then parse_fail n ''truncated UTF-8 sequence'' s
          else if byte_of (s ! 1) < lo \<or> hi < byte_of (s ! 1)
          then parse_fail n ''invalid UTF-8 sequence'' s
          else if list_ex (\<lambda>c. \<not> is_continuation c) (take (cont - 1) (drop 2 s))
          then parse_fail n ''invalid UTF-8 continuation byte'' s
          else Inr (cont + 1))"

lemma validate_utf8_sequence_eq:
  "s \<noteq> [] \<Longrightarrow> validate_utf8_sequence n s = Inr k \<longleftrightarrow> utf8_seq_length s = Some k"
  by (cases s) (auto simp: validate_utf8_sequence_def utf8_seq_length_def list_ex_iff list_all_iff
      split: option.splits)

lemma validate_utf8_bounds:
  "s \<noteq> [] \<Longrightarrow> validate_utf8_sequence n s = Inr k \<Longrightarrow> 0 < k \<and> k \<le> length s"
  using utf8_seq_length_bounds by (fastforce simp: validate_utf8_sequence_eq)

text \<open>The single-character escapes.\<close>

definition simple_escape :: "char \<Rightarrow> char option" where
  "simple_escape e =
     (if e = dquote then Some dquote
      else if e = backslash then Some backslash
      else if e = CHR ''/'' then Some CHR ''/''
      else if e = CHR ''b'' then Some (chr 8)
      else if e = CHR ''f'' then Some (chr 12)
      else if e = CHR ''n'' then Some (chr 10)
      else if e = CHR ''r'' then Some (chr 13)
      else if e = CHR ''t'' then Some (chr 9)
      else None)"

text \<open>
  \<open>ParseString\<close> from the character after the opening quote; \<open>acc\<close> is \<open>result\<close>.  One call is one
  step of the inner loop over unescaped text, the closing quote, or one escape.
\<close>

lemma parse_hex4_shorter: "parse_hex4 n s = Inr (v, s') \<Longrightarrow> length s' + 4 = length s"
  by (auto simp: parse_hex4_def split: if_splits option.splits)

lemma parse_unicode_escape_shorter:
  "parse_unicode_escape n s = Inr (t, s') \<Longrightarrow> length s' < length s"
  by (auto simp: parse_unicode_escape_def res_simps dest!: parse_hex4_shorter split: if_splits)

function (sequential) parse_string :: "nat \<Rightarrow> string \<Rightarrow> string \<Rightarrow> (string \<times> string) mres" where
  "parse_string n acc [] = parse_fail n ''unterminated string'' []"
| "parse_string n acc (c # cs) =
     (if c = dquote then Inr (acc, cs)
      else if c = backslash then
        (case cs of
           [] \<Rightarrow> parse_fail n ''unterminated string'' []
         | e # es \<Rightarrow>
             (case simple_escape e of
                Some x \<Rightarrow> parse_string n (acc @ [x]) es
              | None \<Rightarrow>
                  if e = CHR ''u'' then
                    rbind (parse_unicode_escape n es) (\<lambda>(t, es'). parse_string n (acc @ t) es')
                  else parse_fail n ''invalid escape sequence'' (e # es)))
      else if byte_of c < 0x20 then parse_fail n ''unescaped control character'' (c # cs)
      else if byte_of c < 0x80 then parse_string n (acc @ [c]) cs
      else rbind (validate_utf8_sequence n (c # cs)) (\<lambda>k.
             parse_string n (acc @ take k (c # cs)) (drop k (c # cs))))"
  by pat_completeness auto
termination
  by (relation "measure (\<lambda>(n, acc, s). length s)")
     (auto dest: parse_unicode_escape_shorter validate_utf8_bounds [rotated])

declare parse_string.simps(2) [simp del]

lemma parse_string_shorter: "parse_string n acc s = Inr (t, s') \<Longrightarrow> length s' < length s"
proof (induction n acc s rule: parse_string.induct)
  case (2 n acc c cs)
  consider "c = dquote" | e es x where "c \<noteq> dquote" "c = backslash" "cs = e # es" "simple_escape e = Some x"
    | es u es' where "c \<noteq> dquote" "c = backslash" "cs = CHR ''u'' # es"
        "simple_escape CHR ''u'' = None" "parse_unicode_escape n es = Inr (u, es')"
    | "c \<noteq> dquote" "c \<noteq> backslash" "0x20 \<le> byte_of c" "byte_of c < 0x80"
    | k where "c \<noteq> dquote" "c \<noteq> backslash" "0x80 \<le> byte_of c"
        "validate_utf8_sequence n (c # cs) = Inr k"
    using "2.prems" unfolding parse_string.simps(2)
    by (auto simp: res_simps not_less split: if_splits list.splits option.splits)
  then show ?case
  proof cases
    case 1
    with "2.prems" show ?thesis by (simp add: parse_string.simps(2))
  next
    case (2 e es x)
    with "2.prems" "2.IH"(2) [of e es x] show ?thesis by (simp add: parse_string.simps(2))
  next
    case (3 es u es')
    then have "parse_string n (acc @ u) es' = Inr (t, s')"
      using "2.prems" by (simp add: parse_string.simps(2))
    with 3 "2.IH"(1) have "length s' < length es'" by blast
    with 3 parse_unicode_escape_shorter [of n es u es'] show ?thesis by simp
  next
    case 4
    with "2.prems" "2.IH"(3) show ?thesis by (simp add: parse_string.simps(2))
  next
    case (5 k)
    with "2.prems" "2.IH"(4) [of k] validate_utf8_bounds [of "c # cs" n k]
    show ?thesis by (simp add: parse_string.simps(2))
  qed
qed simp

section \<open>Numbers\<close>

text \<open>\<open>std::from_chars\<close> on a 64-bit signed and on a 64-bit unsigned integer.\<close>

definition from_chars_i64 :: "string \<Rightarrow> i64 fc_result" where
  "from_chars_i64 t =
     (let (neg, ds) = strip_minus t;
          v = (if neg then - int (nat_of_digits (takeWhile is_digit ds))
               else int (nat_of_digits (takeWhile is_digit ds)))
      in if takeWhile is_digit ds = [] then FcInvalid
         else if - (2 ^ 63) \<le> v \<and> v < 2 ^ 63 then FcOk (word_of_int v) else FcRange)"

definition from_chars_u64 :: "string \<Rightarrow> 64 word fc_result" where
  "from_chars_u64 t =
     (let v = nat_of_digits (takeWhile is_digit t)
      in if takeWhile is_digit t = [] then FcInvalid
         else if v < 2 ^ 64 then FcOk (word_of_nat v) else FcRange)"

text \<open>
  \<open>ParseFloatFallback\<close> in a locale whose decimal point is the period: \<open>strtod\<close> rounds as
  \<open>from_chars\<close> does, sets \<open>ERANGE\<close> for an overflow (which fails) and for a result that is zero
  or subnormal (which is returned).
\<close>

definition parse_float_fallback :: "nat \<Rightarrow> string \<Rightarrow> string \<Rightarrow> f64 mres" where
  "parse_float_fallback n token rest =
     (case read_decimal token of
        None \<Rightarrow> parse_fail n ''invalid number'' rest
      | Some (neg, m, k) \<Rightarrow>
          if inf_bits \<le> round_decimal m k then parse_fail n ''number out of range'' rest
          else Inr (f64_make neg (round_decimal m k)))"

text \<open>\<open>ParseNumberToken\<close>; \<open>rest\<close> is the input after the token.\<close>

definition parse_number_token :: "nat \<Rightarrow> string \<Rightarrow> bool \<Rightarrow> string \<Rightarrow> json mres" where
  "parse_number_token n token is_float rest =
     (if \<not> is_float then
        (case from_chars_i64 token of
           FcOk i \<Rightarrow> Inr (JInt i)
         | FcRange \<Rightarrow>
             if token \<noteq> [] \<and> hd token = CHR ''-'' then parse_fail n ''integer out of range'' rest
             else (case from_chars_u64 token of
                     FcOk u \<Rightarrow>
                       if 2 ^ 63 \<le> unat u then
                         throw DeserializeFailed
                           (''JSON parse error: uint64 value out of int64 range: '' @ dec_nat (unat u))
                       else Inr (JInt u)
                   | _ \<Rightarrow> parse_fail n ''integer out of range'' rest)
         | FcInvalid \<Rightarrow> parse_fail n ''invalid number'' rest)
      else
        (case from_chars_double token of
           FcOk d \<Rightarrow> Inr (JDouble d)
         | FcRange \<Rightarrow> rmap JDouble (parse_float_fallback n token rest)
         | FcInvalid \<Rightarrow> parse_fail n ''invalid number'' rest))"

text \<open>The scan of \<open>ParseNumber\<close>, in its three parts; each fails at the start \<open>s\<close> of the token.\<close>

definition scan_int_part :: "nat \<Rightarrow> string \<Rightarrow> string \<Rightarrow> (string \<times> string) mres" where
  "scan_int_part n s s1 =
     (case s1 of
        [] \<Rightarrow> parse_fail n ''invalid number'' s
      | c # cs \<Rightarrow>
          if \<not> is_digit c then parse_fail n ''invalid number'' s
          else if c = CHR ''0'' then
            (if cs \<noteq> [] \<and> is_digit (hd cs) then parse_fail n ''leading zeros'' s else Inr ([c], cs))
          else Inr (span_digits s1))"

definition scan_frac_part :: "nat \<Rightarrow> string \<Rightarrow> string \<Rightarrow> (string \<times> string) mres" where
  "scan_frac_part n s s2 =
     (case s2 of
        c # cs \<Rightarrow>
          if c = CHR ''.'' then
            (if cs = [] \<or> \<not> is_digit (hd cs) then parse_fail n ''invalid fraction'' s
             else case span_digits cs of (ds, r) \<Rightarrow> Inr (c # ds, r))
          else Inr ([], s2)
      | [] \<Rightarrow> Inr ([], s2))"

definition scan_exp_part :: "nat \<Rightarrow> string \<Rightarrow> string \<Rightarrow> (string \<times> string) mres" where
  "scan_exp_part n s s3 =
     (case s3 of
        c # cs \<Rightarrow>
          if c = CHR ''e'' \<or> c = CHR ''E'' then
            (let (sg, ds) = (if cs \<noteq> [] \<and> (hd cs = CHR ''+'' \<or> hd cs = CHR ''-'')
                             then ([hd cs], tl cs) else ([], cs))
             in if ds = [] \<or> \<not> is_digit (hd ds) then parse_fail n ''invalid exponent'' s
                else case span_digits ds of (es, r) \<Rightarrow> Inr (c # sg @ es, r))
          else Inr ([], s3)
      | [] \<Rightarrow> Inr ([], s3))"

definition parse_number :: "nat \<Rightarrow> string \<Rightarrow> (json \<times> string) mres" where
  "parse_number n s =
     (let (sg, s1) = (if s \<noteq> [] \<and> hd s = CHR ''-'' then (''-'', tl s) else ([], s))
      in rbind (scan_int_part n s s1) (\<lambda>(ip, s2).
         rbind (scan_frac_part n s s2) (\<lambda>(fp, s3).
         rbind (scan_exp_part n s s3) (\<lambda>(ep, s4).
         rmap (\<lambda>v. (v, s4))
           (parse_number_token n (sg @ ip @ fp @ ep) (fp \<noteq> [] \<or> ep \<noteq> []) s4)))))"

text \<open>The scan consumes what it returns, and at least one character.\<close>

lemma span_digits_split: "span_digits s = (a, b) \<Longrightarrow> s = a @ b"
  by (auto simp: span_digits_def)

lemma scan_int_part_split: "scan_int_part n s s1 = Inr (a, b) \<Longrightarrow> s1 = a @ b \<and> a \<noteq> []"
  by (auto simp: scan_int_part_def dest: span_digits_split split: list.splits if_splits)
     (auto simp: span_digits_def)

lemma scan_frac_part_split: "scan_frac_part n s s2 = Inr (a, b) \<Longrightarrow> s2 = a @ b"
  by (auto simp: scan_frac_part_def dest: span_digits_split split: list.splits if_splits prod.splits)

lemma scan_exp_part_split: "scan_exp_part n s s3 = Inr (a, b) \<Longrightarrow> s3 = a @ b"
  by (auto simp: scan_exp_part_def Let_def dest!: span_digits_split
      split: list.splits if_splits prod.splits) (metis append_Cons append_Nil list.collapse)+

lemma parse_number_shorter:
  assumes "parse_number n s = Inr (v, s')"
  shows "length s' < length s"
proof -
  obtain sg s1 where sg: "(if s \<noteq> [] \<and> hd s = CHR ''-'' then (''-'', tl s) else ([], s)) = (sg, s1)"
    by fastforce
  have s: "s = sg @ s1" using sg by (cases s) (auto split: if_splits)
  obtain ip s2 fp s3 ep where "scan_int_part n s s1 = Inr (ip, s2)"
      "scan_frac_part n s s2 = Inr (fp, s3)" "scan_exp_part n s s3 = Inr (ep, s')"
    using assms by (auto simp: parse_number_def sg res_simps)
  then have "s = sg @ ip @ fp @ ep @ s'" "ip \<noteq> []"
    using s by (auto dest!: scan_int_part_split scan_frac_part_split scan_exp_part_split)
  then show ?thesis by simp
qed

section \<open>Scalars\<close>

definition parse_scalar_value :: "nat \<Rightarrow> string \<Rightarrow> (json \<times> string) mres" where
  "parse_scalar_value n s =
     (case s of
        [] \<Rightarrow> parse_fail n ''unexpected end of input'' s
      | c # cs \<Rightarrow>
          if c = dquote then rmap (\<lambda>(t, s'). (JString t, s')) (parse_string n [] cs)
          else if c = CHR ''t'' \<or> c = CHR ''f'' \<or> c = CHR ''n'' then parse_literal n s
          else if c = CHR ''-'' \<or> is_digit c then parse_number n s
          else parse_fail n ''unexpected character'' s)"

lemma parse_literal_shorter: "parse_literal n s = Inr (v, s') \<Longrightarrow> length s' < length s"
  by (cases s) (auto simp: parse_literal_def split: if_splits)

lemma parse_scalar_value_shorter:
  "parse_scalar_value n s = Inr (v, s') \<Longrightarrow> length s' < length s"
  by (auto simp: parse_scalar_value_def res_simps split: list.splits if_splits
      dest: parse_literal_shorter parse_number_shorter parse_string_shorter less_SucI)

section \<open>Containers\<close>

text \<open>
  \<open>EstimateElementCount\<close>: the capacity hint for an array, a scan of at most 4096 characters.
  \<open>estimate_string\<close> is its inner loop, which skips a string; \<open>depth\<close> is the bracket depth.
\<close>

fun estimate_string :: "string \<Rightarrow> string" where
  "estimate_string [] = []"
| "estimate_string (c # cs) =
     (if c = backslash then (case cs of [] \<Rightarrow> [] | _ # ds \<Rightarrow> estimate_string ds)
      else if c = dquote then cs
      else estimate_string cs)"

lemma estimate_string_le: "length (estimate_string s) \<le> length s"
proof (induction s rule: estimate_string.induct)
  case (2 c cs)
  then show ?case
    by (subst estimate_string.simps) (auto split: list.split simp del: estimate_string.simps)
qed simp

function (sequential) estimate_loop :: "nat \<Rightarrow> nat \<Rightarrow> string \<Rightarrow> nat" where
  "estimate_loop count depth [] = count"
| "estimate_loop count depth (c # cs) =
     (if c = dquote then estimate_loop count depth (estimate_string cs)
      else if c = CHR ''{'' \<or> c = CHR ''['' then estimate_loop count (depth + 1) cs
      else if c = CHR ''}'' \<or> c = CHR '']'' then
        (if depth = 0 then count else estimate_loop count (depth - 1) cs)
      else if c = CHR '','' \<and> depth = 0 then estimate_loop (count + 1) depth cs
      else estimate_loop count depth cs)"
  by pat_completeness auto
termination
  by (relation "measure (\<lambda>(count, depth, s). length s)") (simp_all add: less_Suc_eq_le estimate_string_le)

definition estimate_element_count :: "string \<Rightarrow> nat" where
  "estimate_element_count s = estimate_loop 1 0 (take 4096 s)"

text \<open>\<open>struct Frame\<close>.\<close>

record frame =
  fr_is_object :: bool
  fr_items :: "json list"
  fr_members :: members
  fr_key :: string
  fr_phase :: nat

definition max_depth :: nat where "max_depth = 1000"

definition new_frame :: "bool \<Rightarrow> frame" where
  "new_frame obj =
     \<lparr>fr_is_object = obj, fr_items = [], fr_members = [], fr_key = [], fr_phase = 0\<rparr>"

text \<open>The lambdas \<open>push_frame\<close> and \<open>complete_value\<close>; the head of the list is \<open>stack.back()\<close>.\<close>

definition push_frame :: "nat \<Rightarrow> bool \<Rightarrow> frame list \<Rightarrow> string \<Rightarrow> (frame list \<times> string) mres" where
  "push_frame n obj stk s =
     (if max_depth \<le> length stk
      then parse_fail n (''nesting depth exceeds '' @ dec_nat max_depth) s
      else Inr (new_frame obj # stk, tl s))"

fun complete_value :: "json \<Rightarrow> frame list \<Rightarrow> frame list" where
  "complete_value child [] = []"
| "complete_value child (parent # stk) =
     (if fr_is_object parent
      then parent\<lparr>fr_members := amap_emplace (fr_key parent) child (fr_members parent),
                  fr_key := [], fr_phase := 2\<rparr>
      else parent\<lparr>fr_items := fr_items parent @ [child], fr_phase := 2\<rparr>) # stk"

text \<open>
  One iteration ends in an error, in a new stack and rest of the input, or, when the outermost
  container is closed, in its value.
\<close>

type_synonym step_result = "((frame list \<times> string) + (json \<times> string)) mres"

definition finish_container :: "json \<Rightarrow> frame list \<Rightarrow> string \<Rightarrow> step_result" where
  "finish_container built stk s =
     (if stk = [] then Inr (Inr (built, s)) else Inr (Inl (complete_value built stk, s)))"

definition scalar_child :: "nat \<Rightarrow> frame list \<Rightarrow> string \<Rightarrow> step_result" where
  "scalar_child n stk s =
     rbind (parse_scalar_value n s) (\<lambda>(child, s'). Inr (Inl (complete_value child stk, s')))"

definition object_step :: "nat \<Rightarrow> frame \<Rightarrow> frame list \<Rightarrow> char \<Rightarrow> string \<Rightarrow> step_result" where
  "object_step n tp stk c cs =
     (if fr_phase tp = 0 then
        (if c = CHR ''}'' then finish_container (JObject (fr_members tp)) stk cs
         else if c \<noteq> dquote then parse_fail n ''expected object key'' (c # cs)
         else rbind (parse_string n [] cs) (\<lambda>(k, s1).
                let s2 = skip_ws s1 in
                if s2 = [] \<or> hd s2 \<noteq> CHR '':'' then parse_fail n (''expected '' @ [chr 39] @ '':'' @ [chr 39]) s2
                else Inr (Inl (tp\<lparr>fr_key := k, fr_phase := 1\<rparr> # stk, tl s2))))
      else if fr_phase tp = 1 then
        (if c = CHR ''{'' \<or> c = CHR ''[''
         then rmap Inl (push_frame n (c = CHR ''{'') (tp # stk) (c # cs))
         else scalar_child n (tp # stk) (c # cs))
      else if c = CHR '','' then
        (let s2 = skip_ws cs in
         if s2 = [] then parse_fail n ''unexpected end of object'' s2
         else if hd s2 = CHR ''}'' then parse_fail n ''trailing comma'' s2
         else Inr (Inl (tp\<lparr>fr_phase := 0\<rparr> # stk, s2)))
      else if c = CHR ''}'' then finish_container (JObject (fr_members tp)) stk cs
      else parse_fail n (''expected '' @ [chr 39] @ '','' @ [chr 39] @ '' or '' @ [chr 39] @ ''}'' @ [chr 39]) (c # cs))"

definition array_step :: "nat \<Rightarrow> frame \<Rightarrow> frame list \<Rightarrow> char \<Rightarrow> string \<Rightarrow> step_result" where
  "array_step n tp stk c cs =
     (if fr_phase tp = 2 then
        (if c = CHR '','' then
           (let s2 = skip_ws cs in
            if s2 = [] then parse_fail n ''unexpected end of array'' s2
            else if hd s2 = CHR '']'' then parse_fail n ''trailing comma'' s2
            else Inr (Inl (tp\<lparr>fr_phase := 1\<rparr> # stk, s2)))
         else if c = CHR '']'' then finish_container (JArray (fr_items tp)) stk cs
         else parse_fail n (''expected '' @ [chr 39] @ '','' @ [chr 39] @ '' or '' @ [chr 39] @ '']'' @ [chr 39]) (c # cs))
      else if c = CHR '']'' then
        (if fr_phase tp = 1 then parse_fail n ''trailing comma'' (c # cs)
         else finish_container (JArray (fr_items tp)) stk cs)
      else if c = CHR ''{'' \<or> c = CHR ''[''
      then rmap Inl (push_frame n (c = CHR ''{'') (tp # stk) (c # cs))
      else scalar_child n (tp # stk) (c # cs))"

text \<open>The loop never runs with an empty stack, so the first equation is never used by it.\<close>

fun container_step :: "nat \<Rightarrow> frame list \<Rightarrow> string \<Rightarrow> step_result" where
  "container_step n [] s = parse_fail n [] s"
| "container_step n (tp # stk) s =
     (case skip_ws s of
        [] \<Rightarrow> if fr_is_object tp then parse_fail n ''unexpected end of object'' []
              else parse_fail n ''unexpected end of array'' []
      | c # cs \<Rightarrow> if fr_is_object tp then object_step n tp stk c cs
                  else array_step n tp stk c cs)"

lemma skip_ws_le: "length (skip_ws s) \<le> length s"
  by (simp add: skip_ws_def length_dropWhile_le)

lemma container_step_shorter:
  assumes "container_step n stk s = Inr (Inl (stk', s'))"
  shows "length s' < length s"
proof (cases stk)
  case Nil
  with assms show ?thesis by simp
next
  case (Cons tp st)
  obtain c cs where cs: "skip_ws s = c # cs"
    using assms Cons by (cases "skip_ws s") (auto split: if_splits)
  have le: "length cs < length s" using skip_ws_le [of s] cs by simp
  have "length s' \<le> length cs"
  proof (cases "fr_is_object tp")
    case True
    then have "object_step n tp st c cs = Inr (Inl (stk', s'))" using assms Cons cs by simp
    then show ?thesis
      using skip_ws_le [of cs]
      by (auto simp: object_step_def finish_container_def scalar_child_def push_frame_def Let_def res_simps
          split: if_splits dest!: parse_scalar_value_shorter parse_string_shorter)
         (metis diff_le_self le_trans length_tl less_imp_le skip_ws_le)
  next
    case False
    then have "array_step n tp st c cs = Inr (Inl (stk', s'))" using assms Cons cs by simp
    then show ?thesis
      using skip_ws_le [of cs]
      by (auto simp: array_step_def finish_container_def scalar_child_def push_frame_def Let_def res_simps
          split: if_splits dest!: parse_scalar_value_shorter)
  qed
  with le show ?thesis by simp
qed

function container_loop :: "nat \<Rightarrow> frame list \<Rightarrow> string \<Rightarrow> (json \<times> string) mres" where
  "container_loop n stk s =
     (case container_step n stk s of
        Inl e \<Rightarrow> Inl e
      | Inr (Inl (stk', s')) \<Rightarrow> container_loop n stk' s'
      | Inr (Inr r) \<Rightarrow> Inr r)"
  by pat_completeness auto
termination
  by (relation "measure (\<lambda>(n, stk, s). length s)") (auto dest: container_step_shorter)

declare container_loop.simps [simp del]

definition parse_container :: "nat \<Rightarrow> string \<Rightarrow> (json \<times> string) mres" where
  "parse_container n s =
     rbind (push_frame n (hd s = CHR ''{'') [] s) (\<lambda>(stk, s'). container_loop n stk s')"

definition parse_value :: "nat \<Rightarrow> string \<Rightarrow> (json \<times> string) mres" where
  "parse_value n s =
     (case s of
        [] \<Rightarrow> parse_fail n ''unexpected end of input'' s
      | c # _ \<Rightarrow> if c = CHR ''{'' \<or> c = CHR ''['' then parse_container n s
                 else parse_scalar_value n s)"

text \<open>\<open>ParseDocument\<close> and \<open>JsonValue::Parse\<close>.\<close>

definition parse_document :: "string \<Rightarrow> json mres" where
  "parse_document input =
     (let n = length input in
      rbind (parse_value n (skip_ws input)) (\<lambda>(v, s).
        let s' = skip_ws s in
        if s' \<noteq> [] then parse_fail n ''trailing characters'' s' else Inr v))"

end
