(* ===== verification/Json_Dump.thy ===== *)
theory Json_Dump
  imports Json_Parser
begin

text \<open>
  \<open>JsonValue::Dump\<close> (\<open>src/core/JsonValue.cpp\<close>: \<open>AppendEscapedString\<close>, \<open>DumpValue\<close>) and the
  round trip through the parser: dumping a value, in the compact or in any indented style, and
  parsing the text gives the value back.
\<close>

section \<open>Printing\<close>

definition hex_char :: "nat \<Rightarrow> char" where
  "hex_char v = (if v < 10 then chr (48 + v) else chr (87 + v))"

text \<open>What \<open>AppendEscapedString\<close> appends for one byte.\<close>

definition escape_char :: "char \<Rightarrow> string" where
  "escape_char c =
     (if c = dquote then [backslash, dquote]
      else if c = backslash then [backslash, backslash]
      else if c = chr 8 then [backslash, CHR ''b'']
      else if c = chr 12 then [backslash, CHR ''f'']
      else if c = chr 10 then [backslash, CHR ''n'']
      else if c = chr 13 then [backslash, CHR ''r'']
      else if c = chr 9 then [backslash, CHR ''t'']
      else if byte_of c < 0x20 then
        [backslash, CHR ''u'', CHR ''0'', CHR ''0'', chr (48 + byte_of c div 16), hex_char (byte_of c mod 16)]
      else [c])"

definition escape_string :: "string \<Rightarrow> string" where
  "escape_string s = concat (map escape_char s)"

definition append_escaped_string :: "string \<Rightarrow> string" where
  "append_escaped_string s = dquote # escape_string s @ [dquote]"

definition dump_double :: "f64 \<Rightarrow> string" where
  "dump_double d =
     (if f64_finite d then
        (let repr = to_chars_double d
         in if list_ex (\<lambda>c. c \<in> set ''.eE'') repr then repr else repr @ ''.0'')
      else ''null'')"

text \<open>The lambda \<open>indent_at\<close>.\<close>

definition indent_at :: "int \<Rightarrow> nat \<Rightarrow> string" where
  "indent_at indent level = replicate (nat (int level * indent)) CHR '' ''"

definition newline :: string where "newline = [chr 10]"

text \<open>
  \<open>DumpValue\<close>.  The loops over the elements of an array and over the members of an object are
  functions of their own, one for the compact and one for the indented style.
\<close>

fun dump_value :: "int \<Rightarrow> nat \<Rightarrow> json \<Rightarrow> string"
  and dump_items :: "int \<Rightarrow> nat \<Rightarrow> json list \<Rightarrow> string"
  and dump_items_indented :: "int \<Rightarrow> nat \<Rightarrow> json list \<Rightarrow> string"
  and dump_members :: "int \<Rightarrow> nat \<Rightarrow> (string \<times> json) list \<Rightarrow> string"
  and dump_members_indented :: "int \<Rightarrow> nat \<Rightarrow> (string \<times> json) list \<Rightarrow> string" where
  "dump_value indent depth JNull = ''null''"
| "dump_value indent depth (JBool b) = (if b then ''true'' else ''false'')"
| "dump_value indent depth (JInt i) = dec_int (sint i)"
| "dump_value indent depth (JDouble d) = dump_double d"
| "dump_value indent depth (JString s) = append_escaped_string s"
| "dump_value indent depth (JArray xs) =
     (if xs = [] then ''[]''
      else if indent < 0 then ''['' @ dump_items indent depth xs @ '']''
      else ''['' @ newline @ dump_items_indented indent depth xs @ indent_at indent depth @ '']'')"
| "dump_value indent depth (JObject m) =
     (if m = [] then ''{}''
      else if indent < 0 then ''{'' @ dump_members indent depth m @ ''}''
      else ''{'' @ newline @ dump_members_indented indent depth m @ newline @
           indent_at indent depth @ ''}'')"
| "dump_items indent depth [] = []"
| "dump_items indent depth (x # xs) =
     dump_value indent depth x @ (if xs = [] then [] else '','' @ dump_items indent depth xs)"
| "dump_items_indented indent depth [] = []"
| "dump_items_indented indent depth (x # xs) =
     indent_at indent (depth + 1) @ dump_value indent (depth + 1) x @
     (if xs = [] then [] else '','') @ newline @ dump_items_indented indent depth xs"
| "dump_members indent depth [] = []"
| "dump_members indent depth ((k, x) # m) =
     append_escaped_string k @ '':'' @ dump_value indent depth x @
     (if m = [] then [] else '','' @ dump_members indent depth m)"
| "dump_members_indented indent depth [] = []"
| "dump_members_indented indent depth ((k, x) # m) =
     indent_at indent (depth + 1) @ append_escaped_string k @ '': '' @
     dump_value indent (depth + 1) x @
     (if m = [] then [] else '','' @ newline @ dump_members_indented indent depth m)"

definition dump :: "int \<Rightarrow> json \<Rightarrow> string" where
  "dump indent j = dump_value indent 0 j"

section \<open>Values that a text can carry\<close>

text \<open>Strings and keys are UTF-8 and doubles are finite; a NaN or an infinity prints as \<open>null\<close>.\<close>

fun json_printable :: "json \<Rightarrow> bool" where
  "json_printable (JDouble d) = f64_finite d"
| "json_printable (JString s) = utf8_valid s"
| "json_printable (JArray xs) = list_all json_printable xs"
| "json_printable (JObject m) = list_all (\<lambda>kv. utf8_valid (fst kv) \<and> json_printable (snd kv)) m"
| "json_printable _ = True"

section \<open>Scalars read back\<close>

lemma quote_consts [simp]: "byte_of dquote = 34" "byte_of backslash = 92"
  by (simp_all add: dquote_def backslash_def)

lemma quote_neq: "dquote \<noteq> backslash" "backslash \<noteq> dquote"
  by (metis numeral_eq_iff quote_consts semiring_norm)+

lemma dquote_neq [simp]:
  "CHR ''n'' \<noteq> dquote" "CHR ''t'' \<noteq> dquote" "CHR ''f'' \<noteq> dquote" "CHR ''-'' \<noteq> dquote"
  "CHR ''{'' \<noteq> dquote" "CHR ''['' \<noteq> dquote" "CHR ''}'' \<noteq> dquote" "CHR '']'' \<noteq> dquote"
  "dquote \<noteq> CHR ''{''" "dquote \<noteq> CHR ''[''" "dquote \<noteq> CHR ''}''" "dquote \<noteq> CHR '']''"
  by (simp_all flip: byte_of_inject) (simp_all add: byte_of_def)

lemma digit_neq: "is_digit c \<Longrightarrow> c \<noteq> dquote \<and> c \<noteq> CHR ''t'' \<and> c \<noteq> CHR ''f'' \<and> c \<noteq> CHR ''n'' \<and>
    c \<noteq> CHR ''{'' \<and> c \<noteq> CHR ''['' \<and> c \<noteq> CHR '']'' \<and> \<not> is_ws c"
  by (auto simp: is_ws_def is_digit_def) (simp_all add: byte_of_def)

lemma hex_digit_low: "k < 10 \<Longrightarrow> hex_digit_value (chr (48 + k)) = Some k"
  by (simp add: hex_digit_value_def)

lemma hex_digit_hex_char: "v < 16 \<Longrightarrow> hex_digit_value (hex_char v) = Some v"
  by (simp add: hex_char_def hex_digit_value_def)

lemma parse_control_escape:
  assumes "byte_of c < 0x20"
  shows "parse_unicode_escape n
    (CHR ''0'' # CHR ''0'' # chr (48 + byte_of c div 16) # hex_char (byte_of c mod 16) # s) = Inr ([c], s)"
proof -
  have zero: "hex_digit_value CHR ''0'' = Some 0" by (simp add: hex_digit_value_def byte_of_def)
  have "hex_value 0 [CHR ''0'', CHR ''0'', chr (48 + byte_of c div 16), hex_char (byte_of c mod 16)] =
      Some (byte_of c)"
    using assms hex_digit_low [of "byte_of c div 16"] hex_digit_hex_char [of "byte_of c mod 16"]
    by (simp add: zero)
  then have "parse_hex4 n
      (CHR ''0'' # CHR ''0'' # chr (48 + byte_of c div 16) # hex_char (byte_of c mod 16) # s) =
      Inr (byte_of c, s)"
    by (simp add: parse_hex4_def)
  then show ?thesis using assms by (simp add: parse_unicode_escape_def append_utf8_ascii)
qed

text \<open>The parser undoes one escape.\<close>

lemma simple_escapes [simp]:
  "simple_escape dquote = Some dquote" "simple_escape backslash = Some backslash"
  "simple_escape CHR ''b'' = Some (chr 8)" "simple_escape CHR ''f'' = Some (chr 12)"
  "simple_escape CHR ''n'' = Some (chr 10)" "simple_escape CHR ''r'' = Some (chr 13)"
  "simple_escape CHR ''t'' = Some (chr 9)" "simple_escape CHR ''u'' = None"
  by (simp_all add: simple_escape_def quote_neq flip: byte_of_inject) (simp_all add: byte_of_def)

lemma parse_string_escape:
  assumes "byte_of c < 0x80"
  shows "parse_string n acc (escape_char c @ s) = parse_string n (acc @ [c]) s"
proof -
  have bs: "parse_string n acc (backslash # e # s) = parse_string n (acc @ [x]) s"
    if "simple_escape e = Some x" for e x s
    using that by (simp add: parse_string.simps(2) quote_neq)
  consider "c \<in> {dquote, backslash, chr 8, chr 12, chr 10, chr 13, chr 9}"
    | "c \<notin> {dquote, backslash, chr 8, chr 12, chr 10, chr 13, chr 9}" "byte_of c < 0x20"
    | "c \<notin> {dquote, backslash, chr 8, chr 12, chr 10, chr 13, chr 9}" "0x20 \<le> byte_of c"
    by linarith
  then show ?thesis
  proof cases
    case 1
    then show ?thesis
      by (auto simp: escape_char_def quote_neq bs) 
  next
    case 2
    then show ?thesis
      by (simp add: escape_char_def parse_string.simps(2) quote_neq parse_control_escape)
  next
    case 3
    with assms show ?thesis by (simp add: escape_char_def parse_string.simps(2))
  qed
qed

lemma escape_char_high: "0x80 \<le> byte_of c \<Longrightarrow> escape_char c = [c]"
  by (auto simp: escape_char_def)

lemma escape_string_high: "list_all (\<lambda>c. 0x80 \<le> byte_of c) s \<Longrightarrow> escape_string s = s"
  by (induction s) (simp_all add: escape_string_def escape_char_high)

lemma append_utf8_high: "scalar_value cp \<Longrightarrow> 0x80 \<le> cp \<Longrightarrow> list_all (\<lambda>c. 0x80 \<le> byte_of c) (append_utf8 cp)"
  by (auto simp: append_utf8_def scalar_value_def)

lemma escape_string_append [simp]: "escape_string (s @ t) = escape_string s @ escape_string t"
  by (simp add: escape_string_def)

lemma parse_string_escape_string:
  "utf8_scan_ok s \<Longrightarrow> parse_string n acc (escape_string s @ dquote # rest) = Inr (acc @ s, rest)"
proof (induction s arbitrary: acc rule: utf8_scan_ok.induct)
  case 1
  show ?case by (simp add: escape_string_def parse_string.simps(2))
next
  case (2 c cs)
  show ?case
  proof (cases "byte_of c < 0x80")
    case True
    with 2 have "parse_string n (acc @ [c]) (escape_string cs @ dquote # rest) = Inr (acc @ [c] @ cs, rest)"
      by simp
    with True show ?thesis by (simp add: escape_string_def parse_string_escape)
  next
    case False
    then obtain k where k: "utf8_seq_length (c # cs) = Some k" "utf8_scan_ok (drop k (c # cs))"
      using "2.prems" by (auto simp: utf8_scan_ok.simps split: option.splits)
    define t u where "t = take k (c # cs)" and "u = drop k (c # cs)"
    obtain cp where cp: "scalar_value cp" "0x80 \<le> cp" "t = append_utf8 cp"
      using utf8_seq_decode [OF k(1)] t_def by blast
    have kb: "0 < k" "k \<le> length (c # cs)" using utf8_seq_length_bounds [OF k(1)] by simp_all
    then have t: "t = c # tl t" "length t = k" by (cases k; simp add: t_def)+
    have IH: "parse_string n (acc @ t) (escape_string u @ dquote # rest) = Inr (acc @ t @ u, rest)"
      using "2.IH"(2) [OF False k(1), of "acc @ t"] k(2) by (simp add: u_def)
    have esc: "escape_string (c # cs) = t @ escape_string u"
      using escape_string_high [of t] append_utf8_high [OF cp(1,2)] cp(3)
      by (metis append_take_drop_id escape_string_append t_def u_def)
    have "validate_utf8_sequence n (t @ escape_string u @ dquote # rest) = Inr k"
      using utf8_seq_take [OF k(1), of "escape_string u @ dquote # rest"] t(1)
      by (subst validate_utf8_sequence_eq) (auto simp: t_def [symmetric])
    moreover obtain ts where ts: "t = c # ts" using t by blast
    moreover have "c \<noteq> dquote" "c \<noteq> backslash" using False by auto
    ultimately have "parse_string n acc (t @ escape_string u @ dquote # rest) =
        parse_string n (acc @ t) (escape_string u @ dquote # rest)"
      using False t(2) by (auto simp: parse_string.simps(2))
    with IH esc show ?thesis by (simp add: t_def u_def)
  qed
qed

text \<open>A number ends where the scan cannot go on.\<close>

definition ends_number :: "string \<Rightarrow> bool" where
  "ends_number s \<longleftrightarrow>
     s = [] \<or> (\<not> is_digit (hd s) \<and> hd s \<noteq> CHR ''.'' \<and> hd s \<noteq> CHR ''e'' \<and> hd s \<noteq> CHR ''E'')"

lemma ends_number_no_digit [simp]: "ends_number s \<Longrightarrow> no_digit_start s"
  by (auto simp: ends_number_def no_digit_start_def)

lemma ends_number_ws [simp]: "is_ws c \<Longrightarrow> ends_number (c # s)"
  by (auto simp: is_ws_def ends_number_def is_digit_def simp flip: byte_of_inject)
     (simp_all add: byte_of_def)

lemma scan_int_part_token:
  assumes "ip \<noteq> []" "list_all is_digit ip" "ip = ''0'' \<or> hd ip \<noteq> CHR ''0''" "no_digit_start s'"
  shows "scan_int_part n s (ip @ s') = Inr (ip, s')"
proof -
  obtain c cs where ip: "ip = c # cs" using assms(1) by (cases ip) auto
  have "span_digits (ip @ s') = (ip, s')" using assms by simp
  with assms show ?thesis by (auto simp: scan_int_part_def ip no_digit_start_def)
qed

lemma scan_frac_part_token:
  assumes "list_all is_digit fp" "exp_part_ok ep" "ends_number rest"
  shows "scan_frac_part n s ((if fp = [] then [] else CHR ''.'' # fp) @ ep @ rest) =
    Inr ((if fp = [] then [] else CHR ''.'' # fp), ep @ rest)"
proof -
  have nd: "no_digit_start (ep @ rest)"
    using assms by (cases ep) (auto simp: exp_part_ok_def)
  show ?thesis
  proof (cases fp)
    case Nil
    then show ?thesis
      using assms by (cases ep; cases rest)
        (auto simp: scan_frac_part_def exp_part_ok_def ends_number_def)
  next
    case (Cons c cs)
    have "span_digits (fp @ ep @ rest) = (fp, ep @ rest)"
      using span_digits_append [OF assms(1) nd] .
    with Cons assms show ?thesis by (simp add: scan_frac_part_def)
  qed
qed

lemma scan_exp_part_token:
  assumes "exp_part_ok ep" "ends_number rest"
  shows "scan_exp_part n s (ep @ rest) = Inr (ep, rest)"
proof (cases "ep = []")
  case True
  with assms show ?thesis
    by (cases rest) (auto simp: scan_exp_part_def ends_number_def)
next
  case False
  then obtain sg ds where ep: "ep = CHR ''e'' # sg # ds" "sg = CHR ''+'' \<or> sg = CHR ''-''" "ds \<noteq> []"
      "list_all is_digit ds"
    using assms by (auto simp: exp_part_ok_def)
  have "span_digits (ds @ rest) = (ds, rest)" using ep assms by simp
  moreover have "is_digit (hd ds)" using ep by (cases ds) auto
  ultimately show ?thesis using ep by (auto simp: scan_exp_part_def)
qed

lemma parse_number_token_text:
  assumes tok: "num_token_ok ip fp ep" and rest: "ends_number rest"
  shows "parse_number n (num_token neg ip fp ep @ rest) =
    rmap (\<lambda>v. (v, rest))
      (parse_number_token n (num_token neg ip fp ep) (fp \<noteq> [] \<or> ep \<noteq> []) rest)"
proof -
  define fpt where "fpt = (if fp = [] then [] else CHR ''.'' # fp)"
  obtain c cs where ip: "ip = c # cs" using tok by (cases ip) (auto simp: num_token_ok_def)
  have c: "c \<noteq> CHR ''-''" using tok by (auto simp: num_token_ok_def ip)
  have nd: "no_digit_start (fpt @ ep @ rest)"
    using tok rest by (cases ep) (auto simp: num_token_ok_def fpt_def exp_part_ok_def)
  have "scan_int_part n s (ip @ fpt @ ep @ rest) = Inr (ip, fpt @ ep @ rest)" for s
    using tok nd by (intro scan_int_part_token) (auto simp: num_token_ok_def)
  moreover have "scan_frac_part n s (fpt @ ep @ rest) = Inr (fpt, ep @ rest)" for s
    unfolding fpt_def using tok rest by (intro scan_frac_part_token) (auto simp: num_token_ok_def)
  moreover have "scan_exp_part n s (ep @ rest) = Inr (ep, rest)" for s
    using tok rest by (intro scan_exp_part_token) (auto simp: num_token_ok_def)
  moreover have "(fpt \<noteq> []) = (fp \<noteq> [])" by (simp add: fpt_def)
  moreover have "num_token neg ip fp ep @ rest = (if neg then ''-'' else []) @ ip @ fpt @ ep @ rest"
    "num_token neg ip fp ep = (if neg then ''-'' else []) @ ip @ fpt @ ep"
    by (simp_all add: num_token_def fpt_def)
  ultimately show ?thesis
    using c by (auto simp: parse_number_def ip)
qed

lemma digits_ok_dec_nat: "num_token_ok (dec_nat m) [] []"
proof (cases "m = 0")
  case True
  have "digit_char 0 = CHR ''0''"
    by (simp add: digit_char_def flip: byte_of_inject) (simp add: byte_of_def)
  then have "dec_nat 0 = ''0''" by (subst dec_nat.simps) simp
  with True show ?thesis by (simp add: num_token_ok_def exp_part_ok_def)
next
  case False
  then show ?thesis using dec_nat_hd [of m] by (simp add: num_token_ok_def exp_part_ok_def)
qed

lemma dec_int_token: "dec_int i = num_token (i < 0) (dec_nat (nat \<bar>i\<bar>)) [] []"
  by (simp add: dec_int_def num_token_def)

lemma from_chars_i64_dec_int: "from_chars_i64 (dec_int (sint i)) = FcOk i"
proof -
  have "- (2 ^ 63) \<le> sint i \<and> sint i < 2 ^ 63"
    using sint_range_size [of i] by (simp add: word_size)
  moreover have "strip_minus (dec_nat m) = (False, dec_nat m)" for m
    using strip_minus_digits [of "dec_nat m" "[]"] by simp
  ultimately show ?thesis
    by (simp add: from_chars_i64_def dec_int_def takeWhile_all_digits)
qed

lemma parse_number_int:
  assumes "ends_number rest"
  shows "parse_number n (dec_int (sint i) @ rest) = Inr (JInt i, rest)"
  using parse_number_token_text [OF digits_ok_dec_nat assms, of n "sint i < 0" "nat \<bar>sint i\<bar>"]
  by (simp add: dec_int_token [symmetric] parse_number_token_def from_chars_i64_dec_int)

lemma num_token_float_chars:
  assumes "num_token_ok ip fp ep"
  shows "list_ex (\<lambda>c. c \<in> set ''.eE'') (num_token neg ip fp ep) \<longleftrightarrow> fp \<noteq> [] \<or> ep \<noteq> []"
proof -
  have "\<not> list_ex (\<lambda>c. c \<in> set ''.eE'') ip"
    using assms by (auto simp: num_token_ok_def list_ex_iff list_all_iff)
  moreover have "ep \<noteq> [] \<Longrightarrow> list_ex (\<lambda>c. c \<in> set ''.eE'') ep"
    using assms by (auto simp: num_token_ok_def exp_part_ok_def)
  ultimately show ?thesis by (auto simp: num_token_def)
qed

text \<open>The text of a finite double is a number token with a fraction or an exponent.\<close>

lemma dump_double_token:
  assumes "f64_finite d"
  shows "\<exists>ip fp ep. dump_double d = num_token (f64_neg d) ip fp ep \<and> num_token_ok ip fp ep \<and>
    (fp \<noteq> [] \<or> ep \<noteq> []) \<and> from_chars_double (dump_double d) = FcOk d"
proof -
  obtain ip fp ep m k where t: "to_chars_double d = num_token (f64_neg d) ip fp ep"
      "token_of ip fp ep m k" "round_decimal m k = f64_mag d" "m = 0 \<longleftrightarrow> f64_mag d = 0"
    using to_chars_shape by blast
  have ok: "num_token_ok ip fp ep" using t(2) by (simp add: token_of_def)
  show ?thesis
  proof (cases "fp \<noteq> [] \<or> ep \<noteq> []")
    case True
    then have "dump_double d = num_token (f64_neg d) ip fp ep"
      using assms num_token_float_chars [OF ok] by (simp add: dump_double_def t(1) Let_def)
    with True ok from_chars_token [OF t(2,3,4) assms] show ?thesis by auto
  next
    case False
    then have z: "token_of ip ''0'' [] m k" using t(2) token_of_point_zero by auto
    have "dump_double d = num_token (f64_neg d) ip fp ep @ ''.0''"
      using assms False num_token_float_chars [OF ok, of "f64_neg d"]
      by (simp add: dump_double_def t(1) Let_def)
    also have "\<dots> = num_token (f64_neg d) ip ''0'' []"
      using False by (simp add: num_token_def)
    finally show ?thesis
      using z from_chars_token [OF z t(3,4) assms] by (auto simp: token_of_def)
  qed
qed

lemma parse_number_double:
  assumes "f64_finite d" "ends_number rest"
  shows "parse_number n (dump_double d @ rest) = Inr (JDouble d, rest)"
proof -
  obtain ip fp ep where t: "dump_double d = num_token (f64_neg d) ip fp ep" "num_token_ok ip fp ep"
      "fp \<noteq> [] \<or> ep \<noteq> []" "from_chars_double (dump_double d) = FcOk d"
    using dump_double_token [OF assms(1)] by blast
  then show ?thesis
    using parse_number_token_text [OF t(2) assms(2), of n "f64_neg d"]
    by (simp add: parse_number_token_def)
qed

lemma num_token_hd:
  assumes "num_token_ok ip fp ep"
  shows "\<exists>c cs. num_token neg ip fp ep = c # cs \<and> (c = CHR ''-'' \<or> is_digit c)"
  using assms by (cases ip) (auto simp: num_token_ok_def num_token_def)

lemma parse_scalar_number:
  assumes "num_token_ok ip fp ep"
  shows "parse_scalar_value n (num_token neg ip fp ep @ rest) =
    parse_number n (num_token neg ip fp ep @ rest)"
proof -
  obtain c cs where c: "num_token neg ip fp ep = c # cs" "c = CHR ''-'' \<or> is_digit c"
    using num_token_hd [OF assms] by blast
  from c(2) digit_neq [of c] have "c \<noteq> dquote \<and> c \<noteq> CHR ''t'' \<and> c \<noteq> CHR ''f'' \<and> c \<noteq> CHR ''n''"
    by (cases "c = CHR ''-''") simp_all
  with c show ?thesis by (simp add: parse_scalar_value_def)
qed

text \<open>A value that is not a container is read back by \<open>ParseScalarValue\<close>.\<close>

fun is_container :: "json \<Rightarrow> bool" where
  "is_container (JArray xs) = True"
| "is_container (JObject m) = True"
| "is_container _ = False"

lemma parse_quoted: "utf8_valid s \<Longrightarrow>
    parse_string n [] (escape_string s @ dquote # rest) = Inr (s, rest)"
  using parse_string_escape_string [of s n "[]" rest] utf8_valid_scan_ok by simp

lemma parse_scalar_dump:
  assumes "\<not> is_container j" "json_printable j" "ends_number rest"
  shows "parse_scalar_value n (dump_value indent d j @ rest) = Inr (j, rest)"
proof (cases j)
  case JNull
  then show ?thesis by (simp add: parse_scalar_value_def parse_literal_def)
next
  case (JBool b)
  then show ?thesis by (cases b) (simp_all add: parse_scalar_value_def parse_literal_def)
next
  case (JInt i)
  then show ?thesis
    using assms parse_number_int [of rest n i]
      parse_scalar_number [OF digits_ok_dec_nat, of n "sint i < 0" "nat \<bar>sint i\<bar>"]
    by (simp add: dec_int_token [of "sint i", symmetric])
next
  case (JDouble f)
  then have "f64_finite f" using assms by simp
  then obtain ip fp ep where "dump_double f = num_token (f64_neg f) ip fp ep" "num_token_ok ip fp ep"
    using dump_double_token by blast
  then show ?thesis
    using JDouble parse_scalar_number parse_number_double [OF \<open>f64_finite f\<close> assms(3)] by simp
next
  case (JString s)
  then show ?thesis
    using assms parse_quoted by (simp add: parse_scalar_value_def append_escaped_string_def)
qed (use assms in simp_all)

section \<open>Containers read back\<close>

text \<open>The four loops of \<open>DumpValue\<close> in one form: the items, separated by a comma and white space.\<close>

fun sep_items :: "('a \<Rightarrow> string) \<Rightarrow> string \<Rightarrow> 'a list \<Rightarrow> string" where
  "sep_items f w [] = []"
| "sep_items f w (x # xs) = w @ f x @ (if xs = [] then [] else CHR '','' # sep_items f w xs)"

definition member_text :: "int \<Rightarrow> nat \<Rightarrow> string \<Rightarrow> string \<times> json \<Rightarrow> string" where
  "member_text indent depth colon kv =
     append_escaped_string (fst kv) @ colon @ dump_value indent depth (snd kv)"

lemma dump_items_sep: "dump_items indent d xs = sep_items (dump_value indent d) [] xs"
  by (induction xs) simp_all

lemma dump_items_indented_sep: "xs \<noteq> [] \<Longrightarrow>
    newline @ dump_items_indented indent d xs =
    sep_items (dump_value indent (d + 1)) (newline @ indent_at indent (d + 1)) xs @ newline"
  by (induction xs) auto

lemma dump_members_sep: "dump_members indent d m = sep_items (member_text indent d '':'') [] m"
  by (induction m) (auto simp: member_text_def)

lemma dump_members_indented_sep: "m \<noteq> [] \<Longrightarrow>
    newline @ dump_members_indented indent d m =
    sep_items (member_text indent (d + 1) '': '') (newline @ indent_at indent (d + 1)) m"
  by (induction m) (auto simp: member_text_def)

lemma ws_consts [simp]: "is_ws CHR '' ''" "list_all is_ws newline" "list_all is_ws (indent_at indent d)"
  by (simp_all add: is_ws_def newline_def indent_at_def list_all_length)

lemma not_ws [simp]: "\<not> is_ws dquote" "\<not> is_ws CHR '',''" "\<not> is_ws CHR '':''" "\<not> is_ws CHR ''[''"
  "\<not> is_ws CHR '']''" "\<not> is_ws CHR ''{''" "\<not> is_ws CHR ''}''" "\<not> is_ws CHR ''n''" "\<not> is_ws CHR ''t''"
  "\<not> is_ws CHR ''f''" "\<not> is_ws CHR ''-''"
  by (simp_all add: is_ws_def flip: byte_of_inject) (simp_all add: byte_of_def)

text \<open>A container's text: the white space before an item, before the end, and the depth inside.\<close>

lemma dump_array_shape:
  assumes "xs \<noteq> []"
  shows "\<exists>w w' e. list_all is_ws w \<and> list_all is_ws w' \<and>
    dump_value indent d (JArray xs) = CHR ''['' # sep_items (dump_value indent e) w xs @ w' @ '']''"
proof (cases "indent < 0")
  case True
  then have "dump_value indent d (JArray xs) = CHR ''['' # sep_items (dump_value indent d) [] xs @ [] @ '']''"
    using assms by (simp add: dump_items_sep)
  then show ?thesis by (metis list.pred_inject(1))
next
  case False
  let ?w = "newline @ indent_at indent (d + 1)" and ?w' = "newline @ indent_at indent d"
  have "dump_value indent d (JArray xs) =
      CHR ''['' # (newline @ dump_items_indented indent d xs) @ indent_at indent d @ '']''"
    using False assms by simp
  also have "\<dots> = CHR ''['' # sep_items (dump_value indent (d + 1)) ?w xs @ ?w' @ '']''"
    by (subst dump_items_indented_sep [OF assms]) simp
  finally show ?thesis
    by (intro exI [of _ ?w] exI [of _ ?w'] exI [of _ "d + 1"]) (simp del: dump_value.simps)
qed

lemma dump_object_shape:
  assumes "m \<noteq> []"
  shows "\<exists>w w' cw e. list_all is_ws w \<and> list_all is_ws w' \<and> list_all is_ws cw \<and>
    dump_value indent d (JObject m) =
      CHR ''{'' # sep_items (member_text indent e (CHR '':'' # cw)) w m @ w' @ ''}''"
proof (cases "indent < 0")
  case True
  then have "dump_value indent d (JObject m) =
      CHR ''{'' # sep_items (member_text indent d (CHR '':'' # [])) [] m @ [] @ ''}''"
    using assms by (simp add: dump_members_sep)
  then show ?thesis by (metis list.pred_inject(1))
next
  case False
  let ?w = "newline @ indent_at indent (d + 1)" and ?w' = "newline @ indent_at indent d"
  have "dump_value indent d (JObject m) =
      CHR ''{'' # (newline @ dump_members_indented indent d m) @ newline @ indent_at indent d @ ''}''"
    using False assms by simp
  also have "\<dots> = CHR ''{'' # sep_items (member_text indent (d + 1) (CHR '':'' # '' '')) ?w m @ ?w' @ ''}''"
    by (subst dump_members_indented_sep [OF assms]) simp
  finally show ?thesis
    by (intro exI [of _ ?w] exI [of _ ?w'] exI [of _ "'' ''"] exI [of _ "d + 1"])
       (simp del: dump_value.simps)
qed

text \<open>A dumped value starts with a character that is neither white space nor a closing bracket.\<close>

definition value_start :: "char \<Rightarrow> bool" where
  "value_start c \<longleftrightarrow> \<not> is_ws c \<and> c \<noteq> CHR '']''"

lemma dump_value_hd:
  assumes "json_printable j"
  shows "\<exists>c cs. dump_value indent d j = c # cs \<and> value_start c \<and>
    (\<not> is_container j \<longrightarrow> c \<noteq> CHR ''{'' \<and> c \<noteq> CHR ''['')"
proof -
  have num: "\<exists>c cs. num_token neg ip fp ep = c # cs \<and> value_start c \<and> c \<noteq> CHR ''{'' \<and> c \<noteq> CHR ''[''"
    if "num_token_ok ip fp ep" for neg ip fp ep
    using num_token_hd [OF that, of neg] digit_neq by (auto simp: value_start_def)
  show ?thesis
  proof (cases j)
    case (JInt i)
    then show ?thesis using num [OF digits_ok_dec_nat] by (simp add: dec_int_token)
  next
    case (JDouble f)
    then show ?thesis using dump_double_token [of f] num assms by auto
  qed (auto simp: value_start_def append_escaped_string_def)
qed

lemma skip_ws_append [simp]: "list_all is_ws w \<Longrightarrow> skip_ws (w @ s) = skip_ws s"
  by (induction w) (simp_all add: skip_ws_def)

lemma skip_ws_stop [simp]: "\<not> is_ws c \<Longrightarrow> skip_ws (c # s) = c # s"
  by (simp add: skip_ws_def)

lemma skip_ws_dump [simp]:
  "json_printable j \<Longrightarrow> skip_ws (dump_value indent d j @ s) = dump_value indent d j @ s"
  using dump_value_hd [of j indent d] by (auto simp: value_start_def)

text \<open>What the loop does with the text of a value, an item or a member.\<close>

definition expecting :: "frame \<Rightarrow> bool" where
  "expecting tp \<longleftrightarrow> (if fr_is_object tp then fr_phase tp = 1 else fr_phase tp \<le> 1)"

definition closed :: "nat \<Rightarrow> json \<Rightarrow> frame list \<Rightarrow> string \<Rightarrow> (json \<times> string) mres" where
  "closed n j stk rest =
     (if stk = [] then Inr (j, rest) else container_loop n (complete_value j stk) rest)"

definition reads_value :: "json \<Rightarrow> bool" where
  "reads_value j \<longleftrightarrow> (\<forall>indent d n tp stk w rest. list_all is_ws w \<longrightarrow> expecting tp \<longrightarrow> ends_number rest \<longrightarrow>
     length (tp # stk) + json_depth j \<le> max_depth \<longrightarrow>
     container_loop n (tp # stk) (w @ dump_value indent d j @ rest) =
     container_loop n (complete_value j (tp # stk)) rest)"

definition reads_body :: "json \<Rightarrow> bool" where
  "reads_body j \<longleftrightarrow> (\<forall>indent d n stk rest. length stk + json_depth j \<le> max_depth \<longrightarrow>
     container_loop n (new_frame (hd (dump_value indent d j) = CHR ''{'') # stk)
       (tl (dump_value indent d j) @ rest) = closed n j stk rest)"

lemma scalar_in_frame:
  assumes "\<not> is_container j" "json_printable j"
  shows "reads_value j"
  unfolding reads_value_def
proof (intro allI impI)
  fix indent d n tp stk w rest
  assume w: "list_all is_ws w" and e: "expecting tp" and rest: "ends_number rest"
  obtain c cs where c: "dump_value indent d j = c # cs" "value_start c" "c \<noteq> CHR ''{''" "c \<noteq> CHR ''[''"
    using dump_value_hd [OF assms(2), of indent d] assms(1) by auto
  have "container_step n (tp # stk) (w @ dump_value indent d j @ rest) =
      scalar_child n (tp # stk) (dump_value indent d j @ rest)"
    using w e c by (auto simp: expecting_def value_start_def object_step_def array_step_def)
  also have "\<dots> = Inr (Inl (complete_value j (tp # stk), rest))"
    using parse_scalar_dump [OF assms rest] by (simp add: scalar_child_def)
  finally show "container_loop n (tp # stk) (w @ dump_value indent d j @ rest) =
      container_loop n (complete_value j (tp # stk)) rest"
    by (subst container_loop.simps) simp
qed

lemma container_in_frame:
  assumes "is_container j" "reads_body j"
  shows "reads_value j"
  unfolding reads_value_def
proof (intro allI impI)
  fix indent d n tp stk w rest
  assume w: "list_all is_ws w" and e: "expecting tp"
    and len: "length (tp # stk) + json_depth j \<le> max_depth"
  have "\<exists>c cs. dump_value indent d j = c # cs \<and> (c = CHR ''{'' \<or> c = CHR ''['')"
    using assms(1) by (cases j) auto
  then obtain c cs where c: "dump_value indent d j = c # cs" "c = CHR ''{'' \<or> c = CHR ''[''"
    by blast
  have depth: "length (tp # stk) < max_depth" using len assms(1) by (cases j) auto
  have "container_step n (tp # stk) (w @ dump_value indent d j @ rest) =
      Inr (Inl (new_frame (c = CHR ''{'') # tp # stk, cs @ rest))"
    using w e c depth
    by (auto simp: expecting_def object_step_def array_step_def push_frame_def)
  moreover have "container_loop n (new_frame (c = CHR ''{'') # tp # stk) (cs @ rest) =
      closed n j (tp # stk) rest"
    using assms(2) [unfolded reads_body_def, rule_format, OF len, of n indent d rest]
    unfolding c(1) by simp
  ultimately show "container_loop n (tp # stk) (w @ dump_value indent d j @ rest) =
      container_loop n (complete_value j (tp # stk)) rest"
    by (subst container_loop.simps) (simp add: closed_def)
qed

lemma loop_step:
  "container_step n stk s = Inr (Inl (stk', s')) \<Longrightarrow> container_loop n stk s = container_loop n stk' s'"
  by (subst container_loop.simps) simp

lemma loop_finish:
  "container_step n stk s = finish_container j stk' s' \<Longrightarrow> container_loop n stk s = closed n j stk' s'"
  by (subst container_loop.simps) (simp add: finish_container_def closed_def)

lemma array_close:
  assumes "\<not> fr_is_object tp" "fr_phase tp \<noteq> 1" "list_all is_ws w'"
  shows "container_loop n (tp # stk) (w' @ CHR '']'' # rest) = closed n (JArray (fr_items tp)) stk rest"
  by (rule loop_finish) (use assms in \<open>simp add: array_step_def\<close>)

lemma ends_number_comma [simp]: "ends_number (CHR '','' # s)"
  by (simp add: ends_number_def is_digit_def byte_of_def)

lemma ends_number_close [simp]:
  "list_all is_ws w \<Longrightarrow> c \<in> {CHR '']'', CHR ''}''} \<Longrightarrow> ends_number (w @ c # s)"
  by (cases w) (auto simp: ends_number_def is_digit_def byte_of_def simp del: ends_number_ws
      dest: ends_number_ws [unfolded ends_number_def])

lemma array_rest:
  assumes "list_all (\<lambda>x. reads_value x \<and> json_printable x \<and> length (tp # stk) + json_depth x \<le> max_depth) xs"
    and "\<not> fr_is_object tp" "fr_phase tp = 2" "list_all is_ws w" "list_all is_ws w'"
  shows "container_loop n (tp # stk)
      ((if xs = [] then [] else CHR '','' # sep_items (dump_value indent d) w xs) @ w' @ CHR '']'' # rest) =
    closed n (JArray (fr_items tp @ xs)) stk rest"
  using assms
proof (induction xs arbitrary: tp)
  case Nil
  then show ?case using array_close [of tp w' n stk rest] by simp
next
  case (Cons x xs)
  let ?tl = "(if xs = [] then [] else CHR '','' # sep_items (dump_value indent d) w xs) @ w' @ CHR '']'' # rest"
  let ?tp1 = "tp\<lparr>fr_phase := 1\<rparr>"
  let ?tp2 = "tp\<lparr>fr_items := fr_items tp @ [x], fr_phase := 2\<rparr>"
  obtain c cs where c: "dump_value indent d x = c # cs" "value_start c"
    using dump_value_hd [of x indent d] Cons.prems by auto
  have "container_loop n (tp # stk) (CHR '','' # w @ dump_value indent d x @ ?tl) =
      container_loop n (?tp1 # stk) (dump_value indent d x @ ?tl)"
    by (rule loop_step) (use Cons.prems c in \<open>auto simp: array_step_def value_start_def\<close>)
  also have "\<dots> = container_loop n (complete_value x (?tp1 # stk)) ?tl"
  proof -
    have "reads_value x" "expecting ?tp1" "ends_number ?tl" "length (?tp1 # stk) + json_depth x \<le> max_depth"
      using Cons.prems by (auto simp: expecting_def)
    then show ?thesis
      unfolding reads_value_def by (metis append_Nil list.pred_inject(1))
  qed
  also have "complete_value x (?tp1 # stk) = ?tp2 # stk"
    using Cons.prems by simp
  also have "container_loop n (?tp2 # stk) ?tl = closed n (JArray (fr_items ?tp2 @ xs)) stk rest"
    using Cons.prems by (intro Cons.IH) auto
  finally show ?case by simp
qed

lemma depth_item: "x \<in> set xs \<Longrightarrow> Suc (json_depth x) \<le> json_depth (JArray xs)"
  by (simp add: Max_ge_iff)

lemma depth_member: "kv \<in> set m \<Longrightarrow> Suc (json_depth (snd kv)) \<le> json_depth (JObject m)"
  by (simp add: Max_ge_iff)

lemma array_body:
  assumes "list_all (\<lambda>x. reads_value x \<and> json_printable x) xs"
  shows "reads_body (JArray xs)"
  unfolding reads_body_def
proof (intro allI impI)
  fix indent d n and stk :: "frame list" and rest
  assume len: "length stk + json_depth (JArray xs) \<le> max_depth"
  show "container_loop n (new_frame (hd (dump_value indent d (JArray xs)) = CHR ''{'') # stk)
      (tl (dump_value indent d (JArray xs)) @ rest) = closed n (JArray xs) stk rest"
  proof (cases xs)
    case Nil
    then show ?thesis
      using array_close [of "new_frame False" "[]" n stk rest] by (simp add: new_frame_def)
  next
    case (Cons x ys)
    obtain w w' e where t: "list_all is_ws w" "list_all is_ws w'" "dump_value indent d (JArray xs) =
        CHR ''['' # sep_items (dump_value indent e) w xs @ w' @ '']''"
      using dump_array_shape [of xs indent d] Cons by auto
    have lens: "\<forall>y \<in> set xs. length (new_frame False # stk) + json_depth y \<le> max_depth"
      using len depth_item [of _ xs] by (fastforce simp del: json_depth.simps)
    have dx: "reads_value x" "length (new_frame False # stk) + json_depth x \<le> max_depth"
      using assms lens Cons by auto
    let ?tl = "(if ys = [] then [] else CHR '','' # sep_items (dump_value indent e) w ys) @ w' @ CHR '']'' # rest"
    let ?tp = "(new_frame False)\<lparr>fr_items := [x], fr_phase := 2\<rparr>"
    have "container_loop n (new_frame False # stk) (w @ dump_value indent e x @ ?tl) =
        container_loop n (complete_value x (new_frame False # stk)) ?tl"
      using dx t(1,2) unfolding reads_value_def
      by (auto simp: expecting_def new_frame_def)
    also have "complete_value x (new_frame False # stk) = ?tp # stk"
      by (simp add: new_frame_def)
    also have "container_loop n (?tp # stk) ?tl = closed n (JArray (fr_items ?tp @ ys)) stk rest"
      by (rule array_rest) (use assms Cons lens t in \<open>auto simp: new_frame_def list_all_iff\<close>)
    finally show ?thesis unfolding t(3) by (simp add: Cons new_frame_def)
  qed
qed

text \<open>Objects: a member leaves the frame in phase 2 with the member stored last.\<close>

definition readable_member :: "nat \<Rightarrow> string \<times> json \<Rightarrow> bool" where
  "readable_member l kv \<longleftrightarrow> reads_value (snd kv) \<and> json_printable (snd kv) \<and> utf8_valid (fst kv) \<and>
     l + json_depth (snd kv) \<le> max_depth"

lemma object_member:
  assumes kv: "readable_member (length (tp # stk)) kv"
    and tp: "fr_is_object tp" "fr_phase tp = 0" "fr_key tp = []"
    and ws: "list_all is_ws w" "list_all is_ws cw" "ends_number rest"
  shows "container_loop n (tp # stk) (w @ member_text indent d (CHR '':'' # cw) kv @ rest) =
    container_loop n
      (tp\<lparr>fr_members := amap_emplace (fst kv) (snd kv) (fr_members tp), fr_phase := 2\<rparr> # stk) rest"
proof -
  obtain k x where kv_eq: "kv = (k, x)" by (cases kv)
  let ?tp1 = "tp\<lparr>fr_key := k, fr_phase := 1\<rparr>"
  have pk: "parse_string n [] (escape_string k @ dquote # CHR '':'' # cw @ dump_value indent d x @ rest) =
      Inr (k, CHR '':'' # cw @ dump_value indent d x @ rest)"
    using parse_quoted kv by (simp add: readable_member_def kv_eq)
  have "container_loop n (tp # stk) (w @ member_text indent d (CHR '':'' # cw) kv @ rest) =
      container_loop n (?tp1 # stk) (cw @ dump_value indent d x @ rest)"
    by (rule loop_step)
       (use tp ws pk in \<open>simp add: object_step_def member_text_def append_escaped_string_def kv_eq\<close>)
  also have "\<dots> = container_loop n (complete_value x (?tp1 # stk)) rest"
    using kv ws unfolding reads_value_def readable_member_def
    by (simp add: kv_eq expecting_def tp)
  also have "complete_value x (?tp1 # stk) =
      tp\<lparr>fr_members := amap_emplace (fst kv) (snd kv) (fr_members tp), fr_phase := 2\<rparr> # stk"
    using tp by (simp add: kv_eq)
  finally show ?thesis .
qed

lemma object_close:
  assumes "fr_is_object tp" "fr_phase tp \<noteq> 1" "list_all is_ws w'"
  shows "container_loop n (tp # stk) (w' @ CHR ''}'' # rest) = closed n (JObject (fr_members tp)) stk rest"
  by (rule loop_finish) (use assms in \<open>simp add: object_step_def\<close>)

definition emplace_all :: "members \<Rightarrow> members \<Rightarrow> members" where
  "emplace_all m0 ms = foldl (\<lambda>m kv. amap_emplace (fst kv) (snd kv) m) m0 ms"

lemma emplace_all_sorted: "amap_ok (m0 @ ms) \<Longrightarrow> emplace_all m0 ms = m0 @ ms"
proof (induction ms arbitrary: m0)
  case (Cons kv ms)
  have "\<forall>k' \<in> fst ` set m0. k' < fst kv"
    using Cons.prems by (auto simp: amap_ok_def sorted_wrt_append)
  then have "amap_emplace (fst kv) (snd kv) m0 = m0 @ [kv]"
    using amap_emplace_greatest [of m0 "fst kv" "snd kv"] by simp
  then show ?case using Cons by (simp add: emplace_all_def)
qed (simp add: emplace_all_def)

lemma object_rest:
  assumes "list_all (readable_member (length (tp # stk))) m"
    and "fr_is_object tp" "fr_phase tp = 2" "fr_key tp = []"
    and "list_all is_ws w" "list_all is_ws w'" "list_all is_ws cw"
  shows "container_loop n (tp # stk)
      ((if m = [] then [] else CHR '','' # sep_items (member_text indent d (CHR '':'' # cw)) w m) @
        w' @ CHR ''}'' # rest) =
    closed n (JObject (emplace_all (fr_members tp) m)) stk rest"
  using assms
proof (induction m arbitrary: tp)
  case Nil
  then show ?case using object_close [of tp w' n stk rest] by (simp add: emplace_all_def)
next
  case (Cons kv m)
  let ?tl = "(if m = [] then [] else CHR '','' # sep_items (member_text indent d (CHR '':'' # cw)) w m) @
      w' @ CHR ''}'' # rest"
  let ?tp0 = "tp\<lparr>fr_phase := 0\<rparr>"
  let ?tp2 = "?tp0\<lparr>fr_members := amap_emplace (fst kv) (snd kv) (fr_members ?tp0), fr_phase := 2\<rparr>"
  let ?mem = "member_text indent d (CHR '':'' # cw) kv"
  have hd_mem: "\<exists>cs. ?mem = dquote # cs" by (simp add: member_text_def append_escaped_string_def)
  have "container_loop n (tp # stk) (CHR '','' # w @ ?mem @ ?tl) = container_loop n (?tp0 # stk) (?mem @ ?tl)"
    by (rule loop_step) (use Cons.prems hd_mem in \<open>auto simp: object_step_def\<close>)
  also have "\<dots> = container_loop n (?tp2 # stk) ?tl"
    using object_member [of ?tp0 stk kv "[]" cw ?tl n indent d] Cons.prems by simp
  also have "\<dots> = closed n (JObject (emplace_all (fr_members ?tp2) m)) stk rest"
    using Cons.prems by (intro Cons.IH) auto
  finally show ?case by (simp add: emplace_all_def)
qed

lemma object_body:
  assumes "list_all (\<lambda>kv. reads_value (snd kv) \<and> json_printable (snd kv) \<and> utf8_valid (fst kv)) m"
    and ok: "amap_ok m"
  shows "reads_body (JObject m)"
  unfolding reads_body_def
proof (intro allI impI)
  fix indent d n and stk :: "frame list" and rest
  assume len: "length stk + json_depth (JObject m) \<le> max_depth"
  show "container_loop n (new_frame (hd (dump_value indent d (JObject m)) = CHR ''{'') # stk)
      (tl (dump_value indent d (JObject m)) @ rest) = closed n (JObject m) stk rest"
  proof (cases m)
    case Nil
    then show ?thesis
      using object_close [of "new_frame True" "[]" n stk rest] by (simp add: new_frame_def)
  next
    case (Cons kv m')
    obtain w w' cw e where t: "list_all is_ws w" "list_all is_ws w'" "list_all is_ws cw"
        "dump_value indent d (JObject m) =
          CHR ''{'' # sep_items (member_text indent e (CHR '':'' # cw)) w m @ w' @ ''}''"
      using dump_object_shape [of m indent d] Cons by auto
    have mem: "list_all (readable_member (length (new_frame True # stk))) m"
      using assms(1) len depth_member [of _ m]
      by (fastforce simp: list_all_iff readable_member_def simp del: json_depth.simps)
    let ?tl = "(if m' = [] then [] else CHR '','' # sep_items (member_text indent e (CHR '':'' # cw)) w m') @
        w' @ CHR ''}'' # rest"
    let ?tp = "(new_frame True)\<lparr>fr_members := amap_emplace (fst kv) (snd kv)
        (fr_members (new_frame True)), fr_phase := 2\<rparr>"
    have "container_loop n (new_frame True # stk) (w @ member_text indent e (CHR '':'' # cw) kv @ ?tl) =
        container_loop n (?tp # stk) ?tl"
      by (rule object_member) (use mem t Cons in \<open>auto simp: new_frame_def\<close>)
    also have "\<dots> = closed n (JObject (emplace_all (fr_members ?tp) m')) stk rest"
      by (rule object_rest) (use mem t Cons in \<open>auto simp: new_frame_def\<close>)
    also have "emplace_all (fr_members ?tp) m' = m"
      using emplace_all_sorted [of "[]" m] ok by (simp add: Cons new_frame_def emplace_all_def)
    finally show ?thesis unfolding t(4) by (simp add: Cons)
  qed
qed

section \<open>The round trip\<close>

lemma reads_dump:
  "json_ok j \<Longrightarrow> json_printable j \<Longrightarrow> reads_value j \<and> (is_container j \<longrightarrow> reads_body j)"
proof (induction j)
  case (JArray xs)
  then have "list_all (\<lambda>x. reads_value x \<and> json_printable x) xs" by (auto simp: list_all_iff)
  then show ?case using array_body container_in_frame by simp
next
  case (JObject m)
  have "reads_value (snd kv)" if "kv \<in> set m" for kv
    using JObject.IH [of kv "snd kv"] JObject.prems that
    by (cases kv) (force simp: list_all_iff)
  with JObject.prems have
    "list_all (\<lambda>kv. reads_value (snd kv) \<and> json_printable (snd kv) \<and> utf8_valid (fst kv)) m"
    by (auto simp: list_all_iff)
  with JObject.prems show ?case using object_body container_in_frame by simp
qed (simp_all add: scalar_in_frame)

lemma parse_document_dump:
  assumes "json_ok j" "json_printable j" "json_depth j \<le> max_depth"
  shows "parse_document (dump indent j) = Inr j"
proof -
  let ?n = "length (dump indent j)"
  obtain c cs where c: "dump_value indent 0 j = c # cs" "value_start c"
      "\<not> is_container j \<Longrightarrow> c \<noteq> CHR ''{'' \<and> c \<noteq> CHR ''[''"
    using dump_value_hd [OF assms(2), of indent 0] by auto
  have "parse_value ?n (dump_value indent 0 j) = Inr (j, [])"
  proof (cases "is_container j")
    case True
    then have "c = CHR ''{'' \<or> c = CHR ''[''"
      using c(1) by (cases j) (auto split: if_splits)
    moreover have "container_loop ?n [new_frame (c = CHR ''{'')] cs = Inr (j, [])"
      using reads_dump [OF assms(1,2)] True assms(3) c(1)
      unfolding reads_body_def closed_def
      by (metis (no_types, lifting) add_0 append_Nil2 list.sel(1,3) list.size(3))
    ultimately show ?thesis
      by (simp add: parse_value_def parse_container_def push_frame_def c(1) max_depth_def)
  next
    case False
    then have "parse_scalar_value ?n (dump_value indent 0 j @ []) = Inr (j, [])"
      using assms(2) by (intro parse_scalar_dump) (simp_all add: ends_number_def)
    with False c show ?thesis by (simp add: parse_value_def)
  qed
  moreover have "skip_ws (dump_value indent 0 j) = dump_value indent 0 j"
    using skip_ws_dump [OF assms(2), of indent 0 "[]"] by simp
  ultimately show ?thesis
    by (simp add: parse_document_def dump_def skip_ws_def)
qed

end
