(* ===== verification/Json_Roundtrip.thy ===== *)
theory Json_Roundtrip
  imports Json_Dump
begin

text \<open>
  What a successful parse guarantees (\<open>src/core/JsonParser.cpp\<close>): objects with distinct, sorted
  keys, strings and keys in UTF-8, finite doubles, and at most \<open>kMaxDepth\<close> nested containers.
  With the round trip of \<open>Json_Dump\<close> a parsed document survives printing and parsing again.
\<close>

section \<open>Scalars\<close>

lemma utf8_valid_Nil [simp]: "utf8_valid []"
  unfolding utf8_scan_ok_iff [symmetric] by (simp add: utf8_scan_ok.simps)

lemma utf8_valid_ascii: "byte_of c < 0x80 \<Longrightarrow> utf8_valid [c]"
  by (simp add: utf8_scan_ok.simps flip: utf8_scan_ok_iff)

lemma utf8_valid_encoded: "scalar_value cp \<Longrightarrow> utf8_valid (append_utf8 cp)"
  using scan_ok_encoded [of cp "[]"] by (simp add: utf8_scan_ok.simps flip: utf8_scan_ok_iff)

lemma hex_digit_less: "hex_digit_value c = Some d \<Longrightarrow> d < 16"
  by (auto simp: hex_digit_value_def Let_def split: if_splits)

lemma hex_value_less: "hex_value v s = Some r \<Longrightarrow> r < 16 ^ length s * (v + 1)"
proof (induction v s rule: hex_value.induct)
  case (2 v c cs)
  then obtain d where d: "hex_digit_value c = Some d" "hex_value (16 * v + d) cs = Some r"
    by (auto split: option.splits)
  have "r < 16 ^ length cs * (16 * v + d + 1)" using 2 d by simp
  also have "\<dots> \<le> 16 ^ length cs * (16 * (v + 1))"
    using hex_digit_less [OF d(1)] by (intro mult_left_mono) auto
  finally show ?case by (simp add: algebra_simps)
qed simp

lemma parse_hex4_less: "parse_hex4 n s = Inr (v, s') \<Longrightarrow> v < 0x10000"
proof -
  assume "parse_hex4 n s = Inr (v, s')"
  then have "4 \<le> length s" "hex_value 0 (take 4 s) = Some v"
    by (auto simp: parse_hex4_def split: if_splits option.splits)
  with hex_value_less [of 0 "take 4 s" v] show ?thesis by simp
qed

lemma parse_unicode_escape_valid:
  assumes "parse_unicode_escape n s = Inr (t, s')"
  shows "utf8_valid t"
proof -
  obtain cp s1 where cp: "parse_hex4 n s = Inr (cp, s1)"
    using assms by (auto simp: parse_unicode_escape_def res_simps)
  have less: "cp < 0x10000" using parse_hex4_less [OF cp] .
  show ?thesis
  proof (cases "0xD800 \<le> cp \<and> cp \<le> 0xDBFF")
    case True
    with assms cp obtain lo s2 where "0xDC00 \<le> lo" "lo \<le> 0xDFFF"
        "t = append_utf8 (0x10000 + (cp - 0xD800) * 0x400 + (lo - 0xDC00))"
      by (auto simp: parse_unicode_escape_def res_simps not_less split: if_splits)
    moreover from this True
    have "scalar_value (0x10000 + (cp - 0xD800) * 0x400 + (lo - 0xDC00))"
      unfolding scalar_value_def by linarith
    ultimately show ?thesis using utf8_valid_encoded by simp
  next
    case False
    with assms cp have "t = append_utf8 cp" "\<not> (0xDC00 \<le> cp \<and> cp \<le> 0xDFFF)"
      by (auto simp: parse_unicode_escape_def split: if_splits)
    moreover from this False less have "scalar_value cp"
      unfolding scalar_value_def by linarith
    ultimately show ?thesis using utf8_valid_encoded by simp
  qed
qed

lemma simple_escape_valid: "simple_escape e = Some x \<Longrightarrow> utf8_valid [x]"
  by (rule utf8_valid_ascii)
     (auto simp: simple_escape_def split: if_splits, simp_all add: dquote_def backslash_def byte_of_def chr_def)

lemma parse_string_valid:
  "parse_string n acc s = Inr (t, s') \<Longrightarrow> utf8_valid acc \<Longrightarrow> utf8_valid t"
proof (induction n acc s rule: parse_string.induct)
  case (2 n acc c cs)
  consider "c = dquote" | e es x where "c \<noteq> dquote" "c = backslash" "cs = e # es" "simple_escape e = Some x"
    | es u es' where "c \<noteq> dquote" "c = backslash" "cs = CHR ''u'' # es"
        "simple_escape CHR ''u'' = None" "parse_unicode_escape n es = Inr (u, es')"
    | "c \<noteq> dquote" "c \<noteq> backslash" "0x20 \<le> byte_of c" "byte_of c < 0x80"
    | k where "c \<noteq> dquote" "c \<noteq> backslash" "0x80 \<le> byte_of c"
        "validate_utf8_sequence n (c # cs) = Inr k"
    using "2.prems" unfolding parse_string.simps(2)
    by (auto simp: res_simps not_less split: if_splits list.splits option.splits)
  then show ?case
  proof cases
    case 1
    with "2.prems" show ?thesis by (simp add: parse_string.simps(2))
  next
    case (2 e es x)
    with "2.prems" "2.IH"(2) [of e es x] show ?thesis
      by (simp add: parse_string.simps(2) utf8_valid_append simple_escape_valid)
  next
    case (3 es u es')
    then have "parse_string n (acc @ u) es' = Inr (t, s')"
      using "2.prems" by (simp add: parse_string.simps(2))
    moreover have "utf8_valid (acc @ u)"
      using "2.prems" 3 parse_unicode_escape_valid utf8_valid_append by blast
    ultimately show ?thesis using 3 "2.IH"(1) by blast
  next
    case 4
    with "2.prems" "2.IH"(3) show ?thesis
      by (simp add: parse_string.simps(2) utf8_valid_append utf8_valid_ascii)
  next
    case (5 k)
    then have "utf8_seq_length (c # cs) = Some k" by (simp add: validate_utf8_sequence_eq)
    then have "utf8_valid (take k (c # cs))" using utf8_seq_decode utf8_valid_encoded by metis
    with 5 "2.prems" "2.IH"(4) [of k] show ?thesis
      by (simp add: parse_string.simps(2) utf8_valid_append)
  qed
qed simp

lemma f64_finite_make: "b < inf_bits \<Longrightarrow> f64_finite (f64_make neg b)"
proof -
  assume b: "b < inf_bits"
  then have "b < 2 ^ 63" by (simp add: inf_bits_def)
  then have "unat (f64_make neg b) = (if neg then 2 ^ 63 else 0) + b"
    unfolding f64_make_def unat_of_nat by simp
  with \<open>b < 2 ^ 63\<close> have "f64_mag (f64_make neg b) = b"
    by (simp add: f64_mag_def)
  with b show ?thesis by (simp add: f64_finite_iff)
qed

text \<open>What a parsed value satisfies.\<close>

definition json_clean :: "json \<Rightarrow> bool" where
  "json_clean j \<longleftrightarrow> json_ok j \<and> json_printable j"

lemma json_clean_simps [simp]:
  "json_clean JNull" "json_clean (JBool b)" "json_clean (JInt i)"
  "json_clean (JDouble d) \<longleftrightarrow> f64_finite d" "json_clean (JString s) \<longleftrightarrow> utf8_valid s"
  "json_clean (JArray xs) \<longleftrightarrow> list_all json_clean xs"
  "json_clean (JObject m) \<longleftrightarrow> amap_ok m \<and> list_all (\<lambda>kv. utf8_valid (fst kv) \<and> json_clean (snd kv)) m"
  by (auto simp: json_clean_def list_all_iff)

lemma parse_number_token_clean:
  assumes "parse_number_token n token fl rest = Inr v"
  shows "json_clean v \<and> json_depth v = 0"
proof (cases fl)
  case True
  with assms show ?thesis
    by (auto simp: parse_number_token_def from_chars_double_def parse_float_fallback_def Let_def res_simps
        f64_finite_make split: fc_result.splits option.splits if_splits)
next
  case False
  with assms show ?thesis
    by (auto simp: parse_number_token_def split: fc_result.splits option.splits if_splits)
qed

lemma parse_scalar_clean:
  assumes "parse_scalar_value n s = Inr (v, s')"
  shows "json_clean v \<and> json_depth v = 0"
proof -
  have "parse_number n t = Inr (v, r) \<Longrightarrow> json_clean v \<and> json_depth v = 0" for t r
    by (auto simp: parse_number_def Let_def res_simps split: prod.splits if_splits
        dest!: parse_number_token_clean)
  moreover have "parse_literal n t = Inr (v, r) \<Longrightarrow> json_clean v \<and> json_depth v = 0" for t r
    by (auto simp: parse_literal_def split: if_splits)
  ultimately show ?thesis
    using assms
    by (auto simp: parse_scalar_value_def res_simps split: list.splits if_splits
        dest: parse_string_valid)
qed

section \<open>Containers\<close>

text \<open>
  The invariant of the stack: a frame at height \<open>l\<close> holds clean values that are at most
  \<open>kMaxDepth - l\<close> deep, and the stack is at most \<open>kMaxDepth\<close> high.
\<close>

definition fits :: "nat \<Rightarrow> json \<Rightarrow> bool" where
  "fits l j \<longleftrightarrow> json_clean j \<and> l + json_depth j \<le> max_depth"

definition frame_inv :: "nat \<Rightarrow> frame \<Rightarrow> bool" where
  "frame_inv l fr \<longleftrightarrow> l \<le> max_depth \<and> list_all (fits l) (fr_items fr) \<and>
     list_all (\<lambda>kv. utf8_valid (fst kv) \<and> fits l (snd kv)) (fr_members fr) \<and>
     amap_ok (fr_members fr) \<and> utf8_valid (fr_key fr)"

fun stack_inv :: "frame list \<Rightarrow> bool" where
  "stack_inv [] = True"
| "stack_inv (fr # stk) = (frame_inv (Suc (length stk)) fr \<and> stack_inv stk)"

lemma new_frame_inv: "l \<le> max_depth \<Longrightarrow> frame_inv l (new_frame obj)"
  by (simp add: frame_inv_def new_frame_def)

lemma amap_put_all:
  "list_all P m \<Longrightarrow> P (k, v) \<Longrightarrow> list_all P (amap_put k v m)"
  by (induction k v m rule: amap_put.induct) auto

lemma complete_value_inv:
  assumes "stack_inv stk" "fits (length stk) j"
  shows "stack_inv (complete_value j stk)"
proof (cases stk)
  case (Cons fr st)
  then show ?thesis
    using assms
    by (auto simp: frame_inv_def amap_emplace_def amap_put_all split: option.split)
qed simp

lemma depth_list_le:
  "l \<le> max_depth \<Longrightarrow> list_all (\<lambda>x. l + json_depth (g x) \<le> max_depth) xs \<Longrightarrow>
     l + Max (insert 0 (set (map (\<lambda>x. json_depth (g x)) xs))) \<le> max_depth"
proof -
  assume "l \<le> max_depth" "list_all (\<lambda>x. l + json_depth (g x) \<le> max_depth) xs"
  then have "Max (insert 0 (set (map (\<lambda>x. json_depth (g x)) xs))) \<le> max_depth - l"
    by (subst Max_le_iff) (auto simp: list_all_iff)
  with \<open>l \<le> max_depth\<close> show ?thesis by linarith
qed

lemma frame_inv_array:
  assumes "frame_inv (Suc l) fr"
  shows "fits l (JArray (fr_items fr))"
  using assms depth_list_le [of "Suc l" "\<lambda>x. x" "fr_items fr"]
  by (simp add: frame_inv_def fits_def list_all_iff)

lemma frame_inv_object:
  assumes "frame_inv (Suc l) fr"
  shows "fits l (JObject (fr_members fr))"
  using assms depth_list_le [of "Suc l" snd "fr_members fr"]
  by (simp add: frame_inv_def fits_def list_all_iff)

text \<open>A step keeps the invariant, and the value it ends with fits at depth 0.\<close>

definition step_inv :: "step_result \<Rightarrow> bool" where
  "step_inv r \<longleftrightarrow> (\<forall>stk s. r = Inr (Inl (stk, s)) \<longrightarrow> stack_inv stk) \<and>
     (\<forall>j s. r = Inr (Inr (j, s)) \<longrightarrow> fits 0 j)"

lemma finish_container_inv:
  "stack_inv stk \<Longrightarrow> fits (length stk) j \<Longrightarrow> step_inv (finish_container j stk s)"
  by (auto simp: step_inv_def finish_container_def complete_value_inv)

lemma step_inv_fail [simp]: "step_inv (parse_fail n r s)"
  by (simp add: step_inv_def)

lemma scalar_child_inv:
  assumes "stack_inv stk" "stk \<noteq> []"
  shows "step_inv (scalar_child n stk s)"
proof -
  have "length stk \<le> max_depth" using assms by (cases stk) (auto simp: frame_inv_def)
  then have "parse_scalar_value n s = Inr (v, s') \<Longrightarrow> fits (length stk) v" for v s'
    by (auto simp: fits_def dest: parse_scalar_clean)
  then show ?thesis
    using assms by (auto simp: step_inv_def scalar_child_def res_simps complete_value_inv)
qed

lemma push_frame_inv:
  "stack_inv stk \<Longrightarrow> step_inv (rmap Inl (push_frame n obj stk s))"
  by (auto simp: step_inv_def push_frame_def res_simps new_frame_inv split: if_splits)

lemma frame_inv_update [simp]:
  "frame_inv l (fr\<lparr>fr_phase := p\<rparr>) = frame_inv l fr"
  "utf8_valid k \<Longrightarrow> frame_inv l fr \<Longrightarrow> frame_inv l (fr\<lparr>fr_key := k\<rparr>)"
  by (simp_all add: frame_inv_def)

lemma array_step_inv:
  assumes "stack_inv (tp # stk)"
  shows "step_inv (array_step n tp stk c cs)"
proof -
  have "step_inv (finish_container (JArray (fr_items tp)) stk cs)"
    using assms by (intro finish_container_inv) (auto intro: frame_inv_array)
  moreover have "step_inv (Inr (Inl (tp\<lparr>fr_phase := p\<rparr> # stk, s)))" for p s
    using assms by (simp add: step_inv_def)
  moreover have "step_inv (scalar_child n (tp # stk) s)" for s
    using assms by (intro scalar_child_inv) simp_all
  ultimately show ?thesis
    using push_frame_inv [OF assms] by (simp add: array_step_def Let_def)
qed

lemma object_step_inv:
  assumes "stack_inv (tp # stk)"
  shows "step_inv (object_step n tp stk c cs)"
proof -
  have "step_inv (finish_container (JObject (fr_members tp)) stk cs)"
    using assms by (intro finish_container_inv) (auto intro: frame_inv_object)
  moreover have "step_inv (Inr (Inl (tp\<lparr>fr_phase := p\<rparr> # stk, s)))" for p s
    using assms by (simp add: step_inv_def)
  moreover have "step_inv (scalar_child n (tp # stk) s)" for s
    using assms by (intro scalar_child_inv) simp_all
  moreover have "step_inv (rbind (parse_string n [] cs) (\<lambda>(k, s1).
      let s2 = skip_ws s1 in
      if s2 = [] \<or> hd s2 \<noteq> CHR '':'' then parse_fail n (''expected '' @ [chr 39] @ '':'' @ [chr 39]) s2
      else Inr (Inl (tp\<lparr>fr_key := k, fr_phase := 1\<rparr> # stk, tl s2))))"
    using assms
    by (auto simp: step_inv_def res_simps Let_def dest: parse_string_valid split: if_splits)
  ultimately show ?thesis
    using push_frame_inv [OF assms] by (simp add: object_step_def Let_def)
qed

lemma container_step_inv: "stack_inv stk \<Longrightarrow> step_inv (container_step n stk s)"
  by (cases stk) (simp_all add: array_step_inv object_step_inv del: stack_inv.simps split: list.split)

lemma container_loop_fits:
  "container_loop n stk s = Inr (j, s') \<Longrightarrow> stack_inv stk \<Longrightarrow> fits 0 j"
proof (induction n stk s rule: container_loop.induct)
  case (1 n stk s)
  have inv: "step_inv (container_step n stk s)" using container_step_inv [OF "1.prems"(2)] .
  show ?case
  proof (cases "container_step n stk s")
    case (Inl e)
    then show ?thesis using "1.prems"(1) by (subst (asm) container_loop.simps) simp
  next
    case (Inr r)
    note r = this
    show ?thesis
    proof (cases r)
      case (Inl q)
      obtain stk' s1 where q: "q = (stk', s1)" by (cases q)
      have "container_loop n stk' s1 = Inr (j, s')"
        using "1.prems"(1) r Inl q by (subst (asm) container_loop.simps) simp
      moreover have "stack_inv stk'" using inv r Inl q by (simp add: step_inv_def)
      ultimately show ?thesis using "1.IH" [OF _ _ q [symmetric]] r Inl q by simp
    next
      case (Inr jr)
      then have "jr = (j, s')"
        using "1.prems"(1) r by (subst (asm) container_loop.simps) simp
      then show ?thesis using inv r Inr by (simp add: step_inv_def)
    qed
  qed
qed

lemma parse_value_fits: "parse_value n s = Inr (j, s') \<Longrightarrow> fits 0 j"
  by (auto simp: parse_value_def parse_container_def push_frame_def max_depth_def res_simps new_frame_inv
      split: list.splits if_splits dest!: container_loop_fits)
     (auto simp: fits_def dest: parse_scalar_clean)

lemma parse_document_fits: "parse_document s = Inr j \<Longrightarrow> fits 0 j"
  by (auto simp: parse_document_def Let_def res_simps split: if_splits dest: parse_value_fits)

section \<open>Repeated keys\<close>

text \<open>The text of an object whose members come in any order, with repeated keys.\<close>

lemma emplace_all_map_of:
  "amap_find k (emplace_all m0 ms) = (case amap_find k m0 of Some v \<Rightarrow> Some v | None \<Rightarrow> map_of ms k)"
  by (induction ms arbitrary: m0) (auto simp: emplace_all_def split: option.splits)

lemma emplace_all_ok: "amap_ok m0 \<Longrightarrow> amap_ok (emplace_all m0 ms)"
  by (induction ms arbitrary: m0) (auto simp: emplace_all_def)

lemma parse_members_text:
  assumes "list_all (\<lambda>kv. utf8_valid (fst kv) \<and> fits 1 (snd kv)) ms"
  shows "parse_document (''{'' @ dump_members indent d ms @ ''}'') = Inr (JObject (emplace_all [] ms))"
proof -
  let ?n = "length (''{'' @ dump_members indent d ms @ ''}'')"
  let ?tp = "new_frame True"
  have "container_loop ?n [?tp] (dump_members indent d ms @ ''}'') =
      closed ?n (JObject (emplace_all [] ms)) [] []"
  proof (cases ms)
    case Nil
    then show ?thesis
      using object_close [of ?tp "[]" ?n "[]" "[]"] by (simp add: new_frame_def emplace_all_def)
  next
    case (Cons kv m')
    let ?tl = "(if m' = [] then [] else CHR '','' # sep_items (member_text indent d (CHR '':'' # [])) [] m') @
        [] @ CHR ''}'' # []"
    let ?tp2 = "?tp\<lparr>fr_members := amap_emplace (fst kv) (snd kv) (fr_members ?tp), fr_phase := 2\<rparr>"
    have mem: "list_all (readable_member (length [?tp])) ms"
      using assms reads_dump by (auto simp: list_all_iff readable_member_def fits_def json_clean_def)
    have "container_loop ?n [?tp] ([] @ member_text indent d (CHR '':'' # []) kv @ ?tl) =
        container_loop ?n [?tp2] ?tl"
      by (rule object_member) (use mem Cons ends_number_close [of "[]" "CHR ''}''" "[]"] in \<open>auto simp: new_frame_def\<close>)
    also have "\<dots> = closed ?n (JObject (emplace_all (fr_members ?tp2) m')) [] []"
      by (rule object_rest) (use mem Cons in \<open>auto simp: new_frame_def\<close>)
    finally show ?thesis
      by (simp add: Cons dump_members_sep new_frame_def emplace_all_def)
  qed
  then show ?thesis
    by (simp add: parse_document_def parse_value_def parse_container_def push_frame_def max_depth_def
        closed_def skip_ws_def)
qed

section \<open>Too many levels\<close>

lemma deep_loop:
  "length stk + j = max_depth \<Longrightarrow> stk \<noteq> [] \<Longrightarrow> list_all (\<lambda>fr. \<not> fr_is_object fr \<and> fr_phase fr = 0) stk \<Longrightarrow>
   container_loop n stk (replicate j CHR ''['' @ CHR ''['' # s) =
     parse_fail n (''nesting depth exceeds '' @ dec_nat max_depth) (CHR ''['' # s)"
proof (induction j arbitrary: stk)
  case 0
  then obtain tp st where stk: "stk = tp # st" by (cases stk) auto
  have "container_step n stk (CHR ''['' # s) =
      rmap Inl (push_frame n False stk (CHR ''['' # s))"
    using 0 by (simp add: stk array_step_def)
  with 0 show ?case
    by (subst container_loop.simps) (simp add: push_frame_def parse_fail_def throw_def)
next
  case (Suc j)
  then obtain tp st where stk: "stk = tp # st" by (cases stk) auto
  have "container_loop n stk (replicate (Suc j) CHR ''['' @ CHR ''['' # s) =
      container_loop n (new_frame False # stk) (replicate j CHR ''['' @ CHR ''['' # s)"
    by (rule loop_step) (use Suc.prems in \<open>simp add: stk array_step_def push_frame_def\<close>)
  also have "\<dots> = parse_fail n (''nesting depth exceeds '' @ dec_nat max_depth) (CHR ''['' # s)"
    using Suc.prems by (intro Suc.IH) (simp_all add: new_frame_def)
  finally show ?case .
qed

section \<open>Properties\<close>

text \<open>C14: \<open>Parse(v.Dump(indent))\<close> returns \<open>v\<close>, for every indentation, when the strings of \<open>v\<close> are
  UTF-8, its doubles finite, its objects maps, and it is nested at most \<open>kMaxDepth\<close> deep.  Integers
  stay integers and doubles stay doubles, bit for bit.\<close>

theorem dump_parse_roundtrip:
  assumes "json_ok j" and "json_printable j" and "json_depth j \<le> max_depth"
  shows "parse_document (dump indent j) = Inr j"
  using assms by (rule parse_document_dump)

definition sample_json :: json where
  "sample_json = JObject [(''a'', JArray [JInt (- 7), JDouble 0x3FF8000000000000, JString [chr 10, chr 34]]),
    (''b'', JObject [])]"

theorem dump_parse_roundtrip_witness: "parse_document (dump 2 sample_json) = Inr sample_json"
proof (rule dump_parse_roundtrip)
  show "json_ok sample_json"
    by (simp add: sample_json_def amap_ok_def)
  have "utf8_valid ''a''" "utf8_valid ''b''"
    by (simp_all add: byte_of_def flip: utf8_scan_ok_iff)
  moreover have "utf8_valid [chr 10, chr 34]"
    by (simp flip: utf8_scan_ok_iff)
  ultimately show "json_printable sample_json"
    by (simp add: sample_json_def f64_finite_def f64_exp_def f64_mag_def)
  show "json_depth sample_json \<le> max_depth"
    by (simp add: sample_json_def max_depth_def)
qed

text \<open>A document that parses keeps its value through \<open>Dump\<close> and \<open>Parse\<close>, in every indentation.\<close>

theorem parse_dump_stable:
  assumes "parse_document s = Inr j"
  shows "parse_document (dump indent j) = Inr j"
  using parse_document_fits [OF assms]
  by (intro parse_document_dump) (simp_all add: fits_def json_clean_def)

theorem parse_dump_stable_witness:
  "parse_document (dump 4 (JArray [JBool True, JNull])) = Inr (JArray [JBool True, JNull])"
proof (rule parse_dump_stable)
  show "parse_document ''[ true,null ]'' = Inr (JArray [JBool True, JNull])" by code_simp
qed

text \<open>C24: what the parser accepts is well formed: every object is a map with distinct sorted keys,
  every string and key is valid UTF-8, every double is finite, and containers are nested at most
  \<open>kMaxDepth\<close> = 1000 deep.\<close>

theorem parse_result_clean:
  assumes "parse_document s = Inr j"
  shows "json_ok j \<and> json_printable j \<and> json_depth j \<le> 1000"
  using parse_document_fits [OF assms] by (simp add: fits_def json_clean_def max_depth_def)

theorem parse_result_clean_witness:
  "json_ok (JArray [JNull]) \<and> json_printable (JArray [JNull]) \<and> json_depth (JArray [JNull]) \<le> 1000"
proof (rule parse_result_clean)
  show "parse_document ''[null]'' = Inr (JArray [JNull])" by code_simp
qed

text \<open>Of several members with one key the first is kept, whatever their order in the text.\<close>

theorem parse_first_key_wins:
  assumes "list_all (\<lambda>kv. utf8_valid (fst kv) \<and> json_ok (snd kv) \<and> json_printable (snd kv) \<and>
    json_depth (snd kv) < max_depth) ms"
  shows "\<exists>m. parse_document (''{'' @ dump_members indent d ms @ ''}'') = Inr (JObject m) \<and>
    amap_ok m \<and> (\<forall>k. amap_find k m = map_of ms k)"
proof -
  have "parse_document (''{'' @ dump_members indent d ms @ ''}'') = Inr (JObject (emplace_all [] ms))"
    using assms by (intro parse_members_text) (auto simp: list_all_iff fits_def json_clean_def)
  then show ?thesis by (simp add: emplace_all_ok emplace_all_map_of)
qed

theorem parse_first_key_wins_witness:
  "\<exists>m. parse_document (''{'' @ dump_members (- 1) 0 [(''k'', JNull), (''j'', JNull), (''k'', JBool True)] @ ''}'') =
     Inr (JObject m) \<and> amap_ok m \<and>
     (\<forall>k. amap_find k m = map_of [(''k'', JNull), (''j'', JNull), (''k'', JBool True)] k)"
  by (rule parse_first_key_wins) (simp add: max_depth_def byte_of_def flip: utf8_scan_ok_iff)

text \<open>A text that opens more than \<open>kMaxDepth\<close> arrays is rejected at the bracket that goes
  too deep, whatever follows it.\<close>

theorem parse_too_deep:
  "parse_document (replicate (Suc max_depth) CHR ''['' @ s) =
     throw ParseError ''JSON parse error: nesting depth exceeds 1000 at offset 1000''"
proof -
  define t r u where "t = replicate (Suc max_depth) CHR ''['' @ s" and "r = replicate (max_depth - 1) CHR ''[''"
    and "u = CHR ''['' # s"
  have "replicate (Suc (Suc k)) c @ s = c # replicate k c @ c # s" for k and c :: char
    by (simp add: replicate_app_Cons_same)
  from this [of "max_depth - 1" "CHR ''[''"] have t: "t = CHR ''['' # r @ u"
    by (simp add: max_depth_def t_def r_def u_def del: replicate.simps)
  have "container_loop (length t) [new_frame False] (r @ u) =
      parse_fail (length t) (''nesting depth exceeds '' @ dec_nat max_depth) u"
    unfolding r_def u_def by (rule deep_loop) (simp_all add: new_frame_def max_depth_def)
  moreover have "parse_value N (skip_ws t) = container_loop N [new_frame False] (r @ u)" for N
    by (simp add: t parse_value_def parse_container_def push_frame_def max_depth_def)
  ultimately have "parse_document t =
      parse_fail (length t) (''nesting depth exceeds '' @ dec_nat max_depth) u"
    unfolding parse_document_def Let_def by simp
  moreover have "length t - length u = max_depth" by (simp add: t_def u_def max_depth_def)
  moreover have "dec_nat max_depth = ''1000''" by code_simp
  ultimately show ?thesis unfolding t_def [symmetric] by (simp add: parse_fail_def)
qed

end
