(* ===== verification/Json_Fields.thy ===== *)
theory Json_Fields
  imports Json_Roundtrip
begin

text \<open>
  \<open>src/detail/JsonSerializer.hpp\<close>: the helpers with which every type of the protocol is written to
  and read from a JSON object.  A serializer starts from an empty object and performs its
  assignments in order; \<open>build_object\<close> is that sequence.  The locales \<open>json_encoder\<close> (a serializer
  that may throw) and \<open>json_codec\<close> (one that does not) state the contract of a pair of a serializer
  and a deserializer; optional fields and vectors of such a type are handled once, inside them.
\<close>

named_theorems codec_simps "reading back what a serializer wrote"

section \<open>Writing\<close>

type_synonym writer = "members \<Rightarrow> members"

definition build_object :: "writer list \<Rightarrow> json" where
  "build_object ws = JObject (foldl (\<lambda>m w. w m) [] ws)"

text \<open>\<open>obj[key] = value\<close>.\<close>

definition put :: "string \<Rightarrow> json \<Rightarrow> writer" where
  "put key v = amap_put key v"

text \<open>\<open>SerializeOptional\<close>, and \<open>if (opt) obj[key] = f(*opt)\<close>.\<close>

definition put_opt :: "string \<Rightarrow> ('a \<Rightarrow> json) \<Rightarrow> 'a option \<Rightarrow> writer" where
  "put_opt key f opt m = (case opt of None \<Rightarrow> m | Some x \<Rightarrow> put key (f x) m)"

text \<open>\<open>SerializeVector\<close>: nothing is written for an empty vector.\<close>

definition put_vector :: "string \<Rightarrow> ('a \<Rightarrow> json) \<Rightarrow> 'a list \<Rightarrow> writer" where
  "put_vector key f xs m = (if xs = [] then m else put key (JArray (map f xs)) m)"

definition put_if :: "bool \<Rightarrow> string \<Rightarrow> json \<Rightarrow> writer" where
  "put_if b key v m = (if b then put key v m else m)"

section \<open>Reading\<close>

definition field_error :: "string \<Rightarrow> string \<Rightarrow> string \<Rightarrow> json \<Rightarrow> 'a mres" where
  "field_error fn key expected v = throw DeserializeFailed
     (fn @ '': field '' @ [chr 39] @ key @ [chr 39] @ '' expected '' @ expected @ '', got '' @ json_type_name v)"

text \<open>The specialisations of \<open>DeserializeOptional\<close>.\<close>

definition read_string :: "string \<Rightarrow> json option \<Rightarrow> string option mres" where
  "read_string key fv = (case fv of None \<Rightarrow> Inr None
     | Some v \<Rightarrow> if is_string v then rmap Some (get_string v)
                 else field_error ''DeserializeOptional'' key ''string'' v)"

definition read_bool :: "string \<Rightarrow> json option \<Rightarrow> bool option mres" where
  "read_bool key fv = (case fv of None \<Rightarrow> Inr None
     | Some v \<Rightarrow> if is_bool v then rmap Some (get_bool v)
                 else field_error ''DeserializeOptional'' key ''bool'' v)"

definition read_int :: "string \<Rightarrow> json option \<Rightarrow> i64 option mres" where
  "read_int key fv = (case fv of None \<Rightarrow> Inr None
     | Some v \<Rightarrow> if is_int v then rmap Some (get_int v)
                 else field_error ''DeserializeOptional'' key ''int'' v)"

definition f64_of_int :: "i64 \<Rightarrow> f64" where
  "f64_of_int i = f64_make (sint i < 0) (round_bits (nat \<bar>sint i\<bar>) 1)"

definition read_double :: "string \<Rightarrow> json option \<Rightarrow> f64 option mres" where
  "read_double key fv = (case fv of None \<Rightarrow> Inr None
     | Some v \<Rightarrow> if is_number v then
                   rmap Some (if is_double v then get_double v else rmap f64_of_int (get_int v))
                 else field_error ''DeserializeOptional'' key ''number'' v)"

definition opt_string :: "string \<Rightarrow> json \<Rightarrow> string option mres" where
  "opt_string key j = read_string key (json_find key j)"

definition opt_bool :: "string \<Rightarrow> json \<Rightarrow> bool option mres" where
  "opt_bool key j = read_bool key (json_find key j)"

definition opt_int :: "string \<Rightarrow> json \<Rightarrow> i64 option mres" where
  "opt_int key j = read_int key (json_find key j)"

definition opt_double :: "string \<Rightarrow> json \<Rightarrow> f64 option mres" where
  "opt_double key j = read_double key (json_find key j)"

definition opt_json :: "string \<Rightarrow> json \<Rightarrow> json option mres" where
  "opt_json key j = Inr (json_find key j)"

text \<open>\<open>if (auto* p = j.Find(key)) opt = f(*p)\<close>, and the same guarded by a test of \<open>*p\<close>.\<close>

definition read_with :: "(json \<Rightarrow> 'a mres) \<Rightarrow> json option \<Rightarrow> 'a option mres" where
  "read_with f fv = (case fv of None \<Rightarrow> Inr None | Some v \<Rightarrow> rmap Some (f v))"

definition opt_with :: "string \<Rightarrow> (json \<Rightarrow> 'a mres) \<Rightarrow> json \<Rightarrow> 'a option mres" where
  "opt_with key f j = read_with f (json_find key j)"

definition read_when :: "(json \<Rightarrow> bool) \<Rightarrow> (json \<Rightarrow> 'a mres) \<Rightarrow> json option \<Rightarrow> 'a option mres" where
  "read_when p f fv = (case fv of None \<Rightarrow> Inr None
     | Some v \<Rightarrow> if p v then rmap Some (f v) else Inr None)"

definition opt_when :: "(json \<Rightarrow> bool) \<Rightarrow> string \<Rightarrow> (json \<Rightarrow> 'a mres) \<Rightarrow> json \<Rightarrow> 'a option mres" where
  "opt_when p key f j = read_when p f (json_find key j)"

text \<open>The two overloads of \<open>DeserializeVector\<close>.\<close>

definition read_vector :: "string \<Rightarrow> (json \<Rightarrow> 'a mres) \<Rightarrow> json option \<Rightarrow> 'a list mres" where
  "read_vector key f fv = (case fv of None \<Rightarrow> Inr []
     | Some v \<Rightarrow> if is_array v then rbind (get_array v) (rtraverse f)
                 else field_error ''DeserializeVector'' key ''array'' v)"

definition vector_field :: "string \<Rightarrow> (json \<Rightarrow> 'a mres) \<Rightarrow> json \<Rightarrow> 'a list mres" where
  "vector_field key f j = read_vector key f (json_find key j)"

definition array_items :: "(json \<Rightarrow> 'a mres) \<Rightarrow> json \<Rightarrow> 'a list mres" where
  "array_items f v = (if is_array v then rbind (get_array v) (rtraverse f) else Inr [])"

text \<open>\<open>j[key].GetString()\<close> and the other required fields.\<close>

definition req_with :: "string \<Rightarrow> (json \<Rightarrow> 'a mres) \<Rightarrow> json \<Rightarrow> 'a mres" where
  "req_with key f j = rbind (json_at key j) f"

abbreviation req_string :: "string \<Rightarrow> json \<Rightarrow> string mres" where
  "req_string key \<equiv> req_with key get_string"

section \<open>Reading what was written\<close>

lemma build_object_find [codec_simps]:
  "json_find k (build_object ws) = amap_find k (foldl (\<lambda>m w. w m) [] ws)"
  by (simp add: build_object_def)

lemma req_with_found [codec_simps]:
  "amap_find k (foldl (\<lambda>m w. w m) [] ws) = Some v \<Longrightarrow> req_with k f (build_object ws) = f v"
  by (simp add: build_object_def req_with_def json_at_def lookup_required_def)

lemma is_object_build [simp]: "is_object (build_object ws)"
  by (simp add: build_object_def)

lemma amap_find_put_field [codec_simps]:
  "amap_find k (put k' v m) = (if k = k' then Some v else amap_find k m)"
  by (simp add: put_def)

text \<open>Each key is written at most once, so the rest of the object does not have it.\<close>

lemma amap_find_put_opt [codec_simps]:
  "k \<noteq> k' \<Longrightarrow> amap_find k (put_opt k' f x m) = amap_find k m"
  "amap_find k m = None \<Longrightarrow> amap_find k (put_opt k f x m) = map_option f x"
  by (simp_all add: put_opt_def put_def split: option.split)

lemma amap_find_put_vector [codec_simps]:
  "k \<noteq> k' \<Longrightarrow> amap_find k (put_vector k' f xs m) = amap_find k m"
  "amap_find k m = None \<Longrightarrow> amap_find k (put_vector k f xs m) =
     (if xs = [] then None else Some (JArray (map f xs)))"
  by (simp_all add: put_vector_def put_def)

lemma amap_find_put_if [codec_simps]:
  "k \<noteq> k' \<Longrightarrow> amap_find k (put_if b k' v m) = amap_find k m"
  "amap_find k m = None \<Longrightarrow> amap_find k (put_if b k v m) = (if b then Some v else None)"
  by (simp_all add: put_if_def put_def)

lemma read_string_map [codec_simps]: "read_string k (map_option JString x) = Inr x"
  by (cases x) (simp_all add: read_string_def)

lemma read_bool_map [codec_simps]: "read_bool k (map_option JBool x) = Inr x"
  by (cases x) (simp_all add: read_bool_def)

lemma read_int_map [codec_simps]: "read_int k (map_option JInt x) = Inr x"
  by (cases x) (simp_all add: read_int_def)

lemma read_double_map [codec_simps]: "read_double k (map_option JDouble x) = Inr x"
  by (cases x) (simp_all add: read_double_def is_number_def)

lemma read_none [simp]: "read_string k None = Inr None" "read_bool k None = Inr None"
  "read_int k None = Inr None" "read_double k None = Inr None" "read_with f None = Inr None"
  "read_when p f None = Inr None" "read_vector k f None = Inr []"
  by (simp_all add: read_string_def read_bool_def read_int_def read_double_def read_with_def
      read_when_def read_vector_def)

lemma map_option_id [codec_simps]: "map_option (\<lambda>x. x) y = y"
  by (simp add: option.map_ident)

lemmas field_readers [codec_simps] =
  opt_string_def opt_bool_def opt_int_def opt_double_def opt_json_def opt_with_def opt_when_def
  vector_field_def

section \<open>Pairs of a serializer and a deserializer\<close>

locale json_encoder =
  fixes ser :: "'a \<Rightarrow> json mres" and de :: "json \<Rightarrow> 'a mres" and ok :: "'a \<Rightarrow> bool"
  assumes roundtrip: "ok x \<Longrightarrow> \<exists>j. ser x = Inr j \<and> de j = Inr x"
begin

lemma bind_roundtrip: "ok x \<Longrightarrow> rbind (ser x) de = Inr x"
  using roundtrip by fastforce

lemma traverse_roundtrip:
  "list_all ok xs \<Longrightarrow> \<exists>js. rtraverse ser xs = Inr js \<and> rtraverse de js = Inr xs \<and> length js = length xs"
proof (induction xs)
  case (Cons x xs)
  then obtain j js where "ser x = Inr j" "de j = Inr x" "rtraverse ser xs = Inr js"
      "rtraverse de js = Inr xs" "length js = length xs"
    using roundtrip [of x] by auto
  then show ?case by (intro exI [of _ "j # js"]) simp
qed simp

lemma ser_inj: "ok x \<Longrightarrow> ok y \<Longrightarrow> ser x = ser y \<Longrightarrow> x = y"
  using roundtrip by (metis sum.inject(2))

end

locale json_codec =
  fixes ser :: "'a \<Rightarrow> json" and de :: "json \<Rightarrow> 'a mres" and ok :: "'a \<Rightarrow> bool"
  assumes de_ser: "ok x \<Longrightarrow> de (ser x) = Inr x"
begin

lemma read_with_opt: "pred_option ok x \<Longrightarrow> read_with de (map_option ser x) = Inr x"
  by (cases x) (simp_all add: read_with_def de_ser)

lemma read_when_opt:
  "pred_option ok x \<Longrightarrow> (\<And>y. p (ser y)) \<Longrightarrow> read_when p de (map_option ser x) = Inr x"
  by (cases x) (simp_all add: read_when_def de_ser)

lemma traverse_map: "list_all ok xs \<Longrightarrow> rtraverse de (map ser xs) = Inr xs"
  by (induction xs) (simp_all add: de_ser)

lemma read_vector_map: "list_all ok xs \<Longrightarrow>
    read_vector k de (if xs = [] then None else Some (JArray (map ser xs))) = Inr xs"
  by (simp add: read_vector_def traverse_map)

lemma read_vector_all: "list_all ok xs \<Longrightarrow> read_vector k de (Some (JArray (map ser xs))) = Inr xs"
  by (simp add: read_vector_def traverse_map)

lemma array_items_map: "list_all ok xs \<Longrightarrow> array_items de (JArray (map ser xs)) = Inr xs"
  by (simp add: array_items_def traverse_map)

lemma ser_inject: "ok x \<Longrightarrow> ok y \<Longrightarrow> ser x = ser y \<longleftrightarrow> x = y"
  using de_ser by (metis sum.inject(2))

lemmas all = de_ser read_with_opt read_when_opt traverse_map read_vector_map read_vector_all array_items_map

end

sublocale json_codec \<subseteq> json_encoder "\<lambda>x. Inr (ser x)" de ok
  by unfold_locales (simp add: de_ser)

text \<open>Strings and arbitrary values are such types.\<close>

interpretation string_codec: json_codec JString get_string "\<lambda>_. True"
  by unfold_locales simp

lemmas string_codec_simps [codec_simps] =
  string_codec.all [unfolded list.pred_True option.pred_True, OF TrueI]

end
