(* ===== verification/Content.thy ===== *)
theory Content
  imports Json_Fields
begin

text \<open>
  Content blocks and their parts (\<open>include/mcp/Content.hpp\<close>, \<open>Implementation.hpp\<close>,
  \<open>src/core/Content.cpp\<close>).  A serializer that may throw returns a result.
\<close>

section \<open>Helpers\<close>

text \<open>\<open>if (v.xs) SerializeVector(obj, key, *v.xs, f)\<close>.\<close>

definition put_opt_vector :: "string \<Rightarrow> ('a \<Rightarrow> json) \<Rightarrow> 'a list option \<Rightarrow> writer" where
  "put_opt_vector key f opt m = (case opt of None \<Rightarrow> m | Some xs \<Rightarrow> put_vector key f xs m)"

lemma amap_find_put_opt_vector [codec_simps]:
  "k \<noteq> k' \<Longrightarrow> amap_find k (put_opt_vector k' f x m) = amap_find k m"
  "amap_find k m = None \<Longrightarrow> x \<noteq> Some [] \<Longrightarrow>
     amap_find k (put_opt_vector k f x m) = map_option (\<lambda>xs. JArray (map f xs)) x"
  by (auto simp: put_opt_vector_def codec_simps split: option.split)

context json_codec
begin

lemma read_when_vector:
  "pred_option (list_all ok) x \<Longrightarrow>
   read_when is_array (array_items de) (map_option (\<lambda>xs. JArray (map ser xs)) x) = Inr x"
  by (cases x) (simp_all add: read_when_def array_items_map)

end

lemma read_with_Some [codec_simps]: "read_with f (Some v) = rmap Some (f v)"
  by (simp add: read_with_def)

lemma string_vector [codec_simps]:
  "read_when is_array (array_items get_string) (map_option (\<lambda>xs. JArray (map JString xs)) x) = Inr x"
  by (rule string_codec.read_when_vector) (cases x; simp add: list_all_iff)

section \<open>Icons and annotations\<close>

record icon =
  ic_src :: string
  ic_mime_type :: "string option"
  ic_sizes :: "string list option"
  ic_theme :: "string option"

definition serialize_icon :: "icon \<Rightarrow> json" where
  "serialize_icon v = build_object [
     put ''src'' (JString (ic_src v)),
     put_opt ''mimeType'' JString (ic_mime_type v),
     put_opt_vector ''sizes'' JString (ic_sizes v),
     put_opt ''theme'' JString (ic_theme v)]"

definition deserialize_icon :: "json \<Rightarrow> icon mres" where
  "deserialize_icon j =
     rbind (req_string ''src'' j) (\<lambda>src.
     rbind (opt_string ''mimeType'' j) (\<lambda>mime.
     rbind (opt_when is_array ''sizes'' (array_items get_string) j) (\<lambda>sizes.
     rbind (opt_string ''theme'' j) (\<lambda>theme.
     Inr \<lparr>ic_src = src, ic_mime_type = mime, ic_sizes = sizes, ic_theme = theme\<rparr>))))"

definition icon_ok :: "icon \<Rightarrow> bool" where
  "icon_ok v \<longleftrightarrow> ic_sizes v \<noteq> Some []"

interpretation icon_codec: json_codec serialize_icon deserialize_icon icon_ok
  by unfold_locales
    (simp add: serialize_icon_def deserialize_icon_def icon_ok_def codec_simps)

lemmas icon_simps [codec_simps] = icon_codec.all icon_codec.read_when_vector

record annotations =
  an_audience :: "string list option"
  an_priority :: "f64 option"
  an_last_modified :: "string option"

definition serialize_annotations :: "annotations \<Rightarrow> json" where
  "serialize_annotations v = build_object [
     put_opt_vector ''audience'' JString (an_audience v),
     put_opt ''priority'' JDouble (an_priority v),
     put_opt ''lastModified'' JString (an_last_modified v)]"

definition deserialize_annotations :: "json \<Rightarrow> annotations mres" where
  "deserialize_annotations j =
     rbind (opt_when is_array ''audience'' (array_items get_string) j) (\<lambda>audience.
     rbind (opt_double ''priority'' j) (\<lambda>priority.
     rbind (opt_string ''lastModified'' j) (\<lambda>last_modified.
     Inr \<lparr>an_audience = audience, an_priority = priority, an_last_modified = last_modified\<rparr>)))"

definition annotations_ok :: "annotations \<Rightarrow> bool" where
  "annotations_ok v \<longleftrightarrow> an_audience v \<noteq> Some []"

interpretation annotations_codec: json_codec serialize_annotations deserialize_annotations annotations_ok
  by unfold_locales
    (simp add: serialize_annotations_def deserialize_annotations_def annotations_ok_def codec_simps)

lemmas annotations_simps [codec_simps] = annotations_codec.all

section \<open>Contents of resources\<close>

record text_resource =
  tr_uri :: string
  tr_text :: string
  tr_mime_type :: "string option"
  tr_meta :: "json option"

record blob_resource =
  br_uri :: string
  br_blob :: string
  br_mime_type :: "string option"
  br_meta :: "json option"

datatype resource_contents = TextResource text_resource | BlobResource blob_resource

definition serialize_text_resource :: "text_resource \<Rightarrow> json" where
  "serialize_text_resource v = build_object [
     put ''uri'' (JString (tr_uri v)),
     put ''text'' (JString (tr_text v)),
     put_opt ''mimeType'' JString (tr_mime_type v),
     put_opt ''_meta'' (\<lambda>x. x) (tr_meta v)]"

definition deserialize_text_resource :: "json \<Rightarrow> text_resource mres" where
  "deserialize_text_resource j =
     rbind (req_string ''uri'' j) (\<lambda>uri.
     rbind (req_string ''text'' j) (\<lambda>txt.
     rbind (opt_string ''mimeType'' j) (\<lambda>mime.
     rbind (opt_json ''_meta'' j) (\<lambda>meta.
     Inr \<lparr>tr_uri = uri, tr_text = txt, tr_mime_type = mime, tr_meta = meta\<rparr>))))"

definition serialize_blob_resource :: "blob_resource \<Rightarrow> json" where
  "serialize_blob_resource v = build_object [
     put ''uri'' (JString (br_uri v)),
     put ''blob'' (JString (br_blob v)),
     put_opt ''mimeType'' JString (br_mime_type v),
     put_opt ''_meta'' (\<lambda>x. x) (br_meta v)]"

definition deserialize_blob_resource :: "json \<Rightarrow> blob_resource mres" where
  "deserialize_blob_resource j =
     rbind (req_string ''uri'' j) (\<lambda>uri.
     rbind (req_string ''blob'' j) (\<lambda>blob.
     rbind (opt_string ''mimeType'' j) (\<lambda>mime.
     rbind (opt_json ''_meta'' j) (\<lambda>meta.
     Inr \<lparr>br_uri = uri, br_blob = blob, br_mime_type = mime, br_meta = meta\<rparr>))))"

fun serialize_resource_contents :: "resource_contents \<Rightarrow> json" where
  "serialize_resource_contents (TextResource v) = serialize_text_resource v"
| "serialize_resource_contents (BlobResource v) = serialize_blob_resource v"

definition deserialize_resource_contents :: "json \<Rightarrow> resource_contents mres" where
  "deserialize_resource_contents j =
     (if json_find ''text'' j \<noteq> None then rmap TextResource (deserialize_text_resource j)
      else if json_find ''blob'' j \<noteq> None then rmap BlobResource (deserialize_blob_resource j)
      else throw DeserializeFailed
        (''unknown ResourceContents type: neither '' @ [chr 39] @ ''text'' @ [chr 39] @ '' nor '' @
         [chr 39] @ ''blob'' @ [chr 39] @ '' field present, got '' @ json_type_name j))"

interpretation resource_contents_codec:
  json_codec serialize_resource_contents deserialize_resource_contents "\<lambda>_. True"
proof
  fix v :: resource_contents
  show "deserialize_resource_contents (serialize_resource_contents v) = Inr v"
    by (cases v) (simp_all add: deserialize_resource_contents_def serialize_text_resource_def
        serialize_blob_resource_def deserialize_text_resource_def deserialize_blob_resource_def codec_simps)
qed

lemmas resource_contents_simps [codec_simps] =
  resource_contents_codec.all [unfolded list.pred_True option.pred_True, OF TrueI]

section \<open>Content blocks\<close>

record text_content =
  tc_type :: string
  tc_text :: string
  tc_mime_type :: "string option"
  tc_annotations :: "annotations option"
  tc_meta :: "json option"

text \<open>\<open>ImageContent\<close> and \<open>AudioContent\<close> have the same fields.\<close>

record media_content =
  mc_type :: string
  mc_data :: string
  mc_mime_type :: string
  mc_annotations :: "annotations option"
  mc_meta :: "json option"

record embedded_resource =
  em_type :: string
  em_resource :: resource_contents
  em_annotations :: "annotations option"
  em_meta :: "json option"

record resource_link =
  rl_type :: string
  rl_uri :: string
  rl_name :: string
  rl_title :: "string option"
  rl_description :: "string option"
  rl_mime_type :: "string option"
  rl_size :: "i64 option"
  rl_icons :: "icon list"
  rl_annotations :: "annotations option"
  rl_meta :: "json option"

datatype content_variant =
    TextContent text_content
  | ImageContent media_content
  | AudioContent media_content
  | EmbeddedResource embedded_resource
  | ResourceLink resource_link

definition serialize_text_content :: "text_content \<Rightarrow> json" where
  "serialize_text_content v = build_object [
     put ''type'' (JString (tc_type v)),
     put ''text'' (JString (tc_text v)),
     put_opt ''mimeType'' JString (tc_mime_type v),
     put_opt ''annotations'' serialize_annotations (tc_annotations v),
     put_opt ''_meta'' (\<lambda>x. x) (tc_meta v)]"

definition deserialize_text_content :: "json \<Rightarrow> text_content mres" where
  "deserialize_text_content j =
     rbind (req_string ''type'' j) (\<lambda>ty.
     rbind (req_string ''text'' j) (\<lambda>txt.
     rbind (opt_string ''mimeType'' j) (\<lambda>mime.
     rbind (opt_with ''annotations'' deserialize_annotations j) (\<lambda>ann.
     rbind (opt_json ''_meta'' j) (\<lambda>meta.
     Inr \<lparr>tc_type = ty, tc_text = txt, tc_mime_type = mime, tc_annotations = ann, tc_meta = meta\<rparr>)))))"

definition serialize_image_content :: "media_content \<Rightarrow> json" where
  "serialize_image_content v = build_object [
     put ''type'' (JString (mc_type v)),
     put ''data'' (JString (mc_data v)),
     put ''mimeType'' (JString (mc_mime_type v)),
     put_opt ''annotations'' serialize_annotations (mc_annotations v),
     put_opt ''_meta'' (\<lambda>x. x) (mc_meta v)]"

definition deserialize_image_content :: "json \<Rightarrow> media_content mres" where
  "deserialize_image_content j =
     rbind (req_string ''type'' j) (\<lambda>ty.
     rbind (req_string ''data'' j) (\<lambda>dat.
     rbind (req_string ''mimeType'' j) (\<lambda>mime.
     rbind (opt_with ''annotations'' deserialize_annotations j) (\<lambda>ann.
     rbind (opt_json ''_meta'' j) (\<lambda>meta.
     Inr \<lparr>mc_type = ty, mc_data = dat, mc_mime_type = mime, mc_annotations = ann, mc_meta = meta\<rparr>)))))"

definition serialize_audio_content :: "media_content \<Rightarrow> json" where
  "serialize_audio_content v = build_object [
     put ''type'' (JString (mc_type v)),
     put ''data'' (JString (mc_data v)),
     put ''mimeType'' (JString (mc_mime_type v)),
     put_opt ''annotations'' serialize_annotations (mc_annotations v),
     put_opt ''_meta'' (\<lambda>x. x) (mc_meta v)]"

definition deserialize_audio_content :: "json \<Rightarrow> media_content mres" where
  "deserialize_audio_content j =
     rbind (req_string ''type'' j) (\<lambda>ty.
     rbind (req_string ''data'' j) (\<lambda>dat.
     rbind (req_string ''mimeType'' j) (\<lambda>mime.
     rbind (opt_with ''annotations'' deserialize_annotations j) (\<lambda>ann.
     rbind (opt_json ''_meta'' j) (\<lambda>meta.
     Inr \<lparr>mc_type = ty, mc_data = dat, mc_mime_type = mime, mc_annotations = ann, mc_meta = meta\<rparr>)))))"

definition serialize_embedded_resource :: "embedded_resource \<Rightarrow> json" where
  "serialize_embedded_resource v = build_object [
     put ''type'' (JString (em_type v)),
     put ''resource'' (serialize_resource_contents (em_resource v)),
     put_opt ''annotations'' serialize_annotations (em_annotations v),
     put_opt ''_meta'' (\<lambda>x. x) (em_meta v)]"

text \<open>A missing \<open>resource\<close> leaves the default value of the variant.\<close>

definition default_resource :: resource_contents where
  "default_resource = TextResource \<lparr>tr_uri = [], tr_text = [], tr_mime_type = None, tr_meta = None\<rparr>"

definition deserialize_embedded_resource :: "json \<Rightarrow> embedded_resource mres" where
  "deserialize_embedded_resource j =
     rbind (req_string ''type'' j) (\<lambda>ty.
     rbind (opt_with ''resource'' deserialize_resource_contents j) (\<lambda>res.
     rbind (opt_with ''annotations'' deserialize_annotations j) (\<lambda>ann.
     rbind (opt_json ''_meta'' j) (\<lambda>meta.
     Inr \<lparr>em_type = ty, em_resource = (case res of Some r \<Rightarrow> r | None \<Rightarrow> default_resource),
          em_annotations = ann, em_meta = meta\<rparr>))))"

definition negative_size :: "i64 option \<Rightarrow> bool" where
  "negative_size sz = (case sz of Some n \<Rightarrow> sint n < 0 | None \<Rightarrow> False)"

definition serialize_resource_link :: "resource_link \<Rightarrow> json mres" where
  "serialize_resource_link v =
     (if rl_name v = [] then throw InvalidParams
        (''SerializeResourceLink: required field '' @ [chr 39] @ ''name'' @ [chr 39] @ '' must not be empty'')
      else if rl_uri v = [] then throw InvalidParams
        (''SerializeResourceLink: required field '' @ [chr 39] @ ''uri'' @ [chr 39] @ '' must not be empty'')
      else if negative_size (rl_size v) then throw InvalidParams
        (''SerializeResourceLink: field '' @ [chr 39] @ ''size'' @ [chr 39] @ '' must be non-negative, got '' @
         dec_int (sint (the (rl_size v))))
      else Inr (build_object [
        put ''type'' (JString (rl_type v)),
        put ''uri'' (JString (rl_uri v)),
        put ''name'' (JString (rl_name v)),
        put_opt ''title'' JString (rl_title v),
        put_opt ''description'' JString (rl_description v),
        put_opt ''mimeType'' JString (rl_mime_type v),
        put_opt ''size'' JInt (rl_size v),
        put_vector ''icons'' serialize_icon (rl_icons v),
        put_opt ''annotations'' serialize_annotations (rl_annotations v),
        put_opt ''_meta'' (\<lambda>x. x) (rl_meta v)]))"

definition nonempty_string :: "string \<Rightarrow> json \<Rightarrow> string mres" where
  "nonempty_string key j =
     (case json_find key j of
        Some (JString s) \<Rightarrow> if s = [] then throw InvalidParams
            (''DeserializeResourceLink: required field '' @ [chr 39] @ key @ [chr 39] @ '' is missing or empty'')
          else Inr s
      | _ \<Rightarrow> throw InvalidParams
            (''DeserializeResourceLink: required field '' @ [chr 39] @ key @ [chr 39] @ '' is missing or empty''))"

definition deserialize_resource_link :: "json \<Rightarrow> resource_link mres" where
  "deserialize_resource_link j =
     rbind (req_string ''type'' j) (\<lambda>ty.
     rbind (nonempty_string ''name'' j) (\<lambda>name.
     rbind (nonempty_string ''uri'' j) (\<lambda>uri.
     rbind (opt_string ''title'' j) (\<lambda>title.
     rbind (opt_string ''description'' j) (\<lambda>description.
     rbind (opt_string ''mimeType'' j) (\<lambda>mime.
     rbind (opt_int ''size'' j) (\<lambda>sz.
     if negative_size sz then throw InvalidParams
       (''DeserializeResourceLink: field '' @ [chr 39] @ ''size'' @ [chr 39] @ '' must be non-negative, got '' @
        dec_int (sint (the sz)))
     else
     rbind (vector_field ''icons'' deserialize_icon j) (\<lambda>icons.
     rbind (opt_with ''annotations'' deserialize_annotations j) (\<lambda>ann.
     rbind (opt_json ''_meta'' j) (\<lambda>meta.
     Inr \<lparr>rl_type = ty, rl_uri = uri, rl_name = name, rl_title = title, rl_description = description,
          rl_mime_type = mime, rl_size = sz, rl_icons = icons, rl_annotations = ann, rl_meta = meta\<rparr>))))))))))"

fun serialize_content :: "content_variant \<Rightarrow> json mres" where
  "serialize_content (TextContent v) = Inr (serialize_text_content v)"
| "serialize_content (ImageContent v) = Inr (serialize_image_content v)"
| "serialize_content (AudioContent v) = Inr (serialize_audio_content v)"
| "serialize_content (EmbeddedResource v) = Inr (serialize_embedded_resource v)"
| "serialize_content (ResourceLink v) = serialize_resource_link v"

definition deserialize_content :: "json \<Rightarrow> content_variant mres" where
  "deserialize_content j =
     rbind (req_string ''type'' j) (\<lambda>ty.
     if ty = ''text'' then rmap TextContent (deserialize_text_content j)
     else if ty = ''image'' then rmap ImageContent (deserialize_image_content j)
     else if ty = ''audio'' then rmap AudioContent (deserialize_audio_content j)
     else if ty = ''resource'' then rmap EmbeddedResource (deserialize_embedded_resource j)
     else if ty = ''resource_link'' then rmap ResourceLink (deserialize_resource_link j)
     else throw DeserializeFailed (''unknown Content type: '' @ ty))"

text \<open>A block that reads back: its type names its alternative, and its optional lists are not empty.\<close>

fun content_ok :: "content_variant \<Rightarrow> bool" where
  "content_ok (TextContent v) = (tc_type v = ''text'' \<and> pred_option annotations_ok (tc_annotations v))"
| "content_ok (ImageContent v) = (mc_type v = ''image'' \<and> pred_option annotations_ok (mc_annotations v))"
| "content_ok (AudioContent v) = (mc_type v = ''audio'' \<and> pred_option annotations_ok (mc_annotations v))"
| "content_ok (EmbeddedResource v) =
     (em_type v = ''resource'' \<and> pred_option annotations_ok (em_annotations v))"
| "content_ok (ResourceLink v) =
     (rl_type v = ''resource_link'' \<and> rl_name v \<noteq> [] \<and> rl_uri v \<noteq> [] \<and> \<not> negative_size (rl_size v) \<and>
      list_all icon_ok (rl_icons v) \<and> pred_option annotations_ok (rl_annotations v))"

interpretation content_codec: json_encoder serialize_content deserialize_content content_ok
proof
  fix v :: content_variant
  assume ok: "content_ok v"
  show "\<exists>j. serialize_content v = Inr j \<and> deserialize_content j = Inr v"
  proof (cases v)
    case (TextContent c)
    with ok show ?thesis
      by (simp add: deserialize_content_def serialize_text_content_def deserialize_text_content_def codec_simps)
  next
    case (ImageContent c)
    with ok show ?thesis
      by (simp add: deserialize_content_def serialize_image_content_def deserialize_image_content_def codec_simps)
  next
    case (AudioContent c)
    with ok show ?thesis
      by (simp add: deserialize_content_def serialize_audio_content_def deserialize_audio_content_def codec_simps)
  next
    case (EmbeddedResource c)
    with ok show ?thesis
      by (simp add: deserialize_content_def serialize_embedded_resource_def
          deserialize_embedded_resource_def codec_simps)
  next
    case (ResourceLink c)
    with ok show ?thesis
      by (simp add: deserialize_content_def serialize_resource_link_def
          deserialize_resource_link_def nonempty_string_def codec_simps)
  qed
qed

end
