(* ===== verification/Meta.thy ===== *)
theory Meta
  imports Content
begin

text \<open>
  Who is talking and what it can do: \<open>Implementation\<close>, the capabilities of a server and of a client
  (\<open>Capabilities.hpp\<close>, \<open>src/core/Capabilities.cpp\<close>), and the meta data of a request
  (\<open>Meta.hpp\<close>, the second half of \<open>src/core/Content.cpp\<close>).  An enumeration is a datatype, so the
  branches for numbers outside of it do not occur.
\<close>

section \<open>Maps copied into objects\<close>

definition put_all :: "members \<Rightarrow> writer" where
  "put_all kvs m = foldl (\<lambda>m (k, v). put k v m) m kvs"

lemma amap_find_put_all [codec_simps]: "amap_ok kvs \<Longrightarrow>
    amap_find k (put_all kvs m) = (case amap_find k kvs of Some v \<Rightarrow> Some v | None \<Rightarrow> amap_find k m)"
proof (induction kvs arbitrary: m)
  case (Cons kv kvs)
  obtain a b where kv: "kv = (a, b)" by (cases kv)
  have "amap_find a kvs = None"
    using Cons.prems by (auto simp: kv amap_ok_Cons amap_find_None_iff)
  moreover have "amap_ok kvs" using Cons.prems by (simp add: kv amap_ok_Cons)
  ultimately show ?case
    using Cons.IH [of "put a b m"] by (auto simp: kv put_all_def put_def split: option.split)
qed (simp add: put_all_def)

lemma put_all_ok: "amap_ok m \<Longrightarrow> amap_ok (put_all kvs m)"
  by (induction kvs arbitrary: m) (auto simp: put_all_def put_def)

lemma put_all_sorted: "amap_ok kvs \<Longrightarrow> put_all kvs [] = kvs"
  by (rule amap_eqI) (simp_all add: put_all_ok amap_find_put_all split: option.split)

section \<open>Implementation\<close>

record implementation =
  im_name :: string
  im_version :: string
  im_title :: "string option"
  im_icons :: "icon list"
  im_description :: "string option"
  im_website_url :: "string option"

definition serialize_implementation :: "implementation \<Rightarrow> json" where
  "serialize_implementation v = build_object [
     put ''name'' (JString (im_name v)),
     put ''version'' (JString (im_version v)),
     put_opt ''title'' JString (im_title v),
     put_vector ''icons'' serialize_icon (im_icons v),
     put_opt ''description'' JString (im_description v),
     put_opt ''websiteUrl'' JString (im_website_url v)]"

definition deserialize_implementation :: "json \<Rightarrow> implementation mres" where
  "deserialize_implementation j =
     rbind (req_string ''name'' j) (\<lambda>name.
     rbind (req_string ''version'' j) (\<lambda>version.
     rbind (opt_string ''title'' j) (\<lambda>title.
     rbind (vector_field ''icons'' deserialize_icon j) (\<lambda>icons.
     rbind (opt_string ''description'' j) (\<lambda>description.
     rbind (opt_string ''websiteUrl'' j) (\<lambda>website.
     Inr \<lparr>im_name = name, im_version = version, im_title = title, im_icons = icons,
          im_description = description, im_website_url = website\<rparr>))))))"

definition implementation_ok :: "implementation \<Rightarrow> bool" where
  "implementation_ok v \<longleftrightarrow> list_all icon_ok (im_icons v)"

interpretation implementation_codec:
  json_codec serialize_implementation deserialize_implementation implementation_ok
  by unfold_locales
    (simp add: serialize_implementation_def deserialize_implementation_def implementation_ok_def codec_simps)

lemmas implementation_simps [codec_simps] = implementation_codec.all

section \<open>Capabilities\<close>

record tools_capability = tcap_list_changed :: "bool option"

record resources_capability =
  rcap_subscribe :: "bool option"
  rcap_list_changed :: "bool option"

record prompts_capability = pcap_list_changed :: "bool option"

record roots_capability = rootcap_list_changed :: "bool option"

record elicitation_capability =
  ecap_form :: "json option"
  ecap_url :: "json option"

text \<open>\<open>SamplingCapability\<close>, \<open>EmptyCapability\<close> and \<open>TasksExtensionSettings\<close> have no fields.\<close>

definition serialize_empty_capability :: "unit \<Rightarrow> json" where
  "serialize_empty_capability v = build_object []"

definition deserialize_empty_capability :: "json \<Rightarrow> unit mres" where
  "deserialize_empty_capability j = Inr ()"

definition serialize_tools_capability :: "tools_capability \<Rightarrow> json" where
  "serialize_tools_capability v = build_object [put_opt ''listChanged'' JBool (tcap_list_changed v)]"

definition deserialize_tools_capability :: "json \<Rightarrow> tools_capability mres" where
  "deserialize_tools_capability j =
     rmap (\<lambda>b. \<lparr>tcap_list_changed = b\<rparr>) (opt_bool ''listChanged'' j)"

definition serialize_resources_capability :: "resources_capability \<Rightarrow> json" where
  "serialize_resources_capability v = build_object [
     put_opt ''subscribe'' JBool (rcap_subscribe v),
     put_opt ''listChanged'' JBool (rcap_list_changed v)]"

definition deserialize_resources_capability :: "json \<Rightarrow> resources_capability mres" where
  "deserialize_resources_capability j =
     rbind (opt_bool ''subscribe'' j) (\<lambda>s.
     rbind (opt_bool ''listChanged'' j) (\<lambda>b.
     Inr \<lparr>rcap_subscribe = s, rcap_list_changed = b\<rparr>))"

definition serialize_prompts_capability :: "prompts_capability \<Rightarrow> json" where
  "serialize_prompts_capability v = build_object [put_opt ''listChanged'' JBool (pcap_list_changed v)]"

definition deserialize_prompts_capability :: "json \<Rightarrow> prompts_capability mres" where
  "deserialize_prompts_capability j =
     rmap (\<lambda>b. \<lparr>pcap_list_changed = b\<rparr>) (opt_bool ''listChanged'' j)"

definition serialize_roots_capability :: "roots_capability \<Rightarrow> json" where
  "serialize_roots_capability v = build_object [put_opt ''listChanged'' JBool (rootcap_list_changed v)]"

definition deserialize_roots_capability :: "json \<Rightarrow> roots_capability mres" where
  "deserialize_roots_capability j =
     rmap (\<lambda>b. \<lparr>rootcap_list_changed = b\<rparr>) (opt_bool ''listChanged'' j)"

definition serialize_elicitation_capability :: "elicitation_capability \<Rightarrow> json" where
  "serialize_elicitation_capability v = build_object [
     put_opt ''form'' (\<lambda>x. x) (ecap_form v),
     put_opt ''url'' (\<lambda>x. x) (ecap_url v)]"

definition deserialize_elicitation_capability :: "json \<Rightarrow> elicitation_capability mres" where
  "deserialize_elicitation_capability j =
     rbind (opt_json ''form'' j) (\<lambda>f.
     rbind (opt_json ''url'' j) (\<lambda>u.
     Inr \<lparr>ecap_form = f, ecap_url = u\<rparr>))"

text \<open>\<open>SkillsExtensionSettings\<close>: one flag, written only when it is set.\<close>

definition serialize_skills_settings :: "bool \<Rightarrow> json" where
  "serialize_skills_settings directory_read =
     build_object [put_if directory_read ''directoryRead'' (JBool True)]"

definition deserialize_skills_settings :: "json \<Rightarrow> bool mres" where
  "deserialize_skills_settings j =
     rmap (\<lambda>b. b = Some True) (opt_when is_bool ''directoryRead'' get_bool j)"

text \<open>\<open>ExtensionsObjectFromMap\<close> and \<open>ExtensionsMapFromObject\<close>.\<close>

definition extensions_object :: "members \<Rightarrow> json" where
  "extensions_object exts = JObject (put_all exts [])"

definition extensions_map :: "json \<Rightarrow> members mres" where
  "extensions_map j = rmap (\<lambda>m. put_all m []) (get_object j)"

record server_capabilities =
  sc_tools :: "tools_capability option"
  sc_resources :: "resources_capability option"
  sc_prompts :: "prompts_capability option"
  sc_logging :: "unit option"
  sc_sampling :: "unit option"
  sc_roots :: "roots_capability option"
  sc_elicitation :: "elicitation_capability option"
  sc_completions :: "unit option"
  sc_subscriptions :: "unit option"
  sc_extensions :: "members option"
  sc_experimental :: "json option"

record client_capabilities =
  cc_roots :: "roots_capability option"
  cc_sampling :: "unit option"
  cc_elicitation :: "elicitation_capability option"
  cc_extensions :: "members option"
  cc_experimental :: "json option"

definition serialize_server_capabilities :: "server_capabilities \<Rightarrow> json" where
  "serialize_server_capabilities v = build_object [
     put_opt ''tools'' serialize_tools_capability (sc_tools v),
     put_opt ''resources'' serialize_resources_capability (sc_resources v),
     put_opt ''prompts'' serialize_prompts_capability (sc_prompts v),
     put_opt ''logging'' serialize_empty_capability (sc_logging v),
     put_opt ''sampling'' serialize_empty_capability (sc_sampling v),
     put_opt ''roots'' serialize_roots_capability (sc_roots v),
     put_opt ''elicitation'' serialize_elicitation_capability (sc_elicitation v),
     put_opt ''completions'' serialize_empty_capability (sc_completions v),
     put_opt ''subscriptions'' serialize_empty_capability (sc_subscriptions v),
     put_opt ''extensions'' extensions_object (sc_extensions v),
     put_opt ''experimental'' (\<lambda>x. x) (sc_experimental v)]"

definition deserialize_server_capabilities :: "json \<Rightarrow> server_capabilities mres" where
  "deserialize_server_capabilities j =
     (if \<not> is_object j then throw DeserializeFailed ''server capabilities must be a JSON object''
      else
      rbind (opt_when is_object ''tools'' deserialize_tools_capability j) (\<lambda>tools.
      rbind (opt_when is_object ''resources'' deserialize_resources_capability j) (\<lambda>resources.
      rbind (opt_when is_object ''prompts'' deserialize_prompts_capability j) (\<lambda>prompts.
      rbind (opt_when is_object ''logging'' deserialize_empty_capability j) (\<lambda>logging.
      rbind (opt_when is_object ''sampling'' deserialize_empty_capability j) (\<lambda>sampling.
      rbind (opt_when is_object ''roots'' deserialize_roots_capability j) (\<lambda>roots.
      rbind (opt_when is_object ''elicitation'' deserialize_elicitation_capability j) (\<lambda>elicitation.
      rbind (opt_when is_object ''completions'' deserialize_empty_capability j) (\<lambda>completions.
      rbind (opt_when is_object ''subscriptions'' deserialize_empty_capability j) (\<lambda>subscriptions.
      rbind (opt_when is_object ''extensions'' extensions_map j) (\<lambda>extensions.
      rbind (opt_json ''experimental'' j) (\<lambda>experimental.
      Inr \<lparr>sc_tools = tools, sc_resources = resources, sc_prompts = prompts, sc_logging = logging,
           sc_sampling = sampling, sc_roots = roots, sc_elicitation = elicitation,
           sc_completions = completions, sc_subscriptions = subscriptions,
           sc_extensions = extensions, sc_experimental = experimental\<rparr>))))))))))))"

definition serialize_client_capabilities :: "client_capabilities \<Rightarrow> json" where
  "serialize_client_capabilities v = build_object [
     put_opt ''roots'' serialize_roots_capability (cc_roots v),
     put_opt ''sampling'' serialize_empty_capability (cc_sampling v),
     put_opt ''elicitation'' serialize_elicitation_capability (cc_elicitation v),
     put_opt ''extensions'' extensions_object (cc_extensions v),
     put_opt ''experimental'' (\<lambda>x. x) (cc_experimental v)]"

definition deserialize_client_capabilities :: "json \<Rightarrow> client_capabilities mres" where
  "deserialize_client_capabilities j =
     (if \<not> is_object j then throw DeserializeFailed ''client capabilities must be a JSON object''
      else
      rbind (opt_when is_object ''roots'' deserialize_roots_capability j) (\<lambda>roots.
      rbind (opt_when is_object ''sampling'' deserialize_empty_capability j) (\<lambda>sampling.
      rbind (opt_when is_object ''elicitation'' deserialize_elicitation_capability j) (\<lambda>elicitation.
      rbind (opt_when is_object ''extensions'' extensions_map j) (\<lambda>extensions.
      rbind (opt_json ''experimental'' j) (\<lambda>experimental.
      Inr \<lparr>cc_roots = roots, cc_sampling = sampling, cc_elicitation = elicitation,
           cc_extensions = extensions, cc_experimental = experimental\<rparr>))))))"

text \<open>Reading the parts back.\<close>

interpretation empty_capability_codec:
  json_codec serialize_empty_capability deserialize_empty_capability "\<lambda>_. True"
  by unfold_locales (simp add: deserialize_empty_capability_def)

interpretation tools_capability_codec:
  json_codec serialize_tools_capability deserialize_tools_capability "\<lambda>_. True"
  by unfold_locales
    (simp add: serialize_tools_capability_def deserialize_tools_capability_def codec_simps)

interpretation resources_capability_codec:
  json_codec serialize_resources_capability deserialize_resources_capability "\<lambda>_. True"
  by unfold_locales
    (simp add: serialize_resources_capability_def deserialize_resources_capability_def codec_simps)

interpretation prompts_capability_codec:
  json_codec serialize_prompts_capability deserialize_prompts_capability "\<lambda>_. True"
  by unfold_locales
    (simp add: serialize_prompts_capability_def deserialize_prompts_capability_def codec_simps)

interpretation roots_capability_codec:
  json_codec serialize_roots_capability deserialize_roots_capability "\<lambda>_. True"
  by unfold_locales
    (simp add: serialize_roots_capability_def deserialize_roots_capability_def codec_simps)

interpretation elicitation_capability_codec:
  json_codec serialize_elicitation_capability deserialize_elicitation_capability "\<lambda>_. True"
  by unfold_locales
    (simp add: serialize_elicitation_capability_def deserialize_elicitation_capability_def codec_simps)

interpretation skills_settings_codec:
  json_codec serialize_skills_settings deserialize_skills_settings "\<lambda>_. True"
  by unfold_locales
    (simp add: serialize_skills_settings_def deserialize_skills_settings_def codec_simps read_when_def)

interpretation extensions_codec: json_codec extensions_object extensions_map amap_ok
  by unfold_locales (simp add: extensions_object_def extensions_map_def put_all_sorted)

lemma capability_objects [simp]:
  "is_object (serialize_tools_capability a)" "is_object (serialize_resources_capability b)"
  "is_object (serialize_prompts_capability c)" "is_object (serialize_empty_capability d)"
  "is_object (serialize_roots_capability e)" "is_object (serialize_elicitation_capability f)"
  "is_object (extensions_object g)"
  by (simp_all add: serialize_tools_capability_def serialize_resources_capability_def
      serialize_prompts_capability_def serialize_empty_capability_def serialize_roots_capability_def
      serialize_elicitation_capability_def extensions_object_def)

lemma pred_option_True [simp]: "pred_option (\<lambda>_. True) x"
  by (cases x) simp_all

lemmas capability_simps [codec_simps] =
  tools_capability_codec.read_when_opt resources_capability_codec.read_when_opt
  prompts_capability_codec.read_when_opt empty_capability_codec.read_when_opt
  roots_capability_codec.read_when_opt elicitation_capability_codec.read_when_opt
  extensions_codec.read_when_opt

definition server_capabilities_ok :: "server_capabilities \<Rightarrow> bool" where
  "server_capabilities_ok v \<longleftrightarrow> pred_option amap_ok (sc_extensions v)"

definition client_capabilities_ok :: "client_capabilities \<Rightarrow> bool" where
  "client_capabilities_ok v \<longleftrightarrow> pred_option amap_ok (cc_extensions v)"

interpretation server_capabilities_codec:
  json_codec serialize_server_capabilities deserialize_server_capabilities server_capabilities_ok
  by unfold_locales
    (simp add: serialize_server_capabilities_def deserialize_server_capabilities_def
      server_capabilities_ok_def codec_simps)

interpretation client_capabilities_codec:
  json_codec serialize_client_capabilities deserialize_client_capabilities client_capabilities_ok
  by unfold_locales
    (simp add: serialize_client_capabilities_def deserialize_client_capabilities_def
      client_capabilities_ok_def codec_simps)

lemmas capabilities_simps [codec_simps] = server_capabilities_codec.all client_capabilities_codec.all

section \<open>Small values\<close>

datatype progress_token = TokenString string | TokenInt i64

fun serialize_progress_token :: "progress_token \<Rightarrow> json" where
  "serialize_progress_token (TokenString s) = JString s"
| "serialize_progress_token (TokenInt i) = JInt i"

definition deserialize_progress_token :: "json \<Rightarrow> progress_token mres" where
  "deserialize_progress_token j =
     (if is_string j then rmap TokenString (get_string j) else rmap TokenInt (get_int j))"

interpretation progress_token_codec:
  json_codec serialize_progress_token deserialize_progress_token "\<lambda>_. True"
proof
  show "deserialize_progress_token (serialize_progress_token x) = Inr x" for x
    by (cases x) (simp_all add: deserialize_progress_token_def)
qed

datatype logging_level =
    LogDebug | LogInfo | LogNotice | LogWarning | LogError | LogCritical | LogAlert | LogEmergency

definition logging_levels :: "(string \<times> logging_level) list" where
  "logging_levels = [(''debug'', LogDebug), (''info'', LogInfo), (''notice'', LogNotice),
     (''warning'', LogWarning), (''error'', LogError), (''critical'', LogCritical),
     (''alert'', LogAlert), (''emergency'', LogEmergency)]"

fun logging_level_name :: "logging_level \<Rightarrow> string" where
  "logging_level_name LogDebug = ''debug''"
| "logging_level_name LogInfo = ''info''"
| "logging_level_name LogNotice = ''notice''"
| "logging_level_name LogWarning = ''warning''"
| "logging_level_name LogError = ''error''"
| "logging_level_name LogCritical = ''critical''"
| "logging_level_name LogAlert = ''alert''"
| "logging_level_name LogEmergency = ''emergency''"

definition serialize_logging_level :: "logging_level \<Rightarrow> json" where
  "serialize_logging_level l = JString (logging_level_name l)"

definition deserialize_logging_level :: "json \<Rightarrow> logging_level mres" where
  "deserialize_logging_level j = rbind (get_string j) (\<lambda>s.
     case map_of logging_levels s of
       Some l \<Rightarrow> Inr l
     | None \<Rightarrow> throw InvalidParams
         (''DeserializeLoggingLevel: unknown level string: '' @ [chr 39] @ s @ [chr 39]))"

interpretation logging_level_codec:
  json_codec serialize_logging_level deserialize_logging_level "\<lambda>_. True"
proof
  show "deserialize_logging_level (serialize_logging_level l) = Inr l" for l
    by (cases l)
      (simp_all add: deserialize_logging_level_def serialize_logging_level_def logging_levels_def)
qed

record cache_hint =
  ch_ttl_ms :: "i64 option"
  ch_cache_scope :: "string option"

definition serialize_cache_hint :: "cache_hint \<Rightarrow> json" where
  "serialize_cache_hint v = build_object [
     put_opt ''ttlMs'' JInt (ch_ttl_ms v),
     put_opt ''cacheScope'' JString (ch_cache_scope v)]"

definition deserialize_cache_hint :: "json \<Rightarrow> cache_hint mres" where
  "deserialize_cache_hint j =
     rbind (opt_int ''ttlMs'' j) (\<lambda>ttl.
     rbind (opt_string ''cacheScope'' j) (\<lambda>scope.
     Inr \<lparr>ch_ttl_ms = ttl, ch_cache_scope = scope\<rparr>))"

interpretation cache_hint_codec: json_codec serialize_cache_hint deserialize_cache_hint "\<lambda>_. True"
  by unfold_locales (simp add: serialize_cache_hint_def deserialize_cache_hint_def codec_simps)

lemmas small_simps [codec_simps] =
  progress_token_codec.all logging_level_codec.all cache_hint_codec.all

declare list.pred_True [simp]

section \<open>Meta data of a request\<close>

record request_meta =
  rm_progress_token :: "progress_token option"
  rm_protocol_version :: string
  rm_client_info :: "implementation option"
  rm_client_capabilities :: "client_capabilities option"
  rm_log_level :: "logging_level option"
  rm_extensions :: "json option"
  rm_traceparent :: "string option"
  rm_tracestate :: "string option"
  rm_baggage :: "string option"

definition request_meta_field_is_known :: "string \<Rightarrow> bool" where
  "request_meta_field_is_known key \<longleftrightarrow>
     key = ''progressToken'' \<or> key = ''io.modelcontextprotocol/protocolVersion'' \<or>
     key = ''io.modelcontextprotocol/clientInfo'' \<or> key = ''io.modelcontextprotocol/clientCapabilities'' \<or>
     key = ''io.modelcontextprotocol/logLevel'' \<or> key = ''io.modelcontextprotocol/subscriptionId'' \<or>
     key = ''traceparent'' \<or> key = ''tracestate'' \<or> key = ''baggage''"

definition serialize_request_meta :: "request_meta \<Rightarrow> json mres" where
  "serialize_request_meta v =
     rbind (case rm_extensions v of None \<Rightarrow> Inr [] | Some e \<Rightarrow> get_object e) (\<lambda>exts.
     Inr (build_object [
       put_opt ''progressToken'' serialize_progress_token (rm_progress_token v),
       put ''io.modelcontextprotocol/protocolVersion'' (JString (rm_protocol_version v)),
       put_opt ''io.modelcontextprotocol/clientInfo'' serialize_implementation (rm_client_info v),
       put_opt ''io.modelcontextprotocol/clientCapabilities'' serialize_client_capabilities
         (rm_client_capabilities v),
       put_opt ''io.modelcontextprotocol/logLevel'' serialize_logging_level (rm_log_level v),
       put_all exts,
       put_opt ''traceparent'' JString (rm_traceparent v),
       put_opt ''tracestate'' JString (rm_tracestate v),
       put_opt ''baggage'' JString (rm_baggage v)]))"

definition latest_protocol_version :: string where "latest_protocol_version = ''2026-07-28''"

definition unknown_meta_members :: "members \<Rightarrow> members" where
  "unknown_meta_members m = put_all (filter (\<lambda>(k, v). \<not> request_meta_field_is_known k) m) []"

definition deserialize_request_meta :: "json \<Rightarrow> request_meta mres" where
  "deserialize_request_meta j =
     rbind (opt_with ''progressToken'' deserialize_progress_token j) (\<lambda>token.
     rbind (opt_with ''io.modelcontextprotocol/protocolVersion'' get_string j) (\<lambda>version.
     rbind (opt_with ''io.modelcontextprotocol/clientInfo'' deserialize_implementation j) (\<lambda>info.
     rbind (opt_with ''io.modelcontextprotocol/clientCapabilities'' deserialize_client_capabilities j) (\<lambda>caps.
     rbind (opt_with ''io.modelcontextprotocol/logLevel'' deserialize_logging_level j) (\<lambda>level.
     rbind (opt_with ''traceparent'' get_string j) (\<lambda>tp.
     rbind (opt_with ''tracestate'' get_string j) (\<lambda>ts.
     rbind (opt_with ''baggage'' get_string j) (\<lambda>bg.
     rbind (get_object j) (\<lambda>m.
     let ext = unknown_meta_members m
     in Inr \<lparr>rm_progress_token = token,
             rm_protocol_version = (case version of Some s \<Rightarrow> s | None \<Rightarrow> latest_protocol_version),
             rm_client_info = info, rm_client_capabilities = caps, rm_log_level = level,
             rm_extensions = (if ext = [] then None else Some (JObject ext)),
             rm_traceparent = tp, rm_tracestate = ts, rm_baggage = bg\<rparr>)))))))))"

text \<open>The extensions are an object whose keys are not those of the known fields, and not empty.\<close>

definition extensions_ok :: "json option \<Rightarrow> bool" where
  "extensions_ok e = (case e of
     None \<Rightarrow> True
   | Some (JObject m) \<Rightarrow> m \<noteq> [] \<and> amap_ok m \<and> list_all (\<lambda>kv. \<not> request_meta_field_is_known (fst kv)) m
   | _ \<Rightarrow> False)"

definition request_meta_ok :: "request_meta \<Rightarrow> bool" where
  "request_meta_ok v \<longleftrightarrow> pred_option implementation_ok (rm_client_info v) \<and>
     pred_option client_capabilities_ok (rm_client_capabilities v) \<and> extensions_ok (rm_extensions v)"

lemma amap_find_filter_key:
  "amap_find k (filter (\<lambda>(k, v). P k) m) = (if P k then amap_find k m else None)"
  by (induction m) auto

lemma amap_ok_filter: "amap_ok m \<Longrightarrow> amap_ok (filter P m)"
  by (induction m) (auto simp: amap_ok_Cons)

lemma known_absent:
  "list_all (\<lambda>kv. \<not> request_meta_field_is_known (fst kv)) m \<Longrightarrow> request_meta_field_is_known k \<Longrightarrow>
   amap_find k m = None"
  by (auto simp: amap_find_None_iff list_all_iff)

lemma put_opt_ok: "amap_ok m \<Longrightarrow> amap_ok (put_opt k f x m)"
  by (simp add: put_opt_def put_def split: option.split)

lemma put_ok: "amap_ok m \<Longrightarrow> amap_ok (put k v m)"
  by (simp add: put_def)

interpretation request_meta_codec:
  json_encoder serialize_request_meta deserialize_request_meta request_meta_ok
proof
  fix v :: request_meta
  assume ok: "request_meta_ok v"
  define exts where "exts = (case rm_extensions v of Some (JObject m) \<Rightarrow> m | _ \<Rightarrow> [])"
  have exts: "(case rm_extensions v of None \<Rightarrow> Inr [] | Some e \<Rightarrow> get_object e) = Inr exts"
      "amap_ok exts" "list_all (\<lambda>kv. \<not> request_meta_field_is_known (fst kv)) exts"
      "rm_extensions v = (if exts = [] then None else Some (JObject exts))"
    using ok by (auto simp: exts_def request_meta_ok_def extensions_ok_def split: option.splits json.splits)
  define M where "M = foldl (\<lambda>m w. w m) [] [
       put_opt ''progressToken'' serialize_progress_token (rm_progress_token v),
       put ''io.modelcontextprotocol/protocolVersion'' (JString (rm_protocol_version v)),
       put_opt ''io.modelcontextprotocol/clientInfo'' serialize_implementation (rm_client_info v),
       put_opt ''io.modelcontextprotocol/clientCapabilities'' serialize_client_capabilities
         (rm_client_capabilities v),
       put_opt ''io.modelcontextprotocol/logLevel'' serialize_logging_level (rm_log_level v),
       put_all exts,
       put_opt ''traceparent'' JString (rm_traceparent v),
       put_opt ''tracestate'' JString (rm_tracestate v),
       put_opt ''baggage'' JString (rm_baggage v)]"
  have ser: "serialize_request_meta v = Inr (JObject M)"
    by (simp add: serialize_request_meta_def exts(1) build_object_def M_def)
  have absent: "amap_find k exts = None" if "request_meta_field_is_known k" for k
    using known_absent [OF exts(3) that] .
  have fin: "amap_find ''progressToken'' M = map_option serialize_progress_token (rm_progress_token v)"
      "amap_find ''io.modelcontextprotocol/protocolVersion'' M = Some (JString (rm_protocol_version v))"
      "amap_find ''io.modelcontextprotocol/clientInfo'' M = map_option serialize_implementation (rm_client_info v)"
      "amap_find ''io.modelcontextprotocol/clientCapabilities'' M =
         map_option serialize_client_capabilities (rm_client_capabilities v)"
      "amap_find ''io.modelcontextprotocol/logLevel'' M = map_option serialize_logging_level (rm_log_level v)"
      "amap_find ''traceparent'' M = map_option JString (rm_traceparent v)"
      "amap_find ''tracestate'' M = map_option JString (rm_tracestate v)"
      "amap_find ''baggage'' M = map_option JString (rm_baggage v)"
    by (simp_all add: M_def codec_simps exts(2) absent request_meta_field_is_known_def)
  have rest: "amap_find k M = amap_find k exts" if "\<not> request_meta_field_is_known k" for k
    using that by (simp add: M_def codec_simps exts(2) request_meta_field_is_known_def split: option.split)
  have "amap_ok M" by (simp add: M_def put_ok put_opt_ok put_all_ok)
  then have "unknown_meta_members M = filter (\<lambda>(k, v). \<not> request_meta_field_is_known k) M"
    by (simp add: unknown_meta_members_def put_all_sorted amap_ok_filter)
  also have "\<dots> = exts"
    by (rule amap_eqI)
      (use exts(2) \<open>amap_ok M\<close> absent rest in \<open>auto simp: amap_ok_filter amap_find_filter_key\<close>)
  finally have unknown: "unknown_meta_members M = exts" .
  have ext: "(if unknown_meta_members M = [] then None else Some (JObject (unknown_meta_members M))) =
      rm_extensions v"
    by (simp add: unknown exts(4))
  have "deserialize_request_meta (JObject M) = Inr v"
    using ok
    unfolding deserialize_request_meta_def Let_def
    by (simp add: codec_simps fin request_meta_ok_def ext split del: if_split)
  with ser show "\<exists>j. serialize_request_meta v = Inr j \<and> deserialize_request_meta j = Inr v" by simp
qed

end
