(* ===== verification/Tools.thy ===== *)
theory Tools
  imports Meta
begin

text \<open>
  Tools, resources, resource templates and prompts (\<open>include/mcp/McpTypes.hpp\<close>,
  \<open>src/core/McpTypesTools.cpp\<close>) with their serializers, each pair an interpretation of a codec
  locale.
\<close>

section \<open>Tools\<close>

record tool_annotations =
  ta_title :: "string option"
  ta_read_only :: "bool option"
  ta_idempotent :: "bool option"
  ta_open_world :: "bool option"
  ta_destructive :: "bool option"

datatype tool_execution_mode = ModeAuto | ModeManual | ModeTask
datatype task_support = SupportOptional | SupportRequired

record tool_execution =
  te_mode :: tool_execution_mode
  te_human_use :: "string option"
  te_task_support :: "task_support option"

record tool =
  tl_name :: string
  tl_title :: "string option"
  tl_description :: "string option"
  tl_input_schema :: json
  tl_output_schema :: "json option"
  tl_annotations :: "tool_annotations option"
  tl_icons :: "icon list"
  tl_meta :: "json option"
  tl_execution :: "tool_execution option"

definition serialize_tool_annotations :: "tool_annotations \<Rightarrow> json" where
  "serialize_tool_annotations v = build_object [
     put_opt ''title'' JString (ta_title v),
     put_opt ''readOnlyHint'' JBool (ta_read_only v),
     put_opt ''idempotentHint'' JBool (ta_idempotent v),
     put_opt ''openWorldHint'' JBool (ta_open_world v),
     put_opt ''destructiveHint'' JBool (ta_destructive v)]"

definition deserialize_tool_annotations :: "json \<Rightarrow> tool_annotations mres" where
  "deserialize_tool_annotations j =
     rbind (opt_string ''title'' j) (\<lambda>title.
     rbind (opt_bool ''readOnlyHint'' j) (\<lambda>ro.
     rbind (opt_bool ''idempotentHint'' j) (\<lambda>idem.
     rbind (opt_bool ''openWorldHint'' j) (\<lambda>ow.
     rbind (opt_bool ''destructiveHint'' j) (\<lambda>de.
     Inr \<lparr>ta_title = title, ta_read_only = ro, ta_idempotent = idem, ta_open_world = ow,
          ta_destructive = de\<rparr>)))))"

fun execution_mode_name :: "tool_execution_mode \<Rightarrow> string" where
  "execution_mode_name ModeAuto = ''auto''"
| "execution_mode_name ModeManual = ''manual''"
| "execution_mode_name ModeTask = ''task''"

fun task_support_name :: "task_support \<Rightarrow> string" where
  "task_support_name SupportRequired = ''required''"
| "task_support_name SupportOptional = ''optional''"

definition serialize_tool_execution :: "tool_execution \<Rightarrow> json" where
  "serialize_tool_execution v = build_object [
     put ''mode'' (JString (execution_mode_name (te_mode v))),
     put_opt ''humanUse'' JString (te_human_use v),
     put_opt ''taskSupport'' (\<lambda>s. JString (task_support_name s)) (te_task_support v)]"

definition read_execution_mode :: "json \<Rightarrow> tool_execution_mode mres" where
  "read_execution_mode j = rbind (get_string j) (\<lambda>s.
     if s = ''auto'' then Inr ModeAuto
     else if s = ''manual'' then Inr ModeManual
     else if s = ''task'' then Inr ModeTask
     else throw InvalidParams
       (''DeserializeToolExecution: unknown mode string: '' @ [chr 39] @ s @ [chr 39]))"

definition read_task_support :: "json option \<Rightarrow> task_support option" where
  "read_task_support fv =
     (case fv of
        Some (JString s) \<Rightarrow>
          if s = ''required'' then Some SupportRequired
          else if s = ''optional'' then Some SupportOptional else None
      | _ \<Rightarrow> None)"

definition deserialize_tool_execution :: "json \<Rightarrow> tool_execution mres" where
  "deserialize_tool_execution j =
     rbind (opt_with ''mode'' read_execution_mode j) (\<lambda>mode.
     rbind (opt_string ''humanUse'' j) (\<lambda>human.
     Inr \<lparr>te_mode = (case mode of Some m \<Rightarrow> m | None \<Rightarrow> ModeAuto), te_human_use = human,
          te_task_support = read_task_support (json_find ''taskSupport'' j)\<rparr>))"

definition serialize_tool :: "tool \<Rightarrow> json" where
  "serialize_tool v = build_object [
     put ''name'' (JString (tl_name v)),
     put_opt ''title'' JString (tl_title v),
     put_opt ''description'' JString (tl_description v),
     put ''inputSchema'' (tl_input_schema v),
     put_opt ''outputSchema'' (\<lambda>x. x) (tl_output_schema v),
     put_opt ''annotations'' serialize_tool_annotations (tl_annotations v),
     put_opt ''execution'' serialize_tool_execution (tl_execution v),
     put_vector ''icons'' serialize_icon (tl_icons v),
     put_opt ''_meta'' (\<lambda>x. x) (tl_meta v)]"

definition deserialize_tool :: "json \<Rightarrow> tool mres" where
  "deserialize_tool j =
     rbind (req_string ''name'' j) (\<lambda>name.
     rbind (opt_string ''title'' j) (\<lambda>title.
     rbind (opt_string ''description'' j) (\<lambda>description.
     rbind (req_with ''inputSchema'' Inr j) (\<lambda>input.
     rbind (opt_json ''outputSchema'' j) (\<lambda>output.
     rbind (opt_with ''annotations'' deserialize_tool_annotations j) (\<lambda>ann.
     rbind (opt_with ''execution'' deserialize_tool_execution j) (\<lambda>execution.
     rbind (vector_field ''icons'' deserialize_icon j) (\<lambda>icons.
     rbind (opt_json ''_meta'' j) (\<lambda>meta.
     Inr \<lparr>tl_name = name, tl_title = title, tl_description = description, tl_input_schema = input,
          tl_output_schema = output, tl_annotations = ann, tl_icons = icons, tl_meta = meta,
          tl_execution = execution\<rparr>)))))))))"

interpretation tool_annotations_codec:
  json_codec serialize_tool_annotations deserialize_tool_annotations "\<lambda>_. True"
  by unfold_locales
    (simp add: serialize_tool_annotations_def deserialize_tool_annotations_def codec_simps)

lemma read_task_support_map [codec_simps]:
  "read_task_support (map_option (\<lambda>s. JString (task_support_name s)) x) = x"
proof (cases x)
  case (Some s)
  then show ?thesis by (cases s) (simp_all add: read_task_support_def)
qed (simp add: read_task_support_def)

interpretation tool_execution_codec:
  json_codec serialize_tool_execution deserialize_tool_execution "\<lambda>_. True"
proof
  fix v :: tool_execution
  have "read_execution_mode (JString (execution_mode_name m)) = Inr m" for m
    by (cases m) (simp_all add: read_execution_mode_def)
  then show "deserialize_tool_execution (serialize_tool_execution v) = Inr v"
    by (simp add: serialize_tool_execution_def deserialize_tool_execution_def codec_simps)
qed

lemmas tool_part_simps [codec_simps] = tool_annotations_codec.all tool_execution_codec.all

definition tool_ok :: "tool \<Rightarrow> bool" where
  "tool_ok v \<longleftrightarrow> list_all icon_ok (tl_icons v)"

interpretation tool_codec: json_codec serialize_tool deserialize_tool tool_ok
  by unfold_locales
    (simp add: serialize_tool_def deserialize_tool_def tool_ok_def codec_simps)

section \<open>Resources\<close>

record resource_annotations =
  ra_audience :: "string list option"
  ra_priority :: "f64 option"
  ra_last_modified :: "string option"

record resource =
  re_uri :: string
  re_name :: string
  re_title :: "string option"
  re_description :: "string option"
  re_mime_type :: "string option"
  re_size :: "i64 option"
  re_icons :: "icon list option"
  re_annotations :: "resource_annotations option"
  re_meta :: "json option"

record resource_template =
  rt_uri_template :: string
  rt_name :: string
  rt_title :: "string option"
  rt_description :: "string option"
  rt_mime_type :: "string option"
  rt_icons :: "icon list option"
  rt_annotations :: "resource_annotations option"
  rt_meta :: "json option"

definition serialize_resource_annotations :: "resource_annotations \<Rightarrow> json" where
  "serialize_resource_annotations v = build_object [
     put_opt_vector ''audience'' JString (ra_audience v),
     put_opt ''priority'' JDouble (ra_priority v),
     put_opt ''lastModified'' JString (ra_last_modified v)]"

definition deserialize_resource_annotations :: "json \<Rightarrow> resource_annotations mres" where
  "deserialize_resource_annotations j =
     rbind (opt_when is_array ''audience'' (array_items get_string) j) (\<lambda>audience.
     rbind (opt_double ''priority'' j) (\<lambda>priority.
     rbind (opt_string ''lastModified'' j) (\<lambda>last_modified.
     Inr \<lparr>ra_audience = audience, ra_priority = priority, ra_last_modified = last_modified\<rparr>)))"

definition serialize_resource :: "resource \<Rightarrow> json" where
  "serialize_resource v = build_object [
     put ''uri'' (JString (re_uri v)),
     put ''name'' (JString (re_name v)),
     put_opt ''title'' JString (re_title v),
     put_opt ''description'' JString (re_description v),
     put_opt ''mimeType'' JString (re_mime_type v),
     put_opt ''size'' JInt (re_size v),
     put_opt_vector ''icons'' serialize_icon (re_icons v),
     put_opt ''annotations'' serialize_resource_annotations (re_annotations v),
     put_opt ''_meta'' (\<lambda>x. x) (re_meta v)]"

definition deserialize_resource :: "json \<Rightarrow> resource mres" where
  "deserialize_resource j =
     rbind (req_string ''uri'' j) (\<lambda>uri.
     rbind (req_string ''name'' j) (\<lambda>name.
     rbind (opt_string ''title'' j) (\<lambda>title.
     rbind (opt_string ''description'' j) (\<lambda>description.
     rbind (opt_string ''mimeType'' j) (\<lambda>mime.
     rbind (opt_int ''size'' j) (\<lambda>sz.
     rbind (opt_when is_array ''icons'' (array_items deserialize_icon) j) (\<lambda>icons.
     rbind (opt_with ''annotations'' deserialize_resource_annotations j) (\<lambda>ann.
     rbind (opt_json ''_meta'' j) (\<lambda>meta.
     Inr \<lparr>re_uri = uri, re_name = name, re_title = title, re_description = description,
          re_mime_type = mime, re_size = sz, re_icons = icons, re_annotations = ann,
          re_meta = meta\<rparr>)))))))))"

definition serialize_resource_template :: "resource_template \<Rightarrow> json" where
  "serialize_resource_template v = build_object [
     put ''uriTemplate'' (JString (rt_uri_template v)),
     put ''name'' (JString (rt_name v)),
     put_opt ''title'' JString (rt_title v),
     put_opt ''description'' JString (rt_description v),
     put_opt ''mimeType'' JString (rt_mime_type v),
     put_opt_vector ''icons'' serialize_icon (rt_icons v),
     put_opt ''annotations'' serialize_resource_annotations (rt_annotations v),
     put_opt ''_meta'' (\<lambda>x. x) (rt_meta v)]"

definition deserialize_resource_template :: "json \<Rightarrow> resource_template mres" where
  "deserialize_resource_template j =
     rbind (req_string ''uriTemplate'' j) (\<lambda>uri.
     rbind (req_string ''name'' j) (\<lambda>name.
     rbind (opt_string ''title'' j) (\<lambda>title.
     rbind (opt_string ''description'' j) (\<lambda>description.
     rbind (opt_string ''mimeType'' j) (\<lambda>mime.
     rbind (opt_when is_array ''icons'' (array_items deserialize_icon) j) (\<lambda>icons.
     rbind (opt_with ''annotations'' deserialize_resource_annotations j) (\<lambda>ann.
     rbind (opt_json ''_meta'' j) (\<lambda>meta.
     Inr \<lparr>rt_uri_template = uri, rt_name = name, rt_title = title, rt_description = description,
          rt_mime_type = mime, rt_icons = icons, rt_annotations = ann, rt_meta = meta\<rparr>))))))))"

definition resource_annotations_ok :: "resource_annotations \<Rightarrow> bool" where
  "resource_annotations_ok v \<longleftrightarrow> ra_audience v \<noteq> Some []"

interpretation resource_annotations_codec:
  json_codec serialize_resource_annotations deserialize_resource_annotations resource_annotations_ok
  by unfold_locales
    (simp add: serialize_resource_annotations_def deserialize_resource_annotations_def
      resource_annotations_ok_def codec_simps)

lemmas resource_annotations_simps [codec_simps] = resource_annotations_codec.all

definition resource_ok :: "resource \<Rightarrow> bool" where
  "resource_ok v \<longleftrightarrow> re_icons v \<noteq> Some [] \<and> pred_option (list_all icon_ok) (re_icons v) \<and>
     pred_option resource_annotations_ok (re_annotations v)"

definition resource_template_ok :: "resource_template \<Rightarrow> bool" where
  "resource_template_ok v \<longleftrightarrow> rt_icons v \<noteq> Some [] \<and> pred_option (list_all icon_ok) (rt_icons v) \<and>
     pred_option resource_annotations_ok (rt_annotations v)"

interpretation resource_codec: json_codec serialize_resource deserialize_resource resource_ok
  by unfold_locales
    (simp add: serialize_resource_def deserialize_resource_def resource_ok_def codec_simps)

interpretation resource_template_codec:
  json_codec serialize_resource_template deserialize_resource_template resource_template_ok
  by unfold_locales
    (simp add: serialize_resource_template_def deserialize_resource_template_def
      resource_template_ok_def codec_simps)

section \<open>Prompts\<close>

record prompt_argument =
  pa_name :: string
  pa_description :: "string option"
  pa_required :: "bool option"

record prompt =
  pr_name :: string
  pr_title :: "string option"
  pr_description :: "string option"
  pr_arguments :: "prompt_argument list option"
  pr_icons :: "icon list option"
  pr_meta :: "json option"

record prompt_message =
  pm_role :: string
  pm_content :: content_variant

definition serialize_prompt_argument :: "prompt_argument \<Rightarrow> json" where
  "serialize_prompt_argument v = build_object [
     put ''name'' (JString (pa_name v)),
     put_opt ''description'' JString (pa_description v),
     put_opt ''required'' JBool (pa_required v)]"

definition deserialize_prompt_argument :: "json \<Rightarrow> prompt_argument mres" where
  "deserialize_prompt_argument j =
     rbind (req_string ''name'' j) (\<lambda>name.
     rbind (opt_string ''description'' j) (\<lambda>description.
     rbind (opt_bool ''required'' j) (\<lambda>required.
     Inr \<lparr>pa_name = name, pa_description = description, pa_required = required\<rparr>)))"

definition serialize_prompt :: "prompt \<Rightarrow> json" where
  "serialize_prompt v = build_object [
     put ''name'' (JString (pr_name v)),
     put_opt ''title'' JString (pr_title v),
     put_opt ''description'' JString (pr_description v),
     put_opt_vector ''arguments'' serialize_prompt_argument (pr_arguments v),
     put_opt_vector ''icons'' serialize_icon (pr_icons v),
     put_opt ''_meta'' (\<lambda>x. x) (pr_meta v)]"

definition deserialize_prompt :: "json \<Rightarrow> prompt mres" where
  "deserialize_prompt j =
     rbind (req_string ''name'' j) (\<lambda>name.
     rbind (opt_string ''title'' j) (\<lambda>title.
     rbind (opt_string ''description'' j) (\<lambda>description.
     rbind (opt_when is_array ''arguments'' (array_items deserialize_prompt_argument) j) (\<lambda>arguments.
     rbind (opt_when is_array ''icons'' (array_items deserialize_icon) j) (\<lambda>icons.
     rbind (opt_json ''_meta'' j) (\<lambda>meta.
     Inr \<lparr>pr_name = name, pr_title = title, pr_description = description, pr_arguments = arguments,
          pr_icons = icons, pr_meta = meta\<rparr>))))))"

definition serialize_prompt_message :: "prompt_message \<Rightarrow> json mres" where
  "serialize_prompt_message v = rbind (serialize_content (pm_content v)) (\<lambda>c.
     Inr (build_object [put ''role'' (JString (pm_role v)), put ''content'' c]))"

definition deserialize_prompt_message :: "json \<Rightarrow> prompt_message mres" where
  "deserialize_prompt_message j =
     rbind (req_string ''role'' j) (\<lambda>role.
     rbind (req_with ''content'' deserialize_content j) (\<lambda>c.
     Inr \<lparr>pm_role = role, pm_content = c\<rparr>))"

interpretation prompt_argument_codec:
  json_codec serialize_prompt_argument deserialize_prompt_argument "\<lambda>_. True"
  by unfold_locales
    (simp add: serialize_prompt_argument_def deserialize_prompt_argument_def codec_simps)

lemmas prompt_argument_simps [codec_simps] =
  prompt_argument_codec.all prompt_argument_codec.read_when_vector

definition prompt_ok :: "prompt \<Rightarrow> bool" where
  "prompt_ok v \<longleftrightarrow> pr_arguments v \<noteq> Some [] \<and> pr_icons v \<noteq> Some [] \<and>
     pred_option (list_all icon_ok) (pr_icons v)"

interpretation prompt_codec: json_codec serialize_prompt deserialize_prompt prompt_ok
  by unfold_locales
    (simp add: serialize_prompt_def deserialize_prompt_def prompt_ok_def codec_simps)

interpretation prompt_message_codec:
  json_encoder serialize_prompt_message deserialize_prompt_message "\<lambda>v. content_ok (pm_content v)"
proof
  fix v :: prompt_message
  assume "content_ok (pm_content v)"
  then obtain j where "serialize_content (pm_content v) = Inr j" "deserialize_content j = Inr (pm_content v)"
    using content_codec.roundtrip by blast
  then show "\<exists>j. serialize_prompt_message v = Inr j \<and> deserialize_prompt_message j = Inr v"
    by (simp add: serialize_prompt_message_def deserialize_prompt_message_def codec_simps)
qed

lemmas tool_simps [codec_simps] =
  tool_codec.all resource_codec.all resource_template_codec.all prompt_codec.all

end
