(* ===== verification/Params.thy ===== *)
theory Params
  imports Tools
begin

text \<open>
  Parameters of requests and notifications (\<open>src/core/McpTypesParams.cpp\<close>,
  \<open>src/core/McpTypesNotifications.cpp\<close>), and the requests for input that a result may carry
  (\<open>InputRequest\<close> in \<open>src/core/McpTypesResults.cpp\<close>).
\<close>

section \<open>Helpers\<close>

definition ser_opt :: "('a \<Rightarrow> json mres) \<Rightarrow> 'a option \<Rightarrow> json option mres" where
  "ser_opt f x = (case x of None \<Rightarrow> Inr None | Some y \<Rightarrow> rmap Some (f y))"

context json_encoder
begin

lemma ser_opt_roundtrip: "pred_option ok x \<Longrightarrow> \<exists>js. ser_opt ser x = Inr js \<and> read_with de js = Inr x"
proof (cases x)
  case (Some y)
  assume "pred_option ok x"
  then obtain j where "ser y = Inr j" "de j = Inr y" using roundtrip [of y] Some by auto
  then show ?thesis using Some by (simp add: ser_opt_def read_with_def)
qed (simp add: ser_opt_def)

end

text \<open>\<open>if (auto* n = j.Find(key); n && n->IsString()) field = n->GetString()\<close>.\<close>

definition string_or :: "string \<Rightarrow> string \<Rightarrow> json \<Rightarrow> string" where
  "string_or dflt key j = (case json_find key j of Some (JString s) \<Rightarrow> s | _ \<Rightarrow> dflt)"

lemma string_or_found [codec_simps]:
  "json_find key j = Some (JString s) \<Longrightarrow> string_or dflt key j = s"
  by (simp add: string_or_def)

section \<open>Parameters of requests\<close>

record paginated_params =
  pg_cursor :: "string option"
  pg_meta :: "request_meta option"

record resource_params =
  rp_uri :: string
  rp_meta :: "request_meta option"
  rp_input_responses :: "json option"
  rp_request_state :: "string option"

text \<open>\<open>CallToolRequestParams\<close> and \<open>GetPromptRequestParams\<close> have the same fields.\<close>

record call_params =
  cp_name :: string
  cp_arguments :: "json option"
  cp_meta :: "request_meta option"
  cp_input_responses :: "json option"
  cp_request_state :: "string option"

definition serialize_paginated_params :: "paginated_params \<Rightarrow> json mres" where
  "serialize_paginated_params v =
     rbind (ser_opt serialize_request_meta (pg_meta v)) (\<lambda>meta.
     Inr (build_object [
       put_opt ''cursor'' JString (pg_cursor v),
       put_opt ''_meta'' (\<lambda>x. x) meta]))"

definition deserialize_paginated_params :: "json \<Rightarrow> paginated_params mres" where
  "deserialize_paginated_params j =
     rbind (opt_string ''cursor'' j) (\<lambda>cursor.
     rbind (opt_with ''_meta'' deserialize_request_meta j) (\<lambda>meta.
     Inr \<lparr>pg_cursor = cursor, pg_meta = meta\<rparr>))"

definition serialize_resource_params :: "resource_params \<Rightarrow> json mres" where
  "serialize_resource_params v =
     rbind (ser_opt serialize_request_meta (rp_meta v)) (\<lambda>meta.
     Inr (build_object [
       put ''uri'' (JString (rp_uri v)),
       put_opt ''_meta'' (\<lambda>x. x) meta,
       put_opt ''inputResponses'' (\<lambda>x. x) (rp_input_responses v),
       put_opt ''requestState'' JString (rp_request_state v)]))"

definition deserialize_resource_params :: "json \<Rightarrow> resource_params mres" where
  "deserialize_resource_params j =
     rbind (req_string ''uri'' j) (\<lambda>uri.
     rbind (opt_with ''_meta'' deserialize_request_meta j) (\<lambda>meta.
     rbind (opt_json ''inputResponses'' j) (\<lambda>responses.
     rbind (opt_string ''requestState'' j) (\<lambda>st.
     Inr \<lparr>rp_uri = uri, rp_meta = meta, rp_input_responses = responses, rp_request_state = st\<rparr>))))"

definition serialize_call_tool_params :: "call_params \<Rightarrow> json mres" where
  "serialize_call_tool_params v =
     rbind (ser_opt serialize_request_meta (cp_meta v)) (\<lambda>meta.
     Inr (build_object [
       put ''name'' (JString (cp_name v)),
       put_opt ''arguments'' (\<lambda>x. x) (cp_arguments v),
       put_opt ''_meta'' (\<lambda>x. x) meta,
       put_opt ''inputResponses'' (\<lambda>x. x) (cp_input_responses v),
       put_opt ''requestState'' JString (cp_request_state v)]))"

definition deserialize_call_tool_params :: "json \<Rightarrow> call_params mres" where
  "deserialize_call_tool_params j =
     rbind (req_string ''name'' j) (\<lambda>name.
     rbind (opt_json ''arguments'' j) (\<lambda>arguments.
     rbind (opt_with ''_meta'' deserialize_request_meta j) (\<lambda>meta.
     rbind (opt_json ''inputResponses'' j) (\<lambda>responses.
     rbind (opt_string ''requestState'' j) (\<lambda>st.
     Inr \<lparr>cp_name = name, cp_arguments = arguments, cp_meta = meta, cp_input_responses = responses,
          cp_request_state = st\<rparr>)))))"

definition deserialize_get_prompt_params :: "json \<Rightarrow> call_params mres" where
  "deserialize_get_prompt_params j =
     rbind (req_string ''name'' j) (\<lambda>name.
     rbind (opt_json ''arguments'' j) (\<lambda>arguments.
     rbind (opt_with ''_meta'' deserialize_request_meta j) (\<lambda>meta.
     rbind (opt_json ''inputResponses'' j) (\<lambda>responses.
     rbind (opt_string ''requestState'' j) (\<lambda>st.
     Inr \<lparr>cp_name = name, cp_arguments = arguments, cp_meta = meta, cp_input_responses = responses,
          cp_request_state = st\<rparr>)))))"

text \<open>\<open>context_arguments\<close> is a map of strings.\<close>

record complete_params =
  co_ref :: json
  co_argument_name :: string
  co_argument_value :: string
  co_context :: "(string \<times> string) list"
  co_meta :: "request_meta option"

definition string_members :: "(string \<times> string) list \<Rightarrow> members" where
  "string_members kvs = map (\<lambda>(k, s). (k, JString s)) kvs"

definition serialize_complete_params :: "complete_params \<Rightarrow> json mres" where
  "serialize_complete_params v =
     rbind (ser_opt serialize_request_meta (co_meta v)) (\<lambda>meta.
     Inr (build_object [
       put ''ref'' (co_ref v),
       put ''argument'' (build_object [
         put ''name'' (JString (co_argument_name v)),
         put ''value'' (JString (co_argument_value v))]),
       put_if (co_context v \<noteq> []) ''context'' (build_object [
         put ''arguments'' (JObject (put_all (string_members (co_context v)) []))]),
       put_opt ''_meta'' (\<lambda>x. x) meta]))"

definition context_entry :: "string \<times> json \<Rightarrow> (string \<times> string) mres" where
  "context_entry kv =
     (case snd kv of
        JString s \<Rightarrow> Inr (fst kv, s)
      | v \<Rightarrow> throw InvalidParams (''DeserializeCompleteRequestParams: field '' @ [chr 39] @
          ''context.arguments.'' @ fst kv @ [chr 39] @ '' expected a string, got '' @ dump (- 1) v))"

definition read_context :: "json \<Rightarrow> (string \<times> string) list mres" where
  "read_context j =
     (case json_find ''context'' j of
        None \<Rightarrow> Inr []
      | Some c \<Rightarrow>
          if \<not> is_object c then throw InvalidParams
            (''DeserializeCompleteRequestParams: field '' @ [chr 39] @ ''context'' @ [chr 39] @
             '' expected an object, got '' @ dump (- 1) c)
          else case json_find ''arguments'' c of
                 None \<Rightarrow> Inr []
               | Some a \<Rightarrow>
                   if \<not> is_object a then throw InvalidParams
                     (''DeserializeCompleteRequestParams: field '' @ [chr 39] @ ''context.arguments'' @ [chr 39] @
                      '' expected an object, got '' @ dump (- 1) a)
                   else rbind (get_object a) (\<lambda>m.
                     rmap (foldl (\<lambda>m (k, s). amap_emplace k s m) []) (rtraverse context_entry m)))"

definition deserialize_complete_params :: "json \<Rightarrow> complete_params mres" where
  "deserialize_complete_params j =
     (let ref = (case json_find ''ref'' j of Some r \<Rightarrow> r | None \<Rightarrow> JNull);
          (name, val) =
            (case json_find ''argument'' j of
               Some (JObject a) \<Rightarrow> (string_or [] ''name'' (JObject a), string_or [] ''value'' (JObject a))
             | _ \<Rightarrow> (string_or [] ''argumentName'' j, string_or [] ''argumentValue'' j))
      in rbind (read_context j) (\<lambda>ctx.
         rbind (opt_with ''_meta'' deserialize_request_meta j) (\<lambda>meta.
         Inr \<lparr>co_ref = ref, co_argument_name = name, co_argument_value = val, co_context = ctx,
              co_meta = meta\<rparr>)))"

record initialize_params =
  ip_protocol_version :: string
  ip_capabilities :: client_capabilities
  ip_client_info :: implementation

definition serialize_initialize_params :: "initialize_params \<Rightarrow> json" where
  "serialize_initialize_params v = build_object [
     put ''protocolVersion'' (JString (ip_protocol_version v)),
     put ''capabilities'' (serialize_client_capabilities (ip_capabilities v)),
     put ''clientInfo'' (serialize_implementation (ip_client_info v))]"

definition deserialize_initialize_params :: "json \<Rightarrow> initialize_params mres" where
  "deserialize_initialize_params j =
     rbind (req_string ''protocolVersion'' j) (\<lambda>version.
     rbind (req_with ''capabilities'' deserialize_client_capabilities j) (\<lambda>caps.
     rbind (req_with ''clientInfo'' deserialize_implementation j) (\<lambda>info.
     Inr \<lparr>ip_protocol_version = version, ip_capabilities = caps, ip_client_info = info\<rparr>)))"

definition serialize_discover_params :: "unit \<Rightarrow> json" where
  "serialize_discover_params v = build_object []"

text \<open>\<open>IsModernProtocolVersion\<close>: versions are dates and compare as text.\<close>

definition is_modern_protocol_version :: "string \<Rightarrow> bool" where
  "is_modern_protocol_version version \<longleftrightarrow> latest_protocol_version \<le> version"

record elicit_params =
  el_message :: string
  el_requested_schema :: "json option"
  el_mode :: string
  el_url :: "string option"
  el_elicitation_id :: "string option"

definition serialize_elicit_params :: "elicit_params \<Rightarrow> string \<Rightarrow> json" where
  "serialize_elicit_params v protocol_version =
     (let url_mode = (el_mode v \<noteq> ''form'')
      in build_object [
        put ''message'' (JString (el_message v)),
        put_opt ''requestedSchema'' (\<lambda>x. x) (el_requested_schema v),
        put_if url_mode ''mode'' (JString (el_mode v)),
        put_opt ''url'' JString (if url_mode then el_url v else None),
        put_opt ''elicitationId'' JString
          (if url_mode \<and> \<not> is_modern_protocol_version protocol_version then el_elicitation_id v else None)])"

definition deserialize_elicit_params :: "json \<Rightarrow> elicit_params mres" where
  "deserialize_elicit_params j =
     rbind (req_string ''message'' j) (\<lambda>message.
     rbind (opt_json ''requestedSchema'' j) (\<lambda>schema.
     rbind (opt_string ''url'' j) (\<lambda>url.
     rbind (opt_string ''elicitationId'' j) (\<lambda>eid.
     Inr \<lparr>el_message = message, el_requested_schema = schema, el_mode = string_or ''form'' ''mode'' j,
          el_url = url, el_elicitation_id = eid\<rparr>))))"

record sampling_message =
  sm_role :: string
  sm_content :: content_variant

record create_message_params =
  cm_messages :: "sampling_message list"
  cm_max_tokens :: i64
  cm_stop_reason :: "string option"
  cm_model_preference :: "string option"

definition serialize_sampling_message :: "sampling_message \<Rightarrow> json mres" where
  "serialize_sampling_message v = rbind (serialize_content (sm_content v)) (\<lambda>c.
     Inr (build_object [put ''role'' (JString (sm_role v)), put ''content'' c]))"

definition deserialize_sampling_message :: "json \<Rightarrow> sampling_message mres" where
  "deserialize_sampling_message j =
     rbind (req_string ''role'' j) (\<lambda>role.
     rbind (req_with ''content'' deserialize_content j) (\<lambda>c.
     Inr \<lparr>sm_role = role, sm_content = c\<rparr>))"

definition serialize_create_message_params :: "create_message_params \<Rightarrow> json mres" where
  "serialize_create_message_params v =
     rbind (rtraverse serialize_sampling_message (cm_messages v)) (\<lambda>msgs.
     Inr (build_object [
       put ''messages'' (JArray msgs),
       put ''maxTokens'' (JInt (cm_max_tokens v)),
       put_opt ''stopReason'' JString (cm_stop_reason v),
       put_opt ''modelPreference'' JString (cm_model_preference v)]))"

text \<open>\<open>if (v && v->IsArray())\<close> read the items, otherwise leave the vector empty.\<close>

definition items_or_empty :: "string \<Rightarrow> (json \<Rightarrow> 'a mres) \<Rightarrow> json \<Rightarrow> 'a list mres" where
  "items_or_empty key f j =
     (case json_find key j of Some v \<Rightarrow> array_items f v | None \<Rightarrow> Inr [])"

lemma items_or_empty_array [codec_simps]:
  "json_find key j = Some (JArray xs) \<Longrightarrow> items_or_empty key f j = rtraverse f xs"
  by (simp add: items_or_empty_def array_items_def)

definition read_max_tokens :: "json \<Rightarrow> i64 mres" where
  "read_max_tokens v =
     (if \<not> is_int v then throw DeserializeFailed
        (''CreateMessageRequestParams: field '' @ [chr 39] @ ''maxTokens'' @ [chr 39] @
         '' expected int, got '' @ json_type_name v)
      else get_int v)"

definition deserialize_create_message_params :: "json \<Rightarrow> create_message_params mres" where
  "deserialize_create_message_params j =
     rbind (items_or_empty ''messages'' deserialize_sampling_message j) (\<lambda>msgs.
     rbind (req_with ''maxTokens'' read_max_tokens j) (\<lambda>max_tokens.
     rbind (opt_string ''stopReason'' j) (\<lambda>reason.
     rbind (opt_string ''modelPreference'' j) (\<lambda>pref.
     Inr \<lparr>cm_messages = msgs, cm_max_tokens = max_tokens, cm_stop_reason = reason,
          cm_model_preference = pref\<rparr>))))"

record root =
  ro_uri :: string
  ro_name :: "string option"

definition serialize_root :: "root \<Rightarrow> json" where
  "serialize_root v = build_object [
     put ''uri'' (JString (ro_uri v)), put_opt ''name'' JString (ro_name v)]"

definition serialize_list_roots_params :: "unit \<Rightarrow> json" where
  "serialize_list_roots_params v = build_object []"

definition deserialize_list_roots_params :: "json \<Rightarrow> unit mres" where
  "deserialize_list_roots_params j = Inr ()"

definition serialize_set_level_params :: "logging_level \<Rightarrow> json" where
  "serialize_set_level_params l = build_object [put ''level'' (serialize_logging_level l)]"

definition deserialize_set_level_params :: "json \<Rightarrow> logging_level mres" where
  "deserialize_set_level_params j = req_with ''level'' deserialize_logging_level j"

section \<open>Requests for input\<close>

record input_request =
  ir_method :: string
  ir_params :: json

type_synonym input_requests = "(string \<times> input_request) list"

record input_required =
  iq_requests :: input_requests
  iq_request_state :: "string option"

definition serialize_input_request :: "input_request \<Rightarrow> json" where
  "serialize_input_request v = build_object [
     put ''method'' (JString (ir_method v)),
     put_if (\<not> is_object (ir_params v) \<or> \<not> json_empty (ir_params v)) ''params'' (ir_params v)]"

definition deserialize_input_request :: "json \<Rightarrow> input_request mres" where
  "deserialize_input_request j =
     (if \<not> is_object j then throw InvalidParams ''DeserializeInputRequest: input request must be an object''
      else let m = string_or [] ''method'' j in
        if m = [] then throw InvalidParams
          (''DeserializeInputRequest: missing non-empty string '' @ [chr 39] @ ''method'' @ [chr 39])
        else case json_find ''params'' j of
               None \<Rightarrow> Inr \<lparr>ir_method = m, ir_params = JObject []\<rparr>
             | Some p \<Rightarrow>
                 if is_null p then Inr \<lparr>ir_method = m, ir_params = JObject []\<rparr>
                 else if \<not> is_object p then throw InvalidParams
                   (''DeserializeInputRequest: method '' @ [chr 39] @ m @ [chr 39] @
                    '' has a non-object '' @ [chr 39] @ ''params'' @ [chr 39])
                 else Inr \<lparr>ir_method = m, ir_params = p\<rparr>)"

definition serialize_input_requests :: "input_requests \<Rightarrow> json" where
  "serialize_input_requests v =
     JObject (put_all (map (\<lambda>(k, r). (k, serialize_input_request r)) v) [])"

definition input_request_entry :: "string \<times> json \<Rightarrow> (string \<times> input_request) mres" where
  "input_request_entry kv = rmap (\<lambda>r. (fst kv, r)) (deserialize_input_request (snd kv))"

definition deserialize_input_requests :: "json \<Rightarrow> input_requests mres" where
  "deserialize_input_requests j =
     (if \<not> is_object j then throw InvalidParams
        ''DeserializeInputRequests: inputRequests must be an object''
      else rbind (get_object j) (\<lambda>m. rmap amap_of_list (rtraverse input_request_entry m)))"

definition make_input_request_for_elicitation :: "elicit_params \<Rightarrow> input_request" where
  "make_input_request_for_elicitation p =
     \<lparr>ir_method = ''elicitation/create'', ir_params = serialize_elicit_params p []\<rparr>"

definition make_input_request_for_sampling :: "create_message_params \<Rightarrow> input_request mres" where
  "make_input_request_for_sampling p =
     rmap (\<lambda>j. \<lparr>ir_method = ''sampling/createMessage'', ir_params = j\<rparr>) (serialize_create_message_params p)"

definition make_input_request_for_roots :: "unit \<Rightarrow> input_request" where
  "make_input_request_for_roots p =
     \<lparr>ir_method = ''roots/list'', ir_params = serialize_list_roots_params p\<rparr>"

definition is_input_required_result :: "json \<Rightarrow> bool" where
  "is_input_required_result j \<longleftrightarrow> is_object j \<and> json_find ''resultType'' j = Some (JString ''input_required'')"

definition extract_input_requests :: "json \<Rightarrow> input_requests option mres" where
  "extract_input_requests result =
     (if \<not> is_object result then Inr None
      else opt_with ''inputRequests'' deserialize_input_requests result)"

section \<open>Notifications\<close>

record subscription_filter =
  sf_tools :: "bool option"
  sf_prompts :: "bool option"
  sf_resources :: "bool option"
  sf_subscriptions :: "string list"

record listen_params =
  lp_notifications :: subscription_filter
  lp_meta :: "request_meta option"

record progress_params =
  pn_token :: progress_token
  pn_progress :: f64
  pn_total :: "f64 option"
  pn_message :: "string option"

record logging_params =
  lm_level :: logging_level
  lm_logger :: "string option"
  lm_data :: json

definition serialize_subscription_filter :: "subscription_filter \<Rightarrow> json" where
  "serialize_subscription_filter v = build_object [
     put_opt ''toolsListChanged'' JBool (sf_tools v),
     put_opt ''promptsListChanged'' JBool (sf_prompts v),
     put_opt ''resourcesListChanged'' JBool (sf_resources v),
     put_vector ''resourceSubscriptions'' JString (sf_subscriptions v)]"

definition deserialize_subscription_filter :: "json \<Rightarrow> subscription_filter mres" where
  "deserialize_subscription_filter j =
     rbind (opt_bool ''toolsListChanged'' j) (\<lambda>tools.
     rbind (opt_bool ''promptsListChanged'' j) (\<lambda>prompts.
     rbind (opt_bool ''resourcesListChanged'' j) (\<lambda>resources.
     rbind (items_or_empty ''resourceSubscriptions'' get_string j) (\<lambda>subs.
     Inr \<lparr>sf_tools = tools, sf_prompts = prompts, sf_resources = resources, sf_subscriptions = subs\<rparr>))))"

definition serialize_listen_params :: "listen_params \<Rightarrow> json mres" where
  "serialize_listen_params v =
     rbind (ser_opt serialize_request_meta (lp_meta v)) (\<lambda>meta.
     Inr (build_object [
       put ''notifications'' (serialize_subscription_filter (lp_notifications v)),
       put_opt ''_meta'' (\<lambda>x. x) meta]))"

definition deserialize_listen_params :: "json \<Rightarrow> listen_params mres" where
  "deserialize_listen_params j =
     rbind (req_with ''notifications'' deserialize_subscription_filter j) (\<lambda>f.
     rbind (opt_with ''_meta'' deserialize_request_meta j) (\<lambda>meta.
     Inr \<lparr>lp_notifications = f, lp_meta = meta\<rparr>))"

definition serialize_acknowledged_params :: "subscription_filter \<Rightarrow> json" where
  "serialize_acknowledged_params f =
     build_object [put ''notifications'' (serialize_subscription_filter f)]"

definition deserialize_acknowledged_params :: "json \<Rightarrow> subscription_filter mres" where
  "deserialize_acknowledged_params j = req_with ''notifications'' deserialize_subscription_filter j"

definition serialize_progress_params :: "progress_params \<Rightarrow> json" where
  "serialize_progress_params v = build_object [
     put ''progressToken'' (serialize_progress_token (pn_token v)),
     put ''progress'' (JDouble (pn_progress v)),
     put_opt ''total'' JDouble (pn_total v),
     put_opt ''message'' JString (pn_message v)]"

definition read_progress :: "json \<Rightarrow> f64 mres" where
  "read_progress v =
     (if \<not> is_number v then throw DeserializeFailed
        (''ProgressNotificationParams: field '' @ [chr 39] @ ''progress'' @ [chr 39] @
         '' expected number, got '' @ json_type_name v)
      else if is_double v then get_double v else rmap f64_of_int (get_int v))"

definition deserialize_progress_params :: "json \<Rightarrow> progress_params mres" where
  "deserialize_progress_params j =
     rbind (req_with ''progressToken'' deserialize_progress_token j) (\<lambda>token.
     rbind (req_with ''progress'' read_progress j) (\<lambda>progress.
     rbind (opt_double ''total'' j) (\<lambda>total.
     rbind (opt_string ''message'' j) (\<lambda>message.
     Inr \<lparr>pn_token = token, pn_progress = progress, pn_total = total, pn_message = message\<rparr>))))"

definition serialize_logging_params :: "logging_params \<Rightarrow> json" where
  "serialize_logging_params v = build_object [
     put ''level'' (serialize_logging_level (lm_level v)),
     put_opt ''logger'' JString (lm_logger v),
     put ''data'' (lm_data v)]"

definition deserialize_logging_params :: "json \<Rightarrow> logging_params mres" where
  "deserialize_logging_params j =
     rbind (req_with ''level'' deserialize_logging_level j) (\<lambda>level.
     rbind (opt_string ''logger'' j) (\<lambda>logger.
     rbind (req_with ''data'' Inr j) (\<lambda>d.
     Inr \<lparr>lm_level = level, lm_logger = logger, lm_data = d\<rparr>)))"

definition serialize_task_status_params :: "string \<Rightarrow> string \<Rightarrow> json" where
  "serialize_task_status_params task_id status = build_object [
     put ''taskId'' (JString task_id), put ''status'' (JString status)]"

section \<open>Reading them back\<close>

interpretation paginated_codec:
  json_encoder serialize_paginated_params deserialize_paginated_params
    "\<lambda>v. pred_option request_meta_ok (pg_meta v)"
proof
  fix v :: paginated_params
  assume "pred_option request_meta_ok (pg_meta v)"
  then obtain js where "ser_opt serialize_request_meta (pg_meta v) = Inr js"
      "read_with deserialize_request_meta js = Inr (pg_meta v)"
    using request_meta_codec.ser_opt_roundtrip by blast
  then show "\<exists>j. serialize_paginated_params v = Inr j \<and> deserialize_paginated_params j = Inr v"
    by (simp add: serialize_paginated_params_def deserialize_paginated_params_def codec_simps)
qed

interpretation resource_params_codec:
  json_encoder serialize_resource_params deserialize_resource_params
    "\<lambda>v. pred_option request_meta_ok (rp_meta v)"
proof
  fix v :: resource_params
  assume "pred_option request_meta_ok (rp_meta v)"
  then obtain js where "ser_opt serialize_request_meta (rp_meta v) = Inr js"
      "read_with deserialize_request_meta js = Inr (rp_meta v)"
    using request_meta_codec.ser_opt_roundtrip by blast
  then show "\<exists>j. serialize_resource_params v = Inr j \<and> deserialize_resource_params j = Inr v"
    by (simp add: serialize_resource_params_def deserialize_resource_params_def codec_simps)
qed

interpretation call_params_codec:
  json_encoder serialize_call_tool_params deserialize_call_tool_params
    "\<lambda>v. pred_option request_meta_ok (cp_meta v)"
proof
  fix v :: call_params
  assume "pred_option request_meta_ok (cp_meta v)"
  then obtain js where "ser_opt serialize_request_meta (cp_meta v) = Inr js"
      "read_with deserialize_request_meta js = Inr (cp_meta v)"
    using request_meta_codec.ser_opt_roundtrip by blast
  then show "\<exists>j. serialize_call_tool_params v = Inr j \<and> deserialize_call_tool_params j = Inr v"
    by (simp add: serialize_call_tool_params_def deserialize_call_tool_params_def codec_simps)
qed

lemma get_prompt_params_eq: "deserialize_get_prompt_params = deserialize_call_tool_params"
  by (simp add: deserialize_get_prompt_params_def deserialize_call_tool_params_def fun_eq_iff)

text \<open>A map read entry by entry is the map that was written.\<close>

lemma foldl_put_sorted:
  "amap_ok (m @ kvs) \<Longrightarrow> foldl (\<lambda>m (k, v). amap_put k v m) m kvs = m @ kvs"
proof (induction kvs arbitrary: m)
  case (Cons kv kvs)
  obtain k v where kv: "kv = (k, v)" by (cases kv)
  have "\<forall>k' \<in> fst ` set m. k' < k"
    using Cons.prems by (auto simp: amap_ok_def sorted_wrt_append kv)
  then show ?case using Cons amap_put_greatest [of m k v] by (simp add: kv)
qed simp

lemma foldl_emplace_sorted:
  "amap_ok (m @ kvs) \<Longrightarrow> foldl (\<lambda>m (k, v). amap_emplace k v m) m kvs = m @ kvs"
proof (induction kvs arbitrary: m)
  case (Cons kv kvs)
  obtain k v where kv: "kv = (k, v)" by (cases kv)
  have "\<forall>k' \<in> fst ` set m. k' < k"
    using Cons.prems by (auto simp: amap_ok_def sorted_wrt_append kv)
  then show ?case using Cons amap_emplace_greatest [of m k v] by (simp add: kv)
qed simp

lemma amap_of_list_sorted: "amap_ok kvs \<Longrightarrow> amap_of_list kvs = kvs"
  using foldl_put_sorted [of "[]" kvs] by (simp add: amap_of_list_def)

lemma amap_ok_map_values: "amap_ok (map (\<lambda>(k, v). (k, f v)) m) \<longleftrightarrow> amap_ok m"
  by (simp add: amap_ok_def comp_def case_prod_beta)

lemma string_members_ok: "amap_ok (string_members m) \<longleftrightarrow> amap_ok m"
  by (simp add: string_members_def amap_ok_map_values)

lemma context_entries: "rtraverse context_entry (string_members kvs) = Inr kvs"
  by (induction kvs) (auto simp: string_members_def context_entry_def)

definition complete_params_ok :: "complete_params \<Rightarrow> bool" where
  "complete_params_ok v \<longleftrightarrow> amap_ok (co_context v) \<and> pred_option request_meta_ok (co_meta v)"

interpretation complete_params_codec:
  json_encoder serialize_complete_params deserialize_complete_params complete_params_ok
proof
  fix v :: complete_params
  assume ok: "complete_params_ok v"
  then obtain js where js: "ser_opt serialize_request_meta (co_meta v) = Inr js"
      "read_with deserialize_request_meta js = Inr (co_meta v)"
    using request_meta_codec.ser_opt_roundtrip by (auto simp: complete_params_ok_def)
  have arg: "\<exists>m. build_object ws = JObject m" for ws by (simp add: build_object_def)
  define a where "a = build_object [put ''name'' (JString (co_argument_name v)),
    put ''value'' (JString (co_argument_value v))]"
  define c where "c = build_object [put ''arguments'' (JObject (put_all (string_members (co_context v)) []))]"
  have a: "string_or [] ''name'' a = co_argument_name v" "string_or [] ''value'' a = co_argument_value v"
    by (simp_all add: a_def codec_simps)
  obtain m where m: "a = JObject m" using arg a_def by blast
  define j where "j = build_object [put ''ref'' (co_ref v), put ''argument'' a,
       put_if (co_context v \<noteq> []) ''context'' c, put_opt ''_meta'' (\<lambda>x. x) js]"
  have ser: "serialize_complete_params v = Inr j"
    by (simp add: serialize_complete_params_def js(1) j_def a_def c_def)
  have "json_find ''arguments'' c = Some (JObject (string_members (co_context v)))" "is_object c"
    using ok by (simp_all add: c_def codec_simps complete_params_ok_def put_all_sorted string_members_ok)
  moreover have "json_find ''context'' j = (if co_context v \<noteq> [] then Some c else None)"
    by (simp add: j_def codec_simps)
  ultimately have "read_context j = Inr (co_context v)"
    using ok foldl_emplace_sorted [of "[]" "co_context v"]
    by (simp add: read_context_def context_entries complete_params_ok_def)
  moreover have "json_find ''argument'' j = Some (JObject m)" "json_find ''ref'' j = Some (co_ref v)"
      "json_find ''_meta'' j = js"
    by (simp_all add: j_def codec_simps m)
  ultimately have "deserialize_complete_params j = Inr v"
    using a js(2) by (simp add: deserialize_complete_params_def m opt_with_def)
  with ser show "\<exists>j. serialize_complete_params v = Inr j \<and> deserialize_complete_params j = Inr v" by blast
qed

interpretation initialize_params_codec:
  json_codec serialize_initialize_params deserialize_initialize_params
    "\<lambda>v. client_capabilities_ok (ip_capabilities v) \<and> implementation_ok (ip_client_info v)"
  by unfold_locales
    (simp add: serialize_initialize_params_def deserialize_initialize_params_def codec_simps)

text \<open>Form mode writes neither the URL nor the elicitation id; the modern protocol writes no id.\<close>

definition elicit_params_ok :: "string \<Rightarrow> elicit_params \<Rightarrow> bool" where
  "elicit_params_ok version v \<longleftrightarrow>
     (el_mode v = ''form'' \<longrightarrow> el_url v = None) \<and>
     (el_mode v = ''form'' \<or> is_modern_protocol_version version \<longrightarrow> el_elicitation_id v = None)"

lemma elicit_params_roundtrip:
  assumes "elicit_params_ok version v"
  shows "deserialize_elicit_params (serialize_elicit_params v version) = Inr v"
proof -
  let ?j = "serialize_elicit_params v version"
  have "string_or ''form'' ''mode'' ?j = el_mode v"
    by (simp add: serialize_elicit_params_def Let_def string_or_def codec_simps)
  moreover have "opt_string ''url'' ?j = Inr (el_url v)"
    using assms by (simp add: serialize_elicit_params_def Let_def elicit_params_ok_def codec_simps)
  moreover have "opt_string ''elicitationId'' ?j = Inr (el_elicitation_id v)"
    using assms by (auto simp: serialize_elicit_params_def Let_def elicit_params_ok_def codec_simps)
  moreover have "req_string ''message'' ?j = Inr (el_message v)"
      "opt_json ''requestedSchema'' ?j = Inr (el_requested_schema v)"
    by (simp_all add: serialize_elicit_params_def Let_def codec_simps)
  ultimately show ?thesis by (simp add: deserialize_elicit_params_def)
qed

interpretation sampling_message_codec:
  json_encoder serialize_sampling_message deserialize_sampling_message "\<lambda>v. content_ok (sm_content v)"
proof
  fix v :: sampling_message
  assume "content_ok (sm_content v)"
  then obtain j where "serialize_content (sm_content v) = Inr j" "deserialize_content j = Inr (sm_content v)"
    using content_codec.roundtrip by blast
  then show "\<exists>j. serialize_sampling_message v = Inr j \<and> deserialize_sampling_message j = Inr v"
    by (simp add: serialize_sampling_message_def deserialize_sampling_message_def codec_simps)
qed

interpretation create_message_codec:
  json_encoder serialize_create_message_params deserialize_create_message_params
    "\<lambda>v. list_all (\<lambda>m. content_ok (sm_content m)) (cm_messages v)"
proof
  fix v :: create_message_params
  assume "list_all (\<lambda>m. content_ok (sm_content m)) (cm_messages v)"
  then obtain js where "rtraverse serialize_sampling_message (cm_messages v) = Inr js"
      "rtraverse deserialize_sampling_message js = Inr (cm_messages v)"
    using sampling_message_codec.traverse_roundtrip by blast
  then show "\<exists>j. serialize_create_message_params v = Inr j \<and> deserialize_create_message_params j = Inr v"
    by (simp add: serialize_create_message_params_def deserialize_create_message_params_def codec_simps
        read_max_tokens_def)
qed

interpretation set_level_codec:
  json_codec serialize_set_level_params deserialize_set_level_params "\<lambda>_. True"
  by unfold_locales (simp add: serialize_set_level_params_def deserialize_set_level_params_def codec_simps)

definition input_request_ok :: "input_request \<Rightarrow> bool" where
  "input_request_ok v \<longleftrightarrow> ir_method v \<noteq> [] \<and> is_object (ir_params v)"

interpretation input_request_codec:
  json_codec serialize_input_request deserialize_input_request input_request_ok
proof
  fix v :: input_request
  assume ok: "input_request_ok v"
  let ?j = "serialize_input_request v"
  have m: "string_or [] ''method'' ?j = ir_method v" "is_object ?j"
    by (simp_all add: serialize_input_request_def codec_simps)
  obtain ps where ps: "ir_params v = JObject ps" using ok by (cases "ir_params v") (auto simp: input_request_ok_def)
  have "json_find ''params'' ?j = (if ps = [] then None else Some (JObject ps))"
    by (simp add: serialize_input_request_def codec_simps ps)
  with m ok ps show "deserialize_input_request ?j = Inr v"
    by (simp add: deserialize_input_request_def Let_def input_request_ok_def)
qed

definition input_requests_ok :: "input_requests \<Rightarrow> bool" where
  "input_requests_ok v \<longleftrightarrow> amap_ok v \<and> list_all (\<lambda>kr. input_request_ok (snd kr)) v"

interpretation input_requests_codec:
  json_codec serialize_input_requests deserialize_input_requests input_requests_ok
proof
  fix v :: input_requests
  assume ok: "input_requests_ok v"
  have "rtraverse input_request_entry (map (\<lambda>(k, r). (k, serialize_input_request r)) w) = Inr w"
    if "list_all (\<lambda>kr. input_request_ok (snd kr)) w" for w
    using that by (induction w) (auto simp: input_request_entry_def input_request_codec.de_ser)
  then show "deserialize_input_requests (serialize_input_requests v) = Inr v"
    using ok by (simp add: deserialize_input_requests_def serialize_input_requests_def put_all_sorted
        amap_ok_map_values input_requests_ok_def amap_of_list_sorted)
qed

lemma items_or_empty_vector:
  "json_find key j = (if xs = [] then None else Some (JArray (map JString xs))) \<Longrightarrow>
   items_or_empty key get_string j = Inr xs"
  by (simp add: items_or_empty_def codec_simps split: if_splits)

interpretation subscription_filter_codec:
  json_codec serialize_subscription_filter deserialize_subscription_filter "\<lambda>_. True"
  by unfold_locales (simp add: serialize_subscription_filter_def deserialize_subscription_filter_def
      items_or_empty_vector codec_simps)

lemmas filter_simps [codec_simps] = subscription_filter_codec.all input_requests_codec.all

interpretation listen_params_codec:
  json_encoder serialize_listen_params deserialize_listen_params
    "\<lambda>v. pred_option request_meta_ok (lp_meta v)"
proof
  fix v :: listen_params
  assume "pred_option request_meta_ok (lp_meta v)"
  then obtain js where "ser_opt serialize_request_meta (lp_meta v) = Inr js"
      "read_with deserialize_request_meta js = Inr (lp_meta v)"
    using request_meta_codec.ser_opt_roundtrip by blast
  then show "\<exists>j. serialize_listen_params v = Inr j \<and> deserialize_listen_params j = Inr v"
    by (simp add: serialize_listen_params_def deserialize_listen_params_def codec_simps)
qed

interpretation acknowledged_codec:
  json_codec serialize_acknowledged_params deserialize_acknowledged_params "\<lambda>_. True"
  by unfold_locales
    (simp add: serialize_acknowledged_params_def deserialize_acknowledged_params_def codec_simps)

interpretation progress_codec:
  json_codec serialize_progress_params deserialize_progress_params "\<lambda>_. True"
  by unfold_locales (simp add: serialize_progress_params_def deserialize_progress_params_def
      read_progress_def is_number_def codec_simps)

interpretation logging_codec:
  json_codec serialize_logging_params deserialize_logging_params "\<lambda>_. True"
  by unfold_locales (simp add: serialize_logging_params_def deserialize_logging_params_def codec_simps)

end
