(* ===== verification/Sha256.thy ===== *)
theory Sha256
  imports Prelude
begin

unbundle bit_operations_syntax

text \<open>
  \<open>class Sha256\<close> (\<open>include/mcp/detail/sha256.hpp\<close>), the streaming hash behind the entity tags of
  results and the digests of skills.  The buffer is the filled part of \<open>buf_\<close>, so its length is
  \<open>buf_len_\<close>.  The specification pads the whole text first and folds over its blocks; streaming the
  text in any pieces gives the same digest.
\<close>

type_synonym u32 = "32 word"

section \<open>One block\<close>

definition rotr :: "u32 \<Rightarrow> nat \<Rightarrow> u32" where
  "rotr x n = drop_bit n x OR push_bit (32 - n) x"

definition sha_ch :: "u32 \<Rightarrow> u32 \<Rightarrow> u32 \<Rightarrow> u32" where
  "sha_ch x y z = (x AND y) XOR (NOT x AND z)"

definition sha_maj :: "u32 \<Rightarrow> u32 \<Rightarrow> u32 \<Rightarrow> u32" where
  "sha_maj x y z = (x AND y) XOR (x AND z) XOR (y AND z)"

definition sig0 :: "u32 \<Rightarrow> u32" where "sig0 x = rotr x 2 XOR rotr x 13 XOR rotr x 22"
definition sig1 :: "u32 \<Rightarrow> u32" where "sig1 x = rotr x 6 XOR rotr x 11 XOR rotr x 25"
definition sig2 :: "u32 \<Rightarrow> u32" where "sig2 x = rotr x 7 XOR rotr x 18 XOR drop_bit 3 x"
definition sig3 :: "u32 \<Rightarrow> u32" where "sig3 x = rotr x 17 XOR rotr x 19 XOR drop_bit 10 x"

definition round_constants :: "u32 list" where
  "round_constants = [
     0x428a2f98, 0x71374491, 0xb5c0fbcf, 0xe9b5dba5, 0x3956c25b, 0x59f111f1, 0x923f82a4, 0xab1c5ed5,
     0xd807aa98, 0x12835b01, 0x243185be, 0x550c7dc3, 0x72be5d74, 0x80deb1fe, 0x9bdc06a7, 0xc19bf174,
     0xe49b69c1, 0xefbe4786, 0x0fc19dc6, 0x240ca1cc, 0x2de92c6f, 0x4a7484aa, 0x5cb0a9dc, 0x76f988da,
     0x983e5152, 0xa831c66d, 0xb00327c8, 0xbf597fc7, 0xc6e00bf3, 0xd5a79147, 0x06ca6351, 0x14292967,
     0x27b70a85, 0x2e1b2138, 0x4d2c6dfc, 0x53380d13, 0x650a7354, 0x766a0abb, 0x81c2c92e, 0x92722c85,
     0xa2bfe8a1, 0xa81a664b, 0xc24b8b70, 0xc76c51a3, 0xd192e819, 0xd6990624, 0xf40e3585, 0x106aa070,
     0x19a4c116, 0x1e376c08, 0x2748774c, 0x34b0bcb5, 0x391c0cb3, 0x4ed8aa4a, 0x5b9cca4f, 0x682e6ff3,
     0x748f82ee, 0x78a5636f, 0x84c87814, 0x8cc70208, 0x90befffa, 0xa4506ceb, 0xbef9a3f7, 0xc67178f2]"

type_synonym sha_words = "u32 \<times> u32 \<times> u32 \<times> u32 \<times> u32 \<times> u32 \<times> u32 \<times> u32"

definition initial_state :: sha_words where
  "initial_state = (0x6a09e667, 0xbb67ae85, 0x3c6ef372, 0xa54ff53a,
                    0x510e527f, 0x9b05688c, 0x1f83d9ab, 0x5be0cd19)"

text \<open>The first sixteen words of the schedule, and the loop that extends it.\<close>

fun block_words :: "string \<Rightarrow> u32 list" where
  "block_words (a # b # c # d # s) =
     (push_bit 24 (word_of_nat (byte_of a)) OR push_bit 16 (word_of_nat (byte_of b)) OR
      push_bit 8 (word_of_nat (byte_of c)) OR word_of_nat (byte_of d)) # block_words s"
| "block_words _ = []"

fun extend_schedule :: "nat \<Rightarrow> u32 list \<Rightarrow> u32 list" where
  "extend_schedule 0 w = w"
| "extend_schedule (Suc n) w =
     (let i = length w
      in extend_schedule n (w @ [sig3 (w ! (i - 2)) + w ! (i - 7) + sig2 (w ! (i - 15)) + w ! (i - 16)]))"

fun sha_round :: "sha_words \<Rightarrow> u32 \<times> u32 \<Rightarrow> sha_words" where
  "sha_round (s0, s1, s2, s3, s4, s5, s6, s7) (k, w) =
     (let t1 = s7 + sig1 s4 + sha_ch s4 s5 s6 + k + w;
          t2 = sig0 s0 + sha_maj s0 s1 s2
      in (t1 + t2, s0, s1, s2, s3 + t1, s4, s5, s6))"

fun add_states :: "sha_words \<Rightarrow> sha_words \<Rightarrow> sha_words" where
  "add_states (a0, a1, a2, a3, a4, a5, a6, a7) (b0, b1, b2, b3, b4, b5, b6, b7) =
     (a0 + b0, a1 + b1, a2 + b2, a3 + b3, a4 + b4, a5 + b5, a6 + b6, a7 + b7)"

definition process_block :: "string \<Rightarrow> sha_words \<Rightarrow> sha_words" where
  "process_block buf st =
     add_states st (foldl sha_round st (zip round_constants (extend_schedule 48 (block_words buf))))"

declare sha_round.simps [simp del] add_states.simps [simp del]

section \<open>The stream\<close>

record sha256 =
  sha_state :: sha_words
  sha_buf :: string
  sha_bits :: "64 word"

definition sha_reset :: sha256 where
  "sha_reset = \<lparr>sha_state = initial_state, sha_buf = [], sha_bits = 0\<rparr>"

definition update_byte :: "sha256 \<Rightarrow> char \<Rightarrow> sha256" where
  "update_byte st c =
     (let buf = sha_buf st @ [c]
      in if length buf = 64
         then st\<lparr>sha_state := process_block buf (sha_state st), sha_bits := sha_bits st + 512, sha_buf := []\<rparr>
         else st\<lparr>sha_buf := buf\<rparr>)"

definition sha_update :: "sha256 \<Rightarrow> string \<Rightarrow> sha256" where
  "sha_update st s = foldl update_byte st s"

definition be_bytes64 :: "64 word \<Rightarrow> string" where
  "be_bytes64 b = map (\<lambda>i. chr (unat (drop_bit (i * 8) b) mod 256)) [7, 6, 5, 4, 3, 2, 1, 0]"

definition be_bytes32 :: "u32 \<Rightarrow> string" where
  "be_bytes32 b = map (\<lambda>i. chr (unat (drop_bit i b) mod 256)) [24, 16, 8, 0]"

fun state_bytes :: "sha_words \<Rightarrow> string" where
  "state_bytes (s0, s1, s2, s3, s4, s5, s6, s7) = concat (map be_bytes32 [s0, s1, s2, s3, s4, s5, s6, s7])"

definition pad_to :: "nat \<Rightarrow> string \<Rightarrow> string" where
  "pad_to n s = s @ replicate (n - length s) (chr 0)"

definition sha_final :: "sha256 \<Rightarrow> string" where
  "sha_final st =
     (let bits = sha_bits st + word_of_nat (length (sha_buf st) * 8);
          buf = sha_buf st @ [chr 0x80];
          (state1, buf1) = (if 56 < length buf then (process_block (pad_to 64 buf) (sha_state st), [])
                            else (sha_state st, buf))
      in state_bytes (process_block (pad_to 56 buf1 @ be_bytes64 bits) state1))"

definition sha256_hash :: "string \<Rightarrow> string" where
  "sha256_hash s = sha_final (sha_update sha_reset s)"

section \<open>The specification\<close>

function blocks64 :: "string \<Rightarrow> string list" where
  "blocks64 s = (if length s < 64 then [] else take 64 s # blocks64 (drop 64 s))"
  by pat_completeness auto
termination by (relation "measure length") auto

declare blocks64.simps [simp del]

definition sha_pad :: "string \<Rightarrow> string" where
  "sha_pad s = s @ [chr 0x80] @ replicate (nat ((55 - int (length s)) mod 64)) (chr 0) @
     be_bytes64 (word_of_nat (8 * length s))"

definition hash_blocks :: "sha_words \<Rightarrow> string list \<Rightarrow> sha_words" where
  "hash_blocks st bs = foldl (\<lambda>st b. process_block b st) st bs"

definition sha256_spec :: "string \<Rightarrow> string" where
  "sha256_spec s = state_bytes (hash_blocks initial_state (blocks64 (sha_pad s)))"

lemma blocks64_Cons: "length b = 64 \<Longrightarrow> blocks64 (b @ s) = b # blocks64 s"
  by (subst blocks64.simps) simp

lemma blocks64_short: "length s < 64 \<Longrightarrow> blocks64 s = []"
  by (subst blocks64.simps) simp

lemma blocks64_append: "length s = 64 * n \<Longrightarrow> blocks64 (s @ t) = blocks64 s @ blocks64 t"
proof (induction n arbitrary: s)
  case 0
  then show ?case by (simp add: blocks64_short)
next
  case (Suc n)
  then have "length (take 64 s) = 64" by simp
  moreover have "s = take 64 s @ drop 64 s" by simp
  moreover have "blocks64 (drop 64 s @ t) = blocks64 (drop 64 s) @ blocks64 t"
    using Suc by (intro Suc.IH) simp
  ultimately show ?case
    using blocks64_Cons [of "take 64 s" "drop 64 s @ t"] blocks64_Cons [of "take 64 s" "drop 64 s"]
    by (metis append.assoc append_Cons)
qed

text \<open>After any text: its full blocks are hashed, the rest is in the buffer, the bits are counted.\<close>

definition sha_after :: "string \<Rightarrow> sha256 \<Rightarrow> bool" where
  "sha_after s st \<longleftrightarrow> (\<exists>n t. s = t @ sha_buf st \<and> length t = 64 * n \<and> length (sha_buf st) < 64 \<and>
     sha_state st = hash_blocks initial_state (blocks64 t) \<and> sha_bits st = word_of_nat (512 * n))"

lemma sha_after_reset: "sha_after [] sha_reset"
  by (auto simp: sha_after_def sha_reset_def hash_blocks_def blocks64_short)

lemma sha_after_byte:
  assumes "sha_after s st"
  shows "sha_after (s @ [c]) (update_byte st c)"
proof -
  obtain n t where st: "s = t @ sha_buf st" "length t = 64 * n" "length (sha_buf st) < 64"
      "sha_state st = hash_blocks initial_state (blocks64 t)" "sha_bits st = word_of_nat (512 * n)"
    using assms by (auto simp: sha_after_def)
  show ?thesis
  proof (cases "length (sha_buf st @ [c]) = 64")
    case True
    let ?b = "sha_buf st @ [c]"
    have "blocks64 (t @ ?b) = blocks64 t @ [?b]"
      using blocks64_append [OF st(2), of ?b] blocks64_Cons [OF True, of "[]"] by (simp add: blocks64_short)
    then have "hash_blocks initial_state (blocks64 (t @ ?b)) = process_block ?b (sha_state st)"
      by (simp add: hash_blocks_def st(4))
    moreover have "(word_of_nat (512 * Suc n) :: 64 word) = sha_bits st + 512"
      by (simp add: st(5) algebra_simps)
    moreover have "length (t @ ?b) = 64 * Suc n" using True st(2) by simp
    ultimately have "\<exists>n t'. s @ [c] = t' @ [] \<and> length t' = 64 * n \<and>
        process_block ?b (sha_state st) = hash_blocks initial_state (blocks64 t') \<and>
        sha_bits st + 512 = word_of_nat (512 * n)"
      by (intro exI [of _ "Suc n"] exI [of _ "t @ ?b"]) (simp add: st(1))
    then show ?thesis using True by (simp add: update_byte_def Let_def sha_after_def)
  next
    case False
    then have "update_byte st c = st\<lparr>sha_buf := sha_buf st @ [c]\<rparr>"
      by (simp add: update_byte_def Let_def)
    moreover have "length (sha_buf st @ [c]) < 64" using False st(3) by simp
    moreover have "s @ [c] = t @ sha_buf st @ [c]" using st(1) by simp
    ultimately have "s @ [c] = t @ sha_buf (update_byte st c) \<and> length (sha_buf (update_byte st c)) < 64 \<and>
        sha_state (update_byte st c) = sha_state st \<and> sha_bits (update_byte st c) = sha_bits st"
      by simp
    then show ?thesis
      unfolding sha_after_def using st(2,4,5) by metis
  qed
qed

lemma sha_after_update: "sha_after s st \<Longrightarrow> sha_after (s @ t) (sha_update st t)"
proof (induction t arbitrary: s st)
  case (Cons c t)
  from Cons.IH [OF sha_after_byte [OF Cons.prems]] show ?case by (simp add: sha_update_def)
qed (simp add: sha_update_def)

lemma length_be_bytes64 [simp]: "length (be_bytes64 b) = 8"
  by (simp add: be_bytes64_def)

lemma sha_final_spec:
  assumes "sha_after s st"
  shows "sha_final st = sha256_spec s"
proof -
  obtain n t where st: "s = t @ sha_buf st" "length t = 64 * n" "length (sha_buf st) < 64"
      "sha_state st = hash_blocks initial_state (blocks64 t)" "sha_bits st = word_of_nat (512 * n)"
    using assms by (auto simp: sha_after_def)
  let ?b = "sha_buf st" and ?r = "length (sha_buf st)"
  let ?bits = "be_bytes64 (word_of_nat (8 * length s))"
  have bits: "sha_bits st + word_of_nat (?r * 8) = word_of_nat (8 * length s)"
    by (simp add: st algebra_simps)
  have "55 - int (length s) = 55 - int ?r + 64 * (- int n)"
    by (simp add: st(1,2))
  then have len: "(55 - int (length s)) mod 64 = (55 - int ?r) mod 64"
    by (simp only: mod_mult_self2)
  have pad: "sha_pad s = t @ ?b @ [chr 0x80] @ replicate (nat ((55 - int ?r) mod 64)) (chr 0) @ ?bits"
    unfolding sha_pad_def len by (simp add: st(1))
  show ?thesis
  proof (cases "?r \<le> 55")
    case True
    define last_block where "last_block = pad_to 56 (?b @ [chr 0x80]) @ ?bits"
    have "(55 - int ?r) mod 64 = 55 - int ?r" using True by simp
    then have "sha_pad s = t @ last_block" using True by (simp add: pad last_block_def pad_to_def nat_diff_distrib)
    moreover have "length last_block = 64" using True by (simp add: last_block_def pad_to_def)
    ultimately have "blocks64 (sha_pad s) = blocks64 t @ [last_block]"
      using blocks64_append [OF st(2), of last_block] blocks64_Cons [of last_block "[]"]
      by (simp add: blocks64_short)
    then show ?thesis
      using True by (simp add: sha_final_def sha256_spec_def hash_blocks_def st(4) bits [simplified] last_block_def)
  next
    case False
    define b1 b2 where "b1 = pad_to 64 (?b @ [chr 0x80])" and "b2 = pad_to 56 [] @ ?bits"
    have "(55 - int ?r) mod 64 = (119 - int ?r) mod 64"
      using mod_add_self2 [of "55 - int ?r" 64] by simp
    also have "\<dots> = 119 - int ?r" using False st(3) by (simp add: mod_pos_pos_trivial)
    finally have "nat ((55 - int ?r) mod 64) = (63 - ?r) + 56" using False st(3) by linarith
    then have zeros: "replicate (nat ((55 - int ?r) mod 64)) (chr 0) =
        replicate (63 - ?r) (chr 0) @ replicate 56 (chr 0)"
      by (simp only: replicate_add)
    have "sha_pad s = t @ b1 @ b2"
      using False st(3) by (simp add: pad b1_def b2_def pad_to_def zeros)
    moreover have "length b1 = 64" "length b2 = 64" using st(3) by (simp_all add: b1_def b2_def pad_to_def)
    ultimately have "blocks64 (sha_pad s) = blocks64 t @ [b1, b2]"
      using blocks64_append [OF st(2), of "b1 @ b2"] blocks64_Cons [of b1 b2] blocks64_Cons [of b2 "[]"]
      by (simp add: blocks64_short)
    then show ?thesis
      using False by (simp add: sha_final_def sha256_spec_def hash_blocks_def st(4) bits [simplified] b1_def b2_def)
  qed
qed

section \<open>Properties\<close>

text \<open>Hashing a text in any two pieces gives the digest of the standard: pad the whole text, then
  run the compression function over its 64-byte blocks.  The empty second piece is the one-shot
  \<open>Sha256::Hash\<close>.\<close>

theorem sha256_streaming:
  "sha_final (sha_update (sha_update sha_reset s) t) = sha256_spec (s @ t)"
proof -
  have "sha_after ([] @ s) (sha_update sha_reset s)"
    by (rule sha_after_update [OF sha_after_reset])
  from sha_after_update [OF this, of t] show ?thesis by (simp add: sha_final_spec)
qed

end
