(* ===== verification/Results.thy ===== *)
theory Results
  imports Params Sha256
begin

text \<open>
  Results of requests (\<open>src/core/McpTypesResults.cpp\<close>).  The four listings of tools, resources,
  resource templates and prompts have one shape, \<open>list_result\<close>.  The process-wide switch
  \<open>SetEtagCacheEnabled\<close> is the argument \<open>etag\<close> of the serializers that look at it.
\<close>

section \<open>Result types, cache hints, entity tags\<close>

datatype result_type = RtComplete | RtInputRequired | RtTask

fun result_type_name :: "result_type \<Rightarrow> string" where
  "result_type_name RtComplete = ''complete''"
| "result_type_name RtInputRequired = ''input_required''"
| "result_type_name RtTask = ''task''"

definition serialize_result_type :: "result_type \<Rightarrow> json" where
  "serialize_result_type v = JString (result_type_name v)"

definition deserialize_result_type :: "json \<Rightarrow> result_type mres" where
  "deserialize_result_type j = rbind (get_string j) (\<lambda>s.
     if s = ''input_required'' then Inr RtInputRequired
     else if s = ''task'' then Inr RtTask
     else if s = ''complete'' then Inr RtComplete
     else throw InvalidParams (''DeserializeResultType: unknown string: '' @ [chr 39] @ s @ [chr 39]))"

definition read_result_type :: "json \<Rightarrow> result_type mres" where
  "read_result_type j = rmap (\<lambda>rt. case rt of Some t \<Rightarrow> t | None \<Rightarrow> RtComplete)
     (opt_with ''resultType'' deserialize_result_type j)"

text \<open>\<open>EtagToHex\<close>, and the last step of \<open>WriteListResultCommon\<close>.\<close>

definition hex_nibble :: "nat \<Rightarrow> char" where
  "hex_nibble n = ''0123456789abcdef'' ! n"

definition etag_to_hex :: "string \<Rightarrow> string" where
  "etag_to_hex raw = concat (map (\<lambda>c. [hex_nibble (byte_of c div 16), hex_nibble (byte_of c mod 16)]) raw)"

definition etag_max_bytes :: nat where "etag_max_bytes = 8 * 1024 * 1024"

definition put_etag :: "bool \<Rightarrow> writer" where
  "put_etag etag m =
     (let payload = dump (- 1) (JObject m)
      in if etag \<and> length payload \<le> etag_max_bytes
         then put ''etag'' (JString (etag_to_hex (sha256_hash payload))) m else m)"

definition put_cache_hint :: "cache_hint option \<Rightarrow> writer" where
  "put_cache_hint hint m =
     (case hint of
        Some h \<Rightarrow>
          put_opt ''cacheScope'' JString (ch_cache_scope h)
            (put_opt ''ttlMs'' JInt (ch_ttl_ms h) (put ''cacheHint'' (serialize_cache_hint h) m))
      | None \<Rightarrow> put ''cacheScope'' (JString ''private'') (put ''ttlMs'' (JInt 0) m))"

definition read_cache_hint_fields :: "json option \<Rightarrow> json option \<Rightarrow> json option \<Rightarrow> cache_hint option mres" where
  "read_cache_hint_fields ttl scope hint =
     (if ttl \<noteq> None \<or> scope \<noteq> None then
        Inr (Some \<lparr>ch_ttl_ms = (case ttl of Some (JInt i) \<Rightarrow> Some i | _ \<Rightarrow> None),
                   ch_cache_scope = (case scope of Some (JString s) \<Rightarrow> Some s | _ \<Rightarrow> None)\<rparr>)
      else read_with deserialize_cache_hint hint)"

text \<open>\<open>DeserializeCacheHintCompat\<close>.\<close>

definition deserialize_cache_hint_compat :: "json \<Rightarrow> cache_hint option mres" where
  "deserialize_cache_hint_compat j =
     read_cache_hint_fields (json_find ''ttlMs'' j) (json_find ''cacheScope'' j) (json_find ''cacheHint'' j)"

text \<open>A result without a hint is read with the default hint.\<close>

definition normal_hint :: "cache_hint option \<Rightarrow> cache_hint option" where
  "normal_hint hint = (case hint of
     Some h \<Rightarrow> Some h
   | None \<Rightarrow> Some \<lparr>ch_ttl_ms = Some 0, ch_cache_scope = Some ''private''\<rparr>)"

section \<open>Input required\<close>

definition put_input_required :: "input_required \<Rightarrow> writer" where
  "put_input_required ir m =
     put_opt ''requestState'' JString (iq_request_state ir)
       (put ''inputRequests'' (serialize_input_requests (iq_requests ir)) m)"

text \<open>\<open>ReadInputRequiredFields\<close>: what it returns and the new result type.\<close>

definition read_input_required :: "json \<Rightarrow> result_type \<Rightarrow> (input_required option \<times> result_type) mres" where
  "read_input_required j rt =
     (let requests = json_find ''inputRequests'' j
      in if requests = None \<and> rt \<noteq> RtInputRequired then Inr (None, rt)
         else
           rbind (case requests of Some r \<Rightarrow> deserialize_input_requests r | None \<Rightarrow> Inr []) (\<lambda>reqs.
           rbind (opt_string ''requestState'' j) (\<lambda>st.
           Inr (Some \<lparr>iq_requests = reqs, iq_request_state = st\<rparr>, RtInputRequired))))"

definition serialize_input_required_result :: "input_required \<Rightarrow> json" where
  "serialize_input_required_result v = build_object [
     put ''inputRequests'' (serialize_input_requests (iq_requests v)),
     put ''resultType'' (JString ''input_required''),
     put_opt ''requestState'' JString (iq_request_state v)]"

definition deserialize_input_required_result :: "json \<Rightarrow> input_required mres" where
  "deserialize_input_required_result j =
     rbind (case json_find ''inputRequests'' j of Some r \<Rightarrow> deserialize_input_requests r | None \<Rightarrow> Inr [])
       (\<lambda>reqs.
     rbind (opt_string ''requestState'' j) (\<lambda>st.
     Inr \<lparr>iq_requests = reqs, iq_request_state = st\<rparr>))"

section \<open>Plain results\<close>

record empty_result =
  er_meta :: "json option"
  er_result_type :: result_type

record cacheable_result =
  ca_meta :: "json option"
  ca_result_type :: result_type
  ca_etag :: "string option"

definition serialize_empty_result :: "empty_result \<Rightarrow> json" where
  "serialize_empty_result v = build_object [put_opt ''_meta'' (\<lambda>x. x) (er_meta v)]"

definition deserialize_empty_result :: "json \<Rightarrow> empty_result mres" where
  "deserialize_empty_result j =
     rbind (opt_json ''_meta'' j) (\<lambda>meta.
     rbind (read_result_type j) (\<lambda>rt.
     Inr \<lparr>er_meta = meta, er_result_type = rt\<rparr>))"

definition serialize_cacheable_result :: "cacheable_result \<Rightarrow> json" where
  "serialize_cacheable_result v = build_object [
     put_opt ''_meta'' (\<lambda>x. x) (ca_meta v),
     put ''resultType'' (serialize_result_type (ca_result_type v)),
     put_opt ''etag'' JString (ca_etag v)]"

definition deserialize_cacheable_result :: "json \<Rightarrow> cacheable_result mres" where
  "deserialize_cacheable_result j =
     rbind (opt_json ''_meta'' j) (\<lambda>meta.
     rbind (read_result_type j) (\<lambda>rt.
     rbind (opt_string ''etag'' j) (\<lambda>etag.
     Inr \<lparr>ca_meta = meta, ca_result_type = rt, ca_etag = etag\<rparr>)))"

section \<open>Calling a tool\<close>

record call_tool_result =
  ct_content :: "content_variant list"
  ct_structured :: "json option"
  ct_is_error :: bool
  ct_input_required :: "input_required option"
  ct_meta :: "json option"
  ct_result_type :: result_type

text \<open>The end of the serializers of \<open>CallToolResult\<close> and \<open>GetPromptResult\<close>.\<close>

definition put_outcome :: "input_required option \<Rightarrow> result_type \<Rightarrow> writer" where
  "put_outcome ir rt m =
     (case ir of
        Some r \<Rightarrow>
          put_opt ''requestState'' JString (iq_request_state r)
            (put ''resultType'' (JString ''input_required'')
              (put ''inputRequests'' (serialize_input_requests (iq_requests r)) m))
      | None \<Rightarrow> put ''resultType'' (serialize_result_type rt) m)"

definition serialize_call_tool_result :: "call_tool_result \<Rightarrow> json mres" where
  "serialize_call_tool_result v =
     rbind (rtraverse serialize_content (ct_content v)) (\<lambda>arr.
     Inr (build_object [
       put ''content'' (JArray arr),
       put ''isError'' (JBool (ct_is_error v)),
       put_opt ''structuredContent'' (\<lambda>x. x) (ct_structured v),
       put_opt ''_meta'' (\<lambda>x. x) (ct_meta v),
       put_outcome (ct_input_required v) (ct_result_type v)]))"

definition deserialize_call_tool_result :: "json \<Rightarrow> call_tool_result mres" where
  "deserialize_call_tool_result j =
     rbind (items_or_empty ''content'' deserialize_content j) (\<lambda>content.
     rbind (opt_when is_bool ''isError'' get_bool j) (\<lambda>err.
     rbind (opt_json ''structuredContent'' j) (\<lambda>structured.
     rbind (opt_json ''_meta'' j) (\<lambda>meta.
     rbind (read_result_type j) (\<lambda>rt.
     rbind (read_input_required j rt) (\<lambda>(ir, rt').
     Inr \<lparr>ct_content = content, ct_structured = structured, ct_is_error = (err = Some True),
          ct_input_required = ir, ct_meta = meta, ct_result_type = rt'\<rparr>))))))"

section \<open>Listings\<close>

record 'a list_result =
  lr_items :: "'a list"
  lr_next_cursor :: "string option"
  lr_cache_hint :: "cache_hint option"
  lr_meta :: "json option"
  lr_result_type :: result_type

text \<open>\<open>SerializeListItems\<close>, \<open>WriteListResultCommon\<close>, \<open>DeserializeListItems\<close>, \<open>ReadListResultCommon\<close>.\<close>

definition put_list :: "string \<Rightarrow> ('a \<Rightarrow> json) \<Rightarrow> 'a list \<Rightarrow> writer" where
  "put_list key f xs = put key (JArray (map f xs))"

definition write_list_common ::
  "bool \<Rightarrow> string option \<Rightarrow> cache_hint option \<Rightarrow> json option \<Rightarrow> result_type \<Rightarrow> writer list" where
  "write_list_common etag next_cursor hint meta rt = [
     put_opt ''nextCursor'' JString next_cursor,
     put_cache_hint hint,
     put_opt ''_meta'' (\<lambda>x. x) meta,
     put ''resultType'' (serialize_result_type rt),
     put_etag etag]"

definition read_list_common ::
  "json \<Rightarrow> (string option \<times> cache_hint option \<times> json option \<times> result_type) mres" where
  "read_list_common j =
     rbind (opt_string ''nextCursor'' j) (\<lambda>cursor.
     rbind (deserialize_cache_hint_compat j) (\<lambda>hint.
     rbind (opt_json ''_meta'' j) (\<lambda>meta.
     rbind (read_result_type j) (\<lambda>rt.
     Inr (cursor, hint, meta, rt)))))"

definition serialize_list_result :: "string \<Rightarrow> ('a \<Rightarrow> json) \<Rightarrow> bool \<Rightarrow> 'a list_result \<Rightarrow> json" where
  "serialize_list_result key f etag v = build_object (put_list key f (lr_items v) #
     write_list_common etag (lr_next_cursor v) (lr_cache_hint v) (lr_meta v) (lr_result_type v))"

definition deserialize_list_result :: "string \<Rightarrow> (json \<Rightarrow> 'a mres) \<Rightarrow> json \<Rightarrow> 'a list_result mres" where
  "deserialize_list_result key f j =
     rbind (items_or_empty key f j) (\<lambda>items.
     rbind (read_list_common j) (\<lambda>(cursor, hint, meta, rt).
     Inr \<lparr>lr_items = items, lr_next_cursor = cursor, lr_cache_hint = hint, lr_meta = meta,
          lr_result_type = rt\<rparr>))"

definition serialize_list_tools_result :: "bool \<Rightarrow> tool list_result \<Rightarrow> json" where
  "serialize_list_tools_result = serialize_list_result ''tools'' serialize_tool"

definition deserialize_list_tools_result :: "json \<Rightarrow> tool list_result mres" where
  "deserialize_list_tools_result = deserialize_list_result ''tools'' deserialize_tool"

definition serialize_list_resources_result :: "bool \<Rightarrow> resource list_result \<Rightarrow> json" where
  "serialize_list_resources_result = serialize_list_result ''resources'' serialize_resource"

definition deserialize_list_resources_result :: "json \<Rightarrow> resource list_result mres" where
  "deserialize_list_resources_result = deserialize_list_result ''resources'' deserialize_resource"

definition serialize_list_templates_result :: "bool \<Rightarrow> resource_template list_result \<Rightarrow> json" where
  "serialize_list_templates_result = serialize_list_result ''resourceTemplates'' serialize_resource_template"

definition deserialize_list_templates_result :: "json \<Rightarrow> resource_template list_result mres" where
  "deserialize_list_templates_result =
     deserialize_list_result ''resourceTemplates'' deserialize_resource_template"

definition serialize_list_prompts_result :: "bool \<Rightarrow> prompt list_result \<Rightarrow> json" where
  "serialize_list_prompts_result = serialize_list_result ''prompts'' serialize_prompt"

definition deserialize_list_prompts_result :: "json \<Rightarrow> prompt list_result mres" where
  "deserialize_list_prompts_result = deserialize_list_result ''prompts'' deserialize_prompt"

section \<open>Reading a resource, getting a prompt\<close>

record read_resource_result =
  rr_contents :: "resource_contents list"
  rr_cache_hint :: "cache_hint option"
  rr_input_required :: "input_required option"
  rr_meta :: "json option"
  rr_result_type :: result_type

definition serialize_read_resource_result :: "bool \<Rightarrow> read_resource_result \<Rightarrow> json" where
  "serialize_read_resource_result etag v = build_object (
     put_list ''contents'' serialize_resource_contents (rr_contents v) #
     write_list_common etag None (rr_cache_hint v) (rr_meta v)
       (if rr_input_required v \<noteq> None then RtInputRequired else rr_result_type v) @
     (case rr_input_required v of Some ir \<Rightarrow> [put_input_required ir] | None \<Rightarrow> []))"

definition deserialize_read_resource_result :: "json \<Rightarrow> read_resource_result mres" where
  "deserialize_read_resource_result j =
     rbind (items_or_empty ''contents'' deserialize_resource_contents j) (\<lambda>contents.
     rbind (deserialize_cache_hint_compat j) (\<lambda>hint.
     rbind (opt_json ''_meta'' j) (\<lambda>meta.
     rbind (read_result_type j) (\<lambda>rt.
     rbind (read_input_required j rt) (\<lambda>(ir, rt').
     Inr \<lparr>rr_contents = contents, rr_cache_hint = hint, rr_input_required = ir, rr_meta = meta,
          rr_result_type = rt'\<rparr>)))))"

record get_prompt_result =
  gp_messages :: "prompt_message list"
  gp_description :: "string option"
  gp_input_required :: "input_required option"
  gp_meta :: "json option"
  gp_result_type :: result_type

definition serialize_get_prompt_result :: "get_prompt_result \<Rightarrow> json mres" where
  "serialize_get_prompt_result v =
     rbind (rtraverse serialize_prompt_message (gp_messages v)) (\<lambda>arr.
     Inr (build_object [
       put ''messages'' (JArray arr),
       put_opt ''description'' JString (gp_description v),
       put_opt ''_meta'' (\<lambda>x. x) (gp_meta v),
       put_outcome (gp_input_required v) (gp_result_type v)]))"

definition deserialize_get_prompt_result :: "json \<Rightarrow> get_prompt_result mres" where
  "deserialize_get_prompt_result j =
     rbind (items_or_empty ''messages'' deserialize_prompt_message j) (\<lambda>msgs.
     rbind (opt_string ''description'' j) (\<lambda>description.
     rbind (opt_json ''_meta'' j) (\<lambda>meta.
     rbind (read_result_type j) (\<lambda>rt.
     rbind (read_input_required j rt) (\<lambda>(ir, rt').
     Inr \<lparr>gp_messages = msgs, gp_description = description, gp_input_required = ir, gp_meta = meta,
          gp_result_type = rt'\<rparr>)))))"

section \<open>The other results\<close>

record complete_result =
  cr_completion :: json
  cr_meta :: "json option"
  cr_result_type :: result_type

definition serialize_complete_result :: "complete_result \<Rightarrow> json" where
  "serialize_complete_result v = build_object [
     put ''completion'' (cr_completion v),
     put_opt ''_meta'' (\<lambda>x. x) (cr_meta v),
     put ''resultType'' (serialize_result_type (cr_result_type v))]"

definition deserialize_complete_result :: "json \<Rightarrow> complete_result mres" where
  "deserialize_complete_result j =
     rbind (req_with ''completion'' Inr j) (\<lambda>completion.
     rbind (opt_json ''_meta'' j) (\<lambda>meta.
     rbind (read_result_type j) (\<lambda>rt.
     Inr \<lparr>cr_completion = completion, cr_meta = meta, cr_result_type = rt\<rparr>)))"

record initialize_result =
  in_protocol_version :: string
  in_capabilities :: server_capabilities
  in_server_info :: implementation
  in_instructions :: "string option"
  in_meta :: "json option"
  in_result_type :: result_type

definition serialize_initialize_result :: "initialize_result \<Rightarrow> json" where
  "serialize_initialize_result v = build_object [
     put ''protocolVersion'' (JString (in_protocol_version v)),
     put ''capabilities'' (serialize_server_capabilities (in_capabilities v)),
     put ''serverInfo'' (serialize_implementation (in_server_info v)),
     put_opt ''instructions'' JString (in_instructions v),
     put_opt ''_meta'' (\<lambda>x. x) (in_meta v),
     put ''resultType'' (serialize_result_type (in_result_type v))]"

definition deserialize_initialize_result :: "json \<Rightarrow> initialize_result mres" where
  "deserialize_initialize_result j =
     rbind (req_string ''protocolVersion'' j) (\<lambda>version.
     rbind (req_with ''capabilities'' deserialize_server_capabilities j) (\<lambda>caps.
     rbind (req_with ''serverInfo'' deserialize_implementation j) (\<lambda>info.
     rbind (opt_string ''instructions'' j) (\<lambda>instructions.
     rbind (opt_json ''_meta'' j) (\<lambda>meta.
     rbind (read_result_type j) (\<lambda>rt.
     Inr \<lparr>in_protocol_version = version, in_capabilities = caps, in_server_info = info,
          in_instructions = instructions, in_meta = meta, in_result_type = rt\<rparr>))))))"

record discover_result =
  di_supported_versions :: "string list"
  di_capabilities :: server_capabilities
  di_server_info :: implementation
  di_instructions :: "string option"
  di_cache_hint :: "cache_hint option"
  di_meta :: "json option"
  di_result_type :: result_type

definition serialize_discover_result :: "discover_result \<Rightarrow> json" where
  "serialize_discover_result v = build_object [
     put_list ''supportedVersions'' JString (di_supported_versions v),
     put ''capabilities'' (serialize_server_capabilities (di_capabilities v)),
     put ''serverInfo'' (serialize_implementation (di_server_info v)),
     put_opt ''instructions'' JString (di_instructions v),
     put_cache_hint (di_cache_hint v),
     put_opt ''_meta'' (\<lambda>x. x) (di_meta v),
     put ''resultType'' (serialize_result_type (di_result_type v))]"

definition default_implementation :: implementation where
  "default_implementation = \<lparr>im_name = [], im_version = [], im_title = None, im_icons = [],
     im_description = None, im_website_url = None\<rparr>"

text \<open>Who the server is: a field of the result, or a member of its meta data.\<close>

definition read_server_info :: "json \<Rightarrow> implementation mres" where
  "read_server_info j =
     (case json_find ''serverInfo'' j of
        Some si \<Rightarrow> deserialize_implementation si
      | None \<Rightarrow>
          (case json_find ''_meta'' j of
             Some (JObject m) \<Rightarrow>
               (case amap_find ''io.modelcontextprotocol/serverInfo'' m of
                  Some si \<Rightarrow> deserialize_implementation si
                | None \<Rightarrow> Inr default_implementation)
           | _ \<Rightarrow> Inr default_implementation))"

definition deserialize_discover_result :: "json \<Rightarrow> discover_result mres" where
  "deserialize_discover_result j =
     rbind (items_or_empty ''supportedVersions'' get_string j) (\<lambda>versions.
     rbind (req_with ''capabilities'' deserialize_server_capabilities j) (\<lambda>caps.
     rbind (read_server_info j) (\<lambda>info.
     rbind (opt_string ''instructions'' j) (\<lambda>instructions.
     rbind (deserialize_cache_hint_compat j) (\<lambda>hint.
     rbind (opt_json ''_meta'' j) (\<lambda>meta.
     rbind (read_result_type j) (\<lambda>rt.
     Inr \<lparr>di_supported_versions = versions, di_capabilities = caps, di_server_info = info,
          di_instructions = instructions, di_cache_hint = hint, di_meta = meta,
          di_result_type = rt\<rparr>)))))))"

record elicit_result =
  ers_action :: string
  ers_content :: "json option"
  ers_meta :: "json option"
  ers_result_type :: result_type

definition serialize_elicit_result :: "elicit_result \<Rightarrow> json" where
  "serialize_elicit_result v = build_object [
     put ''action'' (JString (if ers_action v = [] then ''cancel'' else ers_action v)),
     put_opt ''content'' (\<lambda>x. x) (ers_content v),
     put ''resultType'' (serialize_result_type (ers_result_type v)),
     put_opt ''_meta'' (\<lambda>x. x) (ers_meta v)]"

definition deserialize_elicit_result :: "json \<Rightarrow> elicit_result mres" where
  "deserialize_elicit_result j =
     rbind (opt_json ''content'' j) (\<lambda>content.
     rbind (read_result_type j) (\<lambda>rt.
     rbind (opt_json ''_meta'' j) (\<lambda>meta.
     Inr \<lparr>ers_action = string_or [] ''action'' j, ers_content = content, ers_meta = meta,
          ers_result_type = rt\<rparr>)))"

record create_message_result =
  cmr_role :: string
  cmr_content :: content_variant
  cmr_model :: string
  cmr_stop_reason :: "string option"
  cmr_meta :: "json option"
  cmr_result_type :: result_type

definition serialize_create_message_result :: "create_message_result \<Rightarrow> json mres" where
  "serialize_create_message_result v = rbind (serialize_content (cmr_content v)) (\<lambda>c.
     Inr (build_object [
       put ''role'' (JString (cmr_role v)),
       put ''content'' c,
       put ''model'' (JString (cmr_model v)),
       put ''resultType'' (serialize_result_type (cmr_result_type v)),
       put_opt ''stopReason'' JString (cmr_stop_reason v),
       put_opt ''_meta'' (\<lambda>x. x) (cmr_meta v)]))"

record list_roots_result =
  lro_roots :: "root list"
  lro_meta :: "json option"
  lro_result_type :: result_type

definition serialize_list_roots_result :: "list_roots_result \<Rightarrow> json" where
  "serialize_list_roots_result v = build_object [
     put_list ''roots'' serialize_root (lro_roots v),
     put ''resultType'' (serialize_result_type (lro_result_type v)),
     put_opt ''_meta'' (\<lambda>x. x) (lro_meta v)]"

text \<open>Answers to requests for input (\<open>src/core/McpTypesParams.cpp\<close>).\<close>

definition input_response_from_elicit_result :: "elicit_result \<Rightarrow> json" where
  "input_response_from_elicit_result v = build_object [
     put ''action'' (JString (if ers_action v = [] then ''cancel'' else ers_action v)),
     put_opt ''content'' (\<lambda>x. x) (ers_content v)]"

definition input_response_from_create_message_result :: "create_message_result \<Rightarrow> json mres" where
  "input_response_from_create_message_result v = rbind (serialize_content (cmr_content v)) (\<lambda>c.
     Inr (build_object [
       put ''role'' (JString (cmr_role v)),
       put ''content'' c,
       put ''model'' (JString (cmr_model v)),
       put_opt ''stopReason'' JString (cmr_stop_reason v)]))"

definition input_response_from_list_roots_result :: "list_roots_result \<Rightarrow> json" where
  "input_response_from_list_roots_result v = build_object [
     put_list ''roots'' serialize_root (lro_roots v)]"

section \<open>Reading them back\<close>

lemma amap_find_put_list [codec_simps]:
  "amap_find k (put_list k' f xs m) = (if k = k' then Some (JArray (map f xs)) else amap_find k m)"
  by (simp add: put_list_def codec_simps)

lemma amap_find_put_etag [codec_simps]: "k \<noteq> ''etag'' \<Longrightarrow> amap_find k (put_etag e m) = amap_find k m"
  by (simp add: put_etag_def Let_def codec_simps)

lemma amap_find_put_cache_hint [codec_simps]:
  "k \<noteq> ''cacheHint'' \<Longrightarrow> k \<noteq> ''ttlMs'' \<Longrightarrow> k \<noteq> ''cacheScope'' \<Longrightarrow>
   amap_find k (put_cache_hint h m) = amap_find k m"
  by (simp add: put_cache_hint_def codec_simps split: option.split)

lemma read_cache_hint_written [codec_simps]:
  assumes "amap_find ''ttlMs'' m = None" "amap_find ''cacheScope'' m = None" "amap_find ''cacheHint'' m = None"
  shows "read_cache_hint_fields (amap_find ''ttlMs'' (put_cache_hint h m))
    (amap_find ''cacheScope'' (put_cache_hint h m)) (amap_find ''cacheHint'' (put_cache_hint h m)) =
    Inr (normal_hint h)"
proof (cases h)
  case None
  then show ?thesis
    by (simp add: put_cache_hint_def codec_simps read_cache_hint_fields_def normal_hint_def)
next
  case (Some c)
  obtain a b where c: "c = \<lparr>ch_ttl_ms = a, ch_cache_scope = b\<rparr>" by (cases c) simp
  show ?thesis
    using assms unfolding Some c
    by (cases a; cases b)
      (simp_all add: put_cache_hint_def codec_simps read_cache_hint_fields_def normal_hint_def)
qed

lemma result_type_read: "deserialize_result_type (serialize_result_type t) = Inr t"
  by (cases t) (simp_all add: deserialize_result_type_def serialize_result_type_def)

lemma read_result_type_written [codec_simps]:
  "json_find ''resultType'' j = Some (serialize_result_type t) \<Longrightarrow> read_result_type j = Inr t"
  by (simp add: read_result_type_def opt_with_def read_with_def result_type_read)

lemma deserialize_hint_unfold [codec_simps]:
  "deserialize_cache_hint_compat (build_object ws) =
     read_cache_hint_fields (json_find ''ttlMs'' (build_object ws)) (json_find ''cacheScope'' (build_object ws))
       (json_find ''cacheHint'' (build_object ws))"
  by (simp add: deserialize_cache_hint_compat_def)

text \<open>An outcome is consistent: requests for input come with that result type and no other.\<close>

definition outcome_ok :: "input_required option \<Rightarrow> result_type \<Rightarrow> bool" where
  "outcome_ok ir rt \<longleftrightarrow> (case ir of
     None \<Rightarrow> rt \<noteq> RtInputRequired
   | Some r \<Rightarrow> rt = RtInputRequired \<and> input_requests_ok (iq_requests r))"

lemma read_input_required_written:
  assumes "outcome_ok ir rt"
    and "json_find ''inputRequests'' j = map_option (\<lambda>r. serialize_input_requests (iq_requests r)) ir"
    and "json_find ''requestState'' j = (case ir of Some r \<Rightarrow> map_option JString (iq_request_state r) | None \<Rightarrow> None)"
  shows "read_input_required j rt = Inr (ir, rt)"
  using assms
  by (cases ir) (simp_all add: outcome_ok_def read_input_required_def Let_def opt_string_def
      input_requests_codec.de_ser codec_simps)

lemma put_outcome_find [codec_simps]:
  "k \<noteq> ''requestState'' \<Longrightarrow> k \<noteq> ''resultType'' \<Longrightarrow> k \<noteq> ''inputRequests'' \<Longrightarrow>
   amap_find k (put_outcome ir rt m) = amap_find k m"
  "outcome_ok ir rt \<Longrightarrow> amap_find ''resultType'' (put_outcome ir rt m) = Some (serialize_result_type rt)"
  "amap_find ''inputRequests'' m = None \<Longrightarrow> amap_find ''inputRequests'' (put_outcome ir rt m) =
     map_option (\<lambda>r. serialize_input_requests (iq_requests r)) ir"
  "amap_find ''requestState'' m = None \<Longrightarrow> amap_find ''requestState'' (put_outcome ir rt m) =
     (case ir of Some r \<Rightarrow> map_option JString (iq_request_state r) | None \<Rightarrow> None)"
  by (cases ir; simp add: put_outcome_def codec_simps outcome_ok_def serialize_result_type_def)+

definition call_tool_result_ok :: "call_tool_result \<Rightarrow> bool" where
  "call_tool_result_ok v \<longleftrightarrow> list_all content_ok (ct_content v) \<and>
     outcome_ok (ct_input_required v) (ct_result_type v)"

lemma err_flag: "read_when is_bool get_bool (Some (JBool b)) = Inr (Some b)"
  by (simp add: read_when_def)

interpretation call_tool_codec:
  json_encoder serialize_call_tool_result deserialize_call_tool_result call_tool_result_ok
proof
  fix v :: call_tool_result
  assume ok: "call_tool_result_ok v"
  then obtain js where js: "rtraverse serialize_content (ct_content v) = Inr js"
      "rtraverse deserialize_content js = Inr (ct_content v)"
    using content_codec.traverse_roundtrip by (auto simp: call_tool_result_ok_def)
  let ?j = "build_object [put ''content'' (JArray js), put ''isError'' (JBool (ct_is_error v)),
    put_opt ''structuredContent'' (\<lambda>x. x) (ct_structured v), put_opt ''_meta'' (\<lambda>x. x) (ct_meta v),
    put_outcome (ct_input_required v) (ct_result_type v)]"
  have "read_input_required ?j (ct_result_type v) = Inr (ct_input_required v, ct_result_type v)"
    using ok by (intro read_input_required_written) (simp_all add: call_tool_result_ok_def codec_simps)
  moreover have "outcome_ok (ct_input_required v) (ct_result_type v)"
    using ok by (simp add: call_tool_result_ok_def)
  ultimately have "deserialize_call_tool_result ?j = Inr v"
    using js(2) by (simp add: deserialize_call_tool_result_def codec_simps err_flag)
  with js(1) show "\<exists>j. serialize_call_tool_result v = Inr j \<and> deserialize_call_tool_result j = Inr v"
    by (simp add: serialize_call_tool_result_def)
qed

definition get_prompt_result_ok :: "get_prompt_result \<Rightarrow> bool" where
  "get_prompt_result_ok v \<longleftrightarrow> list_all (\<lambda>m. content_ok (pm_content m)) (gp_messages v) \<and>
     outcome_ok (gp_input_required v) (gp_result_type v)"

interpretation get_prompt_codec:
  json_encoder serialize_get_prompt_result deserialize_get_prompt_result get_prompt_result_ok
proof
  fix v :: get_prompt_result
  assume ok: "get_prompt_result_ok v"
  then obtain js where js: "rtraverse serialize_prompt_message (gp_messages v) = Inr js"
      "rtraverse deserialize_prompt_message js = Inr (gp_messages v)"
    using prompt_message_codec.traverse_roundtrip by (auto simp: get_prompt_result_ok_def)
  let ?j = "build_object [put ''messages'' (JArray js), put_opt ''description'' JString (gp_description v),
    put_opt ''_meta'' (\<lambda>x. x) (gp_meta v), put_outcome (gp_input_required v) (gp_result_type v)]"
  have "read_input_required ?j (gp_result_type v) = Inr (gp_input_required v, gp_result_type v)"
    using ok by (intro read_input_required_written) (simp_all add: get_prompt_result_ok_def codec_simps)
  moreover have "outcome_ok (gp_input_required v) (gp_result_type v)"
    using ok by (simp add: get_prompt_result_ok_def)
  ultimately have "deserialize_get_prompt_result ?j = Inr v"
    using js(2) by (simp add: deserialize_get_prompt_result_def codec_simps)
  with js(1) show "\<exists>j. serialize_get_prompt_result v = Inr j \<and> deserialize_get_prompt_result j = Inr v"
    by (simp add: serialize_get_prompt_result_def)
qed

text \<open>The keys a listing uses besides the one of its items.\<close>

definition list_keys :: "string list" where
  "list_keys = [''nextCursor'', ''cacheHint'', ''ttlMs'', ''cacheScope'', ''_meta'', ''resultType'', ''etag'']"

context json_codec
begin

lemma list_result_roundtrip:
  assumes "list_all ok (lr_items v)" and key: "key \<notin> set list_keys"
  shows "deserialize_list_result key de (serialize_list_result key ser etag v) =
    Inr (v\<lparr>lr_cache_hint := normal_hint (lr_cache_hint v)\<rparr>)"
proof -
  have neq: "key \<noteq> ''nextCursor''" "key \<noteq> ''cacheHint''" "key \<noteq> ''ttlMs''" "key \<noteq> ''cacheScope''"
      "key \<noteq> ''_meta''" "key \<noteq> ''resultType''" "key \<noteq> ''etag''"
    using key by (auto simp: list_keys_def)
  note neq' = neq [symmetric]
  show ?thesis
    using assms(1)
    by (simp add: serialize_list_result_def deserialize_list_result_def write_list_common_def
        read_list_common_def codec_simps neq neq' traverse_map)
qed

end

definition read_resource_result_ok :: "read_resource_result \<Rightarrow> bool" where
  "read_resource_result_ok v \<longleftrightarrow> outcome_ok (rr_input_required v) (rr_result_type v)"

lemma read_resource_roundtrip:
  assumes ok: "read_resource_result_ok v"
  shows "deserialize_read_resource_result (serialize_read_resource_result etag v) =
    Inr (v\<lparr>rr_cache_hint := normal_hint (rr_cache_hint v)\<rparr>)"
proof -
  let ?j = "serialize_read_resource_result etag v"
  have rt: "(if rr_input_required v \<noteq> None then RtInputRequired else rr_result_type v) = rr_result_type v"
    using ok by (auto simp: read_resource_result_ok_def outcome_ok_def split: option.splits)
  have "read_input_required ?j (rr_result_type v) = Inr (rr_input_required v, rr_result_type v)"
    by (rule read_input_required_written)
      (use ok in \<open>cases "rr_input_required v";
        simp add: read_resource_result_ok_def serialize_read_resource_result_def write_list_common_def
          put_input_required_def codec_simps\<close>)+
  moreover have "read_result_type ?j = Inr (rr_result_type v)"
    unfolding serialize_read_resource_result_def rt
    by (cases "rr_input_required v")
      (simp_all add: write_list_common_def put_input_required_def codec_simps)
  moreover have "deserialize_cache_hint_compat ?j = Inr (normal_hint (rr_cache_hint v))"
    by (cases "rr_input_required v")
      (simp_all add: serialize_read_resource_result_def write_list_common_def put_input_required_def codec_simps)
  moreover have "items_or_empty ''contents'' deserialize_resource_contents ?j = Inr (rr_contents v)"
    by (cases "rr_input_required v")
      (simp_all add: serialize_read_resource_result_def write_list_common_def put_input_required_def codec_simps)
  moreover have "opt_json ''_meta'' ?j = Inr (rr_meta v)"
    by (cases "rr_input_required v")
      (simp_all add: serialize_read_resource_result_def write_list_common_def put_input_required_def codec_simps)
  ultimately show ?thesis by (simp add: deserialize_read_resource_result_def)
qed

interpretation complete_result_codec:
  json_codec serialize_complete_result deserialize_complete_result "\<lambda>_. True"
  by unfold_locales
    (simp add: serialize_complete_result_def deserialize_complete_result_def codec_simps)

interpretation cacheable_result_codec:
  json_codec serialize_cacheable_result deserialize_cacheable_result "\<lambda>_. True"
  by unfold_locales
    (simp add: serialize_cacheable_result_def deserialize_cacheable_result_def codec_simps)

interpretation initialize_result_codec:
  json_codec serialize_initialize_result deserialize_initialize_result
    "\<lambda>v. server_capabilities_ok (in_capabilities v) \<and> implementation_ok (in_server_info v)"
  by unfold_locales
    (simp add: serialize_initialize_result_def deserialize_initialize_result_def codec_simps)

lemma discover_result_roundtrip:
  assumes "server_capabilities_ok (di_capabilities v)" "implementation_ok (di_server_info v)"
  shows "deserialize_discover_result (serialize_discover_result v) =
    Inr (v\<lparr>di_cache_hint := normal_hint (di_cache_hint v)\<rparr>)"
proof -
  have "read_server_info (serialize_discover_result v) = Inr (di_server_info v)"
    using assms by (simp add: read_server_info_def serialize_discover_result_def codec_simps)
  then show ?thesis
    using assms
    by (simp add: serialize_discover_result_def deserialize_discover_result_def codec_simps)
qed

interpretation elicit_result_codec:
  json_codec serialize_elicit_result deserialize_elicit_result "\<lambda>v. ers_action v \<noteq> []"
  by unfold_locales
    (simp add: serialize_elicit_result_def deserialize_elicit_result_def codec_simps)

interpretation input_required_codec:
  json_codec serialize_input_required_result deserialize_input_required_result
    "\<lambda>v. input_requests_ok (iq_requests v)"
  by unfold_locales
    (simp add: serialize_input_required_result_def deserialize_input_required_result_def codec_simps)

end
