(* ===== verification/Tasks.thy ===== *)
theory Tasks
  imports Results
begin

text \<open>
  Results and parameters of the task methods (\<open>src/core/McpTypesTasks.cpp\<close>).  A created task is
  written twice, in the fields of the result and in its member \<open>task\<close>; the reader takes the fields
  first and falls back on the member.
\<close>

section \<open>\<open>tasks/get\<close>\<close>

record get_task_result =
  gt_task_id :: string
  gt_status :: string
  gt_task_result_type :: string
  gt_result :: "json option"
  gt_error_message :: "string option"
  gt_input_required :: "json option"
  gt_meta :: "json option"
  gt_status_message :: "string option"
  gt_created_at :: "string option"
  gt_last_updated_at :: "string option"
  gt_ttl_ms :: "i64 option"
  gt_poll_interval_ms :: "i64 option"
  gt_input_requests :: "input_requests option"
  gt_error :: "json option"

definition serialize_get_task_result :: "get_task_result \<Rightarrow> json" where
  "serialize_get_task_result v = build_object [
     put ''taskId'' (JString (gt_task_id v)),
     put ''status'' (JString (gt_status v)),
     put ''resultType'' (JString (gt_task_result_type v)),
     put_opt ''result'' (\<lambda>x. x) (gt_result v),
     put_opt ''errorMessage'' JString (gt_error_message v),
     put_opt ''inputRequired'' (\<lambda>x. x) (gt_input_required v),
     put_opt ''statusMessage'' JString (gt_status_message v),
     put_opt ''createdAt'' JString (gt_created_at v),
     put_opt ''lastUpdatedAt'' JString (gt_last_updated_at v),
     put_opt ''ttlMs'' JInt (gt_ttl_ms v),
     put_opt ''pollIntervalMs'' JInt (gt_poll_interval_ms v),
     put_opt ''inputRequests'' serialize_input_requests (gt_input_requests v),
     put_opt ''error'' (\<lambda>x. x) (gt_error v),
     put_opt ''_meta'' (\<lambda>x. x) (gt_meta v)]"

definition deserialize_get_task_result :: "json \<Rightarrow> get_task_result mres" where
  "deserialize_get_task_result j =
     rbind (req_string ''taskId'' j) (\<lambda>task_id.
     rbind (req_string ''status'' j) (\<lambda>status.
     rbind (opt_json ''result'' j) (\<lambda>result.
     rbind (opt_string ''errorMessage'' j) (\<lambda>error_message.
     rbind (opt_json ''inputRequired'' j) (\<lambda>input_required.
     rbind (opt_string ''statusMessage'' j) (\<lambda>status_message.
     rbind (opt_string ''createdAt'' j) (\<lambda>created.
     rbind (opt_string ''lastUpdatedAt'' j) (\<lambda>updated.
     rbind (opt_int ''ttlMs'' j) (\<lambda>ttl.
     rbind (opt_int ''pollIntervalMs'' j) (\<lambda>poll.
     rbind (opt_when is_object ''inputRequests'' deserialize_input_requests j) (\<lambda>requests.
     rbind (opt_json ''error'' j) (\<lambda>error.
     rbind (opt_json ''_meta'' j) (\<lambda>meta.
     Inr \<lparr>gt_task_id = task_id, gt_status = status,
          gt_task_result_type = string_or ''task'' ''resultType'' j, gt_result = result,
          gt_error_message = error_message, gt_input_required = input_required, gt_meta = meta,
          gt_status_message = status_message, gt_created_at = created,
          gt_last_updated_at = updated, gt_ttl_ms = ttl, gt_poll_interval_ms = poll,
          gt_input_requests = requests, gt_error = error\<rparr>)))))))))))))"

section \<open>A created task\<close>

record create_task_result =
  ck_meta :: "json option"
  ck_result_type :: result_type
  ck_task_id :: string
  ck_status :: string
  ck_created_at :: string
  ck_status_message :: "string option"
  ck_last_updated_at :: "string option"
  ck_ttl_ms :: "i64 option"
  ck_poll_interval_ms :: "i64 option"
  ck_input_requests :: "input_requests option"

definition task_object :: "create_task_result \<Rightarrow> json" where
  "task_object v = build_object [
     put ''taskId'' (JString (ck_task_id v)),
     put ''status'' (JString (ck_status v)),
     put ''createdAt'' (JString (ck_created_at v))]"

definition serialize_create_task_result :: "create_task_result \<Rightarrow> json" where
  "serialize_create_task_result v = build_object [
     put ''resultType'' (JString ''task''),
     put ''taskId'' (JString (ck_task_id v)),
     put ''status'' (JString (ck_status v)),
     put_opt ''statusMessage'' JString (ck_status_message v),
     put_if (ck_created_at v \<noteq> []) ''createdAt'' (JString (ck_created_at v)),
     put_opt ''lastUpdatedAt'' JString (ck_last_updated_at v),
     put_opt ''ttlMs'' JInt (ck_ttl_ms v),
     put_opt ''pollIntervalMs'' JInt (ck_poll_interval_ms v),
     put_opt ''inputRequests'' serialize_input_requests (ck_input_requests v),
     put ''task'' (task_object v),
     put_opt ''_meta'' (\<lambda>x. x) (ck_meta v)]"

text \<open>A string of the result, or of its member \<open>task\<close> when it is absent or empty.\<close>

definition string_or_task :: "string \<Rightarrow> json \<Rightarrow> string" where
  "string_or_task key j =
     (let s = string_or [] key j
      in case json_find ''task'' j of
           Some task \<Rightarrow> if is_object task \<and> s = [] then string_or [] key task else s
         | None \<Rightarrow> s)"

definition deserialize_create_task_result :: "json \<Rightarrow> create_task_result mres" where
  "deserialize_create_task_result j =
     rbind (opt_string ''statusMessage'' j) (\<lambda>status_message.
     rbind (opt_string ''lastUpdatedAt'' j) (\<lambda>updated.
     rbind (opt_int ''ttlMs'' j) (\<lambda>ttl.
     rbind (opt_int ''pollIntervalMs'' j) (\<lambda>poll.
     rbind (opt_when is_object ''inputRequests'' deserialize_input_requests j) (\<lambda>requests.
     rbind (opt_json ''_meta'' j) (\<lambda>meta.
     rbind (read_result_type j) (\<lambda>rt.
     Inr \<lparr>ck_meta = meta, ck_result_type = rt, ck_task_id = string_or_task ''taskId'' j,
          ck_status = string_or_task ''status'' j, ck_created_at = string_or_task ''createdAt'' j,
          ck_status_message = status_message, ck_last_updated_at = updated, ck_ttl_ms = ttl,
          ck_poll_interval_ms = poll, ck_input_requests = requests\<rparr>)))))))"

section \<open>Parameters\<close>

definition serialize_get_task_params :: "string \<Rightarrow> json" where
  "serialize_get_task_params task_id = build_object [put ''taskId'' (JString task_id)]"

definition deserialize_get_task_params :: "json \<Rightarrow> string mres" where
  "deserialize_get_task_params j = req_string ''taskId'' j"

record update_task_params =
  up_task_id :: string
  up_result :: "json option"
  up_input_responses :: "json option"

definition serialize_update_task_params :: "update_task_params \<Rightarrow> json" where
  "serialize_update_task_params v = build_object [
     put ''taskId'' (JString (up_task_id v)),
     put_opt ''result'' (\<lambda>x. x) (up_result v),
     put_opt ''inputResponses'' (\<lambda>x. x) (up_input_responses v)]"

definition deserialize_update_task_params :: "json \<Rightarrow> update_task_params mres" where
  "deserialize_update_task_params j =
     rbind (req_string ''taskId'' j) (\<lambda>task_id.
     rbind (opt_json ''result'' j) (\<lambda>result.
     rbind (opt_json ''inputResponses'' j) (\<lambda>responses.
     Inr \<lparr>up_task_id = task_id, up_result = result, up_input_responses = responses\<rparr>)))"

record cancel_task_params =
  ctp_task_id :: string
  ctp_reason :: "string option"

definition serialize_cancel_task_params :: "cancel_task_params \<Rightarrow> json" where
  "serialize_cancel_task_params v = build_object [
     put ''taskId'' (JString (ctp_task_id v)),
     put_opt ''reason'' JString (ctp_reason v)]"

definition deserialize_cancel_task_params :: "json \<Rightarrow> cancel_task_params mres" where
  "deserialize_cancel_task_params j =
     rbind (req_string ''taskId'' j) (\<lambda>task_id.
     rbind (opt_string ''reason'' j) (\<lambda>reason.
     Inr \<lparr>ctp_task_id = task_id, ctp_reason = reason\<rparr>))"

section \<open>Reading them back\<close>

lemma is_object_input_requests: "is_object (serialize_input_requests v)"
  by (simp add: serialize_input_requests_def)

lemmas input_requests_when [codec_simps] =
  input_requests_codec.read_when_opt [of _ is_object, OF _ is_object_input_requests]

interpretation get_task_result_codec:
  json_codec serialize_get_task_result deserialize_get_task_result
    "\<lambda>v. pred_option input_requests_ok (gt_input_requests v)"
  by unfold_locales
    (simp add: serialize_get_task_result_def deserialize_get_task_result_def codec_simps)

lemma string_or_task_found:
  "json_find key j = Some (JString s) \<Longrightarrow> json_find ''task'' j = Some t \<Longrightarrow> is_object t \<Longrightarrow>
   json_find key t = Some (JString s) \<Longrightarrow> string_or_task key j = s"
  "json_find key j = None \<Longrightarrow> json_find ''task'' j = Some t \<Longrightarrow> is_object t \<Longrightarrow>
   json_find key t = Some (JString s) \<Longrightarrow> string_or_task key j = s"
  by (simp_all add: string_or_task_def string_or_def)

definition create_task_result_ok :: "create_task_result \<Rightarrow> bool" where
  "create_task_result_ok v \<longleftrightarrow> ck_result_type v = RtTask \<and>
     pred_option input_requests_ok (ck_input_requests v)"

interpretation create_task_result_codec:
  json_codec serialize_create_task_result deserialize_create_task_result create_task_result_ok
proof
  fix v :: create_task_result
  assume ok: "create_task_result_ok v"
  let ?j = "serialize_create_task_result v"
  have task: "json_find ''task'' ?j = Some (task_object v)" "is_object (task_object v)"
    by (simp_all add: serialize_create_task_result_def task_object_def codec_simps)
  have "string_or_task ''taskId'' ?j = ck_task_id v" "string_or_task ''status'' ?j = ck_status v"
    by (rule string_or_task_found(1) [OF _ task];
        simp add: serialize_create_task_result_def task_object_def codec_simps)+
  moreover have "string_or_task ''createdAt'' ?j = ck_created_at v"
    by (cases "ck_created_at v = []")
      (rule string_or_task_found(2) [OF _ task] string_or_task_found(1) [OF _ task];
       simp add: serialize_create_task_result_def task_object_def codec_simps)+
  moreover have "read_result_type ?j = Inr (ck_result_type v)"
    using ok by (intro read_result_type_written)
      (simp add: serialize_create_task_result_def create_task_result_ok_def serialize_result_type_def
        codec_simps)
  ultimately show "deserialize_create_task_result ?j = Inr v"
    using ok by (simp add: deserialize_create_task_result_def create_task_result_ok_def)
      (simp add: serialize_create_task_result_def codec_simps)
qed

interpretation get_task_params_codec:
  json_codec serialize_get_task_params deserialize_get_task_params "\<lambda>_. True"
  by unfold_locales
    (simp add: serialize_get_task_params_def deserialize_get_task_params_def codec_simps)

interpretation update_task_params_codec:
  json_codec serialize_update_task_params deserialize_update_task_params "\<lambda>_. True"
  by unfold_locales
    (simp add: serialize_update_task_params_def deserialize_update_task_params_def codec_simps)

interpretation cancel_task_params_codec:
  json_codec serialize_cancel_task_params deserialize_cancel_task_params "\<lambda>_. True"
  by unfold_locales
    (simp add: serialize_cancel_task_params_def deserialize_cancel_task_params_def codec_simps)

text \<open>Read from an object without the fields \<open>taskId\<close>, \<open>status\<close> and \<open>createdAt\<close>, a created task takes them from
  the member \<open>task\<close>.\<close>

lemma created_task_fallback:
  assumes "json_find ''taskId'' j = None" "json_find ''status'' j = None" "json_find ''createdAt'' j = None"
    and "json_find ''task'' j = Some (task_object v)" and "deserialize_create_task_result j = Inr w"
  shows "ck_task_id w = ck_task_id v \<and> ck_status w = ck_status v \<and> ck_created_at w = ck_created_at v"
proof -
  have obj: "is_object (task_object v)" by (simp add: task_object_def)
  have "string_or_task ''taskId'' j = ck_task_id v" "string_or_task ''status'' j = ck_status v"
    "string_or_task ''createdAt'' j = ck_created_at v"
    using assms(1-3) by (intro string_or_task_found(2) [OF _ assms(4) obj]; simp add: task_object_def codec_simps)+
  then show ?thesis
    using assms(5) by (auto simp: deserialize_create_task_result_def rbind_eq_Inr_iff)
qed

end
