(* ===== verification/Skills.thy ===== *)
theory Skills
  imports Results
begin

text \<open>
  Skills and resource directories (\<open>src/core/McpTypesSkills.cpp\<close>).  The three listings write the
  fields \<open>ttlMs\<close> and \<open>cacheScope\<close> with their defaults when they are not set.
\<close>

section \<open>Skills\<close>

record skill_resource =
  skr_uri :: string
  skr_digest :: string
  skr_size :: i64

definition serialize_skill_resource :: "skill_resource \<Rightarrow> json" where
  "serialize_skill_resource v = build_object [
     put ''uri'' (JString (skr_uri v)),
     put ''digest'' (JString (skr_digest v)),
     put ''size'' (JInt (skr_size v))]"

definition deserialize_skill_resource :: "json \<Rightarrow> skill_resource mres" where
  "deserialize_skill_resource j =
     rbind (req_string ''uri'' j) (\<lambda>uri.
     rbind (req_string ''digest'' j) (\<lambda>digest.
     rbind (opt_when is_int ''size'' get_int j) (\<lambda>size.
     Inr \<lparr>skr_uri = uri, skr_digest = digest,
          skr_size = (case size of Some i \<Rightarrow> i | None \<Rightarrow> 0)\<rparr>)))"

datatype skill_resources = ResourceList "skill_resource list" | ResourceString string

fun serialize_skill_resources :: "skill_resources \<Rightarrow> json" where
  "serialize_skill_resources (ResourceString s) = JString s"
| "serialize_skill_resources (ResourceList rs) = JArray (map serialize_skill_resource rs)"

definition deserialize_skill_resources :: "json \<Rightarrow> skill_resources mres" where
  "deserialize_skill_resources j =
     (if is_string j then rmap ResourceString (get_string j)
      else if is_array j then
        rmap ResourceList (rbind (get_array j) (rtraverse deserialize_skill_resource))
      else throw DeserializeFailed
        (''DeserializeSkillResources: expected array or string, got '' @ json_type_name j))"

record skill =
  sk_uri :: string
  sk_frontmatter :: json
  sk_resources :: skill_resources
  sk_meta :: "json option"

definition default_skill :: skill where
  "default_skill = \<lparr>sk_uri = [], sk_frontmatter = JNull, sk_resources = ResourceList [], sk_meta = None\<rparr>"

definition serialize_skill :: "skill \<Rightarrow> json" where
  "serialize_skill v = build_object [
     put ''uri'' (JString (sk_uri v)),
     put ''frontmatter'' (sk_frontmatter v),
     put ''resources'' (serialize_skill_resources (sk_resources v)),
     put_opt ''_meta'' (\<lambda>x. x) (sk_meta v)]"

definition deserialize_skill :: "json \<Rightarrow> skill mres" where
  "deserialize_skill j =
     rbind (req_string ''uri'' j) (\<lambda>uri.
     rbind (opt_json ''frontmatter'' j) (\<lambda>fm.
     rbind (opt_with ''resources'' deserialize_skill_resources j) (\<lambda>rs.
     rbind (opt_json ''_meta'' j) (\<lambda>meta.
     Inr \<lparr>sk_uri = uri,
          sk_frontmatter = (case fm of Some v \<Rightarrow> v | None \<Rightarrow> sk_frontmatter default_skill),
          sk_resources = (case rs of Some v \<Rightarrow> v | None \<Rightarrow> sk_resources default_skill),
          sk_meta = meta\<rparr>))))"

section \<open>Directories\<close>

record directory_child =
  dc_uri :: string
  dc_name :: string
  dc_mime_type :: "string option"
  dc_meta :: "json option"

definition serialize_directory_child :: "directory_child \<Rightarrow> json" where
  "serialize_directory_child v = build_object [
     put ''uri'' (JString (dc_uri v)),
     put ''name'' (JString (dc_name v)),
     put_opt ''mimeType'' JString (dc_mime_type v),
     put_opt ''_meta'' (\<lambda>x. x) (dc_meta v)]"

definition deserialize_directory_child :: "json \<Rightarrow> directory_child mres" where
  "deserialize_directory_child j =
     rbind (req_string ''uri'' j) (\<lambda>uri.
     rbind (req_string ''name'' j) (\<lambda>name.
     rbind (opt_string ''mimeType'' j) (\<lambda>mime.
     rbind (opt_json ''_meta'' j) (\<lambda>meta.
     Inr \<lparr>dc_uri = uri, dc_name = name, dc_mime_type = mime, dc_meta = meta\<rparr>))))"

section \<open>Results\<close>

text \<open>The three results differ in what they carry: skills, one skill, or children.\<close>

record 'a skills_result =
  sl_items :: 'a
  sl_next_cursor :: "string option"
  sl_ttl_ms :: "i64 option"
  sl_cache_scope :: "string option"
  sl_meta :: "json option"
  sl_result_type :: result_type

definition put_ttl_and_scope :: "i64 option \<Rightarrow> string option \<Rightarrow> writer" where
  "put_ttl_and_scope ttl scope m =
     put ''cacheScope'' (JString (case scope of Some s \<Rightarrow> s | None \<Rightarrow> ''private''))
       (put ''ttlMs'' (JInt (case ttl of Some t \<Rightarrow> t | None \<Rightarrow> 0)) m)"

definition serialize_skills_list_result :: "skill list skills_result \<Rightarrow> json" where
  "serialize_skills_list_result v = build_object [
     put ''skills'' (JArray (map serialize_skill (sl_items v))),
     put_opt ''nextCursor'' JString (sl_next_cursor v),
     put_ttl_and_scope (sl_ttl_ms v) (sl_cache_scope v),
     put_opt ''_meta'' (\<lambda>x. x) (sl_meta v),
     put ''resultType'' (serialize_result_type (sl_result_type v))]"

definition deserialize_skills_list_result :: "json \<Rightarrow> skill list skills_result mres" where
  "deserialize_skills_list_result j =
     rbind (items_or_empty ''skills'' deserialize_skill j) (\<lambda>items.
     rbind (opt_string ''nextCursor'' j) (\<lambda>cursor.
     rbind (opt_int ''ttlMs'' j) (\<lambda>ttl.
     rbind (opt_string ''cacheScope'' j) (\<lambda>scope.
     rbind (opt_json ''_meta'' j) (\<lambda>meta.
     rbind (read_result_type j) (\<lambda>rt.
     Inr \<lparr>sl_items = items, sl_next_cursor = cursor, sl_ttl_ms = ttl, sl_cache_scope = scope,
          sl_meta = meta, sl_result_type = rt\<rparr>))))))"

definition serialize_skills_get_result :: "skill skills_result \<Rightarrow> json" where
  "serialize_skills_get_result v = build_object [
     put ''skill'' (serialize_skill (sl_items v)),
     put_ttl_and_scope (sl_ttl_ms v) (sl_cache_scope v),
     put_opt ''_meta'' (\<lambda>x. x) (sl_meta v),
     put ''resultType'' (serialize_result_type (sl_result_type v))]"

definition deserialize_skills_get_result :: "json \<Rightarrow> skill skills_result mres" where
  "deserialize_skills_get_result j =
     rbind (opt_with ''skill'' deserialize_skill j) (\<lambda>s.
     rbind (opt_int ''ttlMs'' j) (\<lambda>ttl.
     rbind (opt_string ''cacheScope'' j) (\<lambda>scope.
     rbind (opt_json ''_meta'' j) (\<lambda>meta.
     rbind (read_result_type j) (\<lambda>rt.
     Inr \<lparr>sl_items = (case s of Some v \<Rightarrow> v | None \<Rightarrow> default_skill), sl_next_cursor = None,
          sl_ttl_ms = ttl, sl_cache_scope = scope, sl_meta = meta, sl_result_type = rt\<rparr>)))))"

definition serialize_read_directory_result :: "directory_child list skills_result \<Rightarrow> json" where
  "serialize_read_directory_result v = build_object [
     put ''resources'' (JArray (map serialize_directory_child (sl_items v))),
     put_opt ''nextCursor'' JString (sl_next_cursor v),
     put_ttl_and_scope (sl_ttl_ms v) (sl_cache_scope v),
     put_opt ''_meta'' (\<lambda>x. x) (sl_meta v),
     put ''resultType'' (serialize_result_type (sl_result_type v))]"

definition deserialize_read_directory_result :: "json \<Rightarrow> directory_child list skills_result mres" where
  "deserialize_read_directory_result j =
     rbind (items_or_empty ''resources'' deserialize_directory_child j) (\<lambda>items.
     rbind (opt_string ''nextCursor'' j) (\<lambda>cursor.
     rbind (opt_int ''ttlMs'' j) (\<lambda>ttl.
     rbind (opt_string ''cacheScope'' j) (\<lambda>scope.
     rbind (opt_json ''_meta'' j) (\<lambda>meta.
     rbind (read_result_type j) (\<lambda>rt.
     Inr \<lparr>sl_items = items, sl_next_cursor = cursor, sl_ttl_ms = ttl, sl_cache_scope = scope,
          sl_meta = meta, sl_result_type = rt\<rparr>))))))"

section \<open>Parameters\<close>

record skills_get_params =
  sg_uri :: string
  sg_meta :: "request_meta option"

definition serialize_skills_get_params :: "skills_get_params \<Rightarrow> json mres" where
  "serialize_skills_get_params v =
     rbind (ser_opt serialize_request_meta (sg_meta v)) (\<lambda>meta.
     Inr (build_object [
       put ''uri'' (JString (sg_uri v)),
       put_opt ''_meta'' (\<lambda>x. x) meta]))"

definition deserialize_skills_get_params :: "json \<Rightarrow> skills_get_params mres" where
  "deserialize_skills_get_params j =
     rbind (req_string ''uri'' j) (\<lambda>uri.
     rbind (opt_with ''_meta'' deserialize_request_meta j) (\<lambda>meta.
     Inr \<lparr>sg_uri = uri, sg_meta = meta\<rparr>))"

record read_directory_params =
  rd_uri :: string
  rd_cursor :: "string option"
  rd_meta :: "request_meta option"

definition serialize_read_directory_params :: "read_directory_params \<Rightarrow> json mres" where
  "serialize_read_directory_params v =
     rbind (ser_opt serialize_request_meta (rd_meta v)) (\<lambda>meta.
     Inr (build_object [
       put ''uri'' (JString (rd_uri v)),
       put_opt ''cursor'' JString (rd_cursor v),
       put_opt ''_meta'' (\<lambda>x. x) meta]))"

definition deserialize_read_directory_params :: "json \<Rightarrow> read_directory_params mres" where
  "deserialize_read_directory_params j =
     rbind (req_string ''uri'' j) (\<lambda>uri.
     rbind (opt_string ''cursor'' j) (\<lambda>cursor.
     rbind (opt_with ''_meta'' deserialize_request_meta j) (\<lambda>meta.
     Inr \<lparr>rd_uri = uri, rd_cursor = cursor, rd_meta = meta\<rparr>)))"

section \<open>Reading them back\<close>

interpretation skill_resource_codec:
  json_codec serialize_skill_resource deserialize_skill_resource "\<lambda>_. True"
  by unfold_locales
    (simp add: serialize_skill_resource_def deserialize_skill_resource_def codec_simps read_when_def)

interpretation skill_resources_codec:
  json_codec serialize_skill_resources deserialize_skill_resources "\<lambda>_. True"
proof
  fix v :: skill_resources
  show "deserialize_skill_resources (serialize_skill_resources v) = Inr v"
    by (cases v) (simp_all add: deserialize_skill_resources_def skill_resource_codec.traverse_map)
qed

interpretation skill_codec: json_codec serialize_skill deserialize_skill "\<lambda>_. True"
  by unfold_locales
    (simp add: serialize_skill_def deserialize_skill_def codec_simps skill_resources_codec.de_ser read_with_def)

interpretation directory_child_codec:
  json_codec serialize_directory_child deserialize_directory_child "\<lambda>_. True"
  by unfold_locales
    (simp add: serialize_directory_child_def deserialize_directory_child_def codec_simps)

text \<open>What is not set is read with its default.\<close>

definition with_skill_defaults :: "'a skills_result \<Rightarrow> 'a skills_result" where
  "with_skill_defaults v = v\<lparr>
     sl_ttl_ms := Some (case sl_ttl_ms v of Some t \<Rightarrow> t | None \<Rightarrow> 0),
     sl_cache_scope := Some (case sl_cache_scope v of Some s \<Rightarrow> s | None \<Rightarrow> ''private'')\<rparr>"

lemma amap_find_put_ttl_and_scope [codec_simps]:
  "k \<noteq> ''ttlMs'' \<Longrightarrow> k \<noteq> ''cacheScope'' \<Longrightarrow> amap_find k (put_ttl_and_scope t s m) = amap_find k m"
  "amap_find ''ttlMs'' (put_ttl_and_scope t s m) = Some (JInt (case t of Some i \<Rightarrow> i | None \<Rightarrow> 0))"
  "amap_find ''cacheScope'' (put_ttl_and_scope t s m) =
     Some (JString (case s of Some c \<Rightarrow> c | None \<Rightarrow> ''private''))"
  by (simp_all add: put_ttl_and_scope_def codec_simps)

lemma read_some [simp]: "read_int k (Some (JInt i)) = Inr (Some i)" "read_string k (Some (JString s)) = Inr (Some s)"
  by (simp_all add: read_int_def read_string_def)

lemma skills_list_result_roundtrip:
  "deserialize_skills_list_result (serialize_skills_list_result v) = Inr (with_skill_defaults v)"
  by (cases v) (simp add: serialize_skills_list_result_def deserialize_skills_list_result_def codec_simps
      skill_codec.traverse_map with_skill_defaults_def)

lemma skills_get_result_roundtrip:
  "sl_next_cursor v = None \<Longrightarrow>
   deserialize_skills_get_result (serialize_skills_get_result v) = Inr (with_skill_defaults v)"
  by (cases v) (simp add: serialize_skills_get_result_def deserialize_skills_get_result_def codec_simps
      skill_codec.de_ser with_skill_defaults_def read_with_def)

lemma read_directory_result_roundtrip:
  "deserialize_read_directory_result (serialize_read_directory_result v) = Inr (with_skill_defaults v)"
  by (cases v) (simp add: serialize_read_directory_result_def deserialize_read_directory_result_def codec_simps
      directory_child_codec.traverse_map with_skill_defaults_def)

interpretation skills_get_params_codec:
  json_encoder serialize_skills_get_params deserialize_skills_get_params "\<lambda>v. pred_option request_meta_ok (sg_meta v)"
proof
  fix v :: skills_get_params
  assume "pred_option request_meta_ok (sg_meta v)"
  then obtain js where "ser_opt serialize_request_meta (sg_meta v) = Inr js"
      "read_with deserialize_request_meta js = Inr (sg_meta v)"
    using request_meta_codec.ser_opt_roundtrip by blast
  then show "\<exists>j. serialize_skills_get_params v = Inr j \<and> deserialize_skills_get_params j = Inr v"
    by (simp add: serialize_skills_get_params_def deserialize_skills_get_params_def codec_simps)
qed

interpretation read_directory_params_codec:
  json_encoder serialize_read_directory_params deserialize_read_directory_params "\<lambda>v. pred_option request_meta_ok (rd_meta v)"
proof
  fix v :: read_directory_params
  assume "pred_option request_meta_ok (rd_meta v)"
  then obtain js where "ser_opt serialize_request_meta (rd_meta v) = Inr js"
      "read_with deserialize_request_meta js = Inr (rd_meta v)"
    using request_meta_codec.ser_opt_roundtrip by blast
  then show "\<exists>j. serialize_read_directory_params v = Inr j \<and> deserialize_read_directory_params j = Inr v"
    by (simp add: serialize_read_directory_params_def deserialize_read_directory_params_def codec_simps)
qed

end
