(* ===== verification/Wire_Types.thy ===== *)
theory Wire_Types
  imports Tasks Skills
begin

text \<open>
  What the serializers of the protocol's types guarantee, stated over the types themselves: what is
  written is read back, for values the writer accepts, and what is read is valid.  The proofs are
  the facts of the codec interpretations of the component theories.
\<close>

text \<open>The content of a message is read back as it was written; \<open>content_ok\<close> says what the
  serializer accepts (the tag of the alternative, and for a link a name, a URI and no negative size).\<close>

theorem content_roundtrip:
  "content_ok c \<Longrightarrow> rbind (serialize_content c) deserialize_content = Inr c"
  by (rule content_codec.bind_roundtrip)

definition sample_link :: content_variant where
  "sample_link = ResourceLink \<lparr>rl_type = ''resource_link'', rl_uri = ''file:///a'', rl_name = ''a'',
     rl_title = None, rl_description = Some ''d'', rl_mime_type = None, rl_size = Some 7,
     rl_icons = [], rl_annotations = None, rl_meta = None\<rparr>"

lemma sample_link_ok: "content_ok sample_link"
  by (simp add: sample_link_def negative_size_def)

theorem content_roundtrip_witness:
  "rbind (serialize_content sample_link) deserialize_content = Inr sample_link"
  by (rule content_roundtrip) (rule sample_link_ok)

lemma received_types:
  "deserialize_text_content j = Inr a \<Longrightarrow> req_string ''type'' j = Inr (tc_type a)"
  "deserialize_image_content j = Inr b \<Longrightarrow> req_string ''type'' j = Inr (mc_type b)"
  "deserialize_audio_content j = Inr b \<Longrightarrow> req_string ''type'' j = Inr (mc_type b)"
  "deserialize_embedded_resource j = Inr e \<Longrightarrow> req_string ''type'' j = Inr (em_type e)"
  by (auto simp: deserialize_text_content_def deserialize_image_content_def deserialize_audio_content_def
      deserialize_embedded_resource_def
      rbind_eq_Inr_iff throw_def split: if_splits)

lemma nonempty_string_ok: "nonempty_string key j = Inr s \<Longrightarrow> s \<noteq> []"
  by (auto simp: nonempty_string_def throw_def split: option.splits json.splits if_splits)

lemma received_link:
  "deserialize_resource_link j = Inr l \<Longrightarrow>
     req_string ''type'' j = Inr (rl_type l) \<and> rl_name l \<noteq> [] \<and> rl_uri l \<noteq> [] \<and> \<not> negative_size (rl_size l)"
  by (auto simp: deserialize_resource_link_def rbind_eq_Inr_iff throw_def dest: nonempty_string_ok
      split: if_splits)

text \<open>Whatever content is accepted is valid: it carries the tag of its alternative, and a
  resource link has a name, a URI and a size that is not negative.\<close>

theorem received_content_valid:
  assumes "deserialize_content j = Inr c"
  shows "(case c of
     TextContent v \<Rightarrow> tc_type v = ''text''
   | ImageContent v \<Rightarrow> mc_type v = ''image''
   | AudioContent v \<Rightarrow> mc_type v = ''audio''
   | EmbeddedResource v \<Rightarrow> em_type v = ''resource''
   | ResourceLink v \<Rightarrow> rl_type v = ''resource_link'' \<and> rl_name v \<noteq> [] \<and> rl_uri v \<noteq> [] \<and>
       \<not> negative_size (rl_size v))"
  using assms
  by (auto simp: deserialize_content_def rbind_eq_Inr_iff rmap_eq_Inr_iff throw_def
      dest: received_types received_link split: if_splits)

theorem received_content_valid_witness:
  "deserialize_content (JObject [(''name'', JString ''n''), (''type'', JString ''resource_link''),
     (''uri'', JString ''u'')]) =
   Inr (ResourceLink \<lparr>rl_type = ''resource_link'', rl_uri = ''u'', rl_name = ''n'', rl_title = None,
     rl_description = None, rl_mime_type = None, rl_size = None, rl_icons = [], rl_annotations = None,
     rl_meta = None\<rparr>) \<and> ''n'' \<noteq> []"
proof -
  have "deserialize_content (JObject [(''name'', JString ''n''), (''type'', JString ''resource_link''),
     (''uri'', JString ''u'')]) =
   Inr (ResourceLink \<lparr>rl_type = ''resource_link'', rl_uri = ''u'', rl_name = ''n'', rl_title = None,
     rl_description = None, rl_mime_type = None, rl_size = None, rl_icons = [], rl_annotations = None,
     rl_meta = None\<rparr>)" by code_simp
  from this received_content_valid [OF this] show ?thesis by simp
qed

text \<open>The metadata of a request (progress token, protocol version, client, capabilities, log
  level, trace context and extensions) is read back as written; extensions may not use a key the
  protocol gives a meaning.\<close>

theorem request_meta_roundtrip:
  "request_meta_ok v \<Longrightarrow> rbind (serialize_request_meta v) deserialize_request_meta = Inr v"
  by (rule request_meta_codec.bind_roundtrip)

definition sample_meta :: request_meta where
  "sample_meta = \<lparr>rm_progress_token = Some (TokenInt 3), rm_protocol_version = ''2026-07-28'',
     rm_client_info = None, rm_client_capabilities = None, rm_log_level = None,
     rm_extensions = Some (JObject [(''com.example/x'', JNull)]), rm_traceparent = Some ''t'',
     rm_tracestate = None, rm_baggage = None\<rparr>"

lemma sample_meta_ok: "request_meta_ok sample_meta"
  by (simp add: sample_meta_def request_meta_ok_def extensions_ok_def request_meta_field_is_known_def amap_ok_def)

theorem request_meta_roundtrip_witness:
  "rbind (serialize_request_meta sample_meta) deserialize_request_meta = Inr sample_meta"
  by (rule request_meta_roundtrip) (rule sample_meta_ok)

text \<open>A listing of tools is read back as written, whether or not entity tags are switched on;
  only an absent cache hint comes back as the default hint.\<close>

theorem list_tools_roundtrip:
  "list_all tool_ok (lr_items v) \<Longrightarrow>
   deserialize_list_tools_result (serialize_list_tools_result etag v) =
     Inr (v\<lparr>lr_cache_hint := normal_hint (lr_cache_hint v)\<rparr>)"
  unfolding serialize_list_tools_result_def deserialize_list_tools_result_def
  by (rule tool_codec.list_result_roundtrip) (simp_all add: list_keys_def)

definition sample_tool :: tool where
  "sample_tool = \<lparr>tl_name = ''echo'', tl_title = None, tl_description = Some ''says it again'',
     tl_input_schema = JObject [(''type'', JString ''object'')], tl_output_schema = None,
     tl_annotations = None, tl_icons = [], tl_meta = None, tl_execution = None\<rparr>"

definition sample_list :: "tool list_result" where
  "sample_list = \<lparr>lr_items = [sample_tool], lr_next_cursor = Some ''n'', lr_cache_hint = None,
     lr_meta = None, lr_result_type = RtComplete\<rparr>"

theorem list_tools_roundtrip_witness:
  "deserialize_list_tools_result (serialize_list_tools_result True sample_list) =
     Inr (sample_list\<lparr>lr_cache_hint := normal_hint (lr_cache_hint sample_list)\<rparr>)"
  by (rule list_tools_roundtrip) (simp add: sample_list_def sample_tool_def tool_ok_def)

text \<open>The outcome of a tool call, an error or a request for input included, is read back as
  written.\<close>

theorem call_tool_result_roundtrip:
  "call_tool_result_ok v \<Longrightarrow> rbind (serialize_call_tool_result v) deserialize_call_tool_result = Inr v"
  by (rule call_tool_codec.bind_roundtrip)

definition sample_call_result :: call_tool_result where
  "sample_call_result = \<lparr>ct_content = [sample_link], ct_structured = None, ct_is_error = True,
     ct_input_required = Some \<lparr>iq_requests = [(''k'', \<lparr>ir_method = ''roots/list'', ir_params = JObject []\<rparr>)],
       iq_request_state = Some ''s''\<rparr>, ct_meta = None, ct_result_type = RtInputRequired\<rparr>"

theorem call_tool_result_roundtrip_witness:
  "rbind (serialize_call_tool_result sample_call_result) deserialize_call_tool_result =
     Inr sample_call_result"
  by (rule call_tool_result_roundtrip)
    (simp add: sample_call_result_def call_tool_result_ok_def sample_link_ok outcome_ok_def
      input_requests_ok_def input_request_ok_def amap_ok_def)

text \<open>Reading a resource: the contents, the hint and the requests for input of the answer are
  read back as written, with or without entity tags.\<close>

theorem read_resource_result_roundtrip:
  "read_resource_result_ok v \<Longrightarrow>
   deserialize_read_resource_result (serialize_read_resource_result etag v) =
     Inr (v\<lparr>rr_cache_hint := normal_hint (rr_cache_hint v)\<rparr>)"
  by (rule read_resource_roundtrip)

theorem read_resource_result_roundtrip_witness:
  "deserialize_read_resource_result (serialize_read_resource_result True
     \<lparr>rr_contents = [], rr_cache_hint = None, rr_input_required = None, rr_meta = None,
      rr_result_type = RtComplete\<rparr>) =
     Inr (\<lparr>rr_contents = [], rr_cache_hint = None, rr_input_required = None, rr_meta = None,
      rr_result_type = RtComplete\<rparr>\<lparr>rr_cache_hint := normal_hint None\<rparr>)"
  using read_resource_result_roundtrip [of "\<lparr>rr_contents = [], rr_cache_hint = None,
      rr_input_required = None, rr_meta = None, rr_result_type = RtComplete\<rparr>" True]
  by (simp add: read_resource_result_ok_def outcome_ok_def)

text \<open>The result that announces a task is read back as written; only its result type is fixed.\<close>

theorem create_task_result_roundtrip:
  "create_task_result_ok v \<Longrightarrow>
   deserialize_create_task_result (serialize_create_task_result v) = Inr v"
  by (rule create_task_result_codec.de_ser)

definition sample_task :: create_task_result where
  "sample_task = \<lparr>ck_meta = None, ck_result_type = RtTask, ck_task_id = ''t1'', ck_status = ''working'',
     ck_created_at = [], ck_status_message = None, ck_last_updated_at = None, ck_ttl_ms = Some 60000,
     ck_poll_interval_ms = None, ck_input_requests = None\<rparr>"

theorem create_task_result_roundtrip_witness:
  "deserialize_create_task_result (serialize_create_task_result sample_task) = Inr sample_task"
  by (rule create_task_result_roundtrip) (simp add: sample_task_def create_task_result_ok_def)

end
