(* ===== verification/Json_Rpc.thy ===== *)
theory Json_Rpc
  imports Json_Fields
begin

text \<open>
  JSON-RPC messages (\<open>include/mcp/JsonRpc.hpp\<close>, \<open>src/core/JsonRpc.cpp\<close>): the four kinds of message,
  their serializers and deserializers, the transport of \<open>meta\<close> inside \<open>params\<close>, and the dispatch of
  \<open>DeserializeMessage\<close>.
\<close>

section \<open>Messages\<close>

datatype request_id = IdInt i64 | IdString string

record error_data =
  ed_code :: error_code
  ed_message :: string
  ed_data :: "json option"

record rpc_request =
  rq_jsonrpc :: string
  rq_id :: request_id
  rq_method :: string
  rq_params :: "json option"
  rq_meta :: "json option"
  rq_session :: string

record rpc_notification =
  nt_jsonrpc :: string
  nt_method :: string
  nt_params :: "json option"
  nt_meta :: "json option"
  nt_session :: string

record rpc_response =
  rs_jsonrpc :: string
  rs_id :: request_id
  rs_result :: json
  rs_session :: string

record rpc_error_response =
  er_jsonrpc :: string
  er_id :: "request_id option"
  er_error :: error_data
  er_session :: string

datatype rpc_message =
    MsgRequest rpc_request
  | MsgNotification rpc_notification
  | MsgResponse rpc_response
  | MsgError rpc_error_response

fun is_request :: "rpc_message \<Rightarrow> bool" where
  "is_request (MsgRequest _) = True" | "is_request _ = False"

fun is_notification :: "rpc_message \<Rightarrow> bool" where
  "is_notification (MsgNotification _) = True" | "is_notification _ = False"

fun is_response :: "rpc_message \<Rightarrow> bool" where
  "is_response (MsgResponse _) = True" | "is_response _ = False"

fun is_error :: "rpc_message \<Rightarrow> bool" where
  "is_error (MsgError _) = True" | "is_error _ = False"

fun as_request :: "rpc_message \<Rightarrow> rpc_request option" where
  "as_request (MsgRequest r) = Some r" | "as_request _ = None"

fun as_notification :: "rpc_message \<Rightarrow> rpc_notification option" where
  "as_notification (MsgNotification r) = Some r" | "as_notification _ = None"

fun as_response :: "rpc_message \<Rightarrow> rpc_response option" where
  "as_response (MsgResponse r) = Some r" | "as_response _ = None"

fun as_error :: "rpc_message \<Rightarrow> rpc_error_response option" where
  "as_error (MsgError r) = Some r" | "as_error _ = None"

section \<open>Versions and \<open>meta\<close>\<close>

definition json_rpc_version :: string where "json_rpc_version = ''2.0''"

definition validate_version :: "string \<Rightarrow> unit mres" where
  "validate_version ver =
     (if ver \<noteq> json_rpc_version then throw InvalidRequest
        (''JSON-RPC version mismatch: got '' @ [chr 39] @ ver @ [chr 39] @ '', expected '' @ [chr 39] @
         json_rpc_version @ [chr 39])
      else Inr ())"

text \<open>\<open>MergeMetaIntoParams\<close>: the new value of the slot.\<close>

definition merge_meta_into_params :: "json \<Rightarrow> json \<Rightarrow> json mres" where
  "merge_meta_into_params slot meta =
     (let slot' = (if is_object slot then slot else JObject [])
      in case json_find ''_meta'' slot' of
           Some (JObject pm) \<Rightarrow>
             rbind (get_object meta) (\<lambda>mm.
               json_set ''_meta'' (JObject (foldl (\<lambda>m (k, v). amap_put k v m) pm mm)) slot')
         | _ \<Rightarrow> json_set ''_meta'' meta slot')"

text \<open>\<open>ExtractMetaFromParams\<close>: the rest of the parameters and the meta data taken out of them.\<close>

definition extract_meta_from_params :: "json option \<Rightarrow> json option \<times> json option" where
  "extract_meta_from_params params =
     (case params of
        Some (JObject m) \<Rightarrow>
          (case amap_find ''_meta'' m of
             None \<Rightarrow> (params, None)
           | Some meta \<Rightarrow> (Some (JObject (amap_erase ''_meta'' m)), Some meta))
      | _ \<Rightarrow> (params, None))"

section \<open>The parts of a message\<close>

fun request_id_to_json :: "request_id \<Rightarrow> json" where
  "request_id_to_json (IdInt i) = JInt i"
| "request_id_to_json (IdString s) = JString s"

definition request_id_from_json :: "json \<Rightarrow> request_id mres" where
  "request_id_from_json j = (if is_int j then rmap IdInt (get_int j) else rmap IdString (get_string j))"

definition serialize_error_data :: "error_data \<Rightarrow> json" where
  "serialize_error_data v = build_object [
     put ''code'' (JInt (scast (ed_code v))),
     put ''message'' (JString (ed_message v)),
     put_opt ''data'' (\<lambda>x. x) (ed_data v)]"

definition deserialize_error_data :: "json \<Rightarrow> error_data mres" where
  "deserialize_error_data j =
     rbind (req_with ''code'' get_int j) (\<lambda>code.
     if sint code < - (2 ^ 31) \<or> 2 ^ 31 - 1 < sint code then throw DeserializeFailed
       (''DeserializeErrorData: error code '' @ dec_int (sint code) @
        '' is outside the representable McpErrorCode range'')
     else rbind (req_string ''message'' j) (\<lambda>message.
          rbind (opt_json ''data'' j) (\<lambda>data.
          Inr \<lparr>ed_code = scast code, ed_message = message, ed_data = data\<rparr>)))"

text \<open>The common end of the serializers of a request and of a notification.\<close>

definition with_meta :: "json option \<Rightarrow> json \<Rightarrow> json mres" where
  "with_meta meta obj =
     (case meta of
        None \<Rightarrow> Inr obj
      | Some m \<Rightarrow> rbind (json_index ''params'' obj) (\<lambda>(obj', slot).
          rbind (merge_meta_into_params slot m) (\<lambda>p. json_set ''params'' p obj')))"

definition serialize_request :: "rpc_request \<Rightarrow> json mres" where
  "serialize_request v = with_meta (rq_meta v) (build_object [
     put ''jsonrpc'' (JString json_rpc_version),
     put ''id'' (request_id_to_json (rq_id v)),
     put ''method'' (JString (rq_method v)),
     put_opt ''params'' (\<lambda>x. x) (rq_params v)])"

definition deserialize_request :: "json \<Rightarrow> rpc_request mres" where
  "deserialize_request j =
     rbind (req_string ''jsonrpc'' j) (\<lambda>ver.
     rbind (validate_version ver) (\<lambda>_.
     case json_find ''id'' j of
       None \<Rightarrow> throw InvalidRequest ''JSON-RPC request id must not be null (JSON-RPC 2.0 section 5.1)''
     | Some id_value \<Rightarrow>
         if is_null id_value then throw InvalidRequest
           ''JSON-RPC request id must not be null (JSON-RPC 2.0 section 5.1)''
         else
           rbind (request_id_from_json id_value) (\<lambda>rid.
           rbind (req_string ''method'' j) (\<lambda>m.
           rbind (opt_json ''params'' j) (\<lambda>params.
           let (params', meta) = extract_meta_from_params params
           in Inr \<lparr>rq_jsonrpc = ver, rq_id = rid, rq_method = m, rq_params = params',
                   rq_meta = meta, rq_session = []\<rparr>)))))"

definition serialize_notification :: "rpc_notification \<Rightarrow> json mres" where
  "serialize_notification v = with_meta (nt_meta v) (build_object [
     put ''jsonrpc'' (JString json_rpc_version),
     put ''method'' (JString (nt_method v)),
     put_opt ''params'' (\<lambda>x. x) (nt_params v)])"

definition deserialize_notification :: "json \<Rightarrow> rpc_notification mres" where
  "deserialize_notification j =
     rbind (req_string ''jsonrpc'' j) (\<lambda>ver.
     rbind (validate_version ver) (\<lambda>_.
     rbind (req_string ''method'' j) (\<lambda>m.
     rbind (opt_json ''params'' j) (\<lambda>params.
     let (params', meta) = extract_meta_from_params params
     in Inr \<lparr>nt_jsonrpc = ver, nt_method = m, nt_params = params', nt_meta = meta, nt_session = []\<rparr>))))"

definition serialize_response :: "rpc_response \<Rightarrow> json" where
  "serialize_response v = build_object [
     put ''jsonrpc'' (JString json_rpc_version),
     put ''id'' (request_id_to_json (rs_id v)),
     put ''result'' (rs_result v)]"

definition deserialize_response :: "json \<Rightarrow> rpc_response mres" where
  "deserialize_response j =
     rbind (req_string ''jsonrpc'' j) (\<lambda>ver.
     rbind (validate_version ver) (\<lambda>_.
     rbind (req_with ''id'' request_id_from_json j) (\<lambda>rid.
     rbind (req_with ''result'' Inr j) (\<lambda>result.
     Inr \<lparr>rs_jsonrpc = ver, rs_id = rid, rs_result = result, rs_session = []\<rparr>))))"

definition serialize_error_response :: "rpc_error_response \<Rightarrow> json" where
  "serialize_error_response v = build_object [
     put ''jsonrpc'' (JString json_rpc_version),
     put ''id'' (case er_id v of Some i \<Rightarrow> request_id_to_json i | None \<Rightarrow> JNull),
     put ''error'' (serialize_error_data (er_error v))]"

definition deserialize_error_response :: "json \<Rightarrow> rpc_error_response mres" where
  "deserialize_error_response j =
     rbind (req_string ''jsonrpc'' j) (\<lambda>ver.
     rbind (validate_version ver) (\<lambda>_.
     rbind (opt_when (\<lambda>v. \<not> is_null v) ''id'' request_id_from_json j) (\<lambda>rid.
     rbind (req_with ''error'' deserialize_error_data j) (\<lambda>err.
     Inr \<lparr>er_jsonrpc = ver, er_id = rid, er_error = err, er_session = []\<rparr>))))"

section \<open>Whole messages\<close>

fun message_to_json :: "rpc_message \<Rightarrow> json mres" where
  "message_to_json (MsgRequest v) = serialize_request v"
| "message_to_json (MsgNotification v) = serialize_notification v"
| "message_to_json (MsgResponse v) = Inr (serialize_response v)"
| "message_to_json (MsgError v) = Inr (serialize_error_response v)"

definition serialize_message :: "rpc_message \<Rightarrow> string mres" where
  "serialize_message msg = rmap (dump (- 1)) (message_to_json msg)"

definition present :: "bool \<Rightarrow> string" where
  "present b = (if b then ''present'' else ''absent'')"

definition dispatch_message :: "json \<Rightarrow> rpc_message mres" where
  "dispatch_message jv =
     (let has_method = json_contains ''method'' jv;
          has_result = json_contains ''result'' jv;
          has_error = json_contains ''error'' jv;
          has_id = (case json_find ''id'' jv of Some v \<Rightarrow> \<not> is_null v | None \<Rightarrow> False)
      in if has_method \<and> has_id then rmap MsgRequest (deserialize_request jv)
         else if has_method then rmap MsgNotification (deserialize_notification jv)
         else if has_result \<and> \<not> has_error then rmap MsgResponse (deserialize_response jv)
         else if has_error \<and> \<not> has_result then rmap MsgError (deserialize_error_response jv)
         else if has_result \<and> has_error then throw InvalidRequest
           (''JSON-RPC message has both '' @ [chr 39] @ ''result'' @ [chr 39] @ '' and '' @ [chr 39] @ ''error'' @ [chr 39] @ '' fields'')
         else throw InvalidRequest
           (''unknown JSON-RPC message type: method='' @ present has_method @ '', result='' @
            present has_result @ '', error='' @ present has_error))"

definition deserialize_message :: "string \<Rightarrow> rpc_message mres" where
  "deserialize_message text = rbind (parse_document text) dispatch_message"

section \<open>What is written fits into a document\<close>

definition members_fit :: "nat \<Rightarrow> members \<Rightarrow> bool" where
  "members_fit l m \<longleftrightarrow> amap_ok m \<and> list_all (\<lambda>kv. utf8_valid (fst kv) \<and> fits l (snd kv)) m"

lemma fits_object: "l < max_depth \<Longrightarrow> fits l (JObject m) \<longleftrightarrow> members_fit (Suc l) m"
proof -
  assume l: "l < max_depth"
  have "Suc l + Max (insert 0 (set (map (\<lambda>kv. json_depth (snd kv)) m))) \<le> max_depth"
    if "list_all (\<lambda>kv. Suc l + json_depth (snd kv) \<le> max_depth) m"
    using depth_list_le [of "Suc l" snd m] that l by simp
  moreover have "Suc l + json_depth (snd kv) \<le> max_depth"
    if "l + json_depth (JObject m) \<le> max_depth" "kv \<in> set m" for kv
    using depth_member [OF that(2)] that(1) by linarith
  ultimately show ?thesis
    by (auto simp: fits_def members_fit_def list_all_iff) 
qed

lemma members_fit_Nil [simp]: "members_fit l []"
  by (simp add: members_fit_def)

lemma members_fit_put [simp]:
  "members_fit l m \<Longrightarrow> utf8_valid k \<Longrightarrow> fits l v \<Longrightarrow> members_fit l (amap_put k v m)"
  by (simp add: members_fit_def amap_put_all)

lemma members_fit_fields [simp]:
  "members_fit l m \<Longrightarrow> utf8_valid k \<Longrightarrow> fits l v \<Longrightarrow> members_fit l (put k v m)"
  "members_fit l m \<Longrightarrow> utf8_valid k \<Longrightarrow> pred_option (\<lambda>x. fits l (f x)) x \<Longrightarrow> members_fit l (put_opt k f x m)"
  by (auto simp: put_def put_opt_def split: option.split)

lemma members_fit_find: "members_fit l m \<Longrightarrow> amap_find k m = Some v \<Longrightarrow> fits l v"
  by (auto simp: members_fit_def list_all_iff dest!: amap_find_Some_in)

lemma utf8_ascii: "list_all (\<lambda>c. byte_of c < 0x80) s \<Longrightarrow> utf8_valid s"
  by (induction s) (simp_all flip: utf8_scan_ok_iff)

lemma rpc_keys [simp]:
  "utf8_valid ''jsonrpc''" "utf8_valid ''id''" "utf8_valid ''method''" "utf8_valid ''params''"
  "utf8_valid ''result''" "utf8_valid ''error''" "utf8_valid ''code''" "utf8_valid ''message''"
  "utf8_valid ''data''" "utf8_valid ''_meta''" "utf8_valid json_rpc_version"
  by (rule utf8_ascii, simp add: byte_of_def json_rpc_version_def)+

lemma fits_scalars [simp]:
  "fits l JNull \<longleftrightarrow> l \<le> max_depth" "fits l (JInt i) \<longleftrightarrow> l \<le> max_depth"
  "fits l (JString s) \<longleftrightarrow> utf8_valid s \<and> l \<le> max_depth"
  by (auto simp: fits_def)

lemma fits_text: "fits 0 j \<Longrightarrow> parse_document (dump indent j) = Inr j"
  by (intro parse_document_dump) (simp_all add: fits_def json_clean_def)

section \<open>Parameters and meta data\<close>

text \<open>Parameters without a member \<open>_meta\<close> of their own.\<close>

fun params_plain :: "json \<Rightarrow> bool" where
  "params_plain (JObject m) = (amap_find ''_meta'' m = None)"
| "params_plain _ = True"

text \<open>
  What a reader gets for the parameters: meta data travels inside them, so parameters that are
  missing, or no object, become an object.
\<close>

definition normal_params :: "json option \<Rightarrow> json option \<Rightarrow> json option" where
  "normal_params params meta =
     (case meta of
        None \<Rightarrow> params
      | Some _ \<Rightarrow> (case params of Some (JObject m) \<Rightarrow> params | _ \<Rightarrow> Some (JObject [])))"

lemma extract_none: "pred_option params_plain p \<Longrightarrow> extract_meta_from_params p = (p, None)"
  by (cases p) (auto simp: extract_meta_from_params_def split: json.split)

lemma extract_put:
  "amap_ok m \<Longrightarrow> amap_find ''_meta'' m = None \<Longrightarrow>
   extract_meta_from_params (Some (JObject (amap_put ''_meta'' v m))) = (Some (JObject m), Some v)"
  by (simp add: extract_meta_from_params_def amap_put_fresh_erase)

lemma with_meta_written:
  assumes p: "pred_option params_plain (amap_find ''params'' M)"
    and M: "members_fit 1 M" and meta: "pred_option (fits 2) meta"
  shows "\<exists>M'. with_meta meta (JObject M) = Inr (JObject M') \<and> members_fit 1 M' \<and>
    (\<forall>k. k \<noteq> ''params'' \<longrightarrow> amap_find k M' = amap_find k M) \<and>
    extract_meta_from_params (amap_find ''params'' M') =
      (normal_params (amap_find ''params'' M) meta, meta)"
proof (cases meta)
  case None
  with p M show ?thesis by (simp add: with_meta_def extract_none normal_params_def)
next
  case (Some v)
  define E where "E = amap_emplace ''params'' JNull M"
  define slot where "slot = (case amap_find ''params'' M of Some x \<Rightarrow> x | None \<Rightarrow> JNull)"
  define m where "m = (case slot of JObject m \<Rightarrow> m | _ \<Rightarrow> [])"
  have lim: "1 < max_depth" by (simp add: max_depth_def)
  have "members_fit 2 m"
    using members_fit_find [OF M, of "''params''"] fits_object [OF lim]
    by (auto simp: m_def slot_def numeral_2_eq_2 split: json.split option.split)
  then have m: "members_fit 2 m" "amap_ok m" by (simp_all add: members_fit_def)
  have none: "amap_find ''_meta'' m = None"
    using p by (auto simp: m_def slot_def split: json.split option.splits)
  have merge: "merge_meta_into_params slot v = Inr (JObject (amap_put ''_meta'' v m))"
    using none by (cases slot) (simp_all add: merge_meta_into_params_def m_def json_set_def)
  have E: "amap_find ''params'' E = Some slot" "members_fit 1 E"
      "\<And>k. k \<noteq> ''params'' \<Longrightarrow> amap_find k E = amap_find k M"
    using M lim by (auto simp: E_def slot_def amap_emplace_def split: option.split)
  have "json_index ''params'' (JObject M) = Inr (JObject E, slot)"
    using E(1) by (simp add: json_index_def Let_def del: amap_find_emplace flip: E_def)
  then have res: "with_meta meta (JObject M) =
      Inr (JObject (amap_put ''params'' (JObject (amap_put ''_meta'' v m)) E))"
    using merge by (simp add: Some with_meta_def json_set_def)
  have "fits 1 (JObject (amap_put ''_meta'' v m))"
    using m(1) meta Some fits_object [OF lim] by (simp add: numeral_2_eq_2)
  moreover have "normal_params (amap_find ''params'' M) meta = Some (JObject m)"
    using Some by (auto simp: normal_params_def m_def slot_def split: option.split json.split)
  ultimately show ?thesis
    using res E m(2) none by (simp add: extract_put Some)
qed

section \<open>Round trips\<close>

lemma request_id_read: "request_id_from_json (request_id_to_json i) = Inr i"
  by (cases i) (simp_all add: request_id_from_json_def)

lemma request_id_not_null [simp]: "\<not> is_null (request_id_to_json i)"
  by (cases i) simp_all

interpretation error_data_codec: json_codec serialize_error_data deserialize_error_data "\<lambda>_. True"
proof
  fix v :: error_data
  have "sint (scast (ed_code v) :: i64) = sint (ed_code v)"
    by (simp add: sint_up_scast is_up)
  moreover have "- (2 ^ 31) \<le> sint (ed_code v) \<and> sint (ed_code v) < 2 ^ 31"
    using sint_range_size [of "ed_code v"] by (simp add: word_size)
  moreover have "scast (scast (ed_code v) :: i64) = ed_code v"
    by (simp add: scast_up_scast_id is_up)
  ultimately show "deserialize_error_data (serialize_error_data v) = Inr v"
    by (simp add: serialize_error_data_def deserialize_error_data_def codec_simps)
qed

fun id_utf8 :: "request_id \<Rightarrow> bool" where
  "id_utf8 (IdInt i) = True" | "id_utf8 (IdString s) = utf8_valid s"

text \<open>The parts of a message that a text can carry, and what is left of a message on the wire.\<close>

fun message_wf :: "rpc_message \<Rightarrow> bool" where
  "message_wf (MsgRequest v) =
     (id_utf8 (rq_id v) \<and> utf8_valid (rq_method v) \<and>
      pred_option (\<lambda>p. fits 1 p \<and> params_plain p) (rq_params v) \<and> pred_option (fits 2) (rq_meta v))"
| "message_wf (MsgNotification v) =
     (utf8_valid (nt_method v) \<and>
      pred_option (\<lambda>p. fits 1 p \<and> params_plain p) (nt_params v) \<and> pred_option (fits 2) (nt_meta v))"
| "message_wf (MsgResponse v) = (id_utf8 (rs_id v) \<and> fits 1 (rs_result v))"
| "message_wf (MsgError v) =
     (pred_option id_utf8 (er_id v) \<and> utf8_valid (ed_message (er_error v)) \<and>
      pred_option (fits 2) (ed_data (er_error v)))"

fun normal_message :: "rpc_message \<Rightarrow> rpc_message" where
  "normal_message (MsgRequest v) = MsgRequest (v\<lparr>rq_jsonrpc := json_rpc_version,
     rq_params := normal_params (rq_params v) (rq_meta v), rq_session := []\<rparr>)"
| "normal_message (MsgNotification v) = MsgNotification (v\<lparr>nt_jsonrpc := json_rpc_version,
     nt_params := normal_params (nt_params v) (nt_meta v), nt_session := []\<rparr>)"
| "normal_message (MsgResponse v) = MsgResponse (v\<lparr>rs_jsonrpc := json_rpc_version, rs_session := []\<rparr>)"
| "normal_message (MsgError v) = MsgError (v\<lparr>er_jsonrpc := json_rpc_version, er_session := []\<rparr>)"

lemma req_with_member: "amap_find k M = Some v \<Longrightarrow> req_with k f (JObject M) = f v"
  by (simp add: req_with_def json_at_def lookup_required_def)

lemma request_roundtrip:
  assumes "message_wf (MsgRequest v)"
  shows "\<exists>j. serialize_request v = Inr j \<and> fits 0 j \<and>
    dispatch_message j = Inr (normal_message (MsgRequest v))"
proof -
  define M where "M = foldl (\<lambda>m w. w m) [] [put ''jsonrpc'' (JString json_rpc_version),
    put ''id'' (request_id_to_json (rq_id v)), put ''method'' (JString (rq_method v)),
    put_opt ''params'' (\<lambda>x. x) (rq_params v)]"
  have fin: "amap_find ''jsonrpc'' M = Some (JString json_rpc_version)"
      "amap_find ''id'' M = Some (request_id_to_json (rq_id v))"
      "amap_find ''method'' M = Some (JString (rq_method v))" "amap_find ''params'' M = rq_params v"
    by (simp_all add: M_def codec_simps)
  have "fits 1 (request_id_to_json (rq_id v))"
    using assms by (cases "rq_id v") (simp_all add: max_depth_def)
  moreover have "pred_option (fits 1) (rq_params v)" using assms by (cases "rq_params v") auto
  ultimately have "members_fit 1 M" using assms by (simp add: M_def max_depth_def)
  moreover have "pred_option params_plain (amap_find ''params'' M)"
    using assms fin by (cases "rq_params v") auto
  moreover have "pred_option (fits 2) (rq_meta v)" using assms by simp
  ultimately obtain M' where M': "with_meta (rq_meta v) (JObject M) = Inr (JObject M')" "members_fit 1 M'"
      "\<And>k. k \<noteq> ''params'' \<Longrightarrow> amap_find k M' = amap_find k M"
      "extract_meta_from_params (amap_find ''params'' M') = (normal_params (rq_params v) (rq_meta v), rq_meta v)"
    using with_meta_written [of M "rq_meta v"] fin(4) by metis
  have "serialize_request v = Inr (JObject M')"
    using M'(1) by (simp add: serialize_request_def build_object_def M_def)
  moreover have "fits 0 (JObject M')" using M'(2) fits_object [of 0 M'] by (simp add: max_depth_def)
  moreover have "deserialize_request (JObject M') = Inr (v\<lparr>rq_jsonrpc := json_rpc_version,
      rq_params := normal_params (rq_params v) (rq_meta v), rq_session := []\<rparr>)"
    using M'(4) by (simp add: deserialize_request_def req_with_member M'(3) fin validate_version_def
        request_id_read opt_json_def)
  ultimately show ?thesis
    by (simp add: dispatch_message_def json_contains_def M'(3) fin Let_def)
qed

lemma notification_roundtrip:
  assumes "message_wf (MsgNotification v)"
  shows "\<exists>j. serialize_notification v = Inr j \<and> fits 0 j \<and>
    dispatch_message j = Inr (normal_message (MsgNotification v))"
proof -
  define M where "M = foldl (\<lambda>m w. w m) [] [put ''jsonrpc'' (JString json_rpc_version),
    put ''method'' (JString (nt_method v)), put_opt ''params'' (\<lambda>x. x) (nt_params v)]"
  have fin: "amap_find ''jsonrpc'' M = Some (JString json_rpc_version)"
      "amap_find ''id'' M = None"
      "amap_find ''method'' M = Some (JString (nt_method v))" "amap_find ''params'' M = nt_params v"
    by (simp_all add: M_def codec_simps)
  have "pred_option (fits 1) (nt_params v)" using assms by (cases "nt_params v") auto
  then have "members_fit 1 M" using assms by (simp add: M_def max_depth_def)
  moreover have "pred_option params_plain (amap_find ''params'' M)"
    using assms fin by (cases "nt_params v") auto
  moreover have "pred_option (fits 2) (nt_meta v)" using assms by simp
  ultimately obtain M' where M': "with_meta (nt_meta v) (JObject M) = Inr (JObject M')" "members_fit 1 M'"
      "\<And>k. k \<noteq> ''params'' \<Longrightarrow> amap_find k M' = amap_find k M"
      "extract_meta_from_params (amap_find ''params'' M') = (normal_params (nt_params v) (nt_meta v), nt_meta v)"
    using with_meta_written [of M "nt_meta v"] fin(4) by metis
  have "serialize_notification v = Inr (JObject M')"
    using M'(1) by (simp add: serialize_notification_def build_object_def M_def)
  moreover have "fits 0 (JObject M')" using M'(2) fits_object [of 0 M'] by (simp add: max_depth_def)
  moreover have "deserialize_notification (JObject M') = Inr (v\<lparr>nt_jsonrpc := json_rpc_version,
      nt_params := normal_params (nt_params v) (nt_meta v), nt_session := []\<rparr>)"
    using M'(4) by (simp add: deserialize_notification_def req_with_member M'(3) fin validate_version_def
        opt_json_def)
  ultimately show ?thesis
    by (simp add: dispatch_message_def json_contains_def M'(3) fin Let_def)
qed

lemma fits_build:
  "l < max_depth \<Longrightarrow> members_fit (Suc l) (foldl (\<lambda>m w. w m) [] ws) \<Longrightarrow> fits l (build_object ws)"
  by (simp add: build_object_def fits_object)

lemma fits_id: "id_utf8 i \<Longrightarrow> l \<le> max_depth \<Longrightarrow> fits l (request_id_to_json i)"
  by (cases i) simp_all

lemma response_roundtrip:
  assumes "message_wf (MsgResponse v)"
  shows "fits 0 (serialize_response v) \<and>
    dispatch_message (serialize_response v) = Inr (normal_message (MsgResponse v))"
proof
  have "fits 1 (request_id_to_json (rs_id v))" using assms by (simp add: fits_id max_depth_def)
  then show "fits 0 (serialize_response v)"
    using assms unfolding serialize_response_def by (intro fits_build) (simp_all add: max_depth_def)
  have "deserialize_response (serialize_response v) =
      Inr (v\<lparr>rs_jsonrpc := json_rpc_version, rs_session := []\<rparr>)"
    by (simp add: deserialize_response_def serialize_response_def codec_simps validate_version_def
        request_id_read)
  then show "dispatch_message (serialize_response v) = Inr (normal_message (MsgResponse v))"
    by (simp add: dispatch_message_def json_contains_def serialize_response_def codec_simps)
qed

lemma error_response_roundtrip:
  assumes "message_wf (MsgError v)"
  shows "fits 0 (serialize_error_response v) \<and>
    dispatch_message (serialize_error_response v) = Inr (normal_message (MsgError v))"
proof
  have "fits 1 (case er_id v of Some i \<Rightarrow> request_id_to_json i | None \<Rightarrow> JNull)"
    using assms by (cases "er_id v") (simp_all add: fits_id max_depth_def)
  moreover have "fits 1 (serialize_error_data (er_error v))"
    using assms unfolding serialize_error_data_def
    by (intro fits_build) (simp_all add: max_depth_def numeral_2_eq_2)
  ultimately show "fits 0 (serialize_error_response v)"
    using assms unfolding serialize_error_response_def
    by (intro fits_build) (simp_all add: max_depth_def)
  have "deserialize_error_response (serialize_error_response v) =
      Inr (v\<lparr>er_jsonrpc := json_rpc_version, er_session := []\<rparr>)"
    by (cases "er_id v") (simp_all add: deserialize_error_response_def serialize_error_response_def
        codec_simps validate_version_def request_id_read error_data_codec.de_ser read_when_def)
  then show "dispatch_message (serialize_error_response v) = Inr (normal_message (MsgError v))"
    by (simp add: dispatch_message_def json_contains_def serialize_error_response_def codec_simps)
qed

lemma message_json_roundtrip:
  "message_wf msg \<Longrightarrow> \<exists>j. message_to_json msg = Inr j \<and> fits 0 j \<and>
     dispatch_message j = Inr (normal_message msg)"
proof (cases msg)
  case (MsgRequest v)
  then show "message_wf msg \<Longrightarrow> ?thesis" using request_roundtrip [of v] by simp
next
  case (MsgNotification v)
  then show "message_wf msg \<Longrightarrow> ?thesis" using notification_roundtrip [of v] by simp
next
  case (MsgResponse v)
  then show "message_wf msg \<Longrightarrow> ?thesis" using response_roundtrip [of v] by simp
next
  case (MsgError v)
  then show "message_wf msg \<Longrightarrow> ?thesis" using error_response_roundtrip [of v] by simp
qed

lemma message_text_roundtrip:
  assumes "message_wf msg"
  shows "\<exists>text. serialize_message msg = Inr text \<and> deserialize_message text = Inr (normal_message msg)"
proof -
  obtain j where j: "message_to_json msg = Inr j" "fits 0 j" "dispatch_message j = Inr (normal_message msg)"
    using message_json_roundtrip [OF assms] by blast
  then show ?thesis
    by (simp add: serialize_message_def deserialize_message_def fits_text)
qed

section \<open>What a received message satisfies\<close>

lemma members_fit_erase: "members_fit l m \<Longrightarrow> members_fit l (amap_erase k m)"
  using amap_erase_subset [of k m] by (auto simp: members_fit_def list_all_iff)

lemma extract_received:
  assumes "pred_option (fits 1) p" and "extract_meta_from_params p = (p', meta)"
  shows "pred_option (\<lambda>p. fits 1 p \<and> params_plain p) p' \<and> pred_option (fits 2) meta \<and>
    normal_params p' meta = p'"
proof (cases "\<exists>m v. p = Some (JObject m) \<and> amap_find ''_meta'' m = Some v")
  case True
  then obtain m v where m: "p = Some (JObject m)" "amap_find ''_meta'' m = Some v" by blast
  have fit: "members_fit 2 m"
    using assms(1) m(1) fits_object [of 1 m] by (simp add: max_depth_def numeral_2_eq_2)
  then have "amap_find ''_meta'' (amap_erase ''_meta'' m) = None" by (simp add: members_fit_def)
  moreover have "fits 1 (JObject (amap_erase ''_meta'' m))"
    using members_fit_erase [OF fit] fits_object [of 1] by (simp add: max_depth_def numeral_2_eq_2)
  moreover have "fits 2 v" using members_fit_find [OF fit m(2)] .
  moreover have "p' = Some (JObject (amap_erase ''_meta'' m))" "meta = Some v"
    using assms(2) m by (simp_all add: extract_meta_from_params_def)
  ultimately show ?thesis by (simp add: normal_params_def)
next
  case False
  then have "p' = p" "meta = None" "pred_option params_plain p"
    using assms(2) by (cases p; auto simp: extract_meta_from_params_def split: json.splits option.splits)+
  then show ?thesis using assms(1) by (cases p) (simp_all add: normal_params_def)
qed

lemma request_id_received: "request_id_from_json v = Inr i \<Longrightarrow> fits l v \<Longrightarrow> id_utf8 i"
  by (cases v) (auto simp: request_id_from_json_def res_simps)

lemma get_string_received: "get_string v = Inr s \<Longrightarrow> fits l v \<Longrightarrow> utf8_valid s"
  by (cases v) auto

lemma req_with_Inr:
  "req_with k f (JObject M) = Inr x \<Longrightarrow> \<exists>v. amap_find k M = Some v \<and> f v = Inr x"
  by (auto simp: req_with_def json_at_def lookup_required_def res_simps split: option.splits)

lemma req_string_received:
  "req_string k (JObject M) = Inr s \<Longrightarrow> members_fit l M \<Longrightarrow> utf8_valid s"
  using req_with_Inr members_fit_find get_string_received by metis

lemma find_received: "members_fit l M \<Longrightarrow> pred_option (fits l) (amap_find k M)"
  using members_fit_find [of l M k] by (cases "amap_find k M") auto

lemma validate_version_Inr [simp]: "validate_version v = Inr u \<longleftrightarrow> v = json_rpc_version"
  by (auto simp: validate_version_def)

lemma request_received:
  assumes "deserialize_request (JObject M) = Inr v" and "members_fit 1 M"
  shows "message_wf (MsgRequest v) \<and> normal_message (MsgRequest v) = MsgRequest v"
proof -
  obtain p' meta where ex: "extract_meta_from_params (amap_find ''params'' M) = (p', meta)"
    by (cases "extract_meta_from_params (amap_find ''params'' M)")
  obtain idv rid m where r: "amap_find ''id'' M = Some idv"
      "request_id_from_json idv = Inr rid" "req_string ''method'' (JObject M) = Inr m"
      "v = \<lparr>rq_jsonrpc = json_rpc_version, rq_id = rid, rq_method = m, rq_params = p', rq_meta = meta,
            rq_session = []\<rparr>"
    using assms(1) by (auto simp: deserialize_request_def opt_json_def res_simps ex
        split: option.splits if_splits)
  have "id_utf8 rid" using r(1,2) assms(2) request_id_received members_fit_find by metis
  moreover have "utf8_valid m" using r(3) assms(2) req_string_received by blast
  moreover note extract_received [OF find_received [OF assms(2)] ex]
  ultimately show ?thesis by (simp add: r(4))
qed

lemma notification_received:
  assumes "deserialize_notification (JObject M) = Inr v" and "members_fit 1 M"
  shows "message_wf (MsgNotification v) \<and> normal_message (MsgNotification v) = MsgNotification v"
proof -
  obtain p' meta where ex: "extract_meta_from_params (amap_find ''params'' M) = (p', meta)"
    by (cases "extract_meta_from_params (amap_find ''params'' M)")
  obtain m where r: "req_string ''method'' (JObject M) = Inr m"
      "v = \<lparr>nt_jsonrpc = json_rpc_version, nt_method = m, nt_params = p', nt_meta = meta, nt_session = []\<rparr>"
    using assms(1) by (auto simp: deserialize_notification_def opt_json_def res_simps ex)
  have "utf8_valid m" using r(1) assms(2) req_string_received by blast
  moreover note extract_received [OF find_received [OF assms(2)] ex]
  ultimately show ?thesis by (simp add: r(2))
qed

lemma response_received:
  assumes "deserialize_response (JObject M) = Inr v" and "members_fit 1 M"
  shows "message_wf (MsgResponse v) \<and> normal_message (MsgResponse v) = MsgResponse v"
proof -
  obtain rid res where r: "req_with ''id'' request_id_from_json (JObject M) = Inr rid"
      "req_with ''result'' Inr (JObject M) = Inr res"
      "v = \<lparr>rs_jsonrpc = json_rpc_version, rs_id = rid, rs_result = res, rs_session = []\<rparr>"
    using assms(1) by (auto simp: deserialize_response_def res_simps)
  have "id_utf8 rid" using req_with_Inr [OF r(1)] assms(2) request_id_received members_fit_find by metis
  moreover have "fits 1 res" using req_with_Inr [OF r(2)] assms(2) members_fit_find by auto
  ultimately show ?thesis by (simp add: r(3))
qed

lemma error_data_received:
  assumes "deserialize_error_data j = Inr e" and "fits 1 j"
  shows "utf8_valid (ed_message e) \<and> pred_option (fits 2) (ed_data e)"
proof -
  obtain m where m: "j = JObject m"
    using assms(1) by (cases j) (auto simp: deserialize_error_data_def req_with_def json_at_def)
  have fit: "members_fit 2 m"
    using assms(2) fits_object [of 1 m] by (simp add: m max_depth_def numeral_2_eq_2)
  obtain code msg where "req_string ''message'' j = Inr msg"
      "e = \<lparr>ed_code = code, ed_message = msg, ed_data = amap_find ''data'' m\<rparr>"
    using assms(1) by (auto simp: deserialize_error_data_def res_simps opt_json_def m split: if_splits)
  then show ?thesis using req_string_received [OF _ fit] find_received [OF fit] by (auto simp: m)
qed

lemma error_response_received:
  assumes "deserialize_error_response (JObject M) = Inr v" and "members_fit 1 M"
  shows "message_wf (MsgError v) \<and> normal_message (MsgError v) = MsgError v"
proof -
  obtain rid e where r: "read_when (\<lambda>v. \<not> is_null v) request_id_from_json (amap_find ''id'' M) = Inr rid"
      "req_with ''error'' deserialize_error_data (JObject M) = Inr e"
      "v = \<lparr>er_jsonrpc = json_rpc_version, er_id = rid, er_error = e, er_session = []\<rparr>"
    using assms(1) by (auto simp: deserialize_error_response_def opt_when_def res_simps)
  have "pred_option id_utf8 rid"
    using r(1) members_fit_find [OF assms(2)] request_id_received
    by (fastforce simp: read_when_def res_simps split: option.splits if_splits)
  moreover have "utf8_valid (ed_message e) \<and> pred_option (fits 2) (ed_data e)"
    using req_with_Inr [OF r(2)] error_data_received members_fit_find [OF assms(2)] by metis
  ultimately show ?thesis by (simp add: r(3))
qed

lemma message_received:
  assumes "deserialize_message text = Inr msg"
  shows "message_wf msg \<and> normal_message msg = msg"
proof -
  obtain j where j: "parse_document text = Inr j" "dispatch_message j = Inr msg"
    using assms by (auto simp: deserialize_message_def res_simps)
  obtain M where M: "j = JObject M"
    using j(2) by (cases j) (auto simp: dispatch_message_def json_contains_def)
  have "members_fit 1 M"
    using parse_document_fits [OF j(1)] fits_object [of 0 M] by (simp add: M max_depth_def)
  then show ?thesis
    using j(2) request_received notification_received response_received error_response_received
    by (auto simp: dispatch_message_def M Let_def res_simps simp del: message_wf.simps normal_message.simps
        split: if_splits)
qed

section \<open>Properties\<close>

text \<open>C25: a message that is written and read back arrives unchanged, except that the version field
  becomes 2.0, the session id, which is not part of the text, is cleared, and parameters that carry
  meta data are an object: missing parameters become an empty one.\<close>

theorem message_roundtrip:
  assumes "message_wf msg"
  shows "\<exists>text. serialize_message msg = Inr text \<and> deserialize_message text = Inr (normal_message msg)"
  using assms by (rule message_text_roundtrip)

theorem message_roundtrip_witness:
  "\<exists>text. serialize_message (MsgNotification \<lparr>nt_jsonrpc = ''2.0'', nt_method = ''ping'',
       nt_params = Some (JObject [(''a'', JNull)]), nt_meta = Some (JObject []), nt_session = []\<rparr>) = Inr text \<and>
     deserialize_message text = Inr (normal_message (MsgNotification \<lparr>nt_jsonrpc = ''2.0'', nt_method = ''ping'',
       nt_params = Some (JObject [(''a'', JNull)]), nt_meta = Some (JObject []), nt_session = []\<rparr>))"
proof (rule message_roundtrip)
  have "utf8_valid ''ping''" "utf8_valid ''a''" by (rule utf8_ascii, simp add: byte_of_def)+
  then show "message_wf (MsgNotification \<lparr>nt_jsonrpc = ''2.0'', nt_method = ''ping'',
       nt_params = Some (JObject [(''a'', JNull)]), nt_meta = Some (JObject []), nt_session = []\<rparr>)"
    by (simp add: fits_def max_depth_def)
qed

text \<open>A message that was received can always be sent on: writing it succeeds, and reading the
  text gives the same message.\<close>

theorem received_message_stable:
  assumes "deserialize_message text = Inr msg"
  shows "\<exists>text'. serialize_message msg = Inr text' \<and> deserialize_message text' = Inr msg"
  using message_received [OF assms] message_text_roundtrip [of msg] by auto

definition ping_text :: string where
  "ping_text = ''{'' @ dump_members (- 1) 0 [(''jsonrpc'', JString ''2.0''), (''id'', JInt 1), (''method'', JString ''ping'')] @ ''}''"

definition ping_message :: rpc_message where
  "ping_message = MsgRequest \<lparr>rq_jsonrpc = ''2.0'', rq_id = IdInt 1, rq_method = ''ping'',
     rq_params = None, rq_meta = None, rq_session = []\<rparr>"

theorem received_message_stable_witness:
  "\<exists>text'. serialize_message ping_message = Inr text' \<and> deserialize_message text' = Inr ping_message"
proof (rule received_message_stable)
  show "deserialize_message ping_text = Inr ping_message" by code_simp
qed

text \<open>The kind of a received message is decided by the members of the object: a method with an id
  that is not null is a request, a method without one a notification, a result without an error a
  response, an error without a result an error response.  Everything else is rejected.\<close>

theorem message_kind_decided:
  assumes "deserialize_message text = Inr msg"
  shows "\<exists>m. parse_document text = Inr (JObject m) \<and>
    (is_request msg \<longleftrightarrow> amap_find ''method'' m \<noteq> None \<and> amap_find ''id'' m \<notin> {None, Some JNull}) \<and>
    (is_notification msg \<longleftrightarrow> amap_find ''method'' m \<noteq> None \<and> amap_find ''id'' m \<in> {None, Some JNull}) \<and>
    (is_response msg \<longleftrightarrow>
       amap_find ''method'' m = None \<and> amap_find ''result'' m \<noteq> None \<and> amap_find ''error'' m = None) \<and>
    (is_error msg \<longleftrightarrow>
       amap_find ''method'' m = None \<and> amap_find ''error'' m \<noteq> None \<and> amap_find ''result'' m = None)"
proof -
  obtain j where j: "parse_document text = Inr j" "dispatch_message j = Inr msg"
    using assms by (auto simp: deserialize_message_def res_simps)
  obtain M where M: "j = JObject M"
    using j(2) by (cases j) (auto simp: dispatch_message_def json_contains_def)
  have null: "is_null v \<longleftrightarrow> v = JNull" for v by (cases v) simp_all
  show ?thesis
    using j by (cases "amap_find ''id'' M")
      (auto simp: M dispatch_message_def json_contains_def Let_def null res_simps split: if_splits)
qed

theorem message_kind_decided_witness:
  "\<exists>m. parse_document ping_text = Inr (JObject m) \<and>
    (is_request ping_message \<longleftrightarrow> amap_find ''method'' m \<noteq> None \<and> amap_find ''id'' m \<notin> {None, Some JNull}) \<and>
    (is_notification ping_message \<longleftrightarrow> amap_find ''method'' m \<noteq> None \<and> amap_find ''id'' m \<in> {None, Some JNull}) \<and>
    (is_response ping_message \<longleftrightarrow>
       amap_find ''method'' m = None \<and> amap_find ''result'' m \<noteq> None \<and> amap_find ''error'' m = None) \<and>
    (is_error ping_message \<longleftrightarrow>
       amap_find ''method'' m = None \<and> amap_find ''error'' m \<noteq> None \<and> amap_find ''result'' m = None)"
proof (rule message_kind_decided)
  show "deserialize_message ping_text = Inr ping_message" by code_simp
qed

end
