(* ===== verification/Wire_Codec.thy ===== *)
theory Wire_Codec
  imports Json_Rpc Wire_Types
begin

text \<open>
  The rules of the two protocol eras (\<open>src/protocol/WireCodec.cpp\<close>).  The abstract class \<open>WireCodec\<close>
  is the locale \<open>wire_codec\<close>; its subclasses \<open>Rev2025Codec\<close> and \<open>Rev2026Codec\<close> are the two
  interpretations.  \<open>MakeWireCodec\<close> chooses an era, and the virtual calls of the session handler are
  the functions that take the era as their first argument.
\<close>

section \<open>Method tables\<close>

definition common_request_methods :: "string list" where
  "common_request_methods = [
     ''tools/list'', ''tools/call'',
     ''resources/list'', ''resources/read'', ''resources/templates/list'',
     ''prompts/list'', ''prompts/get'',
     ''completion/complete'',
     ''server/extensions/list'']"

definition only_2025_request_methods :: "string list" where
  "only_2025_request_methods = [
     ''initialize'', ''ping'',
     ''resources/subscribe'', ''resources/unsubscribe'',
     ''logging/setLevel'', ''roots/list'', ''sampling/createMessage'', ''elicitation/create'',
     ''tasks/get'', ''tasks/update'', ''tasks/cancel'', ''tasks/result'', ''tasks/list'']"

definition only_2026_request_methods :: "string list" where
  "only_2026_request_methods = [
     ''server/discover'', ''subscriptions/listen'',
     ''tasks/get'', ''tasks/update'', ''tasks/cancel'',
     ''skills/list'', ''skills/get'', ''resources/directory/read'']"

definition common_notif_methods :: "string list" where
  "common_notif_methods = [
     ''notifications/cancelled'', ''notifications/progress'', ''notifications/message'',
     ''notifications/resources/updated'', ''notifications/resources/list_changed'',
     ''notifications/tools/list_changed'', ''notifications/prompts/list_changed'',
     ''notifications/tasks/status'', ''notifications/tasks/working'', ''notifications/tasks/completed'',
     ''notifications/tasks/failed'', ''notifications/tasks/cancelled'',
     ''notifications/tasks/input_required'', ''notifications/triggers/event'']"

definition only_2025_notif_methods :: "string list" where
  "only_2025_notif_methods = [
     ''notifications/initialized'', ''notifications/elicitation/complete'',
     ''notifications/roots/list_changed'']"

definition only_2026_notif_methods :: "string list" where
  "only_2026_notif_methods = [''notifications/subscriptions/acknowledged'']"

definition list_methods :: "string list" where
  "list_methods = [''tools/list'', ''resources/list'', ''resources/templates/list'',
     ''prompts/list'', ''skills/list'']"

definition is_task_name_checked_method :: "string \<Rightarrow> bool" where
  "is_task_name_checked_method m \<longleftrightarrow> m = ''tasks/get'' \<or> m = ''tasks/update'' \<or> m = ''tasks/cancel''"

section \<open>Views of a message\<close>

datatype wire_validation = WireOk | WireNotInEra | WireInvalid

record wire_view =
  wv_raw :: json
  wv_meta_backfilled :: bool

text \<open>\<open>BuildWireMessageView\<close>: all assignments are to fresh objects, so none of them throws.\<close>

definition view_params :: "json option \<Rightarrow> json option \<Rightarrow> json option" where
  "view_params params meta = (case meta of
     None \<Rightarrow> params
   | Some m \<Rightarrow> Some (JObject (amap_put ''_meta'' m
       (case params of Some (JObject pm) \<Rightarrow> pm | _ \<Rightarrow> []))))"

definition build_wire_message_view :: "string \<Rightarrow> string \<Rightarrow> json option \<Rightarrow> json option \<Rightarrow> wire_view" where
  "build_wire_message_view jsonrpc method params meta =
     \<lparr>wv_raw = build_object [
        put ''jsonrpc'' (JString jsonrpc),
        put ''method'' (JString method),
        put_opt ''params'' (\<lambda>x. x) (view_params params meta)],
      wv_meta_backfilled = (meta \<noteq> None)\<rparr>"

definition make_wire_request_view :: "rpc_request \<Rightarrow> wire_view" where
  "make_wire_request_view r = build_wire_message_view (rq_jsonrpc r) (rq_method r) (rq_params r) (rq_meta r)"

definition make_wire_notification_view :: "rpc_notification \<Rightarrow> wire_view" where
  "make_wire_notification_view n =
     build_wire_message_view (nt_jsonrpc n) (nt_method n) (nt_params n) (nt_meta n)"

section \<open>The era of 2025\<close>

definition has_request_2025 :: "string \<Rightarrow> bool" where
  "has_request_2025 m \<longleftrightarrow> m \<in> set (common_request_methods @ only_2025_request_methods)"

definition has_notification_2025 :: "string \<Rightarrow> bool" where
  "has_notification_2025 m \<longleftrightarrow> m \<in> set (common_notif_methods @ only_2025_notif_methods)"

definition initialize_params_present :: "json option \<Rightarrow> bool" where
  "initialize_params_present params = (case params of
     Some p \<Rightarrow> is_object p \<and> json_contains ''protocolVersion'' p \<and> json_contains ''capabilities'' p \<and>
       json_contains ''clientInfo'' p
   | None \<Rightarrow> False)"

definition validate_request_2025 :: "string \<Rightarrow> wire_view \<Rightarrow> wire_validation" where
  "validate_request_2025 m view =
     (if \<not> has_request_2025 m then WireNotInEra
      else if m = ''initialize'' \<and> \<not> initialize_params_present (json_find ''params'' (wv_raw view))
      then WireInvalid
      else WireOk)"

definition validate_response_2025 :: "string \<Rightarrow> json \<Rightarrow> wire_validation" where
  "validate_response_2025 m raw = WireOk"

definition validate_notification_2025 :: "string \<Rightarrow> json \<Rightarrow> wire_validation" where
  "validate_notification_2025 m raw = (if \<not> has_notification_2025 m then WireNotInEra else WireOk)"

definition stamp_2025 :: "json \<Rightarrow> request_meta \<Rightarrow> json mres" where
  "stamp_2025 body meta = Inr body"

definition encode_result_2025 :: "string \<Rightarrow> json \<Rightarrow> json mres" where
  "encode_result_2025 m r = Inr r"

definition encode_error_code_2025 :: "error_code \<Rightarrow> error_code" where
  "encode_error_code_2025 code = code"

section \<open>The era of 2026\<close>

definition has_request_2026 :: "string \<Rightarrow> bool" where
  "has_request_2026 m \<longleftrightarrow> m \<in> set (common_request_methods @ only_2026_request_methods)"

definition has_notification_2026 :: "string \<Rightarrow> bool" where
  "has_notification_2026 m \<longleftrightarrow> m \<in> set (common_notif_methods @ only_2026_notif_methods)"

definition params_with_meta :: "bool \<Rightarrow> json option \<Rightarrow> bool" where
  "params_with_meta backfilled params = (case params of
     Some p \<Rightarrow> is_object p \<and> (json_contains ''_meta'' p \<or> backfilled)
   | None \<Rightarrow> False)"

definition validate_request_2026 :: "string \<Rightarrow> wire_view \<Rightarrow> wire_validation" where
  "validate_request_2026 m view =
     (if \<not> has_request_2026 m then WireNotInEra
      else if m \<noteq> ''server/discover'' \<and>
        \<not> params_with_meta (wv_meta_backfilled view) (json_find ''params'' (wv_raw view))
      then WireInvalid
      else WireOk)"

definition validate_response_2026 :: "string \<Rightarrow> json \<Rightarrow> wire_validation" where
  "validate_response_2026 m raw =
     (if \<not> json_contains ''resultType'' raw then WireInvalid
      else if m \<in> set list_methods \<and> json_find ''resultType'' raw \<noteq> Some (JString ''complete'')
      then WireInvalid
      else WireOk)"

definition validate_notification_2026 :: "string \<Rightarrow> json \<Rightarrow> wire_validation" where
  "validate_notification_2026 m raw =
     (if \<not> has_notification_2026 m then WireNotInEra
      else if json_contains ''id'' raw \<or> json_contains ''result'' raw \<or> json_contains ''error'' raw
      then WireInvalid
      else WireOk)"

definition stamped_meta :: "request_meta \<Rightarrow> json" where
  "stamped_meta meta = build_object [
     put_opt ''io.modelcontextprotocol/clientInfo'' serialize_implementation (rm_client_info meta),
     put_opt ''io.modelcontextprotocol/clientCapabilities'' serialize_client_capabilities
       (rm_client_capabilities meta),
     put ''io.modelcontextprotocol/protocolVersion'' (JString (rm_protocol_version meta))]"

definition stamp_2026 :: "json \<Rightarrow> request_meta \<Rightarrow> json mres" where
  "stamp_2026 body meta =
     json_set ''params'' (JObject (amap_put ''_meta'' (stamped_meta meta)
       (case json_find ''params'' body of Some (JObject m) \<Rightarrow> m | _ \<Rightarrow> []))) body"

definition put_when :: "(json \<Rightarrow> bool) \<Rightarrow> string \<Rightarrow> json option \<Rightarrow> writer" where
  "put_when p key opt m = (case opt of Some v \<Rightarrow> if p v then put key v m else m | None \<Rightarrow> m)"

text \<open>The first half of \<open>EncodeResult\<close>: the members of the hint move into the result.\<close>

definition flatten_cache_hint :: "json \<Rightarrow> json" where
  "flatten_cache_hint j = (case j of
     JObject m \<Rightarrow>
       (case amap_find ''cacheHint'' m of
          Some (JObject ch) \<Rightarrow>
            JObject (amap_erase ''cacheHint''
              (put_when is_string ''cacheScope'' (amap_find ''cacheScope'' ch)
                (put_when is_int ''ttlMs'' (amap_find ''ttlMs'' ch) m)))
        | _ \<Rightarrow> j)
   | _ \<Rightarrow> j)"

definition encode_result_2026 :: "string \<Rightarrow> json \<Rightarrow> json mres" where
  "encode_result_2026 m r =
     (let j = flatten_cache_hint r
      in if json_contains ''resultType'' j then Inr j
         else json_set ''resultType'' (JString ''complete'') j)"

definition encode_error_code_2026 :: "error_code \<Rightarrow> error_code" where
  "encode_error_code_2026 code =
     (if code = ResourceNotFound then InvalidParams
      else if code = RequestTimeout \<or> code = ConnectionRefused \<or> code = TlsHandshakeFailed
      then InternalError
      else code)"

section \<open>Both eras\<close>

datatype era = Rev2025 | Rev2026

fun era_name :: "era \<Rightarrow> string" where
  "era_name Rev2025 = ''2025-11-25''"
| "era_name Rev2026 = ''2026-07-28''"

definition make_wire_codec :: "string \<Rightarrow> era" where
  "make_wire_codec version = (if latest_protocol_version \<le> version then Rev2026 else Rev2025)"

fun has_request_method :: "era \<Rightarrow> string \<Rightarrow> bool" where
  "has_request_method Rev2025 = has_request_2025"
| "has_request_method Rev2026 = has_request_2026"

fun has_notification_method :: "era \<Rightarrow> string \<Rightarrow> bool" where
  "has_notification_method Rev2025 = has_notification_2025"
| "has_notification_method Rev2026 = has_notification_2026"

fun validate_request :: "era \<Rightarrow> string \<Rightarrow> wire_view \<Rightarrow> wire_validation" where
  "validate_request Rev2025 = validate_request_2025"
| "validate_request Rev2026 = validate_request_2026"

fun validate_response :: "era \<Rightarrow> string \<Rightarrow> json \<Rightarrow> wire_validation" where
  "validate_response Rev2025 = validate_response_2025"
| "validate_response Rev2026 = validate_response_2026"

fun validate_notification :: "era \<Rightarrow> string \<Rightarrow> json \<Rightarrow> wire_validation" where
  "validate_notification Rev2025 = validate_notification_2025"
| "validate_notification Rev2026 = validate_notification_2026"

fun stamp_outgoing_request :: "era \<Rightarrow> json \<Rightarrow> request_meta \<Rightarrow> json mres" where
  "stamp_outgoing_request Rev2025 = stamp_2025"
| "stamp_outgoing_request Rev2026 = stamp_2026"

fun encode_result :: "era \<Rightarrow> string \<Rightarrow> json \<Rightarrow> json mres" where
  "encode_result Rev2025 = encode_result_2025"
| "encode_result Rev2026 = encode_result_2026"

fun encode_error_code :: "era \<Rightarrow> error_code \<Rightarrow> error_code" where
  "encode_error_code Rev2025 = encode_error_code_2025"
| "encode_error_code Rev2026 = encode_error_code_2026"

text \<open>\<open>ValidateTaskHeaders\<close>, the same in both eras.\<close>

definition validate_task_headers :: "string \<Rightarrow> json \<Rightarrow> string \<Rightarrow> unit mres" where
  "validate_task_headers m params mcp_name =
     (if \<not> is_task_name_checked_method m then Inr ()
      else case json_find ''taskId'' params of
             Some (JString s) \<Rightarrow>
               if s = [] then throw InvalidParams ''tasks request missing valid taskId''
               else if s \<noteq> mcp_name then throw HeaderMismatch
                 ''Mcp-Name header does not match body params taskId''
               else Inr ()
           | _ \<Rightarrow> throw InvalidParams ''tasks request missing valid taskId'')"

section \<open>The contract of \<open>WireCodec\<close>\<close>

locale wire_codec =
  fixes has_req :: "string \<Rightarrow> bool" and has_notif :: "string \<Rightarrow> bool"
    and val_req :: "string \<Rightarrow> wire_view \<Rightarrow> wire_validation"
    and val_resp :: "string \<Rightarrow> json \<Rightarrow> wire_validation"
    and val_notif :: "string \<Rightarrow> json \<Rightarrow> wire_validation"
    and stamp :: "json \<Rightarrow> request_meta \<Rightarrow> json mres"
    and enc :: "string \<Rightarrow> json \<Rightarrow> json mres" and enc_code :: "error_code \<Rightarrow> error_code"
  assumes req_in_era: "val_req m v = WireNotInEra \<longleftrightarrow> \<not> has_req m"
    and notif_in_era: "val_notif m raw = WireNotInEra \<longleftrightarrow> \<not> has_notif m"
    and stamp_object: "is_object body \<Longrightarrow> \<exists>b. stamp body meta = Inr b"
    and stamp_valid: "stamp body meta = Inr b \<Longrightarrow> has_req m \<Longrightarrow> m \<noteq> ''initialize'' \<Longrightarrow>
      val_req m \<lparr>wv_raw = b, wv_meta_backfilled = False\<rparr> = WireOk"
    and enc_object: "is_object r \<Longrightarrow> json_ok r \<Longrightarrow> \<exists>r'. enc m r = Inr r' \<and> is_object r' \<and> json_ok r'"
    and enc_stable: "enc m r = Inr r' \<Longrightarrow> json_ok r \<Longrightarrow> enc m r' = Inr r'"
    and enc_valid: "enc m r = Inr r' \<Longrightarrow> json_find ''resultType'' r = None \<Longrightarrow> json_ok r \<Longrightarrow> val_resp m r' = WireOk"
    and code_stable: "enc_code (enc_code c) = enc_code c"
begin

lemma accepted_in_era: "val_req m v = WireOk \<Longrightarrow> has_req m"
  using req_in_era [of m v] by auto

lemma accepted_notif_in_era: "val_notif m raw = WireOk \<Longrightarrow> has_notif m"
  using notif_in_era [of m raw] by auto

text \<open>A request of the era that is stamped before it is sent is accepted by a peer of the era.\<close>

lemma stamped_accepted:
  assumes "is_object body" "has_req m" "m \<noteq> ''initialize''"
  shows "\<exists>b. stamp body meta = Inr b \<and> val_req m \<lparr>wv_raw = b, wv_meta_backfilled = False\<rparr> = WireOk"
  using stamp_object [OF assms(1), of meta] stamp_valid [OF _ assms(2,3)] by blast

text \<open>A result object without a type of its own is encoded to a response a peer accepts, and
  encoding it again changes nothing.\<close>

lemma encoded_accepted:
  assumes "is_object r" "json_ok r" "json_find ''resultType'' r = None"
  shows "\<exists>r'. enc m r = Inr r' \<and> val_resp m r' = WireOk \<and> enc m r' = Inr r'"
  using enc_object [OF assms(1,2), of m] enc_valid [OF _ assms(3,2)] enc_stable [OF _ assms(2)] by blast

end

interpretation rev2025: wire_codec has_request_2025 has_notification_2025 validate_request_2025
  validate_response_2025 validate_notification_2025 stamp_2025 encode_result_2025 encode_error_code_2025
  by unfold_locales
    (auto simp: validate_request_2025_def validate_notification_2025_def validate_response_2025_def
      stamp_2025_def encode_result_2025_def encode_error_code_2025_def)

lemma put_when_find: "k \<noteq> k' \<Longrightarrow> amap_find k (put_when p k' v m) = amap_find k m"
  by (auto simp: put_when_def put_def split: option.split)

lemma put_when_ok: "amap_ok m \<Longrightarrow> amap_ok (put_when p k v m)"
  by (auto simp: put_when_def put_def split: option.split)

lemma amap_put_every:
  "list_all (\<lambda>kv. P (snd kv)) m \<Longrightarrow> P v \<Longrightarrow> list_all (\<lambda>kv. P (snd kv)) (amap_put k v m)"
proof (induction m)
  case (Cons kv m)
  then show ?case by (cases kv) auto
qed simp

lemma amap_erase_all: "list_all (\<lambda>kv. P (snd kv)) m \<Longrightarrow> list_all (\<lambda>kv. P (snd kv)) (amap_erase k m)"
  using amap_erase_subset [of k m] by (auto simp: list_all_iff)

lemma amap_find_all: "list_all (\<lambda>kv. P (snd kv)) m \<Longrightarrow> amap_find k m = Some v \<Longrightarrow> P v"
  by (auto simp: list_all_iff dest!: amap_find_Some_in)

lemma put_when_all:
  "list_all (\<lambda>kv. P (snd kv)) m \<Longrightarrow> pred_option P v \<Longrightarrow> list_all (\<lambda>kv. P (snd kv)) (put_when p k v m)"
  by (auto simp: put_when_def put_def amap_put_every split: option.split)

lemma flatten_ok: "json_ok j \<Longrightarrow> json_ok (flatten_cache_hint j)"
proof (cases j)
  case (JObject m)
  assume ok: "json_ok j"
  show ?thesis
  proof (cases "amap_find ''cacheHint'' m")
    case (Some h)
    have h: "json_ok h" using ok Some by (auto simp: JObject intro: amap_find_all)
    show ?thesis
    proof (cases h)
      case (JObject ch)
      have "pred_option json_ok (amap_find k ch)" for k
        using h by (cases "amap_find k ch") (auto simp: JObject intro: amap_find_all)
      then show ?thesis
        using ok by (simp add: \<open>j = _\<close> Some JObject flatten_cache_hint_def put_when_ok put_when_all amap_erase_all)
    qed (use ok in \<open>simp_all add: JObject Some flatten_cache_hint_def\<close>)
  qed (use ok in \<open>simp add: JObject flatten_cache_hint_def\<close>)
qed (simp_all add: flatten_cache_hint_def)

lemma flatten_type: "json_ok j \<Longrightarrow> json_find ''resultType'' (flatten_cache_hint j) = json_find ''resultType'' j"
  by (cases j) (auto simp: flatten_cache_hint_def put_when_find put_when_ok amap_simps
      split: option.split json.split)

lemma flatten_hint: "json_ok j \<Longrightarrow> json_find ''cacheHint'' (flatten_cache_hint j) = Some (JObject ch) \<Longrightarrow> False"
  by (cases j) (auto simp: flatten_cache_hint_def put_when_find put_when_ok amap_simps
      split: option.splits json.splits)

lemma flatten_object: "is_object (flatten_cache_hint j) = is_object j"
  by (cases j) (auto simp: flatten_cache_hint_def split: option.split json.split)

lemma flatten_unchanged: "\<forall>ch. json_find ''cacheHint'' j \<noteq> Some (JObject ch) \<Longrightarrow> flatten_cache_hint j = j"
  by (auto simp: flatten_cache_hint_def split: json.split option.split)

interpretation rev2026: wire_codec has_request_2026 has_notification_2026 validate_request_2026
  validate_response_2026 validate_notification_2026 stamp_2026 encode_result_2026 encode_error_code_2026
proof
  fix r m assume obj: "is_object r" and ok: "json_ok r"
  obtain fm where f: "flatten_cache_hint r = JObject fm"
    using obj flatten_object [of r] by (cases "flatten_cache_hint r") auto
  with flatten_ok [OF ok]
  show "\<exists>r'. encode_result_2026 m r = Inr r' \<and> is_object r' \<and> json_ok r'"
    by (auto simp: encode_result_2026_def json_set_def Let_def amap_put_every)
next
  fix m r r' assume enc: "encode_result_2026 m r = Inr r'" and ok: "json_ok r"
  have "json_find ''cacheHint'' r' \<noteq> Some (JObject ch)" for ch
    using enc flatten_hint [OF ok, of ch]
    by (auto simp: encode_result_2026_def Let_def json_set_find split: if_splits)
  then have "flatten_cache_hint r' = r'" by (intro flatten_unchanged) simp
  moreover have "json_contains ''resultType'' r'"
    using enc by (auto simp: encode_result_2026_def Let_def json_set_find json_contains_def split: if_splits)
  ultimately show "encode_result_2026 m r' = Inr r'"
    by (simp add: encode_result_2026_def)
next
  fix m r r' assume enc: "encode_result_2026 m r = Inr r'" and "json_find ''resultType'' r = None" and "json_ok r"
  then have "json_find ''resultType'' r' = Some (JString ''complete'')"
    by (auto simp: encode_result_2026_def Let_def json_set_find json_contains_def flatten_type split: if_splits)
  then show "validate_response_2026 m r' = WireOk"
    by (simp add: validate_response_2026_def json_contains_def)
next
  fix body b meta m
  assume "stamp_2026 body meta = Inr b" "has_request_2026 m"
  then show "validate_request_2026 m \<lparr>wv_raw = b, wv_meta_backfilled = False\<rparr> = WireOk"
    by (auto simp: stamp_2026_def validate_request_2026_def json_set_find params_with_meta_def json_contains_def)
next
  fix body meta assume "is_object body"
  then show "\<exists>b. stamp_2026 body meta = Inr b"
    by (cases body) (auto simp: stamp_2026_def json_set_def)
qed (auto simp: validate_request_2026_def validate_notification_2026_def encode_error_code_2026_def error_codes)

section \<open>Properties\<close>

text \<open>A request object that is stamped with the client's metadata before it is sent passes the
  request validation of its era, for every method of the era but \<open>initialize\<close>, whatever its parameters.\<close>

theorem stamped_request_valid:
  assumes "is_object body" "has_request_method e m" "m \<noteq> ''initialize''"
  shows "\<exists>b. stamp_outgoing_request e body meta = Inr b \<and>
    validate_request e m \<lparr>wv_raw = b, wv_meta_backfilled = False\<rparr> = WireOk"
  using assms by (cases e) (auto intro: rev2025.stamped_accepted rev2026.stamped_accepted)

theorem stamped_request_valid_witness:
  "\<exists>b. stamp_outgoing_request Rev2026 (JObject [(''params'', JNull)]) sample_meta = Inr b \<and>
    validate_request Rev2026 ''tools/list'' \<lparr>wv_raw = b, wv_meta_backfilled = False\<rparr> = WireOk"
  by (rule stamped_request_valid)
    (simp_all add: has_request_2026_def common_request_methods_def)

text \<open>A result object that names no result type is encoded to a response the era accepts, and
  encoding it a second time changes nothing: the cache hint has been moved out and the type is set.\<close>

theorem encoded_result_valid:
  assumes "is_object r" "json_ok r" "json_find ''resultType'' r = None"
  shows "\<exists>r'. encode_result e m r = Inr r' \<and> validate_response e m r' = WireOk \<and>
    encode_result e m r' = Inr r'"
  using assms by (cases e) (auto intro: rev2025.encoded_accepted rev2026.encoded_accepted)

theorem encoded_result_valid_witness:
  "\<exists>r'. encode_result Rev2026 ''tools/list'' (JObject [(''cacheHint'', JObject [(''ttlMs'', JInt 5)])]) = Inr r' \<and>
    validate_response Rev2026 ''tools/list'' r' = WireOk \<and> encode_result Rev2026 ''tools/list'' r' = Inr r'"
  by (rule encoded_result_valid) simp_all

text \<open>On the 2026 era no error leaves with a code that is deprecated or internal to the library,
  encoding is idempotent, and every other code is sent as it is.\<close>

theorem encoded_code_public:
  "encode_error_code Rev2026 c \<notin> {ResourceNotFound, RequestTimeout, ConnectionRefused, TlsHandshakeFailed} \<and>
   encode_error_code e (encode_error_code e c) = encode_error_code e c \<and>
   (c \<in> {ResourceNotFound, RequestTimeout, ConnectionRefused, TlsHandshakeFailed} \<or>
    encode_error_code Rev2026 c = c)"
  using rev2025.code_stable rev2026.code_stable
  by (cases e) (auto simp: encode_error_code_2026_def error_codes)

lemma wire_codec_modern: "make_wire_codec v = Rev2026 \<longleftrightarrow> is_modern_protocol_version v"
  by (simp add: make_wire_codec_def is_modern_protocol_version_def)

lemma wire_codec_named: "make_wire_codec (era_name Rev2025) = Rev2025" "make_wire_codec (era_name Rev2026) = Rev2026"
  by code_simp+

end
