(* ===== verification/Session_State.thy ===== *)
theory Session_State
  imports Wire_Codec
begin

text \<open>
  The state of \<open>McpSessionHandler\<close> (\<open>src/protocol/McpSessionHandler.cpp\<close>) and the operations that
  only look at it: keys of requests, the era and the version of a session, cancellation flags,
  notifications.  Every operation runs under one of the handler's mutexes, so it is a function from
  state to state; what it sends is returned as a list of events.  Unordered maps are key-sorted
  association lists: where the code iterates over one, the order of the events is one of the orders
  the code may produce.  Times are nanoseconds of the steady clock.
\<close>

section \<open>State\<close>

type_synonym time = int

definition seconds :: "int \<Rightarrow> time" where "seconds n = n * 1000000000"

definition milliseconds :: "int \<Rightarrow> time" where "milliseconds n = n * 1000000"

datatype request_outcome = OutcomeResult json | OutcomeError error_data

record pending_request =
  pr_deadline :: time
  pr_progress_token :: "progress_token option"
  pr_method :: string
  pr_request_id :: string
  pr_id :: request_id
  pr_cancel_on_timeout :: bool
  pr_session :: string

record session_entry =
  se_version :: "string option"
  se_codec :: "era option"
  se_capabilities :: "client_capabilities option"

record subscription_entry =
  sb_id :: string
  sb_session :: string
  sb_filter :: subscription_filter
  sb_created_at :: time

text \<open>
  An entry of \<open>response_queue_\<close>: a request with the key of its flag, whose future the worker looks
  at, or a cancelled request with its error.
\<close>

datatype queue_item =
    ResponseItem rpc_request string
  | CancelItem pending_request error_data

record session_handler =
  sh_codec :: era
  sh_version :: "string option"
  sh_sessions :: "(string, session_entry) amap"
  sh_supported :: "string list"
  sh_client_capabilities :: "client_capabilities option"
  sh_server_info :: "implementation option"
  sh_canceller :: bool
  sh_closed :: bool
  sh_next_id :: i64
  sh_pending :: "(string, pending_request) amap"
  sh_tokens :: "(string, string) amap"
  sh_deadlines :: "(string, time) amap"
  sh_max_total :: time
  sh_cancel_flags :: "(string, bool) amap"
  sh_queue :: "queue_item list"
  sh_waiting :: "queue_item list"
  sh_outstanding :: nat
  sh_capacity :: nat
  sh_subscriptions :: "(string, (string, subscription_entry) amap) amap"

definition protocol_versions :: "string list" where
  "protocol_versions = [''2024-11-05'', ''2025-03-26'', ''2025-06-18'', ''2025-11-25'', ''2026-07-28'']"

definition default_response_queue_capacity :: nat where "default_response_queue_capacity = 1024"

definition new_handler :: "era \<Rightarrow> bool \<Rightarrow> session_handler" where
  "new_handler codec canceller = \<lparr>sh_codec = codec, sh_version = None, sh_sessions = [],
     sh_supported = protocol_versions, sh_client_capabilities = None, sh_server_info = None,
     sh_canceller = canceller, sh_closed = False, sh_next_id = 1, sh_pending = [], sh_tokens = [],
     sh_deadlines = [], sh_max_total = 0, sh_cancel_flags = [], sh_queue = [], sh_waiting = [],
     sh_outstanding = 0, sh_capacity = default_response_queue_capacity, sh_subscriptions = []\<rparr>"

text \<open>What the handler does to the world: messages given to the transport, requests the transport
  is asked to cancel, and outcomes given to the caller of a request.\<close>

datatype session_event =
    Sent rpc_message
  | TransportCancel request_id string
  | Delivered pending_request request_outcome

section \<open>Keys\<close>

fun get_request_id_key :: "request_id \<Rightarrow> string" where
  "get_request_id_key (IdInt i) = dec_int (sint i)"
| "get_request_id_key (IdString s) = s"

definition session_request_key :: "string \<Rightarrow> string \<Rightarrow> string" where
  "session_request_key session rid = dec_nat (length session) @ '':'' @ session @ rid"

lemma dec_nat_colon_inject:
  assumes "dec_nat m @ CHR '':'' # xs = dec_nat n @ CHR '':'' # ys"
  shows "m = n \<and> xs = ys"
proof -
  have no_colon: "takeWhile (\<lambda>c. c \<noteq> CHR '':'') (dec_nat k @ CHR '':'' # zs) = dec_nat k" for k zs
  proof -
    have "CHR '':'' \<notin> set (dec_nat k)"
      using dec_nat_digits [of "CHR '':''" k] by (auto simp: is_digit_def byte_of_def)
    then show ?thesis by (subst takeWhile_append2) auto
  qed
  have "dec_nat m = dec_nat n" using no_colon assms by metis
  with assms show ?thesis by simp
qed

text \<open>The key of a request in a session determines both.\<close>

lemma session_request_key_inject [simp]:
  "session_request_key s r = session_request_key t q \<longleftrightarrow> s = t \<and> r = q"
  by (auto simp: session_request_key_def dest!: dec_nat_colon_inject)

section \<open>Era and version of a session\<close>

definition codec_for :: "session_handler \<Rightarrow> string \<Rightarrow> era" where
  "codec_for h session =
     (if session = [] then sh_codec h
      else case amap_find session (sh_sessions h) of
             None \<Rightarrow> sh_codec h
           | Some e \<Rightarrow> (case se_codec e of None \<Rightarrow> sh_codec h | Some c \<Rightarrow> c))"

definition default_version :: "session_handler \<Rightarrow> string" where
  "default_version h = (case sh_version h of Some v \<Rightarrow> v | None \<Rightarrow> [])"

definition version_for :: "session_handler \<Rightarrow> string \<Rightarrow> string" where
  "version_for h session =
     (if session = [] then default_version h
      else case amap_find session (sh_sessions h) of
             None \<Rightarrow> default_version h
           | Some e \<Rightarrow> (case se_version e of None \<Rightarrow> default_version h | Some v \<Rightarrow> v))"

definition session_entry_of :: "session_handler \<Rightarrow> string \<Rightarrow> session_entry" where
  "session_entry_of h session = (case amap_find session (sh_sessions h) of
     Some e \<Rightarrow> e
   | None \<Rightarrow> \<lparr>se_version = None, se_codec = None, se_capabilities = None\<rparr>)"

definition set_negotiated_protocol_version :: "string \<Rightarrow> string \<Rightarrow> session_handler \<Rightarrow> session_handler" where
  "set_negotiated_protocol_version session version h =
     (if session = [] then h\<lparr>sh_version := Some version, sh_codec := make_wire_codec version\<rparr>
      else h\<lparr>sh_sessions := amap_put session
             ((session_entry_of h session)\<lparr>se_version := Some version, se_codec := Some (make_wire_codec version)\<rparr>)
             (sh_sessions h)\<rparr>)"

definition set_client_capabilities :: "string \<Rightarrow> client_capabilities \<Rightarrow> session_handler \<Rightarrow> session_handler" where
  "set_client_capabilities session caps h =
     (if session = [] then h\<lparr>sh_client_capabilities := Some caps\<rparr>
      else h\<lparr>sh_sessions := amap_put session
             ((session_entry_of h session)\<lparr>se_capabilities := Some caps\<rparr>) (sh_sessions h)\<rparr>)"

definition get_client_capabilities :: "session_handler \<Rightarrow> string \<Rightarrow> client_capabilities option" where
  "get_client_capabilities h session =
     (if session = [] then sh_client_capabilities h
      else case amap_find session (sh_sessions h) of None \<Rightarrow> None | Some e \<Rightarrow> se_capabilities e)"

definition set_supported_protocol_versions :: "string list \<Rightarrow> session_handler \<Rightarrow> session_handler" where
  "set_supported_protocol_versions versions h = (if versions = [] then h else h\<lparr>sh_supported := versions\<rparr>)"

definition is_version_supported :: "session_handler \<Rightarrow> string \<Rightarrow> bool" where
  "is_version_supported h version \<longleftrightarrow> version \<in> set (sh_supported h)"

definition make_version_error_data :: "session_handler \<Rightarrow> string \<Rightarrow> json" where
  "make_version_error_data h requested = build_object [
     put ''supported'' (JArray (map JString (sh_supported h))),
     put ''requested'' (JString requested)]"

definition set_max_total_timeout :: "int \<Rightarrow> session_handler \<Rightarrow> session_handler" where
  "set_max_total_timeout limit h = h\<lparr>sh_max_total := seconds limit\<rparr>"

definition set_response_queue_capacity :: "nat option \<Rightarrow> session_handler \<Rightarrow> session_handler" where
  "set_response_queue_capacity capacity h =
     h\<lparr>sh_capacity := (case capacity of Some c \<Rightarrow> c | None \<Rightarrow> default_response_queue_capacity)\<rparr>"

section \<open>Notifications\<close>

definition version_meta :: "string \<Rightarrow> request_meta" where
  "version_meta version = \<lparr>rm_progress_token = None, rm_protocol_version = version, rm_client_info = None,
     rm_client_capabilities = None, rm_log_level = None, rm_extensions = None, rm_traceparent = None,
     rm_tracestate = None, rm_baggage = None\<rparr>"

definition send_notification :: "session_handler \<Rightarrow> string \<Rightarrow> json \<Rightarrow> string \<Rightarrow> session_event list mres" where
  "send_notification h method params session =
     (let version = version_for h session
      in rbind (if version \<noteq> [] \<and> is_modern_protocol_version version
                then rmap Some (serialize_request_meta (version_meta version)) else Inr None) (\<lambda>meta.
         Inr [Sent (MsgNotification \<lparr>nt_jsonrpc = json_rpc_version, nt_method = method,
           nt_params = (if \<not> is_null params \<and> \<not> json_empty params then Some params else None),
           nt_meta = meta, nt_session = session\<rparr>)]))"

definition send_cancelled_notification ::
  "session_handler \<Rightarrow> request_id \<Rightarrow> string \<Rightarrow> string \<Rightarrow> session_event list mres" where
  "send_cancelled_notification h rid session reason =
     send_notification h ''notifications/cancelled''
       (build_object [
          put ''requestId'' (request_id_to_json rid),
          put_if (reason \<noteq> []) ''reason'' (JString reason)]) session"

definition cancel_transport_request ::
  "session_handler \<Rightarrow> request_id \<Rightarrow> string \<Rightarrow> string \<Rightarrow> session_event list mres" where
  "cancel_transport_request h rid session reason =
     (if is_modern_protocol_version (version_for h session) \<and> sh_canceller h
      then Inr [TransportCancel rid reason]
      else send_cancelled_notification h rid session reason)"

definition send_error_response ::
  "session_handler \<Rightarrow> request_id \<Rightarrow> error_code \<Rightarrow> string \<Rightarrow> json option \<Rightarrow> string \<Rightarrow> session_event" where
  "send_error_response h rid code message data session =
     Sent (MsgError \<lparr>er_jsonrpc = json_rpc_version, er_id = Some rid,
       er_error = \<lparr>ed_code = encode_error_code (codec_for h session) code, ed_message = message, ed_data = data\<rparr>,
       er_session = session\<rparr>)"

text \<open>These notifications always go out: their metadata has no extensions that could be malformed.\<close>

lemma serialize_version_meta: "\<exists>j. serialize_request_meta (version_meta v) = Inr j"
  by (simp add: serialize_request_meta_def version_meta_def)

lemma send_notification_total:
  "\<exists>n. send_notification h method params session = Inr [Sent (MsgNotification n)] \<and> nt_method n = method \<and>
     nt_session n = session"
  using serialize_version_meta [of "version_for h session"] by (auto simp: send_notification_def Let_def)

lemma cancel_transport_total: "\<exists>e. cancel_transport_request h rid session reason = Inr [e]"
  using send_notification_total by (fastforce simp: cancel_transport_request_def send_cancelled_notification_def)

section \<open>Cancellation flags of incoming requests\<close>

definition handle_cancelled :: "rpc_notification \<Rightarrow> session_handler \<Rightarrow> session_handler" where
  "handle_cancelled n h =
     (case nt_params n of
        None \<Rightarrow> h
      | Some params \<Rightarrow>
          (let key = (case json_find ''requestId'' params of
                 Some (JInt i) \<Rightarrow> Some (dec_int (sint i))
               | Some (JString s) \<Rightarrow> Some s
               | _ \<Rightarrow> None)
           in case key of
                None \<Rightarrow> h
              | Some k \<Rightarrow>
                  (let sk = session_request_key (nt_session n) k
                   in case amap_find sk (sh_cancel_flags h) of
                        None \<Rightarrow> h
                      | Some _ \<Rightarrow> h\<lparr>sh_cancel_flags := amap_put sk True (sh_cancel_flags h)\<rparr>)))"

definition erase_incoming_cancellation_flag :: "string \<Rightarrow> session_handler \<Rightarrow> session_handler" where
  "erase_incoming_cancellation_flag key h = h\<lparr>sh_cancel_flags := amap_erase key (sh_cancel_flags h)\<rparr>"

definition get_incoming_cancellation_flag :: "session_handler \<Rightarrow> request_id \<Rightarrow> string \<Rightarrow> bool option" where
  "get_incoming_cancellation_flag h rid session =
     amap_find (session_request_key session (get_request_id_key rid)) (sh_cancel_flags h)"

section \<open>Era and version never drift apart\<close>

definition versions_agree :: "session_handler \<Rightarrow> bool" where
  "versions_agree h \<longleftrightarrow> pred_option (\<lambda>v. sh_codec h = make_wire_codec v) (sh_version h) \<and>
     (\<forall>s e. amap_find s (sh_sessions h) = Some e \<longrightarrow> se_codec e = map_option make_wire_codec (se_version e))"

lemma versions_agree_new: "versions_agree (new_handler codec canceller)"
  by (simp add: versions_agree_def new_handler_def)

lemma session_entry_agrees: "versions_agree h \<Longrightarrow>
    se_codec (session_entry_of h s) = map_option make_wire_codec (se_version (session_entry_of h s))"
  by (auto simp: versions_agree_def session_entry_of_def split: option.split)

lemma set_version_agrees: "versions_agree h \<Longrightarrow> versions_agree (set_negotiated_protocol_version s v h)"
  by (auto simp: versions_agree_def set_negotiated_protocol_version_def)

lemma set_capabilities_agrees: "versions_agree h \<Longrightarrow> versions_agree (set_client_capabilities s c h)"
  using session_entry_agrees [of h s] by (auto simp: versions_agree_def set_client_capabilities_def)

lemma codec_for_version:
  assumes "versions_agree h" "version_for h s \<noteq> []"
  shows "codec_for h s = make_wire_codec (version_for h s)"
  using assms
  by (auto simp: versions_agree_def codec_for_def version_for_def default_version_def
      split: option.splits if_splits)

text \<open>Settings of a session, in the order they are made.\<close>

datatype session_setting = SetVersion string string | SetCapabilities string client_capabilities

fun apply_setting :: "session_setting \<Rightarrow> session_handler \<Rightarrow> session_handler" where
  "apply_setting (SetVersion s v) h = set_negotiated_protocol_version s v h"
| "apply_setting (SetCapabilities s c) h = set_client_capabilities s c h"

lemma settings_agree: "versions_agree h \<Longrightarrow> versions_agree (fold apply_setting xs h)"
proof (induction xs arbitrary: h)
  case (Cons x xs)
  then show ?case by (cases x) (simp_all add: set_version_agrees set_capabilities_agrees)
qed simp

text \<open>Whatever versions are negotiated, for the connection and for single sessions, and in any
  order, a session with a negotiated version is served by the rules of that version's era.\<close>

theorem negotiated_codec:
  assumes "version_for (fold apply_setting xs (new_handler codec canceller)) s \<noteq> []"
  shows "codec_for (fold apply_setting xs (new_handler codec canceller)) s =
    make_wire_codec (version_for (fold apply_setting xs (new_handler codec canceller)) s)"
  using settings_agree [OF versions_agree_new] assms by (rule codec_for_version)

theorem negotiated_codec_witness:
  "codec_for (fold apply_setting [SetVersion [] ''2025-06-18'', SetVersion ''s'' ''2026-07-28'']
     (new_handler Rev2025 False)) ''s'' = Rev2026"
proof -
  let ?h = "fold apply_setting [SetVersion [] ''2025-06-18'', SetVersion ''s'' ''2026-07-28'']
     (new_handler Rev2025 False)"
  have v: "version_for ?h ''s'' = ''2026-07-28''" by code_simp
  then have "codec_for ?h ''s'' = make_wire_codec (version_for ?h ''s'')" by (intro negotiated_codec) simp
  with v show ?thesis using wire_codec_named(2) by simp
qed

text \<open>Two requests whose ids differ only in their type have the same key.\<close>

lemma request_id_keys_collide: "get_request_id_key (IdInt 1) = get_request_id_key (IdString ''1'')"
  by code_simp

end
