(* ===== verification/Outgoing_Requests.thy ===== *)
theory Outgoing_Requests
  imports Session_State "HOL-Library.Multiset"
begin

text \<open>
  Requests a side sends: \<open>RegisterRequest\<close>, the answers that settle them, cancellation, timeouts and
  \<open>Close\<close>.  A request is settled when an outcome is delivered to its callbacks.  The second half of
  the theory runs these operations as steps of threads that interleave at the handler's mutexes and
  shows that no request is settled twice and that closing settles what is pending.
\<close>

section \<open>Removing a pending request\<close>

definition erase_progress_tokens :: "string \<Rightarrow> session_handler \<Rightarrow> session_handler" where
  "erase_progress_tokens key h = h\<lparr>sh_tokens := filter (\<lambda>(t, k). k \<noteq> key) (sh_tokens h)\<rparr>"

definition erase_pending :: "string \<Rightarrow> session_handler \<Rightarrow> session_handler" where
  "erase_pending key h =
     (let h' = erase_progress_tokens key h
      in h'\<lparr>sh_deadlines := amap_erase key (sh_deadlines h'), sh_pending := amap_erase key (sh_pending h')\<rparr>)"

definition take_pending :: "string option \<Rightarrow> session_handler \<Rightarrow> pending_request option \<times> session_handler" where
  "take_pending found h = (case found of
     None \<Rightarrow> (None, h)
   | Some key \<Rightarrow> (amap_find key (sh_pending h), erase_pending key h))"

definition find_pending_key :: "session_handler \<Rightarrow> string \<Rightarrow> string \<Rightarrow> string option" where
  "find_pending_key h session rid =
     (let k = session_request_key session rid; k0 = session_request_key [] rid
      in if amap_find k (sh_pending h) \<noteq> None then Some k
         else if session \<noteq> [] \<and> amap_find k0 (sh_pending h) \<noteq> None then Some k0
         else None)"

definition remove_pending :: "string \<Rightarrow> string \<Rightarrow> session_handler \<Rightarrow> pending_request option \<times> session_handler" where
  "remove_pending session rid h = take_pending (find_pending_key h session rid) h"

definition find_pending_key_by_id :: "session_handler \<Rightarrow> string \<Rightarrow> string option" where
  "find_pending_key_by_id h rid =
     (let k0 = session_request_key [] rid
      in if amap_find k0 (sh_pending h) \<noteq> None then Some k0
         else map_option fst (find (\<lambda>(k, p). pr_request_id p = rid) (sh_pending h)))"

definition remove_pending_by_request_id :: "string \<Rightarrow> session_handler \<Rightarrow> pending_request option \<times> session_handler" where
  "remove_pending_by_request_id rid h = take_pending (find_pending_key_by_id h rid) h"

section \<open>Answers\<close>

definition on_response :: "rpc_response \<Rightarrow> session_handler \<Rightarrow> session_handler \<times> session_event list" where
  "on_response r h =
     (case remove_pending (rs_session r) (get_request_id_key (rs_id r)) h of
        (None, h') \<Rightarrow> (h', [])
      | (Some p, h') \<Rightarrow> (h', [Delivered p (OutcomeResult (rs_result r))]))"

definition on_error :: "rpc_error_response \<Rightarrow> session_handler \<Rightarrow> session_handler \<times> session_event list" where
  "on_error e h =
     (case er_id e of
        None \<Rightarrow> (h, [])
      | Some rid \<Rightarrow>
          (case remove_pending (er_session e) (get_request_id_key rid) h of
             (None, h') \<Rightarrow> (h', [])
           | (Some p, h') \<Rightarrow> (h', [Delivered p (OutcomeError (er_error e))])))"

section \<open>Sending a request\<close>

definition with_legacy_token :: "progress_token option \<Rightarrow> json \<Rightarrow> json mres" where
  "with_legacy_token token params = (case token of
     None \<Rightarrow> Inr params
   | Some t \<Rightarrow>
       rbind (case json_find ''_meta'' params of
           Some m \<Rightarrow> Inr (params, m)
         | None \<Rightarrow> rmap (\<lambda>p. (p, JObject [])) (json_set ''_meta'' (JObject []) params)) (\<lambda>(p, m).
       rbind (json_set ''progressToken'' (serialize_progress_token t) m) (\<lambda>m'.
       json_set ''_meta'' m' p)))"

definition without_empty_meta :: "json \<Rightarrow> json option" where
  "without_empty_meta params = (case params of
     JObject m \<Rightarrow>
       (let m' = (if amap_find ''_meta'' m = Some (JObject []) then amap_erase ''_meta'' m else m)
        in if m' = [] then None else Some (JObject m'))
   | JNull \<Rightarrow> None
   | _ \<Rightarrow> Some params)"

text \<open>The parameters and the metadata of the request that goes out.\<close>

definition outgoing_params :: "json \<Rightarrow> request_meta \<Rightarrow> (json option \<times> json option) mres" where
  "outgoing_params params meta =
     (let p = (if is_null params then JObject [] else params)
      in if is_modern_protocol_version (rm_protocol_version meta)
         then rmap (\<lambda>m. (Some p, Some m)) (serialize_request_meta meta)
         else rmap (\<lambda>q. (without_empty_meta q, None)) (with_legacy_token (rm_progress_token meta) p))"

fun progress_token_key :: "progress_token \<Rightarrow> string" where
  "progress_token_key (TokenString s) = s"
| "progress_token_key (TokenInt i) = dec_int (sint i)"

definition new_pending :: "i64 \<Rightarrow> string \<Rightarrow> request_meta \<Rightarrow> time \<Rightarrow> bool \<Rightarrow> pending_request" where
  "new_pending i method meta deadline cancel_on_timeout = \<lparr>pr_deadline = deadline,
     pr_progress_token = rm_progress_token meta, pr_method = method, pr_request_id = dec_int (sint i),
     pr_id = IdInt i, pr_cancel_on_timeout = cancel_on_timeout, pr_session = []\<rparr>"

text \<open>The section under \<open>pending_mutex_\<close>.\<close>

definition store_pending :: "time \<Rightarrow> pending_request \<Rightarrow> session_handler \<Rightarrow> session_handler" where
  "store_pending now p h =
     (let key = session_request_key (pr_session p) (pr_request_id p)
      in h\<lparr>sh_pending := amap_put key p (sh_pending h),
           sh_tokens := (case pr_progress_token p of
             None \<Rightarrow> sh_tokens h | Some t \<Rightarrow> amap_put (progress_token_key t) key (sh_tokens h)),
           sh_deadlines := (if 0 < sh_max_total h then amap_put key (now + sh_max_total h) (sh_deadlines h)
             else sh_deadlines h)\<rparr>)"

definition connection_closed :: request_outcome where
  "connection_closed = OutcomeError \<lparr>ed_code = ConnectionClosed, ed_message = ''connection closed'', ed_data = None\<rparr>"

text \<open>
  The id is used up even when the parameters cannot be built and the call throws.
\<close>

definition register_request ::
  "time \<Rightarrow> string \<Rightarrow> json \<Rightarrow> request_meta \<Rightarrow> time \<Rightarrow> bool \<Rightarrow> session_handler \<Rightarrow>
   session_handler \<times> (request_id \<times> session_event list) mres" where
  "register_request now method params meta timeout cancel_on_timeout h =
     (let i = sh_next_id h; h1 = h\<lparr>sh_next_id := i + 1\<rparr>
      in case outgoing_params params meta of
           Inl e \<Rightarrow> (h1, Inl e)
         | Inr (ps, ms) \<Rightarrow>
             (let p = new_pending i method meta (now + timeout) cancel_on_timeout
              in if sh_closed h then (h1, Inr (IdInt i, [Delivered p connection_closed]))
                 else (store_pending now p h1,
                       Inr (IdInt i, [Sent (MsgRequest \<lparr>rq_jsonrpc = json_rpc_version, rq_id = IdInt i,
                         rq_method = method, rq_params = ps, rq_meta = ms, rq_session = []\<rparr>)]))))"

section \<open>Timeouts\<close>

definition request_expired :: "time \<Rightarrow> session_handler \<Rightarrow> string \<Rightarrow> pending_request \<Rightarrow> bool" where
  "request_expired now h key p \<longleftrightarrow>
     (case amap_find key (sh_deadlines h) of Some d \<Rightarrow> d \<le> now | None \<Rightarrow> False) \<or> pr_deadline p \<le> now"

definition timed_out :: request_outcome where
  "timed_out = OutcomeError \<lparr>ed_code = RequestTimeout, ed_message = ''request timed out'', ed_data = None\<rparr>"

definition timeout_events :: "session_handler \<Rightarrow> pending_request \<Rightarrow> session_event list mres" where
  "timeout_events h p =
     rbind (if pr_cancel_on_timeout p then cancel_transport_request h (pr_id p) (pr_session p) ''timeout''
            else Inr []) (\<lambda>es.
     Inr (es @ [Delivered p timed_out]))"

definition check_timeouts :: "time \<Rightarrow> session_handler \<Rightarrow> session_handler \<times> session_event list mres" where
  "check_timeouts now h =
     (let fired = filter (\<lambda>(k, p). request_expired now h k p) (sh_pending h);
          h' = fold (\<lambda>(k, p). erase_pending k) fired h
      in (h', rmap concat (rtraverse (\<lambda>(k, p). timeout_events h' p) fired)))"

definition progress_timeout_extension :: time where "progress_timeout_extension = seconds 30"

definition reset_timeout_by_progress_token :: "time \<Rightarrow> string \<Rightarrow> session_handler \<Rightarrow> session_handler" where
  "reset_timeout_by_progress_token now token h =
     (case amap_find token (sh_tokens h) of
        None \<Rightarrow> h
      | Some key \<Rightarrow>
          (case amap_find key (sh_pending h) of
             None \<Rightarrow> h
           | Some p \<Rightarrow>
               if pr_deadline p - now < progress_timeout_extension
               then h\<lparr>sh_pending := amap_put key (p\<lparr>pr_deadline := now + progress_timeout_extension\<rparr>)
                        (sh_pending h)\<rparr>
               else h))"

section \<open>Cancellation\<close>

definition cancelled_error :: "string \<Rightarrow> error_data" where
  "cancelled_error reason = \<lparr>ed_code = RequestCancelled, ed_message = ''request cancelled'',
     ed_data = (if reason = [] then None else Some (build_object [put ''reason'' (JString reason)]))\<rparr>"

text \<open>\<open>EnqueueCancellation\<close>: a closed handler drops the item.\<close>

definition enqueue_cancellation :: "pending_request \<Rightarrow> error_data \<Rightarrow> session_handler \<Rightarrow> session_handler" where
  "enqueue_cancellation p e h =
     (if sh_closed h then h else h\<lparr>sh_queue := sh_queue h @ [CancelItem p e]\<rparr>)"

definition cancel_request :: "request_id \<Rightarrow> string \<Rightarrow> session_handler \<Rightarrow> session_handler \<times> session_event list mres" where
  "cancel_request rid reason h =
     (case remove_pending_by_request_id (get_request_id_key rid) h of
        (None, h') \<Rightarrow> (h', Inr [])
      | (Some p, h') \<Rightarrow>
          (case cancel_transport_request h' rid (pr_session p) reason of
             Inl e \<Rightarrow> (h', Inl e)
           | Inr es \<Rightarrow> (enqueue_cancellation p (cancelled_error reason) h', Inr es)))"

section \<open>Closing\<close>

text \<open>
  \<open>Close\<close> after the threads have been joined: everything pending is settled, and the worker has thrown
  away its queue.
\<close>

definition close_drain :: "session_handler \<Rightarrow> session_handler \<times> session_event list" where
  "close_drain h =
     (h\<lparr>sh_pending := [], sh_tokens := [], sh_deadlines := [], sh_cancel_flags := []\<rparr>,
      map (\<lambda>(k, p). Delivered p connection_closed) (sh_pending h))"

definition close_begin :: "session_handler \<Rightarrow> session_handler" where
  "close_begin h = h\<lparr>sh_closed := True\<rparr>"

section \<open>The maps agree\<close>

text \<open>
  Every pending request is stored under its key, and progress tokens and total deadlines belong to
  pending requests.
\<close>

definition pending_ok :: "session_handler \<Rightarrow> bool" where
  "pending_ok h \<longleftrightarrow> amap_ok (sh_pending h) \<and> amap_ok (sh_tokens h) \<and> amap_ok (sh_deadlines h) \<and>
     (\<forall>k p. amap_find k (sh_pending h) = Some p \<longrightarrow> k = session_request_key (pr_session p) (pr_request_id p)) \<and>
     (\<forall>t k. amap_find t (sh_tokens h) = Some k \<longrightarrow> amap_find k (sh_pending h) \<noteq> None) \<and>
     (\<forall>k d. amap_find k (sh_deadlines h) = Some d \<longrightarrow> amap_find k (sh_pending h) \<noteq> None)"

lemma amap_erase_filter: "amap_ok m \<Longrightarrow> amap_erase k m = filter (\<lambda>kv. fst kv \<noteq> k) m"
proof (induction m)
  case (Cons kv m)
  have "filter (\<lambda>kv'. fst kv' \<noteq> fst kv) m = m"
    using Cons.prems by (cases kv) (force simp: amap_ok_Cons filter_id_conv)
  with Cons show ?case by (cases kv) (auto simp: amap_ok_Cons)
qed simp

lemma amap_ok_filter_keys: "amap_ok m \<Longrightarrow> amap_ok (filter P m)"
  by (simp add: amap_ok_def sorted_wrt_map sorted_wrt_filter)

lemma amap_find_filter_val: "amap_ok m \<Longrightarrow>
    amap_find t (filter (\<lambda>(k, v). P k v) m) =
      (case amap_find t m of Some v \<Rightarrow> if P t v then Some v else None | None \<Rightarrow> None)"
proof (induction m)
  case (Cons kv m)
  then show ?case
    by (cases kv) (auto simp: amap_ok_Cons amap_find_None_iff split: option.split)
qed simp

lemma erase_pending_fields [simp]:
  "sh_pending (erase_pending k h) = amap_erase k (sh_pending h)"
  "sh_deadlines (erase_pending k h) = amap_erase k (sh_deadlines h)"
  "sh_tokens (erase_pending k h) = filter (\<lambda>(t, key). key \<noteq> k) (sh_tokens h)"
  "sh_closed (erase_pending k h) = sh_closed h" "sh_next_id (erase_pending k h) = sh_next_id h"
  "sh_queue (erase_pending k h) = sh_queue h" "sh_waiting (erase_pending k h) = sh_waiting h"
  "sh_outstanding (erase_pending k h) = sh_outstanding h" "sh_capacity (erase_pending k h) = sh_capacity h"
  "sh_cancel_flags (erase_pending k h) = sh_cancel_flags h"
  by (simp_all add: erase_pending_def erase_progress_tokens_def Let_def)

lemma pending_ok_new: "pending_ok (new_handler codec canceller)"
  by (simp add: pending_ok_def new_handler_def)

lemma erase_pending_ok: "pending_ok h \<Longrightarrow> pending_ok (erase_pending k h)"
  by (auto simp: pending_ok_def amap_ok_filter_keys amap_find_filter_val split: option.splits)

lemma take_pending_ok: "pending_ok h \<Longrightarrow> pending_ok (snd (take_pending found h))"
  by (cases found) (simp_all add: take_pending_def erase_pending_ok)

lemma store_pending_ok: "pending_ok h \<Longrightarrow> pending_ok (store_pending now p h)"
  by (auto simp: pending_ok_def store_pending_def Let_def split: option.split if_splits)

lemma register_ok: "pending_ok h \<Longrightarrow> pending_ok (fst (register_request now m ps meta t c h))"
proof -
  assume ok: "pending_ok h"
  then have "pending_ok (h\<lparr>sh_next_id := i\<rparr>)" for i by (simp add: pending_ok_def)
  then show ?thesis
    by (auto simp: register_request_def Let_def intro: store_pending_ok split: sum.split)
qed

lemma on_response_alt: "on_response r h =
    (let x = remove_pending (rs_session r) (get_request_id_key (rs_id r)) h
     in (snd x, case fst x of None \<Rightarrow> [] | Some p \<Rightarrow> [Delivered p (OutcomeResult (rs_result r))]))"
  by (auto simp: on_response_def Let_def split: prod.split option.split)

lemma on_error_alt: "on_error e h = (case er_id e of None \<Rightarrow> (h, []) | Some rid \<Rightarrow>
    (let x = remove_pending (er_session e) (get_request_id_key rid) h
     in (snd x, case fst x of None \<Rightarrow> [] | Some p \<Rightarrow> [Delivered p (OutcomeError (er_error e))])))"
  by (auto simp: on_error_def Let_def split: prod.split option.split)

lemma on_response_ok: "pending_ok h \<Longrightarrow> pending_ok (fst (on_response r h))"
  by (simp add: on_response_alt Let_def remove_pending_def take_pending_ok)

lemma on_error_ok: "pending_ok h \<Longrightarrow> pending_ok (fst (on_error e h))"
  by (simp add: on_error_alt Let_def remove_pending_def take_pending_ok split: option.split)

lemma fold_erase_ok: "pending_ok h \<Longrightarrow> pending_ok (fold (\<lambda>(k, p). erase_pending k) fs h)"
  by (induction fs arbitrary: h) (auto simp: erase_pending_ok)

lemma check_timeouts_ok: "pending_ok h \<Longrightarrow> pending_ok (fst (check_timeouts now h))"
  by (simp add: check_timeouts_def Let_def fold_erase_ok)

lemma reset_timeout_ok: "pending_ok h \<Longrightarrow> pending_ok (reset_timeout_by_progress_token now t h)"
  by (auto simp: reset_timeout_by_progress_token_def pending_ok_def split: option.splits)

lemma cancel_request_ok: "pending_ok h \<Longrightarrow> pending_ok (fst (cancel_request rid reason h))"
proof -
  assume "pending_ok h"
  then have "pending_ok (snd (remove_pending_by_request_id (get_request_id_key rid) h))"
    by (simp add: remove_pending_by_request_id_def take_pending_ok)
  moreover have "pending_ok h' \<Longrightarrow> pending_ok (enqueue_cancellation p e h')" for h' p e
    by (simp add: enqueue_cancellation_def pending_ok_def)
  ultimately show ?thesis
    by (auto simp: cancel_request_def split: prod.splits option.splits sum.splits)
qed

lemma close_drain_ok: "pending_ok (fst (close_drain h))"
  by (simp add: close_drain_def pending_ok_def)

section \<open>What is pending and what is delivered\<close>

text \<open>The ids of the requests that are pending, and of those an operation settles.\<close>

definition pending_ids :: "session_handler \<Rightarrow> string multiset" where
  "pending_ids h = mset (map (\<lambda>(k, p). pr_request_id p) (sh_pending h))"

fun delivered_ids :: "session_event list \<Rightarrow> string list" where
  "delivered_ids [] = []"
| "delivered_ids (Delivered p v # es) = pr_request_id p # delivered_ids es"
| "delivered_ids (e # es) = delivered_ids es"

lemma delivered_ids_append [simp]: "delivered_ids (xs @ ys) = delivered_ids xs @ delivered_ids ys"
  by (induction xs rule: delivered_ids.induct) simp_all

lemma amap_erase_mset: "amap_find k m = Some v \<Longrightarrow> mset m = add_mset (k, v) (mset (amap_erase k m))"
  by (induction m) (auto split: if_splits)

lemma erase_pending_ids:
  "amap_find k (sh_pending h) = Some p \<Longrightarrow> pending_ids h = add_mset (pr_request_id p) (pending_ids (erase_pending k h))"
  by (auto simp: pending_ids_def dest!: amap_erase_mset)

lemma find_pending_key_found: "find_pending_key h s r = Some k \<Longrightarrow> amap_find k (sh_pending h) \<noteq> None"
  by (auto simp: find_pending_key_def Let_def split: if_splits)

lemma find_pending_key_by_id_found:
  assumes "find_pending_key_by_id h r = Some k"
  shows "amap_find k (sh_pending h) \<noteq> None"
proof (cases "amap_find (session_request_key [] r) (sh_pending h)")
  case None
  with assms obtain p where "find (\<lambda>(k, p). pr_request_id p = r) (sh_pending h) = Some (k, p)"
    by (auto simp: find_pending_key_by_id_def Let_def)
  then have "(k, p) \<in> set (sh_pending h)" by (auto simp: find_Some_iff) (metis nth_mem)
  then have "k \<in> fst ` set (sh_pending h)" by force
  then show ?thesis by (simp add: amap_find_None_iff)
next
  case (Some p)
  with assms show ?thesis by (auto simp: find_pending_key_by_id_def Let_def)
qed

lemma take_pending_ids:
  assumes "\<And>k. found = Some k \<Longrightarrow> amap_find k (sh_pending h) \<noteq> None"
  shows "pending_ids h = pending_ids (snd (take_pending found h)) +
    (case fst (take_pending found h) of Some p \<Rightarrow> {#pr_request_id p#} | None \<Rightarrow> {#})"
  using assms by (cases found) (auto simp: take_pending_def dest: erase_pending_ids)

lemma remove_pending_ids:
  "pending_ids h = pending_ids (snd (remove_pending s r h)) +
    (case fst (remove_pending s r h) of Some p \<Rightarrow> {#pr_request_id p#} | None \<Rightarrow> {#})"
  unfolding remove_pending_def by (rule take_pending_ids) (rule find_pending_key_found)

lemma remove_pending_by_id_ids:
  "pending_ids h = pending_ids (snd (remove_pending_by_request_id r h)) +
    (case fst (remove_pending_by_request_id r h) of Some p \<Rightarrow> {#pr_request_id p#} | None \<Rightarrow> {#})"
  unfolding remove_pending_by_request_id_def by (rule take_pending_ids) (rule find_pending_key_by_id_found)

lemma on_response_ids:
  "pending_ids h = pending_ids (fst (on_response r h)) + mset (delivered_ids (snd (on_response r h)))"
  using remove_pending_ids [of h "rs_session r" "get_request_id_key (rs_id r)"]
  by (simp add: on_response_alt Let_def split: option.splits)

lemma on_error_ids:
  "pending_ids h = pending_ids (fst (on_error e h)) + mset (delivered_ids (snd (on_error e h)))"
proof (cases "er_id e")
  case (Some rid)
  then show ?thesis
    using remove_pending_ids [of h "er_session e" "get_request_id_key rid"]
    by (simp add: on_error_alt Let_def split: option.splits)
qed (simp add: on_error_alt)

lemma fold_erase_ids:
  assumes "pending_ok h" "distinct (map fst fs)" "\<forall>(k, p) \<in> set fs. amap_find k (sh_pending h) = Some p"
  shows "pending_ids h = pending_ids (fold (\<lambda>(k, p). erase_pending k) fs h) + mset (map (\<lambda>(k, p). pr_request_id p) fs)"
  using assms
proof (induction fs arbitrary: h)
  case (Cons kp fs)
  obtain k p where kp: "kp = (k, p)" by (cases kp)
  let ?h = "erase_pending k h"
  have ok: "amap_ok (sh_pending h)" using Cons.prems(1) by (simp add: pending_ok_def)
  have "\<forall>(k', p') \<in> set fs. amap_find k' (sh_pending ?h) = Some p'"
    using Cons.prems(2,3) ok by (force simp: kp)
  then have "pending_ids ?h = pending_ids (fold (\<lambda>(k, p). erase_pending k) fs ?h) +
      mset (map (\<lambda>(k, p). pr_request_id p) fs)"
    using Cons.prems(1,2) by (intro Cons.IH) (simp_all add: kp erase_pending_ok)
  moreover have "pending_ids h = add_mset (pr_request_id p) (pending_ids ?h)"
    using Cons.prems(3) by (intro erase_pending_ids) (simp add: kp)
  ultimately show ?case by (simp add: kp)
qed simp

lemma cancel_transport_events:
  "\<exists>es. cancel_transport_request h rid session reason = Inr es \<and> delivered_ids es = []"
  using send_notification_total
  by (fastforce simp: cancel_transport_request_def send_cancelled_notification_def)

lemma timeout_events_delivered:
  "\<exists>es. timeout_events h p = Inr es \<and> delivered_ids es = [pr_request_id p]"
  using cancel_transport_events [of h "pr_id p" "pr_session p" "''timeout''"]
  by (auto simp: timeout_events_def)

lemma traverse_timeout_events:
  "\<exists>ess. rtraverse (\<lambda>(k, p). timeout_events h p) fs = Inr ess \<and>
     delivered_ids (concat ess) = map (\<lambda>(k, p). pr_request_id p) fs"
proof (induction fs)
  case (Cons kp fs)
  obtain k p where kp: "kp = (k, p)" by (cases kp)
  from Cons.IH timeout_events_delivered [of h p] show ?case by (auto simp: kp)
qed simp

text \<open>A timeout check never fails, removes exactly the expired requests and settles each of them.\<close>

lemma fold_erase_pending:
  "amap_ok (sh_pending h) \<Longrightarrow> sh_pending (fold (\<lambda>(k, p). erase_pending k) fs h) =
     filter (\<lambda>(k, p). k \<notin> fst ` set fs) (sh_pending h)"
proof (induction fs arbitrary: h)
  case (Cons kp fs)
  obtain k p where kp: "kp = (k, p)" by (cases kp)
  have "sh_pending (fold (\<lambda>(k, p). erase_pending k) fs (erase_pending k h)) =
      filter (\<lambda>(k, p). k \<notin> fst ` set fs) (amap_erase k (sh_pending h))"
    using Cons.prems by (subst Cons.IH) simp_all
  then show ?case
    using Cons.prems by (simp add: kp amap_erase_filter case_prod_beta')
qed simp

lemma check_timeouts_ids:
  assumes "pending_ok h"
  shows "\<exists>es. snd (check_timeouts now h) = Inr es \<and>
    pending_ids h = pending_ids (fst (check_timeouts now h)) + mset (delivered_ids es)"
proof -
  let ?fs = "filter (\<lambda>(k, p). request_expired now h k p) (sh_pending h)"
  have ok: "amap_ok (sh_pending h)" using assms by (simp add: pending_ok_def)
  have "distinct (map fst ?fs)"
    using ok by (simp add: amap_ok_def distinct_map_filter strict_sorted_iff)
  moreover have "\<forall>(k, p) \<in> set ?fs. amap_find k (sh_pending h) = Some p"
    using ok by (auto simp: amap_find_in_iff)
  ultimately have "pending_ids h = pending_ids (fold (\<lambda>(k, p). erase_pending k) ?fs h) +
      mset (map (\<lambda>(k, p). pr_request_id p) ?fs)"
    using assms by (intro fold_erase_ids)
  then show ?thesis
    using traverse_timeout_events [of "fold (\<lambda>(k, p). erase_pending k) ?fs h" ?fs]
    by (auto simp: check_timeouts_def Let_def)
qed

lemma check_timeouts_pending:
  assumes "pending_ok h"
  shows "sh_pending (fst (check_timeouts now h)) =
    filter (\<lambda>(k, p). \<not> request_expired now h k p) (sh_pending h)"
proof -
  have ok: "amap_ok (sh_pending h)" using assms by (simp add: pending_ok_def)
  have "k \<in> fst ` set (filter (\<lambda>(k, p). request_expired now h k p) (sh_pending h)) \<longleftrightarrow> request_expired now h k p"
    if "(k, p) \<in> set (sh_pending h)" for k p
  proof
    assume "k \<in> fst ` set (filter (\<lambda>(k, p). request_expired now h k p) (sh_pending h))"
    then obtain q where "(k, q) \<in> set (sh_pending h)" "request_expired now h k q" by auto
    moreover have "q = p" using that calculation(1) by (simp flip: amap_find_in_iff [OF ok])
    ultimately show "request_expired now h k p" by simp
  qed (use that in force)
  then show ?thesis
    using ok by (auto simp: check_timeouts_def Let_def fold_erase_pending intro!: filter_cong)
qed

lemma amap_put_mset: "amap_find k m = None \<Longrightarrow> mset (amap_put k v m) = add_mset (k, v) (mset m)"
  by (induction m) (auto split: if_splits)

lemma register_ids:
  assumes "amap_find (session_request_key [] (dec_int (sint (sh_next_id h)))) (sh_pending h) = None"
    and "snd (register_request now m ps meta t c h) = Inr (rid, es)"
  shows "pending_ids (fst (register_request now m ps meta t c h)) + mset (delivered_ids es) =
      add_mset (dec_int (sint (sh_next_id h))) (pending_ids h)"
  using assms
  by (auto simp: register_request_def Let_def pending_ids_def store_pending_def new_pending_def amap_put_mset
      split: sum.splits if_splits)

lemma register_failed_ids:
  "snd (register_request now m ps meta t c h) = Inl e \<Longrightarrow>
   pending_ids (fst (register_request now m ps meta t c h)) = pending_ids h"
  by (auto simp: register_request_def Let_def pending_ids_def split: sum.splits if_splits)

lemma close_drain_ids: "pending_ids h = mset (delivered_ids (snd (close_drain h)))"
proof -
  have "delivered_ids (map (\<lambda>(k, p). Delivered p connection_closed) m) = map (\<lambda>(k, p). pr_request_id p) m" for m
    by (induction m) auto
  then show ?thesis unfolding pending_ids_def close_drain_def snd_conv by metis
qed

section \<open>Deadlines\<close>

text \<open>A timeout check settles exactly the requests whose own or total deadline has passed, each
  with the error \<open>RequestTimeout\<close>, and keeps every other one as it is.\<close>

theorem check_timeouts_exact:
  assumes "pending_ok h"
  shows "\<exists>es. snd (check_timeouts now h) = Inr es \<and>
    sh_pending (fst (check_timeouts now h)) = filter (\<lambda>(k, p). \<not> request_expired now h k p) (sh_pending h) \<and>
    (\<forall>p v. Delivered p v \<in> set es \<longleftrightarrow>
       v = timed_out \<and> (\<exists>k. (k, p) \<in> set (sh_pending h) \<and> request_expired now h k p))"
proof -
  let ?fs = "filter (\<lambda>(k, p). request_expired now h k p) (sh_pending h)"
  have "\<exists>ess. rtraverse (\<lambda>(k, p). timeout_events h' p) fs = Inr ess \<and>
      (\<forall>p v. Delivered p v \<in> set (concat ess) \<longleftrightarrow> v = timed_out \<and> p \<in> snd ` set fs)" for h' and fs :: "(string \<times> pending_request) list"
  proof (induction fs)
    case (Cons kp fs)
    obtain k p where kp: "kp = (k, p)" by (cases kp)
    obtain es where es: "cancel_transport_request h' (pr_id p) (pr_session p) ''timeout'' = Inr es"
        "delivered_ids es = []"
      using cancel_transport_events by blast
    have "Delivered q v \<notin> set es" for q v
      using es(2) by (induction es rule: delivered_ids.induct) auto
    with es(1) Cons.IH show ?case
      by (auto simp: kp timeout_events_def) (force+)?
  qed simp
  from this [where h' = "fold (\<lambda>(k, p). erase_pending k) ?fs h" and fs = ?fs] show ?thesis
    using check_timeouts_pending [OF assms, of now]
    by (force simp: check_timeouts_def Let_def image_iff)
qed

definition sample_handler :: session_handler where
  "sample_handler = fst (register_request 0 ''tools/list'' JNull (version_meta ''2025-06-18'')
     (milliseconds 10) True (new_handler Rev2025 False))"

lemma sample_handler_ok: "pending_ok sample_handler"
  unfolding sample_handler_def by (rule register_ok) (rule pending_ok_new)

theorem check_timeouts_exact_witness:
  "\<exists>es. snd (check_timeouts (milliseconds 10) sample_handler) = Inr es \<and>
    sh_pending (fst (check_timeouts (milliseconds 10) sample_handler)) = [] \<and>
    (\<exists>p. Delivered p timed_out \<in> set es)"
proof -
  obtain es where es: "snd (check_timeouts (milliseconds 10) sample_handler) = Inr es"
    and rest: "sh_pending (fst (check_timeouts (milliseconds 10) sample_handler)) =
      filter (\<lambda>(k, p). \<not> request_expired (milliseconds 10) sample_handler k p) (sh_pending sample_handler)"
    and all: "\<And>p v. Delivered p v \<in> set es \<longleftrightarrow> v = timed_out \<and>
      (\<exists>k. (k, p) \<in> set (sh_pending sample_handler) \<and> request_expired (milliseconds 10) sample_handler k p)"
    using check_timeouts_exact [OF sample_handler_ok, of "milliseconds 10"] by blast
  obtain k p where one: "sh_pending sample_handler = [(k, p)]" "request_expired (milliseconds 10) sample_handler k p"
  proof -
    have "sh_pending sample_handler = [(session_request_key [] ''1'',
        new_pending 1 ''tools/list'' (version_meta ''2025-06-18'') (milliseconds 10) True)]"
      by code_simp
    then show ?thesis using that by (auto simp: request_expired_def new_pending_def)
  qed
  show ?thesis using es rest all [of p timed_out] one by (intro exI [of _ es]) auto
qed

lemma reset_keeps_deadlines [simp]:
  "sh_deadlines (reset_timeout_by_progress_token now t h) = sh_deadlines h"
  by (simp add: reset_timeout_by_progress_token_def split: option.split)

lemma resets_keep:
  "pending_ok h \<Longrightarrow> pending_ok (fold (\<lambda>(now, t). reset_timeout_by_progress_token now t) rs h) \<and>
   sh_deadlines (fold (\<lambda>(now, t). reset_timeout_by_progress_token now t) rs h) = sh_deadlines h"
  by (induction rs arbitrary: h) (auto simp: reset_timeout_ok)

text \<open>Progress keeps a request alive only up to its total deadline: however often and whenever the
  timeout is extended, a check at or after the total deadline settles the request.\<close>

theorem total_deadline_final:
  assumes "pending_ok h" "amap_find key (sh_deadlines h) = Some d" "d \<le> now"
  shows "amap_find key (sh_pending (fst (check_timeouts now
    (fold (\<lambda>(at, t). reset_timeout_by_progress_token at t) progress h)))) = None"
proof -
  let ?h = "fold (\<lambda>(at, t). reset_timeout_by_progress_token at t) progress h"
  have ok: "pending_ok ?h" and d: "sh_deadlines ?h = sh_deadlines h"
    using resets_keep [OF assms(1)] by blast+
  have "request_expired now ?h key p" for p
    using assms(2,3) by (simp add: request_expired_def d)
  then show ?thesis
    using ok by (simp add: check_timeouts_pending amap_find_filter_val pending_ok_def split: option.split)
qed

definition limited_handler :: session_handler where
  "limited_handler = fst (register_request 0 ''tools/list'' JNull
     ((version_meta ''2025-06-18'')\<lparr>rm_progress_token := Some (TokenString ''t'')\<rparr>) (milliseconds 10) True
     (set_max_total_timeout 5 (new_handler Rev2025 False)))"

theorem total_deadline_final_witness:
  "amap_find (session_request_key [] ''1'') (sh_pending (fst (check_timeouts (seconds 6)
    (fold (\<lambda>(at, t). reset_timeout_by_progress_token at t) [(milliseconds 9, ''t''), (seconds 4, ''t'')]
      limited_handler)))) = None"
proof (rule total_deadline_final)
  show "pending_ok limited_handler"
    unfolding limited_handler_def
    by (rule register_ok) (simp add: set_max_total_timeout_def pending_ok_def new_handler_def)
  show "amap_find (session_request_key [] ''1'') (sh_deadlines limited_handler) = Some (seconds 5)"
    by code_simp
qed (simp add: seconds_def)

text \<open>Progress never shortens the time a request has.\<close>

lemma reset_timeout_extends:
  "amap_find k (sh_pending h) = Some p \<Longrightarrow>
   \<exists>q. amap_find k (sh_pending (reset_timeout_by_progress_token now t h)) = Some q \<and>
     pr_deadline p \<le> pr_deadline q \<and> pr_request_id q = pr_request_id p"
  by (auto simp: reset_timeout_by_progress_token_def split: option.split)

end
