(* ===== verification/Incoming_Requests.thy ===== *)
theory Incoming_Requests
  imports Outgoing_Requests
begin

text \<open>
  Requests a side receives: the checks of \<open>OnRequest\<close>, the bounded queue of answers that are being
  computed, and the worker that sends them.  User code is a parameter: the handler of a method, which
  throws or returns and settles its future later, and the verifier of request states.
\<close>

section \<open>User code\<close>

datatype handler_reply = ReplyThrows mcp_error | ReplyFails | ReplyLater

datatype future_result = FutureValue json | FutureError mcp_error | FutureFailed

type_synonym request_handlers = "string \<Rightarrow> (rpc_request \<Rightarrow> handler_reply) option"

text \<open>\<open>std::exception::what\<close> is a C string.\<close>

definition what :: "mcp_error \<Rightarrow> string" where
  "what e = takeWhile (\<lambda>c. c \<noteq> chr 0) (err_message e)"

section \<open>Metadata\<close>

definition meta_field_invalid :: "json \<Rightarrow> string \<Rightarrow> (json \<Rightarrow> bool) \<Rightarrow> bool" where
  "meta_field_invalid meta key p \<longleftrightarrow> (case json_find key meta of Some v \<Rightarrow> \<not> p v | None \<Rightarrow> False)"

definition meta_field_checks :: "(string \<times> (json \<Rightarrow> bool)) list" where
  "meta_field_checks = [
     (''io.modelcontextprotocol/protocolVersion'', is_string),
     (''progressToken'', \<lambda>v. is_string v \<or> is_int v),
     (''io.modelcontextprotocol/clientInfo'', is_object),
     (''io.modelcontextprotocol/clientCapabilities'', is_object),
     (''io.modelcontextprotocol/logLevel'', is_string),
     (''traceparent'', is_string),
     (''tracestate'', is_string),
     (''baggage'', is_string)]"

definition invalid_meta_field :: "json \<Rightarrow> string option" where
  "invalid_meta_field meta =
     map_option fst (find (\<lambda>(key, p). meta_field_invalid meta key p) meta_field_checks)"

record incoming_meta =
  im_protocol_version :: string
  im_client_info :: "implementation option"
  im_client_capabilities :: "client_capabilities option"
  im_log_level :: "logging_level option"
  im_progress_token :: "progress_token option"
  im_subscription_id :: "string option"
  im_traceparent :: "string option"
  im_tracestate :: "string option"
  im_baggage :: "string option"

definition no_incoming_meta :: incoming_meta where
  "no_incoming_meta = \<lparr>im_protocol_version = [], im_client_info = None, im_client_capabilities = None,
     im_log_level = None, im_progress_token = None, im_subscription_id = None, im_traceparent = None,
     im_tracestate = None, im_baggage = None\<rparr>"

definition extract_incoming_meta :: "rpc_request \<Rightarrow> incoming_meta" where
  "extract_incoming_meta r =
     (case rq_meta r of
        None \<Rightarrow> no_incoming_meta
      | Some m \<Rightarrow>
          (case deserialize_request_meta m of
             Inl e \<Rightarrow> no_incoming_meta
           | Inr core \<Rightarrow> \<lparr>im_protocol_version = rm_protocol_version core, im_client_info = rm_client_info core,
               im_client_capabilities = rm_client_capabilities core, im_log_level = rm_log_level core,
               im_progress_token = rm_progress_token core,
               im_subscription_id = (case json_find ''io.modelcontextprotocol/subscriptionId'' m of
                 Some (JString s) \<Rightarrow> Some s | _ \<Rightarrow> None),
               im_traceparent = rm_traceparent core, im_tracestate = rm_tracestate core,
               im_baggage = rm_baggage core\<rparr>))"

section \<open>Capabilities\<close>

definition has_capability :: "client_capabilities \<Rightarrow> string \<Rightarrow> bool" where
  "has_capability caps required =
     (if required = ''sampling'' then cc_sampling caps \<noteq> None
      else if required = ''roots'' then cc_roots caps \<noteq> None
      else False)"

definition required_client_capability :: "string \<Rightarrow> string option" where
  "required_client_capability method =
     (if method = ''sampling/createMessage'' then Some ''sampling''
      else if method = ''roots/list'' then Some ''roots''
      else None)"

definition declares_capability :: "client_capabilities option \<Rightarrow> string \<Rightarrow> bool" where
  "declares_capability caps required = (case caps of Some c \<Rightarrow> has_capability c required | None \<Rightarrow> False)"

definition verify_capability :: "session_handler \<Rightarrow> rpc_request \<Rightarrow> string \<Rightarrow> error_data option" where
  "verify_capability h r required =
     (if declares_capability (im_client_capabilities (extract_incoming_meta r)) required \<or>
         declares_capability (get_client_capabilities h (rq_session r)) required
      then None
      else Some \<lparr>ed_code = MissingRequiredClientCapability,
        ed_message = ''missing required client capability: '' @ required,
        ed_data = Some (build_object [put ''requiredCapabilities'' (build_object [put required (JObject [])])])\<rparr>)"

section \<open>Checks of a request\<close>

type_synonym rejection = "error_code \<times> string \<times> json option"

definition check_era :: "session_handler \<Rightarrow> rpc_request \<Rightarrow> rejection option" where
  "check_era h r =
     (let validation = validate_request (codec_for h (rq_session r)) (rq_method r) (make_wire_request_view r);
          handshake_entry = (version_for h (rq_session r) = [] \<and>
            (rq_method r = ''initialize'' \<or> rq_method r = ''server/discover''))
      in if validation = WireNotInEra \<and> \<not> handshake_entry
         then Some (MethodNotFound, ''method not found: '' @ rq_method r, None)
         else if validation = WireInvalid then Some (InvalidRequest, ''invalid request: '' @ rq_method r, None)
         else None)"

definition check_meta :: "session_handler \<Rightarrow> rpc_request \<Rightarrow> rejection option" where
  "check_meta h r =
     (case rq_meta r of
        None \<Rightarrow> None
      | Some meta \<Rightarrow>
          if rq_method r = ''initialize'' then None
          else case invalid_meta_field meta of
                 Some field \<Rightarrow> Some (InvalidParams, ''invalid _meta field: '' @ field, None)
               | None \<Rightarrow>
                   (case json_find ''io.modelcontextprotocol/protocolVersion'' meta of
                      Some (JString requested) \<Rightarrow>
                        if is_version_supported h requested then None
                        else Some (UnsupportedProtocolVersion, ''unsupported protocol version: '' @ requested,
                               Some (make_version_error_data h requested))
                    | _ \<Rightarrow> None))"

definition check_capability :: "session_handler \<Rightarrow> rpc_request \<Rightarrow> rejection option" where
  "check_capability h r =
     (case required_client_capability (rq_method r) of
        None \<Rightarrow> None
      | Some c \<Rightarrow> map_option (\<lambda>e. (ed_code e, ed_message e, ed_data e)) (verify_capability h r c))"

definition check_request_state :: "(string \<Rightarrow> bool) option \<Rightarrow> rpc_request \<Rightarrow> rejection option" where
  "check_request_state verifier r =
     (case (verifier, rq_params r) of
        (Some f, Some p) \<Rightarrow>
          (case json_find ''requestState'' p of
             Some (JString s) \<Rightarrow>
               if f s then None
               else Some (InvalidParams, ''invalid requestState'',
                      Some (build_object [put ''reason'' (JString ''invalid_request_state'')]))
           | _ \<Rightarrow> None)
      | _ \<Rightarrow> None)"

definition reject :: "session_handler \<Rightarrow> rpc_request \<Rightarrow> rejection \<Rightarrow> session_handler \<times> session_event list" where
  "reject h r rj = (case rj of (code, msg, data) \<Rightarrow>
     (h, [send_error_response h (rq_id r) code msg data (rq_session r)]))"

section \<open>The queue of answers\<close>

definition enqueue_response :: "rpc_request \<Rightarrow> session_handler \<Rightarrow> session_handler \<times> session_event list" where
  "enqueue_response r h =
     (let key = session_request_key (rq_session r) (get_request_id_key (rq_id r))
      in if sh_closed h then (h, [])
         else if sh_capacity h \<le> sh_outstanding h then
           reject (erase_incoming_cancellation_flag key h) r (InternalError, ''response queue full'', None)
         else (h\<lparr>sh_outstanding := sh_outstanding h + 1, sh_queue := sh_queue h @ [ResponseItem r key]\<rparr>, []))"

definition call_handler ::
  "(rpc_request \<Rightarrow> handler_reply) \<Rightarrow> rpc_request \<Rightarrow> session_handler \<Rightarrow> session_handler \<times> session_event list" where
  "call_handler f r h =
     (let key = session_request_key (rq_session r) (get_request_id_key (rq_id r));
          h1 = h\<lparr>sh_cancel_flags := amap_put key False (sh_cancel_flags h)\<rparr>
      in case f r of
           ReplyThrows e \<Rightarrow> reject (erase_incoming_cancellation_flag key h1) r (err_code e, what e, err_data e)
         | ReplyFails \<Rightarrow> reject (erase_incoming_cancellation_flag key h1) r
             (InternalError, ''request handler failed'', None)
         | ReplyLater \<Rightarrow> enqueue_response r h1)"

definition on_request ::
  "request_handlers \<Rightarrow> (string \<Rightarrow> bool) option \<Rightarrow> rpc_request \<Rightarrow> session_handler \<Rightarrow>
   session_handler \<times> session_event list" where
  "on_request handlers verifier r h =
     (case check_era h r of
        Some rj \<Rightarrow> reject h r rj
      | None \<Rightarrow>
     (case check_meta h r of
        Some rj \<Rightarrow> reject h r rj
      | None \<Rightarrow>
     (case handlers (rq_method r) of
        None \<Rightarrow> reject h r (MethodNotFound, ''method not found: '' @ rq_method r, None)
      | Some f \<Rightarrow>
     (case check_capability h r of
        Some rj \<Rightarrow> reject h r rj
      | None \<Rightarrow>
     (case check_request_state verifier r of
        Some rj \<Rightarrow> reject h r rj
      | None \<Rightarrow> call_handler f r h)))))"

section \<open>The worker\<close>

definition inject_server_info_meta :: "json \<Rightarrow> implementation \<Rightarrow> json" where
  "inject_server_info_meta result info =
     (case result of
        JObject m \<Rightarrow>
          (let meta = (case amap_find ''_meta'' m of Some (JObject mm) \<Rightarrow> mm | _ \<Rightarrow> [])
           in JObject (amap_put ''_meta''
                (JObject (amap_emplace ''io.modelcontextprotocol/serverInfo'' (serialize_implementation info) meta)) m))
      | _ \<Rightarrow> result)"

definition error_answer :: "session_handler \<Rightarrow> rpc_request \<Rightarrow> error_code \<Rightarrow> string \<Rightarrow> json option \<Rightarrow> session_event" where
  "error_answer h r code message data =
     Sent (MsgError \<lparr>er_jsonrpc = json_rpc_version, er_id = Some (rq_id r),
       er_error = \<lparr>ed_code = encode_error_code (codec_for h (rq_session r)) code, ed_message = message, ed_data = data\<rparr>,
       er_session = rq_session r\<rparr>)"

definition deliver_response ::
  "future_result \<Rightarrow> rpc_request \<Rightarrow> string \<Rightarrow> session_handler \<Rightarrow> session_handler \<times> session_event list" where
  "deliver_response fut r key h =
     (if sh_closed h then (h, [])
      else (let h1 = erase_incoming_cancellation_flag key h
            in (h1,
              [case fut of
                 FutureValue v \<Rightarrow>
                   (case encode_result (codec_for h1 (rq_session r)) (rq_method r) v of
                      Inl e \<Rightarrow> error_answer h1 r (err_code e) (what e) (err_data e)
                    | Inr res \<Rightarrow> Sent (MsgResponse \<lparr>rs_jsonrpc = json_rpc_version, rs_id = rq_id r,
                        rs_result = (case sh_server_info h1 of
                          Some info \<Rightarrow> if is_modern_protocol_version (version_for h1 (rq_session r))
                            then inject_server_info_meta res info else res
                        | None \<Rightarrow> res),
                        rs_session = rq_session r\<rparr>))
               | FutureError e \<Rightarrow> error_answer h1 r (err_code e) (what e) (err_data e)
               | FutureFailed \<Rightarrow> error_answer h1 r InternalError ''internal error'' None])))"

definition release_response_slot :: "session_handler \<Rightarrow> session_handler" where
  "release_response_slot h = (if 0 < sh_outstanding h then h\<lparr>sh_outstanding := sh_outstanding h - 1\<rparr> else h)"

definition deliver_cancellation :: "pending_request \<Rightarrow> error_data \<Rightarrow> session_handler \<Rightarrow> session_event list" where
  "deliver_cancellation p e h = (if sh_closed h then [] else [Delivered p (OutcomeError e)])"

text \<open>
  One round of \<open>ResponseWorkerLoop\<close> in two steps: what has been queued is fetched, and a settled item
  of those fetched is taken out and handled.  A closed handler throws away what was fetched.
\<close>

definition worker_fetch :: "session_handler \<Rightarrow> session_handler" where
  "worker_fetch h = (let h1 = h\<lparr>sh_waiting := sh_waiting h @ sh_queue h, sh_queue := []\<rparr>
     in if sh_closed h then h1\<lparr>sh_waiting := []\<rparr> else h1)"

definition worker_handle :: "nat \<Rightarrow> future_result \<Rightarrow> session_handler \<Rightarrow> session_handler \<times> session_event list" where
  "worker_handle i fut h =
     (if length (sh_waiting h) \<le> i then (h, [])
      else (let h1 = h\<lparr>sh_waiting := take i (sh_waiting h) @ drop (Suc i) (sh_waiting h)\<rparr>
            in case sh_waiting h ! i of
                 CancelItem p e \<Rightarrow> (h1, deliver_cancellation p e h1)
               | ResponseItem r key \<Rightarrow> deliver_response fut r key (release_response_slot h1)))"

section \<open>Notifications and dispatch\<close>

text \<open>
  Handlers of notifications other than \<open>cancelled\<close> are user code and do not touch the handler's state.
\<close>

definition on_notification :: "rpc_notification \<Rightarrow> session_handler \<Rightarrow> session_handler" where
  "on_notification n h =
     (if validate_notification (codec_for h (nt_session n)) (nt_method n)
           (wv_raw (make_wire_notification_view n)) \<noteq> WireOk then h
      else if nt_method n = ''notifications/cancelled'' then handle_cancelled n h
      else h)"

fun dispatch_incoming ::
  "request_handlers \<Rightarrow> (string \<Rightarrow> bool) option \<Rightarrow> rpc_message \<Rightarrow> session_handler \<Rightarrow>
   session_handler \<times> session_event list" where
  "dispatch_incoming handlers verifier (MsgRequest r) h = on_request handlers verifier r h"
| "dispatch_incoming handlers verifier (MsgResponse r) h = on_response r h"
| "dispatch_incoming handlers verifier (MsgError e) h = on_error e h"
| "dispatch_incoming handlers verifier (MsgNotification n) h = (on_notification n h, [])"

section \<open>Every request is answered once\<close>

fun answers :: "rpc_request \<Rightarrow> session_event \<Rightarrow> bool" where
  "answers r (Sent (MsgResponse p)) = (rs_id p = rq_id r \<and> rs_session p = rq_session r)"
| "answers r (Sent (MsgError e)) = (er_id e = Some (rq_id r) \<and> er_session e = rq_session r)"
| "answers r _ = False"

definition request_key :: "rpc_request \<Rightarrow> string" where
  "request_key r = session_request_key (rq_session r) (get_request_id_key (rq_id r))"

definition rejected_or_queued ::
  "rpc_request \<Rightarrow> session_handler \<Rightarrow> session_handler \<times> session_event list \<Rightarrow> bool" where
  "rejected_or_queued r h out \<longleftrightarrow>
     (\<exists>e. snd out = [e] \<and> answers r e \<and> sh_queue (fst out) = sh_queue h \<and>
        sh_outstanding (fst out) = sh_outstanding h) \<or>
     (snd out = [] \<and> sh_queue (fst out) = sh_queue h @ [ResponseItem r (request_key r)] \<and>
        sh_outstanding (fst out) = sh_outstanding h + 1 \<and> sh_outstanding h < sh_capacity h)"

lemma reject_answers:
  "sh_queue h' = sh_queue h \<Longrightarrow> sh_outstanding h' = sh_outstanding h \<Longrightarrow> rejected_or_queued r h (reject h' r rj)"
  by (cases rj) (simp add: rejected_or_queued_def reject_def send_error_response_def)

lemma enqueue_answers: "\<not> sh_closed h \<Longrightarrow> rejected_or_queued r h (enqueue_response r h)"
  by (auto simp: enqueue_response_def Let_def intro: reject_answers
      simp: erase_incoming_cancellation_flag_def)
    (simp add: rejected_or_queued_def request_key_def)

lemma call_handler_answers:
  assumes "\<not> sh_closed h"
  shows "rejected_or_queued r h (call_handler f r h)"
proof (cases "f r")
  case ReplyLater
  have "rejected_or_queued r h1 x \<Longrightarrow> sh_queue h1 = sh_queue h \<Longrightarrow> sh_outstanding h1 = sh_outstanding h \<Longrightarrow>
      sh_capacity h1 = sh_capacity h \<Longrightarrow> rejected_or_queued r h x" for h1 x
    by (simp add: rejected_or_queued_def)
  from this [OF enqueue_answers] show ?thesis
    using assms ReplyLater by (simp add: call_handler_def Let_def)
qed (simp_all add: call_handler_def Let_def reject_answers erase_incoming_cancellation_flag_def)

text \<open>While the handler is open, a received request is either answered at once with exactly one
  error that carries its id and session, or put into the bounded queue exactly once, for the worker
  to answer; the queue never takes more than its capacity.\<close>

theorem request_rejected_or_queued:
  "\<not> sh_closed h \<Longrightarrow> rejected_or_queued r h (on_request handlers verifier r h)"
  by (auto simp: on_request_def intro: reject_answers call_handler_answers split: option.split)

definition sample_request :: rpc_request where
  "sample_request = \<lparr>rq_jsonrpc = ''2.0'', rq_id = IdInt 7, rq_method = ''tools/list'', rq_params = None,
     rq_meta = None, rq_session = ''s''\<rparr>"

theorem request_rejected_or_queued_witness:
  "rejected_or_queued sample_request (new_handler Rev2025 False)
     (on_request (\<lambda>m. Some (\<lambda>r. ReplyLater)) None sample_request (new_handler Rev2025 False))"
  by (rule request_rejected_or_queued) (simp add: new_handler_def)

lemma deliver_response_answers:
  "\<not> sh_closed h \<Longrightarrow> \<exists>e. snd (deliver_response fut r key h) = [e] \<and> answers r e"
  by (auto simp: deliver_response_def Let_def error_answer_def split: future_result.split sum.split)

lemma deliver_response_fields [simp]:
  "sh_queue (fst (deliver_response fut r key h)) = sh_queue h"
  "sh_waiting (fst (deliver_response fut r key h)) = sh_waiting h"
  "sh_outstanding (fst (deliver_response fut r key h)) = sh_outstanding h"
  "sh_capacity (fst (deliver_response fut r key h)) = sh_capacity h"
  "sh_closed (fst (deliver_response fut r key h)) = sh_closed h"
  by (simp_all add: deliver_response_def Let_def erase_incoming_cancellation_flag_def)

text \<open>When a future is settled the worker sends exactly one message, a response or an error with the
  id and the session of the request, frees one slot of the queue and drops the cancellation flag.\<close>

theorem settled_request_answered:
  assumes "\<not> sh_closed h" "i < length (sh_waiting h)" "sh_waiting h ! i = ResponseItem r key"
  shows "\<exists>e. snd (worker_handle i fut h) = [e] \<and> answers r e \<and>
    sh_waiting (fst (worker_handle i fut h)) = take i (sh_waiting h) @ drop (Suc i) (sh_waiting h) \<and>
    sh_outstanding (fst (worker_handle i fut h)) = sh_outstanding h - 1 \<and>
    (amap_ok (sh_cancel_flags h) \<longrightarrow> amap_find key (sh_cancel_flags (fst (worker_handle i fut h))) = None)"
  using assms deliver_response_answers
    [of "release_response_slot (h\<lparr>sh_waiting := take i (sh_waiting h) @ drop (Suc i) (sh_waiting h)\<rparr>)" fut r key]
  by (auto simp: worker_handle_def Let_def release_response_slot_def)
    (auto simp: deliver_response_def Let_def erase_incoming_cancellation_flag_def)

definition busy_handler :: session_handler where
  "busy_handler = worker_fetch (fst (on_request (\<lambda>m. Some (\<lambda>r. ReplyLater)) None sample_request
     (new_handler Rev2025 False)))"

theorem settled_request_answered_witness:
  "\<exists>e. snd (worker_handle 0 FutureFailed busy_handler) = [e] \<and> answers sample_request e"
proof -
  have "sh_waiting busy_handler = [ResponseItem sample_request (request_key sample_request)]"
      "\<not> sh_closed busy_handler"
    by code_simp+
  then show ?thesis
    using settled_request_answered [of busy_handler 0 sample_request "request_key sample_request" FutureFailed]
    by auto
qed

section \<open>The handler comes last\<close>

definition all_checks_pass :: "(string \<Rightarrow> bool) option \<Rightarrow> rpc_request \<Rightarrow> session_handler \<Rightarrow> bool" where
  "all_checks_pass verifier r h \<longleftrightarrow> check_era h r = None \<and> check_meta h r = None \<and>
     check_capability h r = None \<and> check_request_state verifier r = None"

text \<open>C26: no handler runs for a request that is not of the session's era, has malformed metadata or an
  unsupported version, lacks a capability the method needs, or carries a request state that does not
  verify: the outcome is the same whatever the registered handlers would do, it is one error, and no
  cancellation flag is made.\<close>

theorem handler_needs_checks:
  assumes "\<not> all_checks_pass verifier r h" and "\<And>m. (f m = None) = (g m = None)"
  shows "on_request f verifier r h = on_request g verifier r h \<and> fst (on_request f verifier r h) = h \<and>
    (\<exists>e. snd (on_request f verifier r h) = [e] \<and> answers r e)"
proof -
  have rej: "fst (reject h r rj) = h" "\<exists>e. snd (reject h r rj) = [e] \<and> answers r e" for rj
    by (cases rj; simp add: reject_def send_error_response_def)+
  show ?thesis
    using assms(1) assms(2) [of "rq_method r"] rej
    by (cases "f (rq_method r)"; cases "g (rq_method r)")
      (auto simp: on_request_def all_checks_pass_def split: option.split)
qed

theorem handler_needs_checks_witness:
  "on_request (\<lambda>m. Some (\<lambda>r. ReplyLater)) None (sample_request\<lparr>rq_method := ''roots/list''\<rparr>) (new_handler Rev2025 False) =
   on_request (\<lambda>m. Some (\<lambda>r. ReplyFails)) None (sample_request\<lparr>rq_method := ''roots/list''\<rparr>) (new_handler Rev2025 False)"
proof -
  have "\<not> all_checks_pass None (sample_request\<lparr>rq_method := ''roots/list''\<rparr>) (new_handler Rev2025 False)"
    by code_simp
  from handler_needs_checks [OF this, of "\<lambda>m. Some (\<lambda>r. ReplyLater)" "\<lambda>m. Some (\<lambda>r. ReplyFails)"]
  show ?thesis by simp
qed

section \<open>Answers are valid in the era of their session\<close>

lemma inject_keeps_type: "json_find ''resultType'' (inject_server_info_meta j info) = json_find ''resultType'' j"
  by (cases j) (simp_all add: inject_server_info_meta_def Let_def)

lemma validate_response_cong:
  "json_find ''resultType'' j = json_find ''resultType'' j' \<Longrightarrow> validate_response e m j = validate_response e m j'"
  by (cases e) (simp_all add: validate_response_2025_def validate_response_2026_def json_contains_def)

lemma encoded_result_ok:
  assumes "is_object v" "json_ok v" "json_find ''resultType'' v = None"
  shows "\<exists>r. encode_result e m v = Inr r \<and> validate_response e m r = WireOk"
  using rev2025.encoded_accepted [OF assms] rev2026.encoded_accepted [OF assms] by (cases e) auto

text \<open>An object a handler returns, if it names no result type itself, reaches the peer as a
  response its era accepts, also after the server's description has been added.\<close>

theorem delivered_response_valid:
  assumes "\<not> sh_closed h" "is_object v" "json_ok v" "json_find ''resultType'' v = None"
  shows "\<exists>p. snd (deliver_response (FutureValue v) r key h) = [Sent (MsgResponse p)] \<and>
    rs_id p = rq_id r \<and> validate_response (codec_for h (rq_session r)) (rq_method r) (rs_result p) = WireOk"
proof -
  have c: "codec_for (erase_incoming_cancellation_flag key h) s = codec_for h s" for s
    by (simp add: codec_for_def erase_incoming_cancellation_flag_def split: option.split)
  obtain res where res: "encode_result (codec_for h (rq_session r)) (rq_method r) v = Inr res"
      "validate_response (codec_for h (rq_session r)) (rq_method r) res = WireOk"
    using encoded_result_ok [OF assms(2-4)] by blast
  have "validate_response e m (inject_server_info_meta res info) = validate_response e m res" for e m info
    by (rule validate_response_cong) (rule inject_keeps_type)
  with res assms(1) show ?thesis
    by (auto simp: deliver_response_def Let_def c split: option.split)
qed

theorem delivered_response_valid_witness:
  "\<exists>p. snd (deliver_response (FutureValue (JObject [])) sample_request ''k'' (new_handler Rev2026 False)) =
    [Sent (MsgResponse p)] \<and> rs_id p = IdInt 7 \<and>
    validate_response (codec_for (new_handler Rev2026 False) ''s'') ''tools/list'' (rs_result p) = WireOk"
  using delivered_response_valid [of "new_handler Rev2026 False" "JObject []" sample_request "''k''"]
  by (simp add: new_handler_def sample_request_def)

section \<open>Cancellation stays in its session\<close>

text \<open>A cancellation notice raises the flag of the named request of its own session and touches no
  flag of another session or of another id, and no other part of the handler.\<close>

theorem cancellation_isolated:
  assumes "nt_params n = Some (JObject [(''requestId'', request_id_to_json rid)])"
  shows "get_incoming_cancellation_flag (handle_cancelled n h) q s =
      (if s = nt_session n \<and> get_request_id_key q = get_request_id_key rid
       then map_option (\<lambda>_. True) (get_incoming_cancellation_flag h q s)
       else get_incoming_cancellation_flag h q s) \<and>
    (handle_cancelled n h)\<lparr>sh_cancel_flags := f\<rparr> = h\<lparr>sh_cancel_flags := f\<rparr>"
  using assms
  by (cases rid) (auto simp: handle_cancelled_def get_incoming_cancellation_flag_def Let_def split: option.split)

theorem cancellation_isolated_witness:
  "get_incoming_cancellation_flag (handle_cancelled \<lparr>nt_jsonrpc = ''2.0'', nt_method = ''notifications/cancelled'',
      nt_params = Some (JObject [(''requestId'', request_id_to_json (IdInt 7))]), nt_meta = None,
      nt_session = ''t''\<rparr> busy_handler) (IdInt 7) ''s'' = get_incoming_cancellation_flag busy_handler (IdInt 7) ''s''"
  using cancellation_isolated [of "\<lparr>nt_jsonrpc = ''2.0'', nt_method = ''notifications/cancelled'',
      nt_params = Some (JObject [(''requestId'', request_id_to_json (IdInt 7))]), nt_meta = None,
      nt_session = ''t''\<rparr>" "IdInt 7" busy_handler "IdInt 7" "''s''"]
  by simp

end
