(* ===== verification/Session_Run.thy ===== *)
theory Session_Run
  imports Incoming_Requests
begin

text \<open>
  Runs of a session handler.  The message loop, the timeout thread, the worker and the callers of
  \<open>SendRequest\<close>, \<open>CancelRequest\<close> and \<open>Close\<close> interleave at the mutexes; a step is what one of them does
  between two such points.  A cancelled request is in the hands of the caller between
  \<open>RemovePendingByRequestId\<close> and \<open>EnqueueCancellation\<close>.  The other fields of the world record what has
  happened to the requests: which were registered, which were settled, whose cancellation was asked for,
  and which were thrown away by a closed handler.
\<close>

record world =
  w_handler :: session_handler
  w_hand :: "(pending_request \<times> error_data) list"
  w_registered :: "string list"
  w_settled :: "string list"
  w_cancelled :: "string list"
  w_dropped :: "string list"
  w_drained :: bool

definition new_world :: "era \<Rightarrow> bool \<Rightarrow> world" where
  "new_world codec canceller = \<lparr>w_handler = new_handler codec canceller, w_hand = [], w_registered = [],
     w_settled = [], w_cancelled = [], w_dropped = [], w_drained = False\<rparr>"

fun cancel_ids :: "queue_item list \<Rightarrow> string list" where
  "cancel_ids [] = []"
| "cancel_ids (CancelItem p e # is) = pr_request_id p # cancel_ids is"
| "cancel_ids (ResponseItem r k # is) = cancel_ids is"

fun response_count :: "queue_item list \<Rightarrow> nat" where
  "response_count [] = 0"
| "response_count (CancelItem p e # is) = response_count is"
| "response_count (ResponseItem r k # is) = Suc (response_count is)"

text \<open>Ids are used up by \<open>next_request_id_++\<close>; a run makes fewer than \<open>2 ^ 63 - 1\<close> requests.\<close>

inductive session_step :: "world \<Rightarrow> world \<Rightarrow> bool" where
  register: "register_request now m ps meta t c (w_handler w) = (h', Inr (rid, es)) \<Longrightarrow>
    sint (sh_next_id (w_handler w)) < 2 ^ 63 - 1 \<Longrightarrow>
    session_step w (w\<lparr>w_handler := h', w_registered := get_request_id_key rid # w_registered w,
      w_settled := delivered_ids es @ w_settled w\<rparr>)"
| register_failed: "register_request now m ps meta t c (w_handler w) = (h', Inl e) \<Longrightarrow>
    sint (sh_next_id (w_handler w)) < 2 ^ 63 - 1 \<Longrightarrow>
    session_step w (w\<lparr>w_handler := h'\<rparr>)"
| receive: "dispatch_incoming handlers verifier msg (w_handler w) = (h', es) \<Longrightarrow>
    session_step w (w\<lparr>w_handler := h', w_settled := delivered_ids es @ w_settled w\<rparr>)"
| timeouts: "check_timeouts now (w_handler w) = (h', Inr es) \<Longrightarrow>
    session_step w (w\<lparr>w_handler := h', w_settled := delivered_ids es @ w_settled w\<rparr>)"
| progress: "session_step w (w\<lparr>w_handler := reset_timeout_by_progress_token now tok (w_handler w)\<rparr>)"
| setting: "session_step w (w\<lparr>w_handler := apply_setting x (w_handler w)\<rparr>)"
| cancel_take: "remove_pending_by_request_id (get_request_id_key rid) (w_handler w) = (Some p, h') \<Longrightarrow>
    session_step w (w\<lparr>w_handler := h', w_hand := (p, cancelled_error reason) # w_hand w,
      w_cancelled := pr_request_id p # w_cancelled w\<rparr>)"
| cancel_put: "w_hand w = xs @ (p, e) # ys \<Longrightarrow>
    session_step w (w\<lparr>w_handler := enqueue_cancellation p e (w_handler w), w_hand := xs @ ys,
      w_dropped := (if sh_closed (w_handler w) then [pr_request_id p] else []) @ w_dropped w\<rparr>)"
| fetch: "session_step w (w\<lparr>w_handler := worker_fetch (w_handler w),
      w_dropped := (if sh_closed (w_handler w)
        then cancel_ids (sh_waiting (w_handler w) @ sh_queue (w_handler w)) else []) @ w_dropped w\<rparr>)"
| handle: "i < length (sh_waiting (w_handler w)) \<Longrightarrow> worker_handle i fut (w_handler w) = (h', es) \<Longrightarrow>
    session_step w (w\<lparr>w_handler := h', w_settled := delivered_ids es @ w_settled w,
      w_dropped := (if sh_closed (w_handler w) then cancel_ids [sh_waiting (w_handler w) ! i] else []) @ w_dropped w\<rparr>)"
| close: "session_step w (w\<lparr>w_handler := close_begin (w_handler w)\<rparr>)"
| drain: "sh_closed (w_handler w) \<Longrightarrow> close_drain (w_handler w) = (h', es) \<Longrightarrow>
    session_step w (w\<lparr>w_handler := h', w_settled := delivered_ids es @ w_settled w, w_drained := True\<rparr>)"

inductive session_run :: "era \<Rightarrow> bool \<Rightarrow> world \<Rightarrow> bool" for codec canceller where
  start: "session_run codec canceller (new_world codec canceller)"
| step: "session_run codec canceller w \<Longrightarrow> session_step w w' \<Longrightarrow> session_run codec canceller w'"

section \<open>The invariant\<close>

definition items :: "session_handler \<Rightarrow> queue_item list" where
  "items h = sh_waiting h @ sh_queue h"

definition hand_ids :: "world \<Rightarrow> string list" where
  "hand_ids w = map (\<lambda>(p, e). pr_request_id p) (w_hand w)"

text \<open>Every registered request is in exactly one place.\<close>

definition ledger :: "world \<Rightarrow> bool" where
  "ledger w \<longleftrightarrow> mset (w_registered w) = pending_ids (w_handler w) + mset (hand_ids w) +
     mset (cancel_ids (items (w_handler w))) + mset (w_settled w) + mset (w_dropped w)"

definition ids_fresh :: "world \<Rightarrow> bool" where
  "ids_fresh w \<longleftrightarrow> 0 < sint (sh_next_id (w_handler w)) \<and> distinct (w_registered w) \<and>
     (\<forall>x \<in> set (w_registered w). \<exists>n. 0 < n \<and> n < sint (sh_next_id (w_handler w)) \<and> x = dec_int n)"

definition slots_exact :: "world \<Rightarrow> bool" where
  "slots_exact w \<longleftrightarrow> sh_outstanding (w_handler w) \<le> sh_capacity (w_handler w) \<and>
     (\<not> sh_closed (w_handler w) \<longrightarrow> sh_outstanding (w_handler w) = response_count (items (w_handler w)) \<and>
        w_dropped w = [])"

definition drops_cancelled :: "world \<Rightarrow> bool" where
  "drops_cancelled w \<longleftrightarrow>
     mset (hand_ids w) + mset (cancel_ids (items (w_handler w))) + mset (w_dropped w) \<subseteq># mset (w_cancelled w)"

definition drained_empty :: "world \<Rightarrow> bool" where
  "drained_empty w \<longleftrightarrow> (w_drained w \<longrightarrow> sh_closed (w_handler w) \<and> sh_pending (w_handler w) = [])"

definition run_ok :: "world \<Rightarrow> bool" where
  "run_ok w \<longleftrightarrow> pending_ok (w_handler w) \<and> ledger w \<and> ids_fresh w \<and> slots_exact w \<and> drops_cancelled w \<and> drained_empty w"

section \<open>What the operations leave alone\<close>

definition same_requests :: "session_handler \<Rightarrow> session_handler \<Rightarrow> bool" where
  "same_requests h h' \<longleftrightarrow> sh_pending h' = sh_pending h \<and> sh_tokens h' = sh_tokens h \<and>
     sh_deadlines h' = sh_deadlines h \<and> sh_next_id h' = sh_next_id h \<and> sh_closed h' = sh_closed h \<and>
     sh_capacity h' = sh_capacity h"

lemma same_requests_ids: "same_requests h h' \<Longrightarrow> pending_ids h' = pending_ids h \<and> (pending_ok h' \<longleftrightarrow> pending_ok h)"
  by (simp add: same_requests_def pending_ids_def pending_ok_def)

lemma cancel_ids_append [simp]: "cancel_ids (xs @ ys) = cancel_ids xs @ cancel_ids ys"
  by (induction xs rule: cancel_ids.induct) simp_all

lemma response_count_append [simp]: "response_count (xs @ ys) = response_count xs + response_count ys"
  by (induction xs rule: response_count.induct) simp_all

text \<open>A received request touches the queue and its own flag only.\<close>

definition request_effect :: "session_handler \<Rightarrow> session_handler \<times> session_event list \<Rightarrow> bool" where
  "request_effect h out \<longleftrightarrow> same_requests h (fst out) \<and> delivered_ids (snd out) = [] \<and>
     sh_waiting (fst out) = sh_waiting h \<and>
     (sh_queue (fst out) = sh_queue h \<and> sh_outstanding (fst out) = sh_outstanding h \<or>
      (\<exists>r k. sh_queue (fst out) = sh_queue h @ [ResponseItem r k]) \<and>
        sh_outstanding (fst out) = sh_outstanding h + 1 \<and> sh_outstanding h < sh_capacity h)"

lemma reject_effect:
  "same_requests h h' \<Longrightarrow> sh_waiting h' = sh_waiting h \<Longrightarrow> sh_queue h' = sh_queue h \<Longrightarrow>
   sh_outstanding h' = sh_outstanding h \<Longrightarrow> request_effect h (reject h' r rj)"
  by (cases rj) (simp add: request_effect_def reject_def send_error_response_def)

lemma call_handler_effect: "request_effect h (call_handler f r h)"
proof (cases "f r")
  case ReplyLater
  then show ?thesis
    by (auto simp: call_handler_def enqueue_response_def Let_def erase_incoming_cancellation_flag_def
        same_requests_def intro!: reject_effect)
      (auto simp: request_effect_def same_requests_def)
qed (simp_all add: call_handler_def Let_def reject_effect erase_incoming_cancellation_flag_def same_requests_def)

lemma on_request_effect: "request_effect h (on_request handlers verifier r h)"
  by (auto simp: on_request_def same_requests_def intro!: reject_effect call_handler_effect split: option.split)

lemma on_notification_same: "same_requests h (on_notification n h) \<and> sh_waiting (on_notification n h) = sh_waiting h \<and>
    sh_queue (on_notification n h) = sh_queue h \<and> sh_outstanding (on_notification n h) = sh_outstanding h"
  by (auto simp: on_notification_def handle_cancelled_def same_requests_def Let_def split: option.split)

lemma apply_setting_same: "same_requests h (apply_setting x h) \<and> sh_waiting (apply_setting x h) = sh_waiting h \<and>
    sh_queue (apply_setting x h) = sh_queue h \<and> sh_outstanding (apply_setting x h) = sh_outstanding h"
  by (cases x) (auto simp: set_negotiated_protocol_version_def set_client_capabilities_def same_requests_def)

text \<open>What settles requests leaves the queue alone.\<close>

definition same_queue :: "session_handler \<Rightarrow> session_handler \<Rightarrow> bool" where
  "same_queue h h' \<longleftrightarrow> sh_next_id h' = sh_next_id h \<and> sh_closed h' = sh_closed h \<and> sh_capacity h' = sh_capacity h \<and>
     sh_waiting h' = sh_waiting h \<and> sh_queue h' = sh_queue h \<and> sh_outstanding h' = sh_outstanding h"

lemma same_queue_refl [simp]: "same_queue h h"
  by (simp add: same_queue_def)

lemma same_queue_trans: "same_queue h h' \<Longrightarrow> same_queue h' h'' \<Longrightarrow> same_queue h h''"
  by (simp add: same_queue_def)

lemma erase_pending_queue: "same_queue h (erase_pending k h)"
  by (simp add: same_queue_def)

lemma take_pending_queue: "same_queue h (snd (take_pending found h))"
  by (cases found) (simp_all add: take_pending_def erase_pending_queue)

lemma fold_erase_queue: "same_queue h (fold (\<lambda>(k, p). erase_pending k) fs h)"
proof (induction fs arbitrary: h)
  case (Cons kp fs)
  obtain k p where kp: "kp = (k, p)" by (cases kp)
  from same_queue_trans [OF erase_pending_queue Cons.IH, of h k] show ?case by (simp add: kp)
qed simp

lemma settling_queue:
  "same_queue h (fst (on_response r h))" "same_queue h (fst (on_error e h))"
  "same_queue h (fst (check_timeouts now h))" "same_queue h (snd (remove_pending_by_request_id i h))"
  by (simp_all add: on_response_alt on_error_alt Let_def remove_pending_def take_pending_queue
      check_timeouts_def fold_erase_queue remove_pending_by_request_id_def split: option.split)

lemma reset_timeout_queue: "same_queue h (reset_timeout_by_progress_token now t h)"
  by (simp add: reset_timeout_by_progress_token_def same_queue_def split: option.split)

lemma amap_put_ids:
  fixes m :: "(string \<times> pending_request) list"
  shows "amap_find k m = Some p \<Longrightarrow> amap_ok m \<Longrightarrow> pr_request_id q = pr_request_id p \<Longrightarrow>
    {#pr_request_id y. (k, y) \<in># mset (amap_put k q m)#} = {#pr_request_id y. (k, y) \<in># mset m#}"
  by (induction m) (fastforce simp: amap_ok_Cons dest: amap_find_Some_in split: if_splits)+

lemma reset_timeout_ids: "pending_ok h \<Longrightarrow> pending_ids (reset_timeout_by_progress_token now t h) = pending_ids h"
  by (auto simp: reset_timeout_by_progress_token_def pending_ids_def pending_ok_def amap_put_ids split: option.split)

section \<open>Every step keeps the invariant\<close>

lemmas run_defs = run_ok_def ledger_def ids_fresh_def slots_exact_def drops_cancelled_def drained_empty_def
  items_def hand_ids_def

lemma pending_ids_empty [simp]: "pending_ids h = {#} \<longleftrightarrow> sh_pending h = []"
  by (simp add: pending_ids_def)

lemma settle_step_ok:
  assumes "run_ok w" "pending_ok h'" "same_queue (w_handler w) h'"
    and ids: "pending_ids (w_handler w) = pending_ids h' + mset ds"
  shows "run_ok (w\<lparr>w_handler := h', w_settled := ds @ w_settled w\<rparr>)"
proof -
  have "sh_pending (w_handler w) = [] \<Longrightarrow> sh_pending h' = []"
    using ids by (simp flip: pending_ids_empty)
  then show ?thesis
    using assms by (auto simp: run_defs same_queue_def)
qed

lemma frame_step_ok:
  assumes "run_ok w" "same_requests (w_handler w) h'" "sh_waiting h' = sh_waiting (w_handler w)"
    "sh_queue h' = sh_queue (w_handler w)" "sh_outstanding h' = sh_outstanding (w_handler w)"
  shows "run_ok (w\<lparr>w_handler := h', w_settled := [] @ w_settled w\<rparr>)"
proof (rule settle_step_ok)
  show "pending_ok h'" "pending_ids (w_handler w) = pending_ids h' + mset []"
    using same_requests_ids [OF assms(2)] assms(1) by (simp_all add: run_ok_def)
qed (use assms in \<open>simp_all add: same_queue_def same_requests_def\<close>)

lemma request_step_ok:
  assumes ok: "run_ok w" and eff: "request_effect (w_handler w) (h', es)"
  shows "run_ok (w\<lparr>w_handler := h', w_settled := delivered_ids es @ w_settled w\<rparr>)"
proof (cases "sh_queue h' = sh_queue (w_handler w) \<and> sh_outstanding h' = sh_outstanding (w_handler w)")
  case True
  with eff show ?thesis
    using frame_step_ok [OF ok, of h'] by (simp add: request_effect_def)
next
  case False
  with eff have same: "same_requests (w_handler w) h'" by (simp add: request_effect_def)
  from False eff obtain r k where "sh_queue h' = sh_queue (w_handler w) @ [ResponseItem r k]"
      "sh_outstanding h' = sh_outstanding (w_handler w) + 1"
      "sh_outstanding (w_handler w) < sh_capacity (w_handler w)" "delivered_ids es = []"
      "sh_waiting h' = sh_waiting (w_handler w)"
    by (auto simp: request_effect_def)
  with same ok same_requests_ids [OF same] show ?thesis
    by (auto simp: run_defs same_requests_def)
qed

lemma receive_step_ok:
  assumes ok: "run_ok w" and d: "dispatch_incoming handlers verifier msg (w_handler w) = (h', es)"
  shows "run_ok (w\<lparr>w_handler := h', w_settled := delivered_ids es @ w_settled w\<rparr>)"
proof (cases msg)
  case (MsgRequest r)
  then show ?thesis
    using d on_request_effect [of "w_handler w" handlers verifier r] by (intro request_step_ok [OF ok]) simp
next
  case (MsgResponse r)
  then show ?thesis
    using d ok on_response_ok [of "w_handler w" r] settling_queue(1) [of "w_handler w" r]
      on_response_ids [of "w_handler w" r]
    by (intro settle_step_ok) (simp_all add: run_ok_def)
next
  case (MsgError e)
  then show ?thesis
    using d ok on_error_ok [of "w_handler w" e] settling_queue(2) [of "w_handler w" e]
      on_error_ids [of "w_handler w" e]
    by (intro settle_step_ok) (simp_all add: run_ok_def)
next
  case (MsgNotification n)
  then show ?thesis
    using d frame_step_ok [OF ok, of "on_notification n (w_handler w)"]
      on_notification_same [of "w_handler w" n] by auto
qed

lemma timeouts_step_ok:
  assumes ok: "run_ok w" and c: "check_timeouts now (w_handler w) = (h', Inr es)"
  shows "run_ok (w\<lparr>w_handler := h', w_settled := delivered_ids es @ w_settled w\<rparr>)"
  using ok c check_timeouts_ok [of "w_handler w" now] settling_queue(3) [of "w_handler w" now]
    check_timeouts_ids [of "w_handler w" now]
  by (intro settle_step_ok) (auto simp: run_ok_def)

lemma progress_step_ok:
  "run_ok w \<Longrightarrow> run_ok (w\<lparr>w_handler := reset_timeout_by_progress_token now t (w_handler w)\<rparr>)"
  using settle_step_ok [of w "reset_timeout_by_progress_token now t (w_handler w)" "[]"]
  by (simp add: run_ok_def reset_timeout_ok reset_timeout_queue reset_timeout_ids)

lemma setting_step_ok: "run_ok w \<Longrightarrow> run_ok (w\<lparr>w_handler := apply_setting x (w_handler w)\<rparr>)"
  using frame_step_ok [of w "apply_setting x (w_handler w)"] apply_setting_same [of "w_handler w" x] by simp

lemma register_fields:
  assumes "register_request now m ps meta t c h = (h', out)"
  shows "sh_next_id h' = sh_next_id h + 1 \<and> sh_closed h' = sh_closed h \<and> sh_capacity h' = sh_capacity h \<and>
    sh_waiting h' = sh_waiting h \<and> sh_queue h' = sh_queue h \<and> sh_outstanding h' = sh_outstanding h \<and>
    (sh_closed h \<longrightarrow> sh_pending h' = sh_pending h)"
  using assms by (auto simp: register_request_def Let_def store_pending_def split: sum.splits if_splits)

lemma next_id_succ: "0 < sint i \<Longrightarrow> sint i < 2 ^ 63 - 1 \<Longrightarrow> sint (i + 1) = sint (i :: i64) + 1"
  by (simp add: sint_word_ariths(1) signed_take_bit_int_eq_self)

lemma dec_int_inject: "0 < m \<Longrightarrow> 0 < n \<Longrightarrow> dec_int m = dec_int n \<longleftrightarrow> m = n"
  by (auto simp: dec_int_def)

lemma register_fresh:
  assumes "run_ok w"
  shows "dec_int (sint (sh_next_id (w_handler w))) \<notin> set (w_registered w)"
    and "amap_find (session_request_key [] (dec_int (sint (sh_next_id (w_handler w))))) (sh_pending (w_handler w)) = None"
proof -
  let ?d = "dec_int (sint (sh_next_id (w_handler w)))"
  show fresh: "?d \<notin> set (w_registered w)"
    using assms dec_int_inject by (fastforce simp: run_ok_def ids_fresh_def)
  show "amap_find (session_request_key [] ?d) (sh_pending (w_handler w)) = None"
  proof (rule ccontr)
    assume "\<not> ?thesis"
    then obtain p where p: "amap_find (session_request_key [] ?d) (sh_pending (w_handler w)) = Some p" by auto
    then have "session_request_key [] ?d = session_request_key (pr_session p) (pr_request_id p)"
      using assms by (simp add: run_ok_def pending_ok_def)
    then have "pr_request_id p = ?d" by simp
    moreover have "pr_request_id p \<in># pending_ids (w_handler w)"
      using amap_find_Some_in [OF p] by (force simp: pending_ids_def)
    ultimately have "?d \<in># mset (w_registered w)"
      using assms by (simp add: run_ok_def ledger_def)
    with fresh show False by simp
  qed
qed

lemma register_step_ok:
  assumes ok: "run_ok w" and r: "register_request now m ps meta t c (w_handler w) = (h', Inr (rid, es))"
    and bound: "sint (sh_next_id (w_handler w)) < 2 ^ 63 - 1"
  shows "run_ok (w\<lparr>w_handler := h', w_registered := get_request_id_key rid # w_registered w,
    w_settled := delivered_ids es @ w_settled w\<rparr>)"
proof -
  let ?h = "w_handler w" and ?d = "dec_int (sint (sh_next_id (w_handler w)))"
  have rid: "get_request_id_key rid = ?d"
    using r by (auto simp: register_request_def Let_def split: sum.splits if_splits)
  have nxt: "sint (sh_next_id h') = sint (sh_next_id ?h) + 1"
    using ok bound register_fields [OF r] by (simp add: run_ok_def ids_fresh_def next_id_succ)
  have ids: "pending_ids h' + mset (delivered_ids es) = add_mset ?d (pending_ids ?h)"
    using register_ids [OF register_fresh(2) [OF ok], of now m ps meta t c rid es] r by simp
  have "pending_ok h'" using register_ok [of ?h now m ps meta t c] ok r by (simp add: run_ok_def)
  then show ?thesis
    using ok ids register_fields [OF r] register_fresh(1) [OF ok] nxt
    by (auto simp: run_defs rid ac_simps) (force+)?
qed

lemma register_failed_step_ok:
  assumes ok: "run_ok w" and r: "register_request now m ps meta t c (w_handler w) = (h', Inl e)"
    and bound: "sint (sh_next_id (w_handler w)) < 2 ^ 63 - 1"
  shows "run_ok (w\<lparr>w_handler := h'\<rparr>)"
proof -
  have nxt: "sint (sh_next_id h') = sint (sh_next_id (w_handler w)) + 1"
    using ok bound register_fields [OF r] by (simp add: run_ok_def ids_fresh_def next_id_succ)
  have ids: "pending_ids h' = pending_ids (w_handler w)"
    using register_failed_ids [of now m ps meta t c "w_handler w" e] r by simp
  have ok': "pending_ok h'" using register_ok [of "w_handler w" now m ps meta t c] ok r by (simp add: run_ok_def)
  have "ids_fresh (w\<lparr>w_handler := h'\<rparr>)"
  proof -
    have "ids_fresh w" using ok by (simp add: run_ok_def)
    then show ?thesis by (force simp: ids_fresh_def nxt)
  qed
  then show ?thesis
    using ok ok' ids register_fields [OF r]
    by (simp add: run_ok_def ledger_def slots_exact_def drops_cancelled_def drained_empty_def items_def hand_ids_def)
qed

lemma cancel_take_step_ok:
  assumes ok: "run_ok w" and r: "remove_pending_by_request_id i (w_handler w) = (Some p, h')"
  shows "run_ok (w\<lparr>w_handler := h', w_hand := (p, e) # w_hand w, w_cancelled := pr_request_id p # w_cancelled w\<rparr>)"
proof -
  have h': "h' = snd (remove_pending_by_request_id i (w_handler w))" using r by simp
  have ids: "pending_ids (w_handler w) = add_mset (pr_request_id p) (pending_ids h')"
    using remove_pending_by_id_ids [of "w_handler w" i] r by simp
  have "pending_ok h'" using ok by (simp add: h' remove_pending_by_request_id_def take_pending_ok run_ok_def)
  moreover have "same_queue (w_handler w) h'" unfolding h' by (rule settling_queue)
  moreover have "sh_pending (w_handler w) \<noteq> []" using ids by (simp flip: pending_ids_empty)
  ultimately show ?thesis
    using ok ids by (auto simp: run_defs same_queue_def ac_simps)
qed

lemma cancel_put_step_ok:
  assumes ok: "run_ok w" and hand: "w_hand w = xs @ (p, e) # ys"
  shows "run_ok (w\<lparr>w_handler := enqueue_cancellation p e (w_handler w), w_hand := xs @ ys,
    w_dropped := (if sh_closed (w_handler w) then [pr_request_id p] else []) @ w_dropped w\<rparr>)"
proof -
  have same: "same_requests (w_handler w) (enqueue_cancellation p e (w_handler w))"
    by (simp add: enqueue_cancellation_def same_requests_def)
  show ?thesis
    using ok same_requests_ids [OF same]
    by (cases "sh_closed (w_handler w)") (auto simp: run_defs hand enqueue_cancellation_def ac_simps)
qed

lemma fetch_step_ok:
  assumes ok: "run_ok w"
  shows "run_ok (w\<lparr>w_handler := worker_fetch (w_handler w),
    w_dropped := (if sh_closed (w_handler w)
      then cancel_ids (sh_waiting (w_handler w) @ sh_queue (w_handler w)) else []) @ w_dropped w\<rparr>)"
proof -
  have same: "same_requests (w_handler w) (worker_fetch (w_handler w))"
    by (simp add: worker_fetch_def same_requests_def Let_def)
  show ?thesis
    using ok same_requests_ids [OF same]
    by (cases "sh_closed (w_handler w)") (auto simp: run_defs worker_fetch_def Let_def ac_simps)
qed

lemma close_step_ok: "run_ok w \<Longrightarrow> run_ok (w\<lparr>w_handler := close_begin (w_handler w)\<rparr>)"
  by (simp add: run_defs close_begin_def pending_ok_def pending_ids_def)

lemma drain_step_ok:
  assumes ok: "run_ok w" and closed: "sh_closed (w_handler w)" and d: "close_drain (w_handler w) = (h', es)"
  shows "run_ok (w\<lparr>w_handler := h', w_settled := delivered_ids es @ w_settled w, w_drained := True\<rparr>)"
  using ok closed d close_drain_ids [of "w_handler w"] close_drain_ok [of "w_handler w"]
  by (auto simp: run_defs close_drain_def pending_ids_def)

lemma handle_waiting:
  assumes "i < length xs"
  shows "mset (cancel_ids xs) = mset (cancel_ids [xs ! i]) + mset (cancel_ids (take i xs @ drop (Suc i) xs))"
    and "response_count xs = response_count [xs ! i] + response_count (take i xs @ drop (Suc i) xs)"
proof -
  have "cancel_ids xs = cancel_ids (take i xs @ [xs ! i] @ drop (Suc i) xs)"
      "response_count xs = response_count (take i xs @ [xs ! i] @ drop (Suc i) xs)"
    using assms by (simp_all add: id_take_nth_drop [symmetric])
  then show "mset (cancel_ids xs) = mset (cancel_ids [xs ! i]) + mset (cancel_ids (take i xs @ drop (Suc i) xs))"
    and "response_count xs = response_count [xs ! i] + response_count (take i xs @ drop (Suc i) xs)"
    by (simp_all only: cancel_ids_append response_count_append mset_append ac_simps)
qed

lemma deliver_response_same: "same_requests h (fst (deliver_response fut r key h))"
  by (simp add: deliver_response_def Let_def erase_incoming_cancellation_flag_def same_requests_def)

lemma deliver_response_none: "delivered_ids (snd (deliver_response fut r key h)) = []"
  by (simp add: deliver_response_def Let_def error_answer_def split: future_result.split sum.split)

text \<open>What handling one item does: the item leaves the list, a cancellation is settled or dropped, an
  answer frees its slot.\<close>

lemma handle_effect:
  assumes "i < length (sh_waiting h)" "worker_handle i fut h = (h', es)"
  shows "same_requests h h' \<and> sh_queue h' = sh_queue h \<and>
    sh_waiting h' = take i (sh_waiting h) @ drop (Suc i) (sh_waiting h) \<and>
    sh_outstanding h' = sh_outstanding h - response_count [sh_waiting h ! i] \<and>
    delivered_ids es = (if sh_closed h then [] else cancel_ids [sh_waiting h ! i])"
proof (cases "sh_waiting h ! i")
  case (ResponseItem r key)
  let ?h1 = "h\<lparr>sh_waiting := take i (sh_waiting h) @ drop (Suc i) (sh_waiting h)\<rparr>"
  have d: "h' = fst (deliver_response fut r key (release_response_slot ?h1))"
      "es = snd (deliver_response fut r key (release_response_slot ?h1))"
    using assms ResponseItem by (simp_all add: worker_handle_def Let_def)
  show ?thesis
    unfolding d using deliver_response_same [of "release_response_slot ?h1" fut r key]
    by (auto simp: ResponseItem deliver_response_none same_requests_def release_response_slot_def)
next
  case (CancelItem p e)
  then show ?thesis
    using assms by (auto simp: worker_handle_def Let_def deliver_cancellation_def same_requests_def)
qed

lemma handle_step_ok:
  assumes ok: "run_ok w" and i: "i < length (sh_waiting (w_handler w))"
    and h: "worker_handle i fut (w_handler w) = (h', es)"
  shows "run_ok (w\<lparr>w_handler := h', w_settled := delivered_ids es @ w_settled w,
      w_dropped := (if sh_closed (w_handler w) then cancel_ids [sh_waiting (w_handler w) ! i] else []) @ w_dropped w\<rparr>)"
proof -
  let ?it = "sh_waiting (w_handler w) ! i"
  note eff = handle_effect [OF i h]
  have same: "same_requests (w_handler w) h'" using eff by simp
  have ids: "mset (cancel_ids (items (w_handler w))) = mset (cancel_ids [?it]) + mset (cancel_ids (items h'))"
    using handle_waiting(1) [OF i] eff by (simp add: items_def ac_simps)
  have cnt: "response_count (items (w_handler w)) = response_count [?it] + response_count (items h')"
    using handle_waiting(2) [OF i] eff by (simp add: items_def ac_simps)
  have led: "ledger w" and sl: "slots_exact w" and dr: "drops_cancelled w" and de: "drained_empty w"
    and fr: "ids_fresh w" and po: "pending_ok (w_handler w)"
    using ok by (simp_all add: run_ok_def)
  let ?w = "w\<lparr>w_handler := h', w_settled := delivered_ids es @ w_settled w,
      w_dropped := (if sh_closed (w_handler w) then cancel_ids [?it] else []) @ w_dropped w\<rparr>"
  have "ledger ?w"
    using led ids eff same_requests_ids [OF same] by (auto simp: ledger_def hand_ids_def ac_simps)
  moreover have "ids_fresh ?w" using fr eff by (simp add: ids_fresh_def same_requests_def)
  moreover have "slots_exact ?w" using sl cnt eff by (auto simp: slots_exact_def same_requests_def)
  moreover have "drops_cancelled ?w"
  proof (cases "sh_closed (w_handler w)")
    case True
    then show ?thesis using dr ids by (simp add: drops_cancelled_def hand_ids_def ac_simps)
  next
    case False
    have "mset (hand_ids w) + mset (cancel_ids (items h')) + mset (w_dropped w) \<subseteq>#
        mset (hand_ids w) + mset (cancel_ids (items (w_handler w))) + mset (w_dropped w)"
      unfolding ids by simp
    also have "\<dots> \<subseteq># mset (w_cancelled w)"
      using dr by (simp add: drops_cancelled_def)
    finally show ?thesis using False by (simp add: drops_cancelled_def hand_ids_def)
  qed
  moreover have "drained_empty ?w" using de eff by (simp add: drained_empty_def same_requests_def)
  moreover have "pending_ok h'" using po same_requests_ids [OF same] by simp
  ultimately show ?thesis by (simp add: run_ok_def)
qed

lemma session_step_ok: "session_step w w' \<Longrightarrow> run_ok w \<Longrightarrow> run_ok w'"
proof (induction rule: session_step.induct)
  case (cancel_put w xs p e ys)
  then show ?case by (intro cancel_put_step_ok)
next
  case (fetch w)
  then show ?case by (rule fetch_step_ok)
next
  case (handle i w fut h' es)
  then show ?case by (intro handle_step_ok)
qed (blast intro: register_step_ok register_failed_step_ok receive_step_ok timeouts_step_ok progress_step_ok
  setting_step_ok cancel_take_step_ok close_step_ok drain_step_ok)+

lemma new_world_ok: "run_ok (new_world codec canceller)"
  by (simp add: run_defs new_world_def pending_ok_new) (simp add: new_handler_def pending_ids_def default_response_queue_capacity_def)

lemma session_run_ok: "session_run codec canceller w \<Longrightarrow> run_ok w"
  by (induction rule: session_run.induct) (auto intro: new_world_ok session_step_ok)

section \<open>A run that loses a request\<close>

text \<open>A request is registered, its cancellation is taken and queued, the handler is closed and drained, and
  the worker fetches what was queued before it stops.\<close>

definition lost_request :: "session_handler \<times> (request_id \<times> session_event list) mres" where
  "lost_request = register_request 0 ''tools/list'' (JObject []) (version_meta ''2025-06-18'') (seconds 10) False
     (new_handler Rev2025 False)"

definition lost_registered :: world where
  "lost_registered = (new_world Rev2025 False)\<lparr>w_handler := fst lost_request, w_registered := [''1'']\<rparr>"

definition lost_pending :: pending_request where
  "lost_pending = new_pending 1 ''tools/list'' (version_meta ''2025-06-18'') (seconds 10) False"

definition lost_cancelled :: world where
  "lost_cancelled = lost_registered\<lparr>w_handler := snd (remove_pending_by_request_id ''1'' (fst lost_request)),
     w_hand := [(lost_pending, cancelled_error ''stop'')], w_cancelled := [''1'']\<rparr>"

definition lost_queued :: world where
  "lost_queued = lost_cancelled\<lparr>w_handler := enqueue_cancellation lost_pending (cancelled_error ''stop'')
     (w_handler lost_cancelled), w_hand := [], w_dropped := []\<rparr>"

definition lost_closed :: world where
  "lost_closed = lost_queued\<lparr>w_handler := close_begin (w_handler lost_queued)\<rparr>"

definition lost_fetched :: world where
  "lost_fetched = lost_closed\<lparr>w_handler := worker_fetch (w_handler lost_closed), w_dropped := [''1'']\<rparr>"

definition lost_drained :: world where
  "lost_drained = lost_fetched\<lparr>w_handler := fst (close_drain (w_handler lost_fetched)), w_drained := True\<rparr>"

lemma run_registered: "session_run Rev2025 False lost_registered"
proof -
  obtain es where es: "snd lost_request = Inr (IdInt 1, es)" "delivered_ids es = []" "get_request_id_key (IdInt 1) = ''1''"
  proof -
    have "(case snd lost_request of Inr (rid, es) \<Rightarrow> rid = IdInt 1 \<and> delivered_ids es = [] | Inl e \<Rightarrow> False)"
        "get_request_id_key (IdInt 1) = ''1''"
      by code_simp+
    then show thesis using that by (auto split: sum.splits)
  qed
  then have "register_request 0 ''tools/list'' (JObject []) (version_meta ''2025-06-18'') (seconds 10) False
      (w_handler (new_world Rev2025 False)) = (fst lost_request, Inr (IdInt 1, es))"
    by (simp add: prod_eq_iff lost_request_def new_world_def)
  moreover have "sint (sh_next_id (w_handler (new_world Rev2025 False))) < 2 ^ 63 - 1"
    by (simp add: new_world_def new_handler_def)
  ultimately have "session_step (new_world Rev2025 False) ((new_world Rev2025 False)\<lparr>w_handler := fst lost_request,
      w_registered := get_request_id_key (IdInt 1) # w_registered (new_world Rev2025 False),
      w_settled := delivered_ids es @ w_settled (new_world Rev2025 False)\<rparr>)"
    by (rule session_step.register)
  then have "session_step (new_world Rev2025 False) lost_registered"
    by (simp only: es lost_registered_def) (simp add: new_world_def)
  with session_run.start show ?thesis by (rule session_run.step)
qed

lemma run_queued: "session_run Rev2025 False lost_queued"
proof -
  have take: "remove_pending_by_request_id (get_request_id_key (IdInt 1)) (w_handler lost_registered) =
      (Some lost_pending, snd (remove_pending_by_request_id ''1'' (fst lost_request)))"
    by code_simp
  have ids: "pr_request_id lost_pending = ''1''" "w_cancelled lost_registered = []" "w_hand lost_registered = []"
      "sh_closed (w_handler lost_cancelled) = False" "w_dropped lost_cancelled = []"
    by code_simp+
  from session_step.cancel_take [OF take, of "''stop''"] have "session_step lost_registered lost_cancelled"
    by (simp add: ids lost_cancelled_def)
  with run_registered have run: "session_run Rev2025 False lost_cancelled" by (rule session_run.step)
  have "w_hand lost_cancelled = [] @ (lost_pending, cancelled_error ''stop'') # []"
    by (simp add: lost_cancelled_def)
  from session_step.cancel_put [OF this] have "session_step lost_cancelled lost_queued"
    by (simp add: ids lost_queued_def)
  with run show ?thesis by (rule session_run.step)
qed

lemma run_drained: "session_run Rev2025 False lost_drained"
proof -
  have closed: "sh_closed (w_handler lost_closed)" "w_dropped lost_closed = []" "sh_closed (w_handler lost_fetched)"
      "cancel_ids (sh_waiting (w_handler lost_closed)) = []" "cancel_ids (sh_queue (w_handler lost_closed)) = [''1'']"
      "delivered_ids (snd (close_drain (w_handler lost_fetched))) = []"
    by code_simp+
  have "session_step lost_queued lost_closed"
    using session_step.close [of lost_queued] by (simp add: lost_closed_def)
  moreover have "session_step lost_closed lost_fetched"
    using session_step.fetch [of lost_closed] by (simp add: closed lost_fetched_def)
  moreover have "session_step lost_fetched lost_drained"
    using session_step.drain [OF closed(3) prod.collapse [symmetric]] by (simp add: closed lost_drained_def)
  ultimately show ?thesis
    using run_queued by (blast intro: session_run.step)
qed

lemma lost_drained_fields:
  "w_drained lost_drained" "w_hand lost_drained = []" "items (w_handler lost_drained) = []"
  "w_registered lost_drained = [''1'']" "w_settled lost_drained = []" "w_dropped lost_drained = [''1'']"
proof -
  have "sh_closed (w_handler lost_closed)" by code_simp
  then show "items (w_handler lost_drained) = []"
    by (simp add: items_def lost_drained_def lost_fetched_def close_drain_def worker_fetch_def)
qed (simp_all add: lost_drained_def lost_fetched_def lost_closed_def lost_queued_def lost_cancelled_def
  lost_registered_def new_world_def)

section \<open>What holds in every run\<close>

lemma mset_distinct: "distinct xs \<Longrightarrow> mset xs = mset ys + M \<Longrightarrow> distinct ys \<and> set ys \<subseteq> set xs"
  by (metis mset_subset_eq_add_left mset_subset_eq_multiset_union_diff_commute set_mset_mono set_mset_mset
      distinct_append mset_append mset_eq_imp_distinct_iff ex_mset)

text \<open>C27: whatever the threads interleave, no request is settled twice: the callback of a request is invoked at
  most once, never for a request that was not made, and never after it was thrown away.\<close>

theorem settled_at_most_once:
  assumes "session_run codec canceller w"
  shows "distinct (w_settled w @ w_dropped w) \<and> set (w_settled w @ w_dropped w) \<subseteq> set (w_registered w)"
proof -
  from session_run_ok [OF assms] have "distinct (w_registered w)"
      "mset (w_registered w) = mset (w_settled w @ w_dropped w) +
        (pending_ids (w_handler w) + mset (hand_ids w) + mset (cancel_ids (items (w_handler w))))"
    by (simp_all add: run_defs ac_simps)
  then show ?thesis using mset_distinct by blast
qed

theorem settled_at_most_once_witness:
  "distinct (w_settled lost_drained @ w_dropped lost_drained) \<and>
   set (w_settled lost_drained @ w_dropped lost_drained) \<subseteq> set (w_registered lost_drained)"
  using settled_at_most_once [OF run_drained] by simp

text \<open>C28: while the handler is open no request is lost: each one made is still pending, in the hands of the
  caller that cancels it, queued for its cancellation, or settled, and in one of these places only.\<close>

theorem open_session_keeps_requests:
  assumes "session_run codec canceller w" "\<not> sh_closed (w_handler w)"
  shows "mset (w_registered w) = pending_ids (w_handler w) + mset (hand_ids w) +
      mset (cancel_ids (items (w_handler w))) + mset (w_settled w) \<and> distinct (w_registered w)"
  using session_run_ok [OF assms(1)] assms(2) by (auto simp: run_ok_def ledger_def slots_exact_def ids_fresh_def)

theorem open_session_keeps_requests_witness:
  "mset (w_registered lost_queued) = pending_ids (w_handler lost_queued) + mset (hand_ids lost_queued) +
      mset (cancel_ids (items (w_handler lost_queued))) + mset (w_settled lost_queued) \<and>
   w_registered lost_queued = [''1''] \<and> cancel_ids (items (w_handler lost_queued)) = [''1'']"
proof -
  have "\<not> sh_closed (w_handler lost_queued)" "w_registered lost_queued = [''1'']"
      "cancel_ids (items (w_handler lost_queued)) = [''1'']"
    by code_simp+
  then show ?thesis using open_session_keeps_requests [OF run_queued] by simp
qed

text \<open>C29: the number of answers that wait for their futures never exceeds the capacity, and while the handler
  is open the slot counter is exactly that number: no slot leaks and none is freed twice.\<close>

theorem response_slots_exact:
  assumes "session_run codec canceller w"
  shows "sh_outstanding (w_handler w) \<le> sh_capacity (w_handler w) \<and>
    (sh_closed (w_handler w) \<or> sh_outstanding (w_handler w) = response_count (items (w_handler w)))"
  using session_run_ok [OF assms] by (auto simp: run_ok_def slots_exact_def)

theorem response_slots_exact_witness:
  "sh_outstanding (w_handler lost_queued) = response_count (items (w_handler lost_queued))"
proof -
  have "\<not> sh_closed (w_handler lost_queued)" by code_simp
  then show ?thesis using response_slots_exact [OF run_queued] by simp
qed

text \<open>C30: when a handler has been closed and drained, the callers that cancelled have finished and the worker
  has nothing left, every request made has been settled exactly once, except those whose cancellation was asked
  for and which the closed handler threw away.\<close>

theorem closed_session_settles:
  assumes "session_run codec canceller w" "w_drained w" "w_hand w = []" "cancel_ids (items (w_handler w)) = []"
  shows "mset (w_registered w) = mset (w_settled w) + mset (w_dropped w) \<and> mset (w_dropped w) \<subseteq># mset (w_cancelled w)"
  using session_run_ok [OF assms(1)] assms(2-)
  by (simp add: run_ok_def ledger_def drops_cancelled_def drained_empty_def hand_ids_def pending_ids_def)

theorem closed_session_settles_witness:
  "mset (w_registered lost_drained) = mset (w_settled lost_drained) + mset (w_dropped lost_drained) \<and>
   w_dropped lost_drained = [''1'']"
  using closed_session_settles [OF run_drained] by (simp add: lost_drained_fields)

text \<open>A request can be lost: in this run it was made and its cancellation was queued, the handler was closed
  and drained, and its callback was never invoked and never will be.\<close>

theorem cancelled_request_lost:
  "\<exists>w. session_run Rev2025 False w \<and> w_drained w \<and> w_hand w = [] \<and> items (w_handler w) = [] \<and>
     ''1'' \<in> set (w_registered w) \<and> ''1'' \<notin> set (w_settled w)"
  using run_drained by (intro exI [of _ lost_drained]) (simp add: lost_drained_fields)

end
