(* ===== verification/Sorted_Maps.thy ===== *)
theory Sorted_Maps
  imports Prelude
begin

text \<open>Sizes and filters of the key-sorted maps of the prelude, for the components that bound their maps.\<close>

lemma set_amap_put: "set (amap_put k v m) \<subseteq> insert (k, v) (set m)"
  by (induction m) (auto split: if_splits)

lemma amap_put_length: "amap_ok m \<Longrightarrow> length (amap_put k v m) = (if amap_find k m = None then Suc (length m) else length m)"
proof (induction m)
  case (Cons kv m)
  then show ?case
    by (cases kv) (auto simp: amap_ok_Cons amap_find_None_iff split: if_splits)
qed simp

lemma amap_erase_length: "amap_find k m \<noteq> None \<Longrightarrow> Suc (length (amap_erase k m)) = length m"
  by (induction m) auto

lemma amap_erase_length_le: "length (amap_erase k m) \<le> length m"
  by (induction m) auto

lemma amap_filter_ok: "amap_ok m \<Longrightarrow> amap_ok (filter P m)"
  by (induction m) (auto simp: amap_ok_Cons)

lemma amap_find_filtered: "amap_ok m \<Longrightarrow>
    amap_find k (filter P m) = (case amap_find k m of Some v \<Rightarrow> if P (k, v) then Some v else None | None \<Rightarrow> None)"
proof (induction m)
  case (Cons kv m)
  obtain a b where kv: "kv = (a, b)" by (cases kv)
  from Cons.prems have "amap_find a m = None" by (auto simp: kv amap_ok_Cons amap_find_None_iff)
  with Cons show ?case by (auto simp: kv amap_ok_Cons)
qed simp

end
