(* ===== verification/Subscriptions.thy ===== *)
theory Subscriptions
  imports Session_State Sorted_Maps
begin

text \<open>
  The subscriptions of a session handler: \<open>AddSubscription\<close>, \<open>AddSubscriptionEntry\<close>,
  \<open>TryAddSubscriptionEntry\<close>, \<open>RemoveSubscription\<close> and \<open>NotifySubscribers\<close> of
  \<open>src/protocol/McpSessionHandler.cpp\<close>.  Buckets are hash maps in the code; here they are walked in the order
  of their keys, so the order of the notifications and the choice between entries of the same age are those
  of one of the orders the code can have.
\<close>

type_synonym bucket = "(string, subscription_entry) amap"

datatype subscription_add_outcome = Added | Overwrote | LimitExceeded

definition max_subscription_entries :: nat where "max_subscription_entries = 64"

definition subscription_entry_ttl :: time where "subscription_entry_ttl = seconds 3600"

definition bucket_of :: "session_handler \<Rightarrow> string \<Rightarrow> bucket" where
  "bucket_of h session = (case amap_find session (sh_subscriptions h) of Some b \<Rightarrow> b | None \<Rightarrow> [])"

definition put_bucket :: "string \<Rightarrow> bucket \<Rightarrow> session_handler \<Rightarrow> session_handler" where
  "put_bucket session b h = h\<lparr>sh_subscriptions := amap_put session b (sh_subscriptions h)\<rparr>"

definition add_subscription_entry :: "subscription_entry \<Rightarrow> string \<Rightarrow> session_handler \<Rightarrow> session_handler" where
  "add_subscription_entry e session h = put_bucket session (amap_put (sb_id e) e (bucket_of h session)) h"

definition add_subscription ::
  "time \<Rightarrow> string \<Rightarrow> subscription_filter \<Rightarrow> string \<Rightarrow> session_handler \<Rightarrow> session_handler" where
  "add_subscription now sid granted session h =
     add_subscription_entry \<lparr>sb_id = sid, sb_session = [], sb_filter = granted, sb_created_at = now\<rparr> session h"

text \<open>The oldest entry that is not younger than the cutoff, the first of equals.\<close>

fun find_victim :: "time \<Rightarrow> (string \<times> subscription_entry) option \<Rightarrow> bucket \<Rightarrow> (string \<times> subscription_entry) option" where
  "find_victim cutoff victim [] = victim"
| "find_victim cutoff victim ((k, e) # b) =
     find_victim cutoff
       (if cutoff < sb_created_at e then victim
        else case victim of
               None \<Rightarrow> Some (k, e)
             | Some (vk, v) \<Rightarrow> if sb_created_at e < sb_created_at v then Some (k, e) else victim) b"

definition try_add_subscription_entry ::
  "time \<Rightarrow> subscription_entry \<Rightarrow> string \<Rightarrow> session_handler \<Rightarrow> session_handler \<times> subscription_add_outcome" where
  "try_add_subscription_entry now e session h =
     (let b = bucket_of h session; replaces = amap_find (sb_id e) b \<noteq> None
      in if \<not> replaces \<and> max_subscription_entries \<le> length b then
           (case find_victim (now - subscription_entry_ttl) None b of
              None \<Rightarrow> (h, LimitExceeded)
            | Some (k, v) \<Rightarrow> (put_bucket session (amap_put (sb_id e) e (amap_erase k b)) h, Added))
         else (put_bucket session (amap_put (sb_id e) e b) h, if replaces then Overwrote else Added))"

definition remove_subscription :: "string \<Rightarrow> string \<Rightarrow> session_handler \<Rightarrow> session_handler" where
  "remove_subscription sid session h =
     (case amap_find session (sh_subscriptions h) of
        None \<Rightarrow> h
      | Some b \<Rightarrow> (let b' = amap_erase sid b
                  in if b' = [] then h\<lparr>sh_subscriptions := amap_erase session (sh_subscriptions h)\<rparr>
                     else put_bucket session b' h))"

section \<open>Notifying\<close>

definition task_notifications :: "string list" where
  "task_notifications = [''notifications/tasks/status'', ''notifications/tasks/working'',
     ''notifications/tasks/completed'', ''notifications/tasks/failed'', ''notifications/tasks/cancelled'',
     ''notifications/tasks/input_required'']"

definition should_notify :: "string \<Rightarrow> string option \<Rightarrow> subscription_filter \<Rightarrow> bool" where
  "should_notify type uri f =
     (if type = ''notifications/tools/list_changed'' then sf_tools f = Some True
      else if type = ''notifications/prompts/list_changed'' then sf_prompts f = Some True
      else if type = ''notifications/resources/list_changed'' then sf_resources f = Some True
      else if type = ''notifications/resources/updated'' then
        (case uri of None \<Rightarrow> False | Some u \<Rightarrow> List.member (sf_subscriptions f) u)
      else List.member task_notifications type \<or> type = ''notifications/triggers/event'')"

definition subscriber_notice :: "string \<Rightarrow> json \<Rightarrow> string \<Rightarrow> string \<Rightarrow> subscription_entry \<Rightarrow> rpc_notification" where
  "subscriber_notice type params session k e =
     \<lparr>nt_jsonrpc = json_rpc_version, nt_method = type, nt_params = Some params,
      nt_meta = Some (JObject [(''io.modelcontextprotocol/subscriptionId'',
        JString (if sb_session e = [] then k else sb_session e))]),
      nt_session = session\<rparr>"

definition bucket_notices :: "string \<Rightarrow> json \<Rightarrow> string option \<Rightarrow> string \<times> bucket \<Rightarrow> session_event list" where
  "bucket_notices type params uri sb = (case sb of (session, b) \<Rightarrow>
     map (\<lambda>(k, e). Sent (MsgNotification (subscriber_notice type params session k e)))
       (filter (\<lambda>(k, e). should_notify type uri (sb_filter e)) b))"

definition notify_subscribers :: "string \<Rightarrow> json \<Rightarrow> string option \<Rightarrow> string \<Rightarrow> session_handler \<Rightarrow> session_event list" where
  "notify_subscribers type params uri session h =
     (if session \<noteq> [] then
        (case amap_find session (sh_subscriptions h) of
           None \<Rightarrow> []
         | Some b \<Rightarrow> bucket_notices type params uri (session, b))
      else concat (map (bucket_notices type params uri) (sh_subscriptions h)))"

section \<open>Bounds and eviction\<close>

definition subscriptions_ok :: "session_handler \<Rightarrow> bool" where
  "subscriptions_ok h \<longleftrightarrow> amap_ok (sh_subscriptions h) \<and> (\<forall>(s, b) \<in> set (sh_subscriptions h). amap_ok b)"

lemma bucket_ok: "subscriptions_ok h \<Longrightarrow> amap_ok (bucket_of h session)"
  by (auto simp: subscriptions_ok_def bucket_of_def dest: amap_find_Some_in split: option.split)

lemma bucket_put [simp]: "bucket_of (put_bucket s b h) s' = (if s' = s then b else bucket_of h s')"
  by (simp add: bucket_of_def put_bucket_def)

lemma put_bucket_ok: "subscriptions_ok h \<Longrightarrow> amap_ok b \<Longrightarrow> subscriptions_ok (put_bucket s b h)"
  using set_amap_put [of s b "sh_subscriptions h"] by (fastforce simp: subscriptions_ok_def put_bucket_def)

lemma add_subscription_entry_ok: "subscriptions_ok h \<Longrightarrow> subscriptions_ok (add_subscription_entry e session h)"
  by (simp add: add_subscription_entry_def put_bucket_ok bucket_ok)

lemma try_add_ok: "subscriptions_ok h \<Longrightarrow> subscriptions_ok (fst (try_add_subscription_entry now e session h))"
  by (simp add: try_add_subscription_entry_def Let_def put_bucket_ok bucket_ok split: option.split)

lemma remove_subscription_ok:
  assumes ok: "subscriptions_ok h"
  shows "subscriptions_ok (remove_subscription sid session h)"
proof (cases "amap_find session (sh_subscriptions h)")
  case (Some b)
  then have "amap_ok (amap_erase sid b)"
    using bucket_ok [OF ok, of session] by (simp add: bucket_of_def)
  then show ?thesis
    using ok Some amap_erase_subset [of session "sh_subscriptions h"]
    by (auto simp: remove_subscription_def Let_def put_bucket_ok) (auto simp: subscriptions_ok_def)
qed (use ok in \<open>simp add: remove_subscription_def\<close>)

lemma find_victim_result:
  "find_victim cutoff victim b = r \<Longrightarrow>
   (case r of None \<Rightarrow> victim = None \<and> (\<forall>(k, e) \<in> set b. cutoff < sb_created_at e)
    | Some (k, v) \<Rightarrow> ((k, v) \<in> set b \<and> sb_created_at v \<le> cutoff \<or> victim = Some (k, v)) \<and>
        (\<forall>(k', e) \<in> set b. cutoff < sb_created_at e \<or> sb_created_at v \<le> sb_created_at e) \<and>
        (\<forall>k' u. victim = Some (k', u) \<longrightarrow> sb_created_at v \<le> sb_created_at u))"
proof (induction cutoff victim b rule: find_victim.induct)
  case (1 cutoff victim)
  then show ?case by (cases victim) auto
next
  case (2 cutoff victim k e b)
  then show ?case
    by (cases r; cases victim) (force split: if_splits)+
qed


lemma find_victim_None: "find_victim cutoff None b = None \<longleftrightarrow> (\<forall>(k, e) \<in> set b. cutoff < sb_created_at e)"
proof
  assume "find_victim cutoff None b = None"
  from find_victim_result [OF this] show "\<forall>(k, e) \<in> set b. cutoff < sb_created_at e" by simp
next
  assume young: "\<forall>(k, e) \<in> set b. cutoff < sb_created_at e"
  show "find_victim cutoff None b = None"
  proof (cases "find_victim cutoff None b")
    case (Some kv)
    then show ?thesis using find_victim_result [OF Some] young by (cases kv) force
  qed simp
qed

lemma find_victim_Some: "find_victim cutoff None b = Some (k, v) \<Longrightarrow> (k, v) \<in> set b \<and> sb_created_at v \<le> cutoff"
  using find_victim_result [of cutoff None b "Some (k, v)"] by simp

text \<open>What an attempt to subscribe does to the bucket of its session.\<close>

definition young_kept :: "time \<Rightarrow> string \<Rightarrow> bucket \<Rightarrow> bucket \<Rightarrow> bool" where
  "young_kept cutoff sid b b' \<longleftrightarrow> (\<forall>k e. amap_find k b = Some e \<and> k \<noteq> sid \<and> cutoff < sb_created_at e \<longrightarrow>
     amap_find k b' = Some e)"

lemma evicting_add:
  assumes ok: "amap_ok b" and fresh: "amap_find (sb_id e) b = None"
    and victim: "find_victim cutoff None b = Some (k, v)"
  shows "amap_find (sb_id e) (amap_put (sb_id e) e (amap_erase k b)) = Some e"
    and "young_kept cutoff (sb_id e) b (amap_put (sb_id e) e (amap_erase k b))"
    and "length (amap_put (sb_id e) e (amap_erase k b)) = length b"
proof -
  have found: "amap_find k b = Some v" "sb_created_at v \<le> cutoff"
    using find_victim_Some [OF victim] ok by (auto simp: amap_find_in_iff)
  show "amap_find (sb_id e) (amap_put (sb_id e) e (amap_erase k b)) = Some e" by simp
  show "young_kept cutoff (sb_id e) b (amap_put (sb_id e) e (amap_erase k b))"
    using found ok by (auto simp: young_kept_def)
  show "length (amap_put (sb_id e) e (amap_erase k b)) = length b"
    using found fresh ok amap_erase_length [of k b] by (simp add: amap_put_length)
qed

text \<open>A subscription is refused only when it is new and its session already has 64 that are all younger than
  an hour, and then nothing changes; otherwise it is stored, no other subscription younger than an hour is lost,
  other sessions are not touched, and a session never gets past 64 subscriptions.\<close>

theorem subscription_limit_exact:
  assumes "subscriptions_ok h" and "try_add_subscription_entry now e session h = (h', out)"
  shows "(out = LimitExceeded \<longleftrightarrow> amap_find (sb_id e) (bucket_of h session) = None \<and>
        max_subscription_entries \<le> length (bucket_of h session) \<and>
        (\<forall>(k, x) \<in> set (bucket_of h session). now - subscription_entry_ttl < sb_created_at x)) \<and>
     (if out = LimitExceeded then h' = h
      else amap_find (sb_id e) (bucket_of h' session) = Some e \<and>
        young_kept (now - subscription_entry_ttl) (sb_id e) (bucket_of h session) (bucket_of h' session)) \<and>
     (\<forall>s. s \<noteq> session \<longrightarrow> bucket_of h' s = bucket_of h s) \<and>
     (length (bucket_of h session) \<le> max_subscription_entries \<longrightarrow>
        length (bucket_of h' session) \<le> max_subscription_entries)"
proof (cases "amap_find (sb_id e) (bucket_of h session) = None \<and> max_subscription_entries \<le> length (bucket_of h session)")
  case True
  then show ?thesis
  proof (cases "find_victim (now - subscription_entry_ttl) None (bucket_of h session)")
    case None
    then have "h' = h" "out = LimitExceeded"
      using True assms(2) by (simp_all add: try_add_subscription_entry_def)
    then show ?thesis using True None by (simp add: find_victim_None)
  next
    case (Some kv)
    obtain k v where kv: "kv = (k, v)" by (cases kv)
    note ev = evicting_add [OF bucket_ok [OF assms(1)] True [THEN conjunct1] Some [unfolded kv]]
    have "\<not> (\<forall>(k, x) \<in> set (bucket_of h session). now - subscription_entry_ttl < sb_created_at x)"
      using Some find_victim_None by (metis option.distinct(1))
    then show ?thesis using True assms(2) Some kv ev by (auto simp: try_add_subscription_entry_def Let_def)
  qed
next
  case False
  then show ?thesis
    using assms(2) bucket_ok [OF assms(1), of session]
    by (auto simp: try_add_subscription_entry_def Let_def young_kept_def amap_put_length split: if_splits)
qed

theorem subscription_limit_exact_witness:
  "amap_find ''a'' (bucket_of (fst (try_add_subscription_entry 5
     \<lparr>sb_id = ''a'', sb_session = [], sb_filter = \<lparr>sf_tools = Some True, sf_prompts = None, sf_resources = None,
       sf_subscriptions = []\<rparr>, sb_created_at = 5\<rparr> ''s'' (new_handler Rev2025 False))) ''s'') \<noteq> None"
proof -
  let ?e = "\<lparr>sb_id = ''a'', sb_session = [], sb_filter = \<lparr>sf_tools = Some True, sf_prompts = None,
    sf_resources = None, sf_subscriptions = []\<rparr>, sb_created_at = 5\<rparr>"
  let ?r = "try_add_subscription_entry 5 ?e ''s'' (new_handler Rev2025 False)"
  have "subscriptions_ok (new_handler Rev2025 False)"
    by (simp add: subscriptions_ok_def new_handler_def)
  from subscription_limit_exact [OF this prod.collapse [symmetric], of 5 ?e "''s''"]
  show ?thesis
    by (simp add: bucket_of_def new_handler_def max_subscription_entries_def split: if_splits)
qed

section \<open>Who is notified\<close>

text \<open>A notification for a session reaches exactly the entries of its bucket whose filter asks for it.\<close>

lemma notified_entries:
  assumes "session \<noteq> []"
  shows "notify_subscribers type params uri session h =
    map (\<lambda>(k, e). Sent (MsgNotification (subscriber_notice type params session k e)))
      (filter (\<lambda>(k, e). should_notify type uri (sb_filter e)) (bucket_of h session))"
  using assms by (simp add: notify_subscribers_def bucket_notices_def bucket_of_def split: option.split)

lemma no_resource_no_notice: "should_notify ''notifications/resources/updated'' None f \<longleftrightarrow> False"
  by (simp add: should_notify_def)

end
