(* ===== verification/Event_Store.thy ===== *)
theory Event_Store
  imports Prelude
begin

text \<open>
  The store of server-sent events that lets a client resume a stream: \<open>EventStore\<close> of
  \<open>src/http/EventStore.cpp\<close>.  The detailed store keeps the last 10000 events of each session under ids of
  one 64-bit counter; the abstract log keeps everything.
\<close>

record event_store =
  ev_events :: "(string, (64 word \<times> string) list) amap"
  ev_next :: "64 word"

definition max_events_per_session :: nat where "max_events_per_session = 10000"

definition new_event_store :: event_store where
  "new_event_store = \<lparr>ev_events = [], ev_next = 1\<rparr>"

definition events_of :: "event_store \<Rightarrow> string \<Rightarrow> (64 word \<times> string) list" where
  "events_of st session = (case amap_find session (ev_events st) of Some evs \<Rightarrow> evs | None \<Rightarrow> [])"

definition append_event :: "string \<Rightarrow> string \<Rightarrow> event_store \<Rightarrow> event_store \<times> 64 word" where
  "append_event session data st =
     (let i = ev_next st; evs = events_of st session @ [(i, data)]
      in (\<lparr>ev_events = amap_put session
              (if max_events_per_session < length evs then drop (length evs - max_events_per_session) evs else evs)
              (ev_events st),
           ev_next = i + 1\<rparr>, i))"

definition get_events_since :: "event_store \<Rightarrow> string \<Rightarrow> 64 word \<Rightarrow> (64 word \<times> string) list" where
  "get_events_since st session last_event_id =
     (case amap_find session (ev_events st) of
        None \<Rightarrow> []
      | Some evs \<Rightarrow> filter (\<lambda>(i, data). last_event_id < i) evs)"

definition clear_events :: "string \<Rightarrow> event_store \<Rightarrow> event_store" where
  "clear_events session st = st\<lparr>ev_events := amap_erase session (ev_events st)\<rparr>"

datatype event_op = AppendEvent string string | ClearEvents string

fun run_event_op :: "event_op \<Rightarrow> event_store \<Rightarrow> event_store" where
  "run_event_op (AppendEvent session data) st = fst (append_event session data st)"
| "run_event_op (ClearEvents session) st = clear_events session st"

section \<open>The abstract log\<close>

text \<open>Every event of every session since its last clearing, numbered in the order of arrival.\<close>

type_synonym event_log = "nat \<times> (string \<Rightarrow> (nat \<times> string) list)"

fun log_event_op :: "event_op \<Rightarrow> event_log \<Rightarrow> event_log" where
  "log_event_op (AppendEvent session data) (n, log) = (Suc n, log(session := log session @ [(n, data)]))"
| "log_event_op (ClearEvents session) (n, log) = (n, log(session := []))"

definition empty_log :: event_log where "empty_log = (1, \<lambda>session. [])"

definition take_last :: "nat \<Rightarrow> 'a list \<Rightarrow> 'a list" where
  "take_last n xs = drop (length xs - n) xs"

lemma take_last_append [simp]: "take_last (Suc n) (take_last (Suc n) xs @ [x]) = take_last (Suc n) (xs @ [x])"
  by (cases "length xs \<le> n") (simp_all add: take_last_def Suc_diff_Suc)

lemma take_last_map: "take_last n (map f xs) = map f (take_last n xs)"
  by (simp add: take_last_def drop_map)

lemma take_last_subset: "set (take_last n xs) \<subseteq> set xs"
  by (simp add: take_last_def set_drop_subset)

lemma length_take_last [simp]: "length (take_last n xs) = min n (length xs)"
  by (simp add: take_last_def)

section \<open>Refinement\<close>

definition stored :: "(nat \<times> string) list \<Rightarrow> (64 word \<times> string) list" where
  "stored xs = map (\<lambda>(n, data). (of_nat n, data)) (take_last max_events_per_session xs)"

definition log_ok :: "event_log \<Rightarrow> bool" where
  "log_ok lg \<longleftrightarrow> (\<forall>session. sorted_wrt (<) (map fst (snd lg session)) \<and> (\<forall>(n, data) \<in> set (snd lg session). n < fst lg))"

definition refines_log :: "event_store \<Rightarrow> event_log \<Rightarrow> bool" where
  "refines_log st lg \<longleftrightarrow> amap_ok (ev_events st) \<and> ev_next st = of_nat (fst lg) \<and> log_ok lg \<and>
     (\<forall>session. events_of st session = stored (snd lg session))"

lemma refines_new: "refines_log new_event_store empty_log"
  by (simp add: refines_log_def new_event_store_def empty_log_def events_of_def stored_def log_ok_def take_last_def)

lemma stored_append: "stored (xs @ [(n, data)]) =
    (let evs = stored xs @ [(of_nat n, data)]
     in if max_events_per_session < length evs then drop (length evs - max_events_per_session) evs else evs)"
proof -
  have "stored (xs @ [(n, data)]) = take_last max_events_per_session (stored xs @ [(of_nat n, data)])"
    using take_last_append [of 9999 "map (\<lambda>(n, data). (of_nat n :: 64 word, data)) xs" "(of_nat n, data)"]
    by (simp add: stored_def max_events_per_session_def flip: take_last_map)
  then show ?thesis by (simp add: take_last_def Let_def)
qed

lemma refines_append: "refines_log st lg \<Longrightarrow> refines_log (run_event_op (AppendEvent s d) st) (log_event_op (AppendEvent s d) lg)"
proof (cases lg)
  case (Pair n log)
  assume r: "refines_log st lg"
  have "events_of (fst (append_event s d st)) session = stored ((log(s := log s @ [(n, d)])) session)" for session
    using r stored_append [of "log s" n d]
    by (simp add: Pair refines_log_def append_event_def events_of_def Let_def)
  moreover have "log_ok (Suc n, log(s := log s @ [(n, d)]))"
    using r by (force simp: Pair refines_log_def log_ok_def sorted_wrt_append less_SucI)
  ultimately show ?thesis
    using r by (simp add: Pair refines_log_def) (simp add: append_event_def Let_def add.commute)
qed

lemma refines_clear: "refines_log st lg \<Longrightarrow> refines_log (run_event_op (ClearEvents s) st) (log_event_op (ClearEvents s) lg)"
  by (cases lg) (auto simp: refines_log_def clear_events_def events_of_def log_ok_def stored_def take_last_def)

lemma refines_run: "refines_log st lg \<Longrightarrow> refines_log (fold run_event_op ops st) (fold log_event_op ops lg)"
proof (induction ops arbitrary: st lg)
  case (Cons op ops)
  then show ?case by (cases op) (simp_all del: run_event_op.simps log_event_op.simps add: refines_append refines_clear)
qed simp

lemma log_next: "fst (fold log_event_op ops lg) \<le> fst lg + length ops"
proof (induction ops arbitrary: lg)
  case (Cons op ops)
  obtain n log where lg: "lg = (n, log)" by (cases lg)
  from Cons.IH [of "log_event_op op lg"] show ?case by (cases op) (simp_all add: lg)
qed simp

lemma since_stored:
  assumes "refines_log st lg" and "fst lg < 2 ^ 64" and "i < fst lg"
  shows "get_events_since st session (of_nat i) =
    map (\<lambda>(n, data). (of_nat n, data)) (filter (\<lambda>(n, data). i < n) (take_last max_events_per_session (snd lg session)))"
proof -
  let ?f = "\<lambda>(n, data). (of_nat n :: 64 word, data :: string)"
  have less: "(of_nat i < (of_nat n :: 64 word)) = (i < n)" if "n < fst lg" for n
    using that assms(2,3) by (simp add: word_less_nat_alt unat_of_nat)
  have "\<forall>(n, data) \<in> set (take_last max_events_per_session (snd lg session)). n < fst lg"
    using assms(1) take_last_subset [of max_events_per_session "snd lg session"]
    by (force simp: refines_log_def log_ok_def)
  then have "filter (\<lambda>(w, data). of_nat i < w) (map ?f (take_last max_events_per_session (snd lg session))) =
      map ?f (filter (\<lambda>(n, data). i < n) (take_last max_events_per_session (snd lg session)))"
    by (auto simp: filter_map o_def less split_def intro!: arg_cong [of _ _ "map _"] filter_cong)
  moreover have "get_events_since st session (of_nat i) = filter (\<lambda>(w, data). of_nat i < w) (events_of st session)"
    by (simp add: get_events_since_def events_of_def split: option.split)
  ultimately show ?thesis using assms(1) by (simp add: refines_log_def stored_def)
qed

text \<open>C31: after any appends and clearings (fewer than \<open>2 ^ 64 - 1\<close>), asking for the events of a session after an
  id gives exactly those of the last 10000 entries of its full log whose number is larger, in the order of arrival.\<close>

theorem event_store_refines_log:
  assumes "length ops < 2 ^ 64 - 1" and "i < fst (fold log_event_op ops empty_log)"
  shows "get_events_since (fold run_event_op ops new_event_store) session (of_nat i) =
    map (\<lambda>(n, data). (of_nat n, data))
      (filter (\<lambda>(n, data). i < n) (take_last max_events_per_session (snd (fold log_event_op ops empty_log) session)))"
proof (rule since_stored [OF refines_run [OF refines_new] _ assms(2)])
  show "fst (fold log_event_op ops empty_log) < 2 ^ 64"
    using log_next [of ops empty_log] assms(1) by (simp add: empty_log_def)
qed

theorem event_store_refines_log_witness:
  "get_events_since (fold run_event_op [AppendEvent ''a'' ''x'', AppendEvent ''b'' ''y'', AppendEvent ''a'' ''z'']
     new_event_store) ''a'' 1 = [(3, ''z'')]"
proof -
  let ?ops = "[AppendEvent ''a'' ''x'', AppendEvent ''b'' ''y'', AppendEvent ''a'' ''z'']"
  have "length ?ops < 2 ^ 64 - 1" "1 < fst (fold log_event_op ?ops empty_log)"
    by (simp_all add: empty_log_def)
  from event_store_refines_log [OF this, of "''a''"] show ?thesis
    by (simp add: empty_log_def take_last_def max_events_per_session_def)
qed

end
