(* ===== verification/Session_Store.thy ===== *)
theory Session_Store
  imports Sorted_Maps
begin

text \<open>
  \<open>InMemorySessionStore\<close> of \<open>include/mcp/http/SessionStore.hpp\<close>: at most 10000 sessions of the HTTP server, each
  forgotten when it has been idle for more than half an hour.  Times are milliseconds since the epoch; the clock
  is an argument, and the differences the code forms in \<open>int64_t\<close> do not overflow for such times.
\<close>

record session_record =
  sr_version :: string
  sr_created_at :: int
  sr_last_seen :: int

type_synonym session_store = "(string, session_record) amap"

definition max_http_sessions :: nat where "max_http_sessions = 10000"

definition session_idle_timeout :: int where "session_idle_timeout = 30 * 60 * 1000"

definition effective_last_seen :: "session_record \<Rightarrow> int" where
  "effective_last_seen r = (if sr_last_seen r \<noteq> 0 then sr_last_seen r else sr_created_at r)"

definition is_expired :: "session_record \<Rightarrow> int \<Rightarrow> bool" where
  "is_expired r now =
     (let seen = effective_last_seen r in if seen = 0 then False else session_idle_timeout < now - seen)"

definition sweep_expired :: "int \<Rightarrow> session_store \<Rightarrow> session_store \<times> nat" where
  "sweep_expired now st =
     (let st' = filter (\<lambda>(sid, r). \<not> is_expired r now) st in (st', length st - length st'))"

definition try_save :: "int \<Rightarrow> string \<Rightarrow> session_record \<Rightarrow> session_store \<Rightarrow> session_store \<times> bool" where
  "try_save now sid r st =
     (let st1 = fst (sweep_expired now st)
      in if amap_find sid st1 = None \<and> max_http_sessions \<le> length st1 then (st1, False)
         else (amap_put sid (if sr_last_seen r = 0 then r\<lparr>sr_last_seen := now\<rparr> else r) st1, True))"

text \<open>\<open>Save\<close> throws when the store is full; the sweep has happened by then.\<close>

definition save_session :: "int \<Rightarrow> string \<Rightarrow> session_record \<Rightarrow> session_store \<Rightarrow> session_store \<times> (string + unit)" where
  "save_session now sid r st =
     (case try_save now sid r st of (st', ok) \<Rightarrow> (st', if ok then Inr () else Inl ''session store is full''))"

definition load_session :: "int \<Rightarrow> string \<Rightarrow> session_store \<Rightarrow> session_store \<times> session_record option" where
  "load_session now sid st =
     (case amap_find sid st of
        None \<Rightarrow> (st, None)
      | Some r \<Rightarrow> if is_expired r now then (amap_erase sid st, None)
                  else (let r' = r\<lparr>sr_last_seen := now\<rparr> in (amap_put sid r' st, Some r')))"

definition remove_session :: "string \<Rightarrow> session_store \<Rightarrow> session_store" where
  "remove_session sid st = amap_erase sid st"

datatype store_op = SaveSession int string session_record | LoadSession int string | RemoveSession string | Sweep int

fun run_store_op :: "store_op \<Rightarrow> session_store \<Rightarrow> session_store" where
  "run_store_op (SaveSession now sid r) st = fst (try_save now sid r st)"
| "run_store_op (LoadSession now sid) st = fst (load_session now sid st)"
| "run_store_op (RemoveSession sid) st = remove_session sid st"
| "run_store_op (Sweep now) st = fst (sweep_expired now st)"

section \<open>Bounded\<close>

definition store_ok :: "session_store \<Rightarrow> bool" where
  "store_ok st \<longleftrightarrow> amap_ok st \<and> length st \<le> max_http_sessions"

lemma sweep_ok: "store_ok st \<Longrightarrow> store_ok (fst (sweep_expired now st))"
  by (auto simp: sweep_expired_def Let_def store_ok_def amap_filter_ok intro: order_trans [OF length_filter_le])

lemma try_save_ok: "store_ok st \<Longrightarrow> store_ok (fst (try_save now sid r st))"
  using sweep_ok [of st now] by (auto simp: try_save_def Let_def store_ok_def amap_put_length)

lemma load_session_ok: "store_ok st \<Longrightarrow> store_ok (fst (load_session now sid st))"
  by (auto simp: load_session_def Let_def store_ok_def amap_put_length intro: order_trans [OF amap_erase_length_le]
      split: option.split)

lemma store_op_ok: "store_ok st \<Longrightarrow> store_ok (run_store_op op st)"
proof (cases op)
  case (RemoveSession sid)
  then show "store_ok st \<Longrightarrow> store_ok (run_store_op op st)"
    by (auto simp: remove_session_def store_ok_def intro: order_trans [OF amap_erase_length_le])
qed (simp_all add: try_save_ok load_session_ok sweep_ok)

lemma store_ops_ok: "store_ok st \<Longrightarrow> store_ok (fold run_store_op ops st)"
  by (induction ops arbitrary: st) (simp_all add: store_op_ok)

section \<open>What a session sees\<close>

text \<open>When another session acts, a session that is not idle keeps its record.\<close>

fun acts_on :: "store_op \<Rightarrow> string option" where
  "acts_on (SaveSession now sid r) = Some sid"
| "acts_on (LoadSession now sid) = Some sid"
| "acts_on (RemoveSession sid) = Some sid"
| "acts_on (Sweep now) = None"

fun op_time :: "store_op \<Rightarrow> int option" where
  "op_time (SaveSession now sid r) = Some now"
| "op_time (LoadSession now sid) = Some now"
| "op_time (RemoveSession sid) = None"
| "op_time (Sweep now) = Some now"

lemma swept_find: "store_ok st \<Longrightarrow> amap_find sid (fst (sweep_expired now st)) =
    (case amap_find sid st of Some r \<Rightarrow> if is_expired r now then None else Some r | None \<Rightarrow> None)"
  by (simp add: sweep_expired_def Let_def amap_find_filtered store_ok_def split: option.split)

lemma other_op_keeps:
  assumes "store_ok st" "acts_on op \<noteq> Some sid" "amap_find sid st = Some r"
    "case op_time op of Some now \<Rightarrow> \<not> is_expired r now | None \<Rightarrow> True"
  shows "amap_find sid (run_store_op op st) = Some r"
  using assms swept_find [of st sid]
  by (cases op) (auto simp: try_save_def load_session_def remove_session_def Let_def store_ok_def split: option.split)

lemma active_not_expired: "sr_last_seen r = now \<Longrightarrow> 0 < now \<Longrightarrow> t - now \<le> session_idle_timeout \<Longrightarrow> \<not> is_expired r t"
  by (simp add: is_expired_def effective_last_seen_def)

lemma others_keep:
  assumes "store_ok st" "amap_find sid st = Some r" "sr_last_seen r = now" "0 < now"
    "\<forall>op \<in> set ops. acts_on op \<noteq> Some sid \<and> (case op_time op of Some t \<Rightarrow> t - now \<le> session_idle_timeout | None \<Rightarrow> True)"
  shows "amap_find sid (fold run_store_op ops st) = Some r"
  using assms
proof (induction ops arbitrary: st)
  case (Cons op ops)
  have "amap_find sid (run_store_op op st) = Some r"
    using Cons.prems active_not_expired [OF Cons.prems(3,4)]
    by (intro other_op_keeps) (auto split: option.splits)
  then show ?case using Cons store_op_ok by simp
qed simp

text \<open>A session that was saved or loaded is found again within half an hour, whatever the others do in between,
  and loading it renews the half hour; after more than half an hour without use it is gone.\<close>

theorem session_kept_while_active:
  assumes "store_ok st" "load_session now sid st = (st', Some r)" "0 < now"
    and "\<forall>op \<in> set ops. acts_on op \<noteq> Some sid \<and> (case op_time op of Some t \<Rightarrow> t - now \<le> session_idle_timeout | None \<Rightarrow> True)"
  shows "snd (load_session later sid (fold run_store_op ops st')) =
    (if later - now \<le> session_idle_timeout then Some (r\<lparr>sr_last_seen := later\<rparr>) else None)"
proof -
  have st': "amap_find sid st' = Some r" "sr_last_seen r = now"
    using assms(2) by (auto simp: load_session_def Let_def split: option.splits if_splits)
  have "store_ok st'" using load_session_ok [OF assms(1), of now sid] assms(2) by simp
  from others_keep [OF this st' assms(3,4)] st'(2) assms(3) show ?thesis
    by (auto simp: load_session_def Let_def is_expired_def effective_last_seen_def)
qed

definition sample_record :: session_record where
  "sample_record = \<lparr>sr_version = ''2025-06-18'', sr_created_at = 5, sr_last_seen = 0\<rparr>"

theorem session_kept_while_active_witness:
  "snd (load_session 900 ''s'' (fold run_store_op [SaveSession 60 ''t'' sample_record]
     (fst (load_session 50 ''s'' (fst (try_save 40 ''s'' sample_record [])))))) =
     Some (sample_record\<lparr>sr_last_seen := 900\<rparr>)"
proof -
  let ?st = "fst (try_save 40 ''s'' sample_record [])"
  have "store_ok ?st" by (rule try_save_ok) (simp add: store_ok_def)
  moreover have "load_session 50 ''s'' ?st = (fst (load_session 50 ''s'' ?st), Some (sample_record\<lparr>sr_last_seen := 50\<rparr>))"
    by (simp add: load_session_def try_save_def sweep_expired_def sample_record_def is_expired_def Let_def
        effective_last_seen_def session_idle_timeout_def max_http_sessions_def)
  ultimately show ?thesis
    using session_kept_while_active [of ?st 50 "''s''" _ "sample_record\<lparr>sr_last_seen := 50\<rparr>"
        "[SaveSession 60 ''t'' sample_record]" 900]
    by (simp add: session_idle_timeout_def)
qed

text \<open>A full store refuses a new session only when none of its sessions is idle.\<close>

lemma refused_when_full:
  "store_ok st \<Longrightarrow> snd (try_save now sid r st) = False \<longleftrightarrow>
     amap_find sid (fst (sweep_expired now st)) = None \<and> length (fst (sweep_expired now st)) = max_http_sessions"
  using sweep_ok [of st now] by (auto simp: try_save_def Let_def store_ok_def)

end
