(* ===== verification/Response_Cache.thy ===== *)
theory Response_Cache
  imports Json_Value Sorted_Maps
begin

text \<open>
  \<open>ResponseCache\<close> of \<open>src/detail/ResponseCache.hpp\<close>: answers the client keeps, public ones for everybody and private
  ones per authorization context, each for a limited time and at most so many per partition.  Instants and
  durations are nanoseconds; the clock is an argument.
\<close>

type_synonym instant = int

definition of_ms :: "int \<Rightarrow> instant" where "of_ms n = n * 1000000"

datatype cache_scope = Public | Private

record cache_entry =
  ce_value :: json
  ce_expires_at :: instant
  ce_stored_at :: instant
  ce_last_accessed :: instant

type_synonym cache_entries = "(string, cache_entry) amap"

record response_cache =
  rc_max_entries :: nat
  rc_public :: cache_entries
  rc_private :: cache_entries

definition default_max_entries :: nat where "default_max_entries = 512"

definition max_ttl :: int where "max_ttl = 24 * 60 * 60 * 1000"

definition separator :: char where "separator = chr 31"

definition new_cache :: "nat \<Rightarrow> response_cache" where
  "new_cache n = \<lparr>rc_max_entries = n, rc_public = [], rc_private = []\<rparr>"

definition join_with_separator :: "string \<Rightarrow> string \<Rightarrow> string" where
  "join_with_separator hd_part tl_part = hd_part @ separator # tl_part"

definition private_key :: "string \<Rightarrow> string \<Rightarrow> string" where
  "private_key auth_context key = join_with_separator auth_context key"

definition starts_with :: "string \<Rightarrow> string \<Rightarrow> bool" where
  "starts_with v prefix_text \<longleftrightarrow> length prefix_text \<le> length v \<and> take (length prefix_text) v = prefix_text"

definition ends_with :: "string \<Rightarrow> string \<Rightarrow> bool" where
  "ends_with v suffix_text \<longleftrightarrow> length suffix_text \<le> length v \<and> drop (length v - length suffix_text) v = suffix_text"

section \<open>Eviction\<close>

text \<open>The entry used least recently, the first of equals in key order.\<close>

fun eviction_victim :: "string \<times> cache_entry \<Rightarrow> cache_entries \<Rightarrow> string" where
  "eviction_victim (k, e) [] = k"
| "eviction_victim (k, e) ((k', e') # m) =
     eviction_victim (if ce_last_accessed e' < ce_last_accessed e then (k', e') else (k, e)) m"

lemma eviction_victim_in: "eviction_victim ke m \<in> insert (fst ke) (fst ` set m)"
proof (induction ke m rule: eviction_victim.induct)
  case (2 k e k' e' m)
  then show ?case by (cases "ce_last_accessed e' < ce_last_accessed e") auto
qed simp

lemma victim_erased:
  assumes "m \<noteq> []"
  shows "length (amap_erase (eviction_victim (hd m) m) m) < length m"
proof -
  have "eviction_victim (hd m) m \<in> fst ` set m"
    using eviction_victim_in [of "hd m" m] assms by (cases m) auto
  then have "amap_find (eviction_victim (hd m) m) m \<noteq> None"
    using amap_find_None_iff by fast
  from amap_erase_length [OF this] show ?thesis by simp
qed

function evict_locked :: "nat \<Rightarrow> cache_entries \<Rightarrow> cache_entries" where
  "evict_locked n m = (if n < length m then evict_locked n (amap_erase (eviction_victim (hd m) m) m) else m)"
  by auto
termination
  by (relation "measure (\<lambda>(n, m). length m)") (auto intro: victim_erased)

declare evict_locked.simps [simp del]

section \<open>Operations\<close>

definition stored_entry :: "instant \<Rightarrow> json \<Rightarrow> int \<Rightarrow> cache_entry" where
  "stored_entry now v ttl = \<lparr>ce_value = v, ce_expires_at = now + of_ms (min ttl max_ttl), ce_stored_at = now,
     ce_last_accessed = now\<rparr>"

definition store_response :: "instant \<Rightarrow> string \<Rightarrow> cache_scope \<Rightarrow> json \<Rightarrow> int \<Rightarrow> string \<Rightarrow> response_cache \<Rightarrow> response_cache" where
  "store_response now key scope v ttl auth_context c =
     (case scope of
        Private \<Rightarrow> c\<lparr>rc_private := evict_locked (rc_max_entries c)
          (amap_put (private_key auth_context key) (stored_entry now v ttl) (rc_private c))\<rparr>
      | Public \<Rightarrow> c\<lparr>rc_public := evict_locked (rc_max_entries c)
          (amap_put key (stored_entry now v ttl) (rc_public c))\<rparr>)"

definition lookup :: "instant \<Rightarrow> string \<Rightarrow> int option \<Rightarrow> cache_entries \<Rightarrow> cache_entries \<times> json option" where
  "lookup now key max_age m =
     (case amap_find key m of
        None \<Rightarrow> (m, None)
      | Some e \<Rightarrow>
          if ce_expires_at e \<le> now \<or> (case max_age of Some a \<Rightarrow> of_ms a < now - ce_stored_at e | None \<Rightarrow> False)
          then (amap_erase key m, None)
          else (amap_put key (e\<lparr>ce_last_accessed := now\<rparr>) m, Some (ce_value e)))"

definition get_any :: "instant \<Rightarrow> string \<Rightarrow> int option \<Rightarrow> string \<Rightarrow> response_cache \<Rightarrow> response_cache \<times> json option" where
  "get_any now key max_age auth_context c =
     (case lookup now key max_age (rc_public c) of
        (pub, Some v) \<Rightarrow> (c\<lparr>rc_public := pub\<rparr>, Some v)
      | (pub, None) \<Rightarrow>
          (case lookup now (private_key auth_context key) max_age (rc_private c) of
             (priv, r) \<Rightarrow> (c\<lparr>rc_public := pub, rc_private := priv\<rparr>, r)))"

definition invalidate :: "string \<Rightarrow> response_cache \<Rightarrow> response_cache" where
  "invalidate key c = c\<lparr>rc_public := amap_erase key (rc_public c),
     rc_private := filter (\<lambda>(k, e). \<not> ends_with k (join_with_separator [] key)) (rc_private c)\<rparr>"

definition clear_cache :: "response_cache \<Rightarrow> response_cache" where
  "clear_cache c = c\<lparr>rc_public := [], rc_private := []\<rparr>"

definition clear_private :: "response_cache \<Rightarrow> response_cache" where
  "clear_private c = c\<lparr>rc_private := []\<rparr>"

definition clear_private_context :: "string \<Rightarrow> response_cache \<Rightarrow> response_cache" where
  "clear_private_context auth_context c =
     c\<lparr>rc_private := filter (\<lambda>(k, e). \<not> starts_with k (join_with_separator auth_context [])) (rc_private c)\<rparr>"

datatype cache_op =
    StoreResponse instant string cache_scope json int string
  | GetAny instant string "int option" string
  | Invalidate string | ClearCache | ClearPrivate | ClearPrivateContext string

fun run_cache_op :: "cache_op \<Rightarrow> response_cache \<Rightarrow> response_cache" where
  "run_cache_op (StoreResponse now key scope v ttl auth) c = store_response now key scope v ttl auth c"
| "run_cache_op (GetAny now key max_age auth) c = fst (get_any now key max_age auth c)"
| "run_cache_op (Invalidate key) c = invalidate key c"
| "run_cache_op ClearCache c = clear_cache c"
| "run_cache_op ClearPrivate c = clear_private c"
| "run_cache_op (ClearPrivateContext auth) c = clear_private_context auth c"

section \<open>Where the entries come from\<close>

text \<open>Every entry was put there by a store; only the time of its last use may have changed since.\<close>

definition from_store :: "cache_op set \<Rightarrow> cache_scope \<Rightarrow> string \<times> cache_entry \<Rightarrow> bool" where
  "from_store ops scope ke \<longleftrightarrow> (\<exists>key ttl auth.
     StoreResponse (ce_stored_at (snd ke)) key scope (ce_value (snd ke)) ttl auth \<in> ops \<and>
     ce_expires_at (snd ke) = ce_stored_at (snd ke) + of_ms (min ttl max_ttl) \<and>
     fst ke = (case scope of Public \<Rightarrow> key | Private \<Rightarrow> private_key auth key))"

definition entries_ok :: "nat \<Rightarrow> cache_op set \<Rightarrow> cache_scope \<Rightarrow> cache_entries \<Rightarrow> bool" where
  "entries_ok n ops scope m \<longleftrightarrow> amap_ok m \<and> length m \<le> n \<and> (\<forall>ke \<in> set m. from_store ops scope ke)"

definition cache_ok :: "cache_op set \<Rightarrow> response_cache \<Rightarrow> bool" where
  "cache_ok ops c \<longleftrightarrow> entries_ok (rc_max_entries c) ops Public (rc_public c) \<and>
     entries_ok (rc_max_entries c) ops Private (rc_private c)"

lemma evict_locked_length: "length (evict_locked n m) \<le> n"
  by (induction n m rule: evict_locked.induct) (subst evict_locked.simps, simp)

lemma evict_locked_sub: "amap_ok m \<Longrightarrow> amap_ok (evict_locked n m) \<and> set (evict_locked n m) \<subseteq> set m"
proof (induction n m rule: evict_locked.induct)
  case (1 n m)
  then show ?case
    using amap_erase_subset [of "eviction_victim (hd m) m" m]
    by (subst (1 2) evict_locked.simps) auto
qed

lemma from_store_mono: "from_store ops scope ke \<Longrightarrow> ops \<subseteq> ops' \<Longrightarrow> from_store ops' scope ke"
  unfolding from_store_def by blast

lemma entries_ok_subset: "entries_ok n ops scope m \<Longrightarrow> ops \<subseteq> ops' \<Longrightarrow> amap_ok m' \<Longrightarrow> set m' \<subseteq> set m \<Longrightarrow>
    length m' \<le> length m \<Longrightarrow> entries_ok n ops' scope m'"
  by (auto simp: entries_ok_def intro: from_store_mono)

lemma filter_entries_ok: "entries_ok n ops scope m \<Longrightarrow> entries_ok n ops scope (filter P m)"
  by (auto simp: entries_ok_def amap_filter_ok intro: order_trans [OF length_filter_le])

lemma erase_entries_ok: "entries_ok n ops scope m \<Longrightarrow> entries_ok n ops scope (amap_erase k m)"
  using amap_erase_subset [of k m] amap_erase_length_le [of k m] by (auto simp: entries_ok_def)

lemma lookup_ok: "entries_ok n ops scope m \<Longrightarrow> entries_ok n ops scope (fst (lookup now key max_age m))"
proof (cases "amap_find key m")
  case (Some e)
  assume ok: "entries_ok n ops scope m"
  have "from_store ops scope (key, e)"
    using ok Some by (auto simp: entries_ok_def dest: amap_find_Some_in)
  then have "from_store ops scope (key, e\<lparr>ce_last_accessed := now\<rparr>)"
    by (auto simp: from_store_def)
  then have "entries_ok n ops scope (amap_put key (e\<lparr>ce_last_accessed := now\<rparr>) m)"
    using ok Some set_amap_put [of key "e\<lparr>ce_last_accessed := now\<rparr>" m]
    by (auto simp: entries_ok_def amap_put_length)
  moreover have "entries_ok n ops scope (amap_erase key m)" by (rule erase_entries_ok [OF ok])
  ultimately show ?thesis by (simp add: lookup_def Some)
qed (simp add: lookup_def)

lemma entries_ok_mono: "entries_ok n ops scope m \<Longrightarrow> ops \<subseteq> ops' \<Longrightarrow> entries_ok n ops' scope m"
  by (rule entries_ok_subset) (auto simp: entries_ok_def)

lemma store_entries_ok:
  assumes ok: "entries_ok n ops scope m" and sub: "ops \<subseteq> ops'" and op: "StoreResponse t key scope v ttl auth \<in> ops'"
    and k: "k = (case scope of Public \<Rightarrow> key | Private \<Rightarrow> private_key auth key)"
  shows "entries_ok n ops' scope (evict_locked n (amap_put k (stored_entry t v ttl) m))"
proof -
  have "from_store ops' scope (k, stored_entry t v ttl)"
    using op k unfolding from_store_def by (auto simp: stored_entry_def)
  moreover have "amap_ok (amap_put k (stored_entry t v ttl) m)" using ok by (simp add: entries_ok_def)
  ultimately show ?thesis
    using ok sub set_amap_put [of k "stored_entry t v ttl" m] evict_locked_length
      evict_locked_sub [of "amap_put k (stored_entry t v ttl) m" n]
    unfolding entries_ok_def by (blast intro: from_store_mono)
qed

lemma get_any_ok: "cache_ok ops c \<Longrightarrow> cache_ok ops (fst (get_any now key max_age auth c))"
  using lookup_ok [of "rc_max_entries c" ops Public "rc_public c" now key max_age]
    lookup_ok [of "rc_max_entries c" ops Private "rc_private c" now "private_key auth key" max_age]
  by (auto simp: cache_ok_def get_any_def split: prod.splits option.splits)

lemma cache_op_ok: "cache_ok ops c \<Longrightarrow> cache_ok (insert op ops) (run_cache_op op c)"
proof -
  assume ok: "cache_ok ops c"
  then have ok': "cache_ok (insert op ops) c"
    by (auto simp: cache_ok_def intro: entries_ok_mono)
  show ?thesis
  proof (cases op)
    case (StoreResponse t key scope v ttl auth)
    then show ?thesis
      using ok' store_entries_ok [of _ "insert op ops" scope _ "insert op ops" t key v ttl auth]
      by (cases scope) (auto simp: cache_ok_def store_response_def)
  next
    case (GetAny now key max_age auth)
    then show ?thesis using get_any_ok [OF ok'] by simp
  qed (use ok' in \<open>auto simp: cache_ok_def invalidate_def clear_cache_def clear_private_def clear_private_context_def
      filter_entries_ok erase_entries_ok entries_ok_def [of _ _ _ "[]"]\<close>)
qed

lemma cache_run_ok: "cache_ok ops c \<Longrightarrow> cache_ok (ops \<union> set xs) (fold run_cache_op xs c)"
proof (induction xs arbitrary: ops c)
  case (Cons op xs)
  from Cons.IH [OF cache_op_ok [OF Cons.prems]] show ?case by simp
qed simp

lemma cache_max: "rc_max_entries (fold run_cache_op xs c) = rc_max_entries c"
proof (induction xs arbitrary: c)
  case (Cons op xs)
  have "rc_max_entries (run_cache_op op c) = rc_max_entries c"
    by (cases op) (auto simp: store_response_def get_any_def invalidate_def clear_cache_def clear_private_def
      clear_private_context_def split: cache_scope.split prod.split option.split)
  with Cons show ?case by simp
qed simp

lemma new_cache_ok: "cache_ok {} (new_cache n)"
  by (simp add: cache_ok_def new_cache_def entries_ok_def)

text \<open>A partition never holds more entries than allowed.\<close>

lemma cache_bounded:
  "length (rc_public (fold run_cache_op xs (new_cache n))) \<le> n \<and> length (rc_private (fold run_cache_op xs (new_cache n))) \<le> n"
  using cache_run_ok [OF new_cache_ok, of xs n] cache_max [of xs "new_cache n"]
  by (simp add: cache_ok_def entries_ok_def new_cache_def)

section \<open>Isolation and freshness\<close>

lemma private_key_inject:
  "separator \<notin> set a \<Longrightarrow> separator \<notin> set b \<Longrightarrow> private_key a k = private_key b l \<longleftrightarrow> a = b \<and> k = l"
  by (auto simp: private_key_def join_with_separator_def append_eq_append_conv2 Cons_eq_append_conv append_eq_Cons_conv)

lemma lookup_fresh:
  assumes "snd (lookup now key max_age m) = Some v"
  shows "\<exists>e. (key, e) \<in> set m \<and> ce_value e = v \<and> now < ce_expires_at e \<and>
    (case max_age of Some a \<Rightarrow> now - ce_stored_at e \<le> of_ms a | None \<Rightarrow> True)"
proof -
  obtain e where e: "amap_find key m = Some e"
    using assms by (auto simp: lookup_def split: option.splits)
  then show ?thesis
    using assms amap_find_Some_in [OF e]
    by (intro exI [of _ e]) (auto simp: lookup_def not_le split: option.splits if_splits)
qed

definition answered_by :: "cache_op set \<Rightarrow> instant \<Rightarrow> string \<Rightarrow> int option \<Rightarrow> string \<Rightarrow> json \<Rightarrow> bool" where
  "answered_by ops now key max_age auth v \<longleftrightarrow> (\<exists>t scope ttl a. StoreResponse t key scope v ttl a \<in> ops \<and>
     (scope = Private \<longrightarrow> a = auth) \<and> now < t + of_ms (min ttl max_ttl) \<and>
     (case max_age of Some m \<Rightarrow> now - t \<le> of_ms m | None \<Rightarrow> True))"

text \<open>C32: what the cache returns was stored under the very key that is asked for, publicly or for the same
  authorization context, and is neither older than its time to live, nor than a day, nor than the caller allows.
  The contexts must not contain the separator of the private keys.\<close>

theorem cache_answers_own:
  assumes "snd (get_any now key max_age auth (fold run_cache_op ops (new_cache n))) = Some v"
    and "separator \<notin> set auth"
    and "\<forall>t k scope v ttl a. StoreResponse t k scope v ttl a \<in> set ops \<longrightarrow> separator \<notin> set a"
  shows "answered_by (set ops) now key max_age auth v"
proof -
  let ?c = "fold run_cache_op ops (new_cache n)"
  have ok: "cache_ok (set ops) ?c"
    using cache_run_ok [OF new_cache_ok, of ops n] by simp
  consider "snd (lookup now key max_age (rc_public ?c)) = Some v"
    | "snd (lookup now (private_key auth key) max_age (rc_private ?c)) = Some v"
    using assms(1) by (auto simp: get_any_def split: prod.splits option.splits)
  then show ?thesis
  proof cases
    case 1
    from lookup_fresh [OF this] obtain e where e: "(key, e) \<in> set (rc_public ?c)" "ce_value e = v"
      "now < ce_expires_at e" "case max_age of Some a \<Rightarrow> now - ce_stored_at e \<le> of_ms a | None \<Rightarrow> True" by blast
    then have "from_store (set ops) Public (key, e)" using ok by (simp add: cache_ok_def entries_ok_def)
    then show ?thesis using e unfolding answered_by_def from_store_def by fastforce
  next
    case 2
    from lookup_fresh [OF this] obtain e where e: "(private_key auth key, e) \<in> set (rc_private ?c)" "ce_value e = v"
      "now < ce_expires_at e" "case max_age of Some a \<Rightarrow> now - ce_stored_at e \<le> of_ms a | None \<Rightarrow> True" by blast
    then have "from_store (set ops) Private (private_key auth key, e)" using ok by (simp add: cache_ok_def entries_ok_def)
    then obtain k ttl a where st: "StoreResponse (ce_stored_at e) k Private v ttl a \<in> set ops"
      "ce_expires_at e = ce_stored_at e + of_ms (min ttl max_ttl)" "private_key auth key = private_key a k"
      using e(2) by (auto simp: from_store_def)
    moreover have "a = auth" "k = key"
      using st assms(2,3) private_key_inject [of auth a key k] by blast+
    ultimately show ?thesis using e unfolding answered_by_def by auto
  qed
qed

theorem cache_answers_own_witness:
  "answered_by {StoreResponse 0 ''k'' Private (JBool True) 100 ''alice''} 5 ''k'' None ''alice'' (JBool True) \<and>
   snd (get_any 5 ''k'' None ''bob'' (fold run_cache_op [StoreResponse 0 ''k'' Private (JBool True) 100 ''alice''] (new_cache 2))) = None"
proof -
  let ?ops = "[StoreResponse 0 ''k'' Private (JBool True) 100 ''alice'']"
  have "snd (get_any 5 ''k'' None ''alice'' (fold run_cache_op ?ops (new_cache 2))) = Some (JBool True)"
    by code_simp
  moreover have "separator \<notin> set ''alice''" by code_simp
  ultimately have "answered_by (set ?ops) 5 ''k'' None ''alice'' (JBool True)"
    using cache_answers_own by fastforce
  moreover have "snd (get_any 5 ''k'' None ''bob'' (fold run_cache_op ?ops (new_cache 2))) = None"
    by code_simp
  ultimately show ?thesis by simp
qed

text \<open>With the separator in a context, one context reads what another stored.\<close>

lemma separator_leaks: "private_key (''a'' @ [separator] @ ''b'') ''c'' = private_key ''a'' (''b'' @ [separator] @ ''c'')"
  by (simp add: private_key_def join_with_separator_def)

end
