(* ===== verification/Message_Filter.thy ===== *)
theory Message_Filter
  imports Json_Rpc
begin

text \<open>
  \<open>FilterPipeline\<close> of \<open>include/mcp/protocol/MessageFilter.hpp\<close>.  A filter is user code that is handed a message and a
  continuation; here it is the list of the messages it hands to the continuation, in order.  The filters of one
  execution share one index, so a call of the continuation goes to the first filter that has not been used yet,
  and when all have been used to the final handler.
\<close>

type_synonym message_filter = "rpc_message \<Rightarrow> rpc_message list"

text \<open>
  The calls of the continuation that are still to be made, the next one first, with the filters that are still
  unused: the calls made by a filter come before those its caller makes afterwards.
\<close>

fun pass_on :: "message_filter list \<Rightarrow> rpc_message list \<Rightarrow> rpc_message list" where
  "pass_on rest [] = []"
| "pass_on [] (m # ms) = m # pass_on [] ms"
| "pass_on (f # rest) (m # ms) = pass_on rest (f m @ ms)"

definition execute :: "message_filter list \<Rightarrow> rpc_message \<Rightarrow> rpc_message list" where
  "execute filters m = (if filters = [] then [m] else pass_on filters [m])"

section \<open>Filters that pass on at most one message\<close>

text \<open>The chain a user thinks of: what passes a filter goes to the next one.\<close>

fun chain :: "message_filter list \<Rightarrow> rpc_message \<Rightarrow> rpc_message list" where
  "chain [] m = [m]"
| "chain (f # fs) m = concat (map (chain fs) (f m))"

definition single :: "message_filter \<Rightarrow> bool" where
  "single f \<longleftrightarrow> (\<forall>m. length (f m) \<le> 1)"

lemma pass_on_chain: "\<forall>f \<in> set fs. single f \<Longrightarrow> pass_on fs [m] = chain fs m"
proof (induction fs arbitrary: m)
  case (Cons f fs)
  have "length (f m) \<le> 1" using Cons.prems by (simp add: single_def)
  then consider "f m = []" | m' where "f m = [m']"
    by (metis One_nat_def le_Suc_eq le_zero_eq length_0_conv length_Suc_conv)
  then show ?case
    by cases (use Cons in auto)
qed simp

text \<open>When no filter passes on more than one message, a message goes through all the filters in the order they
  were added, each seeing what the one before it passed on, and the handler gets what the last one passes on.\<close>

theorem pipeline_is_chain:
  assumes "\<forall>f \<in> set filters. single f"
  shows "execute filters m = chain filters m"
  using pass_on_chain [OF assms, of m] by (simp add: execute_def)

definition drop_requests :: message_filter where
  "drop_requests m = (case m of MsgRequest r \<Rightarrow> [] | _ \<Rightarrow> [m])"

definition sample_ping :: rpc_message where
  "sample_ping = MsgRequest \<lparr>rq_jsonrpc = json_rpc_version, rq_id = IdInt 1, rq_method = ''ping'', rq_params = None,
     rq_meta = None, rq_session = []\<rparr>"

theorem pipeline_is_chain_witness:
  "execute [\<lambda>m. [m], drop_requests] sample_ping = chain [\<lambda>m. [m], drop_requests] sample_ping"
  by (rule pipeline_is_chain) (simp add: single_def drop_requests_def split: rpc_message.split)

section \<open>A filter that passes on twice\<close>

text \<open>The second message skips the filters the first one has used: here requests should be dropped, but the second
  copy reaches the handler.\<close>

lemma second_message_unfiltered:
  "execute [\<lambda>m. [m, m], drop_requests] sample_ping = [sample_ping]"
  "chain [\<lambda>m. [m, m], drop_requests] sample_ping = []"
  by (simp_all add: execute_def drop_requests_def sample_ping_def)

end
