(* ===== verification/Message_Channel.thy ===== *)
theory Message_Channel
  imports Json_Rpc
begin

text \<open>
  \<open>MessageChannel\<close> of \<open>include/mcp/protocol/MessageChannel.hpp\<close>: the bounded queue between a transport and its session
  handler.  \<open>Send\<close> and \<open>AsyncReceive\<close> block; a blocked call is a step that is not yet enabled.
\<close>

record channel =
  ch_max_buffer :: nat
  ch_queue :: "rpc_message list"
  ch_closed :: bool

definition new_channel :: "nat \<Rightarrow> channel" where
  "new_channel n = \<lparr>ch_max_buffer = n, ch_queue = [], ch_closed = False\<rparr>"

datatype receive_result = Received rpc_message | OperationCanceled

definition can_receive :: "channel \<Rightarrow> bool" where
  "can_receive c \<longleftrightarrow> ch_queue c \<noteq> [] \<or> ch_closed c"

definition async_receive :: "channel \<Rightarrow> channel \<times> receive_result" where
  "async_receive c =
     (if ch_closed c then (c, OperationCanceled)
      else (c\<lparr>ch_queue := tl (ch_queue c)\<rparr>, Received (hd (ch_queue c))))"

definition can_send :: "channel \<Rightarrow> bool" where
  "can_send c \<longleftrightarrow> length (ch_queue c) < ch_max_buffer c \<or> ch_closed c"

definition send :: "rpc_message \<Rightarrow> channel \<Rightarrow> channel \<times> bool" where
  "send m c = (if ch_closed c then (c, False) else (c\<lparr>ch_queue := ch_queue c @ [m]\<rparr>, True))"

definition try_send :: "rpc_message \<Rightarrow> channel \<Rightarrow> channel \<times> bool" where
  "try_send m c =
     (if ch_closed c \<or> ch_max_buffer c \<le> length (ch_queue c) then (c, False)
      else (c\<lparr>ch_queue := ch_queue c @ [m]\<rparr>, True))"

definition close_channel :: "channel \<Rightarrow> channel" where
  "close_channel c = c\<lparr>ch_closed := True\<rparr>"

definition is_open :: "channel \<Rightarrow> bool" where "is_open c \<longleftrightarrow> \<not> ch_closed c"

definition channel_empty :: "channel \<Rightarrow> bool" where "channel_empty c \<longleftrightarrow> ch_queue c = []"

section \<open>Runs\<close>

text \<open>A run records the messages that were accepted and those that were received.\<close>

inductive channel_run :: "nat \<Rightarrow> channel \<Rightarrow> rpc_message list \<Rightarrow> rpc_message list \<Rightarrow> bool" for n where
  start: "channel_run n (new_channel n) [] []"
| receive: "channel_run n c ins outs \<Longrightarrow> can_receive c \<Longrightarrow> async_receive c = (c', Received m) \<Longrightarrow>
    channel_run n c' ins (outs @ [m])"
| cancelled: "channel_run n c ins outs \<Longrightarrow> can_receive c \<Longrightarrow> async_receive c = (c', OperationCanceled) \<Longrightarrow>
    channel_run n c' ins outs"
| send: "channel_run n c ins outs \<Longrightarrow> can_send c \<Longrightarrow> send m c = (c', ok) \<Longrightarrow>
    channel_run n c' (if ok then ins @ [m] else ins) outs"
| try_send: "channel_run n c ins outs \<Longrightarrow> try_send m c = (c', ok) \<Longrightarrow>
    channel_run n c' (if ok then ins @ [m] else ins) outs"
| close: "channel_run n c ins outs \<Longrightarrow> channel_run n (close_channel c) ins outs"

inductive_cases channel_runE: "channel_run n c ins outs"

lemma channel_run_fifo:
  "channel_run n c ins outs \<Longrightarrow> ins = outs @ ch_queue c \<and> length (ch_queue c) \<le> n \<and> ch_max_buffer c = n"
proof (induction rule: channel_run.induct)
  case (receive c ins outs c' m)
  then show ?case
    by (cases "ch_queue c") (auto simp: can_receive_def async_receive_def split: if_splits)
qed (auto simp: new_channel_def can_receive_def async_receive_def can_send_def send_def try_send_def close_channel_def
  split: if_splits)

text \<open>Messages are received in the order they were accepted, none twice and none before it was sent, and the buffer
  never holds more than its capacity; what is still queued when the channel closes is never received.\<close>

lemma channel_prefix: "channel_run n c ins outs \<Longrightarrow> \<exists>rest. ins = outs @ rest \<and> length rest \<le> n"
  using channel_run_fifo by blast

lemma closed_channel_cancels: "ch_closed c \<Longrightarrow> can_receive c \<and> async_receive c = (c, OperationCanceled)"
  by (simp add: can_receive_def async_receive_def)

end
