(* ===== verification/Base64_Url.thy ===== *)
theory Base64_Url
  imports Prelude
begin

text \<open>
  \<open>Base64UrlEncode\<close> and \<open>Base64UrlDecode\<close> of \<open>include/mcp/detail/Base64Url.hpp\<close>.  The shift register of the decoder is
  a \<open>uint32_t\<close>: the arithmetic is that of natural numbers modulo \<open>2 ^ 32\<close>.
\<close>

definition base64_alphabet :: string where
  "base64_alphabet = ''ABCDEFGHIJKLMNOPQRSTUVWXYZabcdefghijklmnopqrstuvwxyz0123456789-_''"

definition base64_char :: "nat \<Rightarrow> char" where
  "base64_char n = base64_alphabet ! (n mod 64)"

fun base64url_encode :: "string \<Rightarrow> string" where
  "base64url_encode (a # b # c # s) =
     (let n = byte_of a * 2 ^ 16 + byte_of b * 2 ^ 8 + byte_of c
      in base64_char (n div 2 ^ 18) # base64_char (n div 2 ^ 12) # base64_char (n div 2 ^ 6) # base64_char n #
         base64url_encode s)"
| "base64url_encode [a, b] =
     (let n = byte_of a * 2 ^ 16 + byte_of b * 2 ^ 8
      in [base64_char (n div 2 ^ 18), base64_char (n div 2 ^ 12), base64_char (n div 2 ^ 6)])"
| "base64url_encode [a] =
     (let n = byte_of a * 2 ^ 16 in [base64_char (n div 2 ^ 18), base64_char (n div 2 ^ 12)])"
| "base64url_encode [] = []"

definition base64_value :: "char \<Rightarrow> nat option" where
  "base64_value c =
     (let b = byte_of c
      in if byte_of CHR ''A'' \<le> b \<and> b \<le> byte_of CHR ''Z'' then Some (b - byte_of CHR ''A'')
         else if byte_of CHR ''a'' \<le> b \<and> b \<le> byte_of CHR ''z'' then Some (b - byte_of CHR ''a'' + 26)
         else if byte_of CHR ''0'' \<le> b \<and> b \<le> byte_of CHR ''9'' then Some (b - byte_of CHR ''0'' + 52)
         else if c = CHR ''-'' then Some 62
         else if c = CHR ''_'' then Some 63
         else None)"

fun base64_loop :: "nat \<Rightarrow> nat \<Rightarrow> string \<Rightarrow> string option" where
  "base64_loop buf bits [] = Some []"
| "base64_loop buf bits (c # s) =
     (case base64_value c of
        None \<Rightarrow> None
      | Some v \<Rightarrow>
          (let buf' = (buf * 64 + v) mod 2 ^ 32
           in if 8 \<le> bits + 6 then
                map_option (\<lambda>out. chr (buf' div 2 ^ (bits - 2) mod 256) # out) (base64_loop buf' (bits - 2) s)
              else base64_loop buf' (bits + 6) s))"

definition base64url_decode :: "string \<Rightarrow> string option" where
  "base64url_decode text = base64_loop 0 0 text"

section \<open>Decoding what was encoded\<close>

lemma base64_alphabet_chars: "base64_alphabet = map chr ([65..<91] @ [97..<123] @ [48..<58] @ [45, 95])"
  by code_simp

lemma char_bytes: "byte_of CHR ''A'' = 65" "byte_of CHR ''Z'' = 90" "byte_of CHR ''a'' = 97" "byte_of CHR ''z'' = 122"
    "byte_of CHR ''0'' = 48" "byte_of CHR ''9'' = 57" "CHR ''-'' = chr 45" "CHR ''_'' = chr 95"
  by code_simp+

lemma char_neq: "chr 95 \<noteq> chr 45"
  by code_simp

lemma base64_value_bytes:
  "n < 26 \<Longrightarrow> base64_value (chr (65 + n)) = Some n"
  "n < 26 \<Longrightarrow> base64_value (chr (97 + n)) = Some (26 + n)"
  "n < 10 \<Longrightarrow> base64_value (chr (48 + n)) = Some (52 + n)"
  "base64_value (chr 45) = Some 62" "base64_value (chr 95) = Some 63"
  by (simp_all add: base64_value_def char_bytes Let_def char_neq)

lemma base64_alphabet_nth:
  "n < 26 \<Longrightarrow> base64_alphabet ! n = chr (65 + n)"
  "n < 26 \<Longrightarrow> base64_alphabet ! (26 + n) = chr (97 + n)"
  "n < 10 \<Longrightarrow> base64_alphabet ! (52 + n) = chr (48 + n)"
  "base64_alphabet ! 62 = chr 45" "base64_alphabet ! 63 = chr 95"
  by (simp_all add: base64_alphabet_chars nth_append del: upt_rec_numeral)

lemma digit_cases:
  assumes "m < (64 :: nat)"
  obtains "m < 26" | k where "m = 26 + k" "k < 26" | k where "m = 52 + k" "k < 10" | "m = 62" | "m = 63"
proof -
  consider "m < 26" | "26 \<le> m" "m < 52" | "52 \<le> m" "m < 62" | "m = 62" | "m = 63"
    using assms by linarith
  then show thesis
  proof cases
    case 2
    then show ?thesis using that(2) [of "m - 26"] by simp
  next
    case 3
    then show ?thesis using that(3) [of "m - 52"] by simp
  qed (use that in auto)
qed

lemma base64_value_char [simp]: "base64_value (base64_char n) = Some (n mod 64)"
proof -
  have "n mod 64 < 64" by simp
  then show ?thesis
    unfolding base64_char_def
    by (cases rule: digit_cases) (simp_all only: base64_alphabet_nth base64_value_bytes)
qed

lemma dot_no_digit: "base64_value CHR ''.'' = None"
  by code_simp

text \<open>The byte that leaves the register consists of the last bits that entered it.\<close>

lemma register_byte:
  assumes "k \<le> 24"
  shows "x mod 2 ^ 32 div 2 ^ k mod 2 ^ 8 = x div 2 ^ k mod (2 ^ 8 :: nat)"
proof -
  have "min 8 (32 - k) = 8" using assms by simp
  then show ?thesis
    by (simp only: drop_bit_take_bit take_bit_take_bit flip: take_bit_eq_mod drop_bit_eq_div)
qed

lemma div_block: "r < m \<Longrightarrow> (q * m + r) div m = (q :: nat)"
  by simp

lemma mod_block: "r < m \<Longrightarrow> (q * m + r) mod m = (r :: nat)"
  by simp

lemma mod_blocks: "r < m \<Longrightarrow> (q * m + r) mod (m * k) = q mod k * m + (r :: nat)"
  unfolding mod_mult2_eq by (simp add: div_block mod_block mult.commute)

text \<open>The digits of three bytes.\<close>

lemma digits3:
  assumes "a < 256" "b < 256" "c < 256" and n: "n = a * 2 ^ 16 + b * 2 ^ 8 + (c :: nat)"
  shows "n div 2 ^ 18 mod 64 = a div 4" "n div 2 ^ 12 mod 64 = a mod 4 * 16 + b div 16"
    "n div 2 ^ 6 mod 64 = b mod 16 * 4 + c div 64" "n mod 64 = c mod 64"
proof -
  have bc: "b div 16 < 16" "c div 64 < 4" "b * 256 + c < 65536" using assms by auto
  have n8: "n div 256 = a * 256 + b"
    using div_block [of c 256 "a * 256 + b"] assms by (simp add: algebra_simps)
  have n6: "n div 64 = a * 1024 + b * 4 + c div 64"
    using div_mult_self2 [of 64 c "a * 1024 + b * 4"] n by (simp add: algebra_simps)
  have n16: "n div 65536 = a"
    using div_block [OF bc(3), of a] n by (simp add: algebra_simps)
  have "n div 2 ^ 18 = n div 65536 div 4" by (simp flip: div_mult2_eq)
  then show "n div 2 ^ 18 mod 64 = a div 4" using assms(1) by (simp add: n16)
  show "n mod 64 = c mod 64"
    using mod_mult_self2 [of c 64 "a * 1024 + b * 4"] n by (simp add: algebra_simps)
  have "n div 2 ^ 12 = n div 256 div 16" by (simp flip: div_mult2_eq)
  also have "\<dots> = a * 16 + b div 16"
    using div_mult_self2 [of 16 b "a * 16"] n8 by (simp add: algebra_simps)
  finally show "n div 2 ^ 12 mod 64 = a mod 4 * 16 + b div 16"
    using mod_blocks [OF bc(1), of a 4] by simp
  have "n div 2 ^ 6 mod 64 = (b * 4 + c div 64) mod 64"
    using mod_mult_self2 [of "b * 4 + c div 64" 64 "a * 16"] n6 by (simp add: algebra_simps)
  then show "n div 2 ^ 6 mod 64 = b mod 16 * 4 + c div 64"
    using mod_blocks [OF bc(2), of b 16] by simp
qed

text \<open>Four digits leave three bytes, and the register is at a byte boundary again; the two short endings leave
  two bytes and one.\<close>

lemma register_div:
  assumes "w < (64 :: nat)"
  shows "(z * 64 + w) div 16 mod 256 = z mod 64 * 4 + w div 16"
    and "(z * 64 + w) div 4 mod 256 = z mod 16 * 16 + w div 4"
    and "(z * 64 + w) mod 256 = z mod 4 * 64 + w"
proof -
  have w: "w div 16 < 4" "w div 4 < 16" using assms by auto
  have d: "(z * 64 + w) div 16 = z * 4 + w div 16" "(z * 64 + w) div 4 = z * 16 + w div 4"
    using div_mult_self2 [of 16 w "z * 4"] div_mult_self2 [of 4 w "z * 16"] by (simp_all add: ac_simps)
  show "(z * 64 + w) div 16 mod 256 = z mod 64 * 4 + w div 16"
    unfolding d using mod_blocks [OF w(1), of z 64] by simp
  show "(z * 64 + w) div 4 mod 256 = z mod 16 * 16 + w div 4"
    unfolding d using mod_blocks [OF w(2), of z 16] by simp
  show "(z * 64 + w) mod 256 = z mod 4 * 64 + w"
    using mod_blocks [OF assms, of z 4] by simp
qed

lemma register_digit:
  assumes "v < (64 :: nat)"
  shows "(y * 64 + v) mod 64 = v" "(y * 64 + v) mod 16 = v mod 16" "(y * 64 + v) mod 4 = v mod 4"
  using assms mod_mult_self2 [of v 16 "y * 4"] mod_mult_self2 [of v 4 "y * 16"] by (simp_all add: ac_simps)

lemma register_out:
  assumes "v < 64" "w < (64 :: nat)"
  shows "((y * 64 + v) * 64 + w) mod 2 ^ 32 div 2 ^ 4 mod 256 = v * 4 + w div 16"
    and "((y * 64 + v) * 64 + w) mod 2 ^ 32 div 2 ^ 2 mod 256 = v mod 16 * 16 + w div 4"
    and "((y * 64 + v) * 64 + w) mod 2 ^ 32 div 2 ^ 0 mod 256 = v mod 4 * 64 + w"
proof -
  have p: "(2 :: nat) ^ 8 = 256" "(2 :: nat) ^ 4 = 16" "(2 :: nat) ^ 2 = 4" "(2 :: nat) ^ 0 = 1" by simp_all
  have k: "x mod 2 ^ 32 div 2 ^ k mod 256 = x div 2 ^ k mod 256" if "k \<le> 24" for x k :: nat
    using register_byte [OF that, of x] unfolding p .
  have le: "(4 :: nat) \<le> 24" "(2 :: nat) \<le> 24" "(0 :: nat) \<le> 24" by simp_all
  show "((y * 64 + v) * 64 + w) mod 2 ^ 32 div 2 ^ 4 mod 256 = v * 4 + w div 16"
      "((y * 64 + v) * 64 + w) mod 2 ^ 32 div 2 ^ 2 mod 256 = v mod 16 * 16 + w div 4"
      "((y * 64 + v) * 64 + w) mod 2 ^ 32 div 2 ^ 0 mod 256 = v mod 4 * 64 + w"
    unfolding k [OF le(1)] k [OF le(2)] k [OF le(3)]
    by (simp_all only: p register_div [OF assms(2)] register_digit [OF assms(1)] div_by_1)
qed

lemma mod_step: "(x mod m * 64 + v) mod m = (x * 64 + v) mod (m :: nat)"
  by (metis mod_add_left_eq mod_mult_left_eq)

lemma loop_two:
  assumes "base64_value c = Some v" "base64_value d = Some w" "v < 64" "w < 64"
  shows "base64_loop (y mod 2 ^ 32) 0 (c # d # s) =
    map_option (\<lambda>out. chr (v * 4 + w div 16) # out) (base64_loop (((y * 64 + v) * 64 + w) mod 2 ^ 32) 4 s)"
  by (simp only: base64_loop.simps assms option.case Let_def mod_step)
    (simp add: register_out(1) [OF assms(3,4), simplified])

lemma loop_third:
  assumes "base64_value c = Some w" "v < 64" "w < 64"
  shows "base64_loop ((y * 64 + v) mod 2 ^ 32) 4 (c # s) =
    map_option (\<lambda>out. chr (v mod 16 * 16 + w div 4) # out) (base64_loop (((y * 64 + v) * 64 + w) mod 2 ^ 32) 2 s)"
  by (simp only: base64_loop.simps assms option.case Let_def mod_step)
    (simp add: register_out(2) [OF assms(2,3), simplified])

lemma loop_fourth:
  assumes "base64_value c = Some w" "v < 64" "w < 64"
  shows "base64_loop ((y * 64 + v) mod 2 ^ 32) 2 (c # s) =
    map_option (\<lambda>out. chr (v mod 4 * 64 + w) # out) (base64_loop (((y * 64 + v) * 64 + w) mod 2 ^ 32) 0 s)"
  by (simp only: base64_loop.simps assms option.case Let_def mod_step)
    (simp add: register_out(3) [OF assms(2,3), simplified])

lemma bytes_back:
  assumes "a < 256" "b < 256" "c < (256 :: nat)"
  shows "a div 4 * 4 + (a mod 4 * 16 + b div 16) div 16 = a"
    "(a mod 4 * 16 + b div 16) mod 16 * 16 + (b mod 16 * 4 + c div 64) div 4 = b"
    "(b mod 16 * 4 + c div 64) mod 4 * 64 + c mod 64 = c"
proof -
  have bc: "b div 16 < 16" "c div 64 < 4" using assms by auto
  show "a div 4 * 4 + (a mod 4 * 16 + b div 16) div 16 = a"
      "(a mod 4 * 16 + b div 16) mod 16 * 16 + (b mod 16 * 4 + c div 64) div 4 = b"
      "(b mod 16 * 4 + c div 64) mod 4 * 64 + c mod 64 = c"
    by (simp_all only: div_block [OF bc(1)] mod_block [OF bc(1)] div_block [OF bc(2)] mod_block [OF bc(2)] div_mult_mod_eq)
qed

lemma decode_loop: "base64_loop (y mod 2 ^ 32) 0 (base64url_encode s) = Some s"
proof (induction s arbitrary: y rule: base64url_encode.induct)
  case (1 a b c s)
  let ?n = "byte_of a * 2 ^ 16 + byte_of b * 2 ^ 8 + byte_of c"
  note d = digits3 [OF byte_of_less [of a] byte_of_less [of b] byte_of_less [of c] refl]
  note bk = bytes_back [OF byte_of_less [of a] byte_of_less [of b] byte_of_less [of c]]
  show ?case
    by (simp only: base64url_encode.simps Let_def loop_two [OF base64_value_char base64_value_char mod_less_divisor mod_less_divisor]
        loop_third [OF base64_value_char mod_less_divisor mod_less_divisor]
        loop_fourth [OF base64_value_char mod_less_divisor mod_less_divisor] "1" option.map zero_less_numeral)
      (simp only: d bk chr_byte_of)
next
  case (2 a b)
  note d = digits3 [OF byte_of_less [of a] byte_of_less [of b] zero_less_numeral refl, unfolded add_0_right]
  note bk = bytes_back [OF byte_of_less [of a] byte_of_less [of b] zero_less_numeral]
  show ?case
    by (simp only: base64url_encode.simps Let_def loop_two [OF base64_value_char base64_value_char mod_less_divisor mod_less_divisor]
        loop_third [OF base64_value_char mod_less_divisor mod_less_divisor] option.map zero_less_numeral
        base64_loop.simps(1))
      (simp only: d bk [unfolded div_0 add_0_right] chr_byte_of div_0 add_0_right)
next
  case (3 a)
  note d = digits3 [OF byte_of_less [of a] zero_less_numeral zero_less_numeral refl, unfolded add_0_right mult_0]
  note bk = bytes_back [OF byte_of_less [of a] zero_less_numeral zero_less_numeral]
  show ?case
    by (simp only: base64url_encode.simps Let_def loop_two [OF base64_value_char base64_value_char mod_less_divisor mod_less_divisor]
        option.map zero_less_numeral base64_loop.simps(1))
      (simp only: d bk [unfolded div_0 add_0_right] div_0 add_0_right chr_byte_of)
qed simp

lemma base64url_roundtrip: "base64url_decode (base64url_encode s) = Some s"
  using decode_loop [of 0 s] by (simp add: base64url_decode_def)

lemma no_dot [simp]: "base64_char n \<noteq> CHR ''.''" "CHR ''.'' \<noteq> base64_char n"
  using base64_value_char [of n] dot_no_digit by (metis option.distinct(1))+

lemma encoded_no_dot: "CHR ''.'' \<notin> set (base64url_encode s)"
  by (induction s rule: base64url_encode.induct) (simp_all add: Let_def)

text \<open>What is decoded has only digits.\<close>

lemma decoded_digits: "base64_loop y k s = Some out \<Longrightarrow> \<forall>c \<in> set s. base64_value c \<noteq> None"
proof (induction y k s arbitrary: out rule: base64_loop.induct)
  case (2 buf bits c s)
  then show ?case by (auto simp: Let_def split: option.splits if_splits)
qed simp

end
