(* ===== verification/Request_State.thy ===== *)
theory Request_State
  imports Base64_Url Sha256 Json_Roundtrip
begin

text \<open>
  \<open>include/mcp/server/RequestState.hpp\<close>: the opaque state a server hands to a client between the rounds of a request.
  It is the printed payload in base64url, a dot, and the hexadecimal HMAC-SHA-256 of the payload under a secret key.
\<close>

unbundle bit_operations_syntax

definition hex_encode :: "string \<Rightarrow> string" where
  "hex_encode raw = concat (map (\<lambda>c. [hex_char (byte_of c div 16), hex_char (byte_of c mod 16)]) raw)"

definition xor_char :: "char \<Rightarrow> char \<Rightarrow> char" where
  "xor_char c d = chr (unat ((of_nat (byte_of c) :: 8 word) XOR of_nat (byte_of d)))"

definition resize :: "nat \<Rightarrow> string \<Rightarrow> string" where
  "resize n s = take n s @ replicate (n - length s) (chr 0)"

definition hmac_sha256 :: "string \<Rightarrow> string \<Rightarrow> string" where
  "hmac_sha256 key data =
     (let block = resize 64 (if 64 < length key then sha256_hash key else key);
          ipad = map2 xor_char (replicate 64 (chr 54)) block;
          opad = map2 xor_char (replicate 64 (chr 92)) block
      in sha256_hash (opad @ sha256_hash (ipad @ data)))"

definition mint_request_state :: "string \<Rightarrow> json \<Rightarrow> string" where
  "mint_request_state key payload =
     (let payload_str = dump (- 1) payload
      in base64url_encode payload_str @ CHR ''.'' # hex_encode (hmac_sha256 key payload_str))"

text \<open>The position of the first dot splits the text; \<open>None\<close> when there is none.\<close>

fun split_dot :: "string \<Rightarrow> (string \<times> string) option" where
  "split_dot [] = None"
| "split_dot (c # s) = (if c = CHR ''.'' then Some ([], s) else map_option (\<lambda>(a, b). (c # a, b)) (split_dot s))"

text \<open>The comparison whose time does not depend on where the texts differ.\<close>

definition diff_bits :: "string \<Rightarrow> string \<Rightarrow> 8 word" where
  "diff_bits s t = fold (\<lambda>(c, d) diff. diff OR (of_nat (byte_of c) XOR of_nat (byte_of d))) (zip s t) 0"

text \<open>\<open>VerifyRequestState\<close> returns its verdict and what it has written to \<open>out_payload\<close>, if anything; \<open>now\<close> is the
  clock in seconds.  The source subtracts 64-bit integers; where the difference does not fit, for a time of issue near
  \<open>- 2 ^ 63\<close>, its result is undefined and the model takes the true difference.\<close>

definition verify_request_state :: "string \<Rightarrow> string \<Rightarrow> int \<Rightarrow> int \<Rightarrow> bool \<times> json option" where
  "verify_request_state key state ttl now =
     (case split_dot state of
        None \<Rightarrow> (False, None)
      | Some (text, sig_hex) \<Rightarrow>
     (case base64url_decode text of
        None \<Rightarrow> (False, None)
      | Some payload_str \<Rightarrow>
          (let expected = hex_encode (hmac_sha256 key payload_str)
           in if length expected \<noteq> length sig_hex then (False, None)
              else if diff_bits expected sig_hex \<noteq> 0 then (False, None)
              else (case parse_document payload_str of
                 Inl e \<Rightarrow> (False, None)
               | Inr payload \<Rightarrow>
                   (if 0 < ttl then
                      (case json_find ''iat'' payload of
                         Some (JInt iat) \<Rightarrow> (if ttl < now - sint iat then False else True, Some payload)
                       | _ \<Rightarrow> (False, Some payload))
                    else (True, Some payload))))))"

definition decode_request_state_payload :: "string \<Rightarrow> json option" where
  "decode_request_state_payload state =
     (case split_dot state of
        None \<Rightarrow> (case parse_document state of Inr j \<Rightarrow> Some j | Inl e \<Rightarrow> None)
      | Some (text, sig_hex) \<Rightarrow>
          (case base64url_decode text of
             None \<Rightarrow> None
           | Some payload_str \<Rightarrow> (case parse_document payload_str of Inr j \<Rightarrow> Some j | Inl e \<Rightarrow> None)))"

section \<open>The comparison\<close>

lemma xor_zero: "(a :: 8 word) XOR b = 0 \<longleftrightarrow> a = b"
  by (auto simp: bit_eq_iff bit_xor_iff)

lemma byte_xor_zero: "(of_nat (byte_of c) :: 8 word) XOR of_nat (byte_of d) = 0 \<longleftrightarrow> c = d"
proof -
  have "(of_nat (byte_of c) :: 8 word) XOR of_nat (byte_of d) = 0 \<longleftrightarrow> (of_nat (byte_of c) :: 8 word) = of_nat (byte_of d)"
    by (rule xor_zero)
  also have "\<dots> \<longleftrightarrow> unat (of_nat (byte_of c) :: 8 word) = unat (of_nat (byte_of d) :: 8 word)"
    by (rule word_unat_eq_iff)
  also have "\<dots> \<longleftrightarrow> c = d"
    by (simp add: unat_of_nat)
  finally show ?thesis .
qed

lemma or_zero: "(a :: 8 word) OR b = 0 \<longleftrightarrow> a = 0 \<and> b = 0"
  by (metis or.right_neutral or_eq_0_iff)

lemma diff_bits_zero: "length s = length t \<Longrightarrow> diff_bits s t = 0 \<longleftrightarrow> s = t"
proof -
  have "fold (\<lambda>(c, d) diff. diff OR (of_nat (byte_of c) XOR of_nat (byte_of d))) (zip s t) (w :: 8 word) = 0 \<longleftrightarrow>
      w = 0 \<and> s = t" if "length s = length t" for w
    using that by (induction s t arbitrary: w rule: list_induct2) (simp_all add: or_zero byte_xor_zero conj_ac)
  then show "length s = length t \<Longrightarrow> diff_bits s t = 0 \<longleftrightarrow> s = t" by (simp add: diff_bits_def)
qed

section \<open>Minting and verifying\<close>

lemma split_dot_append: "CHR ''.'' \<notin> set a \<Longrightarrow> split_dot (a @ CHR ''.'' # b) = Some (a, b)"
  by (induction a) auto

lemma split_dot_Some: "split_dot s = Some (a, b) \<Longrightarrow> s = a @ CHR ''.'' # b \<and> CHR ''.'' \<notin> set a"
  by (induction s arbitrary: a) (auto split: if_splits)

definition state_fresh :: "int \<Rightarrow> int \<Rightarrow> json \<Rightarrow> bool" where
  "state_fresh ttl now payload \<longleftrightarrow> ttl \<le> 0 \<or> (\<exists>iat. json_find ''iat'' payload = Some (JInt iat) \<and> now - sint iat \<le> ttl)"

lemma verify_split:
  "verify_request_state key (text @ CHR ''.'' # sig) ttl now =
    (case base64url_decode text of
       None \<Rightarrow> (False, None)
     | Some payload_str \<Rightarrow>
         (if sig \<noteq> hex_encode (hmac_sha256 key payload_str) then (False, None)
          else case parse_document payload_str of
            Inl e \<Rightarrow> (False, None)
          | Inr payload \<Rightarrow> (state_fresh ttl now payload, Some payload)))" if "CHR ''.'' \<notin> set text"
  using that
  by (auto simp: verify_request_state_def split_dot_append Let_def diff_bits_zero state_fresh_def
      split: option.split sum.split json.split)

text \<open>C33: a state the server mints is accepted under the same key, with its payload, as long as the payload is not
  older than the time to live allows.\<close>

theorem minted_state_verifies:
  assumes "json_ok payload" "json_printable payload" "json_depth payload \<le> max_depth"
  shows "verify_request_state key (mint_request_state key payload) ttl now = (state_fresh ttl now payload, Some payload)"
  using parse_document_dump [OF assms]
  by (simp add: mint_request_state_def Let_def verify_split encoded_no_dot base64url_roundtrip)

theorem minted_state_verifies_witness:
  "verify_request_state ''secret'' (mint_request_state ''secret'' (JObject [(''iat'', JInt 100)])) 60 130 =
     (True, Some (JObject [(''iat'', JInt 100)]))"
proof -
  have "json_ok (JObject [(''iat'', JInt 100)])" "json_depth (JObject [(''iat'', JInt 100)]) \<le> max_depth"
    by (simp_all add: max_depth_def)
  moreover have "json_printable (JObject [(''iat'', JInt 100)])"
    by (simp add: byte_of_def flip: utf8_scan_ok_iff)
  ultimately show ?thesis
    by (simp add: minted_state_verifies state_fresh_def)
qed

text \<open>Whatever state is accepted carries, after the first dot, the HMAC of its decoded payload under the key of the
  server, letter by letter, and the payload that is handed on is the one that was signed.\<close>

theorem accepted_state_signed:
  assumes "verify_request_state key state ttl now = (True, out)"
  shows "\<exists>text payload_str payload. state = text @ CHR ''.'' # hex_encode (hmac_sha256 key payload_str) \<and>
    base64url_decode text = Some payload_str \<and> parse_document payload_str = Inr payload \<and> out = Some payload \<and>
    state_fresh ttl now payload"
proof (cases "split_dot state")
  case (Some ab)
  obtain enc sig where ab: "ab = (enc, sig)" by (cases ab)
  note sp = split_dot_Some [OF Some [unfolded ab]]
  have "verify_request_state key (enc @ CHR ''.'' # sig) ttl now = (True, out)" using assms sp by simp
  then show ?thesis
    using sp by (auto simp: verify_split split: option.splits sum.splits if_splits)
qed (use assms in \<open>simp add: verify_request_state_def\<close>)

theorem accepted_state_signed_witness:
  "\<exists>text payload_str payload. mint_request_state ''k'' (JInt 7) = text @ CHR ''.'' # hex_encode (hmac_sha256 ''k'' payload_str) \<and>
    base64url_decode text = Some payload_str \<and> parse_document payload_str = Inr payload \<and> Some (JInt 7) = Some payload \<and>
    state_fresh 0 0 payload"
proof (rule accepted_state_signed)
  have "parse_document (dump (- 1) (JInt 7)) = Inr (JInt 7)"
    by (rule parse_document_dump) simp_all
  then show "verify_request_state ''k'' (mint_request_state ''k'' (JInt 7)) 0 0 = (True, Some (JInt 7))"
    by (simp add: mint_request_state_def Let_def verify_split encoded_no_dot base64url_roundtrip state_fresh_def)
qed

end
