(* ===== verification/Uri_Template.thy ===== *)
theory Uri_Template
  imports Prelude
begin

text \<open>
  \<open>UriTemplate\<close> of \<open>src/detail/UriTemplate.hpp\<close>: the templates of resource URIs (RFC 6570), their parsing, their
  expansion with values and the matching of a URI against a template.
\<close>

definition max_uri_template_length :: nat where "max_uri_template_length = 2048"
definition max_uri_template_variables :: nat where "max_uri_template_variables = 32"
definition max_uri_match_length :: nat where "max_uri_match_length = 8192"

datatype uri_operator = Simple | Reserved | Fragment | Label | Path | PathStyle | Form | FormCont

record uri_expression =
  ue_op :: uri_operator
  ue_names :: "string list"

datatype uri_segment = Literal string | Variables uri_expression

record uri_template =
  ut_pattern :: string
  ut_segments :: "uri_segment list"

record match_part =
  mp_literal :: string
  mp_name :: string
  mp_optional_equals :: bool
  mp_preserve :: bool

section \<open>Characters\<close>

definition in_range :: "char \<Rightarrow> nat \<Rightarrow> nat \<Rightarrow> bool" where
  "in_range c lo hi \<longleftrightarrow> lo \<le> byte_of c \<and> byte_of c \<le> hi"

definition is_varchar_char :: "char \<Rightarrow> bool" where
  "is_varchar_char c \<longleftrightarrow> in_range c 65 90 \<or> in_range c 97 122 \<or> in_range c 48 57 \<or> c = CHR ''_''"

definition is_unreserved_char :: "char \<Rightarrow> bool" where
  "is_unreserved_char c \<longleftrightarrow> in_range c 65 90 \<or> in_range c 97 122 \<or> in_range c 48 57 \<or>
     c = CHR ''-'' \<or> c = CHR ''.'' \<or> c = CHR ''_'' \<or> c = CHR ''~''"

definition is_reserved_char :: "char \<Rightarrow> bool" where
  "is_reserved_char c \<longleftrightarrow> List.member '':/?#[]@!$&()*+,;='' c \<or> c = chr 39"

definition is_hex_digit :: "char \<Rightarrow> bool" where
  "is_hex_digit c \<longleftrightarrow> in_range c 48 57 \<or> in_range c 65 70 \<or> in_range c 97 102"

definition uri_hex_value :: "char \<Rightarrow> nat" where
  "uri_hex_value c = (if in_range c 48 57 then byte_of c - 48 else if in_range c 65 70 then byte_of c - 65 + 10
     else byte_of c - 97 + 10)"

definition uri_hex_digit :: "nat \<Rightarrow> char" where
  "uri_hex_digit v = (if v < 10 then chr (48 + v) else chr (65 + v - 10))"

definition is_operator_char :: "char \<Rightarrow> bool" where
  "is_operator_char c \<longleftrightarrow> List.member ''+#./;?&'' c"

definition is_future_operator_char :: "char \<Rightarrow> bool" where
  "is_future_operator_char c \<longleftrightarrow> List.member ''=,!@|'' c"

definition operator_from_char :: "char \<Rightarrow> uri_operator" where
  "operator_from_char c =
     (if c = CHR ''+'' then Reserved else if c = CHR ''#'' then Fragment else if c = CHR ''.'' then Label
      else if c = CHR ''/'' then Path else if c = CHR '';'' then PathStyle else if c = CHR ''?'' then Form
      else if c = CHR ''&'' then FormCont else Simple)"

fun operator_prefix :: "uri_operator \<Rightarrow> string" where
  "operator_prefix Fragment = ''#''"
| "operator_prefix Label = ''.''"
| "operator_prefix Path = ''/''"
| "operator_prefix PathStyle = '';''"
| "operator_prefix Form = ''?''"
| "operator_prefix FormCont = ''&''"
| "operator_prefix op = []"

definition has_prefix_operator :: "uri_operator \<Rightarrow> bool" where
  "has_prefix_operator op \<longleftrightarrow> operator_prefix op \<noteq> []"

fun operator_separator :: "uri_operator \<Rightarrow> char" where
  "operator_separator Label = CHR ''.''"
| "operator_separator Path = CHR ''/''"
| "operator_separator PathStyle = CHR '';''"
| "operator_separator Form = CHR ''&''"
| "operator_separator FormCont = CHR ''&''"
| "operator_separator op = CHR '',''"

definition is_multi_segment_operator :: "uri_operator \<Rightarrow> bool" where
  "is_multi_segment_operator op \<longleftrightarrow> op = Reserved \<or> op = Fragment"

section \<open>Values\<close>

text \<open>A percent sign with two hexadecimal digits after it.\<close>

fun pct_triple :: "string \<Rightarrow> bool" where
  "pct_triple (c # h # l # s) \<longleftrightarrow> c = CHR ''%'' \<and> is_hex_digit h \<and> is_hex_digit l"
| "pct_triple s \<longleftrightarrow> False"

function encode_value :: "bool \<Rightarrow> string \<Rightarrow> string" where
  "encode_value preserve [] = []"
| "encode_value preserve (c # s) =
     (if is_unreserved_char c \<or> preserve \<and> is_reserved_char c then c # encode_value preserve s
      else if pct_triple (c # s) then take 3 (c # s) @ encode_value preserve (drop 2 s)
      else CHR ''%'' # uri_hex_digit (byte_of c div 16) # uri_hex_digit (byte_of c mod 16) # encode_value preserve s)"
  by pat_completeness auto
termination
  by (relation "measure (\<lambda>(p, s). length s)") auto

function decode_value :: "string \<Rightarrow> string" where
  "decode_value [] = []"
| "decode_value (c # s) =
     (if pct_triple (c # s) then chr (uri_hex_value (s ! 0) * 16 + uri_hex_value (s ! 1)) # decode_value (drop 2 s)
      else c # decode_value s)"
  by pat_completeness auto
termination
  by (relation "measure length") auto

function is_valid_encoded_value :: "string \<Rightarrow> bool" where
  "is_valid_encoded_value [] = True"
| "is_valid_encoded_value (c # s) =
     (if c = CHR ''%'' then pct_triple (c # s) \<and> is_valid_encoded_value (drop 2 s)
      else is_unreserved_char c \<and> is_valid_encoded_value s)"
  by pat_completeness auto
termination
  by (relation "measure length") auto

section \<open>Parsing\<close>

function validate_var_name_loop :: "nat \<Rightarrow> string \<Rightarrow> bool" where
  "validate_var_name_loop group_length [] = (0 < group_length)"
| "validate_var_name_loop group_length (c # s) =
     (if c = CHR ''.'' then group_length \<noteq> 0 \<and> validate_var_name_loop 0 s
      else if c = CHR ''%'' then pct_triple (c # s) \<and> validate_var_name_loop (Suc group_length) (drop 2 s)
      else is_varchar_char c \<and> validate_var_name_loop (Suc group_length) s)"
  by pat_completeness auto
termination
  by (relation "measure (\<lambda>(n, s). length s)") auto

definition validate_var_name :: "string \<Rightarrow> bool" where
  "validate_var_name name \<longleftrightarrow> name \<noteq> [] \<and> validate_var_name_loop 0 name"

fun split_commas :: "string \<Rightarrow> string list" where
  "split_commas [] = [[]]"
| "split_commas (c # s) = (if c = CHR '','' then [] # split_commas s
     else case split_commas s of [] \<Rightarrow> [[c]] | item # rest \<Rightarrow> (c # item) # rest)"

definition parse_item :: "string \<Rightarrow> string + string" where
  "parse_item item =
     (if item = [] then Inl ''empty uri template variable name''
      else let name = (if last item = CHR ''*'' then butlast item else item)
           in if name = [] \<or> \<not> validate_var_name name then Inl ''invalid uri template variable name'' else Inr name)"

definition parse_expression :: "string \<Rightarrow> string + uri_expression" where
  "parse_expression body =
     (if body = [] then Inl ''empty uri template expression''
      else if is_operator_char (hd body) then
        (if tl body = [] then Inl ''uri template expression has no variable name''
         else rmap (\<lambda>names. \<lparr>ue_op = operator_from_char (hd body), ue_names = names\<rparr>)
                (rtraverse parse_item (split_commas (tl body))))
      else if is_future_operator_char (hd body) then Inl ''unsupported uri template operator''
      else rmap (\<lambda>names. \<lparr>ue_op = Simple, ue_names = names\<rparr>) (rtraverse parse_item (split_commas body)))"

definition put_literal :: "string \<Rightarrow> uri_segment list \<Rightarrow> uri_segment list" where
  "put_literal literal segs = (if literal = [] then segs else segs @ [Literal literal])"

definition ends_with_variables :: "uri_segment list \<Rightarrow> bool" where
  "ends_with_variables segs \<longleftrightarrow> segs \<noteq> [] \<and> (case last segs of Literal l \<Rightarrow> False | Variables e \<Rightarrow> True)"

text \<open>The loop of \<open>Parse\<close>: the text that is left, the literal collected so far, the segments, and the counts of
  variables and of multi-segment expressions.\<close>

function parse_template_loop :: "string \<Rightarrow> string \<Rightarrow> uri_segment list \<Rightarrow> nat \<Rightarrow> nat \<Rightarrow> string + uri_segment list" where
  "parse_template_loop [] literal segs vars multi = Inr (put_literal literal segs)"
| "parse_template_loop (c # s) literal segs vars multi =
     (if c = CHR ''}'' then Inl ''unexpected '}' in uri template''
      else if c \<noteq> CHR ''{'' then parse_template_loop s (literal @ [c]) segs vars multi
      else case dropWhile (\<lambda>d. d \<noteq> CHR ''}'') s of
             [] \<Rightarrow> Inl ''unbalanced '{' in uri template''
           | d # rest \<Rightarrow>
               rbind (parse_expression (takeWhile (\<lambda>d. d \<noteq> CHR ''}'') s)) (\<lambda>e.
                 if max_uri_template_variables < vars + length (ue_names e) then
                   Inl ''uri template has too many variables''
                 else if is_multi_segment_operator (ue_op e) \<and> 0 < multi then
                   Inl ''uri template has multiple multi-segment variables''
                 else if literal = [] \<and> ends_with_variables segs \<and> \<not> has_prefix_operator (ue_op e) then
                   Inl ''adjacent uri template variables without a literal separator''
                 else parse_template_loop rest [] (put_literal literal segs @ [Variables e])
                        (vars + length (ue_names e))
                        (if is_multi_segment_operator (ue_op e) then Suc multi else multi)))"
  by pat_completeness auto
termination
proof (relation "measure (\<lambda>(s, literal, segs, vars, multi). length s)", goal_cases)
  case (3 c s literal segs vars multi d rest e)
  then show ?case
    using length_dropWhile_le [of "\<lambda>d. d \<noteq> CHR ''}''" s] by auto
qed auto

definition parse_uri_template :: "string \<Rightarrow> string + uri_template" where
  "parse_uri_template tmpl =
     (if max_uri_template_length < length tmpl then Inl ''uri template exceeds maximum length''
      else rmap (\<lambda>segs. \<lparr>ut_pattern = tmpl, ut_segments = segs\<rparr>) (parse_template_loop tmpl [] [] 0 0))"

section \<open>Expansion\<close>

fun expanded_value :: "uri_operator \<Rightarrow> string \<Rightarrow> string \<Rightarrow> string" where
  "expanded_value PathStyle name v = name @ (if v = [] then [] else CHR ''='' # encode_value False v)"
| "expanded_value Form name v = name @ CHR ''='' # encode_value False v"
| "expanded_value FormCont name v = name @ CHR ''='' # encode_value False v"
| "expanded_value Reserved name v = encode_value True v"
| "expanded_value Fragment name v = encode_value True v"
| "expanded_value op name v = encode_value False v"

fun join_values :: "char \<Rightarrow> string list \<Rightarrow> string" where
  "join_values sep [] = []"
| "join_values sep [x] = x"
| "join_values sep (x # xs) = x @ sep # join_values sep xs"

fun expand_segment :: "(string, string) amap \<Rightarrow> uri_segment \<Rightarrow> string" where
  "expand_segment vars (Literal l) = l"
| "expand_segment vars (Variables e) =
     (let defined = filter (\<lambda>n. amap_find n vars \<noteq> None) (ue_names e)
      in if defined = [] then []
         else operator_prefix (ue_op e) @
           join_values (operator_separator (ue_op e))
             (map (\<lambda>n. expanded_value (ue_op e) n (the (amap_find n vars))) defined))"

definition expand_template :: "(string, string) amap \<Rightarrow> uri_template \<Rightarrow> string" where
  "expand_template vars t = concat (map (expand_segment vars) (ut_segments t))"

section \<open>Matching\<close>

definition part_suffix :: "uri_operator \<Rightarrow> string \<Rightarrow> string" where
  "part_suffix op name = (if op = PathStyle then name else if op = Form \<or> op = FormCont then name @ ''='' else [])"

definition new_part :: "uri_operator \<Rightarrow> string \<Rightarrow> string \<Rightarrow> match_part" where
  "new_part op pending name = \<lparr>mp_literal = pending @ part_suffix op name, mp_name = name,
     mp_optional_equals = (op = PathStyle), mp_preserve = is_multi_segment_operator op\<rparr>"

text \<open>The parts of one expression; the first takes over the pending literal.\<close>

fun name_parts :: "uri_operator \<Rightarrow> string \<Rightarrow> string list \<Rightarrow> match_part list" where
  "name_parts op pending [] = []"
| "name_parts op pending (n # ns) = new_part op pending n # name_parts op [operator_separator op] ns"

fun build_match_parts :: "string \<Rightarrow> uri_segment list \<Rightarrow> match_part list \<times> string" where
  "build_match_parts pending [] = ([], pending)"
| "build_match_parts pending (Literal l # segs) = build_match_parts (pending @ l) segs"
| "build_match_parts pending (Variables e # segs) =
     (let pre = pending @ operator_prefix (ue_op e)
      in if ue_names e = [] then build_match_parts pre segs
         else case build_match_parts [] segs of
                (parts, tail) \<Rightarrow> (name_parts (ue_op e) pre (ue_names e) @ parts, tail))"

fun find_sub :: "string \<Rightarrow> string \<Rightarrow> nat option" where
  "find_sub needle [] = (if needle = [] then Some 0 else None)"
| "find_sub needle (c # s) =
     (if take (length needle) (c # s) = needle then Some 0 else map_option Suc (find_sub needle s))"

fun rfind_sub :: "string \<Rightarrow> string \<Rightarrow> nat option" where
  "rfind_sub needle [] = (if needle = [] then Some 0 else None)"
| "rfind_sub needle (c # s) =
     (case rfind_sub needle s of
        Some i \<Rightarrow> Some (Suc i)
      | None \<Rightarrow> if take (length needle) (c # s) = needle then Some 0 else None)"

definition find_literal :: "string \<Rightarrow> nat \<Rightarrow> string \<Rightarrow> bool \<Rightarrow> nat option" where
  "find_literal uri begin_pos literal greedy =
     (if length uri < begin_pos then None
      else if literal = [] then Some (if greedy then length uri else begin_pos)
      else if length uri < length literal then None
      else if greedy then
        (case rfind_sub literal uri of
           None \<Rightarrow> None
         | Some found \<Rightarrow> if found < begin_pos then None else Some found)
      else map_option ((+) begin_pos) (find_sub literal (drop begin_pos uri)))"

text \<open>The loop over the variables, with the literal that follows each: the last part is followed by the tail.\<close>

fun match_loop :: "string \<Rightarrow> string \<Rightarrow> match_part list \<Rightarrow> nat \<Rightarrow> (string, string) amap \<Rightarrow> (string, string) amap option" where
  "match_loop uri tail_lit [] position matched = (if position = length uri then Some matched else None)"
| "match_loop uri tail_lit (part # parts) position matched =
     (let next_literal = (case parts of [] \<Rightarrow> tail_lit | p # ps \<Rightarrow> mp_literal p);
          greedy = (mp_preserve part \<or> parts = [])
      in case find_literal uri position next_literal greedy of
           None \<Rightarrow> None
         | Some lp \<Rightarrow>
             (let raw = take (lp - position) (drop position uri)
              in if mp_optional_equals part \<and> raw \<noteq> [] \<and> hd raw \<noteq> CHR ''='' then None
                 else (let raw' = (if mp_optional_equals part \<and> raw \<noteq> [] then tl raw else raw)
                       in if \<not> mp_preserve part \<and> \<not> is_valid_encoded_value raw' then None
                          else match_loop uri tail_lit parts (lp + length next_literal)
                                 (amap_put (mp_name part) (decode_value raw') matched))))"

definition match_template :: "string \<Rightarrow> uri_template \<Rightarrow> (string, string) amap option" where
  "match_template uri t =
     (if max_uri_match_length < length uri then None
      else case build_match_parts [] (ut_segments t) of
        (parts, tail_lit) \<Rightarrow>
          (if parts = [] then (if uri = tail_lit then Some [] else None)
           else let head_lit = mp_literal (hd parts)
                in if length uri < length head_lit + length tail_lit then None
                   else if take (length head_lit) uri \<noteq> head_lit then None
                   else if drop (length uri - length tail_lit) uri \<noteq> tail_lit then None
                   else match_loop uri tail_lit parts (length head_lit) []))"

section \<open>Values are read back\<close>

text \<open>A text without a percent sign that starts a triple.\<close>

fun pct_free :: "string \<Rightarrow> bool" where
  "pct_free [] \<longleftrightarrow> True"
| "pct_free (c # s) \<longleftrightarrow> \<not> pct_triple (c # s) \<and> pct_free s"

lemma uri_hex_digit [simp]:
  "v < 16 \<Longrightarrow> is_hex_digit (uri_hex_digit v)" "v < 16 \<Longrightarrow> uri_hex_value (uri_hex_digit v) = v"
  by (auto simp: is_hex_digit_def in_range_def uri_hex_digit_def uri_hex_value_def)

lemma unreserved_no_percent: "is_unreserved_char c \<Longrightarrow> c \<noteq> CHR ''%''"
  by (auto simp: is_unreserved_char_def in_range_def byte_of_def)

lemma quote_not_percent: "chr 39 \<noteq> CHR ''%''"
  by code_simp

lemma reserved_no_percent: "is_reserved_char c \<Longrightarrow> c \<noteq> CHR ''%''"
  using quote_not_percent by (auto simp: is_reserved_char_def)

lemma pct_triple_percent: "pct_triple s \<Longrightarrow> hd s = CHR ''%''"
  by (induction s rule: pct_triple.induct) auto

lemma decode_plain: "c \<noteq> CHR ''%'' \<Longrightarrow> decode_value (c # s) = c # decode_value s"
  using pct_triple_percent [of "c # s"] by auto

lemma decode_encode: "pct_free v \<Longrightarrow> decode_value (encode_value p v) = v"
proof (induction p v rule: encode_value.induct)
  case (2 p c s)
  show ?case
  proof (cases "is_unreserved_char c \<or> p \<and> is_reserved_char c")
    case True
    then have "c \<noteq> CHR ''%''" using unreserved_no_percent reserved_no_percent by blast
    then show ?thesis using 2 True by (simp add: decode_plain del: decode_value.simps)
  next
    case False
    let ?d = "uri_hex_digit (byte_of c div 16)" and ?e = "uri_hex_digit (byte_of c mod 16)"
    have low: "byte_of c div 16 < 16" using byte_of_less [of c] by (simp add: less_mult_imp_div_less)
    have "encode_value p (c # s) = CHR ''%'' # ?d # ?e # encode_value p s"
      using 2 False by (simp del: pct_triple.simps)
    moreover have "decode_value (CHR ''%'' # ?d # ?e # encode_value p s) = c # decode_value (encode_value p s)"
      using low by simp
    moreover have "decode_value (encode_value p s) = s" using 2 False by simp
    ultimately show ?thesis by (simp only:)
  qed
qed simp

lemma encode_valid: "pct_free v \<Longrightarrow> is_valid_encoded_value (encode_value False v)"
proof (induction False v rule: encode_value.induct)
  case (2 c s)
  then show ?case
    using byte_of_less [of c] unreserved_no_percent [of c] by (auto simp: less_mult_imp_div_less)
qed simp

text \<open>The letters of an encoded value.\<close>

definition value_char :: "char \<Rightarrow> bool" where
  "value_char c \<longleftrightarrow> is_unreserved_char c \<or> c = CHR ''%''"

lemma hex_digit_value_char: "is_hex_digit c \<Longrightarrow> value_char c"
  by (auto simp: is_hex_digit_def value_char_def is_unreserved_char_def in_range_def)

lemma encode_chars: "pct_free v \<Longrightarrow> c \<in> set (encode_value False v) \<Longrightarrow> value_char c"
proof (induction False v rule: encode_value.induct)
  case (2 d s)
  then show ?case
    using byte_of_less [of d]
    by (auto simp: hex_digit_value_char less_mult_imp_div_less split: if_splits) (simp_all add: value_char_def)
qed simp

section \<open>A URI is matched by the template that made it\<close>

definition value_of :: "(string, string) amap \<Rightarrow> string \<Rightarrow> string" where
  "value_of vars n = the (amap_find n vars)"

definition part_body :: "(string, string) amap \<Rightarrow> match_part \<Rightarrow> string" where
  "part_body vars p =
     (let v = value_of vars (mp_name p)
      in if mp_optional_equals p then (if v = [] then [] else CHR ''='' # encode_value False v)
         else encode_value (mp_preserve p) v)"

definition part_text :: "(string, string) amap \<Rightarrow> match_part \<Rightarrow> string" where
  "part_text vars p = mp_literal p @ part_body vars p"

lemma new_part_text: "part_text vars (new_part op pending n) = pending @ expanded_value op n (value_of vars n)"
  by (cases op) (simp_all add: part_text_def part_body_def new_part_def part_suffix_def is_multi_segment_operator_def Let_def)

lemma name_parts_text: "ns \<noteq> [] \<Longrightarrow> concat (map (part_text vars) (name_parts op pre ns)) =
    pre @ join_values (operator_separator op) (map (\<lambda>n. expanded_value op n (value_of vars n)) ns)"
proof (induction ns arbitrary: pre)
  case (Cons n ns)
  then show ?case by (cases ns) (simp_all add: new_part_text)
qed simp

fun segment_names :: "uri_segment \<Rightarrow> string list" where
  "segment_names (Literal l) = []"
| "segment_names (Variables e) = ue_names e"

definition template_names :: "uri_template \<Rightarrow> string list" where
  "template_names t = concat (map segment_names (ut_segments t))"

definition named :: "uri_segment list \<Rightarrow> bool" where
  "named segs \<longleftrightarrow> (\<forall>e. Variables e \<in> set segs \<longrightarrow> ue_names e \<noteq> [])"

lemma build_parts_text:
  assumes "named segs" "\<forall>n \<in> set (concat (map segment_names segs)). amap_find n vars \<noteq> None"
    "build_match_parts pending segs = (parts, tail_lit)"
  shows "pending @ concat (map (expand_segment vars) segs) = concat (map (part_text vars) parts) @ tail_lit"
  using assms
proof (induction pending segs arbitrary: parts tail_lit rule: build_match_parts.induct)
  case (3 pending e segs)
  have ne: "ue_names e \<noteq> []" and all: "filter (\<lambda>n. \<exists>v. amap_find n vars = Some v) (ue_names e) = ue_names e"
    using 3 by (auto simp: named_def filter_id_conv)
  obtain ps where ps: "build_match_parts [] segs = (ps, tail_lit)"
      "parts = name_parts (ue_op e) (pending @ operator_prefix (ue_op e)) (ue_names e) @ ps"
    using "3.prems"(3) ne by (auto simp: Let_def split: prod.splits)
  have "concat (map (expand_segment vars) segs) = concat (map (part_text vars) ps) @ tail_lit"
    using "3.IH"(2) [OF refl ne _ _ ps(1)] "3.prems"(1,2) by (auto simp: named_def)
  then show ?case
    by (simp add: ps(2) name_parts_text [OF ne] all ne Let_def value_of_def)
qed (auto simp: named_def)

lemma name_parts_names: "map mp_name (name_parts op pre ns) = ns"
  by (induction ns arbitrary: pre) (simp_all add: new_part_def)

lemma build_parts_names: "build_match_parts pending segs = (parts, tail_lit) \<Longrightarrow>
    map mp_name parts = concat (map segment_names segs)"
  by (induction pending segs arbitrary: parts tail_lit rule: build_match_parts.induct)
    (auto simp: name_parts_names Let_def split: if_splits prod.splits)

definition kind_ok :: "match_part \<Rightarrow> bool" where
  "kind_ok p \<longleftrightarrow> \<not> (mp_optional_equals p \<and> mp_preserve p)"

lemma name_parts_kind: "\<forall>p \<in> set (name_parts op pre ns). kind_ok p"
  by (induction ns arbitrary: pre) (simp_all add: new_part_def kind_ok_def is_multi_segment_operator_def)

lemma build_parts_kind: "build_match_parts pending segs = (parts, tail_lit) \<Longrightarrow> \<forall>p \<in> set parts. kind_ok p"
  by (induction pending segs arbitrary: parts tail_lit rule: build_match_parts.induct)
    (use name_parts_kind in \<open>fastforce simp: Let_def split: if_splits prod.splits\<close>)+

section \<open>Searching\<close>

lemma find_sub_at: "needle \<noteq> [] \<Longrightarrow> hd needle \<notin> set xs \<Longrightarrow> find_sub needle (xs @ needle @ ys) = Some (length xs)"
proof (induction xs)
  case Nil
  then show ?case by (cases needle) simp_all
next
  case (Cons x xs)
  have "take (length needle) ((x # xs) @ needle @ ys) \<noteq> needle"
    using Cons.prems by (cases needle) auto
  with Cons show ?case by simp
qed

lemma rfind_sub_short: "length s < length needle \<Longrightarrow> rfind_sub needle s = None"
proof (induction s)
  case (Cons c s)
  then have "take (length needle) (c # s) \<noteq> needle"
    by (metis length_take min.strict_order_iff less_irrefl min.cobounded1 not_le take_all)
  with Cons show ?case by simp
qed auto

lemma rfind_sub_end: "needle \<noteq> [] \<Longrightarrow> rfind_sub needle (xs @ needle) = Some (length xs)"
proof (induction xs)
  case Nil
  then obtain c n where "needle = c # n" by (cases needle) auto
  then show ?case by (simp add: rfind_sub_short)
qed simp

section \<open>Matching what was expanded\<close>

text \<open>A variable can be told from what follows: it takes no reserved letters, and the literal after it begins with a
  letter that no encoded value has.\<close>

fun separated :: "match_part list \<Rightarrow> bool" where
  "separated [] \<longleftrightarrow> True"
| "separated [p] \<longleftrightarrow> True"
| "separated (p # q # ps) \<longleftrightarrow> \<not> mp_preserve p \<and> mp_literal q \<noteq> [] \<and> \<not> value_char (hd (mp_literal q)) \<and>
     hd (mp_literal q) \<noteq> CHR ''='' \<and> separated (q # ps)"

lemma part_body_chars: "pct_free (value_of vars (mp_name p)) \<Longrightarrow> \<not> mp_preserve p \<Longrightarrow> c \<in> set (part_body vars p) \<Longrightarrow>
    value_char c \<or> c = CHR ''=''"
  using encode_chars by (auto simp: part_body_def Let_def split: if_splits)

text \<open>What the loop makes of the letters a value takes.\<close>

lemma part_body_read:
  assumes "pct_free (value_of vars (mp_name p))" "kind_ok p"
  defines "raw \<equiv> part_body vars p"
  defines "raw' \<equiv> (if mp_optional_equals p \<and> raw \<noteq> [] then tl raw else raw)"
  shows "\<not> (mp_optional_equals p \<and> raw \<noteq> [] \<and> hd raw \<noteq> CHR ''='')"
    and "\<not> (\<not> mp_preserve p \<and> \<not> is_valid_encoded_value raw')"
    and "decode_value raw' = value_of vars (mp_name p)"
  using assms encode_valid [OF assms(1)] decode_encode [OF assms(1)]
  by (cases "mp_preserve p"; auto simp: part_body_def Let_def kind_ok_def split: if_splits)+

definition bind_part :: "(string, string) amap \<Rightarrow> match_part \<Rightarrow> (string, string) amap \<Rightarrow> (string, string) amap" where
  "bind_part vars p = amap_put (mp_name p) (value_of vars (mp_name p))"

text \<open>The text after the value of the first part.\<close>

definition after_body :: "(string, string) amap \<Rightarrow> match_part list \<Rightarrow> string \<Rightarrow> string" where
  "after_body vars parts tail_lit = concat (map (part_text vars) parts) @ tail_lit"

lemma find_after_body:
  assumes "pct_free (value_of vars (mp_name p))" "separated (p # parts)"
    and uri: "uri = before @ part_body vars p @ after_body vars parts tail_lit"
  shows "find_literal uri (length before) (case parts of [] \<Rightarrow> tail_lit | q # qs \<Rightarrow> mp_literal q) (mp_preserve p \<or> parts = []) =
    Some (length before + length (part_body vars p))"
proof (cases parts)
  case Nil
  then show ?thesis
    using uri rfind_sub_end [of tail_lit "before @ part_body vars p"]
    by (cases "tail_lit = []") (simp_all add: find_literal_def after_body_def)
next
  case (Cons q qs)
  have sep: "\<not> mp_preserve p" "mp_literal q \<noteq> []" "\<not> value_char (hd (mp_literal q))" "hd (mp_literal q) \<noteq> CHR ''=''"
    using assms(2) Cons by simp_all
  then have "hd (mp_literal q) \<notin> set (part_body vars p)"
    using part_body_chars [OF assms(1) sep(1)] by blast
  from find_sub_at [OF sep(2) this] show ?thesis
    using sep uri by (simp add: find_literal_def Cons after_body_def part_text_def)
qed

lemma match_loop_expanded:
  assumes "\<forall>p \<in> set parts. pct_free (value_of vars (mp_name p)) \<and> kind_ok p" "separated parts" "parts \<noteq> []"
    and "uri = before @ part_body vars (hd parts) @ after_body vars (tl parts) tail_lit"
  shows "match_loop uri tail_lit parts (length before) m = Some (fold (bind_part vars) parts m)"
  using assms
proof (induction parts arbitrary: before m)
  case (Cons p parts)
  have pf: "pct_free (value_of vars (mp_name p))" "kind_ok p" using Cons.prems(1) by simp_all
  have uri: "uri = before @ part_body vars p @ after_body vars parts tail_lit" using Cons.prems(4) by simp
  note read = part_body_read [OF pf]
  let ?lit = "case parts of [] \<Rightarrow> tail_lit | q # qs \<Rightarrow> mp_literal q"
  have raw: "take (length before + length (part_body vars p) - length before) (drop (length before) uri) = part_body vars p"
    using uri by simp
  have step: "match_loop uri tail_lit (p # parts) (length before) m =
      match_loop uri tail_lit parts (length before + length (part_body vars p) + length ?lit) (bind_part vars p m)"
    unfolding match_loop.simps Let_def find_after_body [OF pf(1) Cons.prems(2) uri] option.case raw
      if_not_P [OF read(1)] if_not_P [OF read(2)] read(3) bind_part_def ..
  show ?case
  proof (cases parts)
    case Nil
    then show ?thesis using step uri by (simp add: after_body_def bind_part_def)
  next
    case (Cons q qs)
    have "uri = (before @ part_body vars p @ mp_literal q) @ part_body vars q @ after_body vars qs tail_lit"
      using uri by (simp add: Cons after_body_def part_text_def)
    with Cons.IH [of "before @ part_body vars p @ mp_literal q" "bind_part vars p m"] Cons.prems Cons
    show ?thesis using step by (simp add: add.assoc del: match_loop.simps)
  qed
qed simp

lemma fold_bind_find: "amap_find n (fold (bind_part vars) parts m) =
    (if n \<in> mp_name ` set parts then Some (value_of vars n) else amap_find n m)"
  by (induction parts arbitrary: m) (auto simp: bind_part_def)

text \<open>A parsed template names at least one variable in every expression.\<close>

lemma split_commas_nonempty: "split_commas s \<noteq> []"
  by (induction s) (auto split: list.splits)

lemma parse_expression_names: "parse_expression body = Inr e \<Longrightarrow> ue_names e \<noteq> []"
  using split_commas_nonempty rtraverse_length
  by (fastforce simp: parse_expression_def rmap_eq_Inr_iff split: if_splits)

lemma parse_loop_named: "parse_template_loop s literal segs vars multi = Inr out \<Longrightarrow> named segs \<Longrightarrow> named out"
proof (induction s literal segs vars multi arbitrary: out rule: parse_template_loop.induct)
  case (1 literal segs vars multi)
  then show ?case by (auto simp: named_def put_literal_def split: if_splits)
next
  case (2 c s literal segs vars multi)
  have put: "named (put_literal literal segs)" using "2.prems"(2) by (auto simp: named_def put_literal_def)
  show ?case
  proof (cases "c = CHR ''{''")
    case True
    then obtain d rest e where e: "dropWhile (\<lambda>d. d \<noteq> CHR ''}'') s = d # rest"
        "parse_expression (takeWhile (\<lambda>d. d \<noteq> CHR ''}'') s) = Inr e"
      using "2.prems"(1) by (auto simp: rbind_eq_Inr_iff split: list.splits)
    have "named (put_literal literal segs @ [Variables e])"
      using put parse_expression_names [OF e(2)] by (auto simp: named_def)
    then show ?thesis
      using "2.IH"(2) [OF _ _ e(1), of e] "2.prems"(1) True e by (auto split: if_splits)
  qed (use 2 in \<open>auto split: if_splits\<close>)
qed

lemma parsed_named: "parse_uri_template tmpl = Inr t \<Longrightarrow> named (ut_segments t)"
  using parse_loop_named [of tmpl "[]" "[]" 0 0]
  by (auto simp: parse_uri_template_def rmap_eq_Inr_iff named_def split: if_splits)

definition can_match :: "uri_template \<Rightarrow> bool" where
  "can_match t \<longleftrightarrow> separated (fst (build_match_parts [] (ut_segments t)))"

text \<open>C34: a URI that was made from a template and values for all its variables is matched by the template, and the
  match gives back exactly the values, provided that each variable is delimited by what follows it, no value contains a
  percent sign followed by two hexadecimal digits, and the URI is within the length that is matched.\<close>

theorem expanded_uri_matches:
  assumes "parse_uri_template tmpl = Inr t" "can_match t"
    and "\<forall>n \<in> set (template_names t). \<exists>v. amap_find n vars = Some v \<and> pct_free v"
    and "length (expand_template vars t) \<le> max_uri_match_length"
  shows "\<exists>m. match_template (expand_template vars t) t = Some m \<and>
    (\<forall>n. amap_find n m = (if n \<in> set (template_names t) then amap_find n vars else None))"
proof -
  obtain parts tail_lit where parts: "build_match_parts [] (ut_segments t) = (parts, tail_lit)" by fastforce
  have defined: "\<forall>n \<in> set (concat (map segment_names (ut_segments t))). amap_find n vars \<noteq> None"
    using assms(3) by (fastforce simp: template_names_def)
  have uri: "expand_template vars t = concat (map (part_text vars) parts) @ tail_lit"
    using build_parts_text [OF parsed_named [OF assms(1)] defined parts] by (simp add: expand_template_def)
  have names: "mp_name ` set parts = set (template_names t)"
    using build_parts_names [OF parts] by (metis template_names_def set_map)
  show ?thesis
  proof (cases parts)
    case Nil
    then have "template_names t = []" using names by simp
    then show ?thesis
      using assms(4) uri parts Nil by (auto simp: match_template_def)
  next
    case (Cons p ps)
    have pf: "\<forall>p \<in> set parts. pct_free (value_of vars (mp_name p)) \<and> kind_ok p"
      using assms(3) names build_parts_kind [OF parts] by (force simp: value_of_def)
    let ?m = "fold (bind_part vars) parts []"
    have "match_loop (expand_template vars t) tail_lit parts (length (mp_literal p)) [] = Some ?m"
    proof (rule match_loop_expanded [OF pf])
      show "separated parts" using assms(2) parts by (simp add: can_match_def)
      show "expand_template vars t = mp_literal p @ part_body vars (hd parts) @ after_body vars (tl parts) tail_lit"
        using uri by (simp add: Cons after_body_def part_text_def)
    qed (simp add: Cons)
    then have "match_template (expand_template vars t) t = Some ?m"
      using assms(4) uri by (simp add: match_template_def parts Cons part_text_def del: match_loop.simps)
    moreover have "amap_find n ?m = (if n \<in> set (template_names t) then amap_find n vars else None)" for n
      using assms(3) by (auto simp: fold_bind_find names value_of_def)
    ultimately show ?thesis by blast
  qed
qed

definition sample_template :: uri_template where
  "sample_template = \<lparr>ut_pattern = ''db://{table}/{row}'', ut_segments = [Literal ''db://'',
     Variables \<lparr>ue_op = Simple, ue_names = [''table'']\<rparr>, Literal ''/'', Variables \<lparr>ue_op = Simple, ue_names = [''row'']\<rparr>]\<rparr>"

theorem expanded_uri_matches_witness:
  "\<exists>m. match_template ''db://a%20b/7'' sample_template = Some m \<and> amap_find ''table'' m = Some ''a b'' \<and>
     amap_find ''row'' m = Some ''7''"
proof -
  let ?vars = "[(''row'', ''7''), (''table'', ''a b'')]"
  have "parse_uri_template ''db://{table}/{row}'' = Inr sample_template" "can_match sample_template"
      "expand_template ?vars sample_template = ''db://a%20b/7''" "template_names sample_template = [''table'', ''row'']"
      "pct_free ''a b''" "pct_free ''7''"
    by code_simp+
  moreover have "length ''db://a%20b/7'' \<le> max_uri_match_length" by (simp add: max_uri_match_length_def)
  ultimately show ?thesis
    using expanded_uri_matches [of "''db://{table}/{row}''" sample_template ?vars] by auto
qed

text \<open>A value that looks percent-encoded is expanded as it is, so that the match gives back another value.\<close>

lemma percent_value_changes:
  "expand_template [(''row'', ''x''), (''table'', ''%41'')] sample_template = ''db://%41/x''"
  "map_option (amap_find ''table'') (match_template ''db://%41/x'' sample_template) = Some (Some ''A'')"
  by code_simp+

end
