(* ===== verification/Json_Lines.thy ===== *)
theory Json_Lines
  imports Json_Roundtrip
begin

text \<open>
  Files that hold one JSON text per line, as the file stores append them.  A text that \<open>Dump\<close> prints in
  the compact style has no line break, and no proper prefix of the text of an object or an array is a
  document: a line that was torn while it was written is recognised.  The second fact rests on the parser
  being incremental: what it reads of a text it also reads when more text follows.
\<close>

section \<open>The parser on a longer text\<close>

lemma skip_ws_append_rest: "skip_ws s \<noteq> [] \<Longrightarrow> skip_ws (s @ x) = skip_ws s @ x"
  by (induction s) (auto simp: skip_ws_def)

lemma skip_ws_hd: "skip_ws s = c # cs \<Longrightarrow> \<not> is_ws c"
  unfolding skip_ws_def using hd_dropWhile [of is_ws s] by simp

lemma skip_ws_idem [simp]: "skip_ws (skip_ws s) = skip_ws s"
  by (cases "skip_ws s") (use skip_ws_hd in \<open>auto simp: skip_ws_def\<close>)

lemma parse_literal_append:
  "parse_literal n s = Inr (v, s') \<Longrightarrow> parse_literal n' (s @ x) = Inr (v, s' @ x)"
proof -
  have "take k (s @ x) = w \<and> drop k (s @ x) = drop k s @ x" if "take k s = w" "length w = k" for k w
    using that by (metis append_eq_append_conv_if append_eq_conv_conj diff_is_0_eq' drop_append
        length_take min.absorb_iff2 nle_le take_append append_Nil2 drop0 take0)
  note this [of 4 "''null''"] this [of 4 "''true''"] this [of 5 "''false''"]
  moreover assume "parse_literal n s = Inr (v, s')"
  ultimately show ?thesis by (auto simp: parse_literal_def split: if_splits)
qed

lemma parse_hex4_append: "parse_hex4 n s = Inr (v, s') \<Longrightarrow> parse_hex4 n' (s @ x) = Inr (v, s' @ x)"
  by (auto simp: parse_hex4_def split: if_splits option.splits)

lemma parse_unicode_escape_append:
  assumes "parse_unicode_escape n s = Inr (t, s')"
  shows "parse_unicode_escape n' (s @ x) = Inr (t, s' @ x)"
proof -
  obtain cp s1 where cp: "parse_hex4 n s = Inr (cp, s1)"
    using assms by (auto simp: parse_unicode_escape_def res_simps)
  note cp' = parse_hex4_append [OF cp, of n' x]
  show ?thesis
  proof (cases "0xD800 \<le> cp \<and> cp \<le> 0xDBFF")
    case True
    then have len: "2 \<le> length s1" "s1 ! 0 = backslash" "s1 ! 1 = CHR ''u''"
      using assms cp by (auto simp: parse_unicode_escape_def split: if_splits)
    obtain lo s2 where lo: "parse_hex4 n (drop 2 s1) = Inr (lo, s2)"
      using assms cp True len by (auto simp: parse_unicode_escape_def res_simps)
    have "parse_hex4 n' (drop 2 (s1 @ x)) = Inr (lo, s2 @ x)"
      using parse_hex4_append [OF lo] len by simp
    then show ?thesis
      using assms cp cp' True len lo
      by (auto simp: parse_unicode_escape_def nth_append split: if_splits)
  next
    case False
    then show ?thesis using assms cp cp' by (auto simp: parse_unicode_escape_def split: if_splits)
  qed
qed

lemma utf8_seq_length_append: "utf8_seq_length s = Some k \<Longrightarrow> utf8_seq_length (s @ x) = Some k"
proof (cases s)
  case (Cons c cs)
  assume k: "utf8_seq_length s = Some k"
  then obtain cont lo hi where lead: "utf8_lead (byte_of c) = Some (cont, lo, hi)" "cont < length s"
    by (auto simp: utf8_seq_length_def Cons split: option.splits if_splits)
  with utf8_lead_cont have "1 \<le> cont" by blast
  with lead have "(s @ x) ! 1 = s ! 1" "take (cont - 1) (drop 2 (s @ x)) = take (cont - 1) (drop 2 s)"
    by (auto simp: nth_append)
  with k lead show ?thesis by (auto simp: utf8_seq_length_def Cons split: if_splits)
qed (simp add: utf8_seq_length_def)

lemma parse_string_append:
  "parse_string n acc s = Inr (t, s') \<Longrightarrow> parse_string n' acc (s @ x) = Inr (t, s' @ x)"
proof (induction n acc s rule: parse_string.induct)
  case (2 n acc c cs)
  consider "c = dquote" | e es y where "c \<noteq> dquote" "c = backslash" "cs = e # es" "simple_escape e = Some y"
    | es u es' where "c \<noteq> dquote" "c = backslash" "cs = CHR ''u'' # es"
        "simple_escape CHR ''u'' = None" "parse_unicode_escape n es = Inr (u, es')"
    | "c \<noteq> dquote" "c \<noteq> backslash" "0x20 \<le> byte_of c" "byte_of c < 0x80"
    | k where "c \<noteq> dquote" "c \<noteq> backslash" "0x80 \<le> byte_of c"
        "validate_utf8_sequence n (c # cs) = Inr k"
    using "2.prems" unfolding parse_string.simps(2)
    by (auto simp: res_simps not_less split: if_splits list.splits option.splits)
  then show ?case
  proof cases
    case 1
    with "2.prems" show ?thesis by (simp add: parse_string.simps(2))
  next
    case (2 e es y)
    with "2.prems" "2.IH"(2) [of e es y] show ?thesis by (simp add: parse_string.simps(2))
  next
    case (3 es u es')
    then have "parse_string n (acc @ u) es' = Inr (t, s')"
      using "2.prems" by (simp add: parse_string.simps(2))
    with 3 "2.IH"(1) have "parse_string n' (acc @ u) (es' @ x) = Inr (t, s' @ x)" by blast
    with 3 parse_unicode_escape_append [of n es u es' n' x] show ?thesis by (simp add: parse_string.simps(2))
  next
    case 4
    with "2.prems" "2.IH"(3) show ?thesis by (simp add: parse_string.simps(2))
  next
    case (5 k)
    then have "utf8_seq_length (c # cs) = Some k" by (simp add: validate_utf8_sequence_eq)
    then have "validate_utf8_sequence n' ((c # cs) @ x) = Inr k"
      using utf8_seq_length_append [of "c # cs" k x] by (subst validate_utf8_sequence_eq) simp_all
    moreover have "k \<le> Suc (length cs)"
      using validate_utf8_bounds [of "c # cs" n k] 5 by simp
    moreover from this have "take k (c # cs @ x) = take k (c # cs)" "drop k (c # cs @ x) = drop k (c # cs) @ x"
      using take_append [of k "c # cs" x] drop_append [of k "c # cs" x] by simp_all
    ultimately show ?thesis
      using 5 "2.prems" "2.IH"(4) [of k] by (simp add: parse_string.simps(2))
  qed
qed simp

lemma span_digits_extend: "span_digits s = (a, b) \<Longrightarrow> b \<noteq> [] \<Longrightarrow> span_digits (s @ x) = (a, b @ x)"
  unfolding span_digits_def prod.inject by (induction s arbitrary: a) auto

lemma scan_int_part_append:
  "scan_int_part n s s1 = Inr (a, b) \<Longrightarrow> b \<noteq> [] \<Longrightarrow> scan_int_part n' t (s1 @ x) = Inr (a, b @ x)"
  by (auto simp: scan_int_part_def split: list.splits if_splits dest: span_digits_extend)

lemma scan_frac_part_append:
  "scan_frac_part n s s1 = Inr (a, b) \<Longrightarrow> b \<noteq> [] \<Longrightarrow> scan_frac_part n' t (s1 @ x) = Inr (a, b @ x)"
  by (cases s1) (auto simp: scan_frac_part_def span_digits_extend split: if_splits prod.splits)

lemma scan_exp_part_append:
  "scan_exp_part n s s1 = Inr (a, b) \<Longrightarrow> b \<noteq> [] \<Longrightarrow> scan_exp_part n' t (s1 @ x) = Inr (a, b @ x)"
proof (cases s1)
  case (Cons c cs)
  assume eq: "scan_exp_part n s s1 = Inr (a, b)" and b: "b \<noteq> []"
  show ?thesis
  proof (cases "c = CHR ''e'' \<or> c = CHR ''E''")
    case True
    obtain sg ds where sg: "(if cs \<noteq> [] \<and> (hd cs = CHR ''+'' \<or> hd cs = CHR ''-'') then ([hd cs], tl cs) else ([], cs)) = (sg, ds)"
      by fastforce
    have ds: "ds \<noteq> []" "is_digit (hd ds)"
      using eq by (auto simp: scan_exp_part_def Cons True sg split: if_splits)
    then have sg': "(if cs @ x \<noteq> [] \<and> (hd (cs @ x) = CHR ''+'' \<or> hd (cs @ x) = CHR ''-'')
        then ([hd (cs @ x)], tl (cs @ x)) else ([], cs @ x)) = (sg, ds @ x)"
      using sg by (cases cs) (auto split: if_splits)
    obtain es r where es: "span_digits ds = (es, r)" by fastforce
    then have ab: "a = c # sg @ es" "r = b"
      using eq ds by (auto simp: scan_exp_part_def Cons True sg)
    have "span_digits (ds @ x) = (es, b @ x)"
      using span_digits_extend [OF es] ab b by simp
    with ds ab sg' True show ?thesis by (simp add: scan_exp_part_def Cons Let_def)
  next
    case False
    with eq have "a = []" "b = c # cs" by (auto simp: scan_exp_part_def Cons)
    with False show ?thesis by (simp add: scan_exp_part_def Cons)
  qed
next
  case Nil
  then show "scan_exp_part n s s1 = Inr (a, b) \<Longrightarrow> b \<noteq> [] \<Longrightarrow> ?thesis"
    by (simp add: scan_exp_part_def)
qed

lemma parse_number_token_offset:
  "parse_number_token n tok fl rest = Inr v \<Longrightarrow> parse_number_token n' tok fl rest' = Inr v"
proof (cases fl)
  case True
  assume "parse_number_token n tok fl rest = Inr v"
  with True show ?thesis
    by (cases "from_chars_double tok")
       (auto simp: parse_number_token_def parse_float_fallback_def res_simps split: if_splits option.splits prod.splits)
next
  case False
  assume "parse_number_token n tok fl rest = Inr v"
  with False show ?thesis
    by (cases "from_chars_i64 tok"; cases "from_chars_u64 tok") (auto simp: parse_number_token_def split: if_splits)
qed

lemma parse_number_append:
  assumes "parse_number n s = Inr (v, s')" and "s' \<noteq> []"
  shows "parse_number n' (s @ x) = Inr (v, s' @ x)"
proof -
  obtain sg s1 where sg: "(if s \<noteq> [] \<and> hd s = CHR ''-'' then (''-'', tl s) else ([], s)) = (sg, s1)"
    by fastforce
  obtain ip s2 fp s3 ep where parts: "scan_int_part n s s1 = Inr (ip, s2)"
      "scan_frac_part n s s2 = Inr (fp, s3)" "scan_exp_part n s s3 = Inr (ep, s')"
      "parse_number_token n (sg @ ip @ fp @ ep) (fp \<noteq> [] \<or> ep \<noteq> []) s' = Inr v"
    using assms by (auto simp: parse_number_def sg res_simps)
  then have ne: "s2 \<noteq> []" "s3 \<noteq> []"
    using assms(2) by (auto dest!: scan_frac_part_split scan_exp_part_split)
  have "s \<noteq> []" using parse_number_shorter [OF assms(1)] by auto
  then have sg': "(if s @ x \<noteq> [] \<and> hd (s @ x) = CHR ''-'' then (''-'', tl (s @ x)) else ([], s @ x)) = (sg, s1 @ x)"
    using sg by (auto split: if_splits)
  have "scan_int_part n' (s @ x) (s1 @ x) = Inr (ip, s2 @ x)"
    "scan_frac_part n' (s @ x) (s2 @ x) = Inr (fp, s3 @ x)"
    "scan_exp_part n' (s @ x) (s3 @ x) = Inr (ep, s' @ x)"
    "parse_number_token n' (sg @ ip @ fp @ ep) (fp \<noteq> [] \<or> ep \<noteq> []) (s' @ x) = Inr v"
    using scan_int_part_append [OF parts(1) ne(1)] scan_frac_part_append [OF parts(2) ne(2)]
      scan_exp_part_append [OF parts(3) assms(2)] parse_number_token_offset [OF parts(4)] by blast+
  then show ?thesis unfolding parse_number_def sg' Let_def by simp
qed

lemma parse_scalar_value_append:
  "parse_scalar_value n s = Inr (v, s') \<Longrightarrow> s' \<noteq> [] \<Longrightarrow> parse_scalar_value n' (s @ x) = Inr (v, s' @ x)"
proof (cases s)
  case (Cons c cs)
  assume "parse_scalar_value n s = Inr (v, s')" "s' \<noteq> []"
  note read = this
  show ?thesis
  proof (cases "c = dquote")
    case True
    with read show ?thesis
      by (auto simp: parse_scalar_value_def Cons rmap_eq_Inr_iff dest: parse_string_append [where n' = n' and x = x])
  next
    case False
    with read show ?thesis
      using parse_literal_append [of n "c # cs" v s' n' x] parse_number_append [of n "c # cs" v s' n' x]
      by (auto simp: parse_scalar_value_def Cons split: if_splits)
  qed
qed (simp add: parse_scalar_value_def)

fun extend_step :: "(frame list \<times> string) + (json \<times> string) \<Rightarrow> string \<Rightarrow> (frame list \<times> string) + (json \<times> string)" where
  "extend_step (Inl (stk, s)) x = Inl (stk, s @ x)"
| "extend_step (Inr (v, s)) x = Inr (v, s @ x)"

fun step_rest :: "(frame list \<times> string) + (json \<times> string) \<Rightarrow> bool" where
  "step_rest (Inl (stk, s)) \<longleftrightarrow> s \<noteq> []"
| "step_rest (Inr r) \<longleftrightarrow> True"

lemma finish_container_append:
  "finish_container v stk s = Inr r \<Longrightarrow> finish_container v stk (s @ x) = Inr (extend_step r x)"
  by (auto simp: finish_container_def split: if_splits)

lemma scalar_child_append:
  "scalar_child n stk s = Inr r \<Longrightarrow> step_rest r \<Longrightarrow> scalar_child n' stk (s @ x) = Inr (extend_step r x)"
proof -
  assume "scalar_child n stk s = Inr r" "step_rest r"
  then obtain child s' where "parse_scalar_value n s = Inr (child, s')" "r = Inl (complete_value child stk, s')" "s' \<noteq> []"
    by (auto simp: scalar_child_def rbind_eq_Inr_iff)
  with parse_scalar_value_append [of n s child s' n' x] show ?thesis by (simp add: scalar_child_def)
qed

lemma push_frame_append:
  "push_frame n obj stk (c # s) = Inr r \<Longrightarrow> push_frame n' obj stk (c # s @ x) = Inr (fst r, snd r @ x)"
  by (auto simp: push_frame_def split: if_splits)

lemma push_step_append:
  assumes "rmap Inl (push_frame n obj stk (c # s)) = Inr r"
  shows "rmap Inl (push_frame n' obj stk (c # s @ x)) = Inr (extend_step r x)"
proof -
  obtain q where q: "push_frame n obj stk (c # s) = Inr q" "r = Inl q"
    using assms by (auto simp: rmap_eq_Inr_iff)
  then have "push_frame n' obj stk (c # s @ x) = Inr (fst q, snd q @ x)" by (intro push_frame_append)
  with q show ?thesis by (cases q) simp
qed

lemma object_step_append:
  assumes "object_step n tp stk c cs = Inr r" "step_rest r"
  shows "object_step n' tp stk c (cs @ x) = Inr (extend_step r x)"
proof -
  consider (close) "c = CHR ''}''" "fr_phase tp \<noteq> 1" | (key) "fr_phase tp = 0" "c \<noteq> CHR ''}''"
    | (push) "fr_phase tp = 1" "c = CHR ''{'' \<or> c = CHR ''[''"
    | (scalar) "fr_phase tp = 1" "\<not> (c = CHR ''{'' \<or> c = CHR ''['')"
    | (more) "fr_phase tp \<noteq> 0" "fr_phase tp \<noteq> 1" "c \<noteq> CHR ''}''" by blast
  then show ?thesis
  proof cases
    case close
    then show ?thesis using assms by (auto simp: object_step_def intro: finish_container_append)
  next
    case key
    then obtain k s1 where c: "c = dquote" and k: "parse_string n [] cs = Inr (k, s1)"
        and s2: "skip_ws s1 \<noteq> []" "hd (skip_ws s1) = CHR '':''"
        and r: "r = Inl (tp\<lparr>fr_key := k, fr_phase := 1\<rparr> # stk, tl (skip_ws s1))"
      using assms by (auto simp: object_step_def res_simps Let_def split: if_splits)
    have "parse_string n' [] (cs @ x) = Inr (k, s1 @ x)" by (rule parse_string_append [OF k])
    then show ?thesis using key c s2 r by (simp add: object_step_def Let_def skip_ws_append_rest)
  next
    case push
    then show ?thesis using assms push_step_append [of n _ "tp # stk" c cs r n' x]
      by (simp add: object_step_def)
  next
    case scalar
    then show ?thesis using assms scalar_child_append [of n "tp # stk" "c # cs" r n' x]
      by (simp add: object_step_def)
  next
    case more
    then show ?thesis using assms
      by (auto simp: object_step_def Let_def skip_ws_append_rest split: if_splits)
  qed
qed

lemma array_step_append:
  assumes "array_step n tp stk c cs = Inr r" "step_rest r"
  shows "array_step n' tp stk c (cs @ x) = Inr (extend_step r x)"
proof -
  consider (close) "c = CHR '']''" | (push) "fr_phase tp \<noteq> 2" "c = CHR ''{'' \<or> c = CHR ''[''"
    | (scalar) "fr_phase tp \<noteq> 2" "c \<noteq> CHR '']''" "\<not> (c = CHR ''{'' \<or> c = CHR ''['')"
    | (more) "fr_phase tp = 2" "c \<noteq> CHR '']''" by blast
  then show ?thesis
  proof cases
    case close
    then show ?thesis using assms by (auto simp: array_step_def intro: finish_container_append split: if_splits)
  next
    case push
    then show ?thesis using assms push_step_append [of n _ "tp # stk" c cs r n' x]
      by (auto simp: array_step_def)
  next
    case scalar
    then show ?thesis using assms scalar_child_append [of n "tp # stk" "c # cs" r n' x]
      by (simp add: array_step_def)
  next
    case more
    then show ?thesis using assms
      by (auto simp: array_step_def Let_def skip_ws_append_rest split: if_splits)
  qed
qed

lemma container_step_append:
  assumes "container_step n stk s = Inr r" "step_rest r"
  shows "container_step n' stk (s @ x) = Inr (extend_step r x)"
proof (cases stk)
  case (Cons tp st)
  obtain c cs where cs: "skip_ws s = c # cs"
    using assms Cons by (cases "skip_ws s") (auto split: if_splits)
  then have "skip_ws (s @ x) = c # cs @ x" by (simp add: skip_ws_append_rest)
  then show ?thesis
    using assms cs Cons object_step_append array_step_append by (auto split: if_splits)
qed (use assms in simp)

lemma container_loop_append:
  "container_loop n stk s = Inr (v, s') \<Longrightarrow> container_loop n' stk (s @ x) = Inr (v, s' @ x)"
proof (induction n stk s rule: container_loop.induct)
  case (1 n stk s)
  show ?case
  proof (cases "container_step n stk s")
    case (Inl e)
    with "1.prems" show ?thesis by (simp add: container_loop.simps)
  next
    case (Inr r)
    show ?thesis
    proof (cases r)
      case (Inl p)
      obtain stk' t where p: "p = (stk', t)" by fastforce
      have rec: "container_loop n stk' t = Inr (v, s')"
        using "1.prems" Inr Inl p by (simp add: container_loop.simps)
      have "t \<noteq> []"
        using rec
        by (subst (asm) container_loop.simps, cases stk')
           (auto simp: skip_ws_def parse_fail_def throw_def split: if_splits)
      then have "container_step n' stk (s @ x) = Inr (Inl (stk', t @ x))"
        using container_step_append [OF Inr] Inl p by simp
      moreover have "container_loop n' stk' (t @ x) = Inr (v, s' @ x)"
        using "1.IH" Inr Inl p rec by blast
      ultimately show ?thesis by (simp add: container_loop.simps [of n' stk])
    next
      case (Inr q)
      with "1.prems" \<open>container_step n stk s = Inr r\<close> show ?thesis
        using container_step_append [of n stk s r n' x]
        by (auto simp: container_loop.simps [of n stk] container_loop.simps [of n' stk])
    qed
  qed
qed

section \<open>Torn texts\<close>

text \<open>A document that is an object or an array is no longer one when more than white space follows.\<close>

lemma parse_document_append:
  assumes "parse_document p = Inr v" "skip_ws p = c # cs" "c = CHR ''{'' \<or> c = CHR ''[''" "skip_ws x \<noteq> []"
  shows "\<exists>e. parse_document (p @ x) = Inl e"
proof -
  let ?n = "length p" and ?n' = "length (p @ x)"
  obtain s where v: "parse_value ?n (c # cs) = Inr (v, s)" and s: "skip_ws s = []"
    using assms(1,2) by (auto simp: parse_document_def res_simps Let_def split: if_splits)
  have "container_loop ?n [new_frame (c = CHR ''{'')] cs = Inr (v, s)"
    using v assms(3) by (auto simp: parse_value_def parse_container_def push_frame_def max_depth_def split: if_splits)
  then have "container_loop ?n' [new_frame (c = CHR ''{'')] (cs @ x) = Inr (v, s @ x)"
    by (rule container_loop_append)
  then have "parse_value ?n' (skip_ws (p @ x)) = Inr (v, s @ x)"
    using assms(2,3)
    by (auto simp: skip_ws_append_rest parse_value_def parse_container_def push_frame_def max_depth_def)
  moreover have "skip_ws (s @ x) \<noteq> []"
    using s assms(4) by (auto simp: skip_ws_def dropWhile_eq_Nil_conv)
  ultimately show ?thesis by (simp add: parse_document_def Let_def parse_fail_def throw_def)
qed

text \<open>White space after a document changes nothing.\<close>

lemma parse_document_append_ws:
  assumes "parse_document p = Inr v" "skip_ws p = c # cs" "c = CHR ''{'' \<or> c = CHR ''[''" "skip_ws x = []"
  shows "parse_document (p @ x) = Inr v"
proof -
  let ?n = "length p" and ?n' = "length (p @ x)"
  obtain s where v: "parse_value ?n (c # cs) = Inr (v, s)" and s: "skip_ws s = []"
    using assms(1,2) by (auto simp: parse_document_def res_simps Let_def split: if_splits)
  have "container_loop ?n [new_frame (c = CHR ''{'')] cs = Inr (v, s)"
    using v assms(3) by (auto simp: parse_value_def parse_container_def push_frame_def max_depth_def split: if_splits)
  then have "container_loop ?n' [new_frame (c = CHR ''{'')] (cs @ x) = Inr (v, s @ x)"
    by (rule container_loop_append)
  then have "parse_value ?n' (skip_ws (p @ x)) = Inr (v, s @ x)"
    using assms(2,3)
    by (auto simp: skip_ws_append_rest parse_value_def parse_container_def push_frame_def max_depth_def)
  moreover have "skip_ws (s @ x) = []"
    using s assms(4) by (auto simp: skip_ws_def dropWhile_eq_Nil_conv)
  ultimately show ?thesis by (simp add: parse_document_def)
qed

lemma container_text_last:
  assumes "is_container j" "dump_value i d j = p @ x" "x \<noteq> []"
  shows "skip_ws x \<noteq> []"
proof -
  have "last (dump_value i d j) = CHR '']'' \<or> last (dump_value i d j) = CHR ''}''"
    using assms(1) by (cases j) auto
  moreover have "last x = last (dump_value i d j)" using assms by simp
  ultimately have "\<not> is_ws (last x)" by auto
  then show ?thesis using assms(3) last_in_set by (auto simp: skip_ws_def dropWhile_eq_Nil_conv)
qed

text \<open>A proper prefix of the text of an object or an array does not parse.\<close>

theorem torn_text_fails:
  assumes "is_container j" "dump i j = p @ x" "x \<noteq> []" "json_ok j" "json_printable j" "json_depth j \<le> max_depth"
  shows "\<exists>e. parse_document p = Inl e"
proof (cases "parse_document p")
  case (Inr v)
  have "parse_document (p @ x) = Inr j"
    using assms(2) parse_document_dump [OF assms(4-6), of i] by simp
  moreover have "skip_ws x \<noteq> []"
    using container_text_last [OF assms(1), of i 0 p x] assms(2,3) by (simp add: dump_def)
  moreover obtain c cs where "skip_ws p = c # cs" "c = CHR ''{'' \<or> c = CHR ''[''"
  proof -
    have "p \<noteq> []" using Inr by (auto simp: parse_document_def parse_value_def skip_ws_def)
    then obtain c cs where p: "p = c # cs" by (cases p) auto
    moreover have "c = hd (dump i j)" using assms(2) p by simp
    then have "c = CHR ''{'' \<or> c = CHR ''[''" using assms(1) by (cases j) (auto simp: dump_def)
    ultimately show thesis using that [of c cs] by (auto simp: skip_ws_stop)
  qed
  ultimately show ?thesis using parse_document_append [OF Inr] by force
qed auto

section \<open>Lines\<close>

text \<open>What an append to a file does: the file does not open, the stream fails after some characters of the
  text have reached the file, or all of it is written.\<close>

datatype append_io = NotOpened | Torn nat | Written

definition line_break :: char where "line_break = chr 10"

text \<open>The pieces between line breaks: one more than there are line breaks.\<close>

fun split_lines :: "string \<Rightarrow> string list" where
  "split_lines [] = [[]]"
| "split_lines (c # cs) =
     (if c = line_break then [] # split_lines cs
      else case split_lines cs of [] \<Rightarrow> [[c]] | l # ls \<Rightarrow> (c # l) # ls)"

lemma split_lines_not_Nil [simp]: "split_lines s \<noteq> []"
  by (cases s) (auto split: list.split)

lemma split_lines_line: "line_break \<notin> set l \<Longrightarrow> split_lines (l @ line_break # s) = l # split_lines s"
  by (induction l) auto

lemma split_lines_last: "line_break \<notin> set l \<Longrightarrow> split_lines l = [l]"
  by (induction l) auto

definition join_lines :: "string list \<Rightarrow> string" where
  "join_lines ls = concat (map (\<lambda>l. l @ [line_break]) ls)"

lemma join_lines_simps [simp]:
  "join_lines [] = []" "join_lines (l # ls) = l @ line_break # join_lines ls"
  "join_lines (ls @ ms) = join_lines ls @ join_lines ms"
  by (simp_all add: join_lines_def)

lemma split_join_lines:
  "list_all (\<lambda>l. line_break \<notin> set l) ls \<Longrightarrow> line_break \<notin> set t \<Longrightarrow> split_lines (join_lines ls @ t) = ls @ [t]"
  by (induction ls) (auto simp: split_lines_line split_lines_last)

text \<open>The compact text of a value has no line break.\<close>

lemma line_break_neq [simp]:
  "line_break \<noteq> dquote" "dquote \<noteq> line_break" "\<not> is_digit line_break" "line_break \<noteq> CHR ''-''"
  "line_break \<noteq> CHR ''.''" "line_break \<noteq> CHR ''e''" "line_break \<noteq> CHR ''+''" "line_break \<noteq> CHR ''{''"
  "line_break \<noteq> CHR ''}''" "line_break \<noteq> CHR ''[''" "line_break \<noteq> CHR '']''" "line_break \<noteq> CHR '':''"
  "line_break \<noteq> CHR '',''" "line_break \<noteq> CHR ''n''" "line_break \<noteq> CHR ''u''" "line_break \<noteq> CHR ''l''"
  "line_break \<noteq> CHR ''t''" "line_break \<noteq> CHR ''r''" "line_break \<noteq> CHR ''f''" "line_break \<noteq> CHR ''a''"
  "line_break \<noteq> CHR ''s''" "line_break \<notin> set ''null''" "line_break \<notin> set ''true''" "line_break \<notin> set ''false''"
  by (simp_all add: line_break_def dquote_def is_digit_def byte_of_def chr_def flip: byte_of_inject)

lemma high_byte_no_line_break: "list_all (\<lambda>c. 32 \<le> byte_of c) s \<Longrightarrow> line_break \<notin> set s"
  by (auto simp: list_all_iff line_break_def)

lemma escape_char_no_line_break: "line_break \<notin> set (escape_char c)"
proof (rule high_byte_no_line_break)
  have "byte_of c div 16 < 16" "byte_of c mod 16 < 16" using byte_of_less [of c] by (auto intro: less_mult_imp_div_less)
  then have "32 \<le> byte_of (chr (48 + byte_of c div 16))" "32 \<le> byte_of (hex_char (byte_of c mod 16))"
    by (simp_all add: hex_char_def)
  moreover have "32 \<le> byte_of x" if "x \<in> {CHR ''b'', CHR ''f'', CHR ''n'', CHR ''r'', CHR ''t'', CHR ''u'', CHR ''0''}" for x
    using that by (auto simp: byte_of_def)
  ultimately show "list_all (\<lambda>x. 32 \<le> byte_of x) (escape_char c)"
    by (simp add: escape_char_def)
qed

lemma escaped_no_line_break [simp]: "line_break \<notin> set (append_escaped_string s)"
  using escape_char_no_line_break by (auto simp: append_escaped_string_def escape_string_def)

lemma dec_nat_no_line_break [simp]: "line_break \<notin> set (dec_nat n)"
  using dec_nat_digits [of line_break n] by (auto simp del: dec_nat_digits)

lemma dec_int_no_line_break [simp]: "line_break \<notin> set (dec_int i)"
  by (simp add: dec_int_def)

lemma digits_no_line_break [simp]: "list_all is_digit ds \<Longrightarrow> line_break \<notin> set ds"
  by (auto simp: list_all_iff)

lemma exp_part_no_line_break [simp]: "exp_part_ok ep \<Longrightarrow> line_break \<notin> set ep"
  by (auto simp: exp_part_ok_def)

lemma dump_double_no_line_break [simp]: "line_break \<notin> set (dump_double d)"
proof (cases "f64_finite d")
  case True
  then obtain ip fp ep where "dump_double d = num_token (f64_neg d) ip fp ep" "num_token_ok ip fp ep"
    using dump_double_token by blast
  then show ?thesis by (simp add: num_token_def num_token_ok_def)
next
  case False
  then have "dump_double d = ''null''" by (simp add: dump_double_def)
  then show ?thesis by (simp only: line_break_neq not_False_eq_True)
qed

lemma dump_value_no_line_break:
  "line_break \<notin> set (dump_value (- 1) d j)"
  "line_break \<notin> set (dump_items (- 1) d xs)"
  "line_break \<notin> set (dump_members (- 1) d ms)"
proof -
  have "indent < 0 \<longrightarrow> line_break \<notin> set (dump_value indent d j)"
    and "indent < 0 \<longrightarrow> line_break \<notin> set (dump_items indent d xs)" and True
    and "indent < 0 \<longrightarrow> line_break \<notin> set (dump_members indent d ms)" and True for indent
    by (induction indent d j and indent d xs and indent d xs and indent d ms and indent d ms
      rule: dump_value_dump_items_dump_items_indented_dump_members_dump_members_indented.induct) auto
  note all = this
  show "line_break \<notin> set (dump_value (- 1) d j)" using all(1) [of "- 1"] by simp
  show "line_break \<notin> set (dump_items (- 1) d xs)" using all(2) [of "- 1"] by simp
  show "line_break \<notin> set (dump_members (- 1) d ms)" using all(4) [of "- 1"] by simp
qed

lemma dump_no_line_break [simp]: "line_break \<notin> set (dump (- 1) j)"
  by (simp add: dump_def dump_value_no_line_break)

end
