(* ===== verification/Std_Numbers.thy ===== *)
theory Std_Numbers
  imports Prelude
begin

text \<open>
  \<open>std::stoll\<close> and \<open>std::stoul\<close> on a platform whose \<open>long\<close> and \<open>long long\<close> have 64 bits: white space, an
  optional sign and decimal digits are read from the front of the text and the rest is left; \<open>stoul\<close> takes a
  minus sign too and negates modulo \<open>2 ^ 64\<close>.
\<close>

datatype 'a sto_result = StoOk 'a string | StoInvalid | StoRange

definition is_space :: "char \<Rightarrow> bool" where
  "is_space c \<longleftrightarrow> byte_of c = 32 \<or> 9 \<le> byte_of c \<and> byte_of c \<le> 13"

fun strip_sign :: "string \<Rightarrow> bool \<times> string" where
  "strip_sign (c # cs) =
     (if c = CHR ''-'' then (True, cs) else if c = CHR ''+'' then (False, cs) else (False, c # cs))"
| "strip_sign [] = (False, [])"

text \<open>The sign, the digits and the rest.\<close>

definition scan_decimal :: "string \<Rightarrow> bool \<times> string \<times> string" where
  "scan_decimal s =
     (let (neg, t) = strip_sign (dropWhile is_space s)
      in (neg, takeWhile is_digit t, dropWhile is_digit t))"

definition stoll :: "string \<Rightarrow> int sto_result" where
  "stoll s =
     (let (neg, ds, rest) = scan_decimal s;
          v = (if neg then - int (nat_of_digits ds) else int (nat_of_digits ds))
      in if ds = [] then StoInvalid
         else if - (2 ^ 63) \<le> v \<and> v < 2 ^ 63 then StoOk v rest else StoRange)"

definition stoul :: "string \<Rightarrow> nat sto_result" where
  "stoul s =
     (let (neg, ds, rest) = scan_decimal s; v = nat_of_digits ds
      in if ds = [] then StoInvalid
         else if v < 2 ^ 64 then StoOk (if neg \<and> v \<noteq> 0 then 2 ^ 64 - v else v) rest else StoRange)"

lemma takeWhile_digits [simp]: "takeWhile is_digit (dec_nat n) = dec_nat n" "dropWhile is_digit (dec_nat n) = []"
  by (simp_all add: takeWhile_eq_all_conv dropWhile_eq_Nil_conv)

lemma dec_nat_start: "dropWhile is_space (dec_nat n) = dec_nat n" "strip_sign (dec_nat n) = (False, dec_nat n)"
proof -
  obtain c cs where c: "dec_nat n = c # cs" by (cases "dec_nat n") auto
  then have "is_digit c" using dec_nat_digits [of c n] by simp
  then have "\<not> is_space c" "c \<noteq> CHR ''-''" "c \<noteq> CHR ''+''"
    by (auto simp: is_digit_def is_space_def byte_of_def)
  then show "dropWhile is_space (dec_nat n) = dec_nat n" "strip_sign (dec_nat n) = (False, dec_nat n)"
    by (simp_all add: c)
qed

lemma scan_decimal_dec_nat: "scan_decimal (dec_nat n) = (False, dec_nat n, [])"
  by (simp add: scan_decimal_def dec_nat_start)

lemma scan_decimal_dec_int: "scan_decimal (dec_int i) = (i < 0, dec_nat (nat \<bar>i\<bar>), [])"
proof (cases "i < 0")
  case True
  moreover have "\<not> is_space CHR ''-''" by (simp add: is_space_def byte_of_def)
  ultimately show ?thesis by (simp add: scan_decimal_def dec_int_def)
qed (simp add: dec_int_def scan_decimal_dec_nat)

lemma stoll_dec_int: "- (2 ^ 63) \<le> i \<Longrightarrow> i < 2 ^ 63 \<Longrightarrow> stoll (dec_int i) = StoOk i []"
  by (simp add: stoll_def scan_decimal_dec_int)

lemma stoul_dec_nat: "n < 2 ^ 64 \<Longrightarrow> stoul (dec_nat n) = StoOk n []"
  by (simp add: stoul_def scan_decimal_dec_nat)

lemma stoul_bound: "stoul s = StoOk n r \<Longrightarrow> n < 2 ^ 64"
  by (auto simp: stoul_def Let_def split: prod.splits if_splits)

end
