(* ===== verification/Task_Store.thy ===== *)
theory Task_Store
  imports Wire_Types Json_Lines Std_Numbers
begin

text \<open>
  The tasks of a server and the store that keeps them in a file (\<open>include/mcp/server/McpTaskStore.hpp\<close>,
  \<open>src/server/FileTaskStore.cpp\<close>).  The file is a journal: one line for every change, rewritten as one
  line per task when it has grown.  The write mutex makes each operation one step; a reader that runs
  between the change in memory and the undoing of it after a failed write is left out.  What the file
  system does is an argument of the operations.
\<close>

section \<open>Tasks\<close>

text \<open>\<open>enum class TaskStatus\<close>: as the code reads it from a file, any 32-bit integer is a value.\<close>

type_synonym task_status = "32 word"

definition TaskPending :: task_status where "TaskPending = 0"
definition TaskWorking :: task_status where "TaskWorking = 1"
definition TaskCompleted :: task_status where "TaskCompleted = 2"
definition TaskFailed :: task_status where "TaskFailed = 3"
definition TaskCancelled :: task_status where "TaskCancelled = 4"
definition TaskInputRequired :: task_status where "TaskInputRequired = 5"

lemmas task_status_defs = TaskPending_def TaskWorking_def TaskCompleted_def TaskFailed_def
  TaskCancelled_def TaskInputRequired_def

record task_state =
  ts_task_id :: string
  ts_owner :: string
  ts_status :: task_status
  ts_result :: "json option"
  ts_error_message :: "string option"
  ts_input_required :: "json option"
  ts_progress :: f64
  ts_progress_total :: "f64 option"
  ts_created_at :: string
  ts_status_message :: "string option"
  ts_last_updated_at :: "string option"
  ts_ttl_ms :: "i64 option"
  ts_poll_interval_ms :: "i64 option"
  ts_input_requests :: "input_requests option"
  ts_input_responses :: "json option"
  ts_tool_name :: "string option"
  ts_tool_arguments :: "json option"

definition new_task_state :: task_state where
  "new_task_state = \<lparr>ts_task_id = [], ts_owner = [], ts_status = TaskPending, ts_result = None,
     ts_error_message = None, ts_input_required = None, ts_progress = 0, ts_progress_total = None,
     ts_created_at = [], ts_status_message = None, ts_last_updated_at = None, ts_ttl_ms = None,
     ts_poll_interval_ms = None, ts_input_requests = None, ts_input_responses = None,
     ts_tool_name = None, ts_tool_arguments = None\<rparr>"

definition is_terminal_status :: "task_status \<Rightarrow> bool" where
  "is_terminal_status s \<longleftrightarrow> s = TaskCompleted \<or> s = TaskFailed \<or> s = TaskCancelled"

definition make_millis :: "int \<Rightarrow> string" where
  "make_millis now = dec_int now"

definition parse_millis :: "string \<Rightarrow> int option" where
  "parse_millis s = (if s = [] then None
     else case stoll s of StoOk v rest \<Rightarrow> if rest = [] then Some v else None | _ \<Rightarrow> None)"

lemma parse_make_millis: "- (2 ^ 63) \<le> now \<Longrightarrow> now < 2 ^ 63 \<Longrightarrow> parse_millis (make_millis now) = Some now"
  by (auto simp: parse_millis_def make_millis_def stoll_dec_int) (simp add: dec_int_def split: if_splits)

section \<open>Their JSON\<close>

definition serialize_task_state :: "task_state \<Rightarrow> json" where
  "serialize_task_state t = build_object [
     put ''task_id'' (JString (ts_task_id t)),
     put ''owner'' (JString (ts_owner t)),
     put ''status'' (JInt (scast (ts_status t))),
     put_opt ''result'' (\<lambda>x. x) (ts_result t),
     put_opt ''error_message'' JString (ts_error_message t),
     put_opt ''input_required'' (\<lambda>x. x) (ts_input_required t),
     put ''progress'' (JDouble (ts_progress t)),
     put_opt ''progress_total'' JDouble (ts_progress_total t),
     put ''created_at'' (JString (ts_created_at t)),
     put_opt ''statusMessage'' JString (ts_status_message t),
     put_opt ''lastUpdatedAt'' JString (ts_last_updated_at t),
     put_opt ''ttlMs'' JInt (ts_ttl_ms t),
     put_opt ''pollIntervalMs'' JInt (ts_poll_interval_ms t),
     put_opt ''inputRequests'' serialize_input_requests (ts_input_requests t),
     put_opt ''inputResponses'' (\<lambda>x. x) (ts_input_responses t),
     put_opt ''toolName'' JString (ts_tool_name t),
     put_opt ''toolArguments'' (\<lambda>x. x) (ts_tool_arguments t)]"

text \<open>\<open>if (auto* v = j.Find(key)) field = get(*v)\<close>: a missing key keeps the default.\<close>

definition field_or :: "'a \<Rightarrow> string \<Rightarrow> (json \<Rightarrow> 'a mres) \<Rightarrow> json \<Rightarrow> 'a mres" where
  "field_or dflt key f j = rmap (case_option dflt id) (opt_with key f j)"

definition deserialize_task_state :: "json \<Rightarrow> task_state mres" where
  "deserialize_task_state j =
     rbind (field_or [] ''task_id'' get_string j) (\<lambda>task_id.
     rbind (field_or TaskPending ''status'' (\<lambda>v. rmap ucast (get_int v)) j) (\<lambda>status.
     rbind (opt_when (\<lambda>v. \<not> is_null v) ''result'' Inr j) (\<lambda>result.
     rbind (opt_when (\<lambda>v. \<not> is_null v) ''error_message'' get_string j) (\<lambda>error_message.
     rbind (opt_when (\<lambda>v. \<not> is_null v) ''input_required'' Inr j) (\<lambda>input_required.
     rbind (field_or 0 ''progress'' get_double j) (\<lambda>progress.
     rbind (opt_when (\<lambda>v. \<not> is_null v) ''progress_total'' get_double j) (\<lambda>progress_total.
     rbind (field_or [] ''created_at'' get_string j) (\<lambda>created_at.
     rbind (opt_when is_string ''statusMessage'' get_string j) (\<lambda>status_message.
     rbind (opt_when is_string ''lastUpdatedAt'' get_string j) (\<lambda>last_updated_at.
     rbind (opt_when is_int ''ttlMs'' get_int j) (\<lambda>ttl.
     rbind (opt_when is_int ''pollIntervalMs'' get_int j) (\<lambda>poll.
     rbind (opt_when is_object ''inputRequests'' deserialize_input_requests j) (\<lambda>requests.
     rbind (opt_when (\<lambda>v. \<not> is_null v) ''inputResponses'' Inr j) (\<lambda>responses.
     rbind (opt_when is_string ''toolName'' get_string j) (\<lambda>tool_name.
     rbind (opt_when (\<lambda>v. \<not> is_null v) ''toolArguments'' Inr j) (\<lambda>tool_arguments.
     Inr \<lparr>ts_task_id = task_id, ts_owner = string_or [] ''owner'' j, ts_status = status, ts_result = result,
          ts_error_message = error_message, ts_input_required = input_required, ts_progress = progress,
          ts_progress_total = progress_total, ts_created_at = created_at, ts_status_message = status_message,
          ts_last_updated_at = last_updated_at, ts_ttl_ms = ttl, ts_poll_interval_ms = poll,
          ts_input_requests = requests, ts_input_responses = responses, ts_tool_name = tool_name,
          ts_tool_arguments = tool_arguments\<rparr>))))))))))))))))"

text \<open>A field that holds \<open>null\<close> is written and read back as absent.\<close>

definition task_codec_ok :: "task_state \<Rightarrow> bool" where
  "task_codec_ok t \<longleftrightarrow> ts_result t \<noteq> Some JNull \<and> ts_input_required t \<noteq> Some JNull \<and>
     ts_input_responses t \<noteq> Some JNull \<and> ts_tool_arguments t \<noteq> Some JNull \<and>
     pred_option input_requests_ok (ts_input_requests t)"

lemma read_when_json: "x \<noteq> Some JNull \<Longrightarrow> read_when (\<lambda>v. \<not> is_null v) Inr x = Inr x"
  by (auto simp: read_when_def split: option.split) (metis is_null.elims(2))

lemma read_when_map [codec_simps]:
  "read_when is_string get_string (map_option JString x) = Inr x"
  "read_when (\<lambda>v. \<not> is_null v) get_string (map_option JString x) = Inr x"
  "read_when (\<lambda>v. \<not> is_null v) get_double (map_option JDouble y) = Inr y"
  "read_when is_int get_int (map_option JInt z) = Inr z"
  by (cases x; cases y; cases z; simp add: read_when_def)+

interpretation task_state_codec: json_codec serialize_task_state deserialize_task_state task_codec_ok
proof
  fix t :: task_state
  assume ok: "task_codec_ok t"
  have "ucast (scast (ts_status t) :: i64) = ts_status t"
    by (rule bit_word_eqI) (auto simp: bit_simps)
  moreover have "read_with get_string (Some (JString s)) = Inr (Some s)"
    "read_with get_double (Some (JDouble d)) = Inr (Some d)"
    "read_with (\<lambda>v. rmap ucast (get_int v)) (Some (JInt i)) = Inr (Some (ucast i :: task_status))" for s d i
    by (simp_all add: read_with_def)
  ultimately show "deserialize_task_state (serialize_task_state t) = Inr t"
    using ok by (simp add: deserialize_task_state_def serialize_task_state_def field_or_def task_codec_ok_def
        read_when_json codec_simps)
qed

section \<open>The store\<close>

text \<open>The file is \<open>None\<close> when it does not exist; \<open>fts_backup\<close> is the copy \<open>BackupCorruptFile\<close> makes.\<close>

record file_task_store =
  fts_tasks :: "(string, task_state) amap"
  fts_pending :: nat
  fts_file :: "string option"
  fts_backup :: "string option"

text \<open>The outcome of the append, and the answer of \<open>WriteAtomic\<close> should the operation compact the file.\<close>

type_synonym store_io = "append_io \<times> bool"

definition record_json :: "string \<Rightarrow> task_state \<Rightarrow> json" where
  "record_json task_id t = build_object [
     put ''task_id'' (JString task_id), put ''state'' (serialize_task_state t)]"

definition serialize_record :: "string \<Rightarrow> task_state \<Rightarrow> string" where
  "serialize_record task_id t = dump (- 1) (record_json task_id t)"

definition removal_json :: "string \<Rightarrow> json" where
  "removal_json task_id = build_object [
     put ''task_id'' (JString task_id), put ''removed'' (JBool True)]"

definition serialize_removal :: "string \<Rightarrow> string" where
  "serialize_removal task_id = dump (- 1) (removal_json task_id)"

definition file_content :: "file_task_store \<Rightarrow> string" where
  "file_content st = (case fts_file st of None \<Rightarrow> [] | Some c \<Rightarrow> c)"

definition append_text :: "append_io \<Rightarrow> string \<Rightarrow> file_task_store \<Rightarrow> file_task_store \<times> bool" where
  "append_text io text st =
     (case io of
        NotOpened \<Rightarrow> (st, False)
      | Torn k \<Rightarrow> (st\<lparr>fts_file := Some (file_content st @ take k text)\<rparr>, False)
      | Written \<Rightarrow> (st\<lparr>fts_file := Some (file_content st @ text), fts_pending := fts_pending st + 1\<rparr>, True))"

definition min_compact_threshold :: nat where "min_compact_threshold = 64"

definition compact_locked :: "bool \<Rightarrow> file_task_store \<Rightarrow> file_task_store \<times> bool" where
  "compact_locked atomic_ok st =
     (if atomic_ok
      then (st\<lparr>fts_file := Some (join_lines (map (\<lambda>(i, t). serialize_record i t) (fts_tasks st))),
                 fts_pending := 0\<rparr>, True)
      else (st, False))"

definition append_record :: "store_io \<Rightarrow> string \<Rightarrow> task_state \<Rightarrow> file_task_store \<Rightarrow> file_task_store \<times> bool" where
  "append_record io task_id t st =
     (let (st', ok) = append_text (fst io) (serialize_record task_id t @ [line_break]) st
      in if ok \<and> min_compact_threshold + length (fts_tasks st') * 2 < fts_pending st'
         then compact_locked (snd io) st' else (st', ok))"

definition append_removal :: "store_io \<Rightarrow> string \<Rightarrow> file_task_store \<Rightarrow> file_task_store \<times> bool" where
  "append_removal io task_id st = append_text (fst io) (serialize_removal task_id @ [line_break]) st"

text \<open>What the operations have in common: the guard and the new state of a task under the data lock, the
  record, and the undoing of the change when the record could not be written.\<close>

definition persist_failed :: "string \<Rightarrow> 'a mres" where
  "persist_failed task_id = throw InternalError (''task store: failed to persist task '' @ task_id)"

definition put_task :: "string \<Rightarrow> task_state \<Rightarrow> file_task_store \<Rightarrow> file_task_store" where
  "put_task task_id t st = st\<lparr>fts_tasks := amap_put task_id t (fts_tasks st)\<rparr>"

definition modify_task ::
  "store_io \<Rightarrow> string \<Rightarrow> (task_state \<Rightarrow> task_state option) \<Rightarrow> file_task_store \<Rightarrow> file_task_store \<times> bool mres" where
  "modify_task io task_id f st =
     (case amap_find task_id (fts_tasks st) of
        None \<Rightarrow> (st, Inr False)
      | Some t \<Rightarrow>
          (case f t of
             None \<Rightarrow> (st, Inr False)
           | Some t' \<Rightarrow>
               (let (st', ok) = append_record io task_id t' (put_task task_id t' st)
                in if ok then (st', Inr True) else (put_task task_id t st', persist_failed task_id))))"

text \<open>The three-argument \<open>CreateTask\<close>; the other one passes no owner and no lifetime.\<close>

definition created_task :: "int \<Rightarrow> string \<Rightarrow> string \<Rightarrow> i64 option \<Rightarrow> task_state" where
  "created_task now task_id owner ttl =
     new_task_state\<lparr>ts_task_id := task_id, ts_owner := owner, ts_created_at := make_millis now,
       ts_last_updated_at := Some (make_millis now), ts_ttl_ms := ttl\<rparr>"

definition create_task ::
  "store_io \<Rightarrow> int \<Rightarrow> string \<Rightarrow> string \<Rightarrow> i64 option \<Rightarrow> file_task_store \<Rightarrow> file_task_store \<times> task_state mres" where
  "create_task io now task_id owner ttl st =
     (let t = created_task now task_id owner ttl in
      if amap_find task_id (fts_tasks st) \<noteq> None
      then (st, throw InvalidParams (''task already exists: '' @ task_id))
      else let (st', ok) = append_record io task_id t (put_task task_id t st)
           in if ok then (st', Inr t)
              else (st'\<lparr>fts_tasks := amap_erase task_id (fts_tasks st')\<rparr>, persist_failed task_id))"

definition get_task :: "string \<Rightarrow> file_task_store \<Rightarrow> task_state option" where
  "get_task task_id st = amap_find task_id (fts_tasks st)"

definition get_all_tasks :: "file_task_store \<Rightarrow> task_state list" where
  "get_all_tasks st = map snd (fts_tasks st)"

definition stamped :: "int \<Rightarrow> task_state \<Rightarrow> task_state" where
  "stamped now t = t\<lparr>ts_last_updated_at := Some (make_millis now)\<rparr>"

definition updated_task :: "int \<Rightarrow> json option \<Rightarrow> task_state \<Rightarrow> task_state option" where
  "updated_task now result t =
     (if is_terminal_status (ts_status t) then None
      else if ts_status t = TaskInputRequired \<and> result \<noteq> None then None
      else Some (stamped now (t\<lparr>ts_result := result,
             ts_status := (if result \<noteq> None then TaskCompleted else TaskWorking)\<rparr>)))"

definition cancelled_task :: "int \<Rightarrow> string option \<Rightarrow> task_state \<Rightarrow> task_state option" where
  "cancelled_task now reason t =
     (if is_terminal_status (ts_status t) then None
      else Some (stamped now (t\<lparr>ts_status := TaskCancelled, ts_error_message := reason\<rparr>)))"

definition task_with_status :: "int \<Rightarrow> task_status \<Rightarrow> task_state \<Rightarrow> task_state option" where
  "task_with_status now status t =
     (if is_terminal_status (ts_status t) \<and> ts_status t \<noteq> status then None
      else Some (stamped now (t\<lparr>ts_status := status\<rparr>)))"

definition failed_task :: "int \<Rightarrow> json \<Rightarrow> task_state \<Rightarrow> task_state option" where
  "failed_task now payload t =
     (if is_terminal_status (ts_status t) then None
      else Some (stamped now (t\<lparr>ts_result := Some payload, ts_status := TaskFailed,
             ts_error_message := (case json_find ''message'' payload of
                Some (JString msg) \<Rightarrow> Some msg | _ \<Rightarrow> ts_error_message t)\<rparr>)))"

definition task_with_input :: "int \<Rightarrow> json \<Rightarrow> task_state \<Rightarrow> task_state option" where
  "task_with_input now responses t =
     (if ts_status t \<noteq> TaskInputRequired then None
      else Some (stamped now (t\<lparr>ts_input_responses :=
             (case (ts_input_responses t, responses) of
                (Some (JObject old), JObject new) \<Rightarrow> Some (JObject (foldl (\<lambda>m (k, v). amap_put k v m) old new))
              | _ \<Rightarrow> Some responses), ts_status := TaskWorking\<rparr>)))"

definition parked_task :: "int \<Rightarrow> input_requests \<Rightarrow> task_state \<Rightarrow> task_state option" where
  "parked_task now requests t =
     (if is_terminal_status (ts_status t) then None
      else Some (stamped now (t\<lparr>ts_input_requests := Some requests, ts_status := TaskInputRequired\<rparr>)))"

definition update_task where
  "update_task io now task_id result = modify_task io task_id (updated_task now result)"

definition cancel_task where
  "cancel_task io now task_id reason = modify_task io task_id (cancelled_task now reason)"

definition set_task_status where
  "set_task_status io now task_id status = modify_task io task_id (task_with_status now status)"

definition fail_task where
  "fail_task io now task_id payload = modify_task io task_id (failed_task now payload)"

definition set_task_owner where
  "set_task_owner io task_id owner = modify_task io task_id (\<lambda>t. Some (t\<lparr>ts_owner := owner\<rparr>))"

definition set_task_ttl where
  "set_task_ttl io task_id ttl = modify_task io task_id (\<lambda>t. Some (t\<lparr>ts_ttl_ms := Some ttl\<rparr>))"

definition advance_task_with_input where
  "advance_task_with_input io now task_id responses = modify_task io task_id (task_with_input now responses)"

definition park_task_for_input where
  "park_task_for_input io now task_id requests = modify_task io task_id (parked_task now requests)"

definition bind_task_tool where
  "bind_task_tool io task_id tool arguments =
     modify_task io task_id (\<lambda>t. Some (t\<lparr>ts_tool_name := Some tool, ts_tool_arguments := arguments\<rparr>))"

definition remove_task :: "store_io \<Rightarrow> string \<Rightarrow> file_task_store \<Rightarrow> file_task_store \<times> bool mres" where
  "remove_task io task_id st =
     (if amap_find task_id (fts_tasks st) = None then (st, Inr False)
      else let (st', ok) = append_removal io task_id st
           in if ok then (st'\<lparr>fts_tasks := amap_erase task_id (fts_tasks st')\<rparr>, Inr True)
              else (st', throw InternalError (''task store: failed to persist removal of task '' @ task_id)))"

text \<open>The difference \<open>now_ms - *baseline\<close> is one of 64-bit integers; it does not overflow for times of a clock.\<close>

definition expiry_baseline :: "task_state \<Rightarrow> int option" where
  "expiry_baseline t =
     (let created = parse_millis (ts_created_at t)
      in case ts_last_updated_at t of
           None \<Rightarrow> created
         | Some u \<Rightarrow>
             (case parse_millis u of
                None \<Rightarrow> created
              | Some v \<Rightarrow> (case created of Some c \<Rightarrow> if c < v then Some v else created | None \<Rightarrow> Some v)))"

definition is_expired_task :: "int \<Rightarrow> task_state \<Rightarrow> bool" where
  "is_expired_task now t \<longleftrightarrow> is_terminal_status (ts_status t) \<and>
     (case (ts_ttl_ms t, expiry_baseline t) of
        (Some ttl, Some base) \<Rightarrow> 0 < sint ttl \<and> sint ttl \<le> now - base
      | _ \<Rightarrow> False)"

definition get_expired_task_ids :: "int \<Rightarrow> file_task_store \<Rightarrow> string list" where
  "get_expired_task_ids now st = map fst (filter (\<lambda>(i, t). is_expired_task now t) (fts_tasks st))"

definition flush_tasks :: "bool \<Rightarrow> file_task_store \<Rightarrow> file_task_store \<times> bool" where
  "flush_tasks atomic_ok st = compact_locked atomic_ok st"

section \<open>Loading\<close>

datatype load_result =
    Loaded "(string, task_state) amap" nat
  | Corrupt nat
  | LoadThrows mcp_error

text \<open>\<open>tasks_[key] = DeserializeTaskState(val)\<close> for the members of the older format, until one throws.\<close>

fun load_legacy :: "members \<Rightarrow> (string, task_state) amap \<Rightarrow> (string, task_state) amap \<times> mcp_error option" where
  "load_legacy [] m = (m, None)"
| "load_legacy ((k, v) # kvs) m =
     (case deserialize_task_state v of
        Inl e \<Rightarrow> (m, Some e)
      | Inr t \<Rightarrow> load_legacy kvs (amap_put k t m))"

text \<open>One line that parsed.\<close>

definition load_record :: "json \<Rightarrow> (string, task_state) amap \<Rightarrow> nat \<Rightarrow> load_result" where
  "load_record j m n =
     (case json_find ''tasks'' j of
        Some (JObject legacy) \<Rightarrow>
          (case load_legacy legacy m of (m', None) \<Rightarrow> Loaded m' n | (m', Some e) \<Rightarrow> LoadThrows e)
      | _ \<Rightarrow>
          (case json_find ''task_id'' j of
             Some (JString i) \<Rightarrow>
               (if i = [] then Corrupt n
                else case (case json_find ''removed'' j of Some r \<Rightarrow> get_bool r | None \<Rightarrow> Inr False) of
                       Inl e \<Rightarrow> LoadThrows e
                     | Inr True \<Rightarrow> Loaded (amap_erase i m) n
                     | Inr False \<Rightarrow>
                         (case json_find ''state'' j of
                            Some s \<Rightarrow>
                              (if \<not> is_object s then Corrupt n
                               else case deserialize_task_state s of
                                      Inl e \<Rightarrow> LoadThrows e
                                    | Inr t \<Rightarrow> Loaded (amap_put i t m) (n + 1))
                          | None \<Rightarrow> Corrupt n))
           | _ \<Rightarrow> Corrupt n))"

fun load_lines :: "string list \<Rightarrow> (string, task_state) amap \<Rightarrow> nat \<Rightarrow> load_result" where
  "load_lines [] m n = Loaded m n"
| "load_lines (line # rest) m n =
     (if line = [] then load_lines rest m n
      else case parse_document line of
             Inl e \<Rightarrow> if rest = [] then Loaded m n else Corrupt n
           | Inr j \<Rightarrow>
               if \<not> is_object j then Corrupt n
               else (case load_record j m n of
                       Loaded m' n' \<Rightarrow> load_lines rest m' n'
                     | r \<Rightarrow> r))"

text \<open>The first attempt of \<open>LoadTasks\<close>: the whole file is one object of the older format.  An exception from
  one of its tasks leaves the tasks before it in the store.\<close>

definition load_whole :: "string \<Rightarrow> (string, task_state) amap \<times> bool" where
  "load_whole content =
     (case parse_document content of
        Inl e \<Rightarrow> ([], False)
      | Inr j \<Rightarrow>
          (case json_find ''tasks'' j of
             Some (JObject legacy) \<Rightarrow>
               (case load_legacy legacy [] of (m, None) \<Rightarrow> (m, True) | (m, Some e) \<Rightarrow> (m, False))
           | _ \<Rightarrow> ([], False)))"

definition load_content :: "string \<Rightarrow> load_result" where
  "load_content content =
     (if content = [] then Loaded [] 0
      else case load_whole content of
             (m, True) \<Rightarrow> Loaded m 0
           | (m, False) \<Rightarrow> load_lines (split_lines content) m 0)"

text \<open>The constructor, on the file as it is: \<open>opens\<close> and \<open>copies\<close> say whether the file can be opened and
  copied.\<close>

definition backup_corrupt_file :: "bool \<Rightarrow> file_task_store \<Rightarrow> file_task_store" where
  "backup_corrupt_file copies st = (if copies then st\<lparr>fts_backup := fts_file st\<rparr> else st)"

definition open_task_store :: "bool \<Rightarrow> bool \<Rightarrow> string option \<Rightarrow> string option \<Rightarrow> file_task_store mres" where
  "open_task_store opens copies file backup =
     (let st = \<lparr>fts_tasks = [], fts_pending = 0, fts_file = file, fts_backup = backup\<rparr>
      in case file of
           None \<Rightarrow> Inr st
         | Some content \<Rightarrow>
             if \<not> opens then Inr (backup_corrupt_file copies st)
             else (case load_content content of
                     Loaded m n \<Rightarrow> Inr (st\<lparr>fts_tasks := m, fts_pending := n\<rparr>)
                   | Corrupt n \<Rightarrow> Inr (backup_corrupt_file copies (st\<lparr>fts_pending := n\<rparr>))
                   | LoadThrows e \<Rightarrow> Inl e))"

end
