(* ===== verification/Task_Journal.thy ===== *)
theory Task_Journal
  imports Task_Store Sorted_Maps
begin

text \<open>
  What the file of a task store means.  A journal is a list of entries, one per line; its meaning is the
  map obtained by applying them in order.  Loading a journal gives its meaning, also when its last line
  was torn by a crash, and a store whose writes succeed keeps a journal of its tasks in the file.
\<close>

section \<open>Entries\<close>

datatype journal_entry = Saved string task_state | Removed string

fun entry_json :: "journal_entry \<Rightarrow> json" where
  "entry_json (Saved i t) = record_json i t"
| "entry_json (Removed i) = removal_json i"

fun apply_entry :: "journal_entry \<Rightarrow> (string, task_state) amap \<Rightarrow> (string, task_state) amap" where
  "apply_entry (Saved i t) m = amap_put i t m"
| "apply_entry (Removed i) m = amap_erase i m"

fun entry_weight :: "journal_entry \<Rightarrow> nat" where
  "entry_weight (Saved i t) = 1"
| "entry_weight (Removed i) = 0"

definition entry_text :: "journal_entry \<Rightarrow> string" where
  "entry_text e = dump (- 1) (entry_json e)"

definition journal :: "journal_entry list \<Rightarrow> string" where
  "journal es = join_lines (map entry_text es)"

definition tasks_of :: "journal_entry list \<Rightarrow> (string, task_state) amap" where
  "tasks_of es = fold apply_entry es []"

text \<open>An entry a file can carry: the name is not empty, the text is UTF-8, numbers are finite, and values
  are nested less deep than the parser allows.\<close>

fun entry_ok :: "journal_entry \<Rightarrow> bool" where
  "entry_ok (Saved i t) \<longleftrightarrow> i \<noteq> [] \<and> task_codec_ok t \<and> json_ok (record_json i t) \<and>
     json_printable (record_json i t) \<and> json_depth (record_json i t) \<le> max_depth"
| "entry_ok (Removed i) \<longleftrightarrow> i \<noteq> [] \<and> utf8_valid i"

lemma journal_simps [simp]:
  "journal [] = []" "journal (e # es) = entry_text e @ line_break # journal es"
  "journal (es @ fs) = journal es @ journal fs"
  by (simp_all add: journal_def)

lemma tasks_of_simps [simp]: "tasks_of [] = []" "tasks_of (es @ [e]) = apply_entry e (tasks_of es)"
  by (simp_all add: tasks_of_def)

lemma apply_entry_ok [simp]: "amap_ok m \<Longrightarrow> amap_ok (apply_entry e m)"
  by (cases e) simp_all

lemma tasks_of_ok [simp]: "amap_ok (tasks_of es)"
  by (induction es rule: rev_induct) simp_all

lemma entry_text_no_break [simp]: "line_break \<notin> set (entry_text e)"
  by (simp add: entry_text_def)

lemma removal_json_eq: "removal_json i = JObject [(''removed'', JBool True), (''task_id'', JString i)]"
  by (simp add: removal_json_def build_object_def put_def)

lemma entry_container: "is_container (entry_json e)"
  by (cases e) (simp_all add: record_json_def removal_json_def build_object_def)

lemma entry_json_fits:
  "entry_ok e \<Longrightarrow> json_ok (entry_json e) \<and> json_printable (entry_json e) \<and> json_depth (entry_json e) \<le> max_depth"
  by (cases e) (auto simp: removal_json_eq amap_ok_def max_depth_def byte_of_def
      simp flip: utf8_scan_ok_iff)

lemma entry_text_parses: "entry_ok e \<Longrightarrow> parse_document (entry_text e) = Inr (entry_json e)"
  using parse_document_dump [of "entry_json e" "- 1"] entry_json_fits by (simp add: entry_text_def)

lemma entry_text_hd: "\<exists>cs. entry_text e = CHR ''{'' # cs"
  by (cases e) (auto simp: entry_text_def record_json_def removal_json_def build_object_def dump_def put_def)

lemma entry_text_not_Nil [simp]: "entry_text e \<noteq> []"
  using entry_text_hd [of e] by auto

text \<open>A proper, non-empty prefix of the text of an entry does not parse.\<close>

lemma torn_entry: "entry_ok e \<Longrightarrow> k < length (entry_text e) \<Longrightarrow> \<exists>err. parse_document (take k (entry_text e)) = Inl err"
  using torn_text_fails [of "entry_json e" "- 1" "take k (entry_text e)" "drop k (entry_text e)"]
    entry_json_fits [of e] entry_container [of e]
  by (simp add: entry_text_def)

section \<open>Loading a journal\<close>

lemma entry_fields:
  "json_find ''tasks'' (entry_json e) = None"
  "json_find ''task_id'' (record_json i t) = Some (JString i)"
  "json_find ''removed'' (record_json i t) = None"
  "json_find ''state'' (record_json i t) = Some (serialize_task_state t)"
  "json_find ''task_id'' (removal_json i) = Some (JString i)"
  "json_find ''removed'' (removal_json i) = Some (JBool True)"
  by (cases e; simp add: record_json_def removal_json_def codec_simps)
     (simp_all add: record_json_def removal_json_def codec_simps)

lemma is_object_task_state: "is_object (serialize_task_state t)"
  by (simp add: serialize_task_state_def)

lemma load_entry: "entry_ok e \<Longrightarrow> load_record (entry_json e) m n = Loaded (apply_entry e m) (n + entry_weight e)"
  using entry_fields(1) [of e] is_object_task_state task_state_codec.de_ser
  by (cases e) (simp_all add: load_record_def entry_fields)

lemma is_object_entry: "is_object (entry_json e)"
  by (cases e) (simp_all add: record_json_def removal_json_def)

lemma load_entries: "list_all entry_ok es \<Longrightarrow>
    load_lines (map entry_text es @ ls) m n = load_lines ls (fold apply_entry es m) (n + sum_list (map entry_weight es))"
  by (induction es arbitrary: m n) (auto simp: entry_text_parses is_object_entry load_entry ac_simps)

text \<open>What the last piece adds: a whole entry counts although its line was not ended.\<close>

definition torn_tasks :: "journal_entry list \<Rightarrow> journal_entry \<Rightarrow> nat \<Rightarrow> (string, task_state) amap" where
  "torn_tasks es e k = tasks_of (if k < length (entry_text e) then es else es @ [e])"

lemma split_torn:
  "k \<le> length (entry_text e) \<Longrightarrow> split_lines (journal es @ take k (entry_text e)) = map entry_text es @ [take k (entry_text e)]"
  using entry_text_no_break [of e]
  by (auto simp: journal_def intro!: split_join_lines dest: in_set_takeD simp: list_all_iff)

lemma split_journal: "split_lines (journal es) = map entry_text es @ [[]]"
  using split_join_lines [of "map entry_text es" "[]"] by (simp add: journal_def list_all_iff)

lemma load_whole_object:
  "parse_document s = Inr (entry_json e) \<Longrightarrow> load_whole s = ([], False)"
  "parse_document s = Inl err \<Longrightarrow> load_whole s = ([], False)"
  by (simp_all add: load_whole_def entry_fields)

lemma skip_ws_line_break: "skip_ws (line_break # s) = skip_ws s"
  by (simp add: skip_ws_def is_ws_def line_break_def)

text \<open>The whole file is never taken for the older format.\<close>

lemma skip_ws_entry: "skip_ws (entry_text e @ s) = entry_text e @ s"
proof -
  obtain cs where "entry_text e = CHR ''{'' # cs" using entry_text_hd by blast
  moreover have "\<not> is_ws CHR ''{''" by (simp add: is_ws_def chr_def flip: byte_of_inject) (simp add: byte_of_def)
  ultimately show ?thesis by simp
qed

lemma load_whole_entries:
  assumes "entry_ok e"
  shows "load_whole (entry_text e @ s) = ([], False)"
proof -
  obtain cs where hd: "entry_text e = CHR ''{'' # cs" using entry_text_hd by blast
  then have start: "skip_ws (entry_text e) = CHR ''{'' # cs" using skip_ws_entry [of e "[]"] by simp
  show ?thesis
  proof (cases "skip_ws s = []")
    case True
    then have "parse_document (entry_text e @ s) = Inr (entry_json e)"
      using parse_document_append_ws [OF entry_text_parses [OF assms] start] by simp
    then show ?thesis by (rule load_whole_object)
  next
    case False
    then have "\<exists>err. parse_document (entry_text e @ s) = Inl err"
      using parse_document_append [OF entry_text_parses [OF assms] start] by simp
    then show ?thesis using load_whole_object by blast
  qed
qed

lemma load_whole_torn:
  assumes "list_all entry_ok es" "entry_ok e"
  shows "load_whole (journal es @ take k (entry_text e)) = ([], False)"
proof (cases es)
  case (Cons f fs)
  with assms(1) show ?thesis using load_whole_entries [of f] by simp
next
  case Nil
  show ?thesis
  proof (cases "k < length (entry_text e)")
    case True
    then show ?thesis using torn_entry [OF assms(2)] load_whole_object Nil by fastforce
  next
    case False
    then show ?thesis using load_whole_entries [OF assms(2), of "[]"] Nil by simp
  qed
qed

lemma load_content_lines:
  "c \<noteq> [] \<Longrightarrow> load_whole c = ([], False) \<Longrightarrow> load_content c = load_lines (split_lines c) [] 0"
  by (simp add: load_content_def)

theorem load_torn_journal:
  assumes "list_all entry_ok es" "entry_ok e" "k \<le> length (entry_text e)"
  shows "\<exists>n \<le> Suc (length es). load_content (journal es @ take k (entry_text e)) = Loaded (torn_tasks es e k) n"
proof -
  have weight: "sum_list (map entry_weight fs) \<le> length fs" for fs
  proof (induction fs)
    case (Cons f fs)
    then show ?case by (cases f) auto
  qed simp
  show ?thesis
  proof (cases "journal es @ take k (entry_text e) = []")
    case True
    then have "es = []" "k = 0" by (cases es; simp)+
    then show ?thesis by (simp add: load_content_def torn_tasks_def)
  next
    case False
    let ?t = "take k (entry_text e)"
    have "load_content (journal es @ ?t) = load_lines (map entry_text es @ [?t]) [] 0"
      using load_content_lines [OF False load_whole_torn [OF assms(1,2)]] by (simp only: split_torn [OF assms(3)])
    also have "\<dots> = load_lines [?t] (tasks_of es) (sum_list (map entry_weight es))"
      using load_entries [OF assms(1)] by (simp add: tasks_of_def)
    finally have load: "load_content (journal es @ ?t) = \<dots>" .
    show ?thesis
    proof (cases "k < length (entry_text e)")
      case True
      then obtain err where "parse_document ?t = Inl err" using torn_entry [OF assms(2)] by blast
      with True show ?thesis using weight [of es] by (auto simp: load torn_tasks_def intro: le_SucI)
    next
      case False
      then show ?thesis
        using load assms(2) weight [of "es @ [e]"] by (simp add: torn_tasks_def entry_text_parses is_object_entry load_entry)
    qed
  qed
qed

theorem load_journal:
  assumes "list_all entry_ok es"
  shows "\<exists>n. load_content (journal es) = Loaded (tasks_of es) n"
proof (cases es)
  case Nil
  then show ?thesis by (simp add: load_content_def)
next
  case (Cons e fs)
  then have "load_content (journal es) = load_lines (map entry_text es @ [[]]) [] 0"
    using assms load_whole_entries [of e] split_journal [of es] by (simp add: load_content_def)
  then show ?thesis using load_entries [OF assms] by (simp add: tasks_of_def)
qed

section \<open>The store keeps a journal\<close>

text \<open>The file is a journal of the tasks, and each of them can be written.\<close>

definition tasks_ok :: "(string, task_state) amap \<Rightarrow> bool" where
  "tasks_ok m \<longleftrightarrow> amap_ok m \<and> list_all (\<lambda>(i, t). entry_ok (Saved i t)) m"

definition journaled :: "file_task_store \<Rightarrow> journal_entry list \<Rightarrow> bool" where
  "journaled st es \<longleftrightarrow> list_all entry_ok es \<and> tasks_of es = fts_tasks st \<and> file_content st = journal es"

definition compacted :: "(string, task_state) amap \<Rightarrow> journal_entry list" where
  "compacted m = map (\<lambda>(i, t). Saved i t) m"

lemma tasks_of_compacted: "amap_ok m \<Longrightarrow> tasks_of (compacted m) = m"
proof -
  have "amap_ok (p @ m) \<Longrightarrow> fold apply_entry (compacted m) p = p @ m" for p
  proof (induction m arbitrary: p)
    case (Cons kv m)
    obtain i t where kv: "kv = (i, t)" by (cases kv)
    have "\<forall>k' \<in> fst ` set p. k' < i" using Cons.prems by (auto simp: kv amap_ok_def sorted_wrt_append)
    then have "amap_put i t p = p @ [kv]" by (simp add: kv amap_put_greatest)
    with Cons.IH [of "p @ [kv]"] Cons.prems show ?case by (simp add: compacted_def kv)
  qed (simp add: compacted_def)
  from this [of "[]"] show "amap_ok m \<Longrightarrow> tasks_of (compacted m) = m" by (simp add: tasks_of_def)
qed

lemma journaled_compact:
  assumes "tasks_ok (fts_tasks st)"
  shows "journaled (fst (compact_locked True st)) (compacted (fts_tasks st))"
  using assms tasks_of_compacted
  by (auto simp: journaled_def compact_locked_def tasks_ok_def compacted_def journal_def file_content_def
      entry_text_def serialize_record_def list_all_iff intro!: arg_cong [of _ _ join_lines])

text \<open>An append that is written, and compacted if it is due, keeps the journal of the new tasks.\<close>

lemma append_record_written:
  assumes j: "list_all entry_ok es" "file_content st = journal es"
    and e: "entry_ok (Saved i t)" "apply_entry (Saved i t) (tasks_of es) = fts_tasks st" "tasks_ok (fts_tasks st)"
  shows "snd (append_record (Written, True) i t st) \<and> fts_tasks (fst (append_record (Written, True) i t st)) = fts_tasks st \<and>
    (\<exists>fs. journaled (fst (append_record (Written, True) i t st)) fs)"
proof -
  let ?st = "st\<lparr>fts_file := Some (journal (es @ [Saved i t])), fts_pending := fts_pending st + 1\<rparr>"
  have app: "append_text Written (serialize_record i t @ [line_break]) st = (?st, True)"
    using j(2) by (simp add: append_text_def serialize_record_def entry_text_def)
  have "journaled ?st (es @ [Saved i t])" using j e by (simp add: journaled_def file_content_def)
  moreover have "journaled (fst (compact_locked True ?st)) (compacted (fts_tasks ?st))"
    using e by (intro journaled_compact) simp
  ultimately show ?thesis by (auto simp: append_record_def app compact_locked_def)
qed

section \<open>Operations\<close>

datatype task_op =
    OpCreate string string "i64 option"
  | OpUpdate string "json option"
  | OpCancel string "string option"
  | OpSetStatus string task_status
  | OpFail string json
  | OpSetOwner string string
  | OpSetTtl string i64
  | OpAdvance string json
  | OpPark string input_requests
  | OpBind string string "json option"
  | OpRemove string

fun op_task :: "task_op \<Rightarrow> string" where
  "op_task (OpCreate i owner ttl) = i" | "op_task (OpUpdate i r) = i" | "op_task (OpCancel i r) = i"
| "op_task (OpSetStatus i s) = i" | "op_task (OpFail i p) = i" | "op_task (OpSetOwner i owner) = i"
| "op_task (OpSetTtl i ttl) = i" | "op_task (OpAdvance i r) = i" | "op_task (OpPark i r) = i"
| "op_task (OpBind i tool a) = i" | "op_task (OpRemove i) = i"

text \<open>The change of a task, for the operations on an existing one.\<close>

fun op_change :: "int \<Rightarrow> task_op \<Rightarrow> task_state \<Rightarrow> task_state option" where
  "op_change now (OpUpdate i result) = updated_task now result"
| "op_change now (OpCancel i reason) = cancelled_task now reason"
| "op_change now (OpSetStatus i status) = task_with_status now status"
| "op_change now (OpFail i payload) = failed_task now payload"
| "op_change now (OpSetOwner i owner) = (\<lambda>t. Some (t\<lparr>ts_owner := owner\<rparr>))"
| "op_change now (OpSetTtl i ttl) = (\<lambda>t. Some (t\<lparr>ts_ttl_ms := Some ttl\<rparr>))"
| "op_change now (OpAdvance i responses) = task_with_input now responses"
| "op_change now (OpPark i requests) = parked_task now requests"
| "op_change now (OpBind i tool args) = (\<lambda>t. Some (t\<lparr>ts_tool_name := Some tool, ts_tool_arguments := args\<rparr>))"
| "op_change now op = (\<lambda>t. None)"

text \<open>One call: the new store, and what it returns or throws.\<close>

fun run_op :: "store_io \<Rightarrow> int \<Rightarrow> task_op \<Rightarrow> file_task_store \<Rightarrow> file_task_store \<times> bool mres" where
  "run_op io now (OpCreate i owner ttl) st =
     (let (st', r) = create_task io now i owner ttl st in (st', rmap (\<lambda>_. True) r))"
| "run_op io now (OpUpdate i result) st = update_task io now i result st"
| "run_op io now (OpCancel i reason) st = cancel_task io now i reason st"
| "run_op io now (OpSetStatus i status) st = set_task_status io now i status st"
| "run_op io now (OpFail i payload) st = fail_task io now i payload st"
| "run_op io now (OpSetOwner i owner) st = set_task_owner io i owner st"
| "run_op io now (OpSetTtl i ttl) st = set_task_ttl io i ttl st"
| "run_op io now (OpAdvance i responses) st = advance_task_with_input io now i responses st"
| "run_op io now (OpPark i requests) st = park_task_for_input io now i requests st"
| "run_op io now (OpBind i tool args) st = bind_task_tool io i tool args st"
| "run_op io now (OpRemove i) st = remove_task io i st"

text \<open>Every operation creates, modifies or removes.\<close>

lemma run_op_modify:
  "(\<forall>i owner ttl. op \<noteq> OpCreate i owner ttl) \<Longrightarrow> (\<forall>i. op \<noteq> OpRemove i) \<Longrightarrow>
     run_op io now op st = modify_task io (op_task op) (op_change now op) st"
  by (cases op) (simp_all add: update_task_def cancel_task_def set_task_status_def fail_task_def
      set_task_owner_def set_task_ttl_def advance_task_with_input_def park_task_for_input_def bind_task_tool_def)

lemma run_op_cases [case_names create remove modify]:
  assumes "\<And>i owner ttl. op = OpCreate i owner ttl \<Longrightarrow> thesis" "\<And>i. op = OpRemove i \<Longrightarrow> thesis"
    "(\<And>io now st. run_op io now op st = modify_task io (op_task op) (op_change now op) st) \<Longrightarrow> thesis"
  shows thesis
  using assms run_op_modify [of op] by metis

text \<open>Appending leaves the tasks alone.\<close>

lemma append_tasks [simp]:
  "fts_tasks (fst (append_text io x st)) = fts_tasks st"
  "fts_tasks (fst (compact_locked b st)) = fts_tasks st"
  "fts_tasks (fst (append_removal io2 i st)) = fts_tasks st"
  by (auto simp: append_text_def compact_locked_def append_removal_def split: append_io.split)

lemma append_record_tasks [simp]: "fts_tasks (fst (append_record io i t st)) = fts_tasks st"
proof -
  obtain st' ok where a: "append_text (fst io) (serialize_record i t @ [line_break]) st = (st', ok)" by fastforce
  then have "fts_tasks st' = fts_tasks st" using append_tasks(1) by (metis fst_conv)
  with a show ?thesis by (simp add: append_record_def)
qed

lemma modify_task_cases [consumes 1, case_names refused stored undone]:
  assumes "modify_task io i f st = (st', r)"
  obtains "st' = st" "r = Inr False"
    | t t' where "amap_find i (fts_tasks st) = Some t" "f t = Some t'" "r = Inr True"
        "append_record io i t' (put_task i t' st) = (st', True)"
    | t t' st1 where "amap_find i (fts_tasks st) = Some t" "f t = Some t'" "r = persist_failed i"
        "append_record io i t' (put_task i t' st) = (st1, False)" "st' = put_task i t st1"
  using assms by (auto simp: modify_task_def Let_def split: option.splits prod.splits if_splits)

text \<open>An operation that throws leaves the tasks as they were.\<close>

lemma persist_failed_neq [simp]: "persist_failed i \<noteq> Inr x"
  by (simp add: persist_failed_def)

theorem failed_op_keeps_tasks:
  assumes "amap_ok (fts_tasks st)" "run_op io now op st = (st', Inl e)"
  shows "fts_tasks st' = fts_tasks st"
proof (cases op rule: run_op_cases)
  case (create i owner ttl)
  define t where "t = created_task now i owner ttl"
  show ?thesis
  proof (cases "amap_find i (fts_tasks st)")
    case (Some u)
    then show ?thesis using assms(2) create by (simp add: create_task_def Let_def throw_def)
  next
    case None
    obtain st1 ok where a: "append_record io i t (put_task i t st) = (st1, ok)" by fastforce
    then have "fts_tasks st1 = amap_put i t (fts_tasks st)"
      using append_record_tasks [of io i t "put_task i t st"] by (simp add: put_task_def)
    then show ?thesis
      using None assms create a amap_put_fresh_erase [OF assms(1) None, of t]
      by (auto simp: create_task_def Let_def t_def split: if_splits)
  qed
next
  case (remove i)
  obtain st1 ok where a: "append_removal io i st = (st1, ok)" by fastforce
  then have "fts_tasks st1 = fts_tasks st" using append_tasks(3) [of io i st] by simp
  then show ?thesis using assms(2) remove a by (auto simp: remove_task_def split: if_splits)
next
  case modify
  then have "modify_task io (op_task op) (op_change now op) st = (st', Inl e)" using assms(2) by simp
  then show ?thesis
  proof (cases rule: modify_task_cases)
    case (undone t t' st1)
    then have "fts_tasks st1 = amap_put (op_task op) t' (fts_tasks st)"
      using append_record_tasks [of io "op_task op" t' "put_task (op_task op) t' st"] by (simp add: put_task_def)
    with undone assms(1) show ?thesis by (simp add: put_task_def)
  qed simp_all
qed

section \<open>What an operation writes\<close>

definition op_entry :: "int \<Rightarrow> task_op \<Rightarrow> file_task_store \<Rightarrow> journal_entry option" where
  "op_entry now op st =
     (case (op, amap_find (op_task op) (fts_tasks st)) of
        (OpCreate i owner ttl, None) \<Rightarrow> Some (Saved i (created_task now i owner ttl))
      | (OpCreate i owner ttl, Some t) \<Rightarrow> None
      | (OpRemove i, Some t) \<Rightarrow> Some (Removed i)
      | (_, None) \<Rightarrow> None
      | (_, Some t) \<Rightarrow> map_option (Saved (op_task op)) (op_change now op t))"

lemma op_entry_modify:
  "(\<And>io now st. run_op io now op st = modify_task io (op_task op) (op_change now op) st) \<Longrightarrow>
   (\<forall>i owner ttl. op \<noteq> OpCreate i owner ttl) \<Longrightarrow> (\<forall>i. op \<noteq> OpRemove i) \<Longrightarrow>
     op_entry now op st = (case amap_find (op_task op) (fts_tasks st) of None \<Rightarrow> None
       | Some t \<Rightarrow> map_option (Saved (op_task op)) (op_change now op t))"
  by (cases op) (simp_all add: op_entry_def split: option.split)

lemma op_cases [case_names create remove modify]:
  assumes "\<And>i owner ttl. op = OpCreate i owner ttl \<Longrightarrow> thesis" "\<And>i. op = OpRemove i \<Longrightarrow> thesis"
    "(\<And>io now st. run_op io now op st = modify_task io (op_task op) (op_change now op) st) \<Longrightarrow>
     (\<And>now st. op_entry now op st = (case amap_find (op_task op) (fts_tasks st) of None \<Rightarrow> None
       | Some t \<Rightarrow> map_option (Saved (op_task op)) (op_change now op t))) \<Longrightarrow> thesis"
  shows thesis
proof (cases "(\<forall>i owner ttl. op \<noteq> OpCreate i owner ttl) \<and> (\<forall>i. op \<noteq> OpRemove i)")
  case True
  then show ?thesis using assms(3) run_op_modify [of op] op_entry_modify [of op] by metis
qed (use assms(1,2) in blast)

lemma op_silent: "op_entry now op st = None \<Longrightarrow> fst (run_op io now op st) = st"
  by (cases op rule: op_cases)
     (auto simp: op_entry_def create_task_def remove_task_def modify_task_def split: option.splits)

lemma record_text: "serialize_record i t = entry_text (Saved i t)" "serialize_removal i = entry_text (Removed i)"
  by (simp_all add: serialize_record_def serialize_removal_def entry_text_def)

lemma content_put [simp]: "file_content (put_task i t st) = file_content st" "fts_file (put_task i t st) = fts_file st"
  "fts_tasks (put_task i t st) = amap_put i t (fts_tasks st)" "put_task i t (put_task i u st) =
     st\<lparr>fts_tasks := amap_put i t (amap_put i u (fts_tasks st))\<rparr>"
  by (simp_all add: put_task_def file_content_def)

lemma append_record_fails:
  "append_record (NotOpened, b) i t st = (st, False)"
  "append_record (Torn k, b) i t st =
     (st\<lparr>fts_file := Some (file_content st @ take k (entry_text (Saved i t) @ [line_break]))\<rparr>, False)"
  by (simp_all add: append_record_def append_text_def record_text)

lemma op_not_opened:
  assumes "amap_ok (fts_tasks st)"
  shows "fst (run_op (NotOpened, b) now op st) = st"
proof (cases op rule: op_cases)
  case (create i owner ttl)
  with assms show ?thesis
    by (cases "amap_find i (fts_tasks st)")
       (simp_all add: create_task_def append_record_fails amap_put_fresh_erase put_task_def)
next
  case (remove i)
  then show ?thesis by (simp add: remove_task_def append_removal_def append_text_def)
next
  case modify
  with assms show ?thesis
    by (auto simp: modify_task_def append_record_fails put_task_def split: option.split)
qed

lemma op_torn:
  assumes "amap_ok (fts_tasks st)" "op_entry now op st = Some e"
  shows "fts_file (fst (run_op (Torn k, b) now op st)) = Some (file_content st @ take k (entry_text e @ [line_break]))"
proof (cases op rule: op_cases)
  case (create i owner ttl)
  with assms show ?thesis
    by (cases "amap_find i (fts_tasks st)")
       (auto simp: op_entry_def create_task_def append_record_fails put_task_def file_content_def)
next
  case (remove i)
  with assms show ?thesis
    by (auto simp: op_entry_def remove_task_def append_removal_def append_text_def record_text split: option.splits)
next
  case modify
  with assms show ?thesis
    by (auto simp: modify_task_def append_record_fails put_task_def file_content_def split: option.splits)
qed

lemma journaled_removal:
  assumes "journaled st es" "entry_ok (Removed i)"
  shows "append_removal (Written, b) i st = (st\<lparr>fts_file := Some (journal (es @ [Removed i])), fts_pending := fts_pending st + 1\<rparr>, True)"
  using assms by (simp add: append_removal_def append_text_def record_text journaled_def)

lemma op_written:
  assumes j: "journaled st es" "amap_ok (fts_tasks st)" and e: "op_entry now op st = Some e" "entry_ok e"
    and ok: "tasks_ok (apply_entry e (fts_tasks st))"
  shows "fts_tasks (fst (run_op (Written, True) now op st)) = apply_entry e (fts_tasks st) \<and>
    (\<exists>fs. journaled (fst (run_op (Written, True) now op st)) fs)"
proof -
  have es: "list_all entry_ok es" "file_content st = journal es" "tasks_of es = fts_tasks st"
    using j(1) by (simp_all add: journaled_def)
  have app: "\<exists>st' fs. append_record (Written, True) i t (put_task i t st) = (st', True) \<and>
      fts_tasks st' = apply_entry e (fts_tasks st) \<and> journaled st' fs" if "e = Saved i t" for i t
    using append_record_written [of es "put_task i t st" i t] es e(2) ok that
    by (cases "append_record (Written, True) i t (put_task i t st)") auto
  show ?thesis
  proof (cases op rule: op_cases)
    case (create i owner ttl)
    then show ?thesis
      using e(1) app [of i "created_task now i owner ttl"]
      by (auto simp: op_entry_def create_task_def split: option.splits)
  next
    case (remove i)
    then have i: "e = Removed i" "amap_find i (fts_tasks st) \<noteq> None"
      using e(1) by (auto simp: op_entry_def split: option.splits)
    then have "journaled (fst (run_op (Written, True) now op st)) (es @ [Removed i])"
      using remove es e(2) journaled_removal [OF j(1), of i]
      by (simp add: remove_task_def) (simp add: journaled_def file_content_def)
    moreover have "fts_tasks (fst (run_op (Written, True) now op st)) = apply_entry e (fts_tasks st)"
      using remove i e(2) journaled_removal [OF j(1), of i] by (simp add: remove_task_def)
    ultimately show ?thesis by blast
  next
    case modify
    then obtain t t' where "amap_find (op_task op) (fts_tasks st) = Some t" "op_change now op t = Some t'"
        "e = Saved (op_task op) t'"
      using e(1) by (auto split: option.splits)
    then show ?thesis using modify app [of "op_task op" t'] by (auto simp: modify_task_def)
  qed
qed

section \<open>A task that has ended\<close>

lemma op_change_final:
  "is_terminal_status (ts_status t) \<Longrightarrow> op_change now op t = Some t' \<Longrightarrow>
     ts_status t' = ts_status t \<and> ts_result t' = ts_result t"
  by (cases op)
     (auto simp: updated_task_def cancelled_task_def task_with_status_def failed_task_def task_with_input_def
       parked_task_def stamped_def is_terminal_status_def task_status_defs split: if_splits)

lemma run_op_other:
  assumes "amap_ok (fts_tasks st)" "op_task op \<noteq> i"
  shows "amap_find i (fts_tasks (fst (run_op io now op st))) = amap_find i (fts_tasks st)"
proof (cases op rule: op_cases)
  case (create j owner ttl)
  define t where "t = created_task now j owner ttl"
  obtain st1 ok where a: "append_record io j t (put_task j t st) = (st1, ok)" by fastforce
  then have "fts_tasks st1 = amap_put j t (fts_tasks st)"
    using append_record_tasks [of io j t "put_task j t st"] by simp
  with create a assms show ?thesis by (simp add: create_task_def flip: t_def)
next
  case (remove j)
  obtain st1 ok where a: "append_removal io j st = (st1, ok)" by fastforce
  then have "fts_tasks st1 = fts_tasks st" using append_tasks(3) [of io j st] by simp
  with remove a assms show ?thesis by (simp add: remove_task_def)
next
  case modify
  obtain st' r where m: "modify_task io (op_task op) (op_change now op) st = (st', r)" by fastforce
  moreover from m have "amap_find i (fts_tasks st') = amap_find i (fts_tasks st)"
  proof (cases rule: modify_task_cases)
    case (stored t t')
    then show ?thesis
      using append_record_tasks [of io "op_task op" t' "put_task (op_task op) t' st"] assms by simp
  next
    case (undone t t' st1)
    then show ?thesis
      using append_record_tasks [of io "op_task op" t' "put_task (op_task op) t' st"] assms by simp
  qed simp
  ultimately show ?thesis using modify by simp
qed

text \<open>C35: a task that has completed, failed or been cancelled keeps its status and its result under every
  operation of the store, whatever the file system does, until it is removed.\<close>

theorem terminal_status_final:
  assumes ok: "amap_ok (fts_tasks st)" and t: "get_task i st = Some t" "is_terminal_status (ts_status t)"
  shows "op = OpRemove i \<or>
    (\<exists>t'. get_task i (fst (run_op io now op st)) = Some t' \<and> ts_status t' = ts_status t \<and> ts_result t' = ts_result t)"
proof (cases "op_task op = i")
  case False
  then show ?thesis using run_op_other [OF ok] t by (auto simp: get_task_def)
next
  case True
  show ?thesis
  proof (cases op rule: op_cases)
    case (create j owner ttl)
    with True t show ?thesis by (simp add: create_task_def get_task_def)
  next
    case (remove j)
    with True show ?thesis by simp
  next
    case modify
    obtain st' r where m: "modify_task io i (op_change now op) st = (st', r)" by fastforce
    moreover from m have "\<exists>t'. get_task i st' = Some t' \<and> ts_status t' = ts_status t \<and> ts_result t' = ts_result t"
    proof (cases rule: modify_task_cases)
      case refused
      with t show ?thesis by simp
    next
      case (stored u t')
      then show ?thesis
        using append_record_tasks [of io i t' "put_task i t' st"] t op_change_final [of t now op t']
        by (simp add: get_task_def)
    next
      case (undone u t' st1)
      then show ?thesis
        using append_record_tasks [of io i t' "put_task i t' st"] t by (simp add: get_task_def)
    qed
    ultimately show ?thesis using modify True by simp
  qed
qed

definition sample_done :: file_task_store where
  "sample_done = \<lparr>fts_tasks = [(''a'', new_task_state\<lparr>ts_task_id := ''a'', ts_status := TaskCompleted\<rparr>)],
     fts_pending = 1, fts_file = None, fts_backup = None\<rparr>"

theorem terminal_status_final_witness:
  "\<exists>t'. get_task ''a'' (fst (run_op (Written, True) 7 (OpCancel ''a'' None) sample_done)) = Some t' \<and>
     ts_status t' = TaskCompleted"
proof -
  have "OpCancel ''a'' None = OpRemove ''a'' \<or>
    (\<exists>t'. get_task ''a'' (fst (run_op (Written, True) 7 (OpCancel ''a'' None) sample_done)) = Some t' \<and>
      ts_status t' = ts_status (new_task_state\<lparr>ts_task_id := ''a'', ts_status := TaskCompleted\<rparr>) \<and>
      ts_result t' = ts_result (new_task_state\<lparr>ts_task_id := ''a'', ts_status := TaskCompleted\<rparr>))"
    by (rule terminal_status_final) (simp_all add: sample_done_def get_task_def is_terminal_status_def)
  then show ?thesis by auto
qed

section \<open>Restarting\<close>

text \<open>A store in use: it starts on a file that does not exist, every append is written (and compacted when due)
  or fails to open the file, and it may be flushed and opened again at any time.  Tasks have values a file can
  carry.\<close>

inductive store_run :: "file_task_store \<Rightarrow> bool" where
  fresh: "open_task_store opens copies None backup = Inr st \<Longrightarrow> store_run st"
| operation: "store_run st \<Longrightarrow> run_op (Written, True) now op st = (st', r) \<Longrightarrow> op_task op \<noteq> [] \<Longrightarrow>
    tasks_ok (fts_tasks st') \<Longrightarrow> store_run st'"
| unwritable: "store_run st \<Longrightarrow> run_op (NotOpened, b) now op st = (st', r) \<Longrightarrow> store_run st'"
| flushed: "store_run st \<Longrightarrow> flush_tasks b st = (st', ok) \<Longrightarrow> store_run st'"
| reopened: "store_run st \<Longrightarrow> open_task_store True copies (fts_file st) (fts_backup st) = Inr st' \<Longrightarrow> store_run st'"

lemma removed_ok: "entry_ok (Saved i t) \<Longrightarrow> entry_ok (Removed i)"
  by (simp add: record_json_def build_object_def put_def)

lemma tasks_ok_removal: "tasks_ok m \<Longrightarrow> amap_find i m \<noteq> None \<Longrightarrow> entry_ok (Removed i)"
  using removed_ok by (fastforce simp: tasks_ok_def list_all_iff dest: amap_find_Some_in)

lemma tasks_ok_saved: "tasks_ok m \<Longrightarrow> amap_find i m = Some t \<Longrightarrow> entry_ok (Saved i t)"
  by (fastforce simp: tasks_ok_def list_all_iff dest: amap_find_Some_in)

lemma op_entry_tasks:
  assumes "op_entry now op st = Some e" "amap_ok (fts_tasks st)"
  shows "fts_tasks (fst (run_op (Written, True) now op st)) = apply_entry e (fts_tasks st)"
proof -
  have rec: "\<exists>st'. append_record (Written, True) i t u = (st', True) \<and> fts_tasks st' = fts_tasks u" for i t u
    by (auto simp: append_record_def append_text_def compact_locked_def Let_def)
  show ?thesis
  proof (cases op rule: op_cases)
    case (create i owner ttl)
    define t where "t = created_task now i owner ttl"
    show ?thesis
      using assms(1) rec [of i t "put_task i t st"] create
      by (auto simp: op_entry_def create_task_def t_def split: option.splits)
  next
    case (remove i)
    with assms(1) show ?thesis
      by (auto simp: op_entry_def remove_task_def append_removal_def append_text_def split: option.splits)
  next
    case modify
    then obtain t t' where "amap_find (op_task op) (fts_tasks st) = Some t" "op_change now op t = Some t'"
        "e = Saved (op_task op) t'"
      using assms(1) by (auto split: option.splits)
    then show ?thesis
      using modify rec [of "op_task op" t' "put_task (op_task op) t' st"] by (auto simp: modify_task_def)
  qed
qed

lemma op_entry_ok:
  assumes "op_entry now op st = Some e" "tasks_ok (fts_tasks st)" "tasks_ok (apply_entry e (fts_tasks st))"
  shows "entry_ok e"
proof (cases e)
  case (Saved i t)
  then have "amap_find i (apply_entry e (fts_tasks st)) = Some t" by simp
  with assms(3) Saved tasks_ok_saved show ?thesis by blast
next
  case (Removed i)
  then have "amap_find i (fts_tasks st) \<noteq> None"
    using assms(1) by (cases op) (auto simp: op_entry_def split: option.splits)
  with assms(2) Removed tasks_ok_removal show ?thesis by blast
qed

lemma open_journaled:
  assumes "journaled st es"
  shows "\<exists>n. open_task_store True copies (fts_file st) backup =
    Inr (\<lparr>fts_tasks = fts_tasks st, fts_pending = n, fts_file = fts_file st, fts_backup = backup\<rparr>)"
proof (cases "fts_file st")
  case None
  then have "es = []" using assms by (cases es) (auto simp: journaled_def file_content_def)
  then have "fts_tasks st = []" using assms by (simp add: journaled_def)
  with None show ?thesis by (simp add: open_task_store_def)
next
  case (Some c)
  then have "c = journal es" "list_all entry_ok es" "tasks_of es = fts_tasks st"
    using assms by (simp_all add: journaled_def file_content_def)
  then show ?thesis using load_journal [of es] Some by (auto simp: open_task_store_def)
qed

lemma store_run_journaled: "store_run st \<Longrightarrow> tasks_ok (fts_tasks st) \<and> (\<exists>es. journaled st es)"
proof (induction rule: store_run.induct)
  case (fresh opens copies backup st)
  then have "journaled st []" by (auto simp: open_task_store_def journaled_def file_content_def)
  with fresh show ?case by (auto simp: open_task_store_def tasks_ok_def)
next
  case (operation st now op st' r)
  then obtain es where es: "journaled st es" "tasks_ok (fts_tasks st)" by blast
  show ?case
  proof (cases "op_entry now op st")
    case None
    then show ?thesis using op_silent [of now op st "(Written, True)"] operation es by auto
  next
    case (Some e)
    have "amap_ok (fts_tasks st)" using es by (simp add: tasks_ok_def)
    moreover from this have "fts_tasks st' = apply_entry e (fts_tasks st)"
      using op_entry_tasks [OF Some] operation.hyps by simp
    ultimately show ?thesis
      using op_written [OF es(1) _ Some] op_entry_ok [OF Some es(2)] operation.hyps by simp
  qed
next
  case (unwritable st b now op st' r)
  then show ?case using op_not_opened [of st b now op] by (auto simp: tasks_ok_def)
next
  case (flushed st b st' ok)
  then show ?case
    using journaled_compact [of st] by (cases b) (auto simp: flush_tasks_def compact_locked_def)
next
  case (reopened st copies st')
  then obtain es where "journaled st es" by blast
  with reopened show ?case using open_journaled [of st es copies "fts_backup st"] by (auto simp: journaled_def file_content_def)
qed

lemma store_run_reopens:
  assumes "store_run st"
  shows "\<exists>st'. open_task_store True copies (fts_file st) backup = Inr st' \<and> fts_tasks st' = fts_tasks st"
  using store_run_journaled [OF assms] open_journaled by fastforce

text \<open>C36: opening the file again after any such run gives the tasks the store had.\<close>

theorem reopen_restores_tasks:
  assumes "store_run st"
  shows "\<exists>st'. open_task_store True copies (fts_file st) backup = Inr st' \<and> fts_tasks st' = fts_tasks st"
  using assms by (rule store_run_reopens)

text \<open>C37: when the process dies while an operation appends its record, after any number of its characters, the
  next start finds the tasks from before the operation or those from after it.\<close>

theorem crash_leaves_before_or_after:
  assumes run: "store_run st" and crash: "run_op (Torn k, b) now op st = (torn, r)"
    and full: "run_op (Written, True) now op st = (done_st, r')" and ok: "tasks_ok (fts_tasks done_st)"
  shows "\<exists>st'. open_task_store True copies (fts_file torn) backup = Inr st' \<and>
    fts_tasks st' \<in> {fts_tasks st, fts_tasks done_st}"
proof -
  obtain es where es: "journaled st es" "tasks_ok (fts_tasks st)" using store_run_journaled [OF run] by blast
  show ?thesis
  proof (cases "op_entry now op st")
    case None
    then have "torn = st" using op_silent [of now op st "(Torn k, b)"] crash by simp
    then show ?thesis using store_run_reopens [OF run] by fastforce
  next
    case (Some e)
    have amap: "amap_ok (fts_tasks st)" using es by (simp add: tasks_ok_def)
    have tasks: "fts_tasks done_st = apply_entry e (fts_tasks st)"
      using op_entry_tasks [OF Some amap] full by simp
    then have e: "entry_ok e" using op_entry_ok [OF Some es(2)] ok by simp
    have content: "fts_file torn = Some (journal es @ take k (entry_text e @ [line_break]))"
      using op_torn [OF amap Some, of k b] crash es(1) by (simp add: journaled_def)
    have all: "list_all entry_ok es" "tasks_of es = fts_tasks st" using es(1) by (simp_all add: journaled_def)
    have "\<exists>n m. load_content (journal es @ take k (entry_text e @ [line_break])) = Loaded m n \<and>
        m \<in> {fts_tasks st, fts_tasks done_st}"
    proof (cases "k \<le> length (entry_text e)")
      case True
      then show ?thesis
        using load_torn_journal [OF all(1) e True] all(2) tasks by (auto simp: torn_tasks_def)
    next
      case False
      then show ?thesis
        using load_journal [of "es @ [e]"] all e tasks by auto
    qed
    then show ?thesis by (auto simp: content open_task_store_def)
  qed
qed

section \<open>A run\<close>

definition empty_store :: file_task_store where
  "empty_store = \<lparr>fts_tasks = [], fts_pending = 0, fts_file = None, fts_backup = None\<rparr>"

definition one_task :: file_task_store where
  "one_task = fst (run_op (Written, True) 7 (OpCreate ''a'' [] None) empty_store)"

lemma created_a_ok: "entry_ok (Saved ''a'' (created_task 7 ''a'' [] None))"
  by (simp add: record_json_def serialize_task_state_def build_object_def put_def put_opt_def created_task_def
      new_task_state_def task_codec_ok_def make_millis_def dec_int_def dec_nat.simps digit_char_def
      amap_ok_def max_depth_def f64_finite_def f64_exp_def f64_mag_def byte_of_def chr_def flip: utf8_scan_ok_iff)

lemma one_task_run: "store_run one_task" "fts_tasks one_task = [(''a'', created_task 7 ''a'' [] None)]"
proof -
  show tasks: "fts_tasks one_task = [(''a'', created_task 7 ''a'' [] None)]"
    using op_entry_tasks [of 7 "OpCreate ''a'' [] None" empty_store]
    by (simp add: one_task_def op_entry_def empty_store_def)
  have start: "store_run empty_store"
    by (rule store_run.fresh [of True True None]) (simp add: open_task_store_def empty_store_def)
  have "run_op (Written, True) 7 (OpCreate ''a'' [] None) empty_store =
      (one_task, snd (run_op (Written, True) 7 (OpCreate ''a'' [] None) empty_store))"
    by (simp add: one_task_def)
  then show "store_run one_task"
    by (rule store_run.operation [OF start]) (use created_a_ok in \<open>simp_all add: tasks tasks_ok_def\<close>)
qed

theorem reopen_restores_tasks_witness:
  "\<exists>st'. open_task_store True True (fts_file one_task) None = Inr st' \<and>
     fts_tasks st' = [(''a'', created_task 7 ''a'' [] None)]"
  using reopen_restores_tasks [OF one_task_run(1), of True None] by (simp add: one_task_run(2))

theorem crash_leaves_before_or_after_witness:
  "\<exists>st'. open_task_store True True (fts_file (fst (run_op (Torn 9, True) 8 (OpRemove ''a'') one_task))) None = Inr st' \<and>
     fts_tasks st' \<in> {[(''a'', created_task 7 ''a'' [] None)], []}"
proof -
  let ?done = "run_op (Written, True) 8 (OpRemove ''a'') one_task"
  have tasks: "fts_tasks (fst ?done) = []"
    using op_entry_tasks [of 8 "OpRemove ''a''" one_task] by (simp add: op_entry_def one_task_run)
  show ?thesis
    using crash_leaves_before_or_after [OF one_task_run(1) prod.collapse [symmetric] prod.collapse [symmetric],
        where op = "OpRemove ''a''" and now = 8 and k = 9 and b = True and copies = True and backup = None] tasks
    by (simp add: tasks_ok_def one_task_run)
qed

section \<open>After a crash\<close>

text \<open>A record torn after its first key, and another record behind it on the same line.\<close>

definition torn_key :: string where
  "torn_key = CHR ''{'' # append_escaped_string ''state'' @ '':''"

lemma torn_key_text:
  "entry_text (Saved i t) = torn_key @ drop 9 (entry_text (Saved i t))" "length torn_key = 9"
  "dump (- 1) (JObject [(''state'', j)]) = torn_key @ dump (- 1) j @ ''}''" "line_break \<notin> set torn_key"
proof -
  have "escape_char c = [c]" if "c \<in> set ''state''" for c
    using that by (auto simp: escape_char_def byte_of_def dquote_def backslash_def chr_def simp flip: byte_of_inject)
  then have key: "append_escaped_string ''state'' = dquote # ''state'' @ [dquote]"
    by (simp add: append_escaped_string_def escape_string_def)
  show "entry_text (Saved i t) = torn_key @ drop 9 (entry_text (Saved i t))"
    by (simp add: entry_text_def record_json_def build_object_def put_def dump_def key torn_key_def)
  show "length torn_key = 9" by (simp add: torn_key_def key)
  show "dump (- 1) (JObject [(''state'', j)]) = torn_key @ dump (- 1) j @ ''}''"
    by (simp add: dump_def torn_key_def)
  show "line_break \<notin> set torn_key" by (simp add: torn_key_def)
qed

lemma take_torn_key: "take 9 (entry_text (Saved i t) @ x) = torn_key" "take 9 (entry_text (Saved i t)) = torn_key"
  by (subst torn_key_text(1); simp add: torn_key_text(2))+

lemma entry_behind_torn_record:
  assumes "entry_ok e" "json_depth (entry_json e) < max_depth"
  shows "\<exists>err. parse_document (torn_key @ entry_text e) = Inl err"
  using torn_text_fails [of "JObject [(''state'', entry_json e)]" "- 1" "torn_key @ entry_text e" "''}''"]
    entry_json_fits [of e] assms
  by (simp add: torn_key_text(3) entry_text_def byte_of_def flip: utf8_scan_ok_iff)

lemma op_written_file:
  assumes "op_entry now op st = Some e" "fts_pending st < min_compact_threshold"
  shows "fts_file (fst (run_op (Written, b) now op st)) = Some (file_content st @ entry_text e @ [line_break])"
proof -
  have rec: "append_record (Written, b) i t (put_task i t st) =
      (put_task i t st\<lparr>fts_file := Some (file_content st @ entry_text (Saved i t) @ [line_break]),
         fts_pending := fts_pending st + 1\<rparr>, True)" for i t
    using assms(2) by (simp add: append_record_def append_text_def record_text) (simp add: put_task_def)
  show ?thesis
  proof (cases op rule: op_cases)
    case (create i owner ttl)
    with assms(1) show ?thesis by (auto simp: op_entry_def create_task_def rec Let_def split: option.splits)
  next
    case (remove i)
    with assms(1) show ?thesis
      by (auto simp: op_entry_def remove_task_def append_removal_def append_text_def record_text split: option.splits)
  next
    case modify
    with assms(1) show ?thesis by (auto simp: modify_task_def rec split: option.splits)
  qed
qed

lemma load_behind_torn_record:
  assumes "list_all entry_ok es" "es \<noteq> []" "entry_ok f" "json_depth (entry_json f) < max_depth"
  shows "\<exists>n. load_content (journal es @ torn_key @ entry_text f @ [line_break]) = Corrupt n"
proof -
  let ?l = "torn_key @ entry_text f"
  let ?c = "journal es @ torn_key @ entry_text f @ [line_break]"
  have "?c = join_lines (map entry_text es @ [?l]) @ []" by (simp add: journal_def)
  then have "split_lines ?c = map entry_text es @ [?l] @ [[]]"
    using split_join_lines [of "map entry_text es @ [?l]" "[]"] by (simp add: list_all_iff torn_key_text(4))
  moreover have "load_whole ?c = ([], False)"
    using assms(1,2) load_whole_entries [of "hd es"] by (cases es) simp_all
  moreover obtain err where "parse_document ?l = Inl err"
    using entry_behind_torn_record [OF assms(3,4)] by blast
  ultimately show ?thesis
    using load_content_lines [of ?c] load_entries [OF assms(1), of "[?l, []]" "[]" 0] by simp
qed

text \<open>The store that starts after such a crash leaves the torn record at the end of the file, so the next
  record is written behind it, on the same line.  If the process ends again before a flush, that line does
  not parse and is not the last one, and the next start drops every task.\<close>

theorem append_after_torn_record_loses_tasks:
  assumes run: "store_run st" and some: "fts_tasks st \<noteq> []"
    and e: "op_entry now op st = Some (Saved i t)" "entry_ok (Saved i t)"
    and torn: "open_task_store True True (fts_file (fst (run_op (Torn 9, b) now op st))) None = Inr st1"
    and f: "op_entry now1 op1 st1 = Some f" "entry_ok f" "json_depth (entry_json f) < max_depth"
    and small: "fts_pending st1 < min_compact_threshold"
  shows "\<exists>st3. fts_tasks st1 = fts_tasks st \<and>
    fts_tasks (fst (run_op (Written, True) now1 op1 st1)) = apply_entry f (fts_tasks st) \<and>
    open_task_store True True (fts_file (fst (run_op (Written, True) now1 op1 st1))) None = Inr st3 \<and> fts_tasks st3 = []"
proof -
  obtain es where es: "journaled st es" "tasks_ok (fts_tasks st)" using store_run_journaled [OF run] by blast
  then have all: "list_all entry_ok es" "tasks_of es = fts_tasks st" "file_content st = journal es"
    by (simp_all add: journaled_def)
  have amap: "amap_ok (fts_tasks st)" using es by (simp add: tasks_ok_def)
  have long: "9 < length (entry_text (Saved i t))"
    by (subst torn_key_text(1))
       (simp add: torn_key_text(2), simp add: entry_text_def record_json_def build_object_def put_def dump_def
         append_escaped_string_def)
  have content: "fts_file (fst (run_op (Torn 9, b) now op st)) = Some (journal es @ torn_key)"
    using op_torn [OF amap e(1), of 9 b] all(3) by (simp only: take_torn_key)
  have "\<exists>n. load_content (journal es @ torn_key) = Loaded (fts_tasks st) n"
    using load_torn_journal [OF all(1) e(2), of 9] long all
    by (auto simp: take_torn_key torn_tasks_def)
  then obtain n where st1: "st1 = \<lparr>fts_tasks = fts_tasks st, fts_pending = n, fts_file = Some (journal es @ torn_key), fts_backup = None\<rparr>"
    using torn content by (auto simp: open_task_store_def)
  have "fts_file (fst (run_op (Written, True) now1 op1 st1)) = Some (journal es @ torn_key @ entry_text f @ [line_break])"
    using op_written_file [OF f(1) small] by (simp add: st1 file_content_def)
  moreover have "es \<noteq> []" using some all by auto
  moreover have "fts_tasks (fst (run_op (Written, True) now1 op1 st1)) = apply_entry f (fts_tasks st)"
    using op_entry_tasks [OF f(1)] amap by (simp add: st1)
  ultimately show ?thesis
    using load_behind_torn_record [OF all(1) _ f(2,3)]
    by (auto simp: open_task_store_def backup_corrupt_file_def st1)
qed

definition torn_owner :: file_task_store where
  "torn_owner = fst (run_op (Torn 9, True) 8 (OpSetOwner ''a'' ''o'') one_task)"

theorem append_after_torn_record_loses_tasks_witness:
  "\<exists>st1 st3. open_task_store True True (fts_file torn_owner) None = Inr st1 \<and> fts_tasks st1 = fts_tasks one_task \<and>
     open_task_store True True (fts_file (fst (run_op (Written, True) 9 (OpRemove ''a'') st1))) None = Inr st3 \<and>
     fts_tasks st3 = []"
proof -
  let ?t = "created_task 7 ''a'' [] None" let ?u = "?t\<lparr>ts_owner := ''o''\<rparr>"
  have e: "op_entry 8 (OpSetOwner ''a'' ''o'') one_task = Some (Saved ''a'' ?u)"
    by (simp add: op_entry_def one_task_run)
  have u: "entry_ok (Saved ''a'' ?u)"
    by (simp add: record_json_def serialize_task_state_def build_object_def put_def put_opt_def created_task_def
      new_task_state_def task_codec_ok_def make_millis_def dec_int_def dec_nat.simps digit_char_def
      amap_ok_def max_depth_def f64_finite_def f64_exp_def f64_mag_def byte_of_def chr_def flip: utf8_scan_ok_iff)
  have "fts_file one_task = Some (journal [Saved ''a'' ?t])"
    using op_written_file [of 7 "OpCreate ''a'' [] None" empty_store "Saved ''a'' ?t" True]
    by (simp add: one_task_def op_entry_def empty_store_def min_compact_threshold_def file_content_def)
  then have "fts_file torn_owner = Some (journal [Saved ''a'' ?t] @ torn_key)"
    using op_torn [OF _ e, of 9 True]
    by (simp add: one_task_run torn_owner_def file_content_def take_torn_key del: take_append journal_simps)
  moreover obtain n where "n \<le> 2" "load_content (journal [Saved ''a'' ?t] @ torn_key) = Loaded [(''a'', ?t)] n"
  proof -
    have "9 < length (entry_text (Saved ''a'' ?u))"
      by (subst torn_key_text(1))
       (simp add: torn_key_text(2), simp add: entry_text_def record_json_def build_object_def put_def dump_def
         append_escaped_string_def)
    then show thesis
      using that load_torn_journal [of "[Saved ''a'' ?t]" "Saved ''a'' ?u" 9] created_a_ok u
      by (auto simp: take_torn_key torn_tasks_def tasks_of_def simp del: take_append journal_simps)
  qed
  ultimately obtain st1 where st1: "open_task_store True True (fts_file torn_owner) None = Inr st1"
      "fts_pending st1 < min_compact_threshold" "fts_tasks st1 = [(''a'', ?t)]"
    by (auto simp: open_task_store_def min_compact_threshold_def simp del: journal_simps)
  then have "op_entry 9 (OpRemove ''a'') st1 = Some (Removed ''a'')" by (simp add: op_entry_def)
  then show ?thesis
    using append_after_torn_record_loses_tasks [OF one_task_run(1) _ e u, of True st1 9 "OpRemove ''a''" "Removed ''a''"] st1
    by (auto simp: torn_owner_def one_task_run removal_json_eq max_depth_def byte_of_def simp flip: utf8_scan_ok_iff)
qed

text \<open>A compaction that fails after the record has been written: the call throws and its change is undone in
  memory, but the next start finds it in the file.\<close>

lemma failed_compaction_keeps_record:
  assumes j: "journaled st es" "tasks_ok (fts_tasks st)" and new: "amap_find i (fts_tasks st) = None"
    and e: "entry_ok (Saved i (created_task now i owner ttl))"
    and due: "min_compact_threshold + (length (fts_tasks st) + 1) * 2 \<le> fts_pending st"
  shows "\<exists>st' st'' err. create_task (Written, False) now i owner ttl st = (st', Inl err) \<and> fts_tasks st' = fts_tasks st \<and>
    open_task_store True True (fts_file st') None = Inr st'' \<and>
    get_task i st'' = Some (created_task now i owner ttl)"
proof -
  let ?t = "created_task now i owner ttl"
  have all: "list_all entry_ok es" "tasks_of es = fts_tasks st" "file_content st = journal es"
    using j(1) by (simp_all add: journaled_def)
  have "length (amap_put i ?t (fts_tasks st)) \<le> length (fts_tasks st) + 1"
    using j(2) by (simp add: amap_put_length tasks_ok_def)
  then have "append_record (Written, False) i ?t (put_task i ?t st) =
      (put_task i ?t st\<lparr>fts_file := Some (journal (es @ [Saved i ?t])), fts_pending := fts_pending st + 1\<rparr>, False)"
    using due all by (simp add: append_record_def append_text_def compact_locked_def record_text) (simp add: put_task_def)
  then have "create_task (Written, False) now i owner ttl st =
      (st\<lparr>fts_file := Some (journal (es @ [Saved i ?t])), fts_pending := fts_pending st + 1\<rparr>, persist_failed i)"
    using new j(2) by (simp add: create_task_def put_task_def amap_put_fresh_erase tasks_ok_def)
  then show ?thesis
    using load_journal [of "es @ [Saved i ?t]"] all e
    by (auto simp: open_task_store_def persist_failed_def throw_def get_task_def)
qed

end
