(* ===== verification/File_Event_Store.thy ===== *)
theory File_Event_Store
  imports Json_Lines Event_Store Sorted_Maps
begin

text \<open>
  \<open>FileEventStore\<close> (\<open>src/http/FileEventStore.cpp\<close>): the events of each session in a file of its own, one JSON
  text per line, and beside it a file with the next id and the number of events.  The directory is a map
  from file names to contents; the lock file of a session, whose content is never read, is left out, and a
  call holds it, so calls on one session do not interleave.  A file that exists can be read.
\<close>

section \<open>File names\<close>

definition is_alnum :: "char \<Rightarrow> bool" where
  "is_alnum c \<longleftrightarrow> is_digit c \<or> 65 \<le> byte_of c \<and> byte_of c \<le> 90 \<or> 97 \<le> byte_of c \<and> byte_of c \<le> 122"

definition sanitize_char :: "char \<Rightarrow> string" where
  "sanitize_char c =
     (if is_alnum c \<or> c = CHR ''-'' \<or> c = CHR ''_'' then [c]
      else [CHR ''~'', hex_char (byte_of c div 16), hex_char (byte_of c mod 16)])"

definition sanitize_session_id :: "string \<Rightarrow> string" where
  "sanitize_session_id s = ''sess-'' @ concat (map sanitize_char s)"

definition session_file :: "string \<Rightarrow> string" where
  "session_file s = sanitize_session_id s @ ''.jsonl''"

definition session_meta_file :: "string \<Rightarrow> string" where
  "session_meta_file s = sanitize_session_id s @ ''.meta.json''"

lemma hex_char_inject: "v < 16 \<Longrightarrow> w < 16 \<Longrightarrow> hex_char v = hex_char w \<Longrightarrow> v = w"
  using hex_digit_hex_char by (metis option.inject)

lemma sanitize_char_inject: "sanitize_char c @ s = sanitize_char d @ t \<Longrightarrow> c = d \<and> s = t"
proof -
  have tilde: "\<not> is_alnum CHR ''~''" by (simp add: is_alnum_def is_digit_def byte_of_def)
  assume eq: "sanitize_char c @ s = sanitize_char d @ t"
  let ?p = "\<lambda>c. is_alnum c \<or> c = CHR ''-'' \<or> c = CHR ''_''"
  consider "?p c" "?p d" | "?p c" "\<not> ?p d" | "\<not> ?p c" "?p d" | "\<not> ?p c" "\<not> ?p d" by blast
  then show ?thesis
  proof cases
    case 4
    then have "hex_char (byte_of c div 16) = hex_char (byte_of d div 16)"
      "hex_char (byte_of c mod 16) = hex_char (byte_of d mod 16)" "s = t"
      using eq by (simp_all add: sanitize_char_def)
    moreover have "byte_of x div 16 < 16" "byte_of x mod 16 < 16" for x
      using byte_of_less [of x] by (auto intro: less_mult_imp_div_less)
    ultimately have "byte_of c div 16 = byte_of d div 16" "byte_of c mod 16 = byte_of d mod 16"
      using hex_char_inject by blast+
    then have "byte_of c = byte_of d" by (metis div_mult_mod_eq)
    with \<open>s = t\<close> show ?thesis by simp
  qed (use eq tilde in \<open>auto simp: sanitize_char_def\<close>)
qed

lemma sanitized_inject: "concat (map sanitize_char s) = concat (map sanitize_char t) \<Longrightarrow> s = t"
proof (induction s arbitrary: t)
  case Nil
  then show ?case by (cases t) (auto simp: sanitize_char_def split: if_splits)
next
  case (Cons c s)
  then obtain d u where t: "t = d # u" by (cases t) (auto simp: sanitize_char_def split: if_splits)
  then show ?case using Cons.IH [of u] sanitize_char_inject [of c _ d] Cons.prems by auto
qed

lemma session_file_inject [simp]: "session_file s = session_file t \<longleftrightarrow> s = t"
  "session_meta_file s = session_meta_file t \<longleftrightarrow> s = t"
  using sanitized_inject by (auto simp: session_file_def session_meta_file_def sanitize_session_id_def)

lemma session_file_neq [simp]: "session_file s \<noteq> session_meta_file t" "session_meta_file t \<noteq> session_file s"
proof -
  have "last (session_file s) = CHR ''l''" "last (session_meta_file t) = CHR ''n''"
    by (simp_all add: session_file_def session_meta_file_def)
  then show "session_file s \<noteq> session_meta_file t" by auto
  then show "session_meta_file t \<noteq> session_file s" by simp
qed

section \<open>Lines\<close>

definition event_json :: "64 word \<Rightarrow> string \<Rightarrow> json" where
  "event_json i data = JObject (amap_put ''data'' (JString data) (amap_put ''id'' (JInt i) []))"

definition serialize_event_line :: "64 word \<Rightarrow> string \<Rightarrow> string" where
  "serialize_event_line i data = dump (- 1) (event_json i data) @ [line_break]"

text \<open>\<open>ParseCanonicalEventId\<close>: the digits after \<open>{"id":\<close>, with the test against overflow, and the string after
  \<open>,"data":"\<close> up to the end of the line.\<close>

fun canonical_digits :: "nat \<Rightarrow> string \<Rightarrow> (nat \<times> string) option" where
  "canonical_digits v [] = Some (v, [])"
| "canonical_digits v (c # cs) =
     (if \<not> is_digit c then Some (v, c # cs)
      else if (2 ^ 64 - 1 - digit_value c) div 10 < v then None
      else canonical_digits (v * 10 + digit_value c) cs)"

fun canonical_string :: "string \<Rightarrow> bool" where
  "canonical_string [] = False"
| "canonical_string (c # cs) =
     (if c = dquote then cs = []
      else if c = backslash then (case cs of [] \<Rightarrow> False | _ # ds \<Rightarrow> canonical_string ds)
      else canonical_string cs)"

definition id_prefix :: string where
  "id_prefix = CHR ''{'' # dquote # ''id'' @ [dquote, CHR '':'']"

definition data_prefix :: string where
  "data_prefix = CHR '','' # dquote # ''data'' @ [dquote, CHR '':'', dquote]"

definition parse_canonical_event_id :: "string \<Rightarrow> nat option" where
  "parse_canonical_event_id line =
     (if length line \<le> length id_prefix \<or> take (length id_prefix) line \<noteq> id_prefix then None
      else let s = drop (length id_prefix) line in
           case canonical_digits 0 s of
             None \<Rightarrow> None
           | Some (v, rest) \<Rightarrow>
               if length rest = length s \<or> take (length data_prefix) rest \<noteq> data_prefix then None
               else if canonical_string (drop (length data_prefix) rest) then Some v else None)"

text \<open>A line the store writes starts with the other key: the fast path never applies to it.\<close>

lemma canonical_never_written: "parse_canonical_event_id (dump (- 1) (event_json i data)) = None"
proof -
  have "escape_char c = [c]" if "c \<in> set ''data''" for c
    using that by (auto simp: escape_char_def byte_of_def dquote_def backslash_def chr_def simp flip: byte_of_inject)
  then have "append_escaped_string ''data'' = dquote # ''data'' @ [dquote]"
    by (simp add: append_escaped_string_def escape_string_def)
  then have "take (length id_prefix) (dump (- 1) (event_json i data)) = CHR ''{'' # dquote # ''data''"
    by (simp add: event_json_def dump_def id_prefix_def)
  then have "take (length id_prefix) (dump (- 1) (event_json i data)) \<noteq> id_prefix" by (simp add: id_prefix_def)
  then show ?thesis by (simp add: parse_canonical_event_id_def)
qed

definition strip_cr :: "string \<Rightarrow> string" where
  "strip_cr line = (if line \<noteq> [] \<and> last line = chr 13 then butlast line else line)"

text \<open>\<open>CountEventLine\<close>; empty lines do not count.\<close>

definition count_event_line :: "string \<Rightarrow> nat \<times> 64 word \<Rightarrow> nat \<times> 64 word" where
  "count_event_line line0 sc =
     (let line = strip_cr line0 in
      if line = [] then sc
      else case parse_canonical_event_id line of
             Some v \<Rightarrow> (fst sc + 1, max (snd sc) (of_nat v))
           | None \<Rightarrow>
               (case parse_document line of
                  Inr j \<Rightarrow>
                    (case (json_find ''id'' j, json_find ''data'' j) of
                       (Some (JInt i), Some d) \<Rightarrow> (fst sc + 1, max (snd sc) i)
                     | _ \<Rightarrow> sc)
                | Inl e \<Rightarrow> sc))"

definition ends_line :: "string \<Rightarrow> bool" where
  "ends_line content \<longleftrightarrow> content \<noteq> [] \<and> last content = line_break"

text \<open>\<open>ScanEvents\<close>: how many events, the largest id, and whether the file ends in a line break.\<close>

definition scan_events :: "string option \<Rightarrow> (nat \<times> 64 word) \<times> bool" where
  "scan_events file = (case file of
     None \<Rightarrow> ((0, 0), True)
   | Some content \<Rightarrow> (fold count_event_line (split_lines content) (0, 0), ends_line content))"

definition load_event_line :: "string \<Rightarrow> (64 word \<times> string) option" where
  "load_event_line line0 =
     (let line = strip_cr line0 in
      if line = [] then None
      else case parse_document line of
             Inr j \<Rightarrow>
               (case (json_find ''id'' j, json_find ''data'' j) of
                  (Some (JInt i), Some (JString d)) \<Rightarrow> Some (i, d)
                | _ \<Rightarrow> None)
           | Inl e \<Rightarrow> None)"

definition load_events :: "string option \<Rightarrow> (64 word \<times> string) list" where
  "load_events file = (case file of None \<Rightarrow> []
     | Some content \<Rightarrow> List.map_filter load_event_line (split_lines content))"

definition event_lines :: "(64 word \<times> string) list \<Rightarrow> string" where
  "event_lines evs = concat (map (\<lambda>(i, d). serialize_event_line i d) evs)"

text \<open>\<open>RewriteTrimmed\<close>: what it keeps.\<close>

definition trimmed :: "(64 word \<times> string) list \<Rightarrow> (64 word \<times> string) list" where
  "trimmed evs = (if max_events_per_session < length evs then drop (length evs - max_events_per_session) evs else evs)"

definition ends_with_newline :: "string option \<Rightarrow> bool" where
  "ends_with_newline file = (case file of None \<Rightarrow> True | Some content \<Rightarrow> content = [] \<or> last content = line_break)"

text \<open>The cursor: the next id and the number of events.\<close>

definition load_append_cursor :: "string option \<Rightarrow> (64 word \<times> nat) option" where
  "load_append_cursor file = (case file of
     None \<Rightarrow> None
   | Some content \<Rightarrow>
       (case parse_document content of
          Inl e \<Rightarrow> None
        | Inr j \<Rightarrow>
            (case (json_find ''next_id'' j, json_find ''count'' j) of
               (Some (JInt next_id), Some (JInt count)) \<Rightarrow>
                 if sint next_id < 1 \<or> sint count < 0 then None else Some (next_id, unat count)
             | _ \<Rightarrow> None)))"

definition cursor_json :: "64 word \<times> nat \<Rightarrow> json" where
  "cursor_json c = JObject (amap_put ''count'' (JInt (of_nat (snd c))) (amap_put ''next_id'' (JInt (fst c)) []))"

section \<open>Operations\<close>

type_synonym event_dir = "(string, string) amap"

datatype event_error = AppendOpenFailed | AppendFailed | TrimFailed | CursorFailed | RemoveFailed

record event_io =
  ei_append :: append_io
  ei_trim :: bool
  ei_cursor :: bool

text \<open>The answer of \<open>StoreAppendCursor\<close> is the last thing \<open>Append\<close> waits for.\<close>

definition store_append_cursor :: "bool \<Rightarrow> string \<Rightarrow> 64 word \<times> nat \<Rightarrow> event_dir \<Rightarrow> event_dir \<times> (event_error + unit)" where
  "store_append_cursor ok session c dir =
     (if ok then (amap_put (session_meta_file session) (dump (- 1) (cursor_json c)) dir, Inr ())
      else (dir, Inl CursorFailed))"

definition append_position :: "string \<Rightarrow> event_dir \<Rightarrow> 64 word \<times> nat \<times> bool" where
  "append_position session dir =
     (let file = amap_find (session_file session) dir in
      case load_append_cursor (amap_find (session_meta_file session) dir) of
        Some (next_id, count) \<Rightarrow> (next_id, count, ends_with_newline file)
      | None \<Rightarrow> (case scan_events file of ((count, max_id), ends) \<Rightarrow> (max_id + 1, count, ends)))"

definition dir_content :: "string \<Rightarrow> event_dir \<Rightarrow> string" where
  "dir_content name dir = (case amap_find name dir of None \<Rightarrow> [] | Some content \<Rightarrow> content)"

definition file_append :: "event_io \<Rightarrow> string \<Rightarrow> string \<Rightarrow> event_dir \<Rightarrow> event_dir \<times> (event_error + 64 word)" where
  "file_append io session data dir =
     (let name = session_file session;
          (next_id, count, ends) = append_position session dir;
          text = (if ends then [] else [line_break]) @ serialize_event_line next_id data
      in case ei_append io of
           NotOpened \<Rightarrow> (dir, Inl AppendOpenFailed)
         | Torn k \<Rightarrow> (amap_put name (dir_content name dir @ take k text) dir, Inl AppendFailed)
         | Written \<Rightarrow>
             (let dir1 = amap_put name (dir_content name dir @ text) dir in
              if max_events_per_session < count + 1 then
                (let kept = trimmed (load_events (amap_find name dir1)) in
                 if \<not> ei_trim io then (dir1, Inl TrimFailed)
                 else case store_append_cursor (ei_cursor io) session (next_id + 1, length kept)
                             (amap_put name (event_lines kept) dir1) of
                        (dir2, r) \<Rightarrow> (dir2, rmap (\<lambda>_. next_id) r))
              else case store_append_cursor (ei_cursor io) session (next_id + 1, count + 1) dir1 of
                     (dir2, r) \<Rightarrow> (dir2, rmap (\<lambda>_. next_id) r)))"

definition file_events_since :: "event_dir \<Rightarrow> string \<Rightarrow> 64 word \<Rightarrow> (64 word \<times> string) list" where
  "file_events_since dir session last_event_id =
     filter (\<lambda>(i, data). last_event_id < i) (load_events (amap_find (session_file session) dir))"

definition file_clear :: "bool \<Rightarrow> bool \<Rightarrow> string \<Rightarrow> event_dir \<Rightarrow> event_dir \<times> (event_error + unit)" where
  "file_clear removes_events removes_meta session dir =
     (if \<not> removes_events then (dir, Inl RemoveFailed)
      else let dir1 = amap_erase (session_file session) dir in
           if \<not> removes_meta then (dir1, Inl RemoveFailed)
           else (amap_erase (session_meta_file session) dir1, Inr ()))"

section \<open>What the files hold\<close>

lemma strip_cr_dump: "strip_cr (dump (- 1) (event_json i d)) = dump (- 1) (event_json i d)"
proof -
  have "last (dump (- 1) (event_json i d)) = CHR ''}''" by (simp add: event_json_def dump_def)
  moreover have "CHR ''}'' \<noteq> chr 13" by (simp add: chr_def flip: byte_of_inject) (simp add: byte_of_def)
  ultimately show ?thesis by (simp add: strip_cr_def)
qed

lemma event_json_parses: "utf8_valid d \<Longrightarrow> parse_document (dump (- 1) (event_json i d)) = Inr (event_json i d)"
proof (rule parse_document_dump)
  assume "utf8_valid d"
  moreover have "utf8_valid ''data''" "utf8_valid ''id''" by (simp_all add: byte_of_def flip: utf8_scan_ok_iff)
  ultimately show "json_printable (event_json i d)" by (simp add: event_json_def)
qed (simp_all add: event_json_def amap_ok_def max_depth_def)

lemma event_json_find: "json_find ''id'' (event_json i d) = Some (JInt i)" "json_find ''data'' (event_json i d) = Some (JString d)"
  by (simp_all add: event_json_def)

lemma dump_line_not_Nil: "dump (- 1) (event_json i d) \<noteq> []"
  by (simp add: event_json_def dump_def)

lemma load_written_line: "utf8_valid d \<Longrightarrow> load_event_line (dump (- 1) (event_json i d)) = Some (i, d)"
  using event_json_parses [of d i] strip_cr_dump [of i d] dump_line_not_Nil [of i d]
  by (simp add: load_event_line_def event_json_find)

lemma event_lines_join: "event_lines evs = join_lines (map (\<lambda>(i, d). dump (- 1) (event_json i d)) evs)"
  by (auto simp: event_lines_def join_lines_def serialize_event_line_def intro!: arg_cong [of _ _ concat])

lemma load_event_lines:
  assumes "list_all (\<lambda>(i, d). utf8_valid d) evs"
  shows "load_events (Some (event_lines evs)) = evs"
proof -
  let ?line = "\<lambda>(i, d). dump (- 1) (event_json i d)"
  have "split_lines (event_lines evs) = map ?line evs @ [[]]"
    using split_join_lines [of "map ?line evs" "[]"] by (auto simp: event_lines_join list_all_iff)
  moreover have "List.map_filter load_event_line (map ?line evs) = evs"
    using assms by (induction evs) (auto simp: List.map_filter_simps load_written_line)
  moreover have "load_event_line [] = None" by (simp add: load_event_line_def strip_cr_def)
  ultimately show ?thesis by (simp add: load_events_def List.map_filter_def)
qed

lemma event_lines_append [simp]: "event_lines (evs @ fs) = event_lines evs @ event_lines fs"
  by (simp add: event_lines_def)

lemma event_lines_end: "evs \<noteq> [] \<Longrightarrow> last (event_lines evs) = line_break"
  by (cases evs rule: rev_cases) (auto simp: event_lines_def serialize_event_line_def)

lemma cursor_loads:
  assumes "0 < n" "n < 2 ^ 63" "c < 2 ^ 63"
  shows "load_append_cursor (Some (dump (- 1) (cursor_json (of_nat n, c)))) = Some (of_nat n, c)"
proof -
  have "parse_document (dump (- 1) (cursor_json (of_nat n, c))) = Inr (cursor_json (of_nat n, c))"
  proof (rule parse_document_dump)
    have "utf8_valid ''count''" "utf8_valid ''next_id''" by (simp_all add: byte_of_def flip: utf8_scan_ok_iff)
    then show "json_printable (cursor_json (of_nat n, c))" by (simp add: cursor_json_def)
  qed (simp_all add: cursor_json_def amap_ok_def max_depth_def)
  moreover have "sint (of_nat n :: 64 word) = int n" "sint (of_nat c :: 64 word) = int c" "unat (of_nat c :: 64 word) = c"
    using assms by (simp_all add: signed_of_nat signed_take_bit_int_eq_self unat_of_nat)
  ultimately show ?thesis
    using assms by (simp add: load_append_cursor_def) (simp add: cursor_json_def)
qed

text \<open>The files of a session after \<open>n - 1\<close> appends of which the events \<open>evs\<close> are left.\<close>

definition session_holds :: "event_dir \<Rightarrow> string \<Rightarrow> nat \<Rightarrow> (64 word \<times> string) list \<Rightarrow> bool" where
  "session_holds dir session n evs \<longleftrightarrow>
     (if n = 1 then evs = [] \<and> amap_find (session_file session) dir = None \<and>
        amap_find (session_meta_file session) dir = None
      else evs \<noteq> [] \<and> amap_find (session_file session) dir = Some (event_lines evs) \<and>
        amap_find (session_meta_file session) dir = Some (dump (- 1) (cursor_json (of_nat n, length evs)))) \<and>
     length evs \<le> max_events_per_session \<and> list_all (\<lambda>(i, d). utf8_valid d) evs"

lemma holds_position:
  assumes "session_holds dir session n evs" "0 < n" "n < 2 ^ 63"
  shows "append_position session dir = (of_nat n, length evs, True)"
  using assms cursor_loads [of n "length evs"] event_lines_end [of evs]
  by (auto simp: session_holds_def append_position_def load_append_cursor_def scan_events_def
      ends_with_newline_def max_events_per_session_def split: if_splits)

lemma holds_content: "session_holds dir session n evs \<Longrightarrow> dir_content (session_file session) dir = event_lines evs"
  by (auto simp: session_holds_def dir_content_def event_lines_def split: if_splits)

lemma trimmed_take_last: "trimmed evs = take_last max_events_per_session evs"
  by (simp add: trimmed_def take_last_def)

definition all_written :: "event_io \<Rightarrow> bool" where
  "all_written io \<longleftrightarrow> ei_append io = Written \<and> ei_trim io \<and> ei_cursor io"

lemma append_holds:
  assumes h: "session_holds dir session n evs" and n: "0 < n" "n < 2 ^ 63"
    and io: "all_written io" and d: "utf8_valid data"
  shows "\<exists>dir'. file_append io session data dir = (dir', Inr (of_nat n)) \<and>
    session_holds dir' session (n + 1) (take_last max_events_per_session (evs @ [(of_nat n, data)])) \<and>
    (\<forall>s. s \<noteq> session \<longrightarrow> amap_find (session_file s) dir' = amap_find (session_file s) dir \<and>
       amap_find (session_meta_file s) dir' = amap_find (session_meta_file s) dir)"
proof -
  let ?new = "evs @ [(of_nat n, data)]"
  have utf8: "list_all (\<lambda>(i, d). utf8_valid d) ?new" using h d by (simp add: session_holds_def)
  have len: "length evs \<le> max_events_per_session" using h by (simp add: session_holds_def)
  have more: "event_lines evs @ serialize_event_line (of_nat n) data = event_lines ?new"
    by (simp add: event_lines_def)
  have kept: "list_all (\<lambda>(i, d). utf8_valid d) (take_last max_events_per_session ?new)"
    using utf8 take_last_subset [of max_events_per_session ?new] by (auto simp: list_all_iff)
  note defs = file_append_def holds_position [OF h n] holds_content [OF h] store_append_cursor_def
  show ?thesis
  proof (cases "length evs < max_events_per_session")
    case True
    then have "take_last max_events_per_session ?new = ?new" by (simp add: take_last_def)
    then show ?thesis
      using True io n utf8 by (auto simp: defs all_written_def more session_holds_def simp del: event_lines_append of_nat_Suc)
        (simp_all add: add.commute)
  next
    case False
    then have full: "length evs = max_events_per_session" using len by simp
    have "load_events (Some (event_lines ?new)) = ?new" using utf8 by (rule load_event_lines)
    moreover have "take_last max_events_per_session ?new \<noteq> []"
      using length_take_last [of max_events_per_session ?new] by (auto simp: max_events_per_session_def simp del: length_take_last)
    ultimately show ?thesis
      using full io n kept
      by (auto simp: defs all_written_def more session_holds_def trimmed_take_last simp del: event_lines_append of_nat_Suc)
        (simp_all add: add.commute max_events_per_session_def Let_def)
  qed
qed

section \<open>Refinement\<close>

text \<open>The abstract store of a session: what was appended since it was last cleared, numbered from one.\<close>

definition numbered :: "string list \<Rightarrow> (64 word \<times> string) list" where
  "numbered xs = map (\<lambda>(i, d). (of_nat i, d)) (zip [1..<Suc (length xs)] xs)"

definition kept_events :: "string list \<Rightarrow> (64 word \<times> string) list" where
  "kept_events xs = take_last max_events_per_session (numbered xs)"

lemma numbered_snoc: "numbered (xs @ [d]) = numbered xs @ [(of_nat (Suc (length xs)), d)]"
  by (simp add: numbered_def upt_Suc_append del: upt_Suc)

lemma kept_events_snoc:
  "kept_events (xs @ [d]) = take_last max_events_per_session (kept_events xs @ [(of_nat (Suc (length xs)), d)])"
  using take_last_append [of 9999 "numbered xs" "(of_nat (Suc (length xs)), d)"]
  by (simp add: kept_events_def numbered_snoc max_events_per_session_def)

fun run_file_op :: "event_op \<Rightarrow> event_dir \<Rightarrow> event_dir" where
  "run_file_op (AppendEvent session data) dir =
     fst (file_append \<lparr>ei_append = Written, ei_trim = True, ei_cursor = True\<rparr> session data dir)"
| "run_file_op (ClearEvents session) dir = fst (file_clear True True session dir)"

fun log_file_op :: "event_op \<Rightarrow> (string \<Rightarrow> string list) \<Rightarrow> string \<Rightarrow> string list" where
  "log_file_op (AppendEvent session data) log = log(session := log session @ [data])"
| "log_file_op (ClearEvents session) log = log(session := [])"

fun event_data :: "event_op \<Rightarrow> string" where
  "event_data (AppendEvent session data) = data"
| "event_data (ClearEvents session) = []"

definition holds_log :: "event_dir \<Rightarrow> (string \<Rightarrow> string list) \<Rightarrow> bool" where
  "holds_log dir log \<longleftrightarrow> amap_ok dir \<and> (\<forall>s. session_holds dir s (Suc (length (log s))) (kept_events (log s)))"

lemma session_holds_cong:
  "amap_find (session_file s) dir' = amap_find (session_file s) dir \<Longrightarrow>
   amap_find (session_meta_file s) dir' = amap_find (session_meta_file s) dir \<Longrightarrow>
   session_holds dir' s n evs = session_holds dir s n evs"
  by (simp add: session_holds_def)

lemma file_append_ok: "amap_ok dir \<Longrightarrow> amap_ok (fst (file_append io session data dir))"
  by (auto simp: file_append_def store_append_cursor_def Let_def split: append_io.split prod.split)

lemma holds_file_op:
  assumes h: "holds_log dir log" and d: "utf8_valid (event_data op)" and n: "\<forall>s. Suc (length (log s)) < 2 ^ 63"
  shows "holds_log (run_file_op op dir) (log_file_op op log)"
proof (cases op)
  case (AppendEvent session data)
  let ?io = "\<lparr>ei_append = Written, ei_trim = True, ei_cursor = True\<rparr>"
  let ?n = "Suc (length (log session))"
  have "session_holds dir session ?n (kept_events (log session))" using h by (simp add: holds_log_def)
  moreover have "all_written ?io" by (simp add: all_written_def)
  ultimately obtain dir' where dir': "file_append ?io session data dir = (dir', Inr (of_nat ?n))"
      "session_holds dir' session (?n + 1) (take_last max_events_per_session (kept_events (log session) @ [(of_nat ?n, data)]))"
      "\<forall>s. s \<noteq> session \<longrightarrow> amap_find (session_file s) dir' = amap_find (session_file s) dir \<and>
         amap_find (session_meta_file s) dir' = amap_find (session_meta_file s) dir"
    using append_holds [of dir session ?n] n d AppendEvent by (metis event_data.simps(1) zero_less_Suc)
  have "amap_ok dir'" using file_append_ok [of dir ?io session data] h dir'(1) by (simp add: holds_log_def)
  moreover have "session_holds dir' s (Suc (length (log_file_op op log s))) (kept_events (log_file_op op log s))" for s
  proof (cases "s = session")
    case True
    then show ?thesis using dir'(2) kept_events_snoc [of "log session" data] AppendEvent by simp
  next
    case False
    then show ?thesis
      using h AppendEvent dir'(3) session_holds_cong [of s dir' dir] by (simp add: holds_log_def)
  qed
  ultimately show ?thesis using dir'(1) AppendEvent by (simp add: holds_log_def)
next
  case (ClearEvents session)
  have ok: "amap_ok dir" using h by (simp add: holds_log_def)
  have "session_holds (run_file_op op dir) s (Suc (length (log_file_op op log s))) (kept_events (log_file_op op log s))" for s
  proof (cases "s = session")
    case True
    with ok ClearEvents show ?thesis
      by (simp add: file_clear_def session_holds_def kept_events_def numbered_def take_last_def)
  next
    case False
    then have "session_holds (run_file_op op dir) s n evs = session_holds dir s n evs" for n evs
      using ok ClearEvents by (intro session_holds_cong) (simp_all add: file_clear_def)
    with h False ClearEvents show ?thesis by (simp add: holds_log_def)
  qed
  with ok ClearEvents show ?thesis by (simp add: holds_log_def file_clear_def)
qed

lemma holds_run:
  assumes "holds_log dir log" "list_all (\<lambda>op. utf8_valid (event_data op)) ops" "\<forall>s. length (log s) + length ops < 2 ^ 63 - 1"
  shows "holds_log (fold run_file_op ops dir) (fold log_file_op ops log)"
  using assms
proof (induction ops arbitrary: dir log)
  case (Cons op ops)
  have "length (log_file_op op log s) + length ops < 2 ^ 63 - 1" for s
  proof -
    have "length (log_file_op op log s) \<le> Suc (length (log s))" by (cases op) simp_all
    then show ?thesis using Cons.prems(3) [THEN spec, of s] by simp
  qed
  moreover have "holds_log (run_file_op op dir) (log_file_op op log)"
  proof (rule holds_file_op)
    show "\<forall>s. Suc (length (log s)) < 2 ^ 63"
    proof
      fix s
      show "Suc (length (log s)) < 2 ^ 63" using Cons.prems(3) [THEN spec, of s] by simp
    qed
  qed (use Cons.prems in simp_all)
  ultimately show ?case using Cons.IH Cons.prems(2) by simp
qed simp

lemma holds_empty: "holds_log [] (\<lambda>s. [])"
  by (simp add: holds_log_def session_holds_def kept_events_def numbered_def take_last_def)

text \<open>C40: the files answer as the abstract store does.  After any appends and clearings that the file system
  carries out, asking for the events of a session after an id gives those of its last 10000 appended events
  whose number is larger, in order; sessions never see each other's events.\<close>

theorem file_event_store_refines:
  assumes "list_all (\<lambda>op. utf8_valid (event_data op)) ops" and "length ops < 2 ^ 63 - 1"
  shows "file_events_since (fold run_file_op ops []) session i =
    filter (\<lambda>(j, data). i < j) (kept_events (fold log_file_op ops (\<lambda>s. []) session))"
proof -
  let ?dir = "fold run_file_op ops []" and ?xs = "fold log_file_op ops (\<lambda>s. []) session"
  have "holds_log ?dir (fold log_file_op ops (\<lambda>s. []))"
    using holds_run [OF holds_empty assms(1)] assms(2) by simp
  then have "session_holds ?dir session (Suc (length ?xs)) (kept_events ?xs)" by (simp add: holds_log_def)
  then have "load_events (amap_find (session_file session) ?dir) = kept_events ?xs"
    using load_event_lines [of "kept_events ?xs"]
    by (auto simp: session_holds_def load_events_def split: if_splits)
  then show ?thesis by (simp add: file_events_since_def)
qed

theorem file_event_store_refines_witness:
  "file_events_since (fold run_file_op [AppendEvent ''a/b'' ''x'', AppendEvent ''c'' ''y'', AppendEvent ''a/b'' ''z''] [])
     ''a/b'' 1 = [(2, ''z'')]"
proof -
  have "utf8_valid ''x''" "utf8_valid ''y''" "utf8_valid ''z''"
    by (simp_all add: byte_of_def flip: utf8_scan_ok_iff)
  then have "list_all (\<lambda>op. utf8_valid (event_data op))
      [AppendEvent ''a/b'' ''x'', AppendEvent ''c'' ''y'', AppendEvent ''a/b'' ''z'']" by simp
  from file_event_store_refines [OF this, of "''a/b''" 1] show ?thesis
    by (simp add: kept_events_def numbered_def take_last_def max_events_per_session_def)
qed

text \<open>Clearing restarts the numbers in the files, and not in the store in memory.\<close>

lemma clearing_renumbers:
  assumes "holds_log dir log" "length (log s) < 2 ^ 63 - 2" "utf8_valid data" "all_written io"
  shows "snd (file_append io s data (run_file_op (ClearEvents s) dir)) = Inr 1"
    and "ev_next st = of_nat n \<Longrightarrow> snd (append_event s data (run_event_op (ClearEvents s) st)) = of_nat n"
proof -
  have "session_holds (run_file_op (ClearEvents s) dir) s 1 []"
    using assms(1) by (simp add: holds_log_def session_holds_def file_clear_def)
  then show "snd (file_append io s data (run_file_op (ClearEvents s) dir)) = Inr 1"
    using append_holds [of "run_file_op (ClearEvents s) dir" s 1 "[]" io data] assms(3,4)
    by (auto simp del: run_file_op.simps)
qed (simp add: append_event_def clear_events_def Let_def)

text \<open>When the process ends between the append and the writing of the cursor, the next event takes the same id
  as the one that was just written.\<close>

lemma lost_cursor_repeats_id:
  assumes h: "session_holds dir session n evs" "1 < n" "n < 2 ^ 63" and room: "Suc (length evs) < max_events_per_session"
    and io: "all_written io" and d: "utf8_valid d" "utf8_valid e"
  shows "\<exists>dir' dir''. file_append \<lparr>ei_append = Written, ei_trim = True, ei_cursor = False\<rparr> session d dir = (dir', Inl CursorFailed) \<and>
    file_append io session e dir' = (dir'', Inr (of_nat n)) \<and>
    load_events (amap_find (session_file session) dir'') = evs @ [(of_nat n, d), (of_nat n, e)]"
proof -
  let ?dir1 = "amap_put (session_file session) (event_lines (evs @ [(of_nat n, d)])) dir"
  have pos: "append_position session dir = (of_nat n, length evs, True)"
    using holds_position [OF h(1)] h(2,3) by simp
  have first: "file_append \<lparr>ei_append = Written, ei_trim = True, ei_cursor = False\<rparr> session d dir = (?dir1, Inl CursorFailed)"
    using pos holds_content [OF h(1)] room by (simp add: file_append_def store_append_cursor_def event_lines_def rmap_def)
  have meta: "amap_find (session_meta_file session) dir = Some (dump (- 1) (cursor_json (of_nat n, length evs)))"
    using h by (simp add: session_holds_def)
  then have "append_position session ?dir1 = (of_nat n, length evs, True)"
    using cursor_loads [of n "length evs"] h(2,3) room event_lines_end [of "evs @ [(of_nat n, d)]"]
    by (simp add: append_position_def ends_with_newline_def max_events_per_session_def Let_def)
  then have "file_append io session e ?dir1 =
      (amap_put (session_meta_file session) (dump (- 1) (cursor_json (of_nat n + 1, length evs + 1)))
         (amap_put (session_file session) (dir_content (session_file session) ?dir1 @ serialize_event_line (of_nat n) e) ?dir1),
       Inr (of_nat n))"
    using io room by (simp add: file_append_def store_append_cursor_def all_written_def Let_def)
  moreover have "dir_content (session_file session) ?dir1 @ serialize_event_line (of_nat n) e =
      event_lines (evs @ [(of_nat n, d), (of_nat n, e)])"
    by (simp add: dir_content_def event_lines_def)
  ultimately have "\<exists>dir''. file_append io session e ?dir1 = (dir'', Inr (of_nat n)) \<and>
      amap_find (session_file session) dir'' = Some (event_lines (evs @ [(of_nat n, d), (of_nat n, e)]))"
    by (simp del: event_lines_append)
  moreover have "list_all (\<lambda>(i, d). utf8_valid d) (evs @ [(of_nat n, d), (of_nat n, e)])"
    using h(1) d by (simp add: session_holds_def)
  ultimately show ?thesis using first load_event_lines [of "evs @ [(of_nat n, d), (of_nat n, e)]"] by auto
qed

end
