(* ===== verification/Param_Annotations.thy ===== *)
theory Param_Annotations
  imports Json_Fields
begin

text \<open>
  \<open>include/mcp/detail/McpParamAnnotations.hpp\<close>: the properties of a tool's input schema that are repeated in HTTP
  headers.  \<open>ParseToolParamAnnotations\<close> walks the schema with an explicit stack; the walk is a partial function
  here, so that its return is a theorem.
\<close>

section \<open>Names of headers\<close>

definition is_letter :: "char \<Rightarrow> bool" where
  "is_letter c \<longleftrightarrow> (CHR ''a'' \<le> c \<and> c \<le> CHR ''z'') \<or> (CHR ''A'' \<le> c \<and> c \<le> CHR ''Z'')"

definition is_header_token_char :: "char \<Rightarrow> bool" where
  "is_header_token_char c \<longleftrightarrow> is_letter c \<or> (CHR ''0'' \<le> c \<and> c \<le> CHR ''9'') \<or>
     List.member (''!#$%&*+-.^_|~'' @ [chr 39, chr 96]) c"

definition is_valid_header_name :: "string \<Rightarrow> bool" where
  "is_valid_header_name name \<longleftrightarrow> name \<noteq> [] \<and> list_all is_header_token_char name"

definition ascii_lower_char :: "char \<Rightarrow> char" where
  "ascii_lower_char c = (if 65 \<le> byte_of c \<and> byte_of c \<le> 90 then chr (byte_of c + 32) else c)"

text \<open>The comparison of two names character by character through \<open>std::tolower\<close>, in the C locale.\<close>

definition same_header_name :: "string \<Rightarrow> string \<Rightarrow> bool" where
  "same_header_name a b \<longleftrightarrow> length a = length b \<and> list_all2 (\<lambda>x y. ascii_lower_char x = ascii_lower_char y) a b"

section \<open>The walk\<close>

text \<open>An annotation: the path of the property and the name of its header.\<close>

type_synonym param_annotation = "string list \<times> string"

record pending_schema =
  ps_schema :: json
  ps_path :: "string list"
  ps_legal :: bool

definition schema_keywords :: "string list" where
  "schema_keywords = [''$ref'', ''items'', ''prefixItems'', ''contains'', ''additionalProperties'',
     ''patternProperties'', ''propertyNames'', ''unevaluatedProperties'', ''oneOf'', ''anyOf'', ''allOf'',
     ''not'', ''if'', ''then'', ''else'']"

definition annotation_of :: "members \<Rightarrow> pending_schema \<Rightarrow> string list \<Rightarrow> string + string option" where
  "annotation_of obj p seen =
     (case amap_find ''x-mcp-header'' obj of
        None \<Rightarrow> Inr None
      | Some a \<Rightarrow>
          if \<not> ps_legal p then Inl ''x-mcp-header is not statically reachable through properties''
          else (case a of
            JString name \<Rightarrow>
              if name = [] then Inl ''x-mcp-header must not be empty''
              else if \<not> is_valid_header_name name then
                Inl (''x-mcp-header '' @ [chr 39] @ name @ [chr 39] @ '' is not a valid HTTP field name'')
              else if list_ex (\<lambda>s. same_header_name s name) seen then
                Inl (''x-mcp-header '' @ [chr 39] @ name @ [chr 39] @ '' is not unique'')
              else if (case amap_find ''type'' obj of
                         Some (JString t) \<Rightarrow> List.member [''string'', ''integer'', ''boolean''] t | _ \<Rightarrow> False)
              then Inr (Some name)
              else Inl ''x-mcp-header is only allowed on string, integer or boolean properties''
          | _ \<Rightarrow> Inl ''x-mcp-header must be a string''))"

text \<open>The schemas one member of an object puts on the stack, in the order they are pushed.\<close>

definition member_schemas :: "pending_schema \<Rightarrow> string \<times> json \<Rightarrow> pending_schema list" where
  "member_schemas p kv =
     (case kv of (key, child) \<Rightarrow>
        if key = ''properties'' then
          (case child of
             JObject props \<Rightarrow> map (\<lambda>(name, s). \<lparr>ps_schema = s, ps_path = ps_path p @ [name], ps_legal = ps_legal p\<rparr>) props
           | _ \<Rightarrow> [])
        else if List.member schema_keywords key then
          (case child of
             JArray xs \<Rightarrow> map (\<lambda>s. \<lparr>ps_schema = s, ps_path = ps_path p, ps_legal = False\<rparr>) xs
           | _ \<Rightarrow> [\<lparr>ps_schema = child, ps_path = ps_path p, ps_legal = False\<rparr>])
        else [])"

definition pushed_schemas :: "pending_schema \<Rightarrow> members \<Rightarrow> pending_schema list" where
  "pushed_schemas p obj = concat (map (member_schemas p) obj)"

text \<open>The stack has its top at the head; \<open>seen\<close> holds the names of the annotations found so far.\<close>

partial_function (option) scan_schemas ::
  "pending_schema list \<Rightarrow> string list \<Rightarrow> param_annotation list \<Rightarrow> (string + param_annotation list) option" where
  "scan_schemas stack seen found =
     (case stack of
        [] \<Rightarrow> Some (Inr found)
      | p # rest \<Rightarrow>
          (case ps_schema p of
             JObject obj \<Rightarrow>
               (case annotation_of obj p seen of
                  Inl reason \<Rightarrow> Some (Inl reason)
                | Inr None \<Rightarrow> scan_schemas (rev (pushed_schemas p obj) @ rest) seen found
                | Inr (Some name) \<Rightarrow>
                    scan_schemas (rev (pushed_schemas p obj) @ rest) (seen @ [name]) (found @ [(ps_path p, name)]))
           | _ \<Rightarrow> scan_schemas rest seen found))"

definition parse_tool_param_annotations :: "json \<Rightarrow> (string + param_annotation list) option" where
  "parse_tool_param_annotations schema =
     (if is_object schema then scan_schemas [\<lparr>ps_schema = schema, ps_path = [], ps_legal = True\<rparr>] [] []
      else Some (Inr []))"

lemma scan_schemas_simps:
  "scan_schemas [] seen found = Some (Inr found)"
  "\<not> is_object (ps_schema p) \<Longrightarrow> scan_schemas (p # rest) seen found = scan_schemas rest seen found"
  "ps_schema p = JObject obj \<Longrightarrow> annotation_of obj p seen = Inl reason \<Longrightarrow>
     scan_schemas (p # rest) seen found = Some (Inl reason)"
  "ps_schema p = JObject obj \<Longrightarrow> annotation_of obj p seen = Inr None \<Longrightarrow>
     scan_schemas (p # rest) seen found = scan_schemas (rev (pushed_schemas p obj) @ rest) seen found"
  "ps_schema p = JObject obj \<Longrightarrow> annotation_of obj p seen = Inr (Some name) \<Longrightarrow>
     scan_schemas (p # rest) seen found =
       scan_schemas (rev (pushed_schemas p obj) @ rest) (seen @ [name]) (found @ [(ps_path p, name)])"
  by (auto simp: scan_schemas.simps [of "_ # _"] scan_schemas.simps [of "[]"] split: json.split)

section \<open>The walk ends\<close>

fun json_nodes :: "json \<Rightarrow> nat" where
  "json_nodes (JArray xs) = Suc (sum_list (map json_nodes xs))"
| "json_nodes (JObject m) = Suc (sum_list (map (\<lambda>(k, v). json_nodes v) m))"
| "json_nodes _ = 1"

definition pending_nodes :: "pending_schema list \<Rightarrow> nat" where
  "pending_nodes stack = sum_list (map (json_nodes \<circ> ps_schema) stack)"

lemma json_nodes_pos: "0 < json_nodes j"
  by (cases j) simp_all

lemma pending_nodes_append [simp]:
  "pending_nodes (a @ b) = pending_nodes a + pending_nodes b" "pending_nodes (rev a) = pending_nodes a"
  by (simp_all add: pending_nodes_def rev_map [symmetric])

lemma member_schemas_nodes: "pending_nodes (member_schemas p (k, v)) \<le> json_nodes v"
  by (cases v) (auto simp: member_schemas_def pending_nodes_def comp_def case_prod_unfold)

lemma pushed_schemas_nodes: "pending_nodes (pushed_schemas p obj) < json_nodes (JObject obj)"
proof -
  have "pending_nodes (pushed_schemas p obj) \<le> sum_list (map (\<lambda>(k, v). json_nodes v) obj)"
  proof (induction obj)
    case (Cons kv obj)
    then show ?case
      using member_schemas_nodes [of p "fst kv" "snd kv"] by (cases kv) (simp add: pushed_schemas_def)
  qed (simp add: pushed_schemas_def pending_nodes_def)
  then show ?thesis by simp
qed

lemma scan_induct [case_names done_empty skip stop plain annotated]:
  assumes "\<And>seen found. P [] seen found"
    and "\<And>p rest seen found. \<not> is_object (ps_schema p) \<Longrightarrow> P rest seen found \<Longrightarrow> P (p # rest) seen found"
    and "\<And>p obj rest seen found reason. ps_schema p = JObject obj \<Longrightarrow> annotation_of obj p seen = Inl reason \<Longrightarrow>
      P (p # rest) seen found"
    and "\<And>p obj rest seen found. ps_schema p = JObject obj \<Longrightarrow> annotation_of obj p seen = Inr None \<Longrightarrow>
      P (rev (pushed_schemas p obj) @ rest) seen found \<Longrightarrow> P (p # rest) seen found"
    and "\<And>p obj rest seen found name. ps_schema p = JObject obj \<Longrightarrow> annotation_of obj p seen = Inr (Some name) \<Longrightarrow>
      P (rev (pushed_schemas p obj) @ rest) (seen @ [name]) (found @ [(ps_path p, name)]) \<Longrightarrow> P (p # rest) seen found"
  shows "P stack seen found"
proof (induction stack arbitrary: seen found rule: measure_induct_rule [where f = pending_nodes])
  case (less stack)
  show ?case
  proof (cases stack)
    case (Cons p rest)
    show ?thesis
    proof (cases "ps_schema p")
      case (JObject obj)
      then have "pending_nodes (rev (pushed_schemas p obj) @ rest) < pending_nodes stack"
        using pushed_schemas_nodes [of p obj] Cons pending_nodes_append(1) [of "[p]" rest]
        by (simp add: pending_nodes_def [of "[p]"])
      note smaller = less [OF this]
      show ?thesis
      proof (cases "annotation_of obj p seen")
        case (Inr r)
        then show ?thesis using smaller JObject Cons assms(4,5) by (cases r) auto
      qed (use JObject Cons assms(3) in simp)
    qed (use less [of rest] Cons json_nodes_pos assms(2) in \<open>simp_all add: pending_nodes_def\<close>)
  qed (simp add: assms(1))
qed

lemma annotation_scan_total: "\<exists>r. parse_tool_param_annotations schema = Some r"
proof -
  have "\<exists>r. scan_schemas stack seen found = Some r" for stack seen found
    by (induction stack seen found rule: scan_induct) (auto simp: scan_schemas_simps)
  then show ?thesis by (simp add: parse_tool_param_annotations_def)
qed

text \<open>C23: \<open>ParseToolParamAnnotations\<close> returns for every schema, however it is nested.\<close>

theorem annotation_scan_returns: "\<exists>r. parse_tool_param_annotations schema = Some r"
  by (rule annotation_scan_total)

section \<open>What is found\<close>

text \<open>The schema of the property at the end of a path, and the header it asks for.\<close>

fun property_schema :: "json \<Rightarrow> string list \<Rightarrow> json option" where
  "property_schema s [] = Some s"
| "property_schema s (k # ks) =
     (case json_find ''properties'' s of
        Some (JObject props) \<Rightarrow> (case amap_find k props of Some t \<Rightarrow> property_schema t ks | None \<Rightarrow> None)
      | _ \<Rightarrow> None)"

definition annotated_schema :: "json \<Rightarrow> string \<Rightarrow> bool" where
  "annotated_schema s name \<longleftrightarrow> json_find ''x-mcp-header'' s = Some (JString name) \<and> is_valid_header_name name \<and>
     json_find ''type'' s \<in> Some ` JString ` {''string'', ''integer'', ''boolean''}"

lemma annotation_of_found:
  "annotation_of obj p seen = Inr (Some name) \<Longrightarrow>
   ps_legal p \<and> annotated_schema (JObject obj) name \<and> list_all (\<lambda>s. \<not> same_header_name s name) seen"
  by (auto simp: annotation_of_def annotated_schema_def list_ex_iff list_all_iff image_iff
      split: option.splits json.splits if_splits)

lemma annotation_of_none: "annotation_of obj p seen = Inr None \<longleftrightarrow> amap_find ''x-mcp-header'' obj = None"
  by (auto simp: annotation_of_def split: option.splits json.splits if_splits)

lemma property_schema_snoc:
  "property_schema s (ks @ [k]) = (case property_schema s ks of
     Some t \<Rightarrow> (case json_find ''properties'' t of Some (JObject props) \<Rightarrow> amap_find k props | _ \<Rightarrow> None)
   | None \<Rightarrow> None)"
  by (induction s ks rule: property_schema.induct) (auto split: option.splits json.splits)

text \<open>The legal schemas on the stack are those of properties of the root.\<close>

definition stack_ok :: "json \<Rightarrow> pending_schema list \<Rightarrow> bool" where
  "stack_ok root stack \<longleftrightarrow> (\<forall>p \<in> set stack. json_ok (ps_schema p) \<and>
     (ps_legal p \<longrightarrow> property_schema root (ps_path p) = Some (ps_schema p)))"

lemma pushed_ok:
  assumes "stack_ok root (p # rest)" "ps_schema p = JObject obj"
  shows "stack_ok root (rev (pushed_schemas p obj) @ rest)"
proof -
  have obj: "amap_ok obj" "\<forall>kv \<in> set obj. json_ok (snd kv)"
    using assms by (auto simp: stack_ok_def list_all_iff)
  have "json_ok (ps_schema q) \<and> (ps_legal q \<longrightarrow> property_schema root (ps_path q) = Some (ps_schema q))"
    if kv: "(key, child) \<in> set obj" and q: "q \<in> set (member_schemas p (key, child))" for key child q
  proof -
    have child: "json_ok child" "amap_find key obj = Some child" using obj kv by (auto simp: amap_find_in_iff)
    have root: "ps_legal p \<Longrightarrow> property_schema root (ps_path p) = Some (JObject obj)"
      using assms by (simp add: stack_ok_def)
    show ?thesis
    proof (cases "key = ''properties''")
      case True
      with q obtain props name s where props: "child = JObject props" "(name, s) \<in> set props"
        "q = \<lparr>ps_schema = s, ps_path = ps_path p @ [name], ps_legal = ps_legal p\<rparr>"
        by (cases child) (auto simp: member_schemas_def)
      with child have "amap_find name props = Some s" "json_ok s" by (auto simp: amap_find_in_iff list_all_iff)
      with props child root True show ?thesis by (auto simp: property_schema_snoc)
    next
      case False
      then show ?thesis using q child
        by (cases child) (auto simp: member_schemas_def list_all_iff split: if_splits)
    qed
  qed
  then show ?thesis using assms(1) by (auto simp: stack_ok_def pushed_schemas_def)
qed

lemma stack_ok_rest: "stack_ok root (p # rest) \<Longrightarrow> stack_ok root rest"
  by (simp add: stack_ok_def)

lemma stack_ok_legal: "stack_ok root (p # rest) \<Longrightarrow> ps_legal p \<Longrightarrow> property_schema root (ps_path p) = Some (ps_schema p)"
  by (simp add: stack_ok_def)

definition found_ok :: "json \<Rightarrow> param_annotation list \<Rightarrow> bool" where
  "found_ok root found \<longleftrightarrow>
     (\<forall>(path, name) \<in> set found. \<exists>s. property_schema root path = Some s \<and> annotated_schema s name) \<and>
     distinct (map (\<lambda>(path, name). map ascii_lower_char name) found)"

lemma same_header_name_iff: "same_header_name a b \<longleftrightarrow> map ascii_lower_char a = map ascii_lower_char b"
  by (auto simp: same_header_name_def list_all2_iff dest: map_eq_imp_length_eq)
    (auto simp: list_eq_iff_nth_eq set_zip list_all2_conv_all_nth)

lemma scan_found_ok:
  "scan_schemas stack seen found = Some (Inr out) \<Longrightarrow> stack_ok root stack \<Longrightarrow> seen = map snd found \<Longrightarrow>
   found_ok root found \<Longrightarrow> found_ok root out"
proof (induction stack seen found rule: scan_induct)
  case (annotated p obj rest seen found name)
  note a = annotation_of_found [OF annotated(2)]
  have "property_schema root (ps_path p) = Some (JObject obj)"
    using stack_ok_legal [OF annotated(5)] a annotated(1) by simp
  then have "found_ok root (found @ [(ps_path p, name)])"
    using annotated(6,7) a by (fastforce simp: found_ok_def list_all_iff same_header_name_iff)
  then show ?case
    using annotated(3,4,6) pushed_ok [OF annotated(5,1)] scan_schemas_simps(5) [OF annotated(1,2), of rest found]
    by simp
qed (simp_all add: scan_schemas_simps stack_ok_rest pushed_ok)

text \<open>Nothing is missed: a property with a header below a legal schema of the stack is found.\<close>

lemma pushed_property:
  assumes "ps_schema p = JObject obj" "ps_legal p" "property_schema (JObject obj) (k # ks) = Some s"
  shows "\<exists>q \<in> set (pushed_schemas p obj). ps_legal q \<and> ps_path q = ps_path p @ [k] \<and> property_schema (ps_schema q) ks = Some s"
proof -
  obtain props t where props: "amap_find ''properties'' obj = Some (JObject props)" "amap_find k props = Some t"
    "property_schema t ks = Some s"
    using assms(3) by (auto split: option.splits json.splits)
  let ?q = "\<lparr>ps_schema = t, ps_path = ps_path p @ [k], ps_legal = ps_legal p\<rparr>"
  have "?q \<in> set (member_schemas p (''properties'', JObject props))"
    using amap_find_Some_in [OF props(2)] by (force simp: member_schemas_def)
  then have "?q \<in> set (pushed_schemas p obj)"
    using amap_find_Some_in [OF props(1)] by (force simp: pushed_schemas_def)
  with props assms(2) show ?thesis by (intro bexI [of _ ?q]) simp_all
qed

lemma scan_complete:
  "scan_schemas stack seen found = Some (Inr out) \<Longrightarrow>
     set found \<subseteq> set out \<and>
     (\<forall>p \<in> set stack. ps_legal p \<longrightarrow> (\<forall>path s h. property_schema (ps_schema p) path = Some s \<longrightarrow>
        json_find ''x-mcp-header'' s = Some h \<longrightarrow> (\<exists>name. h = JString name \<and> (ps_path p @ path, name) \<in> set out)))"
proof (induction stack seen found rule: scan_induct)
  case (skip p rest seen found)
  have "json_find ''x-mcp-header'' s = None" if "property_schema (ps_schema p) path = Some s" for path s
    using that skip(1) by (cases "ps_schema p"; cases path) auto
  with skip show ?case by (auto simp: scan_schemas_simps)
next
  case (plain p obj rest seen found)
  then have IH: "set found \<subseteq> set out"
    "q \<in> set (pushed_schemas p obj @ rest) \<Longrightarrow> ps_legal q \<Longrightarrow> property_schema (ps_schema q) path = Some s \<Longrightarrow>
       json_find ''x-mcp-header'' s = Some h \<Longrightarrow> \<exists>name. h = JString name \<and> (ps_path q @ path, name) \<in> set out" for q path s h
    by (auto simp: scan_schemas_simps)
  have "\<exists>name. h = JString name \<and> (ps_path p @ path, name) \<in> set out"
    if p: "ps_legal p" "property_schema (ps_schema p) path = Some s" "json_find ''x-mcp-header'' s = Some h" for path s h
  proof (cases path)
    case Nil
    then show ?thesis using p plain(1,2) by (auto simp: annotation_of_none)
  next
    case (Cons k ks)
    then obtain q where "q \<in> set (pushed_schemas p obj)" "ps_legal q" "ps_path q = ps_path p @ [k]"
      "property_schema (ps_schema q) ks = Some s"
      using pushed_property [OF plain(1) p(1)] p(2) plain(1) by metis
    with IH(2) [of q ks s h] p(3) Cons show ?thesis by simp
  qed
  with IH show ?case by auto
next
  case (annotated p obj rest seen found name)
  then have IH: "set (found @ [(ps_path p, name)]) \<subseteq> set out"
    "q \<in> set (pushed_schemas p obj @ rest) \<Longrightarrow> ps_legal q \<Longrightarrow> property_schema (ps_schema q) path = Some s \<Longrightarrow>
       json_find ''x-mcp-header'' s = Some h \<Longrightarrow> \<exists>name. h = JString name \<and> (ps_path q @ path, name) \<in> set out" for q path s h
    by (auto simp: scan_schemas_simps)
  have "\<exists>n. h = JString n \<and> (ps_path p @ path, n) \<in> set out"
    if p: "ps_legal p" "property_schema (ps_schema p) path = Some s" "json_find ''x-mcp-header'' s = Some h" for path s h
  proof (cases path)
    case Nil
    then show ?thesis
      using p annotated(1) annotation_of_found [OF annotated(2)] IH(1) by (simp add: annotated_schema_def)
  next
    case (Cons k ks)
    then obtain q where "q \<in> set (pushed_schemas p obj)" "ps_legal q" "ps_path q = ps_path p @ [k]"
      "property_schema (ps_schema q) ks = Some s"
      using pushed_property [OF annotated(1) p(1)] p(2) annotated(1) by metis
    with IH(2) [of q ks s h] p(3) Cons show ?thesis by simp
  qed
  with IH show ?case by auto
qed (simp_all add: scan_schemas_simps)

lemma accepted_annotations:
  assumes ok: "json_ok schema" and found: "parse_tool_param_annotations schema = Some (Inr found)"
  shows "(\<forall>path name. (path, name) \<in> set found \<longleftrightarrow>
      (\<exists>s. property_schema schema path = Some s \<and> json_find ''x-mcp-header'' s = Some (JString name))) \<and>
    (\<forall>(path, name) \<in> set found. \<exists>s. property_schema schema path = Some s \<and> annotated_schema s name) \<and>
    distinct (map (\<lambda>(path, name). map ascii_lower_char name) found)"
proof (cases "is_object schema")
  case True
  let ?p = "\<lparr>ps_schema = schema, ps_path = [], ps_legal = True\<rparr>"
  have scan: "scan_schemas [?p] [] [] = Some (Inr found)"
    using found True by (simp add: parse_tool_param_annotations_def)
  moreover have "stack_ok schema [?p]" using ok by (simp add: stack_ok_def)
  ultimately have "found_ok schema found"
    using scan_found_ok [OF scan, of schema] by (simp add: found_ok_def)
  moreover have "(path, name) \<in> set found"
    if "property_schema schema path = Some s" "json_find ''x-mcp-header'' s = Some (JString name)" for path name s
    using scan_complete [OF scan] that by fastforce
  ultimately show ?thesis by (fastforce simp: found_ok_def annotated_schema_def)
next
  case False
  then have "found = []" "property_schema schema path = Some s \<Longrightarrow> json_find ''x-mcp-header'' s = None" for path s
    using found by (auto simp: parse_tool_param_annotations_def) (cases schema; cases path; auto)
  then show ?thesis by auto
qed

lemma accepted_names_distinct:
  "json_ok schema \<Longrightarrow> parse_tool_param_annotations schema = Some (Inr found) \<Longrightarrow>
   distinct (map (\<lambda>(path, name). map ascii_lower_char name) found)"
  using accepted_annotations by simp

text \<open>C22: when a schema is accepted, the annotations found are exactly the properties that ask for a header; each
  of them is a string, an integer or a boolean, its header has a valid name, and no two headers have the same
  name, whatever their case.\<close>

theorem accepted_annotations_exact:
  assumes ok: "json_ok schema" and found: "parse_tool_param_annotations schema = Some (Inr found)"
  shows "(\<forall>path name. (path, name) \<in> set found \<longleftrightarrow>
      (\<exists>s. property_schema schema path = Some s \<and> json_find ''x-mcp-header'' s = Some (JString name))) \<and>
    (\<forall>(path, name) \<in> set found. \<exists>s. property_schema schema path = Some s \<and> annotated_schema s name) \<and>
    distinct (map (\<lambda>(path, name). map ascii_lower_char name) found)"
  using accepted_annotations [OF ok found] .

definition sample_schema :: json where
  "sample_schema = JObject [
     (''properties'', JObject [
        (''count'', JObject [(''type'', JString ''integer''), (''x-mcp-header'', JString ''Count'')]),
        (''region'', JObject [(''type'', JString ''string''), (''x-mcp-header'', JString ''Region'')])]),
     (''type'', JString ''object'')]"

lemma sample_schema_found:
  "parse_tool_param_annotations sample_schema = Some (Inr [([''region''], ''Region''), ([''count''], ''Count'')])"
  by (simp add: parse_tool_param_annotations_def sample_schema_def scan_schemas_simps annotation_of_def
      pushed_schemas_def member_schemas_def schema_keywords_def is_valid_header_name_def is_header_token_char_def
      is_letter_def same_header_name_def ascii_lower_char_def byte_of_def)

theorem accepted_annotations_exact_witness:
  "\<exists>s. property_schema sample_schema [''count''] = Some s \<and> annotated_schema s ''Count''"
proof -
  have "json_ok sample_schema" by code_simp
  from accepted_annotations_exact [OF this sample_schema_found] show ?thesis by simp
qed

end
