(* ===== verification/Header_Values.thy ===== *)
theory Header_Values
  imports Base64_Url Std_Numbers Float_Text Json_Value Param_Annotations
begin

text \<open>
  The value of a parameter as the text of an HTTP header, of \<open>src/http/McpParamHeaders.hpp\<close>: plain text where it is
  safe, else base64 between two marks, and the comparison of a header with the value in the request.
  \<open>std::stod\<close> is read in the C locale; \<open>std::to_string\<close> of a double is \<open>printf\<close>'s \<open>%f\<close>.
\<close>

section \<open>Base64\<close>

definition std_base64_alphabet :: string where
  "std_base64_alphabet = ''ABCDEFGHIJKLMNOPQRSTUVWXYZabcdefghijklmnopqrstuvwxyz0123456789+/''"

definition std_base64_char :: "nat \<Rightarrow> char" where
  "std_base64_char n = std_base64_alphabet ! (n mod 64)"

fun standard_base64_encode :: "string \<Rightarrow> string" where
  "standard_base64_encode (a # b # c # s) =
     (let n = byte_of a * 2 ^ 16 + byte_of b * 2 ^ 8 + byte_of c
      in std_base64_char (n div 2 ^ 18) # std_base64_char (n div 2 ^ 12) # std_base64_char (n div 2 ^ 6) #
         std_base64_char n # standard_base64_encode s)"
| "standard_base64_encode [a, b] =
     (let n = byte_of a * 2 ^ 16 + byte_of b * 2 ^ 8
      in [std_base64_char (n div 2 ^ 18), std_base64_char (n div 2 ^ 12), std_base64_char (n div 2 ^ 6), CHR ''=''])"
| "standard_base64_encode [a] =
     (let n = byte_of a * 2 ^ 16
      in [std_base64_char (n div 2 ^ 18), std_base64_char (n div 2 ^ 12), CHR ''='', CHR ''=''])"
| "standard_base64_encode [] = []"

definition base64_sextet_value :: "char \<Rightarrow> nat option" where
  "base64_sextet_value c =
     (let b = byte_of c
      in if byte_of CHR ''A'' \<le> b \<and> b \<le> byte_of CHR ''Z'' then Some (b - byte_of CHR ''A'')
         else if byte_of CHR ''a'' \<le> b \<and> b \<le> byte_of CHR ''z'' then Some (b - byte_of CHR ''a'' + 26)
         else if byte_of CHR ''0'' \<le> b \<and> b \<le> byte_of CHR ''9'' then Some (b - byte_of CHR ''0'' + 52)
         else if c = CHR ''+'' then Some 62
         else if c = CHR ''/'' then Some 63
         else None)"

text \<open>The four characters of one round: their values and how many of them are padding.\<close>

fun read_sextets :: "nat \<Rightarrow> nat \<Rightarrow> string \<Rightarrow> (nat list \<times> nat) option" where
  "read_sextets k padding [] = Some ([], padding)"
| "read_sextets k padding (c # s) =
     (if c = CHR ''='' then
        if k < 2 then None
        else map_option (\<lambda>(vs, p). (0 # vs, p)) (read_sextets (k + 1) (padding + 1) s)
      else if 0 < padding then None
      else case base64_sextet_value c of
             None \<Rightarrow> None
           | Some v \<Rightarrow> map_option (\<lambda>(vs, p). (v # vs, p)) (read_sextets (k + 1) padding s))"

definition sextet_bytes :: "nat list \<Rightarrow> nat \<Rightarrow> string" where
  "sextet_bytes vs padding =
     (let n = vs ! 0 * 2 ^ 18 + vs ! 1 * 2 ^ 12 + vs ! 2 * 2 ^ 6 + vs ! 3
      in [chr (n div 2 ^ 16 mod 256)] @ (if padding < 2 then [chr (n div 2 ^ 8 mod 256)] else []) @
         (if padding < 1 then [chr (n mod 256)] else []))"

fun decode_quads :: "string \<Rightarrow> string option" where
  "decode_quads (a # b # c # d # s) =
     (case read_sextets 0 0 [a, b, c, d] of
        None \<Rightarrow> None
      | Some (vs, padding) \<Rightarrow> map_option (\<lambda>out. sextet_bytes vs padding @ out) (decode_quads s))"
| "decode_quads _ = Some []"

definition standard_base64_decode :: "string \<Rightarrow> string option" where
  "standard_base64_decode text = (if length text mod 4 \<noteq> 0 then None else decode_quads text)"

lemma sextet_value_bytes:
  "n < 26 \<Longrightarrow> base64_sextet_value (chr (65 + n)) = Some n"
  "n < 26 \<Longrightarrow> base64_sextet_value (chr (97 + n)) = Some (26 + n)"
  "n < 10 \<Longrightarrow> base64_sextet_value (chr (48 + n)) = Some (52 + n)"
  "base64_sextet_value CHR ''+'' = Some 62" "base64_sextet_value CHR ''/'' = Some 63"
  by (simp_all add: base64_sextet_value_def char_bytes Let_def) (simp_all add: byte_of_def)

lemma std_alphabet_nth:
  "n < 26 \<Longrightarrow> std_base64_alphabet ! n = chr (65 + n)"
  "n < 26 \<Longrightarrow> std_base64_alphabet ! (26 + n) = chr (97 + n)"
  "n < 10 \<Longrightarrow> std_base64_alphabet ! (52 + n) = chr (48 + n)"
  "std_base64_alphabet ! 62 = CHR ''+''" "std_base64_alphabet ! 63 = CHR ''/''"
proof -
  have chars: "std_base64_alphabet = map chr ([65..<91] @ [97..<123] @ [48..<58]) @ ''+/''" by code_simp
  show "n < 26 \<Longrightarrow> std_base64_alphabet ! n = chr (65 + n)"
    "n < 26 \<Longrightarrow> std_base64_alphabet ! (26 + n) = chr (97 + n)"
    "n < 10 \<Longrightarrow> std_base64_alphabet ! (52 + n) = chr (48 + n)"
    "std_base64_alphabet ! 62 = CHR ''+''" "std_base64_alphabet ! 63 = CHR ''/''"
    by (simp_all add: chars nth_append del: upt_rec_numeral)
qed

lemma sextet_value_char [simp]: "base64_sextet_value (std_base64_char n) = Some (n mod 64)"
proof -
  have "n mod 64 < 64" by simp
  then show ?thesis
    unfolding std_base64_char_def
    by (cases rule: digit_cases) (simp_all only: std_alphabet_nth sextet_value_bytes)
qed

lemma equals_no_sextet: "base64_sextet_value CHR ''='' = None"
  by code_simp

lemma std_char_not_equals [simp]: "std_base64_char n \<noteq> CHR ''=''"
  using sextet_value_char [of n] equals_no_sextet by (metis option.distinct(1))

lemma sextet_bytes_list:
  "sextet_bytes [w, x, y, z] padding =
     (let n = w * 2 ^ 18 + x * 2 ^ 12 + y * 2 ^ 6 + z
      in [chr (n div 2 ^ 16 mod 256)] @ (if padding < 2 then [chr (n div 2 ^ 8 mod 256)] else []) @
         (if padding < 1 then [chr (n mod 256)] else []))"
  by (simp add: sextet_bytes_def)

lemma sextet_bytes_back:
  assumes "a < 256" "b < 256" "c < 256" and n: "n = a * 2 ^ 16 + b * 2 ^ 8 + (c :: nat)"
  shows "sextet_bytes [n div 2 ^ 18 mod 64, n div 2 ^ 12 mod 64, n div 2 ^ 6 mod 64, n mod 64] padding =
    [chr a] @ (if padding < 2 then [chr b] else []) @ (if padding < 1 then [chr c] else [])"
proof -
  define m l k where "m = n div 64" "l = m div 64" "k = l div 64"
  note parts = div_mult_mod_eq [of n 64, folded m_l_k_def] div_mult_mod_eq [of m 64, folded m_l_k_def]
    div_mult_mod_eq [of l 64, folded m_l_k_def]
  have "n < 2 ^ 24" using assms by simp
  have d: "n div 2 ^ 18 = k" "n div 2 ^ 12 = l" "n div 2 ^ 6 = m"
    unfolding m_l_k_def by (simp_all flip: div_mult2_eq)
  have "n div 2 ^ 18 < 64" using \<open>n < 2 ^ 24\<close> by simp
  then have "k < 64" unfolding d .
  then have "n div 2 ^ 18 mod 64 * 2 ^ 18 + n div 2 ^ 12 mod 64 * 2 ^ 12 + n div 2 ^ 6 mod 64 * 2 ^ 6 + n mod 64 =
      k * 262144 + l mod 64 * 4096 + m mod 64 * 64 + n mod 64"
    by (simp only: d mod_less) simp
  also have "\<dots> = n" using parts by linarith
  finally have "n div 2 ^ 18 mod 64 * 2 ^ 18 + n div 2 ^ 12 mod 64 * 2 ^ 12 + n div 2 ^ 6 mod 64 * 2 ^ 6 + n mod 64 = n" .
  moreover have "n div 2 ^ 16 = a" "n div 2 ^ 8 mod 256 = b" "n mod 256 = c"
  proof -
    have bc: "b * 256 + c < 65536" using assms by simp
    show "n div 2 ^ 16 = a" using div_block [OF bc, of a] n by (simp add: algebra_simps)
    have "n div 2 ^ 8 = a * 256 + b" using div_block [OF assms(3), of "a * 256 + b"] n by (simp add: algebra_simps)
    then show "n div 2 ^ 8 mod 256 = b" using mod_block [OF assms(2), of a] by simp
    show "n mod 256 = c" using mod_block [OF assms(3), of "a * 256 + b"] n by (simp add: algebra_simps)
  qed
  moreover have "a mod 256 = a" using assms(1) by simp
  ultimately show ?thesis unfolding sextet_bytes_list Let_def by (simp only:)
qed

lemma encoded_quads: "decode_quads (standard_base64_encode s) = Some s"
proof (induction s rule: standard_base64_encode.induct)
  case (1 a b c s)
  note b = sextet_bytes_back [OF byte_of_less [of a] byte_of_less [of b] byte_of_less [of c] refl, of 0]
  show ?case using "1" b by (simp add: Let_def)
next
  case (2 a b)
  note b = sextet_bytes_back [OF byte_of_less [of a] byte_of_less [of b] zero_less_numeral refl, of 1]
  show ?case using b by (simp add: Let_def)
next
  case (3 a)
  note b = sextet_bytes_back [OF byte_of_less [of a] zero_less_numeral zero_less_numeral refl, of 2]
  show ?case using b by (simp add: Let_def flip: numeral_2_eq_2)
qed simp

lemma encoded_length: "length (standard_base64_encode s) mod 4 = 0"
  by (induction s rule: standard_base64_encode.induct) (simp_all add: Let_def mod_Suc)

lemma standard_base64_roundtrip: "standard_base64_decode (standard_base64_encode s) = Some s"
  by (simp add: standard_base64_decode_def encoded_length encoded_quads)

section \<open>Text that needs no encoding\<close>

definition sentinel_open :: string where "sentinel_open = ''=?base64?''"
definition sentinel_close :: string where "sentinel_close = ''?=''"

definition matches_base64_sentinel :: "string \<Rightarrow> bool" where
  "matches_base64_sentinel value \<longleftrightarrow>
     length sentinel_open + length sentinel_close \<le> length value \<and>
     take (length sentinel_open) value = sentinel_open \<and>
     drop (length value - length sentinel_close) value = sentinel_close"

definition is_blank :: "char \<Rightarrow> bool" where
  "is_blank c \<longleftrightarrow> byte_of c = 32 \<or> byte_of c = 9"

definition is_plain_header_safe :: "string \<Rightarrow> bool" where
  "is_plain_header_safe value \<longleftrightarrow>
     (value = [] \<or>
      \<not> is_blank (hd value) \<and> \<not> is_blank (last value) \<and>
      list_all (\<lambda>c. is_blank c \<or> 33 \<le> byte_of c \<and> byte_of c \<le> 126) value)"

definition header_text :: "json \<Rightarrow> string option" where
  "header_text value =
     (case value of
        JString s \<Rightarrow> Some s
      | JBool b \<Rightarrow> Some (if b then ''true'' else ''false'')
      | JInt i \<Rightarrow> Some (dec_int (sint i))
      | _ \<Rightarrow> None)"

definition encode_header_value :: "json \<Rightarrow> string option" where
  "encode_header_value value =
     map_option (\<lambda>text.
        if is_plain_header_safe text \<and> \<not> matches_base64_sentinel text then text
        else sentinel_open @ standard_base64_encode text @ sentinel_close) (header_text value)"

definition decode_header_value :: "string \<Rightarrow> json option" where
  "decode_header_value header =
     (if matches_base64_sentinel header then
        map_option JString (standard_base64_decode
          (take (length header - length sentinel_open - length sentinel_close) (drop (length sentinel_open) header)))
      else Some (JString header))"

lemma sentinel_matches: "matches_base64_sentinel (sentinel_open @ s @ sentinel_close)"
  by (simp add: matches_base64_sentinel_def)

lemma decode_encoded_header:
  assumes "encode_header_value value = Some h"
  shows "\<exists>t. header_text value = Some t \<and> decode_header_value h = Some (JString t)"
proof -
  obtain t where t: "header_text value = Some t"
    "h = (if is_plain_header_safe t \<and> \<not> matches_base64_sentinel t then t
      else sentinel_open @ standard_base64_encode t @ sentinel_close)"
    using assms by (auto simp: encode_header_value_def)
  then show ?thesis
    by (simp add: decode_header_value_def sentinel_matches standard_base64_roundtrip)
qed

text \<open>The text of a header is printable ASCII without a line break, whatever the value is, so no value can end
  the header or start another one.\<close>

theorem encoded_header_printable:
  assumes "encode_header_value value = Some h"
  shows "\<forall>c \<in> set h. byte_of c = 9 \<or> 32 \<le> byte_of c \<and> byte_of c \<le> 126"
proof -
  have digit: "32 \<le> byte_of (std_base64_char n) \<and> byte_of (std_base64_char n) \<le> 126" for n
  proof -
    have "n mod 64 < 64" by simp
    then show ?thesis
      unfolding std_base64_char_def
      by (cases rule: digit_cases) (simp_all add: std_alphabet_nth, simp_all add: byte_of_def)
  qed
  have "\<forall>c \<in> set (standard_base64_encode t). 32 \<le> byte_of c \<and> byte_of c \<le> 126" for t
    by (induction t rule: standard_base64_encode.induct) (auto simp: Let_def digit, simp_all add: byte_of_def)
  moreover have "\<forall>c \<in> set (sentinel_open @ sentinel_close). 32 \<le> byte_of c \<and> byte_of c \<le> 126"
    by (simp add: sentinel_open_def sentinel_close_def byte_of_def)
  moreover have "is_plain_header_safe t \<Longrightarrow> \<forall>c \<in> set t. byte_of c = 9 \<or> 32 \<le> byte_of c \<and> byte_of c \<le> 126" for t
    by (fastforce simp: is_plain_header_safe_def is_blank_def list_all_iff)
  moreover obtain t where "h = sentinel_open @ standard_base64_encode t @ sentinel_close \<or> h = t \<and> is_plain_header_safe t"
    using assms by (auto simp: encode_header_value_def split: if_splits)
  ultimately show ?thesis by fastforce
qed

theorem encoded_header_printable_witness:
  "\<forall>c \<in> set ''=?base64?DQo=?=''. byte_of c = 9 \<or> 32 \<le> byte_of c \<and> byte_of c \<le> 126"
proof (rule encoded_header_printable)
  show "encode_header_value (JString [chr 13, chr 10]) = Some ''=?base64?DQo=?=''"
    by (simp add: encode_header_value_def header_text_def is_plain_header_safe_def is_blank_def std_base64_char_def
        std_base64_alphabet_def sentinel_open_def sentinel_close_def)
qed

section \<open>Numbers as text\<close>

text \<open>An exponent behind one of the marks; without digits it is not read.\<close>

definition exponent_part :: "string \<Rightarrow> string \<Rightarrow> int \<times> string" where
  "exponent_part marks s =
     (case s of
        [] \<Rightarrow> (0, [])
      | c # cs \<Rightarrow>
          (case strip_sign cs of (neg, ds) \<Rightarrow>
             if \<not> List.member marks c \<or> takeWhile is_digit ds = [] then (0, s)
             else ((if neg then - int (nat_of_digits (takeWhile is_digit ds)) else int (nat_of_digits (takeWhile is_digit ds))),
                   dropWhile is_digit ds)))"

text \<open>A number rounded to a double; \<open>ERANGE\<close> is set for an overflow and for an inexact result below the least
  normal number.\<close>

definition range_checked :: "bool \<Rightarrow> nat \<Rightarrow> nat \<Rightarrow> string \<Rightarrow> f64 sto_result" where
  "range_checked neg p q rest =
     (let b = round_bits p q; w = f64_make neg b
      in if inf_bits \<le> b \<or> b < 2 ^ 52 \<and> f64_num w * q \<noteq> p * f64_den w then StoRange else StoOk w rest)"

definition stod_decimal :: "bool \<Rightarrow> string \<Rightarrow> f64 sto_result" where
  "stod_decimal neg t =
     (let (ip, t1) = span_digits t; (fp, t2) = scan_fraction t1
      in if ip @ fp = [] then StoInvalid
         else case exponent_part ''eE'' t2 of
                (e, rest) \<Rightarrow> (case dec_ratio (nat_of_digits (ip @ fp)) (e - int (length fp)) of
                  (p, q) \<Rightarrow> range_checked neg p q rest))"

definition hex_digit_value :: "char \<Rightarrow> nat option" where
  "hex_digit_value c =
     (if is_digit c then Some (byte_of c - 48)
      else if 97 \<le> byte_of c \<and> byte_of c \<le> 102 then Some (byte_of c - 87)
      else if 65 \<le> byte_of c \<and> byte_of c \<le> 70 then Some (byte_of c - 55)
      else None)"

definition span_hex :: "string \<Rightarrow> nat list \<times> string" where
  "span_hex s = (map (the \<circ> hex_digit_value) (takeWhile (\<lambda>c. hex_digit_value c \<noteq> None) s),
     dropWhile (\<lambda>c. hex_digit_value c \<noteq> None) s)"

text \<open>The digits after \<open>0x\<close>; without one, only the zero is read.\<close>

definition stod_hex :: "bool \<Rightarrow> string \<Rightarrow> f64 sto_result" where
  "stod_hex neg t =
     (let (ip, t1) = span_hex (drop 2 t);
          (fp, t2) = (case t1 of c # cs \<Rightarrow> if c = CHR ''.'' then span_hex cs else ([], t1) | [] \<Rightarrow> ([], []))
      in if ip @ fp = [] then StoOk (f64_make neg 0) (drop 1 t)
         else case exponent_part ''pP'' t2 of
                (e, rest) \<Rightarrow>
                  (let k = e - 4 * int (length fp); n = fold (\<lambda>d n. 16 * n + d) (ip @ fp) 0
                   in range_checked neg (n * 2 ^ nat k) (2 ^ nat (- k)) rest))"

definition starts_caseless :: "string \<Rightarrow> string \<Rightarrow> bool" where
  "starts_caseless p s \<longleftrightarrow> map ascii_lower_char (take (length p) s) = p"

definition nan_tail :: "string \<Rightarrow> string" where
  "nan_tail s =
     (case s of
        c # cs \<Rightarrow>
          (if c = CHR ''('' then
             (case dropWhile (\<lambda>c. is_digit c \<or> is_letter c \<or> c = CHR ''_'') cs of
                d # ds \<Rightarrow> if d = CHR '')'' then ds else s
              | [] \<Rightarrow> s)
           else s)
      | [] \<Rightarrow> [])"

definition stod :: "string \<Rightarrow> f64 sto_result" where
  "stod s =
     (case strip_sign (dropWhile is_space s) of
        (neg, t) \<Rightarrow>
          if starts_caseless ''infinity'' t then StoOk (f64_make neg inf_bits) (drop 8 t)
          else if starts_caseless ''inf'' t then StoOk (f64_make neg inf_bits) (drop 3 t)
          else if starts_caseless ''nan'' t then StoOk (f64_make neg (inf_bits + 2 ^ 51)) (nan_tail (drop 3 t))
          else if starts_caseless ''0x'' t then stod_hex neg t
          else stod_decimal neg t)"

definition pad6 :: "string \<Rightarrow> string" where
  "pad6 ds = replicate (6 - length ds) CHR ''0'' @ ds"

definition to_string_double :: "f64 \<Rightarrow> string" where
  "to_string_double w =
     (if f64_neg w then ''-'' else []) @
     (if f64_nan w then ''nan''
      else if \<not> f64_finite w then ''inf''
      else let n = round_half_even (f64_num w * 10 ^ 6) (f64_den w)
           in dec_nat (n div 10 ^ 6) @ CHR ''.'' # pad6 (dec_nat (n mod 10 ^ 6)))"

definition numeric_text_equal :: "string \<Rightarrow> string \<Rightarrow> bool" where
  "numeric_text_equal left right =
     (case stod left of
        StoOk a rest \<Rightarrow>
          (case stod right of StoOk b rest' \<Rightarrow> rest = [] \<and> rest' = [] \<and> f64_eq a b | _ \<Rightarrow> False)
      | _ \<Rightarrow> False)"

definition header_value_matches_body :: "json \<Rightarrow> json \<Rightarrow> bool mres" where
  "header_value_matches_body hv body =
     (if is_int body \<or> is_double body then
        (case hv of
           JInt i \<Rightarrow> rmap (\<lambda>j. i = j) (get_int body)
         | JDouble d \<Rightarrow> rmap (f64_eq d) (get_double body)
         | JString s \<Rightarrow> Inr (numeric_text_equal s
             (case body of JInt i \<Rightarrow> dec_int (sint i) | JDouble d \<Rightarrow> to_string_double d | _ \<Rightarrow> []))
         | _ \<Rightarrow> Inr False)
      else (case body of
         JBool b \<Rightarrow>
           (case hv of
              JBool c \<Rightarrow> Inr (c = b)
            | JString s \<Rightarrow> Inr (s = (if b then ''true'' else ''false''))
            | _ \<Rightarrow> Inr False)
       | JString t \<Rightarrow> (case hv of JString s \<Rightarrow> Inr (s = t) | _ \<Rightarrow> Inr False)
       | _ \<Rightarrow> Inr False))"

section \<open>An integer reads back\<close>

lemma round_bits_integer:
  assumes n: "0 < n" "n < 2 ^ 64"
  shows "2 ^ 52 \<le> round_bits n 1 \<and> round_bits n 1 < inf_bits"
proof -
  define e where "e = round_exp n 1"
  have fits: "fits_exp n 1 e" unfolding e_def using n by (intro round_exp_fits) simp_all
  have low: "- 52 \<le> e"
  proof (rule ccontr)
    assume "\<not> - 52 \<le> e"
    then have "53 \<le> nat (- e)" and zero: "nat e = 0" by auto
    then have "2 ^ 53 \<le> (2 :: nat) ^ nat (- e)" by (intro power_increasing) simp_all
    also have "(2 :: nat) ^ nat (- e) \<le> n * 2 ^ nat (- e)" using n by simp
    finally show False using fits_exp_upper [OF fits] zero by simp
  qed
  have high: "e \<le> 11"
  proof (rule ccontr)
    assume "\<not> e \<le> 11"
    then have "12 \<le> nat e" and zero: "nat (- e) = 0" by auto
    then have "2 ^ 12 \<le> (2 :: nat) ^ nat e" by (intro power_increasing) simp_all
    then have "(2 :: nat) ^ 52 * 2 ^ 12 \<le> 2 ^ 52 * 2 ^ nat e" by simp
    also have "\<dots> \<le> n" using fits_exp_lower [OF fits] \<open>\<not> e \<le> 11\<close> zero by simp
    finally show False using n by simp
  qed
  have "n * 2 ^ nat (- e) div 2 ^ nat e < 2 ^ 53"
    using fits_exp_upper [OF fits] by (simp add: div_less_iff_less_mult)
  then have "round_half_even (n * 2 ^ nat (- e)) (2 ^ nat e) \<le> 2 ^ 53"
    by (auto simp: round_half_even_def Let_def)
  moreover have "round_bits n 1 = nat (e + 1074) * 2 ^ 52 + round_half_even (n * 2 ^ nat (- e)) (2 ^ nat e)"
    using n by (simp add: round_bits_def Let_def scale_frac_def e_def)
  moreover have "1 \<le> nat (e + 1074)" "nat (e + 1074) \<le> 1085" using low high by auto
  ultimately show ?thesis by (simp add: inf_bits_def)
qed

lemma f64_mag_make: "b < 2 ^ 63 \<Longrightarrow> f64_mag (f64_make neg b) = b"
proof -
  assume b: "b < 2 ^ 63"
  then have "unat (f64_make neg b) = (if neg then 2 ^ 63 else 0) + b"
    unfolding f64_make_def unat_of_nat by simp
  with b show ?thesis by (simp add: f64_mag_def)
qed

lemma range_checked_integer:
  assumes "n < 2 ^ 64"
  shows "range_checked neg n 1 rest = StoOk (f64_make neg (round_bits n 1)) rest \<and>
    f64_finite (f64_make neg (round_bits n 1))"
proof (cases "n = 0")
  case True
  have zero: "round_bits 0 1 = 0" by (simp add: round_bits_def)
  have mag: "f64_mag (f64_make neg 0) = 0" by (rule f64_mag_make) simp
  then have "f64_num (f64_make neg 0) = 0"
    by (simp add: f64_num_def f64_mant_def f64_exp_def f64_frac_def)
  with True mag zero show ?thesis by (simp add: range_checked_def Let_def f64_finite_iff inf_bits_def)
next
  case False
  then have b: "2 ^ 52 \<le> round_bits n 1" "round_bits n 1 < inf_bits" using round_bits_integer assms by blast+
  moreover have "inf_bits < 2 ^ 63" by (simp add: inf_bits_def)
  ultimately have "f64_mag (f64_make neg (round_bits n 1)) = round_bits n 1" by (intro f64_mag_make) linarith
  with b show ?thesis by (auto simp: range_checked_def Let_def f64_finite_iff)
qed

lemma stod_dec_int:
  assumes "- (2 ^ 63) \<le> i" "i < 2 ^ 63"
  shows "stod (dec_int i) = StoOk (f64_make (i < 0) (round_bits (nat \<bar>i\<bar>) 1)) [] \<and>
    f64_finite (f64_make (i < 0) (round_bits (nat \<bar>i\<bar>) 1))"
proof -
  have sign: "strip_sign (dropWhile is_space (dec_int i)) = (i < 0, dec_nat (nat \<bar>i\<bar>))"
  proof (cases "i < 0")
    case True
    moreover have "\<not> is_space CHR ''-''" by (simp add: is_space_def byte_of_def)
    ultimately show ?thesis by (simp add: dec_int_def)
  qed (simp add: dec_int_def dec_nat_start)
  obtain c cs where c: "dec_nat (nat \<bar>i\<bar>) = c # cs" by (cases "dec_nat (nat \<bar>i\<bar>)") auto
  have all: "\<forall>d \<in> set (c # cs). is_digit d" using dec_nat_digits [of _ "nat \<bar>i\<bar>"] by (simp add: c)
  have "byte_of d < 58" "ascii_lower_char d = d" if "d \<in> set (c # cs)" for d
    using all that by (auto simp: is_digit_def ascii_lower_char_def)
  then have low: "byte_of (ascii_lower_char d) < 58" if "d \<in> set (c # cs)" for d using that by metis
  have starts: "\<not> starts_caseless p (c # cs)" if "58 \<le> byte_of (hd p)" "p \<noteq> []" for p
    using that low [of c] by (cases p) (auto simp: starts_caseless_def)
  have hex: "\<not> starts_caseless ''0x'' (c # cs)"
  proof (cases cs)
    case (Cons a as)
    then have "ascii_lower_char a \<noteq> CHR ''x''" using low [of a] by (auto simp: byte_of_def)
    with Cons show ?thesis by (simp add: starts_caseless_def)
  qed (simp add: starts_caseless_def)
  have "n < 2 ^ 63 \<or> n = 2 ^ 63" if "n = nat \<bar>i\<bar>" for n using assms that by auto
  then have "nat \<bar>i\<bar> < 2 ^ 64" by fastforce
  note range_checked_integer [OF this, of "i < 0" "[]"]
  moreover have "stod_decimal (i < 0) (dec_nat (nat \<bar>i\<bar>)) = range_checked (i < 0) (nat \<bar>i\<bar>) 1 []"
    by (simp add: stod_decimal_def span_digits_def exponent_part_def dec_ratio_def)
  ultimately show ?thesis
    using starts [of "''infinity''"] starts [of "''inf''"] starts [of "''nan''"] hex
    by (simp add: stod_def sign c byte_of_def)
qed

lemma header_matches_own_value:
  assumes "encode_header_value value = Some h" "decode_header_value h = Some hv"
  shows "header_value_matches_body hv value = Inr True"
proof -
  obtain t where t: "header_text value = Some t" "hv = JString t"
    using decode_encoded_header [OF assms(1)] assms(2) by auto
  consider (int) i where "value = JInt i" | (other) "\<not> is_int value" by (cases "value") auto
  then show ?thesis
  proof cases
    case int
    have "- (2 ^ 63) \<le> sint i" "sint i < 2 ^ 63" using sint_range_size [of i] by (simp_all add: word_size)
    from stod_dec_int [OF this] int t show ?thesis
      by (auto simp: header_text_def header_value_matches_body_def numeric_text_equal_def f64_eq_def f64_nan_def
          f64_finite_def)
  next
    case other
    with t show ?thesis by (cases "value") (auto simp: header_text_def header_value_matches_body_def)
  qed
qed

text \<open>Numbers are compared as doubles, so a header can differ from the integer in the request beyond \<open>2 ^ 53\<close>.\<close>

lemma large_integers_confused:
  "header_value_matches_body (JString (dec_int (2 ^ 53 + 1))) (JInt (2 ^ 53)) = Inr True"
proof -
  have e: "round_exp (2 ^ 53) 1 = 1" "round_exp (2 ^ 53 + 1) 1 = 1"
    by (rule round_exp_eqI; simp add: fits_exp_def)+
  have "round_bits (2 ^ 53) 1 = round_bits (2 ^ 53 + 1) 1"
    by (simp only: round_bits_def Let_def e) (simp add: scale_frac_def round_half_even_def)
  moreover have "sint (2 ^ 53 :: i64) = 2 ^ 53" by simp
  ultimately show ?thesis
    using stod_dec_int [of "2 ^ 53 + 1"] stod_dec_int [of "2 ^ 53"]
    by (simp add: header_value_matches_body_def numeric_text_equal_def f64_eq_def f64_nan_def f64_finite_def)
qed

end
