(* ===== verification/Param_Headers.thy ===== *)
theory Param_Headers
  imports Header_Values Param_Annotations Results "HOL-Library.Sublist"
begin

text \<open>
  The headers \<open>Mcp-Param-...\<close> of a tool call from end to end: the client's \<open>ToolAnnotationCache\<close>
  (\<open>src/http/McpParamHeaders.hpp\<close>), which learns the annotations from a listing of tools and builds the headers,
  and \<open>ValidateParamHeaders\<close> of \<open>src/http/StreamableHttpServerTransport.cpp\<close>, which compares them with the
  arguments.
\<close>

section \<open>The client's cache\<close>

definition param_annotations :: "json \<Rightarrow> string + param_annotation list" where
  "param_annotations schema = the (parse_tool_param_annotations schema)"

fun value_at_path :: "json \<Rightarrow> string list \<Rightarrow> json option" where
  "value_at_path current [] = Some current"
| "value_at_path current (k # ks) =
     (case json_find k current of None \<Rightarrow> None | Some v \<Rightarrow> value_at_path v ks)"

record annotation_cache =
  ac_tools :: "(string, param_annotation list) amap"
  ac_pending :: "string list"

definition empty_annotation_cache :: annotation_cache where
  "empty_annotation_cache = \<lparr>ac_tools = [], ac_pending = []\<rparr>"

definition note_tools_list_request :: "string \<Rightarrow> annotation_cache \<Rightarrow> annotation_cache" where
  "note_tools_list_request key c = c\<lparr>ac_pending := List.insert key (ac_pending c)\<rparr>"

definition consume_tools_list_request :: "string \<Rightarrow> annotation_cache \<Rightarrow> annotation_cache \<times> bool" where
  "consume_tools_list_request key c =
     (c\<lparr>ac_pending := removeAll key (ac_pending c)\<rparr>, List.member (ac_pending c) key)"

definition tool_name_of :: "json \<Rightarrow> string" where
  "tool_name_of t = (case json_find ''name'' t of Some (JString s) \<Rightarrow> s | _ \<Rightarrow> [])"

text \<open>The annotations learnt so far, the tools kept and the names of those rejected.\<close>

type_synonym observed = "(string, param_annotation list) amap \<times> json list \<times> string list"

definition observe_tool :: "json \<Rightarrow> observed \<Rightarrow> observed" where
  "observe_tool t ob =
     (case ob of (refreshed, kept, rejected) \<Rightarrow>
        if \<not> is_object t then (refreshed, kept @ [t], rejected)
        else case json_find ''inputSchema'' t of
               None \<Rightarrow> (refreshed, kept @ [t], rejected)
             | Some schema \<Rightarrow>
                 (case param_annotations schema of
                    Inl reason \<Rightarrow> (refreshed, kept, rejected @ [tool_name_of t])
                  | Inr found \<Rightarrow>
                      (if tool_name_of t = [] then refreshed else amap_put (tool_name_of t) found refreshed,
                       kept @ [t], rejected)))"

definition observe_tools_list_result :: "json \<Rightarrow> annotation_cache \<Rightarrow> json \<times> annotation_cache \<times> string list" where
  "observe_tools_list_result result c =
     (case result of
        JObject m \<Rightarrow>
          (case amap_find ''tools'' m of
             Some (JArray ts) \<Rightarrow>
               (case fold observe_tool ts ([], [], []) of
                  (refreshed, kept, rejected) \<Rightarrow>
                    (JObject (amap_put ''tools'' (JArray kept) m), c\<lparr>ac_tools := refreshed\<rparr>, rejected))
           | _ \<Rightarrow> (result, c, []))
      | _ \<Rightarrow> (result, c, []))"

definition param_header_name :: "string \<Rightarrow> string" where
  "param_header_name name = ''Mcp-Param-'' @ name"

definition param_header :: "json \<Rightarrow> param_annotation \<Rightarrow> (string \<times> string) list" where
  "param_header arguments a =
     (case a of (path, name) \<Rightarrow>
        (case value_at_path arguments path of
           None \<Rightarrow> []
         | Some v \<Rightarrow>
             if is_null v then []
             else case encode_header_value v of None \<Rightarrow> [] | Some h \<Rightarrow> [(param_header_name name, h)]))"

definition build_param_headers :: "annotation_cache \<Rightarrow> string \<Rightarrow> json \<Rightarrow> (string \<times> string) list" where
  "build_param_headers c method params =
     (if method \<noteq> ''tools/call'' then []
      else case json_find ''name'' params of
             Some (JString name) \<Rightarrow>
               (case json_find ''arguments'' params of
                  Some arguments \<Rightarrow>
                    if \<not> is_object arguments then []
                    else (case amap_find name (ac_tools c) of
                            None \<Rightarrow> []
                          | Some found \<Rightarrow> concat (map (param_header arguments) found))
                | None \<Rightarrow> [])
           | _ \<Rightarrow> [])"

definition clear_annotation_cache :: "annotation_cache \<Rightarrow> annotation_cache" where
  "clear_annotation_cache c = c\<lparr>ac_tools := [], ac_pending := []\<rparr>"

section \<open>The server's check\<close>

definition to_lower :: "string \<Rightarrow> string" where
  "to_lower s = map ascii_lower_char s"

definition expected_header :: "string \<Rightarrow> string" where
  "expected_header name = ''mcp-param-'' @ to_lower name"

definition raw_header_value :: "(string \<times> string) list \<Rightarrow> string \<Rightarrow> string option" where
  "raw_header_value headers name = map_option snd (find (\<lambda>(key, v). to_lower key = expected_header name) headers)"

text \<open>What is wrong with the header of one annotation, if anything.\<close>

definition param_header_error :: "(string \<times> string) list \<Rightarrow> json option \<Rightarrow> param_annotation \<Rightarrow> string option mres" where
  "param_header_error headers arguments a =
     (case a of (path, name) \<Rightarrow>
        let raw_value = raw_header_value headers name;
            body_value = (case arguments of
              Some args \<Rightarrow> if is_object args then value_at_path args path else None
            | None \<Rightarrow> None)
        in case body_value of
             Some body \<Rightarrow>
               if is_null body then
                 Inr (map_option (\<lambda>_. ''Mcp-Param-'' @ name @ '' header present but the parameter is absent from arguments'') raw_value)
               else (case raw_value of
                 None \<Rightarrow> Inr (Some (''missing Mcp-Param-'' @ name @ '' header for tools/call argument''))
               | Some h \<Rightarrow>
                   (case decode_header_value h of
                      None \<Rightarrow> Inr (Some (''Mcp-Param-'' @ name @ '' header value is malformed''))
                    | Some hv \<Rightarrow> rmap (\<lambda>ok. if ok then None
                        else Some (''Mcp-Param-'' @ name @ '' header value does not match the request body''))
                        (header_value_matches_body hv body)))
           | None \<Rightarrow>
               Inr (map_option (\<lambda>_. ''Mcp-Param-'' @ name @ '' header present but the parameter is absent from arguments'') raw_value))"

fun first_param_error :: "(string \<times> string) list \<Rightarrow> json option \<Rightarrow> param_annotation list \<Rightarrow> string option mres" where
  "first_param_error headers arguments [] = Inr None"
| "first_param_error headers arguments (a # rest) =
     rbind (param_header_error headers arguments a) (\<lambda>err.
       case err of Some e \<Rightarrow> Inr (Some e) | None \<Rightarrow> first_param_error headers arguments rest)"

text \<open>\<open>resolve\<close> is the server's lookup of the annotations of a tool by its name.\<close>

definition validate_param_headers ::
  "(string \<Rightarrow> param_annotation list) option \<Rightarrow> (string \<times> string) list \<Rightarrow> string \<Rightarrow> json option \<Rightarrow> string option mres" where
  "validate_param_headers resolve headers method params =
     (case (resolve, params) of
        (Some f, Some p) \<Rightarrow>
          if method \<noteq> ''tools/call'' then Inr None
          else (case json_find ''name'' p of
                  Some (JString name) \<Rightarrow> first_param_error headers (json_find ''arguments'' p) (f name)
                | _ \<Rightarrow> Inr None)
      | _ \<Rightarrow> Inr None)"

section \<open>What the client sends is accepted\<close>

lemma to_lower_prefix: "to_lower (param_header_name name) = expected_header name"
proof -
  have "map ascii_lower_char ''Mcp-Param-'' = ''mcp-param-''" by code_simp
  then show ?thesis by (simp only: to_lower_def expected_header_def param_header_name_def map_append)
qed

lemma expected_header_inject [simp]: "expected_header a = expected_header b \<longleftrightarrow> to_lower a = to_lower b"
  by (simp add: expected_header_def)

text \<open>A value the client puts into a header, if it has one to put.\<close>

definition sendable :: "json \<Rightarrow> bool" where
  "sendable v \<longleftrightarrow> is_null v \<or> header_text v \<noteq> None"

definition header_of_value :: "json option \<Rightarrow> string option" where
  "header_of_value v = (case v of None \<Rightarrow> None | Some v \<Rightarrow> if is_null v then None else encode_header_value v)"

lemma param_header_value:
  "param_header arguments (path, name) =
     (case header_of_value (value_at_path arguments path) of None \<Rightarrow> [] | Some h \<Rightarrow> [(param_header_name name, h)])"
  by (auto simp: param_header_def header_of_value_def split: option.split)

lemma header_lookup:
  assumes "distinct (map (\<lambda>(path, name). map ascii_lower_char name) found)" "(path, name) \<in> set found"
    and "\<forall>(key, v) \<in> set others. to_lower key \<noteq> expected_header name"
  shows "raw_header_value (concat (map (param_header arguments) found) @ others) name = header_of_value (value_at_path arguments path)"
  using assms
proof (induction found)
  case (Cons a found)
  let ?key = "\<lambda>(key, v). to_lower key = expected_header name"
  obtain p n where a: "a = (p, n)" by (cases a)
  have rest: "raw_header_value (concat (map (param_header arguments) found) @ others) name = None"
    if "\<forall>(p', n') \<in> set found. to_lower n' \<noteq> to_lower name"
  proof -
    have "\<not> ?key kv" if "kv \<in> set (concat (map (param_header arguments) found) @ others)" for kv
      using that \<open>\<forall>(p', n') \<in> set found. to_lower n' \<noteq> to_lower name\<close> Cons.prems(3)
      by (fastforce simp: param_header_value to_lower_prefix split: option.splits)
    then have "find ?key (concat (map (param_header arguments) found) @ others) = None" by (auto simp: find_None_iff)
    then show ?thesis by (simp add: raw_header_value_def)
  qed
  show ?case
  proof (cases "a = (path, name)")
    case True
    have "\<forall>(p', n') \<in> set found. to_lower n' \<noteq> to_lower name"
      using Cons.prems(1) True by (force simp: to_lower_def)
    from rest [OF this] True show ?thesis
      by (simp add: param_header_value to_lower_prefix raw_header_value_def split: option.split)
  next
    case False
    with Cons.prems a have mem: "(path, name) \<in> set found" by auto
    then have "to_lower n \<noteq> to_lower name" using Cons.prems(1) a by (force simp: to_lower_def)
    then show ?thesis
      using Cons.IH Cons.prems a mem
      by (simp add: param_header_value to_lower_prefix raw_header_value_def split: option.split)
  qed
qed simp

lemma sent_header_ok:
  assumes "distinct (map (\<lambda>(path, name). map ascii_lower_char name) found)" "(path, name) \<in> set found"
    and "\<forall>(key, v) \<in> set others. to_lower key \<noteq> expected_header name"
    and "pred_option sendable (value_at_path arguments path)" and "is_object arguments"
  shows "param_header_error (concat (map (param_header arguments) found) @ others) (Some arguments) (path, name) = Inr None"
proof (cases "value_at_path arguments path")
  case None
  then show ?thesis
    using header_lookup [OF assms(1-3), of arguments] assms(5) by (simp add: param_header_error_def header_of_value_def Let_def)
next
  case (Some v)
  show ?thesis
  proof (cases "is_null v")
    case True
    then show ?thesis
      using header_lookup [OF assms(1-3), of arguments] assms(5) Some
      by (simp add: param_header_error_def header_of_value_def Let_def)
  next
    case False
    then obtain h where h: "encode_header_value v = Some h"
      using assms(4) Some by (auto simp: sendable_def encode_header_value_def)
    then obtain hv where hv: "decode_header_value h = Some hv" using decode_encoded_header by blast
    show ?thesis
      using header_lookup [OF assms(1-3), of arguments] assms(5) Some False h hv header_matches_own_value [OF h hv]
      by (simp add: param_header_error_def header_of_value_def Let_def)
  qed
qed

lemma no_param_error:
  "\<forall>a \<in> set found. param_header_error headers arguments a = Inr None \<Longrightarrow>
   first_param_error headers arguments found = Inr None"
  by (induction found) simp_all

section \<open>From the listing to the call\<close>

definition tool_annotated :: "tool \<Rightarrow> bool" where
  "tool_annotated t \<longleftrightarrow> tl_name t \<noteq> [] \<and> json_ok (tl_input_schema t) \<and>
     (\<exists>found. param_annotations (tl_input_schema t) = Inr found)"

definition annotations_of :: "tool \<Rightarrow> param_annotation list" where
  "annotations_of t = (case param_annotations (tl_input_schema t) of Inr found \<Rightarrow> found | Inl r \<Rightarrow> [])"

lemma tool_fields:
  "json_find ''inputSchema'' (serialize_tool t) = Some (tl_input_schema t)"
  "tool_name_of (serialize_tool t) = tl_name t" "is_object (serialize_tool t)"
  by (simp_all add: tool_name_of_def serialize_tool_def codec_simps)

lemma observe_tool_annotated:
  "tool_annotated t \<Longrightarrow> observe_tool (serialize_tool t) (refreshed, kept, rejected) =
     (amap_put (tl_name t) (annotations_of t) refreshed, kept @ [serialize_tool t], rejected)"
  by (auto simp: observe_tool_def tool_fields tool_annotated_def annotations_of_def)

lemma observe_tools_annotated:
  assumes "list_all tool_annotated ts"
  shows "fold observe_tool (map serialize_tool ts) (refreshed, kept, rejected) =
    (fold (\<lambda>t. amap_put (tl_name t) (annotations_of t)) ts refreshed, kept @ map serialize_tool ts, rejected)"
  using assms by (induction ts arbitrary: refreshed kept) (simp_all add: observe_tool_annotated)

lemma find_fold_put:
  "distinct (map tl_name ts) \<Longrightarrow> t \<in> set ts \<Longrightarrow>
   amap_find (tl_name t) (fold (\<lambda>t. amap_put (tl_name t) (annotations_of t)) ts refreshed) = Some (annotations_of t)"
proof (induction ts arbitrary: refreshed)
  case (Cons u ts)
  have keep: "n \<notin> tl_name ` set ts \<Longrightarrow>
      amap_find n (fold (\<lambda>t. amap_put (tl_name t) (annotations_of t)) ts r) = amap_find n r" for n r
    by (induction ts arbitrary: r) auto
  show ?case using Cons keep [of "tl_name u"] by (auto simp: image_iff)
qed simp

lemma list_tools_object:
  "serialize_list_tools_result etag v = JObject m \<Longrightarrow> amap_find ''tools'' m = Some (JArray (map serialize_tool (lr_items v)))"
proof -
  assume m: "serialize_list_tools_result etag v = JObject m"
  have "json_find ''tools'' (serialize_list_tools_result etag v) = Some (JArray (map serialize_tool (lr_items v)))"
    by (simp add: serialize_list_tools_result_def serialize_list_result_def write_list_common_def put_list_def codec_simps)
  with m show ?thesis by simp
qed

lemma observed_tools:
  assumes "list_all tool_annotated (lr_items v)" "distinct (map tl_name (lr_items v))" "t \<in> set (lr_items v)"
    and "observe_tools_list_result (serialize_list_tools_result etag v) c = (result, c', rejected)"
  shows "amap_find (tl_name t) (ac_tools c') = Some (annotations_of t) \<and> rejected = []"
proof -
  obtain m where m: "serialize_list_tools_result etag v = JObject m"
    by (simp add: serialize_list_tools_result_def serialize_list_result_def build_object_def)
  show ?thesis
    using assms(4) list_tools_object [OF m] observe_tools_annotated [OF assms(1), of "[]" "[]" "[]"]
      find_fold_put [OF assms(2,3), of "[]"]
    by (auto simp: observe_tools_list_result_def m)
qed

text \<open>C21: a client that has seen the whole listing of a server in one page, of tools with distinct names and acceptable
  annotations, builds headers that the server accepts for each call of a listed tool whose arguments at the annotated
  places are strings, integers, booleans, null or absent, whatever other headers the request carries.  Doubles, arrays and
  objects at these places and listings in several pages are excluded (\<open>double_argument_refused\<close>, \<open>last_page_decides\<close>).\<close>

theorem param_headers_accepted:
  assumes tools: "list_all tool_annotated (lr_items v)" "distinct (map tl_name (lr_items v))" "t \<in> set (lr_items v)"
    and seen: "observe_tools_list_result (serialize_list_tools_result etag v) c = (result, c', rejected)"
    and call: "json_find ''name'' params = Some (JString (tl_name t))"
    and args: "\<And>arguments path name. json_find ''arguments'' params = Some arguments \<Longrightarrow>
      (path, name) \<in> set (annotations_of t) \<Longrightarrow> is_object arguments \<Longrightarrow> pred_option sendable (value_at_path arguments path)"
    and others: "\<forall>(key, x) \<in> set others. \<not> prefix ''mcp-param-'' (to_lower key)"
    and resolve: "resolve (tl_name t) = annotations_of t"
  shows "validate_param_headers (Some resolve) (build_param_headers c' ''tools/call'' params @ others) ''tools/call'' (Some params) =
    Inr None"
proof -
  have t: "tool_annotated t" using tools(1,3) by (simp add: list_all_iff)
  then have "parse_tool_param_annotations (tl_input_schema t) = Some (Inr (annotations_of t))"
    using annotation_scan_total [of "tl_input_schema t"]
    by (auto simp: tool_annotated_def annotations_of_def param_annotations_def)
  then have distinct: "distinct (map (\<lambda>(path, name). map ascii_lower_char name) (annotations_of t))"
    using t accepted_names_distinct by (auto simp: tool_annotated_def)
  have other: "\<forall>(key, x) \<in> set others. to_lower key \<noteq> expected_header name" for name
    using others by (fastforce simp: prefix_def expected_header_def)
  note cached = conjunct1 [OF observed_tools [OF tools seen]]
  have "first_param_error (build_param_headers c' ''tools/call'' params @ others) (json_find ''arguments'' params)
      (annotations_of t) = Inr None"
  proof (rule no_param_error, clarify)
    fix path name
    assume a: "(path, name) \<in> set (annotations_of t)"
    show "param_header_error (build_param_headers c' ''tools/call'' params @ others) (json_find ''arguments'' params) (path, name) =
        Inr None"
    proof (cases "\<exists>arguments. json_find ''arguments'' params = Some arguments \<and> is_object arguments")
      case True
      then obtain arguments where arguments: "json_find ''arguments'' params = Some arguments" "is_object arguments" by blast
      with cached call have "build_param_headers c' ''tools/call'' params = concat (map (param_header arguments) (annotations_of t))"
        by (simp add: build_param_headers_def)
      with sent_header_ok [OF distinct a other args [OF arguments(1) a arguments(2)] arguments(2)] arguments(1)
      show ?thesis by simp
    next
      case False
      then have "build_param_headers c' ''tools/call'' params = []"
        using call by (auto simp: build_param_headers_def split: option.split)
      moreover have "raw_header_value others name = None"
        using other by (fastforce simp: raw_header_value_def find_None_iff)
      ultimately show ?thesis using False
        by (auto simp: param_header_error_def Let_def split: option.split)
    qed
  qed
  then show ?thesis by (simp add: validate_param_headers_def call resolve)
qed

definition sample_tool :: tool where
  "sample_tool = \<lparr>tl_name = ''t'', tl_title = None, tl_description = None, tl_input_schema = sample_schema,
     tl_output_schema = None, tl_annotations = None, tl_icons = [], tl_meta = None, tl_execution = None\<rparr>"

definition sample_listing :: "tool list_result" where
  "sample_listing = \<lparr>lr_items = [sample_tool], lr_next_cursor = None, lr_cache_hint = None, lr_meta = None,
     lr_result_type = RtComplete\<rparr>"

definition sample_call :: json where
  "sample_call = JObject [(''arguments'', JObject [(''count'', JInt 3)]), (''name'', JString ''t'')]"

lemma sample_tool_annotated:
  "tool_annotated sample_tool" "annotations_of sample_tool = [([''region''], ''Region''), ([''count''], ''Count'')]"
proof -
  have "json_ok sample_schema" by code_simp
  then show "tool_annotated sample_tool" "annotations_of sample_tool = [([''region''], ''Region''), ([''count''], ''Count'')]"
    by (simp_all add: tool_annotated_def sample_tool_def param_annotations_def annotations_of_def sample_schema_found)
qed

theorem param_headers_accepted_witness:
  "\<exists>c'. validate_param_headers (Some (\<lambda>name. annotations_of sample_tool))
      (build_param_headers c' ''tools/call'' sample_call @ []) ''tools/call'' (Some sample_call) = Inr None"
proof -
  obtain result c' rejected where seen:
    "observe_tools_list_result (serialize_list_tools_result False sample_listing) empty_annotation_cache = (result, c', rejected)"
    by (metis prod_cases3)
  have "validate_param_headers (Some (\<lambda>name. annotations_of sample_tool))
      (build_param_headers c' ''tools/call'' sample_call @ []) ''tools/call'' (Some sample_call) = Inr None"
  proof (rule param_headers_accepted [OF _ _ _ seen])
    fix arguments path name
    assume "json_find ''arguments'' sample_call = Some arguments" "(path, name) \<in> set (annotations_of sample_tool)"
    then show "pred_option sendable (value_at_path arguments path)"
      by (auto simp: sample_call_def sample_tool_annotated sendable_def header_text_def)
  qed (simp_all add: sample_listing_def sample_tool_annotated sample_call_def, simp add: sample_tool_def)
  then show ?thesis by blast
qed

text \<open>The client keeps only the annotations of the last listing it saw.  After a page that does not hold a tool
  it sends no headers for it, and the server refuses every call that gives one of its annotated arguments.\<close>

theorem last_page_decides:
  assumes page: "list_all tool_annotated (lr_items v)" "t \<notin> set (lr_items v)" "tl_name t \<notin> tl_name ` set (lr_items v)"
    and seen: "observe_tools_list_result (serialize_list_tools_result etag v) c = (result, c', rejected)"
    and call: "json_find ''name'' params = Some (JString (tl_name t))" "json_find ''arguments'' params = Some arguments"
    and given: "(path, name) \<in> set (annotations_of t)" "is_object arguments" "value_at_path arguments path = Some x" "\<not> is_null x"
  shows "build_param_headers c' ''tools/call'' params = [] \<and>
    (\<exists>e. validate_param_headers (Some (\<lambda>name. annotations_of t)) (build_param_headers c' ''tools/call'' params)
      ''tools/call'' (Some params) = Inr (Some e))"
proof -
  obtain m where m: "serialize_list_tools_result etag v = JObject m"
    by (simp add: serialize_list_tools_result_def serialize_list_result_def build_object_def)
  have "amap_find n (fold (\<lambda>t. amap_put (tl_name t) (annotations_of t)) ts r) = amap_find n r"
    if "n \<notin> tl_name ` set ts" for n ts r
    using that by (induction ts arbitrary: r) auto
  from this [OF page(3), of "[]"] have "amap_find (tl_name t) (ac_tools c') = None"
    using seen list_tools_object [OF m] observe_tools_annotated [OF page(1), of "[]" "[]" "[]"]
    by (auto simp: observe_tools_list_result_def m)
  then have none: "build_param_headers c' ''tools/call'' params = []"
    using call given by (simp add: build_param_headers_def)
  have "\<exists>e. first_param_error [] (Some arguments) found = Inr (Some e)" if "(path, name) \<in> set found" for found
    using that
  proof (induction found)
    case (Cons a found)
    obtain p n where a: "a = (p, n)" by (cases a)
    have "param_header_error [] (Some arguments) (p, n) = Inr None \<or> (\<exists>e. param_header_error [] (Some arguments) (p, n) = Inr (Some e))"
      by (auto simp: param_header_error_def raw_header_value_def Let_def split: option.split)
    moreover have "\<exists>e. param_header_error [] (Some arguments) (path, name) = Inr (Some e)"
      using given by (simp add: param_header_error_def raw_header_value_def)
    ultimately show ?case using Cons a by auto
  qed simp
  then show ?thesis using given(1) call none by (simp add: validate_param_headers_def)
qed

definition other_tool :: tool where
  "other_tool = sample_tool\<lparr>tl_name := ''u''\<rparr>"

theorem last_page_decides_witness:
  "\<exists>c' e. validate_param_headers (Some (\<lambda>name. annotations_of sample_tool))
      (build_param_headers c' ''tools/call'' sample_call) ''tools/call'' (Some sample_call) = Inr (Some e)"
proof -
  let ?v = "sample_listing\<lparr>lr_items := [other_tool]\<rparr>"
  obtain result c' rejected where seen:
    "observe_tools_list_result (serialize_list_tools_result False ?v) empty_annotation_cache = (result, c', rejected)"
    by (metis prod_cases3)
  have "tool_annotated other_tool" using sample_tool_annotated(1) by (simp add: tool_annotated_def other_tool_def)
  then have "build_param_headers c' ''tools/call'' sample_call = [] \<and>
    (\<exists>e. validate_param_headers (Some (\<lambda>name. annotations_of sample_tool)) (build_param_headers c' ''tools/call'' sample_call)
      ''tools/call'' (Some sample_call) = Inr (Some e))"
    by (intro last_page_decides [OF _ _ _ seen, where path = "[''count'']" and name = "''Count''" and x = "JInt 3"
          and arguments = "JObject [(''count'', JInt 3)]"])
      (simp_all add: other_tool_def sample_tool_annotated sample_call_def, simp_all add: sample_tool_def)
  then show ?thesis by blast
qed

text \<open>A number that is not written as an integer gets no header, although the server would compare one, and the
  server insists on it.\<close>

lemma double_argument_refused:
  "param_header (JObject [(''count'', JDouble d)]) ([''count''], ''Count'') = [] \<and>
   param_header_error [] (Some (JObject [(''count'', JDouble d)])) ([''count''], ''Count'') =
     Inr (Some ''missing Mcp-Param-Count header for tools/call argument'')"
  by (simp add: param_header_def encode_header_value_def header_text_def param_header_error_def raw_header_value_def)

end
