(* ===== verification/Listing.thy ===== *)
theory Listing
  imports Results Std_Numbers
begin

text \<open>
  Listings in pages, on both sides: \<open>ParseCursor\<close>, \<open>MakeNextCursor\<close> and \<open>PaginateEntries\<close> of
  \<open>src/server/McpServer.cpp\<close>, and \<open>ListPages\<close> of \<open>src/client/McpClient.cpp\<close>, which asks for page after page.
  The locale \<open>paged_listing\<close> is the contract between them: what the client gets from any provider that cuts
  its list into pages of a fixed size.
\<close>

section \<open>The server\<close>

definition default_page_size :: nat where "default_page_size = 100"

definition parse_cursor :: "string option \<Rightarrow> nat mres" where
  "parse_cursor cursor =
     (case cursor of
        None \<Rightarrow> Inr 0
      | Some c \<Rightarrow>
          if c = [] then Inr 0
          else case stoul c of
                 StoOk v rest \<Rightarrow> Inr v
               | _ \<Rightarrow> throw InvalidParams (''invalid cursor: '' @ c))"

definition make_next_cursor :: "nat \<Rightarrow> string" where
  "make_next_cursor next_index = dec_nat next_index"

text \<open>The loop of \<open>PaginateEntries\<close>: the entries given to \<open>emit\<close>, and the index of the next page.\<close>

fun paginate_loop :: "('a \<Rightarrow> bool) \<Rightarrow> nat \<Rightarrow> nat \<Rightarrow> nat \<Rightarrow> nat \<Rightarrow> 'a list \<Rightarrow> 'a list \<times> nat option" where
  "paginate_loop wanted cursor page index sent [] = ([], None)"
| "paginate_loop wanted cursor page index sent (e # es) =
     (if \<not> wanted e then paginate_loop wanted cursor page index sent es
      else if index < cursor then paginate_loop wanted cursor page (index + 1) sent es
      else if page \<le> sent then ([], Some index)
      else case paginate_loop wanted cursor page (index + 1) (sent + 1) es of
             (out, n) \<Rightarrow> (e # out, n))"

definition paginate_entries :: "('a \<Rightarrow> bool) \<Rightarrow> nat \<Rightarrow> nat \<Rightarrow> 'a list \<Rightarrow> 'a list \<times> nat option" where
  "paginate_entries wanted cursor page es = paginate_loop wanted cursor page 0 0 es"

text \<open>What the loop computes.\<close>

lemma paginate_loop_page:
  "cursor \<le> index \<Longrightarrow> sent \<le> page \<Longrightarrow>
   paginate_loop wanted cursor page index sent es =
     (take (page - sent) (filter wanted es),
      if page - sent < length (filter wanted es) then Some (index + (page - sent)) else None)"
proof (induction es arbitrary: index sent)
  case (Cons e es)
  show ?case
  proof (cases "wanted e")
    case True
    show ?thesis
    proof (cases "page = sent")
      case False
      with Cons.prems have "page - sent = Suc (page - Suc sent)" "Suc sent \<le> page" by auto
      with Cons.IH [of "Suc index" "Suc sent"] Cons.prems True False show ?thesis by simp
    qed (use Cons.prems True in auto)
  qed (use Cons in simp)
qed simp

lemma paginate_loop_skip:
  "index \<le> cursor \<Longrightarrow>
   paginate_loop wanted cursor page index 0 es =
     (take page (drop (cursor - index) (filter wanted es)),
      if cursor - index + page < length (filter wanted es) then Some (cursor + page) else None)"
proof (induction es arbitrary: index)
  case (Cons e es)
  show ?case
  proof (cases "wanted e \<and> index < cursor")
    case True
    with Cons.prems have "cursor - index = Suc (cursor - Suc index)" "Suc index \<le> cursor" by auto
    with Cons.IH [of "Suc index"] True show ?thesis by simp
  next
    case skip: False
    show ?thesis
    proof (cases "wanted e")
      case True
      with skip Cons.prems have "index = cursor" by simp
      then show ?thesis using paginate_loop_page [of cursor cursor 0 page wanted "e # es"] by simp
    qed (use Cons in simp)
  qed
qed simp

lemma paginate_entries_page:
  "paginate_entries wanted cursor page es =
     (take page (drop cursor (filter wanted es)),
      if cursor + page < length (filter wanted es) then Some (cursor + page) else None)"
  by (simp add: paginate_entries_def paginate_loop_skip)

lemma parse_next_cursor: "n < 2 ^ 64 \<Longrightarrow> parse_cursor (Some (make_next_cursor n)) = Inr n"
  by (simp add: parse_cursor_def make_next_cursor_def stoul_dec_nat)

lemma parse_no_cursor [simp]: "parse_cursor None = Inr 0" "parse_cursor (Some []) = Inr 0"
  by (simp_all add: parse_cursor_def)

text \<open>Cursors that were never given out are accepted too: a sign, leading blanks, anything behind the
  digits.\<close>

lemma loose_cursors:
  "parse_cursor (Some ''12abc'') = Inr 12" "parse_cursor (Some ''  7'') = Inr 7"
  "parse_cursor (Some ''-1'') = Inr (2 ^ 64 - 1)"
  by (simp_all add: parse_cursor_def stoul_def scan_decimal_def is_space_def is_digit_def byte_of_def
      digit_value_def nat_of_digits_def)

section \<open>The client\<close>

definition extract_protocol_error :: "json \<Rightarrow> (error_code \<times> string) option mres" where
  "extract_protocol_error result =
     (case json_find ''code'' result of
        None \<Rightarrow> Inr None
      | Some c \<Rightarrow> rbind (get_int c) (\<lambda>i.
          if 0 \<le> sint i then Inr None
          else case json_find ''message'' result of
                 None \<Rightarrow> Inr (Some (ucast i, ''request failed''))
               | Some m \<Rightarrow> rmap (\<lambda>s. Some (ucast i, s)) (get_string m)))"

text \<open>\<open>DoSendRequest\<close>, on the value the future of the request gives.\<close>

definition do_send_request :: "json \<Rightarrow> json mres" where
  "do_send_request result = rbind (extract_protocol_error result) (\<lambda>err.
     case err of None \<Rightarrow> Inr result | Some (code, message) \<Rightarrow> throw code message)"

definition extract_cache_hint :: "json \<Rightarrow> json option" where
  "extract_cache_hint result =
     (let ttl = json_find ''ttlMs'' result; scope = json_find ''cacheScope'' result
      in if ttl \<noteq> None \<or> scope \<noteq> None
         then Some (build_object [put_opt ''ttlMs'' (\<lambda>x. x) ttl, put_opt ''cacheScope'' (\<lambda>x. x) scope])
         else case json_find ''cacheHint'' result of
                Some hint \<Rightarrow> if is_object hint then Some hint else None
              | None \<Rightarrow> None)"

definition is_not_modified_result :: "json \<Rightarrow> bool" where
  "is_not_modified_result result \<longleftrightarrow> json_find ''notModified'' result = Some (JBool True)"

definition max_list_pages :: nat where "max_list_pages = 64"

record first_page =
  fp_hint :: "json option"
  fp_etag :: "string option"
  fp_not_modified :: bool

definition read_first_page :: "json \<Rightarrow> first_page" where
  "read_first_page result = \<lparr>fp_hint = extract_cache_hint result,
     fp_etag = (case json_find ''etag'' result of Some (JString e) \<Rightarrow> Some e | _ \<Rightarrow> None),
     fp_not_modified = is_not_modified_result result\<rparr>"

definition page_items :: "string \<Rightarrow> json \<Rightarrow> json list" where
  "page_items key result = (case json_find key result of Some (JArray xs) \<Rightarrow> xs | _ \<Rightarrow> [])"

definition page_cursor :: "json \<Rightarrow> string option" where
  "page_cursor result =
     (case json_find ''nextCursor'' result of Some (JString c) \<Rightarrow> if c = [] then None else Some c | _ \<Rightarrow> None)"

definition merged_result :: "string \<Rightarrow> json list \<Rightarrow> first_page \<Rightarrow> json" where
  "merged_result key merged first = build_object [
     put key (JArray merged),
     put_opt ''cacheHint'' (\<lambda>x. x) (fp_hint first),
     put_opt ''etag'' JString (fp_etag first),
     put_if (fp_not_modified first) ''notModified'' (JBool True)]"

text \<open>
  \<open>ask\<close> sends the parameters and waits: the value of the future.  The loop runs at most \<open>left\<close> more times;
  \<open>first\<close> is what was read from the first page.
\<close>

definition ask_page :: "(json \<Rightarrow> json) \<Rightarrow> string option \<Rightarrow> json mres" where
  "ask_page ask cursor =
     rbind (serialize_paginated_params \<lparr>pg_cursor = cursor, pg_meta = None\<rparr>) (\<lambda>params.
       do_send_request (ask params))"

primrec list_loop ::
  "(json \<Rightarrow> json) \<Rightarrow> string \<Rightarrow> nat \<Rightarrow> string option \<Rightarrow> json list \<Rightarrow> first_page option \<Rightarrow> json mres" where
  "list_loop ask key 0 current merged first =
     throw ProtocolViolation (''list pagination did not converge within '' @ dec_nat max_list_pages @ '' pages'')"
| "list_loop ask key (Suc left) current merged first =
     rbind (ask_page ask current) (\<lambda>result.
       let first' = (case first of None \<Rightarrow> read_first_page result | Some f \<Rightarrow> f);
           merged' = merged @ page_items key result
       in case page_cursor result of
            None \<Rightarrow> Inr (merged_result key merged' first')
          | Some c \<Rightarrow> list_loop ask key left (Some c) merged' (Some first'))"

definition list_pages :: "(json \<Rightarrow> json) \<Rightarrow> string \<Rightarrow> string option \<Rightarrow> json mres" where
  "list_pages ask key cursor =
     (if cursor \<noteq> None then ask_page ask cursor else list_loop ask key max_list_pages None [] None)"

section \<open>The contract\<close>

text \<open>
  A provider of the list \<open>items\<close>: asked with no cursor or with one it gave out, it answers with the page
  behind the cursor and the cursor of the next page, if there is one.
\<close>

locale paged_listing =
  fixes ask :: "json \<Rightarrow> json" and key :: string and items :: "json list" and page :: nat
  assumes page_pos: "0 < page"
    and own_key: "key \<noteq> ''nextCursor''"
    and answers_page: "\<And>cursor params i. serialize_paginated_params \<lparr>pg_cursor = cursor, pg_meta = None\<rparr> = Inr params \<Longrightarrow>
      parse_cursor cursor = Inr i \<Longrightarrow> i \<le> length items \<Longrightarrow>
      extract_protocol_error (ask params) = Inr None \<and>
      page_items key (ask params) = take page (drop i items) \<and>
      page_cursor (ask params) = (if i + page < length items then Some (make_next_cursor (i + page)) else None)"
    and page_small: "max_list_pages * page < 2 ^ 64"
begin

lemma page_answer:
  assumes "parse_cursor cursor = Inr i" "i \<le> length items"
  obtains result where "ask_page ask cursor = Inr result" "page_items key result = take page (drop i items)"
    "page_cursor result = (if i + page < length items then Some (make_next_cursor (i + page)) else None)"
proof -
  obtain params where params: "serialize_paginated_params \<lparr>pg_cursor = cursor, pg_meta = None\<rparr> = Inr params"
    by (simp add: serialize_paginated_params_def ser_opt_def)
  from answers_page [OF this assms] params show thesis
    by (intro that [of "ask params"]) (simp_all add: ask_page_def do_send_request_def)
qed

lemma loop_lists_rest:
  assumes "parse_cursor current = Inr i" "i \<le> length items" "i + left * page < 2 ^ 64"
  shows "length items \<le> i + left * page \<Longrightarrow> 0 < left \<Longrightarrow>
      \<exists>f. list_loop ask key left current merged first = Inr (merged_result key (merged @ drop i items) f)"
    and "i + left * page < length items \<Longrightarrow>
      list_loop ask key left current merged first =
        throw ProtocolViolation (''list pagination did not converge within '' @ dec_nat max_list_pages @ '' pages'')"
  using assms
proof (induction left arbitrary: current i merged first)
  case (Suc left)
  {
    case 1
    obtain result where r: "ask_page ask current = Inr result" "page_items key result = take page (drop i items)"
      "page_cursor result = (if i + page < length items then Some (make_next_cursor (i + page)) else None)"
      using page_answer [OF 1(3,4)] .
    show ?case
    proof (cases "i + page < length items")
      case True
      have "take page (drop i items) @ drop (i + page) items = drop i items"
        by (metis add.commute append_take_drop_id drop_drop)
      moreover have "parse_cursor (Some (make_next_cursor (i + page))) = Inr (i + page)"
        using 1(5) by (intro parse_next_cursor) simp
      moreover have "0 < left" using True 1(1) by (cases left) auto
      ultimately show ?thesis
        using Suc.IH(1) [of "i + page" "Some (make_next_cursor (i + page))"] True 1(1,5) r
        by (simp add: Let_def add.assoc) (metis append.assoc)
    next
      case False
      then have "take page (drop i items) = drop i items" by simp
      with r False show ?thesis by (auto simp: Let_def)
    qed
  next
    case 2
    obtain result where r: "ask_page ask current = Inr result" "page_items key result = take page (drop i items)"
      "page_cursor result = (if i + page < length items then Some (make_next_cursor (i + page)) else None)"
      using page_answer [OF 2(2,3)] .
    have more: "i + page < length items" using 2(1) by simp
    then have "parse_cursor (Some (make_next_cursor (i + page))) = Inr (i + page)"
      using 2(4) by (intro parse_next_cursor) simp
    then show ?case
      using Suc.IH(2) [of "i + page" "Some (make_next_cursor (i + page))"] more 2(1,4) r
      by (simp add: Let_def add.assoc)
  }
qed simp_all

lemma lists_all: "length items \<le> max_list_pages * page \<Longrightarrow>
  \<exists>f. list_pages ask key None = Inr (merged_result key items f)"
  using loop_lists_rest(1) [of None 0 max_list_pages "[]" None] page_small
  by (simp add: list_pages_def max_list_pages_def)

lemma too_many: "max_list_pages * page < length items \<Longrightarrow>
  list_pages ask key None =
    throw ProtocolViolation (''list pagination did not converge within '' @ dec_nat max_list_pages @ '' pages'')"
  using loop_lists_rest(2) [of None 0 max_list_pages "[]" None] page_small by (simp add: list_pages_def)

end

end
