(* ===== verification/Server_State.thy ===== *)
theory Server_State
  imports Listing Param_Headers Subscriptions Incoming_Requests Task_Store Uri_Template Skills
begin

text \<open>
  The state of \<open>McpServer\<close> (\<open>src/server/McpServer.cpp\<close>) and everything that changes it outside a request:
  registration of tools, resources, prompts and skills, the capabilities derived from them, the methods that get a
  handler, notifications and log messages, and what the server knows of its sessions.  Code given by the user is a
  function to the outcome of its call.  A call of the API or the work of a handler is one step: the registry, the
  sessions and the flags are each guarded by a mutex.
\<close>

section \<open>State\<close>

text \<open>How a call of user code ends.\<close>

datatype 'a outcome =
    Returns 'a
  | ThrowsMcp mcp_error
  | ThrowsElicitation input_requests
  | ThrowsStd string
  | ThrowsUnknown

record server_options =
  so_server_info :: "implementation option"
  so_protocol_version :: "string option"
  so_instructions :: "string option"
  so_cache_hints :: "(string, cache_hint) amap option"
  so_request_state_key :: "string option"
  so_declare_logging :: bool
  so_declare_completions :: bool
  so_max_tool_input_elements :: "nat option"
  so_supported_versions :: "string list option"
  so_subscriptions :: bool
  so_tasks_extension :: bool
  so_skills_extension :: bool
  so_apps_extension :: bool
  so_server_card :: bool
  so_etag_cache :: bool
  so_progressive_discovery :: bool
  so_file_input :: bool

record server_tool =
  st_tool :: tool
  st_invoke :: "rpc_request \<Rightarrow> call_params \<Rightarrow> call_tool_result outcome"

record resource_entry =
  rn_name :: string
  rn_uri_pattern :: string
  rn_is_template :: bool
  rn_description :: "string option"
  rn_title :: "string option"
  rn_mime_type :: "string option"
  rn_icons :: "icon list"
  rn_handler :: "(string \<Rightarrow> read_resource_result outcome) option"
  rn_template_handler :: "(string \<Rightarrow> (string, string) amap \<Rightarrow> read_resource_result outcome) option"

record resource_options =
  ro_description :: "string option"
  ro_title :: "string option"
  ro_mime_type :: "string option"
  ro_icons :: "icon list"

record prompt_entry =
  pe_name :: string
  pe_description :: "string option"
  pe_title :: "string option"
  pe_icons :: "icon list"
  pe_arguments :: "prompt_argument list option"
  pe_handler :: "string \<Rightarrow> json option \<Rightarrow> get_prompt_result outcome"

record prompt_options =
  po_description :: "string option"
  po_title :: "string option"
  po_icons :: "icon list"
  po_arguments :: "prompt_argument list option"

record client_session =
  cs_capabilities :: "client_capabilities option"
  cs_client_info :: "implementation option"
  cs_initialized :: bool

record server =
  sv_handler :: session_handler
  sv_options :: server_options
  sv_session_id :: string
  sv_capabilities :: server_capabilities
  sv_tools :: "(string, server_tool) amap"
  sv_cached_tools :: "tool list_result option"
  sv_resources :: "resource_entry list"
  sv_prompts :: "prompt_entry list"
  sv_skills :: "skill list"
  sv_directory_read :: bool
  sv_client_capabilities :: "client_capabilities option"
  sv_client_info :: "implementation option"
  sv_clients :: "(string, client_session) amap"
  sv_completion :: "(complete_params \<Rightarrow> complete_result outcome) option"
  sv_running_flags :: "(string, bool) amap"
  sv_initialized :: bool
  sv_log_level :: "logging_level option"
  sv_cache_hook :: "(string \<Rightarrow> cache_hint option) option"
  sv_next_subscription :: "64 word"
  sv_store :: "file_task_store option"
  sv_methods :: "string list"

section \<open>Sessions\<close>

definition no_client_session :: client_session where
  "no_client_session = \<lparr>cs_capabilities = None, cs_client_info = None, cs_initialized = False\<rparr>"

definition client_session_of :: "server \<Rightarrow> string \<Rightarrow> client_session" where
  "client_session_of sv session = (case amap_find session (sv_clients sv) of Some c \<Rightarrow> c | None \<Rightarrow> no_client_session)"

definition client_capabilities_for :: "server \<Rightarrow> string \<Rightarrow> client_capabilities option" where
  "client_capabilities_for sv session =
     (if session = [] then sv_client_capabilities sv
      else case amap_find session (sv_clients sv) of None \<Rightarrow> None | Some c \<Rightarrow> cs_capabilities c)"

definition client_info_for :: "server \<Rightarrow> string \<Rightarrow> implementation option" where
  "client_info_for sv session =
     (if session = [] then sv_client_info sv
      else case amap_find session (sv_clients sv) of None \<Rightarrow> None | Some c \<Rightarrow> cs_client_info c)"

definition is_session_initialized :: "server \<Rightarrow> string \<Rightarrow> bool" where
  "is_session_initialized sv session \<longleftrightarrow>
     (if session = [] then sv_initialized sv
      else case amap_find session (sv_clients sv) of None \<Rightarrow> False | Some c \<Rightarrow> cs_initialized c)"

definition mark_session_initialized :: "string \<Rightarrow> server \<Rightarrow> server" where
  "mark_session_initialized session sv =
     (if session = [] then sv\<lparr>sv_initialized := True\<rparr>
      else sv\<lparr>sv_initialized := True,
        sv_clients := amap_put session ((client_session_of sv session)\<lparr>cs_initialized := True\<rparr>) (sv_clients sv)\<rparr>)"

definition effective_session_id :: "server \<Rightarrow> string \<Rightarrow> string" where
  "effective_session_id sv session =
     (if session \<noteq> [] then session
      else if sv_client_capabilities sv \<noteq> None then []
      else case sv_clients sv of [(s, c)] \<Rightarrow> s | _ \<Rightarrow> [])"

definition is_modern_session :: "server \<Rightarrow> string \<Rightarrow> bool" where
  "is_modern_session sv session = is_modern_protocol_version (version_for (sv_handler sv) session)"

definition server_is_running :: "server \<Rightarrow> bool" where
  "server_is_running sv \<longleftrightarrow> sv_initialized sv \<and> \<not> sh_closed (sv_handler sv)"

section \<open>Versions, names and cache hints\<close>

definition effective_supported_versions :: "server_options \<Rightarrow> string list" where
  "effective_supported_versions o' =
     (case so_supported_versions o' of
        Some vs \<Rightarrow> if vs = [] then protocol_versions else vs
      | None \<Rightarrow> protocol_versions)"

definition sdk_version :: string where "sdk_version = ''0.3.11''"

definition resolve_server_info :: "server_options \<Rightarrow> implementation" where
  "resolve_server_info o' =
     (case so_server_info o' of
        Some info \<Rightarrow> info
      | None \<Rightarrow> \<lparr>im_name = ''mcp-server'', im_version = sdk_version, im_title = None, im_icons = [],
          im_description = None, im_website_url = None\<rparr>)"

definition has_cache_hint :: "cache_hint \<Rightarrow> bool" where
  "has_cache_hint h \<longleftrightarrow> ch_ttl_ms h \<noteq> None \<or> ch_cache_scope h \<noteq> None"

definition cache_hint_problems :: "cache_hint \<Rightarrow> string list" where
  "cache_hint_problems h =
     (case ch_ttl_ms h of
        None \<Rightarrow> [''missing ttlMs'']
      | Some t \<Rightarrow> if sint t < 0 then [''ttlMs must be >= 0, got '' @ dec_int (sint t)] else []) @
     (case ch_cache_scope h of
        None \<Rightarrow> [''missing cacheScope'']
      | Some s \<Rightarrow>
          if s \<noteq> ''public'' \<and> s \<noteq> ''private'' then
            [''cacheScope must be '' @ [chr 34] @ ''public'' @ [chr 34] @ '' or '' @ [chr 34] @ ''private'' @ [chr 34] @
             '', got '' @ [chr 34] @ s @ [chr 34]]
          else [])"

fun join_problems :: "string list \<Rightarrow> string" where
  "join_problems [] = []"
| "join_problems [p] = p"
| "join_problems (p # ps) = p @ ''; '' @ join_problems ps"

definition validate_modern_cache_hint :: "cache_hint \<Rightarrow> string \<Rightarrow> unit mres" where
  "validate_modern_cache_hint h method =
     (if cache_hint_problems h = [] then Inr ()
      else throw InvalidParams (''invalid cache hint for '' @ method @ '': '' @ join_problems (cache_hint_problems h)))"

definition no_cache_hint :: cache_hint where
  "no_cache_hint = \<lparr>ch_ttl_ms = None, ch_cache_scope = None\<rparr>"

definition checked_hint :: "bool \<Rightarrow> cache_hint \<Rightarrow> string \<Rightarrow> cache_hint mres" where
  "checked_hint modern h method = (if modern then rmap (\<lambda>_. h) (validate_modern_cache_hint h method) else Inr h)"

definition resolve_cache_hint :: "server \<Rightarrow> string \<Rightarrow> string \<Rightarrow> cache_hint mres" where
  "resolve_cache_hint sv method session =
     (let modern = is_modern_session sv session;
          hooked = (case sv_cache_hook sv of Some hook \<Rightarrow> hook method | None \<Rightarrow> None);
          configured = (case so_cache_hints (sv_options sv) of Some m \<Rightarrow> amap_find method m | None \<Rightarrow> None)
      in case hooked of
           Some h \<Rightarrow> checked_hint modern h method
         | None \<Rightarrow>
             (case configured of
                Some h \<Rightarrow> checked_hint modern h method
              | None \<Rightarrow> Inr (if modern then \<lparr>ch_ttl_ms = Some 0, ch_cache_scope = Some ''private''\<rparr> else no_cache_hint)))"

text \<open>\<open>ApplyCacheHintAndSerialize\<close>: an empty hint leaves the result as it is.\<close>

definition applied_hint :: "cache_hint \<Rightarrow> cache_hint option \<Rightarrow> cache_hint option" where
  "applied_hint hint old = (if has_cache_hint hint then Some hint else old)"

definition set_cacheable :: "(string \<Rightarrow> cache_hint option) option \<Rightarrow> server \<Rightarrow> server" where
  "set_cacheable hook sv = sv\<lparr>sv_cache_hook := hook\<rparr>"

section \<open>Notifications the server sends\<close>

definition empty_object :: json where "empty_object = JObject []"

definition send_list_changed :: "server \<Rightarrow> string \<Rightarrow> session_event list mres" where
  "send_list_changed sv method =
     (if is_modern_session sv [] then Inr (notify_subscribers method empty_object None [] (sv_handler sv))
      else send_notification (sv_handler sv) method empty_object [])"

definition send_resource_updated :: "server \<Rightarrow> string \<Rightarrow> session_event list" where
  "send_resource_updated sv uri =
     notify_subscribers ''notifications/resources/updated'' (build_object [put ''uri'' (JString uri)]) (Some uri) []
       (sv_handler sv)"

fun logging_level_value :: "logging_level \<Rightarrow> nat" where
  "logging_level_value LogDebug = 0"
| "logging_level_value LogInfo = 1"
| "logging_level_value LogNotice = 2"
| "logging_level_value LogWarning = 3"
| "logging_level_value LogError = 4"
| "logging_level_value LogCritical = 5"
| "logging_level_value LogAlert = 6"
| "logging_level_value LogEmergency = 7"

text \<open>
  What the transport does with a notification that belongs to a request: \<open>buffers\<close> says whether it takes it into
  the stream of a request, \<open>scoped\<close> whether it wants such notifications only there.
\<close>

definition request_notification :: "server \<Rightarrow> string \<Rightarrow> json \<Rightarrow> rpc_notification mres" where
  "request_notification sv method params =
     rmap (\<lambda>meta. \<lparr>nt_jsonrpc = json_rpc_version, nt_method = method, nt_params = Some params, nt_meta = Some meta,
         nt_session = []\<rparr>)
       (serialize_request_meta (version_meta (version_for (sv_handler sv) [])))"

datatype log_delivery = Buffered rpc_notification | Dropped | Notified "session_event list"

definition emit_logging_message ::
  "(rpc_notification \<Rightarrow> bool) \<Rightarrow> bool \<Rightarrow> server \<Rightarrow> logging_level \<Rightarrow> string \<Rightarrow> log_delivery mres" where
  "emit_logging_message buffers scoped sv level text =
     (let params = build_object [put ''level'' (serialize_logging_level level), put ''data'' (JString text),
            put ''logger'' (JString ''mcp-server'')];
          send = rmap Notified (send_notification (sv_handler sv) ''notifications/message'' params [])
      in if is_modern_session sv [] then
           rbind (request_notification sv ''notifications/message'' params) (\<lambda>n.
             if buffers n then Inr (Buffered n) else if scoped then Inr Dropped else send)
         else send)"

definition send_logging_message ::
  "(rpc_notification \<Rightarrow> bool) \<Rightarrow> bool \<Rightarrow> server \<Rightarrow> logging_level \<Rightarrow> string \<Rightarrow> logging_level option \<Rightarrow> log_delivery mres" where
  "send_logging_message buffers scoped sv level text min_level =
     (case min_level of
        Some m \<Rightarrow>
          if logging_level_value level < logging_level_value m then Inr Dropped
          else emit_logging_message buffers scoped sv level text
      | None \<Rightarrow>
          if is_modern_session sv [] then Inr Dropped
          else (case sv_log_level sv of
                  Some c \<Rightarrow> if logging_level_value level < logging_level_value c then Inr Dropped
                    else emit_logging_message buffers scoped sv level text
                | None \<Rightarrow> emit_logging_message buffers scoped sv level text))"

definition send_progress ::
  "(rpc_notification \<Rightarrow> bool) \<Rightarrow> server \<Rightarrow> progress_params \<Rightarrow> log_delivery mres" where
  "send_progress buffers sv params =
     (let wire = serialize_progress_params params;
          send = rmap Notified (send_notification (sv_handler sv) ''notifications/progress'' wire [])
      in if is_modern_session sv [] then
           rbind (request_notification sv ''notifications/progress'' wire) (\<lambda>n. if buffers n then Inr (Buffered n) else send)
         else send)"

section \<open>Capabilities and wiring\<close>

definition tasks_extension_id :: string where "tasks_extension_id = ''io.modelcontextprotocol/tasks''"
definition skills_extension_id :: string where "skills_extension_id = ''io.modelcontextprotocol/skills''"
definition apps_extension_id :: string where "apps_extension_id = ''io.modelcontextprotocol/ui''"
definition server_card_extension_id :: string where
  "server_card_extension_id = ''io.modelcontextprotocol/server-card''"

definition add_extension :: "bool \<Rightarrow> string \<Rightarrow> json \<Rightarrow> server_capabilities \<Rightarrow> server_capabilities" where
  "add_extension enabled key settings c =
     (if enabled then c\<lparr>sc_extensions := Some (amap_put key settings (case sc_extensions c of Some m \<Rightarrow> m | None \<Rightarrow> []))\<rparr>
      else c)"

definition derived_capabilities :: "server \<Rightarrow> server_capabilities" where
  "derived_capabilities sv =
     (let o' = sv_options sv; c0 = sv_capabilities sv;
          c1 = (if sv_tools sv \<noteq> [] then c0\<lparr>sc_tools := Some \<lparr>tcap_list_changed = Some True\<rparr>\<rparr> else c0);
          c2 = (if sv_resources sv \<noteq> [] then c1\<lparr>sc_resources := Some \<lparr>rcap_subscribe = Some True,
            rcap_list_changed = Some True\<rparr>\<rparr> else c1);
          c3 = (if sv_prompts sv \<noteq> [] then c2\<lparr>sc_prompts := Some \<lparr>pcap_list_changed = Some True\<rparr>\<rparr> else c2);
          c4 = (if so_declare_logging o' then c3\<lparr>sc_logging := Some ()\<rparr> else c3);
          c5 = (if so_declare_completions o' then c4\<lparr>sc_completions := Some ()\<rparr> else c4);
          c6 = add_extension (so_tasks_extension o') tasks_extension_id empty_object c5;
          c7 = add_extension (so_apps_extension o') apps_extension_id empty_object c6;
          c8 = add_extension (so_server_card o') server_card_extension_id empty_object c7
      in add_extension (so_skills_extension o' \<and> sv_skills sv \<noteq> [] \<and> sc_resources c8 \<noteq> None) skills_extension_id
           (serialize_skills_settings (sv_directory_read sv)) c8)"

definition derive_capabilities :: "server \<Rightarrow> server" where
  "derive_capabilities sv = sv\<lparr>sv_capabilities := derived_capabilities sv\<rparr>"

text \<open>The methods that \<open>WireHandlers\<close> gives a handler; a handler once set stays.\<close>

definition wired_methods :: "server \<Rightarrow> string list" where
  "wired_methods sv =
     (if sv_tools sv \<noteq> [] then [''tools/list''] else []) @ [''tools/call''] @
     (if list_ex (\<lambda>r. \<not> rn_is_template r) (sv_resources sv) then [''resources/list''] else []) @
     (if list_ex rn_is_template (sv_resources sv) then [''resources/templates/list''] else []) @
     (if sv_resources sv \<noteq> [] then [''resources/read'', ''resources/subscribe'', ''resources/unsubscribe''] else []) @
     (if sv_prompts sv \<noteq> [] then [''prompts/list''] else []) @
     [''prompts/get'', ''initialize'', ''server/discover'', ''ping'', ''logging/setLevel'', ''completion/complete'',
      ''server/extensions/list''] @
     (if sv_store sv \<noteq> None then [''tasks/get'', ''tasks/update'', ''tasks/cancel'', ''tasks/result'', ''tasks/list''] else []) @
     (if sv_skills sv \<noteq> [] then [''skills/list'', ''skills/get'', ''resources/directory/read''] else []) @
     [''subscriptions/listen'']"

definition wire_handlers :: "server \<Rightarrow> server" where
  "wire_handlers sv = sv\<lparr>sv_methods := fold List.insert (wired_methods sv) (sv_methods sv)\<rparr>"

definition no_server_capabilities :: server_capabilities where
  "no_server_capabilities = \<lparr>sc_tools = None, sc_resources = None, sc_prompts = None, sc_logging = None,
     sc_sampling = None, sc_roots = None, sc_elicitation = None, sc_completions = None, sc_subscriptions = None,
     sc_extensions = None, sc_experimental = None\<rparr>"

text \<open>The constructor, up to the start of the transport; \<open>session_id\<close> is the random name of the server's own session.\<close>

definition new_server :: "server_options \<Rightarrow> bool \<Rightarrow> string \<Rightarrow> (string \<Rightarrow> cache_hint option) option \<Rightarrow>
    file_task_store option \<Rightarrow> server" where
  "new_server o' canceller session_id hook store =
     (let version = (case so_protocol_version o' of Some v \<Rightarrow> v | None \<Rightarrow> latest_protocol_version);
          h0 = (new_handler (make_wire_codec version) canceller)\<lparr>sh_server_info := Some (resolve_server_info o')\<rparr>;
          h1 = set_supported_protocol_versions (effective_supported_versions o') h0;
          h2 = (case so_protocol_version o' of Some v \<Rightarrow> set_negotiated_protocol_version [] v h1 | None \<Rightarrow> h1);
          sv = \<lparr>sv_handler = h2, sv_options = o', sv_session_id = session_id, sv_capabilities = no_server_capabilities,
            sv_tools = [], sv_cached_tools = None, sv_resources = [], sv_prompts = [], sv_skills = [],
            sv_directory_read = False, sv_client_capabilities = None, sv_client_info = None, sv_clients = [],
            sv_completion = None, sv_running_flags = [], sv_initialized = False, sv_log_level = None,
            sv_cache_hook = hook, sv_next_subscription = 1, sv_store = store, sv_methods = []\<rparr>
      in derive_capabilities (wire_handlers sv))"

text \<open>The verifier of request states the server installs: the user's own, or the check of the signature.\<close>

definition server_request_state_verifier ::
  "(string \<Rightarrow> bool) option \<Rightarrow> (string \<Rightarrow> string \<Rightarrow> bool) \<Rightarrow> server_options \<Rightarrow> (string \<Rightarrow> bool) option" where
  "server_request_state_verifier own verify o' =
     (case own of
        Some f \<Rightarrow> Some f
      | None \<Rightarrow> map_option (\<lambda>key state. verify key state) (so_request_state_key o'))"

section \<open>Registration\<close>

definition is_valid_tool_name :: "string \<Rightarrow> bool" where
  "is_valid_tool_name name \<longleftrightarrow> name \<noteq> [] \<and> length name \<le> 128 \<and>
     list_all (\<lambda>c. is_letter c \<or> (CHR ''0'' \<le> c \<and> c \<le> CHR ''9'') \<or> c = CHR ''.'' \<or> c = CHR ''_'' \<or> c = CHR ''-'') name"

text \<open>The end of every registration; \<open>method\<close> is the notification, if there is one.\<close>

definition registered :: "string option \<Rightarrow> server \<Rightarrow> server \<times> session_event list mres" where
  "registered method sv =
     (let sv1 = derive_capabilities (wire_handlers sv)
      in (sv1, case method of
                 Some m \<Rightarrow> if server_is_running sv1 then send_list_changed sv1 m else Inr []
               | None \<Rightarrow> Inr []))"

definition refuse :: "string \<Rightarrow> server \<Rightarrow> server \<times> session_event list mres" where
  "refuse message sv = (sv, throw InvalidParams message)"

definition register_tool :: "server_tool \<Rightarrow> server \<Rightarrow> server \<times> session_event list mres" where
  "register_tool t sv =
     (let name = tl_name (st_tool t) in
      if \<not> is_valid_tool_name name then refuse (''invalid tool name: '' @ name) sv
      else case param_annotations (tl_input_schema (st_tool t)) of
             Inl reason \<Rightarrow> refuse reason sv
           | Inr found \<Rightarrow>
               if amap_find name (sv_tools sv) \<noteq> None then refuse (''tool already registered: '' @ name) sv
               else registered (Some ''notifications/tools/list_changed'')
                      (sv\<lparr>sv_tools := amap_put name t (sv_tools sv), sv_cached_tools := None\<rparr>))"

text \<open>The first entry that has the name or the pattern, and the message for it.\<close>

fun resource_conflict :: "string \<Rightarrow> string \<Rightarrow> resource_entry list \<Rightarrow> string option" where
  "resource_conflict name pattern [] = None"
| "resource_conflict name pattern (e # es) =
     (if rn_name e = name then Some (''resource already registered: '' @ name)
      else if rn_uri_pattern e = pattern then Some (''resource uri already registered: '' @ pattern)
      else resource_conflict name pattern es)"

definition add_resource :: "resource_entry \<Rightarrow> server \<Rightarrow> server \<times> session_event list mres" where
  "add_resource e sv =
     (case resource_conflict (rn_name e) (rn_uri_pattern e) (sv_resources sv) of
        Some message \<Rightarrow> refuse message sv
      | None \<Rightarrow> registered (Some ''notifications/resources/list_changed'')
          (sv\<lparr>sv_resources := sv_resources sv @ [e]\<rparr>))"

definition register_resource ::
  "string \<Rightarrow> string \<Rightarrow> resource_options \<Rightarrow> (string \<Rightarrow> read_resource_result outcome) option \<Rightarrow> server \<Rightarrow>
   server \<times> session_event list mres" where
  "register_resource name uri opts handler sv =
     (if handler = None then refuse (''resource handler must not be empty: '' @ name) sv
      else add_resource \<lparr>rn_name = name, rn_uri_pattern = uri, rn_is_template = False,
        rn_description = ro_description opts, rn_title = ro_title opts, rn_mime_type = ro_mime_type opts,
        rn_icons = ro_icons opts, rn_handler = handler, rn_template_handler = None\<rparr> sv)"

definition register_resource_template ::
  "string \<Rightarrow> string \<Rightarrow> resource_options \<Rightarrow> (string \<Rightarrow> (string, string) amap \<Rightarrow> read_resource_result outcome) option \<Rightarrow>
   server \<Rightarrow> server \<times> session_event list mres" where
  "register_resource_template name uri_template opts handler sv =
     (if handler = None then refuse (''resource template handler must not be empty: '' @ name) sv
      else case parse_uri_template uri_template of
             Inl error \<Rightarrow> refuse (''invalid resource template '' @ [chr 39] @ uri_template @ [chr 39] @ '': '' @ error) sv
           | Inr parsed \<Rightarrow> add_resource \<lparr>rn_name = name, rn_uri_pattern = uri_template, rn_is_template = True,
               rn_description = ro_description opts, rn_title = ro_title opts, rn_mime_type = ro_mime_type opts,
               rn_icons = ro_icons opts, rn_handler = None, rn_template_handler = handler\<rparr> sv)"

definition register_prompt ::
  "string \<Rightarrow> prompt_options \<Rightarrow> (string \<Rightarrow> json option \<Rightarrow> get_prompt_result outcome) option \<Rightarrow> server \<Rightarrow>
   server \<times> session_event list mres" where
  "register_prompt name opts handler sv =
     (case handler of
        None \<Rightarrow> refuse (''prompt handler must not be empty: '' @ name) sv
      | Some f \<Rightarrow>
          if list_ex (\<lambda>e. pe_name e = name) (sv_prompts sv) then refuse (''prompt already registered: '' @ name) sv
          else registered (Some ''notifications/prompts/list_changed'') (sv\<lparr>sv_prompts := sv_prompts sv @
            [\<lparr>pe_name = name, pe_description = po_description opts, pe_title = po_title opts, pe_icons = po_icons opts,
              pe_arguments = po_arguments opts, pe_handler = f\<rparr>]\<rparr>))"

definition skill_file_suffix :: string where "skill_file_suffix = ''/SKILL.md''"

definition is_skill_entry_uri :: "string \<Rightarrow> bool" where
  "is_skill_entry_uri uri \<longleftrightarrow>
     length skill_file_suffix < length uri \<and>
     drop (length uri - length skill_file_suffix) uri = skill_file_suffix \<and>
     (case find_sub ''://'' uri of
        None \<Rightarrow> False
      | Some scheme_end \<Rightarrow> scheme_end \<noteq> 0 \<and>
          (let after = drop (scheme_end + 3) uri
           in case find_sub ''/'' after of
                None \<Rightarrow> False
              | Some slash \<Rightarrow> slash \<noteq> 0 \<and> slash + 1 < length after))"

definition register_skill :: "skill \<Rightarrow> server \<Rightarrow> server \<times> session_event list mres" where
  "register_skill s sv =
     (if \<not> is_skill_entry_uri (sk_uri s) then refuse (''invalid skill uri: '' @ sk_uri s) sv
      else if list_ex (\<lambda>e. sk_uri e = sk_uri s) (sv_skills sv) then refuse (''skill already registered: '' @ sk_uri s) sv
      else registered None (sv\<lparr>sv_skills := sv_skills sv @ [s]\<rparr>))"

definition set_skills_directory_read :: "bool \<Rightarrow> server \<Rightarrow> server" where
  "set_skills_directory_read enabled sv = derive_capabilities (sv\<lparr>sv_directory_read := enabled\<rparr>)"

definition set_completion_handler :: "(complete_params \<Rightarrow> complete_result outcome) option \<Rightarrow> server \<Rightarrow> unit mres \<times> server" where
  "set_completion_handler handler sv =
     (if handler = None then (throw InvalidParams ''completion handler must not be empty'', sv)
      else (Inr (), sv\<lparr>sv_completion := handler\<rparr>))"

text \<open>\<open>ResolveToolParamAnnotations\<close>, which the HTTP transport calls to check the headers of a tool call.\<close>

definition resolve_tool_param_annotations :: "server \<Rightarrow> string \<Rightarrow> param_annotation list" where
  "resolve_tool_param_annotations sv name =
     (case amap_find name (sv_tools sv) of
        None \<Rightarrow> []
      | Some t \<Rightarrow> (case param_annotations (tl_input_schema (st_tool t)) of Inl r \<Rightarrow> [] | Inr found \<Rightarrow> found))"

end
