(* ===== verification/Server_Handlers.thy ===== *)
theory Server_Handlers
  imports Server_State Request_State
begin

text \<open>
  The request handlers of \<open>McpServer\<close> for the handshake, listings, reading, prompts, completion, skills and
  subscriptions (\<open>src/server/McpServer.cpp\<close>).  A handler that throws is answered at once; one that returns has
  settled its promise or handed it to a thread, whose result is the settled future here: such a thread touches no
  state of the server.  Times are arguments.
\<close>

section \<open>The outcome of a handler\<close>

datatype handled = Thrown mcp_error | ThrownOther | Settled future_result

definition answer :: "json \<Rightarrow> handled" where "answer v = Settled (FutureValue v)"

definition failed :: "error_code \<Rightarrow> string \<Rightarrow> handled" where
  "failed code message = Settled (FutureError (McpError code message None))"

definition thrown_or :: "'a mres \<Rightarrow> ('a \<Rightarrow> handled) \<Rightarrow> handled" where
  "thrown_or r k = (case r of Inl e \<Rightarrow> Thrown e | Inr x \<Rightarrow> k x)"

definition require_initialized :: "server \<Rightarrow> rpc_request \<Rightarrow> handled \<Rightarrow> handled" where
  "require_initialized sv r k =
     (if is_modern_session sv (rq_session r) \<or> is_session_initialized sv (rq_session r) then k
      else failed InvalidRequest ''Server not initialized'')"

text \<open>\<open>if (req.params) params = Deserialize(*req.params)\<close>.\<close>

definition read_params :: "rpc_request \<Rightarrow> 'a \<Rightarrow> (json \<Rightarrow> 'a mres) \<Rightarrow> 'a mres" where
  "read_params r dflt read = (case rq_params r of None \<Rightarrow> Inr dflt | Some p \<Rightarrow> read p)"

definition empty_answer :: json where
  "empty_answer = serialize_empty_result \<lparr>er_meta = None, er_result_type = RtComplete\<rparr>"

text \<open>What becomes of the outcome of user code on its thread; exceptions that are no \<open>McpError\<close> reach the worker as
  they are.\<close>

definition settle :: "'a outcome \<Rightarrow> ('a \<Rightarrow> json mres) \<Rightarrow> handled" where
  "settle out finish =
     (case out of
        Returns x \<Rightarrow> (case finish x of Inl e \<Rightarrow> Settled (FutureError e) | Inr v \<Rightarrow> answer v)
      | ThrowsMcp e \<Rightarrow> Settled (FutureError e)
      | _ \<Rightarrow> Settled FutureFailed)"

section \<open>Listings\<close>

definition list_cursor :: "rpc_request \<Rightarrow> nat mres" where
  "list_cursor r = (case rq_params r of
     None \<Rightarrow> Inr 0
   | Some p \<Rightarrow> rbind (deserialize_paginated_params p) (\<lambda>pp. parse_cursor (pg_cursor pp)))"

definition list_page :: "'a list \<Rightarrow> nat option \<Rightarrow> cache_hint \<Rightarrow> 'a list_result" where
  "list_page items next_index hint = \<lparr>lr_items = items, lr_next_cursor = map_option make_next_cursor next_index,
     lr_cache_hint = applied_hint hint None, lr_meta = None, lr_result_type = RtComplete\<rparr>"

definition icons_if_any :: "icon list \<Rightarrow> icon list option" where
  "icons_if_any icons = (if icons = [] then None else Some icons)"

definition entry_resource :: "resource_entry \<Rightarrow> resource" where
  "entry_resource e = \<lparr>re_uri = rn_uri_pattern e, re_name = rn_name e, re_title = rn_title e,
     re_description = rn_description e, re_mime_type = rn_mime_type e, re_size = None,
     re_icons = icons_if_any (rn_icons e), re_annotations = None, re_meta = None\<rparr>"

definition entry_template :: "resource_entry \<Rightarrow> resource_template" where
  "entry_template e = \<lparr>rt_uri_template = rn_uri_pattern e, rt_name = rn_name e, rt_title = rn_title e,
     rt_description = rn_description e, rt_mime_type = rn_mime_type e, rt_icons = icons_if_any (rn_icons e),
     rt_annotations = None, rt_meta = None\<rparr>"

definition entry_prompt :: "prompt_entry \<Rightarrow> prompt" where
  "entry_prompt e = \<lparr>pr_name = pe_name e, pr_title = pe_title e, pr_description = pe_description e,
     pr_arguments = pe_arguments e, pr_icons = icons_if_any (pe_icons e), pr_meta = None\<rparr>"

definition answer_list ::
  "server \<Rightarrow> rpc_request \<Rightarrow> string \<Rightarrow> (bool \<Rightarrow> 'b list_result \<Rightarrow> json) \<Rightarrow> 'b list \<Rightarrow> nat option \<Rightarrow> handled" where
  "answer_list sv r method serialize items next_index =
     thrown_or (resolve_cache_hint sv method (rq_session r)) (\<lambda>hint.
       answer (serialize (so_etag_cache (sv_options sv)) (list_page items next_index hint)))"

definition handle_list_resources :: "server \<Rightarrow> rpc_request \<Rightarrow> handled" where
  "handle_list_resources sv r = require_initialized sv r (
     thrown_or (list_cursor r) (\<lambda>cursor.
       case paginate_entries (\<lambda>e. \<not> rn_is_template e) cursor default_page_size (sv_resources sv) of
         (es, next_index) \<Rightarrow>
           answer_list sv r ''resources/list'' serialize_list_resources_result (map entry_resource es) next_index))"

definition handle_list_resource_templates :: "server \<Rightarrow> rpc_request \<Rightarrow> handled" where
  "handle_list_resource_templates sv r = require_initialized sv r (
     thrown_or (list_cursor r) (\<lambda>cursor.
       case paginate_entries rn_is_template cursor default_page_size (sv_resources sv) of
         (es, next_index) \<Rightarrow>
           answer_list sv r ''resources/templates/list'' serialize_list_templates_result (map entry_template es) next_index))"

definition handle_list_prompts :: "server \<Rightarrow> rpc_request \<Rightarrow> handled" where
  "handle_list_prompts sv r = require_initialized sv r (
     thrown_or (list_cursor r) (\<lambda>cursor.
       case paginate_entries (\<lambda>_. True) cursor default_page_size (sv_prompts sv) of
         (es, next_index) \<Rightarrow>
           answer_list sv r ''prompts/list'' serialize_list_prompts_result (map entry_prompt es) next_index))"

text \<open>\<open>tools/list\<close>: all tools at once from the cache, or with progressive discovery a page of those that match.\<close>

definition build_tools_result :: "server \<Rightarrow> tool list_result" where
  "build_tools_result sv = \<lparr>lr_items = map (\<lambda>(name, t). st_tool t) (sv_tools sv), lr_next_cursor = None,
     lr_cache_hint = None, lr_meta = None, lr_result_type = RtComplete\<rparr>"

definition ascii_lower :: "string \<Rightarrow> string" where
  "ascii_lower s = map (\<lambda>c. if CHR ''A'' \<le> c \<and> c \<le> CHR ''Z'' then chr (byte_of c + 32) else c) s"

definition tool_matches :: "string \<Rightarrow> tool \<Rightarrow> bool" where
  "tool_matches query t \<longleftrightarrow> query = [] \<or>
     find_sub query (ascii_lower (tl_name t)) \<noteq> None \<or>
     (case tl_description t of Some d \<Rightarrow> find_sub query (ascii_lower d) \<noteq> None | None \<Rightarrow> False)"

definition discovery_page_size :: "json \<Rightarrow> nat" where
  "discovery_page_size p =
     (case json_find ''pageSize'' p of
        Some (JInt v) \<Rightarrow> nat (if sint v < 1 then 1 else if 100 < sint v then 100 else sint v)
      | _ \<Rightarrow> default_page_size)"

definition discovery_query :: "json \<Rightarrow> string" where
  "discovery_query p = (case json_find ''query'' p of Some (JString q) \<Rightarrow> q | _ \<Rightarrow> [])"

definition discovery_request :: "rpc_request \<Rightarrow> (nat mres \<times> string \<times> nat) mres" where
  "discovery_request r =
     (case rq_params r of
        Some p \<Rightarrow>
          if is_object p then
            rmap (\<lambda>pp. (parse_cursor (pg_cursor pp), discovery_query p, discovery_page_size p)) (deserialize_paginated_params p)
          else Inr (Inr 0, [], default_page_size)
      | None \<Rightarrow> Inr (Inr 0, [], default_page_size))"

definition handle_list_tools :: "server \<Rightarrow> rpc_request \<Rightarrow> server \<times> handled" where
  "handle_list_tools sv r =
     (if \<not> (is_modern_session sv (rq_session r) \<or> is_session_initialized sv (rq_session r))
      then (sv, failed InvalidRequest ''Server not initialized'')
      else if \<not> so_progressive_discovery (sv_options sv) then
        (let cached = (case sv_cached_tools sv of Some c \<Rightarrow> c | None \<Rightarrow> build_tools_result sv)
         in (sv\<lparr>sv_cached_tools := Some cached\<rparr>,
             thrown_or (resolve_cache_hint sv ''tools/list'' (rq_session r)) (\<lambda>hint.
               answer (serialize_list_tools_result (so_etag_cache (sv_options sv))
                 (cached\<lparr>lr_cache_hint := applied_hint hint (lr_cache_hint cached)\<rparr>)))))
      else (sv,
        thrown_or (discovery_request r) (\<lambda>(cursor, query, page_size).
          let found = sort_key tl_name (filter (tool_matches (ascii_lower query)) (map (\<lambda>(name, t). st_tool t) (sv_tools sv)))
          in thrown_or cursor (\<lambda>c.
               case paginate_entries (\<lambda>_. True) c page_size found of
                 (ts, next_index) \<Rightarrow> answer_list sv r ''tools/list'' serialize_list_tools_result ts next_index))))"

section \<open>Reading and prompts\<close>

text \<open>The payload of the state that is minted for a request that needs input.\<close>

definition decode_state_payload_for_mint :: "string option \<Rightarrow> json" where
  "decode_state_payload_for_mint state =
     (case state of
        None \<Rightarrow> empty_object
      | Some s \<Rightarrow>
          (case parse_document s of
             Inr (JObject m) \<Rightarrow> JObject m
           | _ \<Rightarrow> (case decode_request_state_payload s of Some (JObject m) \<Rightarrow> JObject m | _ \<Rightarrow> empty_object)))"

definition mint_state :: "server_options \<Rightarrow> int \<Rightarrow> input_required \<Rightarrow> input_required" where
  "mint_state o' now ir =
     (case so_request_state_key o' of
        None \<Rightarrow> ir
      | Some key \<Rightarrow>
          (case decode_state_payload_for_mint (iq_request_state ir) of
             JObject m \<Rightarrow> ir\<lparr>iq_request_state := Some (mint_request_state key (JObject (amap_put ''iat'' (JInt (word_of_int now)) m)))\<rparr>
           | _ \<Rightarrow> ir))"

definition strip_cache_wire_fields :: "json \<Rightarrow> json" where
  "strip_cache_wire_fields j =
     (case j of
        JObject m \<Rightarrow> JObject (amap_erase ''cacheScope'' (amap_erase ''ttlMs'' (amap_erase ''cacheHint'' m)))
      | _ \<Rightarrow> j)"

definition has_apps_uri_scheme :: "string \<Rightarrow> bool" where
  "has_apps_uri_scheme uri \<longleftrightarrow> take 5 uri = ''ui://''"

definition validate_ui_meta :: "string \<Rightarrow> unit mres" where
  "validate_ui_meta uri =
     (if uri = [] then throw InvalidParams ''ui resource_uri must not be empty''
      else if take 5 uri \<noteq> ''ui://'' then throw InvalidParams ''ui resource_uri must start with ui://''
      else Inr ())"

definition find_exact_resource :: "string \<Rightarrow> resource_entry list \<Rightarrow> resource_entry option" where
  "find_exact_resource uri es = find (\<lambda>e. \<not> rn_is_template e \<and> rn_uri_pattern e = uri) es"

fun find_template_resource :: "string \<Rightarrow> resource_entry list \<Rightarrow> (resource_entry \<times> (string, string) amap) option" where
  "find_template_resource uri [] = None"
| "find_template_resource uri (e # es) =
     (if \<not> rn_is_template e then find_template_resource uri es
      else case parse_uri_template (rn_uri_pattern e) of
             Inl error \<Rightarrow> find_template_resource uri es
           | Inr tmpl \<Rightarrow>
               (case match_template uri tmpl of
                  None \<Rightarrow> find_template_resource uri es
                | Some variables \<Rightarrow> Some (e, variables)))"

text \<open>An empty \<open>std::function\<close> throws when it is called.\<close>

definition read_resource_outcome :: "server \<Rightarrow> string \<Rightarrow> read_resource_result outcome option" where
  "read_resource_outcome sv uri =
     (case find_exact_resource uri (sv_resources sv) of
        Some e \<Rightarrow> Some (case rn_handler e of Some f \<Rightarrow> f uri | None \<Rightarrow> ThrowsStd ''bad_function_call'')
      | None \<Rightarrow>
          (case find_template_resource uri (sv_resources sv) of
             Some (e, variables) \<Rightarrow>
               Some (case rn_template_handler e of Some f \<Rightarrow> f uri variables | None \<Rightarrow> ThrowsStd ''bad_function_call'')
           | None \<Rightarrow> None))"

definition finish_read :: "server \<Rightarrow> int \<Rightarrow> rpc_request \<Rightarrow> read_resource_result \<Rightarrow> json mres" where
  "finish_read sv now r res =
     (let etag = so_etag_cache (sv_options sv) in
      case rr_input_required res of
        Some ir \<Rightarrow> Inr (strip_cache_wire_fields (serialize_read_resource_result etag
          (res\<lparr>rr_input_required := Some (mint_state (sv_options sv) now ir)\<rparr>)))
      | None \<Rightarrow> rmap (\<lambda>hint. serialize_read_resource_result etag
          (res\<lparr>rr_cache_hint := applied_hint hint (rr_cache_hint res)\<rparr>))
          (resolve_cache_hint sv ''resources/read'' (rq_session r)))"

definition handle_read_resource :: "int \<Rightarrow> server \<Rightarrow> rpc_request \<Rightarrow> handled" where
  "handle_read_resource now sv r = require_initialized sv r (
     thrown_or (read_params r \<lparr>rp_uri = [], rp_meta = None, rp_input_responses = None, rp_request_state = None\<rparr>
         deserialize_resource_params) (\<lambda>params.
       let uri = rp_uri params in
       if has_apps_uri_scheme uri \<and> \<not> so_apps_extension (sv_options sv) then failed HandlerError ''apps extension is disabled''
       else case (if has_apps_uri_scheme uri then validate_ui_meta uri else Inr ()) of
              Inl e \<Rightarrow> Settled (FutureError e)
            | Inr ok \<Rightarrow>
                (case read_resource_outcome sv uri of
                   None \<Rightarrow> Settled (FutureError (McpError InvalidParams (''resource not found: '' @ uri)
                     (Some (build_object [put ''uri'' (JString uri)]))))
                 | Some out \<Rightarrow> settle out (finish_read sv now r))))"

definition finish_prompt :: "server_options \<Rightarrow> int \<Rightarrow> get_prompt_result \<Rightarrow> json mres" where
  "finish_prompt o' now res =
     serialize_get_prompt_result (res\<lparr>gp_input_required := map_option (mint_state o' now) (gp_input_required res)\<rparr>)"

definition handle_get_prompt :: "int \<Rightarrow> server \<Rightarrow> rpc_request \<Rightarrow> handled" where
  "handle_get_prompt now sv r = require_initialized sv r (
     thrown_or (read_params r \<lparr>cp_name = [], cp_arguments = None, cp_meta = None, cp_input_responses = None,
         cp_request_state = None\<rparr> deserialize_get_prompt_params) (\<lambda>params.
       case find (\<lambda>e. pe_name e = cp_name params) (sv_prompts sv) of
         None \<Rightarrow> failed InvalidParams (''prompt not found: '' @ cp_name params)
       | Some e \<Rightarrow> settle (pe_handler e (cp_name params) (cp_arguments params)) (finish_prompt (sv_options sv) now)))"

definition handle_complete :: "server \<Rightarrow> rpc_request \<Rightarrow> handled" where
  "handle_complete sv r = require_initialized sv r (
     thrown_or (read_params r \<lparr>co_ref = JNull, co_argument_name = [], co_argument_value = [], co_context = [],
         co_meta = None\<rparr> deserialize_complete_params) (\<lambda>params.
       case sv_completion sv of
         None \<Rightarrow> failed MethodNotFound ''No completion handler registered''
       | Some f \<Rightarrow> settle (f params) (\<lambda>res. Inr (serialize_complete_result res))))"

end
