(* ===== verification/Server_Sessions.thy ===== *)
theory Server_Sessions
  imports Server_Handlers Outgoing_Requests
begin

text \<open>
  The handlers of \<open>McpServer\<close> that keep or read the state of a session: the handshake (\<open>initialize\<close>,
  \<open>server/discover\<close>, the notification \<open>initialized\<close>), log level, progress, subscriptions, extensions, and skills with
  their directories (\<open>src/server/McpServer.cpp\<close>).  Such a handler gives the new state, the messages it sends and its
  outcome.
\<close>

type_synonym step = "server \<times> session_event list \<times> handled"

definition unchanged :: "server \<Rightarrow> handled \<Rightarrow> step" where "unchanged sv out = (sv, [], out)"

text \<open>The guard of the handlers that need an initialized session.\<close>

definition when_initialized :: "server \<Rightarrow> rpc_request \<Rightarrow> step \<Rightarrow> step" where
  "when_initialized sv r k =
     (if is_modern_session sv (rq_session r) \<or> is_session_initialized sv (rq_session r) then k
      else unchanged sv (failed InvalidRequest ''Server not initialized''))"

definition step_or :: "server \<Rightarrow> 'a mres \<Rightarrow> ('a \<Rightarrow> step) \<Rightarrow> step" where
  "step_or sv r k = (case r of Inl e \<Rightarrow> unchanged sv (Thrown e) | Inr x \<Rightarrow> k x)"

definition on_handler :: "(session_handler \<Rightarrow> session_handler) \<Rightarrow> server \<Rightarrow> server" where
  "on_handler f sv = sv\<lparr>sv_handler := f (sv_handler sv)\<rparr>"

section \<open>The handshake\<close>

definition store_client :: "string \<Rightarrow> client_capabilities \<Rightarrow> implementation \<Rightarrow> server \<Rightarrow> server" where
  "store_client session caps info sv =
     (let sv1 = (if session = [] then sv\<lparr>sv_client_capabilities := Some caps, sv_client_info := Some info\<rparr> else sv)
      in sv1\<lparr>sv_clients := amap_put session
           ((client_session_of sv1 session)\<lparr>cs_capabilities := Some caps, cs_client_info := Some info\<rparr>) (sv_clients sv1)\<rparr>)"

definition default_negotiated_version :: string where "default_negotiated_version = ''2025-03-26''"
definition legacy_version :: string where "legacy_version = ''2025-11-25''"

definition selected_version :: "server_options \<Rightarrow> string \<Rightarrow> string" where
  "selected_version o' requested =
     (case so_protocol_version o' of
        Some v \<Rightarrow> v
      | None \<Rightarrow>
          if requested = [] then default_negotiated_version
          else case find (\<lambda>v. v = requested \<and> \<not> is_modern_protocol_version v) (effective_supported_versions o') of
                 Some v \<Rightarrow> v
               | None \<Rightarrow> legacy_version)"

definition no_client_capabilities :: client_capabilities where
  "no_client_capabilities = \<lparr>cc_roots = None, cc_sampling = None, cc_elicitation = None, cc_extensions = None,
     cc_experimental = None\<rparr>"

definition no_initialize_params :: initialize_params where
  "no_initialize_params = \<lparr>ip_protocol_version = [], ip_capabilities = no_client_capabilities,
     ip_client_info = default_implementation\<rparr>"

text \<open>\<open>connected\<close> is the user's \<open>on_client_connected\<close>; what it throws leaves the handler.\<close>

definition handle_initialize :: "(implementation \<Rightarrow> unit outcome) \<Rightarrow> server \<Rightarrow> rpc_request \<Rightarrow> step" where
  "handle_initialize connected sv r =
     step_or sv (read_params r no_initialize_params deserialize_initialize_params) (\<lambda>params.
       let sv1 = on_handler (set_client_capabilities (rq_session r) (ip_capabilities params))
             (store_client (rq_session r) (ip_capabilities params) (ip_client_info params) sv)
       in case connected (ip_client_info params) of
            ThrowsMcp e \<Rightarrow> unchanged sv1 (Thrown e)
          | Returns ok \<Rightarrow>
              (let sv2 = on_handler (set_negotiated_protocol_version (rq_session r)
                     (selected_version (sv_options sv1) (ip_protocol_version params))) sv1
               in unchanged sv2 (answer (serialize_initialize_result
                    \<lparr>in_protocol_version = version_for (sv_handler sv2) (rq_session r),
                     in_capabilities = sv_capabilities sv2, in_server_info = resolve_server_info (sv_options sv2),
                     in_instructions = so_instructions (sv_options sv2), in_meta = None, in_result_type = RtComplete\<rparr>)))
          | _ \<Rightarrow> unchanged sv1 ThrownOther)"

definition store_capabilities :: "string \<Rightarrow> client_capabilities \<Rightarrow> server \<Rightarrow> server" where
  "store_capabilities session caps sv =
     (let sv1 = sv\<lparr>sv_clients := amap_put session ((client_session_of sv session)\<lparr>cs_capabilities := Some caps\<rparr>)
            (sv_clients sv)\<rparr>
      in if session = [] then sv1\<lparr>sv_client_capabilities := Some caps\<rparr> else sv1)"

definition discovered_version :: "server_options \<Rightarrow> string" where
  "discovered_version o' = (case so_protocol_version o' of Some v \<Rightarrow> v | None \<Rightarrow> latest_protocol_version)"

definition handle_discover :: "server \<Rightarrow> rpc_request \<Rightarrow> step" where
  "handle_discover sv r =
     (let incoming = extract_incoming_meta r; session = rq_session r in
      if im_protocol_version incoming \<noteq> [] \<and> \<not> is_modern_protocol_version (im_protocol_version incoming) then
        unchanged sv (failed MethodNotFound ''server/discover is only available in 2026 and later protocol versions'')
      else
        (let sv1 = mark_session_initialized session sv;
             sv2 = (case im_client_capabilities incoming of
                      Some caps \<Rightarrow> store_capabilities session caps (on_handler (set_client_capabilities session caps) sv1)
                    | None \<Rightarrow> sv1);
             sv3 = on_handler (set_negotiated_protocol_version session (discovered_version (sv_options sv2))) sv2;
             info = resolve_server_info (sv_options sv3)
         in step_or sv3 (resolve_cache_hint sv3 ''server/discover'' session) (\<lambda>hint.
              unchanged sv3 (answer (serialize_discover_result
                \<lparr>di_supported_versions = effective_supported_versions (sv_options sv3),
                 di_capabilities = sv_capabilities sv3, di_server_info = info,
                 di_instructions = so_instructions (sv_options sv3), di_cache_hint = applied_hint hint None,
                 di_meta = Some (build_object [put ''io.modelcontextprotocol/serverInfo'' (serialize_implementation info)]),
                 di_result_type = RtComplete\<rparr>)))))"

definition handle_ping :: "server \<Rightarrow> rpc_request \<Rightarrow> step" where
  "handle_ping sv r = when_initialized sv r (unchanged sv (answer empty_answer))"

text \<open>The user's \<open>on_initialized\<close> is called on the first notification of a session; what it throws is logged.\<close>

definition initialized_notification :: "server \<Rightarrow> rpc_notification \<Rightarrow> server" where
  "initialized_notification sv n = mark_session_initialized (nt_session n) (sv\<lparr>sv_initialized := True\<rparr>)"

section \<open>Log level and progress\<close>

text \<open>\<open>unset\<close> is the level that happens to be in the parameters when the request has none: the field has no initial
  value.\<close>

definition handle_set_level :: "logging_level \<Rightarrow> server \<Rightarrow> rpc_request \<Rightarrow> step" where
  "handle_set_level unset sv r = when_initialized sv r (
     step_or sv (read_params r unset deserialize_set_level_params) (\<lambda>level.
       unchanged (sv\<lparr>sv_log_level := Some level\<rparr>) (answer empty_answer)))"

definition notified_token :: "json \<Rightarrow> progress_token" where
  "notified_token j = (case j of JString s \<Rightarrow> TokenString s | JInt i \<Rightarrow> TokenInt i | _ \<Rightarrow> TokenString [])"

definition progress_notification :: "time \<Rightarrow> server \<Rightarrow> rpc_notification \<Rightarrow> server" where
  "progress_notification now sv n =
     (case nt_params n of
        Some (JObject m) \<Rightarrow>
          (case amap_find ''progressToken'' m of
             Some t \<Rightarrow> on_handler (reset_timeout_by_progress_token now (progress_token_key (notified_token t))) sv
           | None \<Rightarrow> sv)
      | _ \<Rightarrow> sv)"

section \<open>Subscriptions\<close>

definition resource_params_of :: "rpc_request \<Rightarrow> string mres" where
  "resource_params_of r =
     rmap rp_uri (read_params r \<lparr>rp_uri = [], rp_meta = None, rp_input_responses = None, rp_request_state = None\<rparr>
       deserialize_resource_params)"

definition handle_subscribe_resource :: "time \<Rightarrow> server \<Rightarrow> rpc_request \<Rightarrow> step" where
  "handle_subscribe_resource now sv r = when_initialized sv r (
     step_or sv (resource_params_of r) (\<lambda>uri.
       unchanged (on_handler (add_subscription now uri
           \<lparr>sf_tools = None, sf_prompts = None, sf_resources = None, sf_subscriptions = [uri]\<rparr> (rq_session r)) sv)
         (answer empty_answer)))"

definition handle_unsubscribe_resource :: "server \<Rightarrow> rpc_request \<Rightarrow> step" where
  "handle_unsubscribe_resource sv r = when_initialized sv r (
     step_or sv (resource_params_of r) (\<lambda>uri.
       unchanged (on_handler (remove_subscription uri (rq_session r)) sv) (answer empty_answer)))"

definition subscriptions_acknowledged :: "server \<Rightarrow> subscription_filter \<Rightarrow> string \<Rightarrow> string \<Rightarrow> session_event" where
  "subscriptions_acknowledged sv honored subscription_id session =
     Sent (MsgNotification \<lparr>nt_jsonrpc = json_rpc_version, nt_method = ''notifications/subscriptions/acknowledged'',
       nt_params = Some (serialize_acknowledged_params honored),
       nt_meta = Some (build_object [
         put ''io.modelcontextprotocol/protocolVersion'' (JString (version_for (sv_handler sv) session)),
         put ''io.modelcontextprotocol/subscriptionId'' (JString subscription_id)]),
       nt_session = session\<rparr>)"

definition no_listen_params :: listen_params where
  "no_listen_params = \<lparr>lp_notifications = \<lparr>sf_tools = None, sf_prompts = None, sf_resources = None,
     sf_subscriptions = []\<rparr>, lp_meta = None\<rparr>"

text \<open>A client may name its subscription; otherwise the server counts.\<close>

definition named_subscription :: "rpc_request \<Rightarrow> string option" where
  "named_subscription r =
     (case im_subscription_id (extract_incoming_meta r) of Some s \<Rightarrow> if s = [] then None else Some s | None \<Rightarrow> None)"

definition handle_subscriptions_listen :: "time \<Rightarrow> server \<Rightarrow> rpc_request \<Rightarrow> step" where
  "handle_subscriptions_listen now sv r =
     (if \<not> is_modern_session sv (rq_session r) then
        unchanged sv (failed MethodNotFound ''subscriptions/listen not available in this protocol version'')
      else if \<not> so_subscriptions (sv_options sv) then unchanged sv (failed MethodNotFound ''subscriptions are disabled'')
      else step_or sv (read_params r no_listen_params deserialize_listen_params) (\<lambda>params.
        let named = named_subscription r;
            sid = (case named of Some s \<Rightarrow> s | None \<Rightarrow> ''srv-'' @ dec_nat (unat (sv_next_subscription sv)));
            sv1 = (if named = None then sv\<lparr>sv_next_subscription := sv_next_subscription sv + 1\<rparr> else sv);
            entry = \<lparr>sb_id = sid, sb_session = (case named of Some s \<Rightarrow> s | None \<Rightarrow> []),
              sb_filter = lp_notifications params, sb_created_at = now\<rparr>
        in case try_add_subscription_entry now entry (rq_session r) (sv_handler sv1) of
             (h, LimitExceeded) \<Rightarrow> unchanged (sv1\<lparr>sv_handler := h\<rparr>) (failed InvalidParams
               (''subscription limit reached for this session: '' @ dec_nat max_subscription_entries))
           | (h, outcome) \<Rightarrow>
               (let sv2 = sv1\<lparr>sv_handler := h\<rparr>
                in (sv2, [subscriptions_acknowledged sv2 (lp_notifications params) sid (rq_session r)],
                    answer empty_object))))"

section \<open>Extensions\<close>

definition extension_entry :: "string \<times> json \<Rightarrow> json" where
  "extension_entry e = build_object [put ''name'' (JString (fst e)), put ''settings'' (snd e)]"

definition handle_list_extensions :: "server \<Rightarrow> rpc_request \<Rightarrow> step" where
  "handle_list_extensions sv r = when_initialized sv r (unchanged sv (answer (build_object [
     put ''extensions'' (JArray (case sc_extensions (sv_capabilities sv) of
       None \<Rightarrow> [] | Some m \<Rightarrow> map extension_entry m))])))"

end
