(* ===== verification/Server_Tasks.thy ===== *)
theory Server_Tasks
  imports Server_Sessions Tasks Task_Journal
begin

text \<open>
  The requests about tasks (\<open>WireTaskHandlers\<close> of \<open>src/server/McpServer.cpp\<close>) over the task store.  \<open>env\<close> gives, for
  the writes of a handler in their order, what becomes of each and the time it happens at.  The handlers are only
  installed when there is a store; they get its state as \<open>st\<close>.
\<close>

type_synonym write_env = "nat \<Rightarrow> store_io \<times> int"

section \<open>Helpers\<close>

definition task_status_to_wire :: "task_status \<Rightarrow> string" where
  "task_status_to_wire s =
     (if s = TaskWorking \<or> s = TaskPending then ''working''
      else if s = TaskInputRequired then ''input_required''
      else if s = TaskCompleted then ''completed''
      else if s = TaskFailed then ''failed''
      else if s = TaskCancelled then ''cancelled'' else ''working'')"

definition compute_pending_input_keys :: "input_requests option \<Rightarrow> json option \<Rightarrow> string list" where
  "compute_pending_input_keys parked accumulated =
     (case parked of
        None \<Rightarrow> []
      | Some rs \<Rightarrow> map fst (filter (\<lambda>(k, q).
          \<not> (case accumulated of Some (JObject m) \<Rightarrow> amap_find k m \<noteq> None | _ \<Rightarrow> False)) rs))"

definition filter_input_requests :: "input_requests option \<Rightarrow> string list \<Rightarrow> input_requests" where
  "filter_input_requests parked pending =
     (case parked of
        None \<Rightarrow> []
      | Some rs \<Rightarrow> foldl (\<lambda>m k. case amap_find k rs of Some q \<Rightarrow> amap_put k q m | None \<Rightarrow> m) [] pending)"

definition send_task_notification ::
  "session_handler \<Rightarrow> string \<Rightarrow> string \<Rightarrow> task_status \<Rightarrow> bool \<Rightarrow> string \<Rightarrow> session_event list mres" where
  "send_task_notification h method task_id status modern session =
     (let wire = serialize_task_status_params task_id (task_status_to_wire status) in
      if modern then Inr (notify_subscribers method wire None session h)
      else send_notification h method wire session)"

text \<open>\<open>SendTaskStatus\<close> of the API.\<close>

definition send_task_status :: "server \<Rightarrow> string \<Rightarrow> task_status \<Rightarrow> session_event list mres" where
  "send_task_status sv task_id status =
     (let owner = (case sv_store sv of
            Some st \<Rightarrow> (case get_task task_id st of Some t \<Rightarrow> ts_owner t | None \<Rightarrow> [])
          | None \<Rightarrow> [])
      in send_task_notification (sv_handler sv) ''notifications/tasks/status'' task_id status
           (is_modern_session sv owner) owner)"

definition make_get_task_result_json :: "task_state \<Rightarrow> bool \<Rightarrow> bool \<Rightarrow> json" where
  "make_get_task_result_json t include_optional complete_type = serialize_get_task_result
     \<lparr>gt_task_id = ts_task_id t, gt_status = task_status_to_wire (ts_status t),
      gt_task_result_type = (if complete_type then ''complete'' else ''task''),
      gt_result = (if ts_status t = TaskFailed then None else ts_result t),
      gt_error_message = (if include_optional then ts_error_message t else None),
      gt_input_required = (if include_optional then ts_input_required t else None),
      gt_meta = None, gt_status_message = ts_status_message t,
      gt_created_at = (if ts_created_at t = [] then None else Some (ts_created_at t)),
      gt_last_updated_at = ts_last_updated_at t, gt_ttl_ms = ts_ttl_ms t,
      gt_poll_interval_ms = ts_poll_interval_ms t, gt_input_requests = ts_input_requests t,
      gt_error = (if ts_status t = TaskFailed then ts_result t else None)\<rparr>"

definition try_get_mcp_name :: "rpc_request \<Rightarrow> string option" where
  "try_get_mcp_name r =
     (case rq_meta r of
        Some (JObject m) \<Rightarrow>
          (case amap_find ''Mcp-Name'' m of
             Some (JString s) \<Rightarrow> Some s
           | _ \<Rightarrow> (case amap_find ''mcp-name'' m of Some (JString s) \<Rightarrow> Some s | _ \<Rightarrow> None))
      | _ \<Rightarrow> None)"

definition client_declares_tasks_extension :: "client_capabilities \<Rightarrow> bool" where
  "client_declares_tasks_extension caps =
     (case cc_extensions caps of Some m \<Rightarrow> amap_find tasks_extension_id m \<noteq> None | None \<Rightarrow> False)"

definition tasks_extension_declared :: "client_capabilities option \<Rightarrow> client_capabilities option \<Rightarrow> bool" where
  "tasks_extension_declared stored per_request \<longleftrightarrow>
     pred_option client_declares_tasks_extension stored \<and> stored \<noteq> None \<or>
     pred_option client_declares_tasks_extension per_request \<and> per_request \<noteq> None"

definition missing_tasks_extension_error :: mcp_error where
  "missing_tasks_extension_error =
     McpError MissingRequiredClientCapability ''Missing required client capability: io.modelcontextprotocol/tasks''
       (Some (build_object [put ''requiredCapabilities'' (build_object [put ''extensions''
          (build_object [put tasks_extension_id empty_object])])]))"

definition task_owner_for :: "server \<Rightarrow> rpc_request \<Rightarrow> string" where
  "task_owner_for sv r = (if rq_session r = [] then sv_session_id sv else rq_session r)"

definition is_task_owned_by_session :: "task_state \<Rightarrow> string \<Rightarrow> bool" where
  "is_task_owned_by_session t owner \<longleftrightarrow> ts_owner t = [] \<or> ts_owner t = owner"

definition owned_task :: "server \<Rightarrow> rpc_request \<Rightarrow> string \<Rightarrow> file_task_store \<Rightarrow> task_state option" where
  "owned_task sv r task_id st =
     (case get_task task_id st of
        Some t \<Rightarrow> if is_task_owned_by_session t (task_owner_for sv r) then Some t else None
      | None \<Rightarrow> None)"

definition make_task_id :: "string \<Rightarrow> string \<Rightarrow> string" where
  "make_task_id owner random_hex = ''task-'' @ owner @ ''-'' @ random_hex"

definition task_ack :: json where
  "task_ack = (case empty_answer of JObject m \<Rightarrow> JObject (amap_put ''resultType'' (JString ''complete'') m) | j \<Rightarrow> j)"

definition task_not_found :: "string \<Rightarrow> handled" where
  "task_not_found task_id = failed InvalidParams (''task not found: '' @ task_id)"

definition persist_failure :: "mcp_error \<Rightarrow> handled" where
  "persist_failure e = failed InternalError (''task persist failed: '' @ what e)"

definition set_store :: "file_task_store \<Rightarrow> server \<Rightarrow> server" where
  "set_store st sv = sv\<lparr>sv_store := Some st\<rparr>"

text \<open>The guards at the head of \<open>tasks/get\<close>, \<open>tasks/update\<close> and \<open>tasks/cancel\<close>.\<close>

definition tasks_guard :: "server \<Rightarrow> rpc_request \<Rightarrow> step \<Rightarrow> step" where
  "tasks_guard sv r k =
     (let modern = is_modern_session sv (rq_session r) in
      if \<not> so_tasks_extension (sv_options sv) then unchanged sv (failed MethodNotFound ''tasks extension is disabled'')
      else if modern \<and> \<not> tasks_extension_declared (client_capabilities_for sv (rq_session r))
                (im_client_capabilities (extract_incoming_meta r)) then
        unchanged sv (Settled (FutureError missing_tasks_extension_error))
      else case (if modern then try_get_mcp_name r else None) of
             None \<Rightarrow> k
           | Some name \<Rightarrow>
               (case validate_task_headers (rq_method r) (case rq_params r of Some p \<Rightarrow> p | None \<Rightarrow> empty_object) name of
                  Inl e \<Rightarrow> unchanged sv (Settled (FutureError e))
                | Inr ok \<Rightarrow> k))"

section \<open>Reading tasks\<close>

definition handle_get_task :: "file_task_store \<Rightarrow> server \<Rightarrow> rpc_request \<Rightarrow> step" where
  "handle_get_task st sv r = tasks_guard sv r (
     step_or sv (read_params r [] deserialize_get_task_params) (\<lambda>task_id.
       unchanged sv (case owned_task sv r task_id st of
         None \<Rightarrow> task_not_found task_id
       | Some t \<Rightarrow> answer (make_get_task_result_json t True (is_modern_session sv (rq_session r))))))"

definition handle_get_task_payload :: "file_task_store \<Rightarrow> server \<Rightarrow> rpc_request \<Rightarrow> step" where
  "handle_get_task_payload st sv r =
     (if is_modern_session sv (rq_session r) then
        unchanged sv (failed MethodNotFound ''tasks/result is only available in 2025 and earlier protocol versions'')
      else step_or sv (read_params r [] deserialize_get_task_params) (\<lambda>task_id.
        unchanged sv (case owned_task sv r task_id st of
          None \<Rightarrow> task_not_found task_id
        | Some t \<Rightarrow> answer (make_get_task_result_json t False False))))"

definition task_list_entry :: "task_state \<Rightarrow> json" where
  "task_list_entry t = build_object [
     put ''taskId'' (JString (ts_task_id t)),
     put ''status'' (JString (task_status_to_wire (ts_status t))),
     put_opt ''result'' (\<lambda>x. x) (ts_result t)]"

definition handle_list_tasks :: "file_task_store \<Rightarrow> server \<Rightarrow> rpc_request \<Rightarrow> step" where
  "handle_list_tasks st sv r =
     (if is_modern_session sv (rq_session r) then
        unchanged sv (failed MethodNotFound ''tasks/list is only available in 2025 and earlier protocol versions'')
      else unchanged sv (answer (build_object [put ''tasks'' (JArray (map task_list_entry
        (filter (\<lambda>t. is_task_owned_by_session t (task_owner_for sv r)) (get_all_tasks st))))])))"

section \<open>Cancelling\<close>

text \<open>The flag of a running task is set and forgotten before the store is asked.\<close>

definition handle_cancel_task :: "write_env \<Rightarrow> file_task_store \<Rightarrow> server \<Rightarrow> rpc_request \<Rightarrow> step" where
  "handle_cancel_task env st sv r = tasks_guard sv r (
     step_or sv (read_params r \<lparr>ctp_task_id = [], ctp_reason = None\<rparr> deserialize_cancel_task_params) (\<lambda>params.
       let task_id = ctp_task_id params in
       case owned_task sv r task_id st of
         None \<Rightarrow> unchanged sv (task_not_found task_id)
       | Some t \<Rightarrow>
           (let sv1 = sv\<lparr>sv_running_flags := amap_erase task_id (sv_running_flags sv)\<rparr> in
            if is_terminal_status (ts_status t) then unchanged sv1 (answer task_ack)
            else case cancel_task (fst (env 0)) (snd (env 0)) task_id (ctp_reason params) st of
                   (st', Inl e) \<Rightarrow> unchanged (set_store st' sv1) (persist_failure e)
                 | (st', Inr False) \<Rightarrow> unchanged (set_store st' sv1) (task_not_found task_id)
                 | (st', Inr True) \<Rightarrow>
                     (let sv2 = set_store st' sv1 in
                      step_or sv2 (send_task_notification (sv_handler sv2) ''notifications/tasks/cancelled'' task_id TaskCancelled
                          (is_modern_session sv2 (rq_session r)) (task_owner_for sv2 r)) (\<lambda>events.
                        (sv2, events, answer task_ack))))))"

section \<open>Updating\<close>

definition error_payload :: "error_code \<Rightarrow> string \<Rightarrow> json option \<Rightarrow> json" where
  "error_payload code message data = build_object [
     put ''code'' (JInt (scast code)), put ''message'' (JString message), put_opt ''data'' (\<lambda>x. x) data]"

text \<open>
  The tool of a task that has got all its input runs again inside the handler.  Its \<open>try\<close> block: the new state of the
  store and the error that left it.
\<close>

definition resume_finished ::
  "write_env \<Rightarrow> bool \<Rightarrow> string \<Rightarrow> json option \<Rightarrow> call_tool_result \<Rightarrow> file_task_store \<Rightarrow> file_task_store \<times> bool mres" where
  "resume_finished env cancelled task_id responses res st =
     (if cancelled then
        (case set_task_status (fst (env 1)) (snd (env 1)) task_id TaskCancelled st of
           (st', out) \<Rightarrow> (st', rmap (\<lambda>_. True) out))
      else case ct_input_required res of
             Some ir \<Rightarrow>
               (let fresh = Some (iq_requests ir); remaining = compute_pending_input_keys fresh responses;
                    next_park = (if remaining = [] then iq_requests ir else filter_input_requests fresh remaining)
                in case park_task_for_input (fst (env 1)) (snd (env 1)) task_id next_park st of
                     (st', out) \<Rightarrow> (st', rmap (\<lambda>_. False) out))
           | None \<Rightarrow>
               (case serialize_call_tool_result res of
                  Inl e \<Rightarrow> (st, Inl e)
                | Inr wire \<Rightarrow>
                    (case update_task (fst (env 1)) (snd (env 1)) task_id (Some wire) st of
                       (st1, Inl e) \<Rightarrow> (st1, Inl e)
                     | (st1, Inr updated) \<Rightarrow>
                         (case set_task_status (fst (env 2)) (snd (env 2)) task_id TaskCompleted st1 of
                            (st2, out) \<Rightarrow> (st2, rmap (\<lambda>_. True) out)))))"

text \<open>The handlers of the \<open>try\<close> block; what the store throws there leaves the request handler.\<close>

definition resume_failed ::
  "write_env \<Rightarrow> bool \<Rightarrow> string \<Rightarrow> json \<Rightarrow> file_task_store \<Rightarrow> file_task_store \<times> bool mres" where
  "resume_failed env cancelled task_id payload st =
     (case (if cancelled then set_task_status (fst (env 3)) (snd (env 3)) task_id TaskCancelled st
            else fail_task (fst (env 3)) (snd (env 3)) task_id payload st) of
        (st', out) \<Rightarrow> (st', rmap (\<lambda>_. True) out))"

definition elicitation_what :: string where
  "elicitation_what = ''elicitation requires an MRTR input round-trip''"

definition resume_outcome ::
  "write_env \<Rightarrow> bool \<Rightarrow> string \<Rightarrow> json option \<Rightarrow> call_tool_result outcome \<Rightarrow> file_task_store \<Rightarrow>
   file_task_store \<times> bool mres" where
  "resume_outcome env cancelled task_id responses out st =
     (case out of
        Returns res \<Rightarrow>
          (case resume_finished env cancelled task_id responses res st of
             (st', Inr retire) \<Rightarrow> (st', Inr retire)
           | (st', Inl e) \<Rightarrow>
               resume_failed env cancelled task_id (error_payload (err_code e) (err_message e) (err_data e)) st')
      | ThrowsMcp e \<Rightarrow> resume_failed env cancelled task_id (error_payload (err_code e) (err_message e) (err_data e)) st
      | ThrowsElicitation requests \<Rightarrow>
          resume_failed env cancelled task_id (error_payload InternalError elicitation_what None) st
      | ThrowsStd w \<Rightarrow> resume_failed env cancelled task_id (error_payload InternalError w None) st
      | ThrowsUnknown \<Rightarrow> resume_failed env cancelled task_id (error_payload InternalError ''tool execution failed'' None) st)"

text \<open>
  After the tool: \<open>cancelled\<close> is what its flag says then, \<open>sv\<close> the state then, for other requests are served while it
  runs.
\<close>

definition finish_resume ::
  "write_env \<Rightarrow> bool \<Rightarrow> string \<Rightarrow> json option \<Rightarrow> call_tool_result outcome \<Rightarrow> file_task_store \<Rightarrow> server \<Rightarrow> step" where
  "finish_resume env cancelled task_id responses out st sv =
     (case resume_outcome env cancelled task_id responses out st of
        (st', Inl e) \<Rightarrow> unchanged (set_store st' sv) (Thrown e)
      | (st', Inr retire) \<Rightarrow>
          unchanged ((if retire then sv\<lparr>sv_running_flags := amap_erase task_id (sv_running_flags sv)\<rparr> else sv)
            \<lparr>sv_store := Some st'\<rparr>) (answer task_ack))"

definition resume_params :: "string \<Rightarrow> task_state \<Rightarrow> call_params" where
  "resume_params name t = \<lparr>cp_name = name, cp_arguments = ts_tool_arguments t, cp_meta = None,
     cp_input_responses = ts_input_responses t, cp_request_state = None\<rparr>"

text \<open>
  A request with the responses of the user; \<open>advanced\<close> is the server after the store has taken them.  The tool that is
  run again answers at once here: \<open>finish_resume\<close> is the second half of the step.
\<close>

definition resume_task :: "write_env \<Rightarrow> string \<Rightarrow> file_task_store \<Rightarrow> server \<Rightarrow> rpc_request \<Rightarrow> step" where
  "resume_task env task_id st sv r =
     (case get_task task_id st of
        None \<Rightarrow> unchanged sv (answer task_ack)
      | Some t \<Rightarrow>
          (case ts_tool_name t of
             None \<Rightarrow> unchanged sv (answer task_ack)
           | Some name \<Rightarrow>
               (case amap_find name (sv_tools sv) of
                  None \<Rightarrow> unchanged sv (answer task_ack)
                | Some found \<Rightarrow>
                    (let pending = compute_pending_input_keys (ts_input_requests t) (ts_input_responses t) in
                     if pending \<noteq> [] then
                       (case park_task_for_input (fst (env 1)) (snd (env 1)) task_id
                               (filter_input_requests (ts_input_requests t) pending) st of
                          (st', Inl e) \<Rightarrow> unchanged (set_store st' sv) (persist_failure e)
                        | (st', Inr parked) \<Rightarrow> unchanged (set_store st' sv) (answer task_ack))
                     else
                       (let flag = (case amap_find task_id (sv_running_flags sv) of Some b \<Rightarrow> b | None \<Rightarrow> False);
                            sv1 = sv\<lparr>sv_running_flags := amap_put task_id flag (sv_running_flags sv)\<rparr>
                        in finish_resume env flag task_id (ts_input_responses t)
                             (st_invoke found r (resume_params name t)) st sv1)))))"

definition update_with_input ::
  "write_env \<Rightarrow> string \<Rightarrow> json \<Rightarrow> file_task_store \<Rightarrow> server \<Rightarrow> rpc_request \<Rightarrow> step" where
  "update_with_input env task_id responses st sv r =
     (case owned_task sv r task_id st of
        None \<Rightarrow> unchanged sv (task_not_found task_id)
      | Some t \<Rightarrow>
          if ts_status t \<noteq> TaskInputRequired then
            unchanged sv (failed InvalidParams (''task is not waiting for input: '' @ task_id))
          else case advance_task_with_input (fst (env 0)) (snd (env 0)) task_id responses st of
                 (st', Inl e) \<Rightarrow> unchanged (set_store st' sv) (persist_failure e)
               | (st', Inr False) \<Rightarrow> unchanged (set_store st' sv) (task_not_found task_id)
               | (st', Inr True) \<Rightarrow>
                   (let sv1 = set_store st' sv; modern = is_modern_session sv1 (rq_session r) in
                    step_or sv1 (send_task_notification (sv_handler sv1) ''notifications/tasks/working'' task_id TaskWorking modern
                        (task_owner_for sv1 r)) (\<lambda>events.
                      if \<not> modern then (sv1, events, answer task_ack)
                      else case resume_task env task_id st' sv1 r of (sv2, later, out) \<Rightarrow> (sv2, events @ later, out))))"

definition update_with_result ::
  "write_env \<Rightarrow> string \<Rightarrow> json option \<Rightarrow> file_task_store \<Rightarrow> server \<Rightarrow> rpc_request \<Rightarrow> step" where
  "update_with_result env task_id result st sv r =
     (case owned_task sv r task_id st of
        None \<Rightarrow> unchanged sv (task_not_found task_id)
      | Some t \<Rightarrow>
          if is_terminal_status (ts_status t) then
            unchanged sv (failed InvalidParams (''task already reached a terminal state: '' @ task_id))
          else case update_task (fst (env 0)) (snd (env 0)) task_id result st of
                 (st', Inl e) \<Rightarrow> unchanged (set_store st' sv) (persist_failure e)
               | (st', Inr False) \<Rightarrow> unchanged (set_store st' sv) (task_not_found task_id)
               | (st', Inr True) \<Rightarrow>
                   (let sv1 = set_store st' sv in
                    step_or sv1 (send_task_notification (sv_handler sv1)
                        (if result \<noteq> None then ''notifications/tasks/completed'' else ''notifications/tasks/working'') task_id
                        (if result \<noteq> None then TaskCompleted else TaskWorking)
                        (is_modern_session sv1 (rq_session r)) (task_owner_for sv1 r)) (\<lambda>events.
                      (sv1, events, answer task_ack))))"

definition handle_update_task :: "write_env \<Rightarrow> file_task_store \<Rightarrow> server \<Rightarrow> rpc_request \<Rightarrow> step" where
  "handle_update_task env st sv r = tasks_guard sv r (
     step_or sv (read_params r \<lparr>up_task_id = [], up_result = None, up_input_responses = None\<rparr>
         deserialize_update_task_params) (\<lambda>params.
       case up_input_responses params of
         Some responses \<Rightarrow>
           if up_result params \<noteq> None then
             unchanged sv (failed InvalidParams ''tasks/update must not carry both result and inputResponses'')
           else update_with_input env (up_task_id params) responses st sv r
       | None \<Rightarrow> update_with_result env (up_task_id params) (up_result params) st sv r))"

section \<open>Expired tasks\<close>

text \<open>What the store throws is logged and skipped.\<close>

definition sweep_expired_tasks :: "write_env \<Rightarrow> int \<Rightarrow> file_task_store \<Rightarrow> file_task_store" where
  "sweep_expired_tasks env now st =
     foldl (\<lambda>s (i, task_id). fst (remove_task (fst (env i)) task_id s)) st
       (enumerate 0 (get_expired_task_ids now st))"

section \<open>Owners\<close>

definition kept :: "string \<Rightarrow> task_state \<Rightarrow> server \<Rightarrow> bool" where
  "kept i t sv \<longleftrightarrow> (case sv_store sv of Some st \<Rightarrow> amap_find i (fts_tasks st) = Some t | None \<Rightarrow> False)"

lemma modify_task_other:
  assumes "j \<noteq> i" "modify_task io i f st = (st', r)"
  shows "amap_find j (fts_tasks st') = amap_find j (fts_tasks st)"
  using assms(2)
proof (cases rule: modify_task_cases)
  case (stored t t')
  then have "fts_tasks st' = fts_tasks (put_task i t' st)"
    using append_record_tasks [of io i t' "put_task i t' st"] by simp
  with assms(1) show ?thesis by (simp add: put_task_def)
next
  case (undone t t' st1)
  then have "fts_tasks st1 = fts_tasks (put_task i t' st)"
    using append_record_tasks [of io i t' "put_task i t' st"] by simp
  with undone assms(1) show ?thesis by (simp add: put_task_def)
qed simp

lemmas other_task_kept =
  modify_task_other [of _ _ _ "cancelled_task now reason" for now reason, folded cancel_task_def]
  modify_task_other [of _ _ _ "updated_task now result" for now result, folded update_task_def]
  modify_task_other [of _ _ _ "task_with_status now status" for now status, folded set_task_status_def]
  modify_task_other [of _ _ _ "failed_task now payload" for now payload, folded fail_task_def]
  modify_task_other [of _ _ _ "task_with_input now responses" for now responses, folded advance_task_with_input_def]
  modify_task_other [of _ _ _ "parked_task now requests" for now requests, folded park_task_for_input_def]

lemma kept_set_store: "kept i t (set_store st sv) \<longleftrightarrow> amap_find i (fts_tasks st) = Some t"
  by (simp add: kept_def set_store_def)

lemma kept_unchanged: "kept i t (fst (unchanged sv out)) \<longleftrightarrow> kept i t sv"
  by (simp add: unchanged_def)

lemma kept_step_or: "kept i t sv \<Longrightarrow> (\<And>x. kept i t (fst (k x))) \<Longrightarrow> kept i t (fst (step_or sv m k))"
  by (simp add: step_or_def kept_unchanged split: sum.split)

lemma kept_guard: "kept i t sv \<Longrightarrow> kept i t (fst k) \<Longrightarrow> kept i t (fst (tasks_guard sv r k))"
  by (simp add: tasks_guard_def Let_def kept_unchanged split: option.split sum.split)

text \<open>The task of a request that names a task of somebody else.\<close>

definition foreign_task :: "server \<Rightarrow> rpc_request \<Rightarrow> task_state \<Rightarrow> bool" where
  "foreign_task sv r t \<longleftrightarrow> \<not> is_task_owned_by_session t (task_owner_for sv r)"

lemma owned_not_foreign:
  "owned_task sv r j st = Some u \<Longrightarrow> amap_find i (fts_tasks st) = Some t \<Longrightarrow> foreign_task sv r t \<Longrightarrow> i \<noteq> j"
  by (auto simp: owned_task_def foreign_task_def get_task_def split: option.splits if_splits)

lemma foreign_flags: "foreign_task (sv\<lparr>sv_running_flags := flags\<rparr>) r t = foreign_task sv r t"
  by (simp add: foreign_task_def task_owner_for_def)

lemma kept_flags: "kept i t (sv\<lparr>sv_running_flags := flags\<rparr>) = kept i t sv"
  by (simp add: kept_def)

lemma resume_failed_other:
  assumes "i \<noteq> j" "resume_failed env c j payload st = (st', r)"
  shows "amap_find i (fts_tasks st') = amap_find i (fts_tasks st)"
  using assms(2)
  by (auto simp: resume_failed_def split: prod.splits if_splits dest!: other_task_kept [OF assms(1)])

lemma resume_finished_other:
  assumes "i \<noteq> j" "resume_finished env c j responses res st = (st', r)"
  shows "amap_find i (fts_tasks st') = amap_find i (fts_tasks st)"
  using assms(2)
  by (auto simp: resume_finished_def Let_def split: prod.splits if_splits option.splits sum.splits
      dest!: other_task_kept [OF assms(1)])

lemma resume_outcome_other:
  assumes "i \<noteq> j" "resume_outcome env c j responses out st = (st', r)"
  shows "amap_find i (fts_tasks st') = amap_find i (fts_tasks st)"
  using assms(2)
  by (auto simp: resume_outcome_def split: outcome.splits prod.splits sum.splits
      dest!: resume_failed_other [OF assms(1)] resume_finished_other [OF assms(1)])

lemma kept_resume:
  assumes "i \<noteq> j" "amap_find i (fts_tasks st) = Some t" "kept i t sv"
  shows "kept i t (fst (resume_task env j st sv r))"
proof -
  have finish: "kept i t (fst (finish_resume env c j responses out st sv'))" for c responses out sv'
  proof -
    obtain st' e where run: "resume_outcome env c j responses out st = (st', e)" by fastforce
    from resume_outcome_other [OF assms(1) run] assms(2) show ?thesis
      by (auto simp: finish_resume_def run kept_unchanged kept_set_store split: sum.split) (simp_all add: kept_def)
  qed
  show ?thesis
    using assms finish
    by (auto simp: resume_task_def Let_def kept_unchanged kept_set_store split: option.split prod.split sum.split
        dest!: other_task_kept [OF assms(1)])
qed

lemma kept_update_input:
  assumes "kept i t sv" "sv_store sv = Some st" "foreign_task sv r t"
  shows "kept i t (fst (update_with_input env j responses st sv r))"
proof (cases "owned_task sv r j st")
  case (Some u)
  have find: "amap_find i (fts_tasks st) = Some t" using assms(1,2) by (simp add: kept_def)
  then have ij: "i \<noteq> j" using owned_not_foreign Some assms(3) by blast
  obtain st' out where adv: "advance_task_with_input (fst (env 0)) (snd (env 0)) j responses st = (st', out)" by fastforce
  then have find': "amap_find i (fts_tasks st') = Some t" using find other_task_kept [OF ij] by auto
  then have "kept i t (fst (resume_task env j st' (set_store st' sv) r))"
    by (intro kept_resume ij) (simp_all add: kept_set_store)
  then show ?thesis
    using assms(1) find'
    by (auto simp: update_with_input_def Some adv Let_def kept_unchanged kept_set_store
        intro!: kept_step_or split: option.split sum.split bool.split prod.split)
qed (use assms in \<open>simp add: update_with_input_def kept_unchanged\<close>)

lemma kept_update_result:
  assumes "kept i t sv" "sv_store sv = Some st" "foreign_task sv r t"
  shows "kept i t (fst (update_with_result env j result st sv r))"
proof (cases "owned_task sv r j st")
  case (Some u)
  have find: "amap_find i (fts_tasks st) = Some t" using assms(1,2) by (simp add: kept_def)
  then have ij: "i \<noteq> j" using owned_not_foreign Some assms(3) by blast
  obtain st' out where upd: "update_task (fst (env 0)) (snd (env 0)) j result st = (st', out)" by fastforce
  then have find': "amap_find i (fts_tasks st') = Some t" using find other_task_kept [OF ij] by auto
  then show ?thesis
    using assms(1)
    by (auto simp: update_with_result_def Some upd Let_def kept_unchanged kept_set_store
        intro!: kept_step_or split: sum.split bool.split)
qed (use assms in \<open>simp add: update_with_result_def kept_unchanged\<close>)

lemma kept_cancel:
  assumes "kept i t sv" "sv_store sv = Some st" "foreign_task sv r t"
  shows "kept i t (fst (handle_cancel_task env st sv r))"
proof -
  have find: "amap_find i (fts_tasks st) = Some t" using assms(1,2) by (simp add: kept_def)
  have "kept i t (fst (case owned_task sv r j st of
      None \<Rightarrow> unchanged sv (task_not_found j)
    | Some u \<Rightarrow>
        (let sv1 = sv\<lparr>sv_running_flags := amap_erase j (sv_running_flags sv)\<rparr> in
         if is_terminal_status (ts_status u) then unchanged sv1 (answer task_ack)
         else case cancel_task (fst (env 0)) (snd (env 0)) j reason st of
                (st', Inl e) \<Rightarrow> unchanged (set_store st' sv1) (persist_failure e)
              | (st', Inr False) \<Rightarrow> unchanged (set_store st' sv1) (task_not_found j)
              | (st', Inr True) \<Rightarrow>
                  (let sv2 = set_store st' sv1 in
                   step_or sv2 (send_task_notification (sv_handler sv2) ''notifications/tasks/cancelled'' j TaskCancelled
                       (is_modern_session sv2 (rq_session r)) (task_owner_for sv2 r)) (\<lambda>events.
                     (sv2, events, answer task_ack))))))" for j reason
  proof (cases "owned_task sv r j st")
    case (Some u)
    then have ij: "i \<noteq> j" using owned_not_foreign find assms(3) by blast
    obtain st' out where c: "cancel_task (fst (env 0)) (snd (env 0)) j reason st = (st', out)" by fastforce
    then have "amap_find i (fts_tasks st') = Some t" using find other_task_kept [OF ij] by auto
    then show ?thesis
      using assms(1) by (auto simp: Some c Let_def kept_unchanged kept_set_store kept_flags
          intro!: kept_step_or split: sum.split bool.split)
  qed (use assms in \<open>simp add: kept_unchanged\<close>)
  then show ?thesis
    unfolding handle_cancel_task_def Let_def
    by (intro kept_guard kept_step_or assms(1)) (simp_all add: Let_def)
qed

text \<open>Nobody touches a task of somebody else: whatever a session asks about tasks, a task that belongs to another
  session is in the store afterwards as it was.\<close>

lemma foreign_tasks_kept:
  assumes "sv_store sv = Some st" "amap_find i (fts_tasks st) = Some t" "foreign_task sv r t"
  shows "kept i t (fst (handle_get_task st sv r)) \<and> kept i t (fst (handle_get_task_payload st sv r)) \<and>
    kept i t (fst (handle_list_tasks st sv r)) \<and> kept i t (fst (handle_cancel_task env st sv r)) \<and>
    kept i t (fst (handle_update_task env st sv r))"
proof -
  have k: "kept i t sv" using assms by (simp add: kept_def)
  have "kept i t (fst (handle_get_task st sv r))"
    unfolding handle_get_task_def by (intro kept_guard kept_step_or k) (simp add: kept_unchanged k)
  moreover have "kept i t (fst (handle_get_task_payload st sv r))"
    unfolding handle_get_task_payload_def using k by (auto simp: kept_unchanged intro!: kept_step_or)
  moreover have "kept i t (fst (handle_list_tasks st sv r))"
    using k by (simp add: handle_list_tasks_def kept_unchanged)
  moreover have "kept i t (fst (handle_update_task env st sv r))"
    unfolding handle_update_task_def
    by (intro kept_guard kept_step_or k)
      (simp split: option.split add: kept_unchanged k kept_update_input [OF k assms(1,3)]
        kept_update_result [OF k assms(1,3)])
  ultimately show ?thesis using kept_cancel [OF k assms(1,3)] by blast
qed

text \<open>A server with one task of the session \<open>a\<close>, and a request of the session \<open>b\<close> that wants to cancel it.\<close>

definition plain_options :: server_options where
  "plain_options = \<lparr>so_server_info = None, so_protocol_version = None, so_instructions = None, so_cache_hints = None,
     so_request_state_key = None, so_declare_logging = False, so_declare_completions = False,
     so_max_tool_input_elements = None, so_supported_versions = None, so_subscriptions = True,
     so_tasks_extension = True, so_skills_extension = False, so_apps_extension = False, so_server_card = False,
     so_etag_cache = False, so_progressive_discovery = False, so_file_input = False\<rparr>"

definition shared_task :: task_state where "shared_task = created_task 0 ''t'' ''a'' None"

definition shared_store :: file_task_store where
  "shared_store = \<lparr>fts_tasks = [(''t'', shared_task)], fts_pending = 0, fts_file = None, fts_backup = None\<rparr>"

definition shared_server :: server where
  "shared_server = new_server plain_options False ''own'' None (Some shared_store)"

definition intruder_request :: rpc_request where
  "intruder_request = sample_request\<lparr>rq_method := ''tasks/cancel'',
     rq_params := Some (build_object [put ''taskId'' (JString ''t'')]), rq_session := ''b''\<rparr>"

lemma shared_server_store: "sv_store shared_server = Some shared_store"
  by (simp add: shared_server_def new_server_def derive_capabilities_def wire_handlers_def Let_def)

text \<open>And nobody sees one: reading and listing answer as if it were not there.\<close>

definition without_task :: "string \<Rightarrow> file_task_store \<Rightarrow> file_task_store" where
  "without_task i st = st\<lparr>fts_tasks := amap_erase i (fts_tasks st)\<rparr>"

lemma owned_without:
  assumes "amap_ok (fts_tasks st)" "amap_find i (fts_tasks st) = Some t" "foreign_task sv r t"
  shows "owned_task sv r j (without_task i st) = owned_task sv r j st"
  using assms by (auto simp: owned_task_def without_task_def get_task_def foreign_task_def amap_simps split: option.split)

lemma filter_erase_absent: "(\<And>v. (k, v) \<in> set m \<Longrightarrow> \<not> P v) \<Longrightarrow> filter P (map snd (amap_erase k m)) = filter P (map snd m)"
  by (induction m) auto

lemma listed_without:
  assumes "amap_ok (fts_tasks st)" "amap_find i (fts_tasks st) = Some t" "foreign_task sv r t"
  shows "filter (\<lambda>t. is_task_owned_by_session t (task_owner_for sv r)) (get_all_tasks (without_task i st)) =
    filter (\<lambda>t. is_task_owned_by_session t (task_owner_for sv r)) (get_all_tasks st)"
proof -
  have "v = t" if "(i, v) \<in> set (fts_tasks st)" for v
    using that assms(2) amap_find_in_iff [OF assms(1)] by (metis option.inject)
  then show ?thesis
    unfolding get_all_tasks_def without_task_def using assms(3)
    by (auto simp: foreign_task_def intro!: filter_erase_absent)
qed

lemma foreign_tasks_hidden:
  assumes "amap_ok (fts_tasks st)" "amap_find i (fts_tasks st) = Some t" "foreign_task sv r t"
  shows "handle_get_task st sv r = handle_get_task (without_task i st) sv r"
    and "handle_get_task_payload st sv r = handle_get_task_payload (without_task i st) sv r"
    and "handle_list_tasks st sv r = handle_list_tasks (without_task i st) sv r"
  using owned_without [OF assms] listed_without [OF assms]
  by (simp_all add: handle_get_task_def handle_get_task_payload_def handle_list_tasks_def)

text \<open>C2: A task of one session does not exist for the others: whatever they ask about tasks, it is in the store afterwards
  as it was, and reading and listing answer them as if it were not there.\<close>

theorem foreign_tasks_isolated:
  assumes "sv_store sv = Some st" "amap_ok (fts_tasks st)" "amap_find i (fts_tasks st) = Some t" "foreign_task sv r t"
  shows "kept i t (fst (handle_cancel_task env st sv r)) \<and> kept i t (fst (handle_update_task env st sv r)) \<and>
    handle_get_task st sv r = handle_get_task (without_task i st) sv r \<and>
    handle_get_task_payload st sv r = handle_get_task_payload (without_task i st) sv r \<and>
    handle_list_tasks st sv r = handle_list_tasks (without_task i st) sv r"
  using foreign_tasks_kept [OF assms(1,3,4)] foreign_tasks_hidden [OF assms(2-4)] by blast

lemma foreign_tasks_isolated_witness:
  "foreign_task shared_server intruder_request shared_task \<and>
   kept ''t'' shared_task (fst (handle_cancel_task (\<lambda>_. ((Written, True), 0)) shared_store shared_server intruder_request))"
proof -
  have "amap_find ''t'' (fts_tasks shared_store) = Some shared_task" "amap_ok (fts_tasks shared_store)"
    by (simp_all add: shared_store_def amap_ok_def)
  moreover have "foreign_task shared_server intruder_request shared_task"
    by (simp add: foreign_task_def is_task_owned_by_session_def task_owner_for_def shared_task_def created_task_def
        intruder_request_def)
  ultimately show ?thesis using foreign_tasks_isolated [OF shared_server_store] by blast
qed

section \<open>Two gaps\<close>

text \<open>A tool that asks for input again when its task is resumed fails the task, although the first time such a request
  parks it.\<close>

lemma second_elicitation_fails_task:
  assumes "fail_task (fst (env 3)) (snd (env 3)) task_id (error_payload InternalError elicitation_what None) st = (st', Inr True)"
  shows "resume_outcome env False task_id responses (ThrowsElicitation requests) st = (st', Inr True)"
  using assms by (simp add: resume_outcome_def resume_failed_def)

text \<open>On a transport without sessions the owner of a task is the server's own name, but subscriptions are filed under the
  empty one: in the current protocol version the news of a task reach nobody.\<close>

lemma listen_other_bucket:
  "s \<noteq> rq_session r \<Longrightarrow>
   amap_find s (sh_subscriptions (sv_handler (fst (handle_subscriptions_listen now sv r)))) =
     amap_find s (sh_subscriptions (sv_handler sv))"
  by (auto simp: handle_subscriptions_listen_def step_or_def unchanged_def Let_def try_add_subscription_entry_def
      put_bucket_def amap_simps split: sum.split option.split prod.split subscription_add_outcome.split)

lemma task_news_lost:
  assumes "rq_session r = []" "amap_find (sv_session_id sv) (sh_subscriptions (sv_handler sv)) = None" "sv_session_id sv \<noteq> []"
  shows "send_task_notification (sv_handler sv) method task_id status True (task_owner_for sv r) = Inr []"
  using assms by (simp add: send_task_notification_def task_owner_for_def notify_subscribers_def Let_def)

end
