(* ===== verification/File_Input.thy ===== *)
theory File_Input
  imports Server_Handlers
begin

text \<open>
  References to files in the arguments of a tool (\<open>include/mcp/McpTypes.hpp\<close>, \<open>src/server/McpServer.cpp\<close>): an object
  that is nothing but a \<open>uri\<close> with an \<open>offset\<close> and a \<open>length\<close> is replaced by its content.  The file system is an
  argument: which paths resolve to one below the temporary or the working directory, and the bytes of the files that
  can be opened.
\<close>

section \<open>File references\<close>

record file_ref =
  fr_uri :: string
  fr_offset :: i64
  fr_length :: i64

definition serialize_file_ref :: "file_ref \<Rightarrow> json" where
  "serialize_file_ref v = build_object [
     put ''uri'' (JString (fr_uri v)),
     put_if (fr_offset v \<noteq> 0) ''offset'' (JInt (fr_offset v)),
     put_if (fr_length v \<noteq> 0) ''length'' (JInt (fr_length v))]"

text \<open>The value of a finite double that is an integer.\<close>

definition f64_whole :: "f64 \<Rightarrow> int option" where
  "f64_whole d =
     (if f64_finite d \<and> f64_num d mod f64_den d = 0
      then Some (if f64_neg d then - int (f64_num d div f64_den d) else int (f64_num d div f64_den d))
      else None)"

definition file_ref_error :: "string \<Rightarrow> string \<Rightarrow> json \<Rightarrow> 'a mres" where
  "file_ref_error field expected v = throw DeserializeFailed
     (''DeserializeFileRef: field '' @ [chr 39] @ field @ [chr 39] @ expected @ dump (- 1) v)"

definition narrow_json_to_int64 :: "json \<Rightarrow> string \<Rightarrow> i64 mres" where
  "narrow_json_to_int64 v field =
     (case v of
        JInt i \<Rightarrow> Inr i
      | JDouble d \<Rightarrow>
          (case f64_whole d of
             Some n \<Rightarrow>
               if - (2 ^ 63) \<le> n \<and> n < 2 ^ 63 then Inr (word_of_int n)
               else file_ref_error field '' expected an integral value in int64 range, got '' v
           | None \<Rightarrow> file_ref_error field '' expected an integral value in int64 range, got '' v)
      | _ \<Rightarrow> file_ref_error field '' expected an integer number, got '' v)"

definition int64_or_zero :: "string \<Rightarrow> json \<Rightarrow> i64 mres" where
  "int64_or_zero field j = (case json_find field j of Some v \<Rightarrow> narrow_json_to_int64 v field | None \<Rightarrow> Inr 0)"

definition deserialize_file_ref :: "json \<Rightarrow> file_ref mres" where
  "deserialize_file_ref j =
     rbind (rbind (json_at ''uri'' j) get_string) (\<lambda>uri.
     rbind (int64_or_zero ''offset'' j) (\<lambda>offset.
     rbind (int64_or_zero ''length'' j) (\<lambda>len.
     Inr \<lparr>fr_uri = uri, fr_offset = offset, fr_length = len\<rparr>)))"

definition is_file_input_ref_object :: "json \<Rightarrow> bool" where
  "is_file_input_ref_object node \<longleftrightarrow>
     (case node of
        JObject m \<Rightarrow> m \<noteq> [] \<and> length m \<le> 3 \<and>
          (case amap_find ''uri'' m of Some u \<Rightarrow> is_string u | None \<Rightarrow> False) \<and>
          list_all (\<lambda>(k, v). k = ''uri'' \<or> (k = ''offset'' \<or> k = ''length'') \<and> is_int v) m
      | _ \<Rightarrow> False)"

definition has_file_input_prefix :: "string \<Rightarrow> string \<Rightarrow> bool" where
  "has_file_input_prefix s p \<longleftrightarrow> take (length p) s = p"

section \<open>Ranges\<close>

definition file_input_max_bytes :: int where "file_input_max_bytes = 8 * 1024 * 1024"
definition file_input_inline_max_bytes :: nat where "file_input_inline_max_bytes = 256 * 1024"

text \<open>The sum of offset and length may overflow, which is undefined in C++; here it wraps, as the check behind it
  expects.\<close>

definition slice_file_input_range :: "string \<Rightarrow> i64 \<Rightarrow> i64 \<Rightarrow> string + string" where
  "slice_file_input_range full offset len =
     (let size = int (length full) in
      if sint offset < 0 \<or> sint len < 0 \<or> size < sint offset then Inl ''file input range out of bounds''
      else let end_pos = (if len = 0 then size else sint (offset + len)) in
        if end_pos < sint offset \<or> size < end_pos then Inl ''file input range out of bounds''
        else if file_input_max_bytes < end_pos - sint offset then Inl ''file input exceeds maximum size of 8MB''
        else Inr (take (nat (end_pos - sint offset)) (drop (nat (sint offset)) full)))"

section \<open>Replacing references\<close>

record file_access =
  fa_allowed :: "string \<Rightarrow> bool"
  fa_bytes :: "string \<Rightarrow> string option"

text \<open>Why the arguments cannot be used: a text for the caller of the tool, or an exception of the handler.\<close>

datatype input_stop = InputError string | InputThrows mcp_error

definition strip_drive_slash :: "string \<Rightarrow> string" where
  "strip_drive_slash raw =
     (case raw of
        s # l # c # rest \<Rightarrow>
          if s = CHR ''/'' \<and> is_letter l \<and> c = CHR '':'' then l # c # rest else raw
      | _ \<Rightarrow> raw)"

definition contents_text :: "resource_contents list \<Rightarrow> string" where
  "contents_text cs = concat (map (\<lambda>c. case c of TextResource t \<Rightarrow> tr_text t | BlobResource b \<Rightarrow> br_blob b) cs)"

text \<open>The content of a reference; \<open>None\<close> leaves it as it is.\<close>

definition input_slice :: "file_ref \<Rightarrow> string \<Rightarrow> input_stop + string option" where
  "input_slice ref full =
     (case slice_file_input_range full (fr_offset ref) (fr_length ref) of
        Inl message \<Rightarrow> Inl (InputError message)
      | Inr part \<Rightarrow> Inr (Some part))"

definition resource_input :: "server \<Rightarrow> file_ref \<Rightarrow> input_stop + string option" where
  "resource_input sv ref =
     (case read_resource_outcome sv (fr_uri ref) of
        None \<Rightarrow> Inl (InputError (''file input resource not found: '' @ fr_uri ref))
      | Some (Returns res) \<Rightarrow>
          if rr_input_required res \<noteq> None then Inl (InputError (''file input resource requires input: '' @ fr_uri ref))
          else input_slice ref (contents_text (rr_contents res))
      | Some out \<Rightarrow> Inl (InputError (''file input resource read failed: '' @ fr_uri ref)))"

definition disk_input :: "file_access \<Rightarrow> file_ref \<Rightarrow> input_stop + string option" where
  "disk_input disk ref =
     (let path = strip_drive_slash (drop 7 (fr_uri ref)) in
      if \<not> fa_allowed disk path then Inl (InputError (''file input not allowed: '' @ fr_uri ref))
      else case fa_bytes disk path of
             None \<Rightarrow> Inl (InputError (''file input not found: '' @ fr_uri ref))
           | Some full \<Rightarrow> input_slice ref full)"

definition reference_content :: "file_access \<Rightarrow> server \<Rightarrow> file_ref \<Rightarrow> input_stop + string option" where
  "reference_content disk sv ref =
     (if has_file_input_prefix (fr_uri ref) ''https://'' \<or> has_file_input_prefix (fr_uri ref) ''http://'' then Inr None
      else if has_file_input_prefix (fr_uri ref) ''resource://'' then resource_input sv ref
      else if has_file_input_prefix (fr_uri ref) ''file://'' then disk_input disk ref
      else Inr None)"

definition inline_reference :: "file_access \<Rightarrow> server \<Rightarrow> json \<Rightarrow> input_stop + json" where
  "inline_reference disk sv node =
     (case deserialize_file_ref node of
        Inl e \<Rightarrow> Inl (InputThrows e)
      | Inr ref \<Rightarrow>
          (case reference_content disk sv ref of
             Inl stop \<Rightarrow> Inl stop
           | Inr None \<Rightarrow> Inr node
           | Inr (Some full) \<Rightarrow>
               if file_input_inline_max_bytes < length full then Inr node
               else Inr (build_object [put ''uri'' (JString (fr_uri ref)), put ''content'' (JString full)])))"

text \<open>The walk through the arguments, up to the first reference that fails.\<close>

fun resolve_file_input :: "(json \<Rightarrow> input_stop + json) \<Rightarrow> json \<Rightarrow> input_stop + json"
  and resolve_items :: "(json \<Rightarrow> input_stop + json) \<Rightarrow> json list \<Rightarrow> input_stop + json list"
  and resolve_members :: "(json \<Rightarrow> input_stop + json) \<Rightarrow> members \<Rightarrow> input_stop + members" where
  "resolve_file_input inline (JArray xs) = rmap JArray (resolve_items inline xs)"
| "resolve_file_input inline (JObject m) =
     (if is_file_input_ref_object (JObject m) then inline (JObject m) else rmap JObject (resolve_members inline m))"
| "resolve_file_input inline JNull = Inr JNull"
| "resolve_file_input inline (JBool b) = Inr (JBool b)"
| "resolve_file_input inline (JInt i) = Inr (JInt i)"
| "resolve_file_input inline (JDouble d) = Inr (JDouble d)"
| "resolve_file_input inline (JString s) = Inr (JString s)"
| "resolve_items inline [] = Inr []"
| "resolve_items inline (x # xs) =
     rbind (resolve_file_input inline x) (\<lambda>y. rmap ((#) y) (resolve_items inline xs))"
| "resolve_members inline [] = Inr []"
| "resolve_members inline ((k, v) # m) =
     rbind (resolve_file_input inline v) (\<lambda>w. rmap ((#) (k, w)) (resolve_members inline m))"

section \<open>Ranges stay inside\<close>

lemma sint_add_nonneg:
  fixes a b :: i64
  assumes "0 \<le> sint a" "0 \<le> sint b"
  shows "sint (a + b) = (if sint a + sint b < 2 ^ 63 then sint a + sint b else sint a + sint b - 2 ^ 64)"
proof -
  let ?s = "sint a + sint b"
  have "sint a < 2 ^ 63" "sint b < 2 ^ 63" using sint_lt [of a] sint_lt [of b] by simp_all
  then have hi: "?s < 2 ^ 64" by simp
  have "sint (a + b) = (?s + 2 ^ 63) mod 2 ^ 64 - 2 ^ 63"
    by (simp add: sint_word_ariths(1) signed_take_bit_eq_take_bit_shift take_bit_eq_mod)
  moreover have "(?s + 2 ^ 63) mod 2 ^ 64 = (if ?s < 2 ^ 63 then ?s + 2 ^ 63 else ?s + 2 ^ 63 - 2 ^ 64)"
  proof (cases "?s < 2 ^ 63")
    case False
    have "(?s + 2 ^ 63) mod 2 ^ 64 = (?s + 2 ^ 63 - 2 ^ 64) mod 2 ^ 64" by (rule minus_mod_self2 [symmetric])
    also have "\<dots> = ?s + 2 ^ 63 - 2 ^ 64" using False hi by (intro mod_pos_pos_trivial) simp_all
    finally show ?thesis using False by simp
  qed (use assms in simp)
  ultimately show ?thesis by simp
qed

text \<open>How many bytes a range asks for: all that are left when its length is zero.\<close>

definition wanted_bytes :: "string \<Rightarrow> i64 \<Rightarrow> i64 \<Rightarrow> int" where
  "wanted_bytes full offset len = (if len = 0 then int (length full) - sint offset else sint len)"

text \<open>A range of a file is served exactly when offset and length are not negative, it ends inside the file and has
  at most 8 MB; a sum that overflows is never served.\<close>

theorem slice_exact:
  assumes "int (length full) < 2 ^ 63"
  shows "slice_file_input_range full offset len = Inr part \<longleftrightarrow>
    0 \<le> sint offset \<and> 0 \<le> sint len \<and> sint offset \<le> int (length full) \<and>
    sint offset + wanted_bytes full offset len \<le> int (length full) \<and>
    wanted_bytes full offset len \<le> file_input_max_bytes \<and>
    part = take (nat (wanted_bytes full offset len)) (drop (nat (sint offset)) full)"
proof (cases "0 \<le> sint offset \<and> 0 \<le> sint len \<and> sint offset \<le> int (length full)")
  case True
  have len0: "sint len = 0 \<longleftrightarrow> len = 0" by (metis signed_0 signed_word_eqI)
  show ?thesis
  proof (cases "len = 0")
    case False
    then have pos: "0 < sint len" using True len0 by linarith
    have sum: "sint (offset + len) = (if sint offset + sint len < 2 ^ 63 then sint offset + sint len
        else sint offset + sint len - 2 ^ 64)"
      using sint_add_nonneg True by blast
    have "sint len < 2 ^ 63" using sint_lt [of len] by simp
    then show ?thesis
      using True False pos assms
      by (auto simp: slice_file_input_range_def Let_def wanted_bytes_def sum)
  qed (use True in \<open>auto simp: slice_file_input_range_def Let_def wanted_bytes_def\<close>)
qed (auto simp: slice_file_input_range_def Let_def)

lemma slice_exact_witness:
  "int (length ''abcdef'') < 2 ^ 63 \<and> slice_file_input_range ''abcdef'' 2 3 = Inr ''cde''"
proof -
  have len: "int (length ''abcdef'') < 2 ^ 63" by simp
  have "slice_file_input_range ''abcdef'' 2 3 = Inr ''cde''"
    unfolding slice_exact [OF len] by (simp add: wanted_bytes_def file_input_max_bytes_def)
  with len show ?thesis by simp
qed

lemma json_at_find: "json_find k j = Some v \<Longrightarrow> json_at k j = Inr v"
  by (cases j) (simp_all add: json_at_def lookup_required_def)

lemma file_ref_roundtrip: "deserialize_file_ref (serialize_file_ref v) = Inr v"
proof -
  have "json_at ''uri'' (serialize_file_ref v) = Inr (JString (fr_uri v))"
    by (intro json_at_find) (simp add: serialize_file_ref_def codec_simps)
  moreover have "int64_or_zero ''offset'' (serialize_file_ref v) = Inr (fr_offset v)"
      "int64_or_zero ''length'' (serialize_file_ref v) = Inr (fr_length v)"
    by (simp_all add: serialize_file_ref_def int64_or_zero_def narrow_json_to_int64_def codec_simps)
  ultimately show ?thesis by (simp add: deserialize_file_ref_def)
qed

end
