(* ===== verification/Json_Schema.thy ===== *)
theory Json_Schema
  imports Json_Fields
begin

text \<open>
  \<open>src/detail/JsonSchemaValidator.hpp\<close>: whether a value fits a JSON schema.  The schema is a tree whose nodes the code
  knows by address; here a node is known by its path from the root.  The search of a regular expression,
  \<open>std::regex_search\<close>, is the argument \<open>rx\<close>: \<open>None\<close> when the pattern is malformed.
\<close>

section \<open>Arithmetic on doubles\<close>

definition f64_infinite :: "f64 \<Rightarrow> bool" where "f64_infinite w \<longleftrightarrow> f64_mag w = inf_bits"

definition f64_not_a_number :: f64 where "f64_not_a_number = f64_make False (inf_bits + 2 ^ 51)"

text \<open>The order of doubles that are no NaN; the two zeros are the same.\<close>

definition f64_order :: "f64 \<Rightarrow> int" where
  "f64_order w = (if f64_neg w then - int (f64_mag w) else int (f64_mag w))"

definition f64_less :: "f64 \<Rightarrow> f64 \<Rightarrow> bool" where
  "f64_less a b \<longleftrightarrow> \<not> f64_nan a \<and> \<not> f64_nan b \<and> f64_order a < f64_order b"

definition f64_le :: "f64 \<Rightarrow> f64 \<Rightarrow> bool" where
  "f64_le a b \<longleftrightarrow> \<not> f64_nan a \<and> \<not> f64_nan b \<and> f64_order a \<le> f64_order b"

text \<open>The double nearest to \<open>p / q\<close>.\<close>

definition f64_round :: "bool \<Rightarrow> nat \<Rightarrow> nat \<Rightarrow> f64" where
  "f64_round neg p q = f64_make neg (min inf_bits (round_bits p q))"

definition f64_abs :: "f64 \<Rightarrow> f64" where "f64_abs w = f64_make False (f64_mag w)"

definition f64_signed_num :: "f64 \<Rightarrow> int" where
  "f64_signed_num w = (if f64_neg w then - int (f64_num w) else int (f64_num w))"

definition f64_sub :: "f64 \<Rightarrow> f64 \<Rightarrow> f64" where
  "f64_sub a b =
     (if f64_nan a \<or> f64_nan b \<or> f64_infinite a \<and> f64_infinite b \<and> f64_neg a = f64_neg b then f64_not_a_number
      else if f64_infinite a then a
      else if f64_infinite b then f64_make (\<not> f64_neg b) inf_bits
      else let d = f64_signed_num a * int (f64_den b) - f64_signed_num b * int (f64_den a)
           in f64_round (d < 0) (nat \<bar>d\<bar>) (f64_den a * f64_den b))"

definition f64_mult :: "f64 \<Rightarrow> f64 \<Rightarrow> f64" where
  "f64_mult a b =
     (let neg = (f64_neg a \<noteq> f64_neg b) in
      if f64_nan a \<or> f64_nan b \<or> f64_infinite a \<and> f64_mag b = 0 \<or> f64_infinite b \<and> f64_mag a = 0 then f64_not_a_number
      else if f64_infinite a \<or> f64_infinite b then f64_make neg inf_bits
      else f64_round neg (f64_num a * f64_num b) (f64_den a * f64_den b))"

definition f64_div :: "f64 \<Rightarrow> f64 \<Rightarrow> f64" where
  "f64_div a b =
     (let neg = (f64_neg a \<noteq> f64_neg b) in
      if f64_nan a \<or> f64_nan b \<or> f64_infinite a \<and> f64_infinite b \<or> f64_mag a = 0 \<and> f64_mag b = 0 then f64_not_a_number
      else if f64_infinite a \<or> f64_mag b = 0 then f64_make neg inf_bits
      else if f64_infinite b then f64_make neg 0
      else f64_round neg (f64_num a * f64_den b) (f64_den a * f64_num b))"

text \<open>\<open>std::round\<close>: halves go away from zero.\<close>

definition f64_nearest :: "f64 \<Rightarrow> f64" where
  "f64_nearest w =
     (if f64_nan w \<or> f64_infinite w then w
      else f64_round (f64_neg w) ((2 * f64_num w + f64_den w) div (2 * f64_den w)) 1)"

text \<open>\<open>std::floor(v) == v\<close>.\<close>

definition f64_integral :: "f64 \<Rightarrow> bool" where
  "f64_integral w \<longleftrightarrow> \<not> f64_nan w \<and> (f64_infinite w \<or> f64_num w mod f64_den w = 0)"

definition f64_one :: f64 where "f64_one = f64_make False (round_bits 1 1)"

definition f64_nano :: f64 where "f64_nano = f64_make False (round_decimal 1 (- 9))"

section \<open>Values\<close>

definition schema_type_matches :: "json \<Rightarrow> string \<Rightarrow> bool" where
  "schema_type_matches instance type_name \<longleftrightarrow>
     (if type_name = ''integer'' then
        (case instance of JInt i \<Rightarrow> True | JDouble d \<Rightarrow> f64_integral d | _ \<Rightarrow> False)
      else type_name = ''object'' \<and> is_object instance \<or> type_name = ''array'' \<and> is_array instance \<or>
           type_name = ''string'' \<and> is_string instance \<or> type_name = ''number'' \<and> is_number instance \<or>
           type_name = ''boolean'' \<and> is_bool instance \<or> type_name = ''null'' \<and> is_null instance)"

definition schema_type_matches_any :: "json \<Rightarrow> json \<Rightarrow> bool" where
  "schema_type_matches_any instance type_value \<longleftrightarrow>
     (case type_value of
        JString t \<Rightarrow> schema_type_matches instance t
      | JArray ts \<Rightarrow> list_ex (\<lambda>t. case t of JString s \<Rightarrow> schema_type_matches instance s | _ \<Rightarrow> False) ts
      | _ \<Rightarrow> False)"

fun schema_number_value :: "json \<Rightarrow> f64 option" where
  "schema_number_value (JInt i) = Some (f64_of_int i)"
| "schema_number_value (JDouble d) = Some d"
| "schema_number_value _ = None"

text \<open>The conversion of a double that does not fit into \<open>size_t\<close> is undefined; here it is the number itself.\<close>

fun schema_count_value :: "json \<Rightarrow> nat option" where
  "schema_count_value (JInt i) = (if 0 \<le> sint i then Some (nat (sint i)) else None)"
| "schema_count_value (JDouble d) =
     (if f64_le 0 d \<and> f64_integral d then Some (f64_num d div f64_den d) else None)"
| "schema_count_value _ = None"

fun schema_values_equal :: "json \<Rightarrow> json \<Rightarrow> bool"
  and schema_items_equal :: "json list \<Rightarrow> json list \<Rightarrow> bool"
  and schema_members_equal :: "members \<Rightarrow> members \<Rightarrow> bool" where
  "schema_values_equal (JArray xs) b =
     (case b of JArray ys \<Rightarrow> length xs = length ys \<and> schema_items_equal xs ys | _ \<Rightarrow> False)"
| "schema_values_equal (JObject m) b =
     (case b of JObject n \<Rightarrow> length m = length n \<and> schema_members_equal m n | _ \<Rightarrow> False)"
| "schema_values_equal (JInt i) b =
     (case schema_number_value b of Some y \<Rightarrow> f64_eq (f64_of_int i) y | None \<Rightarrow> False)"
| "schema_values_equal (JDouble d) b = (case schema_number_value b of Some y \<Rightarrow> f64_eq d y | None \<Rightarrow> False)"
| "schema_values_equal JNull b = json_eq JNull b"
| "schema_values_equal (JBool x) b = json_eq (JBool x) b"
| "schema_values_equal (JString s) b = json_eq (JString s) b"
| "schema_items_equal (x # xs) (y # ys) = (schema_values_equal x y \<and> schema_items_equal xs ys)"
| "schema_items_equal _ _ = True"
| "schema_members_equal [] n = True"
| "schema_members_equal ((k, x) # m) n =
     ((case amap_find k n of None \<Rightarrow> False | Some y \<Rightarrow> schema_values_equal x y) \<and> schema_members_equal m n)"

definition utf8_width :: "char \<Rightarrow> nat" where
  "utf8_width c =
     (let b = byte_of c in
      if b < 128 then 1 else if 192 \<le> b \<and> b < 224 then 2 else if 224 \<le> b \<and> b < 240 then 3
      else if 240 \<le> b \<and> b < 248 then 4 else 1)"

function utf8_code_point_length :: "string \<Rightarrow> nat" where
  "utf8_code_point_length [] = 0"
| "utf8_code_point_length (c # s) = Suc (utf8_code_point_length (drop (utf8_width c - 1) s))"
  by pat_completeness auto
termination by (relation "measure length") auto

section \<open>References\<close>

datatype path_step = KeyStep string | IndexStep nat

type_synonym path = "path_step list"

fun unescape_token :: "string \<Rightarrow> string" where
  "unescape_token (c # d # s) =
     (if c = CHR ''~'' then (if d = CHR ''1'' then CHR ''/'' else if d = CHR ''0'' then CHR ''~'' else d) # unescape_token s
      else c # unescape_token (d # s))"
| "unescape_token s = s"

fun pointer_tokens :: "string \<Rightarrow> string list" where
  "pointer_tokens [] = [[]]"
| "pointer_tokens (c # s) =
     (if c = CHR ''/'' then [] # pointer_tokens s
      else case pointer_tokens s of [] \<Rightarrow> [[c]] | t # ts \<Rightarrow> (c # t) # ts)"

definition pointer_step :: "json \<Rightarrow> string \<Rightarrow> (path_step \<times> json) option" where
  "pointer_step j key =
     (case j of
        JObject m \<Rightarrow> map_option (\<lambda>v. (KeyStep key, v)) (amap_find key m)
      | JArray xs \<Rightarrow>
          (let i = nat_of_digits key mod 2 ^ 64 in
           if key = [] \<or> \<not> list_all is_digit key \<or> length xs \<le> i then None else Some (IndexStep i, xs ! i))
      | _ \<Rightarrow> None)"

fun walk_pointer :: "json \<Rightarrow> string list \<Rightarrow> (path \<times> json) option" where
  "walk_pointer j [] = Some ([], j)"
| "walk_pointer j (t # ts) =
     (case pointer_step j (unescape_token t) of
        None \<Rightarrow> None
      | Some (s, next_node) \<Rightarrow> map_option (\<lambda>(p, v). (s # p, v)) (walk_pointer next_node ts))"

fun find_schema_anchor :: "string \<Rightarrow> json \<Rightarrow> (path \<times> json) option"
  and find_anchor_member :: "string \<Rightarrow> members \<Rightarrow> (path \<times> json) option"
  and find_anchor_item :: "string \<Rightarrow> nat \<Rightarrow> json list \<Rightarrow> (path \<times> json) option" where
  "find_schema_anchor a (JObject m) =
     (if amap_find ''$anchor'' m = Some (JString a) then Some ([], JObject m) else find_anchor_member a m)"
| "find_schema_anchor a (JArray xs) = find_anchor_item a 0 xs"
| "find_schema_anchor a _ = None"
| "find_anchor_member a [] = None"
| "find_anchor_member a ((k, v) # m) =
     (case find_schema_anchor a v of
        Some (p, found) \<Rightarrow> Some (KeyStep k # p, found)
      | None \<Rightarrow> find_anchor_member a m)"
| "find_anchor_item a i [] = None"
| "find_anchor_item a i (x # xs) =
     (case find_schema_anchor a x of
        Some (p, found) \<Rightarrow> Some (IndexStep i # p, found)
      | None \<Rightarrow> find_anchor_item a (Suc i) xs)"

definition quoted :: "string \<Rightarrow> string" where "quoted s = [chr 39] @ s @ [chr 39]"

definition resolve_schema_ref :: "json \<Rightarrow> string \<Rightarrow> string + (path \<times> json)" where
  "resolve_schema_ref root ref =
     (case ref of
        [] \<Rightarrow> Inl (''unresolvable $ref '' @ quoted ref)
      | h # s \<Rightarrow>
          if h \<noteq> CHR ''#'' then Inl (''unresolvable $ref '' @ quoted ref)
          else case s of
                 [] \<Rightarrow> Inr ([], root)
               | c # pointer \<Rightarrow>
                   if c = CHR ''/'' then
                     (case walk_pointer root (pointer_tokens pointer) of
                        None \<Rightarrow> Inl ''unresolvable $ref'' | Some found \<Rightarrow> Inr found)
                   else (case find_schema_anchor s root of
                           None \<Rightarrow> Inl (''unresolvable $ref '' @ quoted ref) | Some found \<Rightarrow> Inr found))"

section \<open>Checks\<close>

text \<open>A check gives no error, an error text, or throws.\<close>

type_synonym check = "string option mres"

definition pass :: check where "pass = Inr None"
definition flaw :: "string \<Rightarrow> check" where "flaw message = Inr (Some message)"

definition and_check :: "check \<Rightarrow> check \<Rightarrow> check" where
  "and_check c d = rbind c (\<lambda>e. case e of Some m \<Rightarrow> Inr (Some m) | None \<Rightarrow> d)"

definition within :: "string \<Rightarrow> check \<Rightarrow> check" where
  "within prefix c = rmap (map_option (\<lambda>m. prefix @ m)) c"

definition unless :: "bool \<Rightarrow> string \<Rightarrow> check" where
  "unless fine message = (if fine then pass else flaw message)"

fun all_checks :: "('a \<Rightarrow> check) \<Rightarrow> 'a list \<Rightarrow> check" where
  "all_checks f [] = pass"
| "all_checks f (x # xs) = and_check (f x) (all_checks f xs)"

fun some_check :: "('a \<Rightarrow> check) \<Rightarrow> 'a list \<Rightarrow> bool mres" where
  "some_check f [] = Inr False"
| "some_check f (x # xs) = rbind (f x) (\<lambda>e. if e = None then Inr True else some_check f xs)"

fun count_checks :: "('a \<Rightarrow> check) \<Rightarrow> 'a list \<Rightarrow> nat mres" where
  "count_checks f [] = Inr 0"
| "count_checks f (x # xs) = rbind (f x) (\<lambda>e. rmap (\<lambda>n. if e = None then Suc n else n) (count_checks f xs))"

text \<open>A keyword of a schema, when it is there; a keyword that must be an array or an object.\<close>

definition on_key :: "string \<Rightarrow> json \<Rightarrow> (json \<Rightarrow> check) \<Rightarrow> check" where
  "on_key key schema f = (case json_find key schema of None \<Rightarrow> pass | Some v \<Rightarrow> f v)"

definition on_array :: "string \<Rightarrow> json \<Rightarrow> (json list \<Rightarrow> check) \<Rightarrow> check" where
  "on_array key schema f = (case json_find key schema of Some (JArray xs) \<Rightarrow> f xs | _ \<Rightarrow> pass)"

definition on_object :: "string \<Rightarrow> json \<Rightarrow> (members \<Rightarrow> check) \<Rightarrow> check" where
  "on_object key schema f = (case json_find key schema of Some (JObject m) \<Rightarrow> f m | _ \<Rightarrow> pass)"

definition on_count :: "string \<Rightarrow> json \<Rightarrow> (nat \<Rightarrow> bool) \<Rightarrow> string \<Rightarrow> check" where
  "on_count key schema fine message =
     on_key key schema (\<lambda>v. case schema_count_value v of Some n \<Rightarrow> unless (fine n) message | None \<Rightarrow> pass)"

text \<open>References, with the nodes that are being followed.\<close>

definition check_ref ::
  "(path list \<Rightarrow> json \<Rightarrow> json \<Rightarrow> check) \<Rightarrow> json \<Rightarrow> path list \<Rightarrow> json \<Rightarrow> json \<Rightarrow> string \<Rightarrow> check" where
  "check_ref v root chain schema instance ref_key =
     on_key ref_key schema (\<lambda>ref.
       case ref of
         JString s \<Rightarrow>
           if s \<noteq> [] \<and> hd s \<noteq> CHR ''#'' then
             flaw (''remote '' @ ref_key @ '' not dereferenced '' @ quoted s)
           else (case resolve_schema_ref root s of
                   Inl message \<Rightarrow> flaw message
                 | Inr (path, target) \<Rightarrow>
                     if path \<in> set chain then throw InvalidParams (''circular '' @ ref_key @ '' '' @ quoted s)
                     else v (chain @ [path]) target instance)
       | _ \<Rightarrow> flaw (''invalid '' @ ref_key))"

definition ref_keys :: "string list" where "ref_keys = [''$ref'', ''$dynamicRef'', ''$recursiveRef'']"

text \<open>The keywords for every kind of value; \<open>v\<close> is the check against a schema below this one.\<close>

definition check_any_value :: "(json \<Rightarrow> json \<Rightarrow> check) \<Rightarrow> json \<Rightarrow> json \<Rightarrow> check" where
  "check_any_value v schema instance =
     and_check (on_key ''const'' schema (\<lambda>c. unless (schema_values_equal c instance) ''value does not match const''))
    (and_check (on_array ''enum'' schema (\<lambda>os. unless (list_ex (\<lambda>opt. schema_values_equal opt instance) os) ''value not in enum''))
    (and_check (on_key ''type'' schema (\<lambda>t. unless (schema_type_matches_any instance t) ''type mismatch''))
    (and_check (on_array ''allOf'' schema (all_checks (\<lambda>s. v s instance)))
    (and_check (on_array ''anyOf'' schema (\<lambda>ss. rbind (some_check (\<lambda>s. v s instance) ss)
       (\<lambda>found. unless found ''value does not match anyOf'')))
    (and_check (on_array ''oneOf'' schema (\<lambda>ss. rbind (count_checks (\<lambda>s. v s instance) ss)
       (\<lambda>n. unless (n = 1) ''value does not match oneOf'')))
    (and_check (on_key ''not'' schema (\<lambda>n. rbind (v n instance)
       (\<lambda>e. unless (e \<noteq> None) ''value matches forbidden not schema'')))
    (on_key ''if'' schema (\<lambda>cond. rbind (v cond instance) (\<lambda>e.
       if e = None then on_key ''then'' schema (\<lambda>s. v s instance)
       else on_key ''else'' schema (\<lambda>s. v s instance))))))))))"

section \<open>Objects\<close>

definition requires_names :: "string \<Rightarrow> members \<Rightarrow> json list \<Rightarrow> check" where
  "requires_names message m rs = all_checks (\<lambda>r. case r of
     JString name \<Rightarrow> unless (amap_find name m \<noteq> None) (message @ quoted name) | _ \<Rightarrow> pass) rs"

definition declared_property :: "json \<Rightarrow> string \<Rightarrow> bool" where
  "declared_property schema key \<longleftrightarrow>
     (case json_find ''properties'' schema of Some (JObject ps) \<Rightarrow> amap_find key ps \<noteq> None | _ \<Rightarrow> False)"

definition pattern_covered :: "(string \<Rightarrow> string \<Rightarrow> bool option) \<Rightarrow> json \<Rightarrow> string \<Rightarrow> bool" where
  "pattern_covered rx schema key \<longleftrightarrow>
     (case json_find ''patternProperties'' schema of
        Some (JObject ps) \<Rightarrow> list_ex (\<lambda>(pattern, sub). rx pattern key = Some True) ps
      | _ \<Rightarrow> False)"

definition check_object ::
  "(string \<Rightarrow> string \<Rightarrow> bool option) \<Rightarrow> (json \<Rightarrow> json \<Rightarrow> check) \<Rightarrow> json \<Rightarrow> members \<Rightarrow> check" where
  "check_object rx v schema m =
     (let property = (\<lambda>key. within (''property '' @ quoted key @ '': '')) in
      and_check (on_array ''required'' schema (requires_names ''missing required property '' m))
     (and_check (on_count ''minProperties'' schema (\<lambda>n. n \<le> length m) ''too few properties'')
     (and_check (on_count ''maxProperties'' schema (\<lambda>n. length m \<le> n) ''too many properties'')
     (and_check (on_object ''properties'' schema (all_checks (\<lambda>(key, sub).
        case amap_find key m of None \<Rightarrow> pass | Some val \<Rightarrow> property key (v sub val))))
     (and_check (on_object ''patternProperties'' schema (all_checks (\<lambda>(pattern, sub).
        all_checks (\<lambda>(key, val). if rx pattern key = Some True then property key (v sub val) else pass) m)))
     (and_check (on_key ''additionalProperties'' schema (\<lambda>add. all_checks (\<lambda>(key, val).
        if declared_property schema key \<or> pattern_covered rx schema key then pass else property key (v add val)) m))
     (and_check (on_key ''propertyNames'' schema (\<lambda>names. all_checks (\<lambda>(key, val).
        within (''property name '' @ quoted key @ '': '') (v names (JString key))) m))
     (and_check (on_object ''dependentRequired'' schema (all_checks (\<lambda>(prop, reqs).
        case reqs of
          JArray rs \<Rightarrow> if amap_find prop m = None then pass else requires_names ''missing dependent property '' m rs
        | _ \<Rightarrow> pass)))
     (and_check (on_object ''dependentSchemas'' schema (all_checks (\<lambda>(prop, sub).
        if amap_find prop m = None then pass else v sub (JObject m))))
     (on_object ''dependencies'' schema (all_checks (\<lambda>(prop, sub).
        if amap_find prop m = None then pass
        else case sub of
               JArray rs \<Rightarrow> requires_names ''missing dependent property '' m rs
             | _ \<Rightarrow> v sub (JObject m)))))))))))))"

section \<open>Arrays, strings and numbers\<close>

definition item_schema :: "json \<Rightarrow> nat \<Rightarrow> json option" where
  "item_schema schema i =
     (let rest = (case json_find ''items'' schema of
            None \<Rightarrow> None
          | Some (JArray subs) \<Rightarrow> if i < length subs then Some (subs ! i) else json_find ''additionalItems'' schema
          | Some sub \<Rightarrow> Some sub)
      in case json_find ''prefixItems'' schema of
           Some (JArray subs) \<Rightarrow> if i < length subs then Some (subs ! i) else rest
         | _ \<Rightarrow> rest)"

fun all_different :: "json list \<Rightarrow> bool" where
  "all_different [] = True"
| "all_different (x # xs) = (list_all (\<lambda>y. \<not> schema_values_equal x y) xs \<and> all_different xs)"

definition count_bound :: "string \<Rightarrow> json \<Rightarrow> nat \<Rightarrow> nat" where
  "count_bound key schema dflt =
     (case json_find key schema of
        Some v \<Rightarrow> (case schema_count_value v of Some n \<Rightarrow> n | None \<Rightarrow> dflt)
      | None \<Rightarrow> dflt)"

definition check_array :: "(json \<Rightarrow> json \<Rightarrow> check) \<Rightarrow> json \<Rightarrow> json list \<Rightarrow> check" where
  "check_array v schema xs =
     and_check (all_checks (\<lambda>i. case item_schema schema i of
        Some sub \<Rightarrow> within (''item '' @ dec_nat i @ '': '') (v sub (xs ! i)) | None \<Rightarrow> pass) [0..<length xs])
    (and_check (on_key ''contains'' schema (\<lambda>sub. rbind (count_checks (v sub) xs) (\<lambda>n.
       if n < count_bound ''minContains'' schema 1 then flaw ''array contains too few matches''
       else if count_bound ''maxContains'' schema (length xs + 1) < n then flaw ''array contains too many matches''
       else pass)))
    (and_check (on_key ''uniqueItems'' schema (\<lambda>u. unless (u = JBool True \<longrightarrow> all_different xs) ''array items not unique''))
    (and_check (on_count ''minItems'' schema (\<lambda>n. n \<le> length xs) ''too few items'')
    (on_count ''maxItems'' schema (\<lambda>n. length xs \<le> n) ''too many items''))))"

definition check_string :: "(string \<Rightarrow> string \<Rightarrow> bool option) \<Rightarrow> json \<Rightarrow> string \<Rightarrow> check" where
  "check_string rx schema s =
     and_check (on_count ''minLength'' schema (\<lambda>n. n \<le> utf8_code_point_length s) ''string too short'')
    (and_check (on_count ''maxLength'' schema (\<lambda>n. utf8_code_point_length s \<le> n) ''string too long'')
    (on_key ''pattern'' schema (\<lambda>p. case p of
       JString pattern \<Rightarrow> unless (rx pattern s \<noteq> Some False) ''string does not match pattern'' | _ \<Rightarrow> pass)))"

definition on_number :: "string \<Rightarrow> json \<Rightarrow> (f64 \<Rightarrow> bool) \<Rightarrow> string \<Rightarrow> check" where
  "on_number key schema fine message =
     on_key key schema (\<lambda>v. case schema_number_value v of Some d \<Rightarrow> unless (fine d) message | None \<Rightarrow> pass)"

text \<open>An exclusive bound is a number, or the flag of older drafts that makes the other bound exclusive.\<close>

definition exclusive_bound :: "string \<Rightarrow> string \<Rightarrow> json \<Rightarrow> (f64 \<Rightarrow> bool) \<Rightarrow> string \<Rightarrow> check" where
  "exclusive_bound key other schema fine message =
     on_key key schema (\<lambda>e. case schema_number_value e of
       Some d \<Rightarrow> unless (fine d) message
     | None \<Rightarrow> if e = JBool True then on_number other schema fine message else pass)"

definition multiple_of :: "json \<Rightarrow> f64 \<Rightarrow> json \<Rightarrow> bool" where
  "multiple_of instance v mult =
     (case (instance, mult) of
        (JInt i, JInt divisor) \<Rightarrow> \<not> (0 < sint divisor \<and> sint i mod sint divisor \<noteq> 0)
      | _ \<Rightarrow>
          (case schema_number_value mult of
             Some m \<Rightarrow>
               if f64_less 0 m then
                 (let q = f64_div v m;
                      scale = (if f64_less f64_one (f64_abs q) then f64_abs q else f64_one)
                  in \<not> f64_less (f64_mult f64_nano scale) (f64_abs (f64_sub q (f64_nearest q))))
               else True
           | None \<Rightarrow> True))"

definition check_number :: "json \<Rightarrow> json \<Rightarrow> f64 \<Rightarrow> check" where
  "check_number schema instance v =
     and_check (on_number ''minimum'' schema (\<lambda>m. \<not> f64_less v m) ''below minimum'')
    (and_check (on_number ''maximum'' schema (\<lambda>m. \<not> f64_less m v) ''above maximum'')
    (and_check (exclusive_bound ''exclusiveMinimum'' ''minimum'' schema (\<lambda>m. \<not> f64_le v m) ''below exclusiveMinimum'')
    (and_check (exclusive_bound ''exclusiveMaximum'' ''maximum'' schema (\<lambda>m. \<not> f64_le m v) ''above exclusiveMaximum'')
    (on_key ''multipleOf'' schema (\<lambda>mult. unless (multiple_of instance v mult) ''not multipleOf'')))))"

section \<open>Validation\<close>

definition check_keywords ::
  "(string \<Rightarrow> string \<Rightarrow> bool option) \<Rightarrow> json \<Rightarrow> (path list \<Rightarrow> json \<Rightarrow> json \<Rightarrow> check) \<Rightarrow> path list \<Rightarrow> json \<Rightarrow> json \<Rightarrow> check" where
  "check_keywords rx root v chain schema instance =
     and_check (all_checks (check_ref v root chain schema instance) ref_keys)
    (and_check (check_any_value (v chain) schema instance)
    (case instance of
       JObject m \<Rightarrow> check_object rx (v chain) schema m
     | JArray xs \<Rightarrow> check_array (v chain) schema xs
     | JString s \<Rightarrow> check_string rx schema s
     | JInt i \<Rightarrow> check_number schema instance (f64_of_int i)
     | JDouble d \<Rightarrow> check_number schema instance d
     | _ \<Rightarrow> pass))"

text \<open>
  \<open>left\<close> is how many more levels the schema may go down: \<open>kMaxJsonSchemaDepth + 1 - depth\<close>.  What no object and no
  truth value is accepts everything.
\<close>

definition max_json_schema_depth :: nat where "max_json_schema_depth = 32"

primrec validate_with_root ::
  "(string \<Rightarrow> string \<Rightarrow> bool option) \<Rightarrow> json \<Rightarrow> nat \<Rightarrow> path list \<Rightarrow> json \<Rightarrow> json \<Rightarrow> check" where
  "validate_with_root rx root 0 chain schema instance =
     (case schema of
        JBool b \<Rightarrow> unless b ''boolean schema false''
      | JObject m \<Rightarrow> flaw ''schema depth exceeded''
      | _ \<Rightarrow> pass)"
| "validate_with_root rx root (Suc left) chain schema instance =
     (case schema of
        JBool b \<Rightarrow> unless b ''boolean schema false''
      | JObject m \<Rightarrow> check_keywords rx root (validate_with_root rx root left) chain schema instance
      | _ \<Rightarrow> pass)"

definition validate_json_schema :: "(string \<Rightarrow> string \<Rightarrow> bool option) \<Rightarrow> json \<Rightarrow> json \<Rightarrow> check" where
  "validate_json_schema rx instance schema =
     validate_with_root rx schema (Suc max_json_schema_depth) [[]] schema instance"

section \<open>What acceptance means\<close>

lemma and_check_pass: "and_check c d = pass \<longleftrightarrow> c = pass \<and> d = pass"
  by (cases c) (auto simp: and_check_def pass_def rbind_def split: option.split)

lemma within_pass: "within prefix c = pass \<longleftrightarrow> c = pass"
  by (cases c) (auto simp: within_def pass_def rmap_def rbind_def)

lemma unless_pass: "unless fine message = pass \<longleftrightarrow> fine"
  by (simp add: unless_def pass_def flaw_def)

lemma all_checks_pass: "all_checks f xs = pass \<longleftrightarrow> (\<forall>x \<in> set xs. f x = pass)"
  by (induction xs) (simp_all add: and_check_pass)

lemmas check_pass = and_check_pass within_pass unless_pass all_checks_pass

lemma keywords_pass:
  "check_keywords rx root v chain schema (JObject m) = pass \<Longrightarrow>
   check_any_value (v chain) schema (JObject m) = pass \<and> check_object rx (v chain) schema m = pass"
  by (simp add: check_keywords_def check_pass)

lemma check_object_pass:
  "check_object rx v schema m = pass \<longleftrightarrow>
     on_array ''required'' schema (requires_names ''missing required property '' m) = pass \<and>
     on_count ''minProperties'' schema (\<lambda>n. n \<le> length m) ''too few properties'' = pass \<and>
     on_count ''maxProperties'' schema (\<lambda>n. length m \<le> n) ''too many properties'' = pass \<and>
     on_object ''properties'' schema (all_checks (\<lambda>(key, sub). case amap_find key m of
       None \<Rightarrow> pass | Some val \<Rightarrow> within (''property '' @ quoted key @ '': '') (v sub val))) = pass \<and>
     on_object ''patternProperties'' schema (all_checks (\<lambda>(pattern, sub). all_checks (\<lambda>(key, val).
       if rx pattern key = Some True then within (''property '' @ quoted key @ '': '') (v sub val) else pass) m)) = pass \<and>
     on_key ''additionalProperties'' schema (\<lambda>add. all_checks (\<lambda>(key, val).
       if declared_property schema key \<or> pattern_covered rx schema key then pass
       else within (''property '' @ quoted key @ '': '') (v add val)) m) = pass \<and>
     on_key ''propertyNames'' schema (\<lambda>names. all_checks (\<lambda>(key, val).
       within (''property name '' @ quoted key @ '': '') (v names (JString key))) m) = pass \<and>
     on_object ''dependentRequired'' schema (all_checks (\<lambda>(prop, reqs). case reqs of
       JArray rs \<Rightarrow> if amap_find prop m = None then pass else requires_names ''missing dependent property '' m rs
     | _ \<Rightarrow> pass)) = pass \<and>
     on_object ''dependentSchemas'' schema (all_checks (\<lambda>(prop, sub).
       if amap_find prop m = None then pass else v sub (JObject m))) = pass \<and>
     on_object ''dependencies'' schema (all_checks (\<lambda>(prop, sub). if amap_find prop m = None then pass
       else case sub of JArray rs \<Rightarrow> requires_names ''missing dependent property '' m rs | _ \<Rightarrow> v sub (JObject m))) = pass"
  by (simp only: check_object_def Let_def and_check_pass)

definition required_names :: "json \<Rightarrow> string list" where
  "required_names schema =
     (case json_find ''required'' schema of
        Some (JArray rs) \<Rightarrow> concat (map (\<lambda>r. case r of JString s \<Rightarrow> [s] | _ \<Rightarrow> []) rs)
      | _ \<Rightarrow> [])"

definition property_schemas :: "json \<Rightarrow> members" where
  "property_schemas schema = (case json_find ''properties'' schema of Some (JObject ps) \<Rightarrow> ps | _ \<Rightarrow> [])"

lemma required_pass:
  assumes "on_array ''required'' schema (requires_names message m) = pass" "name \<in> set (required_names schema)"
  shows "amap_find name m \<noteq> None"
proof -
  obtain rs where rs: "json_find ''required'' schema = Some (JArray rs)" "JString name \<in> set rs"
    using assms(2) by (auto simp: required_names_def split: option.splits json.splits dest: sym [of "Some _"])
  with assms(1) have "unless (amap_find name m \<noteq> None) (message @ quoted name) = pass"
    by (fastforce simp: on_array_def requires_names_def all_checks_pass)
  then show ?thesis by (simp only: unless_pass not_False_eq_True)
qed

lemma properties_pass:
  assumes "on_object ''properties'' schema (all_checks (\<lambda>(key, sub). case amap_find key m of
      None \<Rightarrow> pass | Some val \<Rightarrow> within (''property '' @ quoted key @ '': '') (v sub val))) = pass"
    "(key, sub) \<in> set (property_schemas schema)" "amap_find key m = Some val"
  shows "v sub val = pass"
proof -
  obtain ps where ps: "json_find ''properties'' schema = Some (JObject ps)" "(key, sub) \<in> set ps"
    using assms(2) by (auto simp: property_schemas_def split: option.splits json.splits dest: sym [of "Some _"])
  with assms(1,3) have "within (''property '' @ quoted key @ '': '') (v sub val) = pass"
    by (fastforce simp: on_object_def all_checks_pass)
  then show ?thesis by (simp only: within_pass)
qed

lemma closed_pass:
  assumes "on_key ''additionalProperties'' schema (\<lambda>add. all_checks (\<lambda>(key, val).
      if declared_property schema key \<or> pattern_covered rx schema key then pass
      else within (''property '' @ quoted key @ '': '') (v add val)) m) = pass"
    "json_find ''additionalProperties'' schema = Some add" "(key, val) \<in> set m"
  shows "declared_property schema key \<or> pattern_covered rx schema key \<or> v add val = pass"
proof -
  let ?f = "\<lambda>(key, val). if declared_property schema key \<or> pattern_covered rx schema key then pass
      else within (''property '' @ quoted key @ '': '') (v add val)"
  from assms(1,2) have "all_checks ?f m = pass" by (simp only: on_key_def option.case)
  then have "?f (key, val) = pass" using assms(3) unfolding all_checks_pass by (rule bspec)
  then show ?thesis
    by (cases "declared_property schema key \<or> pattern_covered rx schema key") (auto simp: within_pass)
qed

lemma validate_object:
  "validate_with_root rx root (Suc left) chain (JObject sm) instance =
     check_keywords rx root (validate_with_root rx root left) chain (JObject sm) instance"
  by simp

lemma false_schema: "validate_with_root rx root left chain (JBool False) instance \<noteq> pass"
  by (cases left) (simp_all add: unless_def pass_def flaw_def)

lemmas schema_eval = check_keywords_def check_any_value_def check_object_def on_key_def on_array_def
  on_object_def on_count_def ref_keys_def check_ref_def resolve_schema_ref_def

lemma and_check_simps [simp]: "and_check pass d = d" "and_check (throw c m) d = throw c m"
  by (simp_all add: and_check_def pass_def throw_def)

lemma within_simps [simp]: "within p (throw c m) = throw c m" "within p pass = pass"
  by (simp_all add: within_def throw_def pass_def)

lemma depth_levels: obtains n where "max_json_schema_depth = Suc (Suc n)"
  by (rule that [of 30]) (simp add: max_json_schema_depth_def)

text \<open>What the validator accepts has the shape the schema asks for: the required properties are there, every declared
  property that is there fits its own schema, and under a false \<open>additionalProperties\<close> there is no other.\<close>

theorem accepted_object_shaped:
  assumes "validate_json_schema rx (JObject m) (JObject sm) = pass"
  shows "(\<forall>name \<in> set (required_names (JObject sm)). amap_find name m \<noteq> None) \<and>
     (\<forall>(key, sub) \<in> set (property_schemas (JObject sm)). \<forall>val. amap_find key m = Some val \<longrightarrow>
        validate_with_root rx (JObject sm) max_json_schema_depth [[]] sub val = pass) \<and>
     (amap_find ''additionalProperties'' sm = Some (JBool False) \<longrightarrow>
        (\<forall>(key, val) \<in> set m. declared_property (JObject sm) key \<or> pattern_covered rx (JObject sm) key))"
proof -
  let ?v = "validate_with_root rx (JObject sm) max_json_schema_depth [[]]"
  have obj: "check_object rx ?v (JObject sm) m = pass"
    using assms keywords_pass unfolding validate_json_schema_def validate_object by blast
  note parts = obj [unfolded check_object_pass]
  have "\<forall>name \<in> set (required_names (JObject sm)). amap_find name m \<noteq> None"
    using required_pass parts by blast
  moreover have "\<forall>(key, sub) \<in> set (property_schemas (JObject sm)). \<forall>val. amap_find key m = Some val \<longrightarrow> ?v sub val = pass"
  proof (intro ballI case_prodI2 allI impI)
    fix p key sub val
    assume "p \<in> set (property_schemas (JObject sm))" "p = (key, sub)" "amap_find key m = Some val"
    then show "?v sub val = pass" using properties_pass [where schema = "JObject sm" and m = m and v = ?v and key = key and sub = sub and val = val] parts by simp
  qed
  moreover have "declared_property (JObject sm) key \<or> pattern_covered rx (JObject sm) key"
    if "amap_find ''additionalProperties'' sm = Some (JBool False)" "(key, val) \<in> set m" for key val
  proof -
    have "json_find ''additionalProperties'' (JObject sm) = Some (JBool False)" using that(1) by simp
    from closed_pass [OF _ this that(2)] parts false_schema show ?thesis by blast
  qed
  ultimately show ?thesis by blast
qed

definition point_schema :: members where
  "point_schema = [(''additionalProperties'', JBool False), (''properties'', JObject [(''x'', JObject [])]),
     (''required'', JArray [JString ''x''])]"

lemma point_accepted:
  "validate_json_schema (\<lambda>_ _. None) (JObject [(''x'', JInt 1)]) (JObject point_schema) = pass"
proof -
  obtain n where depth: "max_json_schema_depth = Suc (Suc n)" by (rule depth_levels)
  show ?thesis
    by (simp add: validate_json_schema_def depth schema_eval point_schema_def requires_names_def unless_def
        declared_property_def check_number_def on_number_def exclusive_bound_def)
qed

lemma accepted_object_shaped_witness:
  "validate_json_schema (\<lambda>_ _. None) (JObject [(''x'', JInt 1)]) (JObject point_schema) = pass \<and>
   declared_property (JObject point_schema) ''x''"
  using accepted_object_shaped [OF point_accepted] point_accepted by (simp add: point_schema_def pattern_covered_def)

text \<open>A schema that refers to itself below a property, as the schema of a tree does, is refused as circular as soon as
  the value goes one level down: the nodes being followed are not forgotten when the check moves on inside the value.\<close>

definition tree_schema :: members where
  "tree_schema = [(''properties'', JObject [(''child'', JObject [(''$ref'', JString ''#'')])])]"

lemma recursive_schema_refused:
  "validate_json_schema rx (JObject []) (JObject tree_schema) = pass"
  "validate_json_schema rx (JObject [(''child'', JObject [])]) (JObject tree_schema) =
     throw InvalidParams (''circular $ref '' @ quoted ''#'')"
proof -
  obtain n where depth: "max_json_schema_depth = Suc (Suc n)" by (rule depth_levels)
  show "validate_json_schema rx (JObject []) (JObject tree_schema) = pass"
    by (simp add: validate_json_schema_def depth schema_eval tree_schema_def)
  show "validate_json_schema rx (JObject [(''child'', JObject [])]) (JObject tree_schema) =
      throw InvalidParams (''circular $ref '' @ quoted ''#'')"
    by (simp add: validate_json_schema_def depth schema_eval tree_schema_def)
qed

end
