(* ===== verification/Server_Calls.thy ===== *)
theory Server_Calls
  imports Server_Tasks File_Input Json_Schema
begin

text \<open>
  \<open>HandleCallTool\<close> of \<open>src/server/McpServer.cpp\<close>: a call answers at once, becomes a task that runs in the background, or,
  when its tool requires a task in the current protocol version, runs inside the handler and leaves a finished task.
  The job in the background is a step of its own, which starts from whatever the server has become by then.
\<close>

section \<open>What a call gets from outside\<close>

text \<open>
  Regular expressions, the file system, the clock in seconds, the text of the present time, random digits, the outcome
  of the writes of the sweep and of the call, and whether the call has been cancelled when it looks.
\<close>

record call_env =
  ce_regex :: "string \<Rightarrow> string \<Rightarrow> bool option"
  ce_files :: file_access
  ce_now :: int
  ce_now_ms :: int
  ce_iso :: string
  ce_hex :: string
  ce_sweep :: write_env
  ce_writes :: write_env
  ce_cancelled :: bool

definition write_to :: "call_env \<Rightarrow> nat \<Rightarrow> (store_io \<Rightarrow> int \<Rightarrow> 'a) \<Rightarrow> 'a" where
  "write_to env i f = (case ce_writes env i of (io, now) \<Rightarrow> f io now)"

section \<open>Parameters\<close>

definition or_else :: "'a option \<Rightarrow> 'a option \<Rightarrow> 'a option" where
  "or_else x y = (case x of None \<Rightarrow> y | Some v \<Rightarrow> Some v)"

definition merge_extensions :: "json option \<Rightarrow> json option \<Rightarrow> json option mres" where
  "merge_extensions own incoming =
     (case incoming of
        None \<Rightarrow> Inr own
      | Some e \<Rightarrow>
          (case own of
             None \<Rightarrow> Inr (Some e)
           | Some (JObject m) \<Rightarrow> rmap (\<lambda>new. Some (JObject (foldl (\<lambda>acc (k, v).
               if amap_find k acc = None then amap_put k v acc else acc) m new))) (get_object e)
           | Some j \<Rightarrow> Inr (Some j)))"

text \<open>What the envelope of the request says fills the gaps of what the parameters say.\<close>

definition merge_meta :: "json \<Rightarrow> request_meta \<Rightarrow> request_meta \<Rightarrow> request_meta mres" where
  "merge_meta envelope own incoming =
     rmap (\<lambda>ext. \<lparr>rm_progress_token = or_else (rm_progress_token own) (rm_progress_token incoming),
        rm_protocol_version = (if json_find ''io.modelcontextprotocol/protocolVersion'' envelope \<noteq> None
          then rm_protocol_version incoming else rm_protocol_version own),
        rm_client_info = or_else (rm_client_info own) (rm_client_info incoming),
        rm_client_capabilities = or_else (rm_client_capabilities own) (rm_client_capabilities incoming),
        rm_log_level = or_else (rm_log_level own) (rm_log_level incoming),
        rm_extensions = ext,
        rm_traceparent = or_else (rm_traceparent own) (rm_traceparent incoming),
        rm_tracestate = or_else (rm_tracestate own) (rm_tracestate incoming),
        rm_baggage = or_else (rm_baggage own) (rm_baggage incoming)\<rparr>)
       (merge_extensions (rm_extensions own) (rm_extensions incoming))"

definition call_meta :: "rpc_request \<Rightarrow> request_meta option \<Rightarrow> request_meta option mres" where
  "call_meta r own =
     (case rq_meta r of
        None \<Rightarrow> Inr own
      | Some envelope \<Rightarrow> rbind (deserialize_request_meta envelope) (\<lambda>incoming.
          case own of None \<Rightarrow> Inr (Some incoming) | Some m \<Rightarrow> rmap Some (merge_meta envelope m incoming)))"

definition no_call_params :: call_params where
  "no_call_params = \<lparr>cp_name = [], cp_arguments = None, cp_meta = None, cp_input_responses = None,
     cp_request_state = None\<rparr>"

definition call_params_of :: "rpc_request \<Rightarrow> call_params mres" where
  "call_params_of r =
     rbind (read_params r no_call_params deserialize_call_tool_params) (\<lambda>params.
     rmap (\<lambda>meta. params\<lparr>cp_meta := meta\<rparr>) (call_meta r (cp_meta params)))"

section \<open>Results\<close>

definition empty_tool_result :: call_tool_result where
  "empty_tool_result = \<lparr>ct_content = [], ct_structured = None, ct_is_error = False, ct_input_required = None,
     ct_meta = None, ct_result_type = RtComplete\<rparr>"

definition make_tool_is_error_result :: "string \<Rightarrow> call_tool_result" where
  "make_tool_is_error_result message = empty_tool_result\<lparr>ct_is_error := True,
     ct_content := [TextContent \<lparr>tc_type = ''text'', tc_text = message, tc_mime_type = None,
       tc_annotations = None, tc_meta = None\<rparr>]\<rparr>"

definition elicitation_result :: "input_requests \<Rightarrow> call_tool_result" where
  "elicitation_result requests =
     empty_tool_result\<lparr>ct_input_required := Some \<lparr>iq_requests = requests, iq_request_state = None\<rparr>\<rparr>"

definition tool_execution_failure_message :: "string \<Rightarrow> string" where
  "tool_execution_failure_message name = ''Error executing tool '' @ name"

definition validate_tool_call_arguments ::
  "(string \<Rightarrow> string \<Rightarrow> bool option) \<Rightarrow> tool \<Rightarrow> json option \<Rightarrow> check" where
  "validate_tool_call_arguments rx t args =
     validate_json_schema rx (case args of Some a \<Rightarrow> a | None \<Rightarrow> empty_object) (tl_input_schema t)"

definition tool_input_element_count :: "json option \<Rightarrow> nat" where
  "tool_input_element_count args =
     (case args of
        None \<Rightarrow> 0 | Some (JObject m) \<Rightarrow> length m | Some (JArray xs) \<Rightarrow> length xs | Some j \<Rightarrow> 1)"

definition requires_sampling_input :: "call_tool_result \<Rightarrow> bool" where
  "requires_sampling_input res =
     (case ct_input_required res of
        None \<Rightarrow> False
      | Some ir \<Rightarrow> list_ex (\<lambda>(k, q). ir_method q = ''sampling/createMessage'') (iq_requests ir))"

definition sampling_declared :: "client_capabilities option \<Rightarrow> client_capabilities option \<Rightarrow> bool" where
  "sampling_declared stored per_request \<longleftrightarrow>
     (case stored of Some c \<Rightarrow> cc_sampling c \<noteq> None | None \<Rightarrow> False) \<or>
     (case per_request of Some c \<Rightarrow> cc_sampling c \<noteq> None | None \<Rightarrow> False)"

definition missing_sampling_capability_error :: mcp_error where
  "missing_sampling_capability_error =
     McpError MissingRequiredClientCapability ''Missing required client capability: sampling''
       (Some (build_object [put ''requiredCapabilities'' (build_object [put ''sampling'' empty_object])]))"

definition minted_result :: "server_options \<Rightarrow> int \<Rightarrow> call_tool_result \<Rightarrow> call_tool_result" where
  "minted_result o' now res = res\<lparr>ct_input_required := map_option (mint_state o' now) (ct_input_required res)\<rparr>"

section \<open>A call that is answered directly\<close>

text \<open>Outside its \<open>try\<close> block the thread loses what it throws, and its promise is abandoned.\<close>

definition answer_or_abandon :: "json mres \<Rightarrow> handled" where
  "answer_or_abandon m = (case m of Inr v \<Rightarrow> answer v | Inl e \<Rightarrow> Settled FutureFailed)"

definition answer_or_fail :: "json mres \<Rightarrow> handled" where
  "answer_or_fail m = (case m of Inr v \<Rightarrow> answer v | Inl e \<Rightarrow> Settled (FutureError e))"

definition check_output :: "(string \<Rightarrow> string \<Rightarrow> bool option) \<Rightarrow> tool \<Rightarrow> call_tool_result \<Rightarrow> check" where
  "check_output rx t res =
     (case (tl_output_schema t, ct_structured res) of
        (Some schema, Some structured) \<Rightarrow> validate_json_schema rx structured schema
      | _ \<Rightarrow> pass)"

definition finish_call :: "call_env \<Rightarrow> server_options \<Rightarrow> tool \<Rightarrow> call_tool_result \<Rightarrow> handled" where
  "finish_call env o' t res =
     (if ct_input_required res \<noteq> None then
        answer_or_fail (serialize_call_tool_result (minted_result o' (ce_now env) res))
      else case check_output (ce_regex env) t res of
             Inl e \<Rightarrow> Settled (FutureError e)
           | Inr (Some problem) \<Rightarrow>
               Settled (FutureError (McpError InvalidParams (''tool output does not match outputSchema: '' @ problem) None))
           | Inr None \<Rightarrow> answer_or_fail (serialize_call_tool_result res))"

definition direct_call ::
  "call_env \<Rightarrow> server_options \<Rightarrow> bool \<Rightarrow> bool \<Rightarrow> server_tool \<Rightarrow> rpc_request \<Rightarrow> call_params \<Rightarrow> handled" where
  "direct_call env o' modern sampling t r params =
     (case validate_tool_call_arguments (ce_regex env) (st_tool t) (cp_arguments params) of
        Inl e \<Rightarrow> Settled FutureFailed
      | Inr (Some message) \<Rightarrow> answer_or_abandon (serialize_call_tool_result
          (make_tool_is_error_result (''invalid arguments: '' @ message)))
      | Inr None \<Rightarrow>
          (let finish = (\<lambda>res. if modern \<and> requires_sampling_input res \<and> \<not> sampling
                 then Settled (FutureError missing_sampling_capability_error)
                 else finish_call env o' (st_tool t) res);
               fail = (\<lambda>message. answer_or_abandon (serialize_call_tool_result (make_tool_is_error_result message)))
           in case st_invoke t r params of
                Returns res \<Rightarrow> finish res
              | ThrowsElicitation requests \<Rightarrow> finish (elicitation_result requests)
              | ThrowsMcp e \<Rightarrow> fail (err_message e)
              | _ \<Rightarrow> fail (tool_execution_failure_message (tl_name (st_tool t)))))"

section \<open>Tasks\<close>

definition default_task_ttl :: i64 where "default_task_ttl = 300000"

text \<open>The answer that announces a task.\<close>

definition created_answer :: "call_env \<Rightarrow> string \<Rightarrow> task_status \<Rightarrow> bool \<Rightarrow> json" where
  "created_answer env task_id status modern =
     (let wire = serialize_create_task_result \<lparr>ck_meta = None, ck_result_type = RtTask, ck_task_id = task_id,
            ck_status = task_status_to_wire status, ck_created_at = ce_iso env, ck_status_message = None,
            ck_last_updated_at = Some (ce_iso env), ck_ttl_ms = Some default_task_ttl, ck_poll_interval_ms = None,
            ck_input_requests = None\<rparr>
      in if modern then (case wire of JObject m \<Rightarrow> JObject (amap_erase ''task'' m) | j \<Rightarrow> j) else wire)"

definition retire_task :: "string \<Rightarrow> server \<Rightarrow> server" where
  "retire_task task_id sv = sv\<lparr>sv_running_flags := amap_erase task_id (sv_running_flags sv)\<rparr>"

definition add_running_flag :: "string \<Rightarrow> bool \<Rightarrow> server \<Rightarrow> server" where
  "add_running_flag task_id flag sv = sv\<lparr>sv_running_flags := amap_put task_id flag (sv_running_flags sv)\<rparr>"

definition request_cancelled :: "server \<Rightarrow> rpc_request \<Rightarrow> bool" where
  "request_cancelled sv r =
     (case get_incoming_cancellation_flag (sv_handler sv) (rq_id r) (rq_session r) of Some b \<Rightarrow> b | None \<Rightarrow> False)"

text \<open>A sequence of writes to the store, up to the first that throws.\<close>

fun run_writes :: "(file_task_store \<Rightarrow> file_task_store \<times> unit mres) list \<Rightarrow> file_task_store \<Rightarrow> file_task_store \<times> unit mres" where
  "run_writes [] st = (st, Inr ())"
| "run_writes (w # ws) st = (case w st of (st', Inl e) \<Rightarrow> (st', Inl e) | (st', Inr ok) \<Rightarrow> run_writes ws st')"

definition plain_write :: "file_task_store \<times> 'a mres \<Rightarrow> file_task_store \<times> unit mres" where
  "plain_write out = (case out of (st, r) \<Rightarrow> (st, rmap (\<lambda>_. ()) r))"

definition create_write :: "call_env \<Rightarrow> string \<Rightarrow> string \<Rightarrow> file_task_store \<Rightarrow> file_task_store \<times> unit mres" where
  "create_write env task_id owner st =
     plain_write (write_to env 0 (\<lambda>io now. create_task io now task_id owner (Some default_task_ttl) st))"

definition bind_write :: "call_env \<Rightarrow> string \<Rightarrow> string \<Rightarrow> json option \<Rightarrow> file_task_store \<Rightarrow> file_task_store \<times> unit mres" where
  "bind_write env task_id name args st = plain_write (bind_task_tool (fst (ce_writes env 1)) task_id name args st)"

definition status_write :: "call_env \<Rightarrow> nat \<Rightarrow> string \<Rightarrow> task_status \<Rightarrow> file_task_store \<Rightarrow> file_task_store \<times> unit mres" where
  "status_write env i task_id status st = plain_write (write_to env i (\<lambda>io now. set_task_status io now task_id status st))"

subsection \<open>A tool that requires a task\<close>

text \<open>The tool has run: its result, or the error it failed with.\<close>

definition first_outcome :: "server_tool \<Rightarrow> call_tool_result outcome \<Rightarrow> json + call_tool_result" where
  "first_outcome t out =
     (case out of
        Returns res \<Rightarrow> Inr res
      | ThrowsElicitation requests \<Rightarrow> Inr (elicitation_result requests)
      | ThrowsMcp e \<Rightarrow> Inl (error_payload (err_code e) (err_message e) (err_data e))
      | _ \<Rightarrow> Inl (error_payload InternalError (tool_execution_failure_message (tl_name (st_tool t))) None))"

definition final_writes ::
  "call_env \<Rightarrow> string \<Rightarrow> json + call_tool_result \<Rightarrow> file_task_store \<Rightarrow> file_task_store \<times> unit mres" where
  "final_writes env task_id first st =
     (if ce_cancelled env then status_write env 2 task_id TaskCancelled st
      else case first of
             Inl payload \<Rightarrow> plain_write (write_to env 2 (\<lambda>io now. fail_task io now task_id payload st))
           | Inr res \<Rightarrow>
               (case serialize_call_tool_result res of
                  Inl e \<Rightarrow> (st, Inl e)
                | Inr wire \<Rightarrow> run_writes
                    [\<lambda>s. plain_write (write_to env 2 (\<lambda>io now. update_task io now task_id (Some wire) s)),
                     status_write env 3 task_id TaskCompleted] st))"

definition final_status :: "call_env \<Rightarrow> json + call_tool_result \<Rightarrow> task_status" where
  "final_status env first =
     (if ce_cancelled env then TaskCancelled else case first of Inl payload \<Rightarrow> TaskFailed | Inr res \<Rightarrow> TaskCompleted)"

definition store_first_result ::
  "call_env \<Rightarrow> file_task_store \<Rightarrow> server \<Rightarrow> server_tool \<Rightarrow> call_params \<Rightarrow> string \<Rightarrow> json + call_tool_result \<Rightarrow> step" where
  "store_first_result env st sv t params owner first =
     (let task_id = make_task_id owner (ce_hex env);
          swept = sweep_expired_tasks (ce_sweep env) (ce_now_ms env) st
      in case run_writes [create_write env task_id owner,
             bind_write env task_id (tl_name (st_tool t)) (cp_arguments params), final_writes env task_id first] swept of
           (st', Inl e) \<Rightarrow> unchanged (set_store st' (retire_task task_id sv)) (Thrown e)
         | (st', Inr ok) \<Rightarrow> unchanged (set_store st' (retire_task task_id sv))
             (answer (created_answer env task_id (final_status env first) True)))"

definition required_task_call ::
  "call_env \<Rightarrow> file_task_store \<Rightarrow> bool \<Rightarrow> server \<Rightarrow> server_tool \<Rightarrow> rpc_request \<Rightarrow> call_params \<Rightarrow> step" where
  "required_task_call env st sampling sv t r params =
     (let finish = (\<lambda>first. case first of
            Inr res \<Rightarrow>
              if ct_input_required res \<noteq> None then
                (if requires_sampling_input res \<and> \<not> sampling
                 then unchanged sv (Settled (FutureError missing_sampling_capability_error))
                 else unchanged sv (thrown_or (serialize_call_tool_result (minted_result (sv_options sv) (ce_now env) res)) answer))
              else store_first_result env st sv t params (task_owner_for sv r) first
          | Inl payload \<Rightarrow> store_first_result env st sv t params (task_owner_for sv r) first)
      in case validate_tool_call_arguments (ce_regex env) (st_tool t) (cp_arguments params) of
           Inl e \<Rightarrow> unchanged sv (Thrown e)
         | Inr (Some message) \<Rightarrow> finish (Inr (make_tool_is_error_result (''invalid arguments: '' @ message)))
         | Inr None \<Rightarrow> finish (first_outcome t (st_invoke t r params)))"

subsection \<open>A task in the background\<close>

record background_job =
  bj_task :: string
  bj_owner :: string
  bj_modern :: bool
  bj_tool :: server_tool
  bj_request :: rpc_request
  bj_params :: call_params

definition start_background ::
  "call_env \<Rightarrow> file_task_store \<Rightarrow> bool \<Rightarrow> server \<Rightarrow> server_tool \<Rightarrow> rpc_request \<Rightarrow> call_params \<Rightarrow> step \<times> background_job option" where
  "start_background env st modern sv t r params =
     (let owner = task_owner_for sv r;
          task_id = make_task_id owner (ce_hex env);
          swept = sweep_expired_tasks (ce_sweep env) (ce_now_ms env) st;
          sv1 = add_running_flag task_id (request_cancelled sv r) sv
      in case run_writes [create_write env task_id owner,
             bind_write env task_id (tl_name (st_tool t)) (cp_arguments params),
             status_write env 2 task_id TaskWorking] swept of
           (st', Inl e) \<Rightarrow> (unchanged (set_store st' sv1) (Thrown e), None)
         | (st', Inr ok) \<Rightarrow>
             (let sv2 = set_store st' sv1 in
              case send_task_notification (sv_handler sv2) ''notifications/tasks/status'' task_id TaskWorking modern owner of
                Inl e \<Rightarrow> (unchanged sv2 (Thrown e), None)
              | Inr events \<Rightarrow> ((sv2, events, answer (created_answer env task_id TaskWorking modern)),
                  Some \<lparr>bj_task = task_id, bj_owner = owner, bj_modern = modern, bj_tool = t, bj_request = r,
                    bj_params = params\<rparr>)))"

text \<open>What the job does to the server, the messages it sends, and the exception that ended it, if one did.\<close>

type_synonym job_step = "server \<times> session_event list \<times> mcp_error option"

definition job_notice :: "background_job \<Rightarrow> server \<Rightarrow> task_status \<Rightarrow> session_event list mres" where
  "job_notice job sv status =
     send_task_notification (sv_handler sv) ''notifications/tasks/status'' (bj_task job) status (bj_modern job) (bj_owner job)"

text \<open>The end of a job: the status is written, and announced, or the one announced that the store has instead.\<close>

definition end_job :: "background_job \<Rightarrow> task_status \<Rightarrow> bool \<Rightarrow> file_task_store \<times> bool mres \<Rightarrow> server \<Rightarrow> job_step" where
  "end_job job status notify written sv =
     (case written of
        (st', Inl e) \<Rightarrow> (set_store st' sv, [], Some e)
      | (st', Inr applied) \<Rightarrow>
          (let sv1 = set_store st' sv;
               notice = (if \<not> notify then Inr []
                 else if applied then job_notice job sv1 status
                 else case get_task (bj_task job) st' of
                        None \<Rightarrow> Inr [] | Some t \<Rightarrow> job_notice job sv1 (ts_status t))
           in case notice of
                Inl e \<Rightarrow> (sv1, [], Some e)
              | Inr events \<Rightarrow> (retire_task (bj_task job) sv1, events, None)))"

definition finish_job :: "call_env \<Rightarrow> nat \<Rightarrow> background_job \<Rightarrow> task_status \<Rightarrow> bool \<Rightarrow> file_task_store \<Rightarrow> server \<Rightarrow> job_step" where
  "finish_job env i job status notify st sv =
     end_job job status notify (write_to env i (\<lambda>io now. set_task_status io now (bj_task job) status st)) sv"

definition fail_job :: "call_env \<Rightarrow> background_job \<Rightarrow> json \<Rightarrow> file_task_store \<Rightarrow> server \<Rightarrow> job_step" where
  "fail_job env job payload st sv =
     end_job job TaskFailed True (write_to env 2 (\<lambda>io now. fail_task io now (bj_task job) payload st)) sv"

text \<open>The handlers of exceptions; a job that was cancelled says so instead.\<close>

definition job_failed :: "call_env \<Rightarrow> background_job \<Rightarrow> json \<Rightarrow> file_task_store \<Rightarrow> server \<Rightarrow> job_step" where
  "job_failed env job payload st sv =
     (if ce_cancelled env then finish_job env 2 job TaskCancelled False st sv else fail_job env job payload st sv)"

definition failure_of :: "mcp_error \<Rightarrow> json" where
  "failure_of e = error_payload (err_code e) (err_message e) (err_data e)"

definition caught :: "call_env \<Rightarrow> background_job \<Rightarrow> job_step \<Rightarrow> job_step" where
  "caught env job out =
     (case out of
        (sv, events, None) \<Rightarrow> out
      | (sv, events, Some e) \<Rightarrow>
          (case sv_store sv of
             None \<Rightarrow> out
           | Some st \<Rightarrow> (case job_failed env job (failure_of e) st sv of (sv', later, x) \<Rightarrow> (sv', events @ later, x))))"

text \<open>The result is stored, then the task is completed.\<close>

definition complete_job :: "call_env \<Rightarrow> background_job \<Rightarrow> json \<Rightarrow> file_task_store \<Rightarrow> server \<Rightarrow> job_step" where
  "complete_job env job wire st sv =
     (case write_to env 0 (\<lambda>io now. update_task io now (bj_task job) (Some wire) st) of
        (st', Inl e) \<Rightarrow> (set_store st' sv, [], Some e)
      | (st', Inr updated) \<Rightarrow> finish_job env 1 job TaskCompleted True st' (set_store st' sv))"

definition job_returned :: "call_env \<Rightarrow> background_job \<Rightarrow> call_tool_result \<Rightarrow> file_task_store \<Rightarrow> server \<Rightarrow> job_step" where
  "job_returned env job res st sv =
     (if ce_cancelled env then finish_job env 0 job TaskCancelled False st sv
      else case (bj_modern job, ct_input_required res) of
             (True, Some ir) \<Rightarrow>
               (case write_to env 0 (\<lambda>io now. park_task_for_input io now (bj_task job) (iq_requests ir) st) of
                  (st', Inl e) \<Rightarrow> (set_store st' sv, [], Some e)
                | (st', Inr parked) \<Rightarrow> (let sv1 = set_store st' sv in (if parked then sv1 else retire_task (bj_task job) sv1, [], None)))
           | _ \<Rightarrow>
               (case serialize_call_tool_result res of
                  Inl e \<Rightarrow> (sv, [], Some e)
                | Inr wire \<Rightarrow> complete_job env job wire st sv))"

definition job_invalid :: "call_env \<Rightarrow> background_job \<Rightarrow> string \<Rightarrow> file_task_store \<Rightarrow> server \<Rightarrow> job_step" where
  "job_invalid env job message st sv =
     (case serialize_call_tool_result (make_tool_is_error_result (''invalid arguments: '' @ message)) of
        Inl e \<Rightarrow> (sv, [], Some e)
      | Inr wire \<Rightarrow> complete_job env job wire st sv)"

definition run_background :: "call_env \<Rightarrow> background_job \<Rightarrow> file_task_store \<Rightarrow> server \<Rightarrow> job_step" where
  "run_background env job st sv =
     (let t = bj_tool job;
          broken = error_payload InternalError (tool_execution_failure_message (tl_name (st_tool t))) None
      in case validate_tool_call_arguments (ce_regex env) (st_tool t) (cp_arguments (bj_params job)) of
           Inl e \<Rightarrow> (sv, [], Some e)
         | Inr (Some message) \<Rightarrow> job_invalid env job message st sv
         | Inr None \<Rightarrow>
             (case st_invoke t (bj_request job) (bj_params job) of
                Returns res \<Rightarrow> caught env job (job_returned env job res st sv)
              | ThrowsElicitation requests \<Rightarrow> caught env job (job_returned env job (elicitation_result requests) st sv)
              | ThrowsMcp e \<Rightarrow> job_failed env job (failure_of e) st sv
              | _ \<Rightarrow> job_failed env job broken st sv))"

section \<open>The handler\<close>

definition task_declared :: "tool \<Rightarrow> bool" where
  "task_declared t = (case tl_execution t of Some x \<Rightarrow> te_mode x = ModeTask | None \<Rightarrow> False)"

definition task_required :: "tool \<Rightarrow> bool" where
  "task_required t = (case tl_execution t of Some x \<Rightarrow> te_task_support x = Some SupportRequired | None \<Rightarrow> False)"

definition call_arguments :: "call_env \<Rightarrow> server \<Rightarrow> call_params \<Rightarrow> input_stop + json option" where
  "call_arguments env sv params =
     (case cp_arguments params of
        Some args \<Rightarrow>
          if so_file_input (sv_options sv) then rmap Some (resolve_file_input (inline_reference (ce_files env) sv) args)
          else Inr (Some args)
      | None \<Rightarrow> Inr None)"

definition plain_step :: "server \<Rightarrow> handled \<Rightarrow> step \<times> background_job option" where
  "plain_step sv out = (unchanged sv out, None)"

definition call_tool ::
  "call_env \<Rightarrow> server \<Rightarrow> server_tool \<Rightarrow> rpc_request \<Rightarrow> call_params \<Rightarrow> step \<times> background_job option" where
  "call_tool env sv t r params =
     (let modern = is_modern_session sv (rq_session r);
          per_request = (case cp_meta params of Some m \<Rightarrow> rm_client_capabilities m | None \<Rightarrow> None);
          stored = client_capabilities_for sv (rq_session r);
          declared = (\<not> modern \<or> tasks_extension_declared stored per_request);
          sampling = sampling_declared stored per_request;
          direct = plain_step sv (direct_call env (sv_options sv) modern sampling t r params)
      in if (case so_max_tool_input_elements (sv_options sv) of
               Some limit \<Rightarrow> limit < tool_input_element_count (cp_arguments params) | None \<Rightarrow> False) then
           plain_step sv (thrown_or (serialize_call_tool_result
             (make_tool_is_error_result ''tool arguments exceed maximum input element count'')) answer)
         else case sv_store sv of
                None \<Rightarrow> direct
              | Some st \<Rightarrow>
                  if \<not> task_declared (st_tool t) then direct
                  else if \<not> declared \<and> task_required (st_tool t) then plain_step sv (Thrown missing_tasks_extension_error)
                  else if \<not> declared \<or> \<not> so_tasks_extension (sv_options sv) then direct
                  else if modern \<and> task_required (st_tool t) then
                    (required_task_call env st sampling sv t r params, None)
                  else start_background env st modern sv t r params)"

definition handle_call_tool :: "call_env \<Rightarrow> server \<Rightarrow> rpc_request \<Rightarrow> step \<times> background_job option" where
  "handle_call_tool env sv r =
     (if \<not> (is_modern_session sv (rq_session r) \<or> is_session_initialized sv (rq_session r)) then
        plain_step sv (failed InvalidRequest ''Server not initialized'')
      else case call_params_of r of
             Inl e \<Rightarrow> plain_step sv (Thrown e)
           | Inr params \<Rightarrow>
               (case amap_find (cp_name params) (sv_tools sv) of
                  None \<Rightarrow> plain_step sv (failed InvalidParams (''tool not found: '' @ cp_name params))
                | Some t \<Rightarrow>
                    (case call_arguments env sv params of
                       Inl (InputThrows e) \<Rightarrow> plain_step sv (Thrown e)
                     | Inl (InputError message) \<Rightarrow>
                         plain_step sv (thrown_or (serialize_call_tool_result (make_tool_is_error_result message)) answer)
                     | Inr args \<Rightarrow> call_tool env sv t r (params\<lparr>cp_arguments := args\<rparr>))))"

section \<open>Invalid arguments never reach a tool\<close>

lemma other_tool_simps: "bj_task (job\<lparr>bj_tool := t\<rparr>) = bj_task job" "bj_owner (job\<lparr>bj_tool := t\<rparr>) = bj_owner job"
  "bj_modern (job\<lparr>bj_tool := t\<rparr>) = bj_modern job"
  by simp_all

lemma job_invalid_tool: "job_invalid env (job\<lparr>bj_tool := t\<rparr>) message st sv = job_invalid env job message st sv"
proof -
  have "end_job (job\<lparr>bj_tool := t\<rparr>) = end_job job"
    by (intro ext) (simp only: end_job_def job_notice_def other_tool_simps)
  then have "finish_job env i (job\<lparr>bj_tool := t\<rparr>) = finish_job env i job" for i
    by (intro ext) (simp only: finish_job_def other_tool_simps)
  then show ?thesis by (simp only: job_invalid_def complete_job_def other_tool_simps)
qed

text \<open>C4: Arguments that do not fit the input schema never reach the tool: in each of the three ways a call can take,
  the outcome is the same for every tool with that schema, whatever it would do.\<close>

theorem invalid_arguments_refused:
  assumes "validate_tool_call_arguments (ce_regex env) (st_tool (bj_tool job)) (cp_arguments (bj_params job)) = flaw message"
  shows "direct_call env o' modern sampling ((bj_tool job)\<lparr>st_invoke := f\<rparr>) r (bj_params job) =
      direct_call env o' modern sampling (bj_tool job) r (bj_params job) \<and>
    required_task_call env st sampling sv ((bj_tool job)\<lparr>st_invoke := f\<rparr>) r (bj_params job) =
      required_task_call env st sampling sv (bj_tool job) r (bj_params job) \<and>
    run_background env (job\<lparr>bj_tool := (bj_tool job)\<lparr>st_invoke := f\<rparr>\<rparr>) st sv = run_background env job st sv"
proof -
  have "direct_call env o' modern sampling ((bj_tool job)\<lparr>st_invoke := f\<rparr>) r (bj_params job) =
      direct_call env o' modern sampling (bj_tool job) r (bj_params job)"
    using assms by (simp add: direct_call_def flaw_def)
  moreover have "required_task_call env st sampling sv ((bj_tool job)\<lparr>st_invoke := f\<rparr>) r (bj_params job) =
      required_task_call env st sampling sv (bj_tool job) r (bj_params job)"
    using assms by (simp add: required_task_call_def store_first_result_def flaw_def)
  moreover have "run_background env (job\<lparr>bj_tool := (bj_tool job)\<lparr>st_invoke := f\<rparr>\<rparr>) st sv = run_background env job st sv"
    using assms by (simp add: run_background_def flaw_def job_invalid_tool)
  ultimately show ?thesis by blast
qed

section \<open>A task in the background ends\<close>

lemma version_meta_serializes: "\<exists>j. serialize_request_meta (version_meta v) = Inr j"
  by (simp add: serialize_request_meta_def version_meta_def)

lemma task_notice_sent: "\<exists>events. send_task_notification h method i status modern session = Inr events"
  using version_meta_serializes [of "version_for h session"]
  by (auto simp: send_task_notification_def send_notification_def Let_def)

lemma append_record_written_ok: "snd (append_record (Written, True) i t st)"
  by (simp add: append_record_def append_text_def compact_locked_def)

lemma modify_written:
  assumes "amap_find i (fts_tasks st) = Some t" "f t = Some t'"
  shows "\<exists>st'. modify_task (Written, True) i f st = (st', Inr True) \<and> fts_tasks st' = amap_put i t' (fts_tasks st)"
proof -
  obtain st' ok where app: "append_record (Written, True) i t' (put_task i t' st) = (st', ok)" by fastforce
  then have "ok" using append_record_written_ok [of i t' "put_task i t' st"] by simp
  moreover have "fts_tasks st' = fts_tasks (put_task i t' st)"
    using append_record_tasks [of "(Written, True)" i t' "put_task i t' st"] app by simp
  ultimately show ?thesis using assms app by (simp add: modify_task_def put_task_def)
qed

definition writes_succeed :: "call_env \<Rightarrow> bool" where
  "writes_succeed env \<longleftrightarrow> (\<forall>i. fst (ce_writes env i) = (Written, True))"

text \<open>What a job leaves: its task is over and it has given back its flag, or the task waits for input.\<close>

definition job_over :: "string \<Rightarrow> job_step \<Rightarrow> bool" where
  "job_over i out =
     (case out of (sv, events, e) \<Rightarrow> e = None \<and>
        (\<exists>st t. sv_store sv = Some st \<and> amap_find i (fts_tasks st) = Some t \<and>
           (is_terminal_status (ts_status t) \<and> amap_find i (sv_running_flags sv) = None \<or> ts_status t = TaskInputRequired)))"

lemma end_job_over:
  assumes "written = (st', Inr True)" "amap_find (bj_task job) (fts_tasks st') = Some t" "is_terminal_status (ts_status t)"
    "amap_ok (sv_running_flags sv)"
  shows "job_over (bj_task job) (end_job job status notify written sv)"
proof -
  obtain events where "job_notice job (set_store st' sv) status = Inr events"
    using task_notice_sent unfolding job_notice_def by blast
  with assms show ?thesis
    by (auto simp: end_job_def job_over_def Let_def retire_task_def set_store_def amap_simps)
qed

lemma finish_job_over:
  assumes "writes_succeed env" "amap_find (bj_task job) (fts_tasks st) = Some t"
    "is_terminal_status (ts_status t) \<longrightarrow> ts_status t = status" "is_terminal_status status" "amap_ok (sv_running_flags sv)"
  shows "job_over (bj_task job) (finish_job env i job status notify st sv)"
proof -
  obtain now where w: "ce_writes env i = ((Written, True), now)"
    using assms(1) unfolding writes_succeed_def by (metis prod.collapse)
  have "task_with_status now status t = Some (stamped now (t\<lparr>ts_status := status\<rparr>))"
    using assms(3) by (simp add: task_with_status_def)
  from modify_written [where f = "task_with_status now status", OF assms(2) this] obtain st' where
    "set_task_status (Written, True) now (bj_task job) status st = (st', Inr True)"
    "fts_tasks st' = amap_put (bj_task job) (stamped now (t\<lparr>ts_status := status\<rparr>)) (fts_tasks st)"
    unfolding set_task_status_def by blast
  then show ?thesis
    unfolding finish_job_def write_to_def w prod.case using assms(4,5)
    by (intro end_job_over [where st' = st' and t = "stamped now (t\<lparr>ts_status := status\<rparr>)"])
      (simp_all add: stamped_def)
qed

lemma fail_job_over:
  assumes "writes_succeed env" "amap_find (bj_task job) (fts_tasks st) = Some t"
    "\<not> is_terminal_status (ts_status t)" "amap_ok (sv_running_flags sv)"
  shows "job_over (bj_task job) (fail_job env job payload st sv)"
proof -
  obtain now where w: "ce_writes env 2 = ((Written, True), now)"
    using assms(1) unfolding writes_succeed_def by (metis prod.collapse)
  obtain t' where t': "failed_task now payload t = Some t'" "ts_status t' = TaskFailed"
    using assms(3) by (auto simp: failed_task_def stamped_def)
  from modify_written [where f = "failed_task now payload", OF assms(2) this(1)] obtain st' where
    "fail_task (Written, True) now (bj_task job) payload st = (st', Inr True)"
    "fts_tasks st' = amap_put (bj_task job) t' (fts_tasks st)"
    unfolding fail_task_def by blast
  then show ?thesis
    unfolding fail_job_def write_to_def w prod.case using assms(4) t'(2)
    by (intro end_job_over [where st' = st' and t = t']) (simp_all add: is_terminal_status_def)
qed

lemma terminal_statuses [simp]: "is_terminal_status TaskCancelled" "is_terminal_status TaskCompleted"
    "is_terminal_status TaskFailed" "\<not> is_terminal_status TaskWorking"
  by (simp_all add: is_terminal_status_def task_status_defs)

lemma job_failed_over:
  assumes "writes_succeed env" "amap_find (bj_task job) (fts_tasks st) = Some t"
    "\<not> is_terminal_status (ts_status t)" "amap_ok (sv_running_flags sv)"
  shows "job_over (bj_task job) (job_failed env job payload st sv)"
  using finish_job_over [OF assms(1,2) _ _ assms(4)] fail_job_over [OF assms] assms(3) by (simp add: job_failed_def)

text \<open>A working task takes its result, and is completed then.\<close>

lemma complete_job_over:
  assumes "writes_succeed env" "amap_find (bj_task job) (fts_tasks st) = Some t" "ts_status t = TaskWorking"
    "amap_ok (sv_running_flags sv)"
  shows "job_over (bj_task job) (complete_job env job wire st sv)"
proof -
  obtain now where w: "ce_writes env 0 = ((Written, True), now)"
    using assms(1) unfolding writes_succeed_def by (metis prod.collapse)
  let ?t = "stamped now (t\<lparr>ts_result := Some wire, ts_status := TaskCompleted\<rparr>)"
  have upd: "updated_task now (Some wire) t = Some ?t"
    using assms(3) by (simp add: updated_task_def task_status_defs is_terminal_status_def)
  from modify_written [where f = "updated_task now (Some wire)", OF assms(2) upd] obtain st' where
    st': "update_task (Written, True) now (bj_task job) (Some wire) st = (st', Inr True)"
    "fts_tasks st' = amap_put (bj_task job) ?t (fts_tasks st)"
    unfolding update_task_def by blast
  have "job_over (bj_task job) (finish_job env 1 job TaskCompleted True st' (set_store st' sv))"
    using assms(1,4) st'(2) by (intro finish_job_over [where t = ?t]) (simp_all add: stamped_def set_store_def)
  then show ?thesis by (simp add: complete_job_def write_to_def w st'(1))
qed

lemma job_returned_over:
  assumes "writes_succeed env" "amap_find (bj_task job) (fts_tasks st) = Some t" "ts_status t = TaskWorking"
    "amap_ok (sv_running_flags sv)" "sv_store sv = Some st"
  shows "job_over (bj_task job) (caught env job (job_returned env job res st sv))"
proof -
  have direct: "job_over (bj_task job) out \<Longrightarrow> job_over (bj_task job) (caught env job out)" for out
    by (auto simp: caught_def job_over_def split: prod.split option.split)
  have open': "\<not> is_terminal_status (ts_status t)" using assms(3) by simp
  have serialized: "job_over (bj_task job) (caught env job (case serialize_call_tool_result res of
      Inl e \<Rightarrow> (sv, [], Some e) | Inr wire \<Rightarrow> complete_job env job wire st sv))"
  proof (cases "serialize_call_tool_result res")
    case (Inl e)
    obtain sv' events x where f: "job_failed env job (failure_of e) st sv = (sv', events, x)" by (metis prod_cases3)
    with job_failed_over [OF assms(1,2) open' assms(4)] have "job_over (bj_task job) (sv', events, x)" by metis
    then show ?thesis by (simp add: Inl caught_def assms(5) f)
  next
    case (Inr wire)
    then show ?thesis using complete_job_over [OF assms(1-4)] by (simp add: direct)
  qed
  show ?thesis
  proof (cases "ce_cancelled env")
    case True
    with finish_job_over [OF assms(1,2) _ _ assms(4), of TaskCancelled 0] open' show ?thesis
      by (simp add: job_returned_def direct)
  next
    case False
    show ?thesis
    proof (cases "bj_modern job \<and> ct_input_required res \<noteq> None")
      case True
      then obtain ir where ir: "ct_input_required res = Some ir" by blast
      obtain now where w: "ce_writes env 0 = ((Written, True), now)"
        using assms(1) unfolding writes_succeed_def by (metis prod.collapse)
      let ?t = "stamped now (t\<lparr>ts_input_requests := Some (iq_requests ir), ts_status := TaskInputRequired\<rparr>)"
      have "parked_task now (iq_requests ir) t = Some ?t" using open' by (simp add: parked_task_def)
      from modify_written [where f = "parked_task now (iq_requests ir)", OF assms(2) this] obtain st' where
        "park_task_for_input (Written, True) now (bj_task job) (iq_requests ir) st = (st', Inr True)"
        "fts_tasks st' = amap_put (bj_task job) ?t (fts_tasks st)"
        unfolding park_task_for_input_def by blast
      then have "job_over (bj_task job) (job_returned env job res st sv)"
        using True False ir by (simp add: job_returned_def write_to_def w job_over_def set_store_def stamped_def)
      then show ?thesis by (rule direct)
    next
      case False': False
      then have "job_returned env job res st sv = (case serialize_call_tool_result res of
          Inl e \<Rightarrow> (sv, [], Some e) | Inr wire \<Rightarrow> complete_job env job wire st sv)"
        using False by (auto simp: job_returned_def split: option.split bool.split sum.split)
      with serialized show ?thesis by simp
    qed
  qed
qed

lemma checked_task_over:
  assumes "writes_succeed env" "sv_store sv = Some st" "amap_ok (sv_running_flags sv)"
    and "amap_find (bj_task job) (fts_tasks st) = Some t" "ts_status t = TaskWorking"
    and "validate_tool_call_arguments (ce_regex env) (st_tool (bj_tool job)) (cp_arguments (bj_params job)) = Inr verdict"
  shows "job_over (bj_task job) (run_background env job st sv)"
proof (cases verdict)
  case None
  have "\<not> is_terminal_status (ts_status t)" using assms(5) by simp
  with None assms job_returned_over [OF assms(1,4,5,3,2)] job_failed_over [OF assms(1,4) _ assms(3)] show ?thesis
    by (simp add: run_background_def Let_def split: outcome.split)
next
  case (Some message)
  have "serialize_call_tool_result (make_tool_is_error_result m) =
      Inr (projr (serialize_call_tool_result (make_tool_is_error_result m)))" for m
    by (simp add: serialize_call_tool_result_def make_tool_is_error_result_def empty_tool_result_def)
  then obtain wire where "serialize_call_tool_result (make_tool_is_error_result (''invalid arguments: '' @ message)) = Inr wire"
    by blast
  then show ?thesis
    using Some assms complete_job_over [OF assms(1,4,5,3)]
    by (simp add: run_background_def job_invalid_def)
qed

text \<open>A schema whose check throws leaves the task working for good, for the exception escapes the thread.\<close>

lemma unchecked_task_hangs:
  assumes "validate_tool_call_arguments (ce_regex env) (st_tool (bj_tool job)) (cp_arguments (bj_params job)) = Inl e"
  shows "run_background env job st sv = (sv, [], Some e)"
  using assms by (simp add: run_background_def)

text \<open>C3: A working task in the background, whose writes to the store succeed, ends with its job: the job leaves the task
  completed, failed or cancelled and gives back its flag, whatever the tool does, or leaves it waiting for input.  The only
  exception is a schema of the tool whose check throws: then the exception escapes and the server stays as it is, so the task
  stays working.\<close>

theorem background_task_ends:
  assumes "writes_succeed env" "sv_store sv = Some st" "amap_ok (sv_running_flags sv)"
    and "amap_find (bj_task job) (fts_tasks st) = Some t" "ts_status t = TaskWorking"
  shows "case validate_tool_call_arguments (ce_regex env) (st_tool (bj_tool job)) (cp_arguments (bj_params job)) of
      Inl e \<Rightarrow> run_background env job st sv = (sv, [], Some e)
    | Inr verdict \<Rightarrow> job_over (bj_task job) (run_background env job st sv)"
  using unchecked_task_hangs checked_task_over [OF assms] by (auto split: sum.split)

section \<open>Samples\<close>

definition point_tool :: server_tool where
  "point_tool = \<lparr>st_tool = \<lparr>tl_name = ''point'', tl_title = None, tl_description = None,
     tl_input_schema = JObject point_schema, tl_output_schema = None, tl_annotations = None, tl_icons = [],
     tl_meta = None, tl_execution = None\<rparr>, st_invoke = (\<lambda>_ _. ThrowsUnknown)\<rparr>"

definition calm_env :: call_env where
  "calm_env = \<lparr>ce_regex = (\<lambda>_ _. None), ce_files = \<lparr>fa_allowed = (\<lambda>_. False), fa_bytes = (\<lambda>_. None)\<rparr>, ce_now = 0,
     ce_now_ms = 0, ce_iso = [], ce_hex = [], ce_sweep = (\<lambda>_. ((Written, True), 0)),
     ce_writes = (\<lambda>_. ((Written, True), 0)), ce_cancelled = False\<rparr>"

definition point_job :: "json option \<Rightarrow> background_job" where
  "point_job args = \<lparr>bj_task = ''t'', bj_owner = ''a'', bj_modern = True, bj_tool = point_tool,
     bj_request = sample_request, bj_params = no_call_params\<lparr>cp_name := ''point'', cp_arguments := args\<rparr>\<rparr>"

definition working_store :: file_task_store where
  "working_store = shared_store\<lparr>fts_tasks := [(''t'', shared_task\<lparr>ts_status := TaskWorking\<rparr>)]\<rparr>"

lemma point_missing: "validate_tool_call_arguments rx (st_tool point_tool) None =
    flaw (''missing required property '' @ quoted ''x'')"
proof -
  obtain n where depth: "max_json_schema_depth = Suc (Suc n)" by (rule depth_levels)
  show ?thesis
    by (simp add: validate_tool_call_arguments_def validate_json_schema_def depth schema_eval point_schema_def
        point_tool_def empty_object_def requires_names_def unless_def and_check_def flaw_def pass_def)
qed

lemma invalid_arguments_refused_witness:
  "validate_tool_call_arguments (ce_regex calm_env) (st_tool point_tool) None =
     flaw (''missing required property '' @ quoted ''x'') \<and>
   direct_call calm_env plain_options True True (point_tool\<lparr>st_invoke := \<lambda>_ _. Returns empty_tool_result\<rparr>) sample_request
     no_call_params = direct_call calm_env plain_options True True point_tool sample_request no_call_params"
proof -
  have bad: "validate_tool_call_arguments (ce_regex calm_env) (st_tool (bj_tool (point_job None)))
      (cp_arguments (bj_params (point_job None))) = flaw (''missing required property '' @ quoted ''x'')"
    by (simp add: point_job_def no_call_params_def point_missing)
  have "direct_call calm_env plain_options True True (point_tool\<lparr>st_invoke := \<lambda>_ _. Returns empty_tool_result\<rparr>) sample_request
      (bj_params (point_job None)) =
    direct_call calm_env plain_options True True point_tool sample_request (bj_params (point_job None))"
    using invalid_arguments_refused [OF bad] by (simp add: point_job_def)
  then show ?thesis
    by (simp add: point_missing direct_call_def flaw_def point_job_def no_call_params_def)
qed

lemma background_task_ends_witness:
  "job_over ''t'' (run_background calm_env (point_job (Some (JObject [(''x'', JInt 1)]))) working_store
     (shared_server\<lparr>sv_store := Some working_store\<rparr>))"
proof -
  let ?job = "point_job (Some (JObject [(''x'', JInt 1)]))"
  have valid: "validate_tool_call_arguments (ce_regex calm_env) (st_tool (bj_tool ?job)) (cp_arguments (bj_params ?job)) =
      Inr None"
    using point_accepted by (simp add: validate_tool_call_arguments_def point_job_def calm_env_def point_tool_def pass_def)
  have "sv_running_flags shared_server = []"
    by (simp add: shared_server_def new_server_def derive_capabilities_def wire_handlers_def Let_def)
  then have "job_over (bj_task ?job) (run_background calm_env ?job working_store (shared_server\<lparr>sv_store := Some working_store\<rparr>))"
    using background_task_ends [of calm_env "shared_server\<lparr>sv_store := Some working_store\<rparr>" working_store ?job
        "shared_task\<lparr>ts_status := TaskWorking\<rparr>"]
    unfolding valid
    by (simp add: writes_succeed_def calm_env_def working_store_def shared_store_def point_job_def)
  then show ?thesis by (simp add: point_job_def)
qed

end
