(* ===== verification/Server_Skills.thy ===== *)
theory Server_Skills
  imports Server_Sessions
begin

text \<open>
  Skills (\<open>src/server/McpServer.cpp\<close>): the directories that the manifests of the skills span, and the three requests
  about them.
\<close>

section \<open>Directories\<close>

definition skill_root_from_entry_uri :: "string \<Rightarrow> string" where
  "skill_root_from_entry_uri uri = take (length uri - length skill_file_suffix) uri"

text \<open>All slashes at the end go, but a single character stays; \<open>strip_slashes\<close> works from the end.\<close>

fun strip_slashes :: "string \<Rightarrow> string" where
  "strip_slashes (c # d # s) = (if c = CHR ''/'' then strip_slashes (d # s) else c # d # s)"
| "strip_slashes s = s"

definition normalize_directory_uri :: "string \<Rightarrow> string" where
  "normalize_directory_uri uri = rev (strip_slashes (rev uri))"

record directory_view =
  dv_is_directory :: bool
  dv_children :: "directory_child list"

definition directory_mime_type :: string where "directory_mime_type = ''inode/directory''"

definition below_directory :: "string \<Rightarrow> string \<Rightarrow> bool" where
  "below_directory dir uri \<longleftrightarrow> uri \<noteq> dir \<and> length dir + 1 < length uri \<and> take (length dir) uri = dir \<and>
     uri ! length dir = CHR ''/''"

text \<open>The child of \<open>dir\<close> on the way to a resource below it.\<close>

definition child_towards :: "string \<Rightarrow> string \<Rightarrow> directory_child option" where
  "child_towards dir uri =
     (let rest = drop (length dir + 1) uri in
      case find_sub ''/'' rest of
        None \<Rightarrow> if rest = [] then None
          else Some \<lparr>dc_uri = uri, dc_name = rest, dc_mime_type = None, dc_meta = None\<rparr>
      | Some slash \<Rightarrow>
          (let seg = take slash rest in
           if seg = [] then None
           else Some \<lparr>dc_uri = dir @ ''/'' @ seg, dc_name = seg, dc_mime_type = Some directory_mime_type,
             dc_meta = None\<rparr>))"

definition add_child :: "directory_child option \<Rightarrow> directory_view \<Rightarrow> directory_view" where
  "add_child child view =
     (case child of
        Some c \<Rightarrow> if dc_uri c \<in> set (map dc_uri (dv_children view)) then view
          else view\<lparr>dv_children := dv_children view @ [c]\<rparr>
      | None \<Rightarrow> view)"

definition visit_resource :: "string \<Rightarrow> skill_resource \<Rightarrow> directory_view \<Rightarrow> directory_view" where
  "visit_resource dir res view =
     (if below_directory dir (skr_uri res)
      then add_child (child_towards dir (skr_uri res)) (view\<lparr>dv_is_directory := True\<rparr>) else view)"

definition visit_skill :: "string \<Rightarrow> skill \<Rightarrow> directory_view \<Rightarrow> directory_view" where
  "visit_skill dir s view =
     (if \<not> is_skill_entry_uri (sk_uri s) then view
      else
        (let view1 = (if dir = skill_root_from_entry_uri (sk_uri s) then view\<lparr>dv_is_directory := True\<rparr> else view)
         in case sk_resources s of
              ResourceList rs \<Rightarrow> fold (visit_resource dir) rs view1
            | ResourceString text' \<Rightarrow> view1))"

definition collect_directory_children :: "skill list \<Rightarrow> string \<Rightarrow> directory_view" where
  "collect_directory_children skills dir =
     (let view = fold (visit_skill dir) skills \<lparr>dv_is_directory = False, dv_children = []\<rparr>
      in view\<lparr>dv_children := sort_key dc_uri (dv_children view)\<rparr>)"

section \<open>Requests\<close>

definition skills_guard :: "string \<Rightarrow> server \<Rightarrow> rpc_request \<Rightarrow> handled \<Rightarrow> handled" where
  "skills_guard method sv r k = require_initialized sv r (
     if \<not> so_skills_extension (sv_options sv) then failed MethodNotFound ''skills extension is disabled''
     else if \<not> is_modern_session sv (rq_session r) then
       failed MethodNotFound (method @ '' is only available in 2026 and later protocol versions'')
     else if sc_resources (sv_capabilities sv) = None then
       failed InvalidParams (method @ '' requires the resources capability'')
     else k)"

definition skills_result_of :: "'a \<Rightarrow> nat option \<Rightarrow> cache_hint \<Rightarrow> 'a skills_result" where
  "skills_result_of items next_index hint = \<lparr>sl_items = items, sl_next_cursor = map_option make_next_cursor next_index,
     sl_ttl_ms = ch_ttl_ms hint, sl_cache_scope = ch_cache_scope hint, sl_meta = None, sl_result_type = RtComplete\<rparr>"

definition handle_list_skills :: "server \<Rightarrow> rpc_request \<Rightarrow> handled" where
  "handle_list_skills sv r = skills_guard ''skills/list'' sv r (
     thrown_or (list_cursor r) (\<lambda>cursor.
       case paginate_entries (\<lambda>_. True) cursor default_page_size (sv_skills sv) of
         (ss, next_index) \<Rightarrow>
           thrown_or (resolve_cache_hint sv ''skills/list'' (rq_session r)) (\<lambda>hint.
             answer (serialize_skills_list_result (skills_result_of ss next_index hint)))))"

definition handle_get_skill :: "server \<Rightarrow> rpc_request \<Rightarrow> handled" where
  "handle_get_skill sv r = skills_guard ''skills/get'' sv r (
     thrown_or (read_params r \<lparr>sg_uri = [], sg_meta = None\<rparr> deserialize_skills_get_params) (\<lambda>params.
       case find (\<lambda>s. sk_uri s = sg_uri params) (sv_skills sv) of
         Some s \<Rightarrow> thrown_or (resolve_cache_hint sv ''skills/get'' (rq_session r)) (\<lambda>hint.
           answer (serialize_skills_get_result (skills_result_of s None hint)))
       | None \<Rightarrow> failed InvalidParams (''skill not found: '' @ sg_uri params)))"

definition handle_read_directory :: "server \<Rightarrow> rpc_request \<Rightarrow> handled" where
  "handle_read_directory sv r = skills_guard ''resources/directory/read'' sv r (
     if \<not> sv_directory_read sv then failed InvalidParams ''resources/directory/read requires directoryRead to be declared''
     else thrown_or (read_params r \<lparr>rd_uri = [], rd_cursor = None, rd_meta = None\<rparr> deserialize_read_directory_params) (\<lambda>params.
       let view = collect_directory_children (sv_skills sv) (normalize_directory_uri (rd_uri params)) in
       if \<not> dv_is_directory view then failed InvalidParams (''directory not found: '' @ rd_uri params)
       else thrown_or (parse_cursor (rd_cursor params)) (\<lambda>cursor.
         case paginate_entries (\<lambda>_. True) cursor default_page_size (dv_children view) of
           (cs, next_index) \<Rightarrow>
             thrown_or (resolve_cache_hint sv ''resources/directory/read'' (rq_session r)) (\<lambda>hint.
               answer (serialize_read_directory_result (skills_result_of cs next_index hint))))))"

section \<open>What a directory shows\<close>

text \<open>The resources that can be seen: those in the manifests of the skills with a proper entry.\<close>

definition skill_manifest :: "skill \<Rightarrow> string list" where
  "skill_manifest s =
     (case sk_resources s of ResourceList rs \<Rightarrow> if is_skill_entry_uri (sk_uri s) then map skr_uri rs else []
      | ResourceString text' \<Rightarrow> [])"

definition directory_resources :: "skill list \<Rightarrow> string list" where
  "directory_resources skills = concat (map skill_manifest skills)"

definition children_of :: "string \<Rightarrow> string list \<Rightarrow> directory_child set" where
  "children_of dir uris = {c. \<exists>u \<in> set uris. below_directory dir u \<and> child_towards dir u = Some c}"

definition visited :: "string \<Rightarrow> string list \<Rightarrow> directory_view \<Rightarrow> bool" where
  "visited dir uris view \<longleftrightarrow> distinct (map dc_uri (dv_children view)) \<and>
     set (dv_children view) \<subseteq> children_of dir uris \<and>
     dc_uri ` children_of dir uris \<subseteq> dc_uri ` set (dv_children view)"

lemma children_of_snoc: "children_of dir (us @ [u]) = children_of dir us \<union>
    (if below_directory dir u then set_option (child_towards dir u) else {})"
  by (auto simp: children_of_def)

lemma visit_resource_visited:
  "visited dir us view \<Longrightarrow> visited dir (us @ [skr_uri res]) (visit_resource dir res view)"
  unfolding visited_def children_of_snoc
  by (cases "child_towards dir (skr_uri res)") (auto simp: visit_resource_def add_child_def)

lemma visit_resources_visited:
  "visited dir us view \<Longrightarrow> visited dir (us @ map skr_uri rs) (fold (visit_resource dir) rs view)"
proof (induction rs arbitrary: us view)
  case (Cons res rs)
  from Cons.IH [OF visit_resource_visited [OF Cons.prems, of res]] show ?case by simp
qed simp

lemma visited_flag: "visited dir us (view\<lparr>dv_is_directory := b\<rparr>) = visited dir us view"
  by (simp add: visited_def)

lemma visit_skill_visited:
  "visited dir us view \<Longrightarrow> visited dir (us @ skill_manifest s) (visit_skill dir s view)"
proof -
  assume v: "visited dir us view"
  define view1 where
    "view1 = (if dir = skill_root_from_entry_uri (sk_uri s) then view\<lparr>dv_is_directory := True\<rparr> else view)"
  have v1: "visited dir us view1"
    unfolding view1_def using v by (cases "dir = skill_root_from_entry_uri (sk_uri s)") (simp_all add: visited_flag)
  show ?thesis
    using v v1 visit_resources_visited [OF v1]
    by (cases "sk_resources s") (simp_all add: visit_skill_def skill_manifest_def view1_def [symmetric])
qed

lemma visit_skills_visited:
  "visited dir us view \<Longrightarrow> visited dir (us @ directory_resources ss) (fold (visit_skill dir) ss view)"
proof (induction ss arbitrary: us view)
  case (Cons s ss)
  from Cons.IH [OF visit_skill_visited [OF Cons.prems, of s]] show ?case by (simp add: directory_resources_def)
qed (simp add: directory_resources_def)

lemma distinct_map_sort_key [simp]: "distinct (map f (sort_key f xs)) = distinct (map f xs)"
proof -
  have "mset (map f (sort_key f xs)) = mset (map f xs)" by simp
  then show ?thesis by (metis mset_eq_imp_distinct_iff)
qed

lemma directory_visited: "visited dir (directory_resources skills) (collect_directory_children skills dir)"
proof -
  have "visited dir [] \<lparr>dv_is_directory = False, dv_children = []\<rparr>" by (simp add: visited_def children_of_def)
  from visit_skills_visited [OF this, of skills] show ?thesis
    by (simp add: collect_directory_children_def Let_def visited_def)
qed

lemma first_slash: "case find_sub ''/'' s of
    None \<Rightarrow> CHR ''/'' \<notin> set s
  | Some n \<Rightarrow> n < length s \<and> CHR ''/'' \<notin> set (take n s) \<and> s ! n = CHR ''/''"
  by (induction s) (auto split: option.splits)

definition reached_through :: "string \<Rightarrow> string \<Rightarrow> string \<Rightarrow> bool" where
  "reached_through dir seg u \<longleftrightarrow> seg \<noteq> [] \<and> CHR ''/'' \<notin> set seg \<and>
     (u = dir @ ''/'' @ seg \<or> (\<exists>below. u = dir @ ''/'' @ seg @ ''/'' @ below))"

lemma below_directory_split: "below_directory dir u \<longleftrightarrow> (\<exists>rest. rest \<noteq> [] \<and> u = dir @ ''/'' @ rest)"
proof
  assume "below_directory dir u"
  then have u: "take (length dir) u = dir" "length dir + 1 < length u" "u ! length dir = CHR ''/''"
    by (auto simp: below_directory_def)
  then have "u = dir @ ''/'' @ drop (Suc (length dir)) u"
    by (metis Cons_nth_drop_Suc append_Cons append_Nil append_take_drop_id add_lessD1)
  with u(2) show "\<exists>rest. rest \<noteq> [] \<and> u = dir @ ''/'' @ rest" by (metis Suc_eq_plus1 drop_eq_Nil not_le)
qed (auto simp: below_directory_def)

lemma child_towards_segment:
  assumes "below_directory dir u" "child_towards dir u = Some c"
  shows "dc_uri c = dir @ ''/'' @ dc_name c" and "reached_through dir (dc_name c) u"
proof -
  obtain rest where rest: "rest \<noteq> []" "u = dir @ ''/'' @ rest" using assms(1) below_directory_split by auto
  have "dc_uri c = dir @ ''/'' @ dc_name c \<and> reached_through dir (dc_name c) u"
  proof (cases "find_sub ''/'' rest")
    case None
    then show ?thesis
      using assms(2) rest first_slash [of rest] by (auto simp: child_towards_def reached_through_def)
  next
    case (Some n)
    then have n: "n < length rest" "CHR ''/'' \<notin> set (take n rest)" "rest ! n = CHR ''/''"
      using first_slash [of rest] by auto
    then have "rest = take n rest @ ''/'' @ drop (Suc n) rest"
      by (metis append_Cons append_Nil id_take_nth_drop)
    then show ?thesis
      using assms(2) rest Some n by (auto simp: child_towards_def Let_def reached_through_def split: if_splits)
  qed
  then show "dc_uri c = dir @ ''/'' @ dc_name c" "reached_through dir (dc_name c) u" by auto
qed

lemma segment_child:
  assumes "reached_through dir seg u"
  shows "below_directory dir u" and "\<exists>c. child_towards dir u = Some c \<and> dc_uri c = dir @ ''/'' @ seg"
proof -
  have seg: "seg \<noteq> []" "CHR ''/'' \<notin> set seg" using assms by (auto simp: reached_through_def)
  from assms show "below_directory dir u" by (auto simp: reached_through_def below_directory_split)
  show "\<exists>c. child_towards dir u = Some c \<and> dc_uri c = dir @ ''/'' @ seg"
  proof (cases "u = dir @ ''/'' @ seg")
    case True
    have "find_sub ''/'' seg = None" using first_slash [of seg] seg by (cases "find_sub ''/'' seg") (use nth_mem in \<open>fastforce+\<close>)
    with True seg show ?thesis by (auto simp: child_towards_def)
  next
    case False
    then obtain below where "u = dir @ ''/'' @ seg @ ''/'' @ below" using assms by (auto simp: reached_through_def)
    moreover have "find_sub ''/'' (seg @ ''/'' @ below) = Some (length seg)" using find_sub_at [of "''/''" seg below] seg by simp
    ultimately show ?thesis using seg by (auto simp: child_towards_def Let_def)
  qed
qed

lemma child_uris: "dc_uri ` children_of dir us = {dir @ ''/'' @ seg |seg u. u \<in> set us \<and> reached_through dir seg u}"
proof -
  have "dc_uri c \<in> {dir @ ''/'' @ seg |seg u. u \<in> set us \<and> reached_through dir seg u}" if "c \<in> children_of dir us" for c
    using that child_towards_segment by (fastforce simp: children_of_def)
  moreover have "dir @ ''/'' @ seg \<in> dc_uri ` children_of dir us" if "u \<in> set us" "reached_through dir seg u" for seg u
    using that segment_child [OF that(2)] by (force simp: children_of_def)
  ultimately show ?thesis by blast
qed

text \<open>A directory listing is exactly what the manifests of the skills say: the children, in the order of their
  names and each only once, are the first segments behind the directory of the resources that lie below it.\<close>

theorem directory_children_exact:
  "set (map dc_uri (dv_children (collect_directory_children skills dir))) =
     {dir @ ''/'' @ seg |seg u. u \<in> set (directory_resources skills) \<and> reached_through dir seg u} \<and>
   distinct (map dc_uri (dv_children (collect_directory_children skills dir))) \<and>
   sorted (map dc_uri (dv_children (collect_directory_children skills dir))) \<and>
   list_all (\<lambda>c. dc_uri c = dir @ ''/'' @ dc_name c) (dv_children (collect_directory_children skills dir))"
proof -
  note v = directory_visited [of dir skills, unfolded visited_def]
  have "dc_uri ` set (dv_children (collect_directory_children skills dir)) = dc_uri ` children_of dir (directory_resources skills)"
    using v by blast
  moreover have "sorted (map dc_uri (dv_children (collect_directory_children skills dir)))"
    by (simp add: collect_directory_children_def Let_def)
  moreover have "list_all (\<lambda>c. dc_uri c = dir @ ''/'' @ dc_name c) (dv_children (collect_directory_children skills dir))"
    using v child_towards_segment(1) unfolding list_all_iff children_of_def by blast
  ultimately show ?thesis using v child_uris by simp
qed

end
