(* ===== verification/Server_Serve.thy ===== *)
theory Server_Serve
  imports Server_Calls Server_Skills
begin

text \<open>
  The server as a whole: which handler serves which method, and how the checks of the session handler, the work of the
  handler and the queue of answers follow each other when a message comes in (\<open>OnRequest\<close> of
  \<open>src/protocol/McpSessionHandler.cpp\<close> with the handlers that \<open>WireHandlers\<close> of \<open>src/server/McpServer.cpp\<close> installs).
\<close>

section \<open>Dispatch\<close>

text \<open>Besides what a call gets from outside: the steady clock, the level that an empty \<open>logging/setLevel\<close> happens to
  carry, the user's \<open>on_client_connected\<close>, and the verifier of request states.\<close>

record serve_env = call_env +
  se_time :: time
  se_level :: logging_level
  se_connected :: "implementation \<Rightarrow> unit outcome"
  se_verify :: "(string \<Rightarrow> bool) option"

type_synonym handler_run = "step \<times> background_job option"

definition resource_handler :: "serve_env \<Rightarrow> server \<Rightarrow> rpc_request \<Rightarrow> handled option" where
  "resource_handler env sv r =
     (if rq_method r = ''resources/list'' then Some (handle_list_resources sv r)
      else if rq_method r = ''resources/templates/list'' then Some (handle_list_resource_templates sv r)
      else if rq_method r = ''resources/read'' then Some (handle_read_resource (ce_now env) sv r)
      else if rq_method r = ''prompts/list'' then Some (handle_list_prompts sv r)
      else if rq_method r = ''prompts/get'' then Some (handle_get_prompt (ce_now env) sv r)
      else if rq_method r = ''completion/complete'' then Some (handle_complete sv r)
      else if rq_method r = ''skills/list'' then Some (handle_list_skills sv r)
      else if rq_method r = ''skills/get'' then Some (handle_get_skill sv r)
      else if rq_method r = ''resources/directory/read'' then Some (handle_read_directory sv r)
      else None)"

definition session_method :: "serve_env \<Rightarrow> server \<Rightarrow> rpc_request \<Rightarrow> step option" where
  "session_method env sv r =
     (if rq_method r = ''initialize'' then Some (handle_initialize (se_connected env) sv r)
      else if rq_method r = ''server/discover'' then Some (handle_discover sv r)
      else if rq_method r = ''ping'' then Some (handle_ping sv r)
      else if rq_method r = ''logging/setLevel'' then Some (handle_set_level (se_level env) sv r)
      else if rq_method r = ''server/extensions/list'' then Some (handle_list_extensions sv r)
      else if rq_method r = ''resources/subscribe'' then Some (handle_subscribe_resource (se_time env) sv r)
      else if rq_method r = ''resources/unsubscribe'' then Some (handle_unsubscribe_resource sv r)
      else if rq_method r = ''subscriptions/listen'' then Some (handle_subscriptions_listen (se_time env) sv r)
      else if rq_method r = ''tools/list'' then Some (case handle_list_tools sv r of (sv', out) \<Rightarrow> unchanged sv' out)
      else None)"

definition task_method :: "serve_env \<Rightarrow> file_task_store \<Rightarrow> server \<Rightarrow> rpc_request \<Rightarrow> step option" where
  "task_method env st sv r =
     (if rq_method r = ''tasks/get'' then Some (handle_get_task st sv r)
      else if rq_method r = ''tasks/update'' then Some (handle_update_task (ce_writes env) st sv r)
      else if rq_method r = ''tasks/cancel'' then Some (handle_cancel_task (ce_writes env) st sv r)
      else if rq_method r = ''tasks/result'' then Some (handle_get_task_payload st sv r)
      else if rq_method r = ''tasks/list'' then Some (handle_list_tasks st sv r)
      else None)"

text \<open>The handler of a method that has one.\<close>

definition run_handler :: "serve_env \<Rightarrow> server \<Rightarrow> rpc_request \<Rightarrow> handler_run" where
  "run_handler env sv r =
     (if rq_method r = ''tools/call'' then handle_call_tool (call_env.truncate env) sv r
      else case resource_handler env sv r of
             Some out \<Rightarrow> plain_step sv out
           | None \<Rightarrow>
               (case session_method env sv r of
                  Some s \<Rightarrow> (s, None)
                | None \<Rightarrow>
                    (case sv_store sv of
                       None \<Rightarrow> plain_step sv ThrownOther
                     | Some st \<Rightarrow>
                         (case task_method env st sv r of Some s \<Rightarrow> (s, None) | None \<Rightarrow> plain_step sv ThrownOther))))"

section \<open>Requests\<close>

text \<open>What becomes of a request: the new server, what was sent, the value its answer will have when it was queued, and
  the job it left behind.\<close>

type_synonym served = "server \<times> session_event list \<times> future_result option \<times> background_job option"

definition refused :: "server \<Rightarrow> session_handler \<times> session_event list \<Rightarrow> served" where
  "refused sv out = (case out of (h, events) \<Rightarrow> (sv\<lparr>sv_handler := h\<rparr>, events, None, None))"

definition flag_of :: "rpc_request \<Rightarrow> string" where
  "flag_of r = session_request_key (rq_session r) (get_request_id_key (rq_id r))"

definition raise_flag :: "rpc_request \<Rightarrow> session_handler \<Rightarrow> session_handler" where
  "raise_flag r h = h\<lparr>sh_cancel_flags := amap_put (flag_of r) False (sh_cancel_flags h)\<rparr>"

definition settle_request :: "rpc_request \<Rightarrow> handler_run \<Rightarrow> served" where
  "settle_request r run =
     (case run of ((sv, events, out), job) \<Rightarrow>
        (let h = sv_handler sv; lowered = erase_incoming_cancellation_flag (flag_of r) h;
             add = (\<lambda>reply future. case reply of (h', later) \<Rightarrow> (sv\<lparr>sv_handler := h'\<rparr>, events @ later, future, job))
         in case out of
              Thrown e \<Rightarrow> add (reject lowered r (err_code e, what e, err_data e)) None
            | ThrownOther \<Rightarrow> add (reject lowered r (InternalError, ''request handler failed'', None)) None
            | Settled future \<Rightarrow> add (enqueue_response r h) (Some future)))"

definition serve_request :: "serve_env \<Rightarrow> rpc_request \<Rightarrow> server \<Rightarrow> served" where
  "serve_request env r sv =
     (let h = sv_handler sv in
      case check_era h r of
        Some rj \<Rightarrow> refused sv (reject h r rj)
      | None \<Rightarrow>
     (case check_meta h r of
        Some rj \<Rightarrow> refused sv (reject h r rj)
      | None \<Rightarrow>
     (if rq_method r \<notin> set (sv_methods sv) then
        refused sv (reject h r (MethodNotFound, ''method not found: '' @ rq_method r, None))
      else case check_capability h r of
        Some rj \<Rightarrow> refused sv (reject h r rj)
      | None \<Rightarrow>
     (case check_request_state (se_verify env) r of
        Some rj \<Rightarrow> refused sv (reject h r rj)
      | None \<Rightarrow> settle_request r (run_handler env (on_handler (raise_flag r) sv) r)))))"

section \<open>Notifications\<close>

text \<open>Notifications that are not valid in the era of their session are dropped; \<open>cancelled\<close> is the session handler's own.\<close>

definition serve_notification :: "serve_env \<Rightarrow> rpc_notification \<Rightarrow> server \<Rightarrow> server" where
  "serve_notification env n sv =
     (let h = sv_handler sv in
      if validate_notification (codec_for h (nt_session n)) (nt_method n)
           (wv_raw (make_wire_notification_view n)) \<noteq> WireOk then sv
      else if nt_method n = ''notifications/cancelled'' then on_handler (handle_cancelled n) sv
      else if nt_method n = ''notifications/initialized'' then initialized_notification sv n
      else if nt_method n = ''notifications/progress'' then progress_notification (se_time env) sv n
      else sv)"

section \<open>Handlers leave the queue of answers alone\<close>

definition same_ledger :: "session_handler \<Rightarrow> session_handler \<Rightarrow> bool" where
  "same_ledger h h' \<longleftrightarrow> sh_queue h' = sh_queue h \<and> sh_outstanding h' = sh_outstanding h \<and>
     sh_capacity h' = sh_capacity h \<and> sh_closed h' = sh_closed h \<and> sh_cancel_flags h' = sh_cancel_flags h"

fun is_notice :: "session_event \<Rightarrow> bool" where
  "is_notice (Sent (MsgNotification n)) = True"
| "is_notice _ = False"

definition quiet :: "server \<Rightarrow> step \<Rightarrow> bool" where
  "quiet sv s \<longleftrightarrow> same_ledger (sv_handler sv) (sv_handler (fst s)) \<and> list_all is_notice (fst (snd s))"

named_theorems quiet_intros "steps that leave the queue alone"

lemma same_ledger_refl [simp]: "same_ledger h h" by (simp add: same_ledger_def)

lemma quiet_unchanged [quiet_intros]: "same_ledger (sv_handler sv) (sv_handler sv') \<Longrightarrow> quiet sv (unchanged sv' out)"
  by (simp add: quiet_def unchanged_def)

lemma quiet_step_or [quiet_intros]:
  "same_ledger (sv_handler sv) (sv_handler sv') \<Longrightarrow> (\<And>x. m = Inr x \<Longrightarrow> quiet sv (k x)) \<Longrightarrow> quiet sv (step_or sv' m k)"
  by (auto simp: step_or_def quiet_unchanged split: sum.split)

lemma quiet_when_initialized [quiet_intros]: "quiet sv k \<Longrightarrow> quiet sv (when_initialized sv r k)"
  by (simp add: when_initialized_def quiet_unchanged)

lemma quiet_guard [quiet_intros]: "quiet sv k \<Longrightarrow> quiet sv (tasks_guard sv r k)"
  by (simp add: tasks_guard_def Let_def quiet_unchanged split: option.split sum.split)

lemma quiet_if [quiet_intros]: "(b \<Longrightarrow> quiet sv s) \<Longrightarrow> (\<not> b \<Longrightarrow> quiet sv s') \<Longrightarrow> quiet sv (if b then s else s')"
  by simp

lemma ledger_simps [simp]:
  "same_ledger h (set_client_capabilities session caps h') = same_ledger h h'"
  "same_ledger h (set_negotiated_protocol_version session v h') = same_ledger h h'"
  "same_ledger h (put_bucket s b h') = same_ledger h h'"
  by (simp_all add: same_ledger_def set_client_capabilities_def set_negotiated_protocol_version_def put_bucket_def)

lemma ledger_subscriptions [simp]:
  "same_ledger h (add_subscription now uri f session h') = same_ledger h h'"
  "same_ledger h (remove_subscription uri session h') = same_ledger h h'"
  "same_ledger h (fst (try_add_subscription_entry now e session h')) = same_ledger h h'"
  by (simp_all add: add_subscription_def add_subscription_entry_def try_add_subscription_entry_def Let_def split: option.split)
    (auto simp: remove_subscription_def Let_def same_ledger_def put_bucket_def split: option.split)

lemma handler_simps [simp]:
  "sv_handler (on_handler f sv) = f (sv_handler sv)" "sv_handler (set_store st sv) = sv_handler sv"
  "sv_handler (store_client session caps info sv) = sv_handler sv"
  "sv_handler (store_capabilities session caps sv) = sv_handler sv"
  "sv_handler (mark_session_initialized session sv) = sv_handler sv"
  "sv_handler (retire_task i sv) = sv_handler sv" "sv_handler (add_running_flag i b sv) = sv_handler sv"
  by (simp_all add: on_handler_def set_store_def store_client_def store_capabilities_def mark_session_initialized_def
      retire_task_def add_running_flag_def Let_def)

lemma notify_subscribers_notices: "list_all is_notice (notify_subscribers type params uri session h)"
  by (auto simp: notify_subscribers_def bucket_notices_def list_all_iff split: option.split)

lemma send_notification_notices: "send_notification h method params session = Inr events \<Longrightarrow> list_all is_notice events"
  by (auto simp: send_notification_def Let_def rbind_def split: sum.splits)

lemma task_notification_notices:
  "send_task_notification h method i status modern session = Inr events \<Longrightarrow> list_all is_notice events"
  by (auto simp: send_task_notification_def Let_def notify_subscribers_notices send_notification_notices split: if_splits)

lemma quiet_initialize: "quiet sv (handle_initialize connected sv r)"
  unfolding handle_initialize_def Let_def
  by (intro quiet_intros) (auto intro!: quiet_intros split: outcome.split)

lemma quiet_discover: "quiet sv (handle_discover sv r)"
  unfolding handle_discover_def Let_def
  by (auto intro!: quiet_intros split: option.split)

lemma quiet_listen: "quiet sv (handle_subscriptions_listen now sv r)"
proof -
  have core: "quiet sv (case try_add_subscription_entry now e s (sv_handler sv1) of
      (h, LimitExceeded) \<Rightarrow> unchanged (sv1\<lparr>sv_handler := h\<rparr>) out
    | (h, outcome) \<Rightarrow> (sv1\<lparr>sv_handler := h\<rparr>, [subscriptions_acknowledged (sv1\<lparr>sv_handler := h\<rparr>) f sid s'], out'))"
    if "same_ledger (sv_handler sv) (sv_handler sv1)" for sv1 e s f sid s' out out'
  proof -
    obtain h outcome where t: "try_add_subscription_entry now e s (sv_handler sv1) = (h, outcome)" by fastforce
    have "same_ledger (sv_handler sv) h"
      using that ledger_subscriptions(3) [of "sv_handler sv" now e s "sv_handler sv1"] t by simp
    then show ?thesis
      by (cases outcome) (simp_all add: t quiet_def unchanged_def subscriptions_acknowledged_def)
  qed
  show ?thesis
    unfolding handle_subscriptions_listen_def Let_def by (intro quiet_intros core) (simp_all)
qed

lemma quiet_list_tools: "sv_handler (fst (handle_list_tools sv r)) = sv_handler sv"
  by (simp add: handle_list_tools_def Let_def)

lemma quiet_session_method: "session_method env sv r = Some s \<Longrightarrow> quiet sv s"
proof -
  have "quiet sv (handle_ping sv r)" "quiet sv (handle_list_extensions sv r)"
    "quiet sv (handle_set_level (se_level env) sv r)"
    "quiet sv (handle_subscribe_resource (se_time env) sv r)" "quiet sv (handle_unsubscribe_resource sv r)"
    unfolding handle_ping_def handle_list_extensions_def handle_set_level_def handle_subscribe_resource_def
      handle_unsubscribe_resource_def
    by (intro quiet_intros; simp)+
  moreover have "quiet sv (case handle_list_tools sv r of (sv', out) \<Rightarrow> unchanged sv' out)"
    using quiet_list_tools [of sv r] by (auto simp: quiet_def unchanged_def split: prod.split)
  moreover assume "session_method env sv r = Some s"
  ultimately show ?thesis
    using quiet_initialize quiet_discover quiet_listen
    unfolding session_method_def by (auto split: if_splits)
qed

lemma quiet_resume: "quiet sv0 (unchanged sv out) \<Longrightarrow> quiet sv0 (resume_task env i st sv r)"
  by (auto simp: resume_task_def finish_resume_def Let_def quiet_def unchanged_def set_store_def
      split: option.split prod.split sum.split)

lemma quiet_noticed:
  assumes "same_ledger (sv_handler sv) (sv_handler sv')"
    "\<And>events. list_all is_notice events \<Longrightarrow> quiet sv (k events)"
  shows "quiet sv (step_or sv' (send_task_notification h method i status modern session) k)"
  using assms task_notification_notices by (intro quiet_step_or) blast+

lemma quiet_update_input: "quiet sv (update_with_input env i responses st sv r)"
proof -
  have "quiet sv (case resume_task env i st' (set_store st' sv) r of (sv2, later, out) \<Rightarrow> (sv2, events @ later, out))"
    if "list_all is_notice events" for st' events
    using quiet_resume [of sv "set_store st' sv" undefined env i st' r] that
    by (auto simp: quiet_unchanged) (auto simp: quiet_def split: prod.splits)
  then show ?thesis
    by (auto simp: update_with_input_def Let_def quiet_def [of sv "(_, _, _)"]
        intro!: quiet_unchanged quiet_noticed split: option.split prod.split sum.split bool.split)
qed

lemma quiet_update_result: "quiet sv (update_with_result env i result st sv r)"
  by (auto simp: update_with_result_def Let_def quiet_def [of sv "(_, _, _)"]
      intro!: quiet_unchanged quiet_noticed split: option.split prod.split sum.split bool.split)

lemma quiet_task_method: "task_method env st sv r = Some s \<Longrightarrow> quiet sv s"
proof -
  have "quiet sv (handle_get_task st sv r)"
    unfolding handle_get_task_def by (intro quiet_intros) simp_all
  moreover have "quiet sv (handle_get_task_payload st sv r)" "quiet sv (handle_list_tasks st sv r)"
    unfolding handle_get_task_payload_def handle_list_tasks_def by (intro quiet_intros; simp)+
  moreover have "quiet sv (handle_update_task (ce_writes env) st sv r)"
    unfolding handle_update_task_def
    by (intro quiet_intros) (auto intro!: quiet_intros quiet_update_input quiet_update_result split: option.split)
  moreover have "quiet sv (handle_cancel_task (ce_writes env) st sv r)"
    unfolding handle_cancel_task_def Let_def
    by (intro quiet_intros)
      (auto simp: quiet_def [of sv "(_, _, _)"] intro!: quiet_unchanged quiet_noticed
        split: option.split prod.split sum.split bool.split)
  moreover assume "task_method env st sv r = Some s"
  ultimately show ?thesis unfolding task_method_def by (auto split: if_splits)
qed

lemma quiet_call_tool: "quiet sv (fst (handle_call_tool env sv r))"
proof -
  have first: "quiet sv (store_first_result env st sv t params owner first)" for st t params owner first
    by (auto simp: store_first_result_def Let_def intro!: quiet_unchanged split: prod.split sum.split)
  have required: "quiet sv (required_task_call env st sampling sv t r params)" for st sampling t params
    by (auto simp: required_task_call_def Let_def first intro!: quiet_unchanged split: sum.split option.split)
  have background: "quiet sv (fst (start_background env st modern sv t r params))" for st modern t params
    by (auto simp: start_background_def Let_def quiet_def unchanged_def dest: task_notification_notices
        split: prod.split sum.split)
  show ?thesis
    by (auto simp: handle_call_tool_def call_tool_def Let_def plain_step_def required background
        intro!: quiet_unchanged split: sum.split option.split input_stop.split)
qed

lemma quiet_handler: "quiet sv (fst (run_handler env sv r))"
  using quiet_session_method quiet_task_method quiet_call_tool
  by (auto simp: run_handler_def plain_step_def intro!: quiet_unchanged split: option.split)

section \<open>Every request is answered or queued\<close>

definition answered_or_queued :: "rpc_request \<Rightarrow> session_handler \<Rightarrow> served \<Rightarrow> bool" where
  "answered_or_queued r h out =
     (case out of (sv, events, future, job) \<Rightarrow>
        (\<exists>notices e. events = notices @ [e] \<and> list_all is_notice notices \<and> answers r e \<and>
           sh_queue (sv_handler sv) = sh_queue h \<and> sh_outstanding (sv_handler sv) = sh_outstanding h) \<or>
        (list_all is_notice events \<and> future \<noteq> None \<and>
           sh_queue (sv_handler sv) = sh_queue h @ [ResponseItem r (request_key r)] \<and>
           sh_outstanding (sv_handler sv) = sh_outstanding h + 1 \<and> sh_outstanding h < sh_capacity h))"

lemma refused_answered: "answered_or_queued r (sv_handler sv) (refused sv (reject (sv_handler sv) r rj))"
  by (cases rj) (simp add: answered_or_queued_def refused_def reject_def send_error_response_def)

lemma reply_answered:
  assumes "list_all is_notice events" "rejected_or_queued r h1 reply" "sh_queue h1 = sh_queue h"
    "sh_outstanding h1 = sh_outstanding h" "sh_capacity h1 = sh_capacity h"
    "future \<noteq> None \<or> (\<exists>rj. reply = reject h1 r rj)"
  shows "answered_or_queued r h (case reply of (h', later) \<Rightarrow> (sv\<lparr>sv_handler := h'\<rparr>, events @ later, future, job))"
  using assms by (auto simp: answered_or_queued_def rejected_or_queued_def reject_def split: prod.split)

lemma settle_answered:
  assumes quiet: "quiet sv1 (fst run)" and open': "\<not> sh_closed (sv_handler sv1)"
    and same: "sh_queue (sv_handler sv1) = sh_queue h" "sh_outstanding (sv_handler sv1) = sh_outstanding h"
      "sh_capacity (sv_handler sv1) = sh_capacity h"
  shows "answered_or_queued r h (settle_request r run)"
proof -
  obtain sv events out job where run: "run = ((sv, events, out), job)" by (metis prod.exhaust)
  let ?h = "sv_handler sv" and ?low = "erase_incoming_cancellation_flag (flag_of r) (sv_handler sv)"
  have ledger: "sh_queue ?h = sh_queue h" "sh_outstanding ?h = sh_outstanding h" "sh_capacity ?h = sh_capacity h"
      "\<not> sh_closed ?h" "list_all is_notice events"
    using quiet open' same by (auto simp: quiet_def run same_ledger_def)
  have low: "sh_queue ?low = sh_queue h" "sh_outstanding ?low = sh_outstanding h" "sh_capacity ?low = sh_capacity h"
    using ledger by (simp_all add: erase_incoming_cancellation_flag_def)
  have rejected: "answered_or_queued r h (case reject ?low r rj of (h', later) \<Rightarrow> (sv\<lparr>sv_handler := h'\<rparr>, events @ later, None, job))" for rj
    using ledger(5) low by (intro reply_answered [of _ _ ?low]) (auto intro: reject_answers simp del: split_paired_Ex)
  have queued: "answered_or_queued r h (case enqueue_response r ?h of (h', later) \<Rightarrow> (sv\<lparr>sv_handler := h'\<rparr>, events @ later, Some f, job))" for f
    using ledger by (intro reply_answered [of _ _ ?h]) (auto intro: enqueue_answers)
  show ?thesis
    using rejected queued by (simp add: settle_request_def run Let_def split: handled.split)
qed

text \<open>C1: While the server is open, every request that comes in is answered at once with exactly one error of its own, or
  is put once into the queue of answers and has a value to be answered with; whatever else its handler sends are
  notifications.  This holds for every method, also those that change the server.\<close>

theorem served_answered_or_queued:
  assumes "\<not> sh_closed (sv_handler sv)"
  shows "answered_or_queued r (sv_handler sv) (serve_request env r sv)"
proof -
  have "answered_or_queued r (sv_handler sv) (settle_request r (run_handler env (on_handler (raise_flag r) sv) r))"
    using assms by (intro settle_answered [OF quiet_handler]) (simp_all add: raise_flag_def)
  then show ?thesis by (auto simp: serve_request_def Let_def refused_answered split: option.split)
qed

definition calm_serve_env :: serve_env where
  "calm_serve_env = call_env.extend calm_env
     (serve_env.fields 0 LogInfo (\<lambda>_. Returns ()) None)"

lemma served_answered_or_queued_witness:
  "answered_or_queued intruder_request (sv_handler shared_server) (serve_request calm_serve_env intruder_request shared_server)"
proof (rule served_answered_or_queued)
  show "\<not> sh_closed (sv_handler shared_server)"
    by (simp add: shared_server_def new_server_def derive_capabilities_def wire_handlers_def Let_def new_handler_def
        plain_options_def set_supported_protocol_versions_def)
qed

section \<open>Before the handshake\<close>

definition guarded_methods :: "string list" where
  "guarded_methods = [''tools/list'', ''tools/call'', ''resources/list'', ''resources/templates/list'', ''resources/read'',
     ''resources/subscribe'', ''resources/unsubscribe'', ''prompts/list'', ''prompts/get'', ''ping'', ''logging/setLevel'',
     ''completion/complete'', ''server/extensions/list'', ''skills/list'', ''skills/get'', ''resources/directory/read'']"

text \<open>C11: A session of the older protocol that has not been initialized gets nothing: every method that tells or changes
  something about the server, except those of tasks, refuses and leaves the server as it is.  A session of the current
  protocol has no handshake and is served at once.\<close>

theorem uninitialized_session_refused:
  assumes "rq_method r \<in> set guarded_methods" "\<not> is_modern_session sv (rq_session r)"
    "\<not> is_session_initialized sv (rq_session r)"
  shows "run_handler env sv r = ((sv, [], failed InvalidRequest ''Server not initialized''), None)"
proof -
  have req: "require_initialized sv r k = failed InvalidRequest ''Server not initialized''" for k
    using assms(2,3) by (simp add: require_initialized_def)
  have whn: "when_initialized sv r k = (sv, [], failed InvalidRequest ''Server not initialized'')" for k
    using assms(2,3) by (simp add: when_initialized_def unchanged_def)
  have tools: "handle_list_tools sv r = (sv, failed InvalidRequest ''Server not initialized'')"
      "handle_call_tool e sv r = ((sv, [], failed InvalidRequest ''Server not initialized''), None)" for e
    using assms(2,3) by (simp_all add: handle_list_tools_def handle_call_tool_def plain_step_def unchanged_def)
  show ?thesis
    using assms(1) unfolding guarded_methods_def
    by (auto simp: run_handler_def resource_handler_def session_method_def req whn tools plain_step_def unchanged_def
        handle_list_resources_def handle_list_resource_templates_def handle_read_resource_def handle_list_prompts_def
        handle_get_prompt_def handle_complete_def handle_list_skills_def handle_get_skill_def handle_read_directory_def
        skills_guard_def handle_ping_def handle_set_level_def handle_list_extensions_def handle_subscribe_resource_def
        handle_unsubscribe_resource_def)
qed

lemma uninitialized_session_refused_witness:
  "run_handler calm_serve_env shared_server sample_request =
     ((shared_server, [], failed InvalidRequest ''Server not initialized''), None)"
proof (rule uninitialized_session_refused)
  show "rq_method sample_request \<in> set guarded_methods" by (simp add: sample_request_def guarded_methods_def)
  have "version_for (sv_handler shared_server) ''s'' = []"
    by (simp add: shared_server_def new_server_def derive_capabilities_def wire_handlers_def Let_def new_handler_def
        plain_options_def set_supported_protocol_versions_def version_for_def default_version_def)
  moreover have "\<not> is_modern_protocol_version []" by code_simp
  ultimately show "\<not> is_modern_session shared_server (rq_session sample_request)"
    by (simp add: is_modern_session_def sample_request_def)
  show "\<not> is_session_initialized shared_server (rq_session sample_request)"
    by (simp add: shared_server_def new_server_def derive_capabilities_def wire_handlers_def Let_def
        is_session_initialized_def sample_request_def)
qed

section \<open>The session handler and the server agree\<close>

fun reply_of :: "handled \<Rightarrow> handler_reply" where
  "reply_of (Thrown e) = ReplyThrows e"
| "reply_of ThrownOther = ReplyFails"
| "reply_of (Settled future) = ReplyLater"

text \<open>Seen from the session handler a request to the server is \<open>OnRequest\<close> with the registered methods: for a handler that
  leaves the session handler alone, the messages and the state are the ones of that function.\<close>

lemma serve_is_on_request:
  assumes "run_handler env (on_handler (raise_flag r) sv) r = ((sv1, [], out), job)"
    "sv_handler sv1 = raise_flag r (sv_handler sv)"
  shows "on_request (\<lambda>m. if m \<in> set (sv_methods sv) then Some (\<lambda>_. reply_of out) else None) (se_verify env) r (sv_handler sv) =
    (sv_handler (fst (serve_request env r sv)), fst (snd (serve_request env r sv)))"
  using assms
  by (cases out) (auto simp: on_request_def serve_request_def refused_def settle_request_def call_handler_def Let_def
      raise_flag_def flag_of_def split: option.split prod.split)

section \<open>The handshake\<close>

lemma version_after_negotiation: "version_for (set_negotiated_protocol_version session v h) session = v"
  by (simp add: version_for_def set_negotiated_protocol_version_def default_version_def amap_simps)

lemma selected_configured: "so_protocol_version o' = Some v \<Longrightarrow> selected_version o' requested = v"
  by (simp add: selected_version_def)

lemma selected_legacy:
  assumes "so_protocol_version o' = None"
  shows "\<not> is_modern_protocol_version (selected_version o' requested)"
proof -
  have "\<not> is_modern_protocol_version default_negotiated_version" "\<not> is_modern_protocol_version legacy_version"
    by code_simp+
  with assms show ?thesis by (auto simp: selected_version_def find_Some_iff split: option.split)
qed

lemma selected_requested:
  assumes "so_protocol_version o' = None" "requested \<in> set (effective_supported_versions o')"
    "\<not> is_modern_protocol_version requested" "requested \<noteq> []"
  shows "selected_version o' requested = requested"
  using assms by (auto simp: selected_version_def find_Some_iff find_None_iff split: option.split)

text \<open>C12: The handshake settles the version of the session: the answer names the version that is in force afterwards; it is
  the configured one, and without one it is never of the stateless era, and the requested one if the server has it.\<close>

theorem initialize_settles_version:
  assumes "read_params r no_initialize_params deserialize_initialize_params = Inr params"
    "connected (ip_client_info params) = Returns ()"
  shows "\<exists>sv' v version. handle_initialize connected sv r = (sv', [], Settled (FutureValue v)) \<and>
    json_find ''protocolVersion'' v = Some (JString version) \<and>
    version_for (sv_handler sv') (rq_session r) = version \<and>
    (case so_protocol_version (sv_options sv) of
       Some configured \<Rightarrow> version = configured
     | None \<Rightarrow> \<not> is_modern_protocol_version version \<and>
         (ip_protocol_version params \<in> set (effective_supported_versions (sv_options sv)) \<and>
          \<not> is_modern_protocol_version (ip_protocol_version params) \<and> ip_protocol_version params \<noteq> [] \<longrightarrow>
          version = ip_protocol_version params))"
proof -
  let ?sv1 = "on_handler (set_client_capabilities (rq_session r) (ip_capabilities params))
      (store_client (rq_session r) (ip_capabilities params) (ip_client_info params) sv)"
  let ?version = "selected_version (sv_options sv) (ip_protocol_version params)"
  let ?sv2 = "on_handler (set_negotiated_protocol_version (rq_session r) ?version) ?sv1"
  have opts: "sv_options ?sv1 = sv_options sv"
    by (simp add: on_handler_def store_client_def Let_def)
  have force: "version_for (sv_handler ?sv2) (rq_session r) = ?version"
    by (simp add: version_after_negotiation)
  obtain v where v: "handle_initialize connected sv r = (?sv2, [], Settled (FutureValue v))"
      "json_find ''protocolVersion'' v = Some (JString ?version)"
    using assms force opts
    by (simp add: handle_initialize_def step_or_def unchanged_def answer_def Let_def serialize_initialize_result_def codec_simps)
  have "case so_protocol_version (sv_options sv) of Some configured \<Rightarrow> ?version = configured
      | None \<Rightarrow> \<not> is_modern_protocol_version ?version \<and>
         (ip_protocol_version params \<in> set (effective_supported_versions (sv_options sv)) \<and>
          \<not> is_modern_protocol_version (ip_protocol_version params) \<and> ip_protocol_version params \<noteq> [] \<longrightarrow>
          ?version = ip_protocol_version params)"
    using selected_configured selected_legacy selected_requested by (auto split: option.split)
  with v force show ?thesis by blast
qed

lemma initialize_settles_version_witness:
  "\<exists>sv' v version. handle_initialize (\<lambda>_. Returns ()) shared_server sample_request = (sv', [], Settled (FutureValue v)) \<and>
     \<not> is_modern_protocol_version version \<and> version_for (sv_handler sv') ''s'' = version"
proof -
  have "so_protocol_version (sv_options shared_server) = None"
    by (simp add: shared_server_def new_server_def derive_capabilities_def wire_handlers_def Let_def plain_options_def)
  moreover have "read_params sample_request no_initialize_params deserialize_initialize_params = Inr no_initialize_params"
    by (simp add: read_params_def sample_request_def)
  ultimately show ?thesis
    using initialize_settles_version [of sample_request no_initialize_params "\<lambda>_. Returns ()" shared_server]
    by (auto simp: sample_request_def)
qed

end
