(* ===== verification/Server_Listings.thy ===== *)
theory Server_Listings
  imports Server_Serve
begin

text \<open>
  Server and client together: the list handlers of \<open>src/server/McpServer.cpp\<close> fulfil the contract \<open>paged_listing\<close> that
  \<open>ListPages\<close> of \<open>src/client/McpClient.cpp\<close> relies on, so a client gets every entry once and in order.
\<close>

section \<open>The pages of a list\<close>

text \<open>What a handler answers to the parameters of a listing once its guards are passed.\<close>

definition failure_value :: "mcp_error \<Rightarrow> json" where
  "failure_value e = error_payload (err_code e) (err_message e) (err_data e)"

definition listed_value ::
  "(bool \<Rightarrow> 'a list_result \<Rightarrow> json) \<Rightarrow> bool \<Rightarrow> cache_hint \<Rightarrow> 'a list \<Rightarrow> json \<Rightarrow> json" where
  "listed_value serialize etag hint items params =
     (case rbind (deserialize_paginated_params params) (\<lambda>p. parse_cursor (pg_cursor p)) of
        Inl e \<Rightarrow> failure_value e
      | Inr cursor \<Rightarrow>
          (case paginate_entries (\<lambda>_. True) cursor default_page_size items of
             (xs, next_index) \<Rightarrow> serialize etag (list_page xs next_index hint)))"

lemma paginated_params_read:
  "serialize_paginated_params \<lparr>pg_cursor = cursor, pg_meta = None\<rparr> = Inr params \<Longrightarrow>
   deserialize_paginated_params params = Inr \<lparr>pg_cursor = cursor, pg_meta = None\<rparr>"
  using paginated_codec.roundtrip [of "\<lparr>pg_cursor = cursor, pg_meta = None\<rparr>"] by auto

lemma page_of_items:
  assumes "serialize_paginated_params \<lparr>pg_cursor = cursor, pg_meta = None\<rparr> = Inr params" "parse_cursor cursor = Inr i"
  shows "listed_value serialize etag hint items params = serialize etag (list_page (take default_page_size (drop i items))
    (if i + default_page_size < length items then Some (i + default_page_size) else None) hint)"
  using paginated_params_read [OF assms(1)] assms(2)
  by (simp add: listed_value_def paginate_entries_page)

definition list_key_ok :: "string \<Rightarrow> bool" where
  "list_key_ok key \<longleftrightarrow> key \<notin> {''nextCursor'', ''cacheHint'', ''ttlMs'', ''cacheScope'', ''_meta'', ''resultType'', ''etag'', ''code''}"

lemma list_result_fields:
  assumes "list_key_ok key"
  shows "json_find ''code'' (serialize_list_result key f etag v) = None"
    and "json_find key (serialize_list_result key f etag v) = Some (JArray (map f (lr_items v)))"
    and "json_find ''nextCursor'' (serialize_list_result key f etag v) = map_option JString (lr_next_cursor v)"
  using assms
  by (auto simp: list_key_ok_def serialize_list_result_def write_list_common_def put_list_def codec_simps)

lemma list_result_contract:
  assumes "list_key_ok key"
    and "serialize_paginated_params \<lparr>pg_cursor = cursor, pg_meta = None\<rparr> = Inr params" "parse_cursor cursor = Inr i"
  shows "extract_protocol_error (listed_value (serialize_list_result key f) etag hint items params) = Inr None \<and>
    page_items key (listed_value (serialize_list_result key f) etag hint items params) =
      take default_page_size (drop i (map f items)) \<and>
    page_cursor (listed_value (serialize_list_result key f) etag hint items params) =
      (if i + default_page_size < length (map f items) then Some (make_next_cursor (i + default_page_size)) else None)"
  unfolding page_of_items [OF assms(2,3)]
  by (simp add: extract_protocol_error_def page_items_def page_cursor_def list_result_fields [OF assms(1)] list_page_def
      make_next_cursor_def take_map drop_map)

lemma list_keys: "list_key_ok ''resources''" "list_key_ok ''resourceTemplates''" "list_key_ok ''prompts''" "list_key_ok ''tools''"
  by (simp_all add: list_key_ok_def)

lemma page_size_facts: "0 < default_page_size" "max_list_pages * default_page_size < 2 ^ 64"
  by (simp_all add: default_page_size_def max_list_pages_def)

lemma list_keys_apart: "''resources'' \<noteq> ''nextCursor''" "''resourceTemplates'' \<noteq> ''nextCursor''" "''prompts'' \<noteq> ''nextCursor''"
  by simp_all

text \<open>The contract on the listings of the server.\<close>

interpretation resource_pages:
  paged_listing "listed_value serialize_list_resources_result etag hint items" "''resources''"
    "map serialize_resource items" default_page_size for etag hint items
  by unfold_locales
    (simp_all only: not_False_eq_True serialize_list_resources_result_def page_size_facts list_keys_apart list_result_contract [OF list_keys(1)])

interpretation template_pages:
  paged_listing "listed_value serialize_list_templates_result etag hint items" "''resourceTemplates''"
    "map serialize_resource_template items" default_page_size for etag hint items
  by unfold_locales
    (simp_all only: not_False_eq_True serialize_list_templates_result_def page_size_facts list_keys_apart list_result_contract [OF list_keys(2)])

interpretation prompt_pages:
  paged_listing "listed_value serialize_list_prompts_result etag hint items" "''prompts''"
    "map serialize_prompt items" default_page_size for etag hint items
  by unfold_locales
    (simp_all only: not_False_eq_True serialize_list_prompts_result_def page_size_facts list_keys_apart list_result_contract [OF list_keys(3)])

section \<open>A client gets it all\<close>

text \<open>What the future of a request gives the client.\<close>

definition value_of :: "handled \<Rightarrow> json" where
  "value_of out =
     (case out of
        Settled (FutureValue v) \<Rightarrow> v
      | Settled (FutureError e) \<Rightarrow> failure_value e
      | Thrown e \<Rightarrow> failure_value e
      | _ \<Rightarrow> error_payload InternalError ''request handler failed'' None)"

definition ask_server :: "(server \<Rightarrow> rpc_request \<Rightarrow> handled) \<Rightarrow> server \<Rightarrow> rpc_request \<Rightarrow> json \<Rightarrow> json" where
  "ask_server handler sv r params = value_of (handler sv (r\<lparr>rq_params := Some params\<rparr>))"

definition may_list :: "server \<Rightarrow> rpc_request \<Rightarrow> string \<Rightarrow> cache_hint \<Rightarrow> bool" where
  "may_list sv r method hint \<longleftrightarrow>
     (is_modern_session sv (rq_session r) \<or> is_session_initialized sv (rq_session r)) \<and>
     resolve_cache_hint sv method (rq_session r) = Inr hint"

lemma paginate_filtered: "paginate_entries P c n es = paginate_entries (\<lambda>_. True) c n (filter P es)"
  by (simp add: paginate_entries_page)

lemma paginate_mapped: "paginate_entries (\<lambda>_. True) c n (map f es) =
    (case paginate_entries (\<lambda>_. True) c n es of (xs, m) \<Rightarrow> (map f xs, m))"
  by (simp add: paginate_entries_page take_map drop_map)

lemma listing_answer:
  assumes "may_list sv r listing hint"
  shows "value_of (require_initialized sv (r\<lparr>rq_params := Some params\<rparr>) (thrown_or (list_cursor (r\<lparr>rq_params := Some params\<rparr>)) (\<lambda>cursor.
      case paginate_entries P cursor default_page_size es of
        (xs, next_index) \<Rightarrow> answer_list sv (r\<lparr>rq_params := Some params\<rparr>) listing serialize (map f xs) next_index))) =
    listed_value serialize (so_etag_cache (sv_options sv)) hint (map f (filter P es)) params"
  using assms
  by (auto simp: may_list_def require_initialized_def thrown_or_def list_cursor_def listed_value_def value_of_def
      answer_list_def answer_def paginate_filtered [of P] paginate_mapped split: sum.split prod.split)

lemma resources_asked:
  "may_list sv r ''resources/list'' hint \<Longrightarrow> ask_server handle_list_resources sv r =
     listed_value serialize_list_resources_result (so_etag_cache (sv_options sv)) hint
       (map entry_resource (filter (\<lambda>e. \<not> rn_is_template e) (sv_resources sv)))"
  by (intro ext) (simp add: ask_server_def handle_list_resources_def listing_answer)

lemma templates_asked:
  "may_list sv r ''resources/templates/list'' hint \<Longrightarrow> ask_server handle_list_resource_templates sv r =
     listed_value serialize_list_templates_result (so_etag_cache (sv_options sv)) hint
       (map entry_template (filter rn_is_template (sv_resources sv)))"
  by (intro ext) (simp add: ask_server_def handle_list_resource_templates_def listing_answer)

lemma prompts_asked:
  "may_list sv r ''prompts/list'' hint \<Longrightarrow> ask_server handle_list_prompts sv r =
     listed_value serialize_list_prompts_result (so_etag_cache (sv_options sv)) hint (map entry_prompt (sv_prompts sv))"
  using listing_answer [where P = "\<lambda>_. True" and es = "sv_prompts sv" and serialize = serialize_list_prompts_result
    and f = entry_prompt and sv = sv and r = r and listing = "''prompts/list''" and hint = hint]
  by (intro ext) (simp add: ask_server_def handle_list_prompts_def)

text \<open>C13: A client that lists the resources of a server page by page gets all of them, each once and in the order of their
  registration, as long as there are no more than 64 pages; beyond that it gets an error, never a part of the list.\<close>

theorem client_lists_resources:
  assumes "may_list sv r ''resources/list'' hint"
  defines "entries \<equiv> map (\<lambda>e. serialize_resource (entry_resource e)) (filter (\<lambda>e. \<not> rn_is_template e) (sv_resources sv))"
  shows "if length entries \<le> max_list_pages * default_page_size
    then \<exists>first. list_pages (ask_server handle_list_resources sv r) ''resources'' None = Inr (merged_result ''resources'' entries first)
    else list_pages (ask_server handle_list_resources sv r) ''resources'' None =
      throw ProtocolViolation (''list pagination did not converge within '' @ dec_nat max_list_pages @ '' pages'')"
  using resource_pages.lists_all [of "map entry_resource (filter (\<lambda>e. \<not> rn_is_template e) (sv_resources sv))"]
    resource_pages.too_many [of "map entry_resource (filter (\<lambda>e. \<not> rn_is_template e) (sv_resources sv))"]
  by (auto simp: resources_asked [OF assms(1)] entries_def comp_def not_le)

lemma client_lists_templates:
  assumes "may_list sv r ''resources/templates/list'' hint"
    "length (filter rn_is_template (sv_resources sv)) \<le> max_list_pages * default_page_size"
  shows "\<exists>first. list_pages (ask_server handle_list_resource_templates sv r) ''resourceTemplates'' None =
    Inr (merged_result ''resourceTemplates'' (map (\<lambda>e. serialize_resource_template (entry_template e))
      (filter rn_is_template (sv_resources sv))) first)"
  using template_pages.lists_all [of "map entry_template (filter rn_is_template (sv_resources sv))"] assms(2)
  by (simp add: templates_asked [OF assms(1)] comp_def)

lemma client_lists_prompts:
  assumes "may_list sv r ''prompts/list'' hint" "length (sv_prompts sv) \<le> max_list_pages * default_page_size"
  shows "\<exists>first. list_pages (ask_server handle_list_prompts sv r) ''prompts'' None =
    Inr (merged_result ''prompts'' (map (\<lambda>e. serialize_prompt (entry_prompt e)) (sv_prompts sv)) first)"
  using prompt_pages.lists_all [of "map entry_prompt (sv_prompts sv)"] assms(2)
  by (simp add: prompts_asked [OF assms(1)] comp_def)

definition open_server :: server where
  "open_server = shared_server\<lparr>sv_initialized := True,
     sv_resources := [\<lparr>rn_name = ''readme'', rn_uri_pattern = ''file:///readme'', rn_is_template = False, rn_description = None,
       rn_title = None, rn_mime_type = None, rn_icons = [], rn_handler = None, rn_template_handler = None\<rparr>]\<rparr>"

lemma client_lists_resources_witness:
  "\<exists>first. list_pages (ask_server handle_list_resources open_server (sample_request\<lparr>rq_session := []\<rparr>)) ''resources'' None =
     Inr (merged_result ''resources'' (map (\<lambda>e. serialize_resource (entry_resource e)) (sv_resources open_server)) first)"
proof -
  have "version_for (sv_handler open_server) [] = []"
    by (simp add: open_server_def shared_server_def new_server_def derive_capabilities_def wire_handlers_def Let_def
        new_handler_def plain_options_def set_supported_protocol_versions_def version_for_def default_version_def)
  moreover have "\<not> is_modern_protocol_version []" by code_simp
  moreover have "sv_cache_hook open_server = None" "so_cache_hints (sv_options open_server) = None"
    by (simp_all add: open_server_def shared_server_def new_server_def derive_capabilities_def wire_handlers_def Let_def
        plain_options_def)
  ultimately have "may_list open_server (sample_request\<lparr>rq_session := []\<rparr>) ''resources/list'' no_cache_hint"
    by (simp add: may_list_def is_session_initialized_def resolve_cache_hint_def is_modern_session_def Let_def)
      (simp add: open_server_def)
  from client_lists_resources [OF this] show ?thesis
    by (simp add: open_server_def default_page_size_def max_list_pages_def)
qed

end
