(* ===== verification/Dpop.thy ===== *)
theory Dpop
  imports Request_State Param_Headers Sorted_Maps Json_Rpc
begin

text \<open>
  Proofs of possession (\<open>src/ext/DPoP.cpp\<close>, \<open>include/mcp/ext/DPoP.hpp\<close>), as a build with OpenSSL makes and checks
  them.  The elliptic curve arithmetic and the random bytes are OpenSSL's: \<open>ec_sign\<close> signs a digest with a private
  scalar of 32 bytes, \<open>ec_verify\<close> checks the 64 bytes of a signature against the coordinates of a public key, and the
  random bytes of an identifier are an argument.  Times are seconds in \<open>int64_t\<close>; their differences wrap around.
\<close>

section \<open>Text of a proof\<close>

definition upper_hex_char :: "nat \<Rightarrow> char" where
  "upper_hex_char v = (if v < 10 then chr (48 + v) else chr (55 + v))"

definition dpop_escape_char :: "char \<Rightarrow> string" where
  "dpop_escape_char c =
     (if c = dquote then [backslash, dquote]
      else if c = backslash then [backslash, backslash]
      else if c = chr 8 then [backslash, CHR ''b'']
      else if c = chr 12 then [backslash, CHR ''f'']
      else if c = chr 10 then [backslash, CHR ''n'']
      else if c = chr 13 then [backslash, CHR ''r'']
      else if c = chr 9 then [backslash, CHR ''t'']
      else if byte_of c < 0x20 then
        [backslash, CHR ''u'', CHR ''0'', CHR ''0'', upper_hex_char (byte_of c div 16), upper_hex_char (byte_of c mod 16)]
      else [c])"

definition dpop_escape_json :: "string \<Rightarrow> string" where
  "dpop_escape_json input = concat (map dpop_escape_char input)"

definition dpop_sha256_base64url :: "string \<Rightarrow> string" where
  "dpop_sha256_base64url input = base64url_encode (sha256_hash input)"

text \<open>A string between quotation marks, as the literals of the source hold them.\<close>

definition quoted :: "string \<Rightarrow> string" where
  "quoted s = dquote # s @ [dquote]"

definition dpop_thumbprint_json :: "string \<Rightarrow> string \<Rightarrow> string" where
  "dpop_thumbprint_json x y =
     ''{'' @ quoted ''crv'' @ '':'' @ quoted ''P-256'' @ '','' @ quoted ''kty'' @ '':'' @ quoted ''EC'' @ '','' @
     quoted ''x'' @ '':'' @ quoted (dpop_escape_json x) @ '','' @
     quoted ''y'' @ '':'' @ quoted (dpop_escape_json y) @ ''}''"

definition compute_thumbprint :: "string \<Rightarrow> string \<Rightarrow> string mres" where
  "compute_thumbprint x y =
     (if x = [] \<or> y = [] then throw InvalidParams ''DPoP thumbprint requires x and y''
      else Inr (dpop_sha256_base64url (dpop_thumbprint_json x y)))"

record ec_jwk =
  jk_x :: string
  jk_y :: string
  jk_d :: string

definition public_jwk_json :: "ec_jwk \<Rightarrow> string" where
  "public_jwk_json key =
     ''{'' @ quoted ''crv'' @ '':'' @ quoted ''P-256'' @ '','' @ quoted ''kty'' @ '':'' @ quoted ''EC'' @ '','' @
     quoted ''x'' @ '':'' @ quoted (dpop_escape_json (jk_x key)) @ '','' @
     quoted ''y'' @ '':'' @ quoted (dpop_escape_json (jk_y key)) @ ''}''"

section \<open>Freshness and replays\<close>

definition is_nonce_fresh :: "i64 \<Rightarrow> i64 \<Rightarrow> i64 \<Rightarrow> bool" where
  "is_nonce_fresh iat now window =
     (if sint window < 0 then False
      else if sint now < sint iat then False
      else sint (now - iat) \<le> sint window)"

record jti_cache =
  jc_window :: i64
  jc_seen :: "(string, i64) amap"

definition new_jti_cache :: "i64 \<Rightarrow> jti_cache" where
  "new_jti_cache window = \<lparr>jc_window = (if sint window < 0 then 0 else window), jc_seen = []\<rparr>"

definition check_and_store :: "string \<Rightarrow> i64 \<Rightarrow> i64 \<Rightarrow> jti_cache \<Rightarrow> jti_cache \<times> bool" where
  "check_and_store jti iat now cache =
     (if jti = [] then (cache, False)
      else (let seen = filter (\<lambda>(k, t). \<not> sint (jc_window cache) < sint (now - t)) (jc_seen cache)
            in if amap_find jti seen \<noteq> None then (cache\<lparr>jc_seen := seen\<rparr>, False)
               else (cache\<lparr>jc_seen := amap_put jti iat seen\<rparr>, True)))"

definition clear_jti_cache :: "jti_cache \<Rightarrow> jti_cache" where
  "clear_jti_cache cache = cache\<lparr>jc_seen := []\<rparr>"

text \<open>\<open>GenerateNonce\<close>: the number of random bytes it asks for, and the nonce it makes of them (\<open>RAND_bytes\<close> may fail).\<close>

definition nonce_bytes :: "nat \<Rightarrow> nat" where
  "nonce_bytes n = (if n = 0 then 16 else if 64 < n then 64 else n)"

definition generate_nonce :: "(nat \<Rightarrow> string option) \<Rightarrow> nat \<Rightarrow> string mres" where
  "generate_nonce rand_bytes n =
     (case rand_bytes (nonce_bytes n) of
        None \<Rightarrow> throw InternalError ''DPoP nonce generation failed''
      | Some raw \<Rightarrow> Inr (base64url_encode raw))"

section \<open>Making a proof\<close>

definition proof_header :: "ec_jwk \<Rightarrow> string" where
  "proof_header key =
     ''{'' @ quoted ''alg'' @ '':'' @ quoted ''ES256'' @ '','' @ quoted ''jwk'' @ '':'' @ public_jwk_json key @ '','' @
     quoted ''typ'' @ '':'' @ quoted ''dpop+jwt'' @ ''}''"

definition given :: "string option \<Rightarrow> bool" where
  "given s \<longleftrightarrow> s \<noteq> None \<and> s \<noteq> Some []"

definition proof_payload :: "string \<Rightarrow> string \<Rightarrow> i64 \<Rightarrow> string \<Rightarrow> string option \<Rightarrow> string option \<Rightarrow> string" where
  "proof_payload htm htu iat jti access_token nonce =
     ''{'' @ quoted ''htm'' @ '':'' @ quoted (dpop_escape_json htm) @ '','' @
     quoted ''htu'' @ '':'' @ quoted (dpop_escape_json htu) @ '','' @
     quoted ''iat'' @ '':'' @ dec_int (sint iat) @ '','' @
     quoted ''jti'' @ '':'' @ quoted jti @
     (if given access_token then '','' @ quoted ''ath'' @ '':'' @ quoted (dpop_sha256_base64url (the access_token)) else []) @
     (if given nonce then '','' @ quoted ''nonce'' @ '':'' @ quoted (dpop_escape_json (the nonce)) else []) @ ''}''"

definition dpop_sign_es256_raw :: "(string \<Rightarrow> string \<Rightarrow> string option) \<Rightarrow> string \<Rightarrow> string \<Rightarrow> string mres" where
  "dpop_sign_es256_raw ec_sign scalar signing_input =
     (if scalar = [] \<or> signing_input = [] then throw InvalidParams ''ES256 signing requires key and input''
      else (case ec_sign scalar (sha256_hash signing_input) of
              None \<Rightarrow> throw InternalError ''ES256 signing failed''
            | Some sig \<Rightarrow> Inr sig))"

definition create_proof ::
  "(string \<Rightarrow> string \<Rightarrow> string option) \<Rightarrow> (nat \<Rightarrow> string option) \<Rightarrow> i64 \<Rightarrow> ec_jwk \<Rightarrow> string \<Rightarrow> string \<Rightarrow>
   string option \<Rightarrow> string option \<Rightarrow> i64 option \<Rightarrow> string mres" where
  "create_proof ec_sign rand_bytes clock key htm htu access_token nonce iat_override =
     (if jk_x key = [] \<or> jk_y key = [] \<or> jk_d key = [] then
        throw InvalidParams ''DPoP proof requires a complete EC key''
      else if htm = [] \<or> htu = [] then throw InvalidParams ''DPoP proof requires htm and htu''
      else (case base64url_decode (jk_d key) of
              None \<Rightarrow> throw InvalidParams ''DPoP key material invalid''
            | Some scalar \<Rightarrow>
                if length scalar \<noteq> 32 then throw InvalidParams ''DPoP key material invalid''
                else (case rand_bytes 16 of
                        None \<Rightarrow> throw InternalError ''DPoP random generation failed''
                      | Some raw \<Rightarrow>
                          (let iat = (case iat_override of Some t \<Rightarrow> t | None \<Rightarrow> clock);
                               payload = proof_payload htm htu iat (base64url_encode raw) access_token nonce;
                               signing_input = base64url_encode (proof_header key) @ ''.'' @ base64url_encode payload
                           in rmap (\<lambda>sig. signing_input @ ''.'' @ base64url_encode sig)
                                (dpop_sign_es256_raw ec_sign scalar signing_input)))))"

section \<open>Checking a proof\<close>

record dpop_options =
  dv_htm :: string
  dv_htu :: string
  dv_access_token :: string
  dv_alternate_htu :: "string option"
  dv_expected_nonce :: "string option"
  dv_window :: i64
  dv_now :: i64

definition strip_htu_suffix :: "string \<Rightarrow> string" where
  "strip_htu_suffix htu = takeWhile (\<lambda>c. c \<noteq> CHR ''?'' \<and> c \<noteq> CHR ''#'') htu"

definition require_string_field :: "json \<Rightarrow> string \<Rightarrow> string option" where
  "require_string_field obj key = (case json_find key obj of Some (JString s) \<Rightarrow> Some s | _ \<Rightarrow> None)"

text \<open>The three segments of a proof: two dots, and nothing empty.\<close>

definition proof_segments :: "string \<Rightarrow> (string \<times> string \<times> string) option" where
  "proof_segments proof =
     (case split_dot proof of
        None \<Rightarrow> None
      | Some (header, rest) \<Rightarrow>
          if header = [] then None
          else (case split_dot rest of
                  None \<Rightarrow> None
                | Some (payload, sig) \<Rightarrow>
                    if payload = [] \<or> CHR ''.'' \<in> set sig \<or> sig = [] then None else Some (header, payload, sig)))"

text \<open>The public key of an acceptable header.\<close>

definition header_key :: "json \<Rightarrow> (string \<times> string) option" where
  "header_key header =
     (if \<not> is_object header \<or> require_string_field header ''alg'' \<noteq> Some ''ES256'' then None
      else if map_option to_lower (require_string_field header ''typ'') \<noteq> Some ''dpop+jwt'' then None
      else (case json_find ''jwk'' header of
              Some (JObject m) \<Rightarrow>
                (case (require_string_field (JObject m) ''kty'', require_string_field (JObject m) ''crv'',
                       require_string_field (JObject m) ''x'', require_string_field (JObject m) ''y'') of
                   (Some kty, Some crv, Some x, Some y) \<Rightarrow>
                     if kty \<noteq> ''EC'' \<or> crv \<noteq> ''P-256'' \<or> x = [] \<or> y = [] \<or> json_find ''d'' (JObject m) \<noteq> None
                     then None else Some (x, y)
                 | _ \<Rightarrow> None)
            | _ \<Rightarrow> None))"

definition htu_matches :: "dpop_options \<Rightarrow> string \<Rightarrow> bool" where
  "htu_matches opts htu =
     (let bearing = strip_htu_suffix htu; expected = strip_htu_suffix (dv_htu opts)
      in if expected \<noteq> [] \<and> bearing = expected then True
         else (case dv_alternate_htu opts of
                 Some alt \<Rightarrow> alt \<noteq> [] \<and> bearing = strip_htu_suffix alt
               | None \<Rightarrow> False))"

definition nonce_matches :: "dpop_options \<Rightarrow> json option \<Rightarrow> bool" where
  "nonce_matches opts nonce =
     (case nonce of
        None \<Rightarrow> True
      | Some (JString s) \<Rightarrow>
          (case dv_expected_nonce opts of Some e \<Rightarrow> e = [] \<or> s = e | None \<Rightarrow> True)
      | Some _ \<Rightarrow> False)"

text \<open>The identifier and the time of issue of an acceptable payload.\<close>

definition payload_claims :: "dpop_options \<Rightarrow> i64 \<Rightarrow> json \<Rightarrow> (string \<times> i64) option" where
  "payload_claims opts now payload =
     (if \<not> is_object payload \<or> require_string_field payload ''htm'' \<noteq> Some (dv_htm opts) then None
      else (case require_string_field payload ''htu'' of
              None \<Rightarrow> None
            | Some htu \<Rightarrow>
                if htu = [] \<or> \<not> htu_matches opts htu then None
                else (case json_find ''iat'' payload of
                        Some (JInt iat) \<Rightarrow>
                          if \<not> is_nonce_fresh iat now (dv_window opts) then None
                          else (case require_string_field payload ''jti'' of
                                  None \<Rightarrow> None
                                | Some jti \<Rightarrow>
                                    if jti = [] \<or>
                                       require_string_field payload ''ath'' \<noteq>
                                         Some (dpop_sha256_base64url (dv_access_token opts)) \<or>
                                       \<not> nonce_matches opts (json_find ''nonce'' payload) then None
                                    else Some (jti, iat))
                      | _ \<Rightarrow> None)))"

definition decoded_32 :: "string \<Rightarrow> string option" where
  "decoded_32 s = (case base64url_decode s of Some raw \<Rightarrow> if length raw = 32 then Some raw else None | None \<Rightarrow> None)"

text \<open>Everything \<open>VerifyProof\<close> checks before it asks the replay cache.\<close>

definition proof_claims ::
  "(string \<Rightarrow> string \<Rightarrow> string \<Rightarrow> string \<Rightarrow> bool) \<Rightarrow> dpop_options \<Rightarrow> i64 \<Rightarrow> string \<Rightarrow> (string \<times> i64) option" where
  "proof_claims ec_verify opts now proof =
     (if dv_htm opts = [] \<or> dv_htu opts = [] \<or> dv_access_token opts = [] \<or> sint (dv_window opts) < 0 then None
      else (case proof_segments proof of
              None \<Rightarrow> None
            | Some (header_seg, payload_seg, sig_seg) \<Rightarrow>
                (case (base64url_decode header_seg, base64url_decode payload_seg, base64url_decode sig_seg) of
                   (Some header_raw, Some payload_raw, Some sig_raw) \<Rightarrow>
                     if length sig_raw \<noteq> 64 then None
                     else (case (parse_document header_raw, parse_document payload_raw) of
                             (Inr header, Inr payload) \<Rightarrow>
                               (case (header_key header, payload_claims opts now payload) of
                                  (Some (x, y), Some (jti, iat)) \<Rightarrow>
                                    (case (decoded_32 x, decoded_32 y) of
                                       (Some x_raw, Some y_raw) \<Rightarrow>
                                         if ec_verify x_raw y_raw (sha256_hash (header_seg @ ''.'' @ payload_seg)) sig_raw
                                         then Some (jti, iat) else None
                                     | _ \<Rightarrow> None)
                                | _ \<Rightarrow> None)
                           | _ \<Rightarrow> None)
                 | _ \<Rightarrow> None)))"

definition proof_time :: "i64 \<Rightarrow> dpop_options \<Rightarrow> i64" where
  "proof_time clock opts = (if dv_now opts \<noteq> 0 then dv_now opts else clock)"

definition verify_proof ::
  "(string \<Rightarrow> string \<Rightarrow> string \<Rightarrow> string \<Rightarrow> bool) \<Rightarrow> i64 \<Rightarrow> string \<Rightarrow> dpop_options \<Rightarrow> jti_cache \<Rightarrow> jti_cache \<times> bool" where
  "verify_proof ec_verify clock proof opts replay =
     (case proof_claims ec_verify opts (proof_time clock opts) proof of
        None \<Rightarrow> (replay, False)
      | Some (jti, iat) \<Rightarrow> check_and_store jti iat (proof_time clock opts) replay)"

section \<open>A proof is accepted once\<close>

definition check_proofs ::
  "(string \<Rightarrow> string \<Rightarrow> string \<Rightarrow> string \<Rightarrow> bool) \<Rightarrow> (i64 \<times> string \<times> dpop_options) list \<Rightarrow> jti_cache \<Rightarrow> jti_cache" where
  "check_proofs ec_verify calls cache =
     fold (\<lambda>(clock, proof, opts) c. fst (verify_proof ec_verify clock proof opts c)) calls cache"

definition jti_cache_ok :: "i64 \<Rightarrow> jti_cache \<Rightarrow> bool" where
  "jti_cache_ok w cache \<longleftrightarrow> amap_ok (jc_seen cache) \<and> jc_window cache = w"

lemma check_and_store_ok: "jti_cache_ok w cache \<Longrightarrow> jti_cache_ok w (fst (check_and_store jti iat now cache))"
  by (auto simp: check_and_store_def jti_cache_ok_def Let_def amap_filter_ok)

lemma verify_proof_ok: "jti_cache_ok w cache \<Longrightarrow> jti_cache_ok w (fst (verify_proof ec_verify clock proof opts cache))"
  by (auto simp: verify_proof_def check_and_store_ok split: option.split)

lemma check_proofs_ok: "jti_cache_ok w cache \<Longrightarrow> jti_cache_ok w (check_proofs ec_verify calls cache)"
  unfolding check_proofs_def by (induction calls arbitrary: cache) (auto simp: verify_proof_ok)

lemma claims_unique:
  "proof_claims ec_verify opts now proof = Some a \<Longrightarrow> proof_claims ec_verify opts' now' proof = Some b \<Longrightarrow> a = b"
  by (auto simp: proof_claims_def payload_claims_def split: option.splits prod.splits sum.splits if_splits json.splits)

lemma claims_fresh:
  "proof_claims ec_verify opts now proof = Some (jti, iat) \<Longrightarrow>
     jti \<noteq> [] \<and> 0 \<le> sint (dv_window opts) \<and> sint iat \<le> sint now \<and> sint (now - iat) \<le> sint (dv_window opts)"
  by (auto simp: proof_claims_def payload_claims_def is_nonce_fresh_def
      split: option.splits prod.splits sum.splits if_splits json.splits)

lemma sint_diff:
  fixes a b :: i64
  assumes "0 \<le> sint a" "sint a < 2 ^ 62" "sint b \<le> sint a"
  shows "sint (a - b) = (if sint a - sint b < 2 ^ 63 then sint a - sint b else sint a - sint b - 2 ^ 64)"
proof -
  have b: "- (2 ^ 63) \<le> sint b" using sint_ge [of b] by simp
  have "sint (a - b) = signed_take_bit 63 (sint a - sint b)"
    by (simp add: sint_word_ariths(2))
  also have "\<dots> = (sint a - sint b + 2 ^ 63) mod 2 ^ 64 - 2 ^ 63"
    by (simp add: signed_take_bit_eq_take_bit_shift take_bit_eq_mod)
  also have "\<dots> = (if sint a - sint b < 2 ^ 63 then sint a - sint b else sint a - sint b - 2 ^ 64)"
  proof (cases "sint a - sint b < 2 ^ 63")
    case True
    then show ?thesis using assms by (simp add: mod_pos_pos_trivial)
  next
    case False
    then have "(sint a - sint b + 2 ^ 63) mod 2 ^ 64 = (sint a - sint b + 2 ^ 63 - 2 ^ 64) mod 2 ^ 64"
      using minus_mod_self2 [of "sint a - sint b + 2 ^ 63" "2 ^ 64"] by simp
    also have "\<dots> = sint a - sint b + 2 ^ 63 - 2 ^ 64"
      using False assms b by (intro mod_pos_pos_trivial) simp_all
    finally show ?thesis using False by simp
  qed
  finally show ?thesis .
qed

text \<open>What a check forgets at a later time is too old for every check after it.\<close>

lemma stale_later:
  fixes iat t0 t t' w :: i64
  assumes "0 \<le> sint t0" "sint t0 \<le> sint t" "sint t \<le> sint t'" "sint t' < 2 ^ 62" "sint iat \<le> sint t0"
    "sint (t0 - iat) \<le> sint w" "0 \<le> sint w" "sint w < 2 ^ 62" "sint w < sint (t - iat)"
  shows "sint w < sint (t' - iat)"
  using assms sint_diff [of t0 iat] sint_diff [of t iat] sint_diff [of t' iat] by (simp split: if_splits)

definition remembered :: "string \<Rightarrow> i64 \<Rightarrow> i64 \<Rightarrow> i64 \<Rightarrow> jti_cache \<Rightarrow> bool" where
  "remembered jti iat w t' cache \<longleftrightarrow> amap_find jti (jc_seen cache) = Some iat \<or> sint w < sint (t' - iat)"

lemma seen_filtered:
  "jti_cache_ok w cache \<Longrightarrow> amap_find k (filter (\<lambda>(k, t). \<not> sint w < sint (now - t)) (jc_seen cache)) =
     (case amap_find k (jc_seen cache) of None \<Rightarrow> None | Some t \<Rightarrow> if sint w < sint (now - t) then None else Some t)"
  by (simp add: amap_find_filtered jti_cache_ok_def split: option.split)

lemma check_and_store_remembers:
  assumes "jti_cache_ok w cache" "remembered jti iat w t' cache" "sint w < sint (now - iat) \<Longrightarrow> sint w < sint (t' - iat)"
  shows "remembered jti iat w t' (fst (check_and_store k i now cache))"
proof -
  have w: "jc_window cache = w" using assms(1) by (simp add: jti_cache_ok_def)
  from assms show ?thesis
    by (auto simp: check_and_store_def remembered_def Let_def w seen_filtered split: option.splits if_splits)
qed

lemma verify_proof_remembers:
  assumes "jti_cache_ok w cache" "remembered jti iat w t' cache"
    "sint w < sint (proof_time clock opts - iat) \<Longrightarrow> sint w < sint (t' - iat)"
  shows "remembered jti iat w t' (fst (verify_proof ec_verify clock p opts cache))"
  using assms(2) check_and_store_remembers [OF assms]
  by (simp add: verify_proof_def split: option.split)

lemma check_proofs_remembers:
  assumes "jti_cache_ok w cache" "remembered jti iat w t' cache"
    "\<And>clock p opts. (clock, p, opts) \<in> set calls \<Longrightarrow>
       sint w < sint (proof_time clock opts - iat) \<Longrightarrow> sint w < sint (t' - iat)"
  shows "remembered jti iat w t' (check_proofs ec_verify calls cache)"
  using assms
proof (induction calls arbitrary: cache)
  case (Cons call calls)
  obtain clock p opts where call: "call = (clock, p, opts)" by (metis prod_cases3)
  have "remembered jti iat w t' (fst (verify_proof ec_verify clock p opts cache))"
    using Cons.prems by (intro verify_proof_remembers) (auto simp: call)
  with verify_proof_ok [OF Cons.prems(1)]
  have "remembered jti iat w t' (check_proofs ec_verify calls (fst (verify_proof ec_verify clock p opts cache)))"
    by (rule Cons.IH) (rule Cons.prems(3), auto)
  then show ?case by (simp add: check_proofs_def call)
qed (simp add: check_proofs_def)

lemma accepted_claims:
  "snd (verify_proof ec_verify clock proof opts c) \<Longrightarrow>
     \<exists>jti iat. proof_claims ec_verify opts (proof_time clock opts) proof = Some (jti, iat) \<and>
       snd (check_and_store jti iat (proof_time clock opts) c)"
  by (simp add: verify_proof_def split: option.splits prod.splits)

lemma accepted_stored:
  "snd (verify_proof ec_verify clock proof opts c) \<Longrightarrow>
     \<exists>jti iat. proof_claims ec_verify opts (proof_time clock opts) proof = Some (jti, iat) \<and>
       amap_find jti (jc_seen (fst (verify_proof ec_verify clock proof opts c))) = Some iat"
  by (auto simp: verify_proof_def check_and_store_def Let_def split: option.splits prod.splits if_splits)

lemma seen_rejected:
  "jti_cache_ok w c \<Longrightarrow> amap_find jti (jc_seen c) = Some iat \<Longrightarrow> \<not> sint w < sint (now - iat) \<Longrightarrow>
     \<not> snd (check_and_store jti iat now c)"
  using seen_filtered [of w c jti now] by (simp add: check_and_store_def Let_def jti_cache_ok_def)

section \<open>What an accepted proof says\<close>

text \<open>The payload that a key signs with the method, the URI and the token of the request.\<close>

definition signs_request ::
  "(string \<Rightarrow> string \<Rightarrow> string \<Rightarrow> string \<Rightarrow> bool) \<Rightarrow> dpop_options \<Rightarrow> string \<Rightarrow> bool" where
  "signs_request ec_verify opts proof \<longleftrightarrow>
     (\<exists>header payload x y sig htu claims.
        proof = header @ ''.'' @ payload @ ''.'' @ sig \<and>
        ec_verify x y (sha256_hash (header @ ''.'' @ payload)) (the (base64url_decode sig)) \<and>
        parse_document (the (base64url_decode payload)) = Inr claims \<and>
        require_string_field claims ''htm'' = Some (dv_htm opts) \<and>
        require_string_field claims ''htu'' = Some htu \<and>
        strip_htu_suffix htu \<in> strip_htu_suffix ` ({dv_htu opts} \<union> set_option (dv_alternate_htu opts)) \<and>
        require_string_field claims ''ath'' = Some (dpop_sha256_base64url (dv_access_token opts)))"

lemma segments_split: "proof_segments proof = Some (h, p, s) \<Longrightarrow> proof = h @ ''.'' @ p @ ''.'' @ s"
  by (auto simp: proof_segments_def split: option.splits prod.splits if_splits dest!: split_dot_Some)

lemma htu_matches_in:
  "htu_matches opts htu \<Longrightarrow>
     strip_htu_suffix htu \<in> strip_htu_suffix ` ({dv_htu opts} \<union> set_option (dv_alternate_htu opts))"
  by (auto simp: htu_matches_def Let_def split: if_splits option.splits)

lemma payload_claims_fields:
  "payload_claims opts now payload = Some (jti, iat) \<Longrightarrow>
     require_string_field payload ''htm'' = Some (dv_htm opts) \<and>
     require_string_field payload ''ath'' = Some (dpop_sha256_base64url (dv_access_token opts)) \<and>
     (\<exists>htu. require_string_field payload ''htu'' = Some htu \<and> htu_matches opts htu)"
  by (auto simp: payload_claims_def split: option.splits if_splits json.splits)

lemma accepted_proof_signed:
  assumes "snd (verify_proof ec_verify clock proof opts replay)"
  shows "signs_request ec_verify opts proof"
proof -
  obtain jti iat where "proof_claims ec_verify opts (proof_time clock opts) proof = Some (jti, iat)"
    using accepted_claims [OF assms] by blast
  then obtain h p s sig header payload x y where parts: "proof_segments proof = Some (h, p, s)" "base64url_decode s = Some sig"
      "parse_document (the (base64url_decode p)) = Inr payload"
      "payload_claims opts (proof_time clock opts) payload = Some (jti, iat)"
      "ec_verify x y (sha256_hash (h @ ''.'' @ p)) sig"
    by (auto simp: proof_claims_def split: option.splits prod.splits sum.splits if_splits)
  with segments_split [OF parts(1)] payload_claims_fields [OF parts(4)] htu_matches_in show ?thesis
    unfolding signs_request_def by (metis option.sel)
qed

section \<open>A proof that was made is accepted\<close>

text \<open>Text without control characters is escaped as \<open>JsonValue::Dump\<close> escapes it.\<close>

definition plain_text :: "string \<Rightarrow> bool" where
  "plain_text s \<longleftrightarrow> utf8_valid s \<and> list_all (\<lambda>c. 32 \<le> byte_of c) s"

lemma escape_plain_char: "32 \<le> byte_of c \<Longrightarrow> dpop_escape_char c = escape_char c"
  by (auto simp: dpop_escape_char_def escape_char_def)

lemma escape_plain: "list_all (\<lambda>c. 32 \<le> byte_of c) s \<Longrightarrow> quoted (dpop_escape_json s) = append_escaped_string s"
  by (induction s) (simp_all add: quoted_def dpop_escape_json_def append_escaped_string_def escape_string_def escape_plain_char)

lemma base64_digit_byte: "base64_value c \<noteq> None \<Longrightarrow> 45 \<le> byte_of c \<and> byte_of c < 128 \<and> byte_of c \<noteq> 92"
  by (auto simp: base64_value_def Let_def char_bytes split: if_splits)

lemma encoded_digits: "c \<in> set (base64url_encode s) \<Longrightarrow> base64_value c \<noteq> None"
  using base64url_roundtrip [of s] decoded_digits by (auto simp: base64url_decode_def)

lemma encoded_plain: "plain_text (base64url_encode s)"
proof -
  have "45 \<le> byte_of c \<and> byte_of c < 128" if "c \<in> set (base64url_encode s)" for c
    using base64_digit_byte [OF encoded_digits [OF that]] by simp
  then show ?thesis by (fastforce simp: plain_text_def list_all_iff intro!: utf8_ascii)
qed

lemma escape_id: "list_all (\<lambda>c. 45 \<le> byte_of c \<and> byte_of c \<noteq> 92) s \<Longrightarrow> escape_string s = s"
proof (induction s)
  case (Cons c s)
  then have "c \<noteq> dquote" "c \<noteq> backslash" by (auto simp flip: byte_of_inject)
  moreover have "c \<noteq> chr n" if "n < 45" for n using Cons.prems that by (auto simp flip: byte_of_inject)
  ultimately show ?case using Cons by (simp add: escape_string_def escape_char_def)
qed (simp add: escape_string_def)

lemma encoded_quoted: "quoted (base64url_encode s) = append_escaped_string (base64url_encode s)"
proof -
  have "list_all (\<lambda>c. 45 \<le> byte_of c \<and> byte_of c \<noteq> 92) (base64url_encode s)"
    using base64_digit_byte [OF encoded_digits] by (auto simp: list_all_iff)
  then show ?thesis by (simp add: quoted_def append_escaped_string_def escape_id)
qed

lemma quoted_literals:
  "quoted ''crv'' = append_escaped_string ''crv''" "quoted ''P-256'' = append_escaped_string ''P-256''"
  "quoted ''kty'' = append_escaped_string ''kty''" "quoted ''EC'' = append_escaped_string ''EC''"
  "quoted ''x'' = append_escaped_string ''x''" "quoted ''y'' = append_escaped_string ''y''"
  "quoted ''alg'' = append_escaped_string ''alg''" "quoted ''ES256'' = append_escaped_string ''ES256''"
  "quoted ''jwk'' = append_escaped_string ''jwk''" "quoted ''typ'' = append_escaped_string ''typ''"
  "quoted ''htm'' = append_escaped_string ''htm''" "quoted ''htu'' = append_escaped_string ''htu''"
  "quoted ''iat'' = append_escaped_string ''iat''" "quoted ''jti'' = append_escaped_string ''jti''"
  "quoted ''ath'' = append_escaped_string ''ath''" "quoted ''nonce'' = append_escaped_string ''nonce''"
  "quoted ''dpop+jwt'' = append_escaped_string ''dpop+jwt''"
  by (code_simp)+

section \<open>Reading the texts back\<close>

lemma header_dump:
  assumes "plain_text (jk_x key)" "plain_text (jk_y key)"
  shows "proof_header key = dump (- 1) (JObject [(''alg'', JString ''ES256''),
    (''jwk'', JObject [(''crv'', JString ''P-256''), (''kty'', JString ''EC''), (''x'', JString (jk_x key)),
      (''y'', JString (jk_y key))]), (''typ'', JString ''dpop+jwt'')])"
  using assms by (simp add: proof_header_def public_jwk_json_def plain_text_def escape_plain quoted_literals dump_def)

definition payload_members :: "string \<Rightarrow> string \<Rightarrow> i64 \<Rightarrow> string \<Rightarrow> string option \<Rightarrow> string option \<Rightarrow> members" where
  "payload_members htm htu iat jti access_token nonce =
     [(''htm'', JString htm), (''htu'', JString htu), (''iat'', JInt iat), (''jti'', JString jti)] @
     (if given access_token then [(''ath'', JString (dpop_sha256_base64url (the access_token)))] else []) @
     (if given nonce then [(''nonce'', JString (the nonce))] else [])"

lemma payload_dump:
  assumes "plain_text htm" "plain_text htu" "given nonce \<longrightarrow> plain_text (the nonce)"
  shows "proof_payload htm htu iat (base64url_encode raw) access_token nonce =
    ''{'' @ dump_members (- 1) 0 (payload_members htm htu iat (base64url_encode raw) access_token nonce) @ ''}''"
  using assms
  by (simp add: proof_payload_def payload_members_def plain_text_def escape_plain quoted_literals encoded_quoted
      dpop_sha256_base64url_def)

lemma header_key_of_parsed:
  "x \<noteq> [] \<Longrightarrow> y \<noteq> [] \<Longrightarrow> header_key (JObject [(''alg'', JString ''ES256''),
    (''jwk'', JObject [(''crv'', JString ''P-256''), (''kty'', JString ''EC''), (''x'', JString x), (''y'', JString y)]),
    (''typ'', JString ''dpop+jwt'')]) = Some (x, y)"
proof -
  have "to_lower ''dpop+jwt'' = ''dpop+jwt''" by code_simp
  then show "x \<noteq> [] \<Longrightarrow> y \<noteq> [] \<Longrightarrow> ?thesis" by (simp add: header_key_def require_string_field_def)
qed

lemma proof_literals:
  "utf8_valid ''alg''" "utf8_valid ''jwk''" "utf8_valid ''typ''" "utf8_valid ''ES256''" "utf8_valid ''crv''"
  "utf8_valid ''P-256''" "utf8_valid ''kty''" "utf8_valid ''EC''" "utf8_valid ''x''" "utf8_valid ''y''"
  "utf8_valid ''dpop+jwt''" "utf8_valid ''htm''" "utf8_valid ''htu''" "utf8_valid ''iat''" "utf8_valid ''jti''"
  "utf8_valid ''ath''" "utf8_valid ''nonce''"
  by (rule utf8_ascii, simp add: byte_of_def)+

lemma header_read:
  assumes "plain_text (jk_x key)" "plain_text (jk_y key)"
  shows "parse_document (proof_header key) = Inr (JObject [(''alg'', JString ''ES256''),
    (''jwk'', JObject [(''crv'', JString ''P-256''), (''kty'', JString ''EC''), (''x'', JString (jk_x key)),
      (''y'', JString (jk_y key))]), (''typ'', JString ''dpop+jwt'')])"
  unfolding header_dump [OF assms] using assms
  by (intro parse_document_dump) (simp_all add: plain_text_def proof_literals max_depth_def amap_ok_def)

lemma payload_read:
  assumes "plain_text htm" "plain_text htu" "given nonce \<longrightarrow> plain_text (the nonce)"
  shows "parse_document (proof_payload htm htu iat (base64url_encode raw) access_token nonce) =
    Inr (JObject (emplace_all [] (payload_members htm htu iat (base64url_encode raw) access_token nonce)))"
proof -
  have "utf8_valid (base64url_encode s)" for s using encoded_plain [of s] by (simp add: plain_text_def)
  then have "list_all (\<lambda>kv. utf8_valid (fst kv) \<and> fits 1 (snd kv))
      (payload_members htm htu iat (base64url_encode raw) access_token nonce)"
    using assms by (simp add: payload_members_def plain_text_def proof_literals dpop_sha256_base64url_def max_depth_def)
  then show ?thesis unfolding payload_dump [OF assms] by (rule parse_members_text)
qed

lemma payload_claims_of_made:
  assumes "dv_htm opts = htm" "htu \<noteq> []" "strip_htu_suffix htu \<noteq> []" "strip_htu_suffix (dv_htu opts) = strip_htu_suffix htu"
    "is_nonce_fresh iat now (dv_window opts)" "jti \<noteq> []" "dv_access_token opts \<noteq> []"
    "given nonce \<and> given (dv_expected_nonce opts) \<longrightarrow> dv_expected_nonce opts = nonce"
  shows "payload_claims opts now
    (JObject (emplace_all [] (payload_members htm htu iat jti (Some (dv_access_token opts)) nonce))) = Some (jti, iat)"
proof -
  let ?ms = "payload_members htm htu iat jti (Some (dv_access_token opts)) nonce"
  have find: "amap_find k (emplace_all [] ?ms) = map_of ?ms k" for k
    by (simp add: emplace_all_map_of)
  have nonce: "nonce_matches opts (map_of ?ms ''nonce'')"
    using assms(8) by (auto simp: nonce_matches_def payload_members_def given_def split: option.split)
  have claims: "map_of ?ms ''htm'' = Some (JString htm)" "map_of ?ms ''htu'' = Some (JString htu)"
    "map_of ?ms ''iat'' = Some (JInt iat)" "map_of ?ms ''jti'' = Some (JString jti)"
    "map_of ?ms ''ath'' = Some (JString (dpop_sha256_base64url (dv_access_token opts)))"
    using assms(7) by (simp_all add: payload_members_def given_def)
  show ?thesis
    using assms by (simp add: payload_claims_def require_string_field_def find claims nonce htu_matches_def Let_def)
qed

lemma made_proof_accepted:
  assumes made: "create_proof ec_sign rand_bytes clock key htm htu (Some (dv_access_token opts)) nonce iat_override =
      Inr proof"
    and key: "jk_x key = base64url_encode x" "length x = 32" "jk_y key = base64url_encode y" "length y = 32"
      "jk_d key = base64url_encode d"
    and pair: "\<forall>digest sig. ec_sign d digest = Some sig \<longrightarrow> length sig = 64 \<and> ec_verify x y digest sig"
    and plain: "plain_text htm" "plain_text htu" "given nonce \<longrightarrow> plain_text (the nonce)"
    and expected: "dv_htm opts = htm" "strip_htu_suffix htu \<noteq> []" "strip_htu_suffix (dv_htu opts) = strip_htu_suffix htu"
      "dv_access_token opts \<noteq> []" "given nonce \<and> given (dv_expected_nonce opts) \<longrightarrow> dv_expected_nonce opts = nonce"
    and fresh: "is_nonce_fresh (case iat_override of Some t \<Rightarrow> t | None \<Rightarrow> clock) (proof_time now opts) (dv_window opts)"
    and new: "rand_bytes 16 = Some raw" "raw \<noteq> []" "amap_find (base64url_encode raw) (jc_seen replay) = None"
  shows "snd (verify_proof ec_verify now proof opts replay)"
proof -
  let ?iat = "case iat_override of Some t \<Rightarrow> t | None \<Rightarrow> clock" and ?jti = "base64url_encode raw"
  let ?payload = "proof_payload htm htu ?iat ?jti (Some (dv_access_token opts)) nonce"
  let ?input = "base64url_encode (proof_header key) @ ''.'' @ base64url_encode ?payload"
  obtain sig where sig: "ec_sign d (sha256_hash ?input) = Some sig"
      and made_of: "proof = base64url_encode (proof_header key) @ CHR ''.'' # base64url_encode ?payload @
        CHR ''.'' # base64url_encode sig"
    using made new(1)
    by (auto simp: create_proof_def dpop_sign_es256_raw_def key base64url_roundtrip Let_def throw_def res_simps
        split: if_splits option.splits)
  have nonempty: "base64url_encode s \<noteq> [] \<longleftrightarrow> s \<noteq> []" for s
    by (cases s rule: base64url_encode.cases) (simp_all add: Let_def)
  have sig_ok: "length sig = 64" "ec_verify x y (sha256_hash ?input) sig" using pair sig by auto
  then have "sig \<noteq> []" by auto
  then have segments: "proof_segments proof = Some (base64url_encode (proof_header key), base64url_encode ?payload, base64url_encode sig)"
    by (simp add: made_of proof_segments_def split_dot_append encoded_no_dot nonempty proof_header_def proof_payload_def)
  have header: "parse_document (proof_header key) = Inr (JObject [(''alg'', JString ''ES256''),
    (''jwk'', JObject [(''crv'', JString ''P-256''), (''kty'', JString ''EC''), (''x'', JString (jk_x key)),
      (''y'', JString (jk_y key))]), (''typ'', JString ''dpop+jwt'')])"
    by (rule header_read) (simp_all add: key encoded_plain)
  have xy: "jk_x key \<noteq> []" "jk_y key \<noteq> []" using key by (auto simp: nonempty)
  have htu: "htu \<noteq> []" "htm \<noteq> []" "dv_htu opts \<noteq> []"
    using made expected(2,3) by (auto simp: create_proof_def throw_def strip_htu_suffix_def split: if_splits)
  have payload: "parse_document ?payload = Inr (JObject (emplace_all []
      (payload_members htm htu ?iat ?jti (Some (dv_access_token opts)) nonce)))"
    by (rule payload_read) (use plain in auto)
  have claims: "payload_claims opts (proof_time now opts) (JObject (emplace_all []
      (payload_members htm htu ?iat ?jti (Some (dv_access_token opts)) nonce))) = Some (?jti, ?iat)"
    using expected htu fresh new(2) by (intro payload_claims_of_made) (auto simp: nonempty)
  have "decoded_32 (jk_x key) = Some x" "decoded_32 (jk_y key) = Some y"
    using key by (simp_all add: decoded_32_def base64url_roundtrip)
  moreover have "\<not> sint (dv_window opts) < 0" "dv_htm opts \<noteq> []"
    using fresh expected(1) htu by (auto simp: is_nonce_fresh_def split: if_splits)
  ultimately have "proof_claims ec_verify opts (proof_time now opts) proof = Some (?jti, ?iat)"
    using sig_ok expected(4) htu(3) header_key_of_parsed [OF xy]
    by (simp add: proof_claims_def segments base64url_roundtrip header payload claims)
  moreover have "snd (check_and_store ?jti ?iat (proof_time now opts) replay)"
    using new(2,3) by (auto simp: check_and_store_def Let_def nonempty amap_find_None_iff)
  ultimately show ?thesis by (simp add: verify_proof_def)
qed


definition sample_sign :: "string \<Rightarrow> string \<Rightarrow> string option" where
  "sample_sign d digest = Some (take 64 (d @ digest @ replicate 64 (chr 0)))"

definition sample_check :: "string \<Rightarrow> string \<Rightarrow> string \<Rightarrow> string \<Rightarrow> bool" where
  "sample_check x y digest sig \<longleftrightarrow> sample_sign x digest = Some sig"

definition sample_key :: ec_jwk where
  "sample_key = (let k = base64url_encode (replicate 32 (chr 1)) in \<lparr>jk_x = k, jk_y = k, jk_d = k\<rparr>)"

definition sample_options :: dpop_options where
  "sample_options = \<lparr>dv_htm = ''POST'', dv_htu = ''http://h/mcp'', dv_access_token = ''t'',
     dv_alternate_htu = Some ''https://h/mcp'', dv_expected_nonce = Some ''n'', dv_window = 300, dv_now = 0\<rparr>"

definition sample_proof :: string where
  "sample_proof =
     (case create_proof sample_sign (\<lambda>n. Some (replicate n (chr 9))) 1000 sample_key ''POST'' ''http://h/mcp?q'' (Some ''t'')
        (Some ''n'') None of Inr proof \<Rightarrow> proof | Inl e \<Rightarrow> [])"

lemma sample_proof_made:
  "create_proof sample_sign (\<lambda>n. Some (replicate n (chr 9))) 1000 sample_key ''POST'' ''http://h/mcp?q'' (Some ''t'')
     (Some ''n'') None = Inr sample_proof"
proof -
  have "base64url_encode (proof_header sample_key) \<noteq> []" "replicate 32 (chr 1) \<noteq> []"
    using base64url_roundtrip [of "proof_header sample_key"] by (auto simp: base64url_decode_def proof_header_def)
  moreover have "base64url_encode (replicate 32 (chr 1)) \<noteq> []"
    using base64url_roundtrip [of "replicate 32 (chr 1)"] by (auto simp: base64url_decode_def)
  ultimately have "\<exists>p. create_proof sample_sign (\<lambda>n. Some (replicate n (chr 9))) 1000 sample_key ''POST''
      ''http://h/mcp?q'' (Some ''t'') (Some ''n'') None = Inr p"
    by (simp add: create_proof_def sample_key_def Let_def base64url_roundtrip dpop_sign_es256_raw_def sample_sign_def)
  then show ?thesis by (auto simp: sample_proof_def)
qed

lemma sample_texts: "plain_text ''POST''" "plain_text ''http://h/mcp?q''" "plain_text ''n''"
  by (simp_all add: plain_text_def byte_of_def utf8_ascii)

lemma sample_strip: "strip_htu_suffix ''http://h/mcp?q'' = ''http://h/mcp''" "strip_htu_suffix ''http://h/mcp'' = ''http://h/mcp''"
  by (simp_all add: strip_htu_suffix_def)

lemma sample_fresh: "is_nonce_fresh 1000 1100 300" "proof_time 1100 sample_options = 1100"
  by (simp_all add: is_nonce_fresh_def proof_time_def sample_options_def)

lemma sample_signature: "sample_sign d digest = Some sig \<Longrightarrow> length sig = 64"
  by (auto simp: sample_sign_def)

lemma sample_premises:
  defines "k \<equiv> replicate 32 (chr 1)"
  shows "create_proof sample_sign (\<lambda>n. Some (replicate n (chr 9))) 1000 sample_key ''POST'' ''http://h/mcp?q''
      (Some (dv_access_token sample_options)) (Some ''n'') None = Inr sample_proof"
    "jk_x sample_key = base64url_encode k" "length k = 32" "jk_y sample_key = base64url_encode k" "length k = 32"
    "jk_d sample_key = base64url_encode k"
    "\<forall>digest sig. sample_sign k digest = Some sig \<longrightarrow> length sig = 64 \<and> sample_check k k digest sig"
    "plain_text ''POST''" "plain_text ''http://h/mcp?q''" "given (Some ''n'') \<longrightarrow> plain_text (the (Some ''n''))"
    "dv_htm sample_options = ''POST''" "strip_htu_suffix ''http://h/mcp?q'' \<noteq> []"
    "strip_htu_suffix (dv_htu sample_options) = strip_htu_suffix ''http://h/mcp?q''" "dv_access_token sample_options \<noteq> []"
    "given (Some ''n'') \<and> given (dv_expected_nonce sample_options) \<longrightarrow> dv_expected_nonce sample_options = Some ''n''"
    "is_nonce_fresh (case None of Some t \<Rightarrow> t | None \<Rightarrow> 1000) (proof_time 1100 sample_options) (dv_window sample_options)"
    "(\<lambda>n. Some (replicate n (chr 9))) 16 = Some (replicate 16 (chr 9))" "replicate 16 (chr 9) \<noteq> []"
    "amap_find (base64url_encode (replicate 16 (chr 9))) (jc_seen (new_jti_cache 300)) = None"
  using sample_proof_made sample_texts sample_strip sample_fresh sample_signature
  by (auto simp: k_def sample_key_def Let_def sample_check_def given_def new_jti_cache_def sample_options_def proof_time_def)

lemma sample_accepted: "snd (verify_proof sample_check 1100 sample_proof sample_options (new_jti_cache 300))"
  by (rule made_proof_accepted [where ec_sign = sample_sign and ec_verify = sample_check and rand_bytes = "\<lambda>n. Some (replicate n (chr 9))" and
      opts = sample_options and nonce = "Some ''n''" and iat_override = None and d = "replicate 32 (chr 1)" and now = 1100,
      OF sample_premises])


section \<open>Replays are refused\<close>

text \<open>Whoever replays a proof is refused: a proof that was accepted is accepted by no later check, whatever other
  proofs were checked before and in between, as long as the windows of the two checks are not wider than the cache's
  and the clock does not run backwards.  This holds even for the absurd times of issue for which the age of a proof
  overflows.\<close>

lemma proof_accepted_once:
  assumes first: "snd (verify_proof ec_verify clock proof opts (check_proofs ec_verify before (new_jti_cache w)))"
    and windows: "sint (dv_window opts) \<le> sint w" "sint (dv_window opts') \<le> sint w" "sint w < 2 ^ 62"
    and time: "0 \<le> sint (proof_time clock opts)" "sint (proof_time clock opts) \<le> sint (proof_time clock' opts')"
      "sint (proof_time clock' opts') < 2 ^ 62"
      "\<forall>(c, p, o') \<in> set between. sint (proof_time clock opts) \<le> sint (proof_time c o') \<and>
         sint (proof_time c o') \<le> sint (proof_time clock' opts')"
  shows "\<not> snd (verify_proof ec_verify clock' proof opts' (check_proofs ec_verify between
    (fst (verify_proof ec_verify clock proof opts (check_proofs ec_verify before (new_jti_cache w))))))"
proof
  let ?t = "proof_time clock opts" and ?t' = "proof_time clock' opts'"
  let ?c0 = "check_proofs ec_verify before (new_jti_cache w)"
  let ?c1 = "fst (verify_proof ec_verify clock proof opts ?c0)"
  let ?c2 = "check_proofs ec_verify between ?c1"
  assume again: "snd (verify_proof ec_verify clock' proof opts' ?c2)"
  obtain jti iat where claims: "proof_claims ec_verify opts ?t proof = Some (jti, iat)"
      and stored: "amap_find jti (jc_seen ?c1) = Some iat"
    using accepted_stored [OF first] by blast
  obtain jti' iat' where again_claims: "proof_claims ec_verify opts' ?t' proof = Some (jti', iat')"
      "snd (check_and_store jti' iat' ?t' ?c2)"
    using accepted_claims [OF again] by blast
  have same: "jti' = jti" "iat' = iat" using claims_unique [OF claims again_claims(1)] by simp_all
  note claims' = again_claims [unfolded same]
  note fresh = claims_fresh [OF claims] and fresh' = claims_fresh [OF claims'(1)]
  have w: "0 \<le> sint w" using fresh windows(1) by linarith
  then have "jti_cache_ok w (new_jti_cache w)" by (simp add: jti_cache_ok_def new_jti_cache_def)
  then have ok: "jti_cache_ok w ?c0" by (rule check_proofs_ok)
  from stored have "remembered jti iat w ?t' ?c1" by (simp add: remembered_def)
  moreover have "sint w < sint (?t' - iat)"
    if "(c, p, o') \<in> set between" "sint w < sint (proof_time c o' - iat)" for c p o'
  proof (rule stale_later [OF time(1) _ _ time(3) _ _ w windows(3) that(2)])
    show "sint ?t \<le> sint (proof_time c o')" "sint (proof_time c o') \<le> sint ?t'"
      using time(4) that(1) by auto
    show "sint iat \<le> sint ?t" "sint (?t - iat) \<le> sint w" using fresh windows(1) by auto
  qed
  ultimately have "remembered jti iat w ?t' ?c2"
    by (intro check_proofs_remembers verify_proof_ok ok) auto
  moreover have "\<not> sint w < sint (?t' - iat)" using fresh' windows(2) by linarith
  ultimately have "amap_find jti (jc_seen ?c2) = Some iat" by (simp add: remembered_def)
  then show False
    using seen_rejected [of w ?c2 jti iat ?t'] \<open>\<not> sint w < sint (?t' - iat)\<close> claims'(2)
      check_proofs_ok [OF verify_proof_ok [OF ok]] by blast
qed

lemma proof_accepted_once_sample:
  "\<not> snd (verify_proof sample_check 1200 sample_proof sample_options (check_proofs sample_check
      [(1150, ''x'', sample_options)] (fst (verify_proof sample_check 1100 sample_proof sample_options
        (check_proofs sample_check [] (new_jti_cache 300))))))"
  by (rule proof_accepted_once)
     (use sample_accepted in \<open>simp_all add: check_proofs_def sample_options_def proof_time_def\<close>)

end
