(* ===== verification/Http_Access.thy ===== *)
theory Http_Access
  imports Dpop Server_Sessions
begin

text \<open>
  Requests and responses of the HTTP server (\<open>include/mcp/http/HttpServer.hpp\<close>) and who may send them: the bearer and
  DPoP checks of \<open>StreamableHttpServerTransport::AuthorizeRequest\<close>, the helpers around them, the metadata document and
  the server card (\<open>src/http/StreamableHttpServerTransport.cpp\<close>, \<open>src/ext/ServerCard.cpp\<close>).  The header maps are sorted
  maps; the verification of a token is the application's function, which returns.  The replay cache and the nonce of the server are
  the two function-local statics of the source.
\<close>

section \<open>Requests and responses\<close>

record http_request =
  hq_method :: string
  hq_path :: string
  hq_headers :: "(string, string) amap"
  hq_body :: string

record http_response =
  hp_status :: int
  hp_status_text :: string
  hp_headers :: "(string, string) amap"
  hp_body :: string
  hp_is_sse :: bool
  hp_close_after_write :: bool
  hp_client_tag :: string

definition new_response :: http_response where
  "new_response = \<lparr>hp_status = 200, hp_status_text = ''OK'', hp_headers = [], hp_body = [], hp_is_sse = False,
     hp_close_after_write = False, hp_client_tag = []\<rparr>"

definition put_header :: "string \<Rightarrow> string \<Rightarrow> http_response \<Rightarrow> http_response" where
  "put_header name value resp = resp\<lparr>hp_headers := amap_put name value (hp_headers resp)\<rparr>"

definition get_mcp_header :: "http_request \<Rightarrow> string \<Rightarrow> string option" where
  "get_mcp_header req name = amap_find (to_lower name) (hq_headers req)"

text \<open>The bodies that the source writes out as literals are the printed form of these values.\<close>

definition error_body :: "error_code \<Rightarrow> string \<Rightarrow> string" where
  "error_body code message =
     ''{'' @ quoted ''jsonrpc'' @ '':'' @ quoted ''2.0'' @ '','' @ quoted ''error'' @ '':{'' @ quoted ''code'' @ '':'' @
     dec_int (sint code) @ '','' @ quoted ''message'' @ '':'' @ quoted message @ ''}}''"

definition respond_literal :: "int \<Rightarrow> string \<Rightarrow> string \<Rightarrow> http_response \<Rightarrow> http_response" where
  "respond_literal status status_text body resp =
     put_header ''content-type'' ''application/json''
       (resp\<lparr>hp_status := status, hp_status_text := status_text, hp_body := body\<rparr>)"

section \<open>Schemes, scopes and URLs\<close>

definition is_bearer_authorization :: "string \<Rightarrow> bool" where
  "is_bearer_authorization value \<longleftrightarrow> 7 \<le> length value \<and> to_lower (take 7 value) = ''bearer ''"

definition is_dpop_authorization :: "string \<Rightarrow> bool" where
  "is_dpop_authorization value \<longleftrightarrow> 5 \<le> length value \<and> to_lower (take 5 value) = ''dpop ''"

definition trim_in_place :: "string \<Rightarrow> string" where
  "trim_in_place text = rev (dropWhile is_blank (rev (dropWhile is_blank text)))"

definition join_with_spaces :: "string list \<Rightarrow> string" where
  "join_with_spaces items = foldl (\<lambda>out item. (if out = [] then out else out @ '' '') @ item) [] items"

definition well_known_metadata_path :: string where
  "well_known_metadata_path = ''/.well-known/oauth-protected-resource''"

text \<open>The rest of a text from the first occurrence of a pattern, if it occurs.\<close>

fun from_first :: "string \<Rightarrow> string \<Rightarrow> string option" where
  "from_first p s = (if take (length p) s = p then Some s else (case s of [] \<Rightarrow> None | c # s' \<Rightarrow> from_first p s'))"

definition metadata_path_from_url :: "string \<Rightarrow> string" where
  "metadata_path_from_url url =
     (let rest = (case from_first ''://'' url of None \<Rightarrow> url | Some s \<Rightarrow> drop 3 s)
      in case from_first ''/'' rest of
           None \<Rightarrow> well_known_metadata_path
         | Some path \<Rightarrow> takeWhile (\<lambda>c. c \<noteq> CHR ''?'') path)"

definition normalize_resource_url :: "string \<Rightarrow> string" where
  "normalize_resource_url url =
     (let out = takeWhile (\<lambda>c. c \<noteq> CHR ''#'') url
      in if 1 < length out \<and> last out = CHR ''/'' then butlast out else out)"

definition resource_url_from_metadata_url :: "string \<Rightarrow> string" where
  "resource_url_from_metadata_url url =
     (let base = takeWhile (\<lambda>c. c \<noteq> CHR ''?'') url; n = length well_known_metadata_path
      in if n < length base \<and> drop (length base - n) base = well_known_metadata_path
         then take (length base - n) base else base)"

section \<open>Refusals\<close>

definition respond_unauthorized :: "string \<Rightarrow> bool \<Rightarrow> string list \<Rightarrow> http_response \<Rightarrow> http_response" where
  "respond_unauthorized metadata_url invalid_token scopes resp =
     (let challenge = ''Bearer resource_metadata='' @ quoted metadata_url @
            (if invalid_token then '', error='' @ quoted ''invalid_token'' else []) @
            (if scopes \<noteq> [] then '', scope='' @ quoted (join_with_spaces scopes) else [])
      in respond_literal 401 ''Unauthorized'' (error_body ConnectionClosed ''unauthorized'')
           (put_header ''www-authenticate'' challenge resp))"

definition respond_insufficient_scope :: "string list \<Rightarrow> http_response \<Rightarrow> http_response" where
  "respond_insufficient_scope required resp =
     respond_literal 403 ''Forbidden'' (error_body ConnectionClosed ''insufficient_scope'')
       (put_header ''www-authenticate''
          (''Bearer error='' @ quoted ''insufficient_scope'' @ '', scope='' @ quoted (join_with_spaces required)) resp)"

section \<open>Authorization\<close>

record auth_result =
  ar_ok :: bool
  ar_scopes :: "string list"
  ar_resource :: "string option"

record bearer_config =
  bc_verify :: "string \<Rightarrow> auth_result mres"
  bc_metadata_url :: string
  bc_scopes_supported :: "string list"
  bc_required_scopes :: "string list"
  bc_authorization_servers :: "string list"
  bc_serve_metadata :: bool
  bc_expected_resource :: string
  bc_validate_resource :: bool
  bc_enable_dpop :: bool

record dpop_state =
  ds_cache :: jti_cache
  ds_nonce :: string

record auth_env =
  ae_clock :: i64
  ae_ec_verify :: "string \<Rightarrow> string \<Rightarrow> string \<Rightarrow> string \<Rightarrow> bool"
  ae_rand_bytes :: "nat \<Rightarrow> string option"

definition new_dpop_state :: dpop_state where
  "new_dpop_state = \<lparr>ds_cache = new_jti_cache 300, ds_nonce = []\<rparr>"

definition current_server_nonce :: "auth_env \<Rightarrow> dpop_state \<Rightarrow> (dpop_state \<times> string) mres" where
  "current_server_nonce env st =
     (if ds_nonce st \<noteq> [] then Inr (st, ds_nonce st)
      else rmap (\<lambda>nonce. (st\<lparr>ds_nonce := nonce\<rparr>, nonce)) (generate_nonce (ae_rand_bytes env) 16))"

text \<open>The verdict of a check: the state, the response as far as it is written, and whether the request goes on.\<close>

type_synonym verdict = "(dpop_state \<times> http_response \<times> bool) mres"

definition dpop_answer :: "auth_env \<Rightarrow> dpop_state \<Rightarrow> http_response \<Rightarrow> bool \<Rightarrow> verdict" where
  "dpop_answer env st resp ok =
     rmap (\<lambda>(st', nonce). (st', put_header ''dpop-nonce'' nonce resp, ok)) (current_server_nonce env st)"

definition dpop_fail_unauthorized :: "auth_env \<Rightarrow> bearer_config \<Rightarrow> dpop_state \<Rightarrow> http_response \<Rightarrow> verdict" where
  "dpop_fail_unauthorized env c st resp =
     dpop_answer env st (respond_unauthorized (bc_metadata_url c) True (bc_scopes_supported c) resp) False"

definition audience_ok :: "bearer_config \<Rightarrow> auth_result \<Rightarrow> bool" where
  "audience_ok c r \<longleftrightarrow>
     (bc_validate_resource c \<and> bc_expected_resource c \<noteq> [] \<longrightarrow>
        (case ar_resource r of
           None \<Rightarrow> False
         | Some res \<Rightarrow> res \<noteq> [] \<and> normalize_resource_url res = normalize_resource_url (bc_expected_resource c)))"

definition scopes_ok :: "bearer_config \<Rightarrow> auth_result \<Rightarrow> bool" where
  "scopes_ok c r \<longleftrightarrow> list_all (\<lambda>required. required \<in> set (ar_scopes r)) (bc_required_scopes c)"

text \<open>What the proof of a request has to be about; \<open>None\<close> without a host or a path.\<close>

definition verify_options :: "http_request \<Rightarrow> string \<Rightarrow> string \<Rightarrow> dpop_options option" where
  "verify_options req token nonce =
     (case get_mcp_header req ''host'' of
        None \<Rightarrow> None
      | Some host \<Rightarrow>
          (let path = takeWhile (\<lambda>c. c \<noteq> CHR ''?'') (hq_path req)
           in if host = [] \<or> path = [] then None
              else Some \<lparr>dv_htm = hq_method req, dv_htu = ''http://'' @ host @ path, dv_access_token = token,
                     dv_alternate_htu = Some (''https://'' @ host @ path), dv_expected_nonce = Some nonce,
                     dv_window = 300, dv_now = 0\<rparr>))"

text \<open>Whether the header \<open>dpop\<close> holds an acceptable proof.  The server's nonce is made before the proof is looked at.\<close>

definition proof_ok :: "auth_env \<Rightarrow> http_request \<Rightarrow> string \<Rightarrow> dpop_state \<Rightarrow> (dpop_state \<times> bool) mres" where
  "proof_ok env req token st =
     (case get_mcp_header req ''dpop'' of
        None \<Rightarrow> Inr (st, False)
      | Some proof \<Rightarrow>
          if proof = [] \<or> verify_options req token [] = None then Inr (st, False)
          else rmap (\<lambda>(st', nonce).
                 case verify_options req token nonce of
                   None \<Rightarrow> (st', False)
                 | Some opts \<Rightarrow>
                     (case verify_proof (ae_ec_verify env) (ae_clock env) proof opts (ds_cache st') of
                        (cache, ok) \<Rightarrow> (st'\<lparr>ds_cache := cache\<rparr>, ok)))
               (current_server_nonce env st))"

definition authorize_dpop :: "auth_env \<Rightarrow> bearer_config \<Rightarrow> http_request \<Rightarrow> dpop_state \<Rightarrow> http_response \<Rightarrow> verdict" where
  "authorize_dpop env c req st resp =
     (case get_mcp_header req ''authorization'' of
        None \<Rightarrow> dpop_fail_unauthorized env c st resp
      | Some auth \<Rightarrow>
          if \<not> is_dpop_authorization auth then dpop_fail_unauthorized env c st resp
          else (let token = trim_in_place (drop 5 auth)
                in if token = [] then dpop_fail_unauthorized env c st resp
                   else rbind (bc_verify c token) (\<lambda>r.
                        if \<not> ar_ok r then dpop_fail_unauthorized env c st resp
                        else rbind (proof_ok env req token st) (\<lambda>(st', ok).
                             if \<not> ok \<or> \<not> audience_ok c r then dpop_fail_unauthorized env c st' resp
                             else if \<not> scopes_ok c r then
                               dpop_answer env st' (respond_insufficient_scope (bc_required_scopes c) resp) False
                             else dpop_answer env st' resp True))))"

definition authorize_bearer :: "bearer_config \<Rightarrow> http_request \<Rightarrow> dpop_state \<Rightarrow> http_response \<Rightarrow> verdict" where
  "authorize_bearer c req st resp =
     (let refuse = (\<lambda>invalid. Inr (st, respond_unauthorized (bc_metadata_url c) invalid (bc_scopes_supported c) resp, False))
      in case get_mcp_header req ''authorization'' of
           None \<Rightarrow> refuse False
         | Some auth \<Rightarrow>
             if \<not> is_bearer_authorization auth then refuse False
             else rbind (bc_verify c (trim_in_place (drop 7 auth))) (\<lambda>r.
                  if \<not> ar_ok r \<or> \<not> audience_ok c r then refuse True
                  else if \<not> scopes_ok c r then
                    Inr (st, respond_insufficient_scope (bc_required_scopes c) resp, False)
                  else Inr (st, resp, True)))"

definition authorize_request ::
  "auth_env \<Rightarrow> bearer_config option \<Rightarrow> http_request \<Rightarrow> dpop_state \<Rightarrow> http_response \<Rightarrow> verdict" where
  "authorize_request env config req st resp =
     (case config of
        None \<Rightarrow> Inr (st, resp, True)
      | Some c \<Rightarrow> if bc_enable_dpop c then authorize_dpop env c req st resp else authorize_bearer c req st resp)"

section \<open>Who gets in\<close>

lemma dpop_answer_status:
  "dpop_answer env st resp ok = Inr (st', resp', ok') \<Longrightarrow> ok' = ok \<and> hp_status resp' = hp_status resp \<and> ds_cache st' = ds_cache st"
  by (auto simp: dpop_answer_def current_server_nonce_def put_header_def res_simps split: if_splits)

lemma refusal_status [simp]:
  "hp_status (respond_unauthorized url invalid scopes resp) = 401"
  "hp_status (respond_insufficient_scope required resp) = 403"
  by (simp_all add: respond_unauthorized_def respond_insufficient_scope_def respond_literal_def put_header_def Let_def)

lemma dpop_fail_status:
  "dpop_fail_unauthorized env c st resp = Inr (st', resp', ok) \<Longrightarrow> \<not> ok \<and> hp_status resp' = 401 \<and> ds_cache st' = ds_cache st"
  by (auto simp: dpop_fail_unauthorized_def dest!: dpop_answer_status)

lemma current_nonce_cache: "current_server_nonce env st = Inr (st', nonce) \<Longrightarrow> ds_cache st' = ds_cache st"
  by (auto simp: current_server_nonce_def res_simps split: if_splits)

text \<open>What is asked of the replay cache for the proof of a request.\<close>

definition proof_checked :: "auth_env \<Rightarrow> http_request \<Rightarrow> string \<Rightarrow> jti_cache \<Rightarrow> jti_cache \<Rightarrow> bool \<Rightarrow> bool" where
  "proof_checked env req token cache cache' ok \<longleftrightarrow>
     (\<exists>proof nonce opts. get_mcp_header req ''dpop'' = Some proof \<and> verify_options req token nonce = Some opts \<and>
        verify_proof (ae_ec_verify env) (ae_clock env) proof opts cache = (cache', ok))"

lemma proof_ok_checked:
  assumes "proof_ok env req token st = Inr (st', ok)"
  shows "(\<not> ok \<and> ds_cache st' = ds_cache st) \<or> proof_checked env req token (ds_cache st) (ds_cache st') ok"
proof -
  consider "st' = st" "\<not> ok"
    | pf st1 nonce where "get_mcp_header req ''dpop'' = Some pf" "current_server_nonce env st = Inr (st1, nonce)"
        "(case verify_options req token nonce of
            None \<Rightarrow> (st1, False)
          | Some opts \<Rightarrow> (case verify_proof (ae_ec_verify env) (ae_clock env) pf opts (ds_cache st1) of
               (cache, ok) \<Rightarrow> (st1\<lparr>ds_cache := cache\<rparr>, ok))) = (st', ok)"
    using assms by (auto simp: proof_ok_def rmap_eq_Inr_iff split: option.splits if_splits)
  then show ?thesis
  proof cases
    case (2 pf st1 nonce)
    show ?thesis
    proof (cases "verify_options req token nonce")
      case (Some opts)
      with 2(1,3) current_nonce_cache [OF 2(2)]
      have "verify_proof (ae_ec_verify env) (ae_clock env) pf opts (ds_cache st) = (ds_cache st', ok)"
        by (auto split: prod.splits)
      with 2(1) Some show ?thesis unfolding proof_checked_def by blast
    qed (use 2(3) current_nonce_cache [OF 2(2)] in auto)
  qed simp
qed

lemma authorize_dpop_cases:
  assumes "authorize_dpop env c req st resp = Inr (st', resp', ok)"
  shows "(\<not> ok \<and> ds_cache st' = ds_cache st \<and> hp_status resp' \<in> {401, 403}) \<or>
    (\<exists>auth r ok'. get_mcp_header req ''authorization'' = Some auth \<and>
       bc_verify c (trim_in_place (drop 5 auth)) = Inr r \<and> ar_ok r \<and>
       proof_checked env req (trim_in_place (drop 5 auth)) (ds_cache st) (ds_cache st') ok' \<and>
       (if ok then ok' \<and> audience_ok c r \<and> scopes_ok c r else hp_status resp' \<in> {401, 403}))"
proof (cases "get_mcp_header req ''authorization''")
  case None
  with assms show ?thesis by (auto simp: authorize_dpop_def dest!: dpop_fail_status)
next
  case (Some auth)
  let ?token = "trim_in_place (drop 5 auth)"
  show ?thesis
  proof (cases "\<not> is_dpop_authorization auth \<or> ?token = []")
    case True
    with assms Some show ?thesis by (auto simp: authorize_dpop_def Let_def dest!: dpop_fail_status split: if_splits)
  next
    case False
    with assms Some obtain r where r: "bc_verify c ?token = Inr r"
      by (auto simp: authorize_dpop_def Let_def res_simps)
    show ?thesis
    proof (cases "ar_ok r")
      case refused: False
      with assms Some False r show ?thesis by (auto simp: authorize_dpop_def Let_def dest!: dpop_fail_status)
    next
      case True
      with assms Some False r obtain st1 ok1 where checked: "proof_ok env req ?token st = Inr (st1, ok1)"
        and rest: "(if \<not> ok1 \<or> \<not> audience_ok c r then dpop_fail_unauthorized env c st1 resp
           else if \<not> scopes_ok c r then
             dpop_answer env st1 (respond_insufficient_scope (bc_required_scopes c) resp) False
           else dpop_answer env st1 resp True) = Inr (st', resp', ok)"
        by (auto simp: authorize_dpop_def Let_def res_simps)
      have "ds_cache st' = ds_cache st1"
          "if ok then ok1 \<and> audience_ok c r \<and> scopes_ok c r else hp_status resp' \<in> {401, 403}"
        using rest by (auto dest!: dpop_fail_status dpop_answer_status split: if_splits)
      with proof_ok_checked [OF checked] Some r True show ?thesis by auto
    qed
  qed
qed

lemma authorize_bearer_cases:
  assumes "authorize_bearer c req st resp = Inr (st', resp', ok)"
  shows "st' = st \<and> (if ok then
      (\<exists>auth r. get_mcp_header req ''authorization'' = Some auth \<and> bc_verify c (trim_in_place (drop 7 auth)) = Inr r \<and>
         ar_ok r \<and> audience_ok c r \<and> scopes_ok c r)
    else hp_status resp' \<in> {401, 403})"
  using assms by (auto simp: authorize_bearer_def Let_def res_simps split: option.splits if_splits)


section \<open>A proof of possession lets one request in\<close>

type_synonym access = "auth_env \<times> bearer_config option \<times> http_request"

definition authorize_all :: "access list \<Rightarrow> dpop_state \<Rightarrow> dpop_state" where
  "authorize_all requests st =
     fold (\<lambda>(env, config, req) st. case authorize_request env config req st new_response of
        Inr (st', resp, ok) \<Rightarrow> st' | Inl e \<Rightarrow> st) requests st"

lemma verify_options_window: "verify_options req token nonce = Some opts \<Longrightarrow> dv_window opts = 300 \<and> dv_now opts = 0"
  by (auto simp: verify_options_def Let_def split: option.splits if_splits)

lemma proof_time_of: "verify_options req token nonce = Some opts \<Longrightarrow> proof_time clock opts = clock"
  using verify_options_window by (simp add: proof_time_def)

lemma authorize_cache:
  assumes "authorize_request env config req st resp = Inr (st', resp', ok)"
  shows "\<exists>calls. ds_cache st' = check_proofs (ae_ec_verify env) calls (ds_cache st) \<and>
    (\<forall>(clock, pf, opts) \<in> set calls. proof_time clock opts = ae_clock env)"
proof -
  have "ds_cache st' = ds_cache st \<or> (\<exists>token ok. proof_checked env req token (ds_cache st) (ds_cache st') ok)"
    using assms
    by (auto simp: authorize_request_def split: option.splits if_splits dest!: authorize_dpop_cases authorize_bearer_cases)
  then show ?thesis
  proof
    assume "ds_cache st' = ds_cache st"
    then have "ds_cache st' = check_proofs (ae_ec_verify env) [] (ds_cache st)" by (simp add: check_proofs_def)
    then show ?thesis by (metis empty_iff list.set(1))
  next
    assume "\<exists>token ok. proof_checked env req token (ds_cache st) (ds_cache st') ok"
    then obtain token ok pf nonce opts where call: "verify_options req token nonce = Some opts"
        "verify_proof (ae_ec_verify env) (ae_clock env) pf opts (ds_cache st) = (ds_cache st', ok)"
      unfolding proof_checked_def by blast
    then have "ds_cache st' = check_proofs (ae_ec_verify env) [(ae_clock env, pf, opts)] (ds_cache st)"
      by (simp add: check_proofs_def)
    moreover have "proof_time (ae_clock env) opts = ae_clock env" by (rule proof_time_of [OF call(1)])
    ultimately show ?thesis by fastforce
  qed
qed

lemma check_proofs_append: "check_proofs f (xs @ ys) c = check_proofs f ys (check_proofs f xs c)"
  by (simp add: check_proofs_def)

lemma authorize_all_cache:
  assumes "\<forall>(env, config, req) \<in> set requests. ae_ec_verify env = ec \<and> P (ae_clock env)"
  shows "\<exists>calls. ds_cache (authorize_all requests st) = check_proofs ec calls (ds_cache st) \<and>
    (\<forall>(clock, pf, opts) \<in> set calls. P (proof_time clock opts))"
  using assms
proof (induction requests arbitrary: st)
  case Nil
  have "ds_cache (authorize_all [] st) = check_proofs ec [] (ds_cache st)" by (simp add: authorize_all_def check_proofs_def)
  then show ?case by (metis empty_iff list.set(1))
next
  case (Cons request requests)
  obtain env config req where request: "request = (env, config, req)" by (metis prod_cases3)
  define st1 where "st1 = (case authorize_request env config req st new_response of Inr (st', resp, ok) \<Rightarrow> st' | Inl e \<Rightarrow> st)"
  have env: "ae_ec_verify env = ec" "P (ae_clock env)" using Cons.prems by (auto simp: request)
  have "\<exists>calls. ds_cache st1 = check_proofs ec calls (ds_cache st) \<and> (\<forall>(clock, pf, opts) \<in> set calls. P (proof_time clock opts))"
  proof (cases "authorize_request env config req st new_response")
    case (Inl e)
    then have "ds_cache st1 = check_proofs ec [] (ds_cache st)" by (simp add: st1_def check_proofs_def)
    then show ?thesis by (metis empty_iff list.set(1))
  next
    case (Inr v)
    then obtain resp ok where "authorize_request env config req st new_response = Inr (st1, resp, ok)"
      by (cases v) (simp add: st1_def)
    from authorize_cache [OF this] env show ?thesis by fastforce
  qed
  then obtain calls1 where calls1: "ds_cache st1 = check_proofs ec calls1 (ds_cache st)"
      "\<forall>(clock, pf, opts) \<in> set calls1. P (proof_time clock opts)" by blast
  obtain calls2 where calls2: "ds_cache (authorize_all requests st1) = check_proofs ec calls2 (ds_cache st1)"
      "\<forall>(clock, pf, opts) \<in> set calls2. P (proof_time clock opts)"
    using Cons.IH [of st1] Cons.prems by auto
  have "authorize_all (request # requests) st = authorize_all requests st1"
    by (simp add: authorize_all_def request st1_def)
  then have "ds_cache (authorize_all (request # requests) st) = check_proofs ec (calls1 @ calls2) (ds_cache st)"
    using calls1(1) calls2(1) by (simp add: check_proofs_append)
  then show ?case using calls1(2) calls2(2) by (metis (no_types, lifting) Un_iff set_append)
qed

lemma dpop_authorized:
  assumes "authorize_request env (Some c) req st resp = Inr (st', resp', True)" "bc_enable_dpop c"
  shows "\<exists>pf opts. get_mcp_header req ''dpop'' = Some pf \<and> dv_window opts = 300 \<and> proof_time (ae_clock env) opts = ae_clock env \<and>
    verify_proof (ae_ec_verify env) (ae_clock env) pf opts (ds_cache st) = (ds_cache st', True)"
proof -
  from assms authorize_dpop_cases [of env c req st resp st' resp' True]
  obtain token where "proof_checked env req token (ds_cache st) (ds_cache st') True"
    by (auto simp: authorize_request_def)
  then obtain pf nonce opts where "get_mcp_header req ''dpop'' = Some pf" "verify_options req token nonce = Some opts"
      "verify_proof (ae_ec_verify env) (ae_clock env) pf opts (ds_cache st) = (ds_cache st', True)"
    unfolding proof_checked_def by blast
  with verify_options_window proof_time_of show ?thesis by blast
qed

text \<open>C10: where proofs of possession are required, one proof lets one request in: after a request has been let in, no
  later request with the same proof is, whatever requests came before and in between, to this transport or to others
  of the process, as long as the clock does not run backwards.\<close>

theorem proof_authorizes_once:
  assumes start: "ds_cache st0 = new_jti_cache 300"
    and first: "authorize_request env (Some c) req (authorize_all before st0) resp = Inr (st1, resp1, True)"
    and dpop: "bc_enable_dpop c" "bc_enable_dpop c'"
    and same: "get_mcp_header req' ''dpop'' = get_mcp_header req ''dpop''"
    and time: "0 \<le> sint (ae_clock env)" "sint (ae_clock env) \<le> sint (ae_clock env')" "sint (ae_clock env') < 2 ^ 62"
      "\<forall>(e, config, q) \<in> set between. sint (ae_clock env) \<le> sint (ae_clock e) \<and> sint (ae_clock e) \<le> sint (ae_clock env')"
    and crypto: "\<forall>(e, config, q) \<in> set before \<union> set between \<union> {(env, None, req), (env', None, req')}. ae_ec_verify e = ec"
  shows "authorize_request env' (Some c') req' (authorize_all between st1) resp' \<noteq> Inr (st2, resp2, True)"
proof
  assume again: "authorize_request env' (Some c') req' (authorize_all between st1) resp' = Inr (st2, resp2, True)"
  have ec: "ae_ec_verify env = ec" "ae_ec_verify env' = ec" using crypto by auto
  obtain calls0 where c0: "ds_cache (authorize_all before st0) = check_proofs ec calls0 (new_jti_cache 300)"
    using authorize_all_cache [of before ec "\<lambda>t. True" st0] crypto start by auto
  have calm: "\<forall>(e, config, q) \<in> set between. ae_ec_verify e = ec \<and>
      (\<lambda>t. sint (ae_clock env) \<le> sint t \<and> sint t \<le> sint (ae_clock env')) (ae_clock e)"
    using crypto time(4) by fastforce
  obtain calls1 where c1: "ds_cache (authorize_all between st1) = check_proofs ec calls1 (ds_cache st1)"
      "\<forall>(clock, pf, opts) \<in> set calls1. sint (ae_clock env) \<le> sint (proof_time clock opts) \<and>
         sint (proof_time clock opts) \<le> sint (ae_clock env')"
    using authorize_all_cache [OF calm, of st1] by blast
  obtain pf opts where pf: "get_mcp_header req ''dpop'' = Some pf" "dv_window opts = 300"
      "proof_time (ae_clock env) opts = ae_clock env"
      "verify_proof ec (ae_clock env) pf opts (check_proofs ec calls0 (new_jti_cache 300)) = (ds_cache st1, True)"
    using dpop_authorized [OF first dpop(1)] c0 ec by auto
  obtain opts' where pf': "dv_window opts' = 300" "proof_time (ae_clock env') opts' = ae_clock env'"
      "verify_proof ec (ae_clock env') pf opts' (check_proofs ec calls1 (ds_cache st1)) = (ds_cache st2, True)"
    using dpop_authorized [OF again dpop(2)] c1(1) ec same pf(1) by auto
  have "\<not> snd (verify_proof ec (ae_clock env') pf opts' (check_proofs ec calls1
      (fst (verify_proof ec (ae_clock env) pf opts (check_proofs ec calls0 (new_jti_cache 300))))))"
    by (rule proof_accepted_once) (use pf pf' time c1(2) in simp_all)
  then show False using pf(4) pf'(3) by simp
qed

section \<open>A request with a proof\<close>

definition sample_config :: bearer_config where
  "sample_config = \<lparr>bc_verify = (\<lambda>token. Inr \<lparr>ar_ok = token = ''t'', ar_scopes = [''read''], ar_resource = Some ''http://h/mcp/''\<rparr>),
     bc_metadata_url = ''http://h/.well-known/oauth-protected-resource'', bc_scopes_supported = [''read''],
     bc_required_scopes = [''read''], bc_authorization_servers = [], bc_serve_metadata = True,
     bc_expected_resource = ''http://h/mcp'', bc_validate_resource = True, bc_enable_dpop = True\<rparr>"

definition sample_http_request :: http_request where
  "sample_http_request = \<lparr>hq_method = ''POST'', hq_path = ''/mcp'',
     hq_headers = [(''authorization'', ''DPoP t''), (''dpop'', sample_proof), (''host'', ''h'')], hq_body = []\<rparr>"

definition sample_env :: "i64 \<Rightarrow> auth_env" where
  "sample_env clock = \<lparr>ae_clock = clock, ae_ec_verify = sample_check, ae_rand_bytes = (\<lambda>n. Some (replicate n (chr 9)))\<rparr>"

definition sample_state :: dpop_state where
  "sample_state = \<lparr>ds_cache = new_jti_cache 300, ds_nonce = ''n''\<rparr>"

lemma sample_headers:
  "get_mcp_header sample_http_request ''authorization'' = Some ''DPoP t''" "get_mcp_header sample_http_request ''dpop'' = Some sample_proof"
  "get_mcp_header sample_http_request ''host'' = Some ''h''"
proof -
  have "to_lower ''authorization'' = ''authorization''" "to_lower ''dpop'' = ''dpop''" "to_lower ''host'' = ''host''"
    by code_simp+
  then show "get_mcp_header sample_http_request ''authorization'' = Some ''DPoP t''"
    "get_mcp_header sample_http_request ''dpop'' = Some sample_proof" "get_mcp_header sample_http_request ''host'' = Some ''h''"
    by (simp_all add: get_mcp_header_def sample_http_request_def)
qed

lemma sample_verify_options: "verify_options sample_http_request ''t'' ''n'' = Some sample_options"
  by (simp add: verify_options_def sample_headers) (simp add: sample_http_request_def sample_options_def Let_def)

lemma sample_proof_ok:
  "\<exists>cache. proof_ok (sample_env 1100) sample_http_request ''t'' sample_state = Inr (sample_state\<lparr>ds_cache := cache\<rparr>, True)"
proof -
  have nonempty: "sample_proof \<noteq> []"
    using accepted_claims [OF sample_accepted] by (auto simp: proof_claims_def proof_segments_def split: if_splits)
  have options: "verify_options sample_http_request ''t'' [] \<noteq> None"
    by (simp add: verify_options_def sample_headers) (simp add: sample_http_request_def Let_def)
  obtain cache where "verify_proof sample_check 1100 sample_proof sample_options (new_jti_cache 300) = (cache, True)"
    using sample_accepted by (metis prod.collapse)
  then show ?thesis
    using nonempty options
    by (simp add: proof_ok_def sample_headers current_server_nonce_def sample_state_def sample_verify_options)
       (simp add: sample_env_def)
qed

lemma sample_request_authorized:
  "\<exists>st resp. authorize_request (sample_env 1100) (Some sample_config) sample_http_request sample_state new_response = Inr (st, resp, True)"
proof -
  obtain cache where cache:
      "proof_ok (sample_env 1100) sample_http_request ''t'' sample_state = Inr (sample_state\<lparr>ds_cache := cache\<rparr>, True)"
    using sample_proof_ok by blast
  have "is_dpop_authorization ''DPoP t''" "trim_in_place (drop 5 ''DPoP t'') = ''t''"
      "normalize_resource_url ''http://h/mcp/'' = normalize_resource_url ''http://h/mcp''"
    by code_simp+
  then show ?thesis
    using cache
    by (simp add: authorize_request_def authorize_dpop_def sample_headers sample_config_def audience_ok_def scopes_ok_def
        dpop_answer_def current_server_nonce_def sample_state_def)
qed


theorem proof_authorizes_once_witness:
  "\<exists>st1 resp1. authorize_request (sample_env 1100) (Some sample_config) sample_http_request sample_state new_response =
     Inr (st1, resp1, True) \<and>
   (\<forall>st2 resp2. authorize_request (sample_env 1200) (Some sample_config) sample_http_request
     (authorize_all [(sample_env 1150, None, sample_http_request)] st1) new_response \<noteq> Inr (st2, resp2, True))"
proof -
  obtain st1 resp1 where first: "authorize_request (sample_env 1100) (Some sample_config) sample_http_request
      (authorize_all [] sample_state) new_response = Inr (st1, resp1, True)"
    using sample_request_authorized by (auto simp: authorize_all_def)
  have "authorize_request (sample_env 1200) (Some sample_config) sample_http_request
     (authorize_all [(sample_env 1150, None, sample_http_request)] st1) new_response \<noteq> Inr (st2, resp2, True)" for st2 resp2
    by (rule proof_authorizes_once [OF _ first, where ec = sample_check])
       (simp_all add: sample_state_def sample_config_def sample_env_def)
  with first show ?thesis by (auto simp: authorize_all_def)
qed

end
