(* ===== verification/Http_Filters.thy ===== *)
theory Http_Filters
  imports Http_Access
begin

text \<open>
  What the HTTP server transport reads out of messages and headers before it touches its state
  (\<open>src/http/StreamableHttpServerTransport.cpp\<close>): the filter of a listening stream and the tag that carries it to the
  stream, progress tokens, the codes that become a status, the check of the headers against the body, entity tags.
\<close>

section \<open>Listening streams\<close>

record listen_filter =
  lf_tools :: bool
  lf_prompts :: bool
  lf_resources :: bool
  lf_uris :: "string list"

definition true_flag :: "json \<Rightarrow> string \<Rightarrow> bool" where
  "true_flag j key \<longleftrightarrow> json_find key j = Some (JBool True)"

definition string_entries :: "json option \<Rightarrow> string list" where
  "string_entries v =
     (case v of Some (JArray xs) \<Rightarrow> concat (map (\<lambda>x. case x of JString s \<Rightarrow> [s] | _ \<Rightarrow> []) xs) | _ \<Rightarrow> [])"

definition parse_listen_filter :: "rpc_request \<Rightarrow> listen_filter" where
  "parse_listen_filter req =
     (case rq_params req of
        Some (JObject m) \<Rightarrow>
          (case amap_find ''notifications'' m of
             Some (JObject section) \<Rightarrow>
               \<lparr>lf_tools = true_flag (JObject section) ''toolsListChanged'',
                lf_prompts = true_flag (JObject section) ''promptsListChanged'',
                lf_resources = true_flag (JObject section) ''resourcesListChanged'',
                lf_uris = string_entries (amap_find ''resourceSubscriptions'' section)\<rparr>
           | _ \<Rightarrow> \<lparr>lf_tools = False, lf_prompts = False, lf_resources = False, lf_uris = []\<rparr>)
      | _ \<Rightarrow> \<lparr>lf_tools = False, lf_prompts = False, lf_resources = False, lf_uris = []\<rparr>)"

definition stream_key :: string where "stream_key = ''__stream''"
definition session_key :: string where "session_key = ''__session''"

definition listen_tag_json :: "listen_filter \<Rightarrow> string \<Rightarrow> json" where
  "listen_tag_json f session = build_object [
     put stream_key (JString ''listen''),
     put_if (session \<noteq> []) session_key (JString session),
     put ''toolsListChanged'' (JBool (lf_tools f)),
     put ''promptsListChanged'' (JBool (lf_prompts f)),
     put ''resourcesListChanged'' (JBool (lf_resources f)),
     put_vector ''resourceSubscriptions'' JString (lf_uris f)]"

definition encode_listen_tag :: "listen_filter \<Rightarrow> string \<Rightarrow> string" where
  "encode_listen_tag f session = dump (- 1) (listen_tag_json f session)"

definition sse_stream_tag_json :: "string \<Rightarrow> json" where
  "sse_stream_tag_json session = build_object [
     put stream_key (JString ''get''), put_if (session \<noteq> []) session_key (JString session)]"

definition encode_sse_stream_tag :: "string \<Rightarrow> string" where
  "encode_sse_stream_tag session = dump (- 1) (sse_stream_tag_json session)"

definition tag_matches_session :: "string \<Rightarrow> string \<Rightarrow> bool" where
  "tag_matches_session tag session =
     (if session = [] then True
      else if tag = [] then False
      else (case parse_document tag of
              Inl e \<Rightarrow> False
            | Inr doc \<Rightarrow> is_object doc \<and> json_find session_key doc = Some (JString session)))"

definition is_listen_filtered_notification :: "string \<Rightarrow> bool" where
  "is_listen_filtered_notification method \<longleftrightarrow>
     method \<in> {''notifications/tools/list_changed'', ''notifications/prompts/list_changed'',
       ''notifications/resources/list_changed'', ''notifications/resources/updated''}"

definition listen_tag_accepts :: "string \<Rightarrow> string \<Rightarrow> string option \<Rightarrow> bool" where
  "listen_tag_accepts tag method uri =
     (if tag = [] then True
      else (case parse_document tag of
              Inl e \<Rightarrow> True
            | Inr doc \<Rightarrow>
                if \<not> is_object doc then True
                else if json_find stream_key doc = Some (JString ''get'') then True
                else if method = ''notifications/tools/list_changed'' then true_flag doc ''toolsListChanged''
                else if method = ''notifications/prompts/list_changed'' then true_flag doc ''promptsListChanged''
                else if method = ''notifications/resources/list_changed'' then true_flag doc ''resourcesListChanged''
                else if method = ''notifications/resources/updated'' then
                  (case uri of None \<Rightarrow> False
                   | Some u \<Rightarrow> u \<in> set (string_entries (json_find ''resourceSubscriptions'' doc)))
                else True))"

text \<open>What the stream of a filter wants, in terms of the filter itself.\<close>

definition filter_wants :: "listen_filter \<Rightarrow> string \<Rightarrow> string option \<Rightarrow> bool" where
  "filter_wants f method uri =
     (if method = ''notifications/tools/list_changed'' then lf_tools f
      else if method = ''notifications/prompts/list_changed'' then lf_prompts f
      else if method = ''notifications/resources/list_changed'' then lf_resources f
      else if method = ''notifications/resources/updated'' then (case uri of None \<Rightarrow> False | Some u \<Rightarrow> u \<in> set (lf_uris f))
      else True)"

section \<open>Small readers\<close>

definition request_stream_token_from_object :: "json \<Rightarrow> string option" where
  "request_stream_token_from_object obj =
     (case json_find ''progressToken'' obj of
        Some (JString s) \<Rightarrow> Some s
      | Some (JInt i) \<Rightarrow> Some (dec_int (sint i))
      | _ \<Rightarrow> None)"

definition request_token_key :: "rpc_request \<Rightarrow> string option" where
  "request_token_key req =
     (case (case rq_meta req of Some (JObject m) \<Rightarrow> request_stream_token_from_object (JObject m) | _ \<Rightarrow> None) of
        Some key \<Rightarrow> Some key
      | None \<Rightarrow>
          (case rq_params req of
             Some (JObject p) \<Rightarrow>
               (case amap_find ''_meta'' p of Some (JObject m) \<Rightarrow> request_stream_token_from_object (JObject m) | _ \<Rightarrow> None)
           | _ \<Rightarrow> None))"

definition notification_token_key :: "rpc_notification \<Rightarrow> string option" where
  "notification_token_key n =
     (case nt_params n of Some (JObject p) \<Rightarrow> request_stream_token_from_object (JObject p) | _ \<Rightarrow> None)"

definition updated_resource_uri :: "rpc_notification \<Rightarrow> string option" where
  "updated_resource_uri n =
     (case nt_params n of
        Some (JObject p) \<Rightarrow> (case amap_find ''uri'' p of Some (JString u) \<Rightarrow> Some u | _ \<Rightarrow> None)
      | _ \<Rightarrow> None)"

definition map_request_error_http_status :: "error_code \<Rightarrow> int option" where
  "map_request_error_http_status code =
     (if code \<in> {ParseError, InvalidRequest, InvalidParams, HeaderMismatch, MissingRequiredClientCapability,
                 UnsupportedProtocolVersion} then Some 400
      else if code = MethodNotFound then Some 404 else None)"

definition probe_request_id :: "string \<Rightarrow> request_id option" where
  "probe_request_id body =
     (case parse_document body of
        Inl e \<Rightarrow> None
      | Inr parsed \<Rightarrow>
          (case json_find ''id'' parsed of Some (JInt i) \<Rightarrow> Some (IdInt i) | Some (JString s) \<Rightarrow> Some (IdString s) | _ \<Rightarrow> None))"

definition message_request_id :: "rpc_message \<Rightarrow> request_id option" where
  "message_request_id msg = (case msg of MsgRequest r \<Rightarrow> Some (rq_id r) | _ \<Rightarrow> None)"

definition is_removed_stateless_method :: "string \<Rightarrow> bool" where
  "is_removed_stateless_method method \<longleftrightarrow>
     method \<in> {''initialize'', ''ping'', ''logging/setLevel'', ''resources/subscribe'', ''resources/unsubscribe''}"

definition declared_meta_version :: "rpc_request \<Rightarrow> string option" where
  "declared_meta_version req =
     (case rq_meta req of
        Some (JObject m) \<Rightarrow>
          (case amap_find ''io.modelcontextprotocol/protocolVersion'' m of
             Some (JString v) \<Rightarrow> if v = [] then None else Some v | _ \<Rightarrow> None)
      | _ \<Rightarrow> None)"

definition has_required_stateless_meta :: "rpc_request \<Rightarrow> bool" where
  "has_required_stateless_meta req \<longleftrightarrow> declared_meta_version req \<noteq> None \<and>
     (case rq_meta req of
        Some (JObject m) \<Rightarrow>
          (case amap_find ''io.modelcontextprotocol/clientCapabilities'' m of Some v \<Rightarrow> is_object v | None \<Rightarrow> False)
      | _ \<Rightarrow> False)"

definition is_task_method :: "string \<Rightarrow> bool" where
  "is_task_method method \<longleftrightarrow> method \<in> {''tasks/get'', ''tasks/update'', ''tasks/cancel''}"

definition is_task_stream_notification :: "string \<Rightarrow> bool" where
  "is_task_stream_notification method \<longleftrightarrow>
     method \<in> {''notifications/tasks/status'', ''notifications/tasks/working'', ''notifications/tasks/completed'',
       ''notifications/tasks/failed'', ''notifications/tasks/cancelled'', ''notifications/tasks/input_required''}"

definition requires_mcp_name_header :: "string \<Rightarrow> bool" where
  "requires_mcp_name_header method \<longleftrightarrow>
     method \<in> {''tools/call'', ''resources/read'', ''prompts/get''} \<or> is_task_method method"

definition is_supported_protocol_version :: "string \<Rightarrow> bool" where
  "is_supported_protocol_version version \<longleftrightarrow> version \<in> set protocol_versions"

text \<open>\<open>NormalizeEtagValue\<close>: blanks, the weak prefix and one pair of quotation marks are taken off.\<close>

definition normalize_etag_value :: "string \<Rightarrow> string" where
  "normalize_etag_value v =
     (let s = trim_in_place v;
          s1 = (if 2 \<le> length s \<and> (hd s = CHR ''W'' \<or> hd s = CHR ''w'') \<and> s ! 1 = CHR ''/'' then drop 2 s else s)
      in if 2 \<le> length s1 \<and> hd s1 = dquote \<and> last s1 = dquote then butlast (tl s1) else s1)"

definition result_etag_value :: "rpc_message \<Rightarrow> string option" where
  "result_etag_value msg =
     (case msg of
        MsgResponse r \<Rightarrow>
          (case rs_result r of
             JObject m \<Rightarrow> (case amap_find ''etag'' m of Some (JString e) \<Rightarrow> if e = [] then None else Some e | _ \<Rightarrow> None)
           | _ \<Rightarrow> None)
      | _ \<Rightarrow> None)"

section \<open>Errors of the transport itself\<close>

definition respond_stateless_error ::
  "int \<Rightarrow> string \<Rightarrow> error_code \<Rightarrow> string \<Rightarrow> request_id option \<Rightarrow> json option \<Rightarrow> http_response \<Rightarrow> http_response" where
  "respond_stateless_error status status_text code message rid data resp =
     respond_literal status status_text
       (dump (- 1) (build_object [
          put ''jsonrpc'' (JString ''2.0''),
          put ''id'' (case rid of Some i \<Rightarrow> request_id_to_json i | None \<Rightarrow> JNull),
          put ''error'' (build_object [
            put ''code'' (JInt (scast code)), put ''message'' (JString message), put_opt ''data'' (\<lambda>x. x) data])]))
       resp"

definition respond_header_mismatch :: "string \<Rightarrow> request_id option \<Rightarrow> http_response \<Rightarrow> http_response" where
  "respond_header_mismatch message rid = respond_stateless_error 400 ''Bad Request'' HeaderMismatch message rid None"

definition apostrophed :: "string \<Rightarrow> string" where
  "apostrophed s = [chr 39] @ s @ [chr 39]"

definition respond_unsupported_version :: "string \<Rightarrow> request_id option \<Rightarrow> http_response \<Rightarrow> http_response" where
  "respond_unsupported_version version rid =
     respond_stateless_error 400 ''Bad Request'' UnsupportedProtocolVersion
       (''Unsupported protocol version '' @ apostrophed version) rid
       (Some (build_object [put ''supported'' (JArray (map JString protocol_versions)), put ''requested'' (JString version)]))"

section \<open>Headers against the body\<close>

definition string_member :: "string \<Rightarrow> json option \<Rightarrow> string" where
  "string_member key obj =
     (case obj of Some (JObject m) \<Rightarrow> (case amap_find key m of Some (JString s) \<Rightarrow> s | _ \<Rightarrow> []) | _ \<Rightarrow> [])"

text \<open>\<open>ValidateMcpHeaders\<close>: what is wrong with the headers \<open>Mcp-Method\<close> and \<open>Mcp-Name\<close>, if anything.\<close>

definition effective_name :: "string \<Rightarrow> string" where
  "effective_name name_header = (case decode_header_value name_header of Some (JString s) \<Rightarrow> s | _ \<Rightarrow> name_header)"

definition validate_mcp_headers :: "string \<Rightarrow> string \<Rightarrow> json \<Rightarrow> string option" where
  "validate_mcp_headers method_header name_header body =
     (let body_method = string_member ''method'' (Some body);
          params = json_find ''params'' body
      in if method_header \<noteq> [] \<and> body_method \<noteq> [] \<and> method_header \<noteq> body_method then
           Some (''Mcp-Method header '' @ apostrophed method_header @ '' does not match body method '' @ apostrophed body_method)
         else if name_header = [] then None
         else (let name = effective_name name_header
               in if is_task_method body_method then
                    (let task = string_member ''taskId'' params
                     in if task = [] then Some ''tasks request missing valid taskId''
                        else if task \<noteq> name then Some (''Mcp-Name header '' @ apostrophed name @
                          '' does not match body params taskId '' @ apostrophed task)
                        else None)
                  else (let body_name = (if string_member ''name'' params \<noteq> [] then string_member ''name'' params
                          else string_member ''uri'' params)
                        in if body_name \<noteq> [] \<and> name \<noteq> body_name then Some (''Mcp-Name header '' @ apostrophed name @
                             '' does not match body params name '' @ apostrophed body_name)
                           else None)))"

section \<open>The tag of a stream says what its filter says\<close>

lemma tag_keys:
  "utf8_valid stream_key" "utf8_valid session_key" "utf8_valid ''toolsListChanged''" "utf8_valid ''promptsListChanged''"
  "utf8_valid ''resourcesListChanged''" "utf8_valid ''resourceSubscriptions''" "utf8_valid ''listen''" "utf8_valid ''get''"
  by (rule utf8_ascii, simp add: byte_of_def stream_key_def session_key_def)+

lemma fits_more: "fits l (JBool b) \<longleftrightarrow> l \<le> max_depth"
    "list_all utf8_valid ss \<Longrightarrow> l < max_depth \<Longrightarrow> fits l (JArray (map JString ss))"
proof -
  show "fits l (JBool b) \<longleftrightarrow> l \<le> max_depth" by (simp add: fits_def)
  assume ss: "list_all utf8_valid ss" and l: "l < max_depth"
  have "json_depth (JArray (map JString ss)) \<le> 1" by (cases "ss = []") (auto simp: image_constant_conv)
  then show "fits l (JArray (map JString ss))"
    using ss l by (auto simp: fits_def json_clean_def list_all_iff)
qed

lemma tag_parsed:
  assumes "utf8_valid session" "list_all utf8_valid (lf_uris f)"
  shows "parse_document (encode_listen_tag f session) = Inr (listen_tag_json f session)"
  unfolding encode_listen_tag_def
proof (rule fits_text)
  have "0 < max_depth" "1 < max_depth" by (simp_all add: max_depth_def)
  with assms show "fits 0 (listen_tag_json f session)"
    by (simp add: listen_tag_json_def build_object_def fits_object put_vector_def put_if_def tag_keys fits_more)
qed

lemma tag_find:
  "is_object (listen_tag_json f session)"
  "json_find stream_key (listen_tag_json f session) = Some (JString ''listen'')"
  "json_find session_key (listen_tag_json f session) = (if session = [] then None else Some (JString session))"
  "json_find ''toolsListChanged'' (listen_tag_json f session) = Some (JBool (lf_tools f))"
  "json_find ''promptsListChanged'' (listen_tag_json f session) = Some (JBool (lf_prompts f))"
  "json_find ''resourcesListChanged'' (listen_tag_json f session) = Some (JBool (lf_resources f))"
  "json_find ''resourceSubscriptions'' (listen_tag_json f session) =
     (if lf_uris f = [] then None else Some (JArray (map JString (lf_uris f))))"
  by (simp_all add: listen_tag_json_def build_object_def put_def put_if_def put_vector_def stream_key_def session_key_def)

lemma dump_object_not_Nil: "is_object j \<Longrightarrow> dump i j \<noteq> []"
  by (cases j) (simp_all add: dump_def)

lemma string_entries_strings: "string_entries (Some (JArray (map JString ss))) = ss"
  by (induction ss) (simp_all add: string_entries_def)

text \<open>C20: the tag that a listening stream carries gives back its filter: a notification passes the tag exactly when the
  filter the client asked for wants it, and the tag belongs to exactly the session that opened the stream.\<close>

theorem listen_tag_exact:
  assumes "utf8_valid session" "list_all utf8_valid (lf_uris f)"
  shows "listen_tag_accepts (encode_listen_tag f session) method uri = filter_wants f method uri \<and>
    (tag_matches_session (encode_listen_tag f session) s \<longleftrightarrow> s = [] \<or> s = session)"
proof
  have nonempty: "encode_listen_tag f session \<noteq> []"
    by (simp add: encode_listen_tag_def dump_object_not_Nil tag_find(1))
  show "listen_tag_accepts (encode_listen_tag f session) method uri = filter_wants f method uri"
    using nonempty
    by (auto simp: listen_tag_accepts_def tag_parsed [OF assms] tag_find filter_wants_def true_flag_def
        string_entries_strings string_entries_def split: option.split)
  show "tag_matches_session (encode_listen_tag f session) s \<longleftrightarrow> s = [] \<or> s = session"
    using nonempty by (auto simp: tag_matches_session_def tag_parsed [OF assms] tag_find)
qed

definition sample_filter :: listen_filter where
  "sample_filter = \<lparr>lf_tools = True, lf_prompts = False, lf_resources = False, lf_uris = [''file:///a'']\<rparr>"

theorem listen_tag_exact_witness:
  "listen_tag_accepts (encode_listen_tag sample_filter ''s'') ''notifications/resources/updated'' (Some ''file:///a'') \<and>
   \<not> listen_tag_accepts (encode_listen_tag sample_filter ''s'') ''notifications/resources/updated'' (Some ''file:///b'') \<and>
   \<not> tag_matches_session (encode_listen_tag sample_filter ''s'') ''t''"
proof -
  have "utf8_valid ''s''" "list_all utf8_valid (lf_uris sample_filter)"
    by (simp_all add: sample_filter_def utf8_ascii byte_of_def)
  from listen_tag_exact [OF this] show ?thesis by (simp add: filter_wants_def sample_filter_def)
qed

end
