(* ===== verification/Http_Sessions.thy ===== *)
theory Http_Sessions
  imports Http_Filters Session_Store
begin

text \<open>
  The sessions of the HTTP server transport: \<open>ResolveSession\<close>, \<open>TouchSession\<close>, \<open>HasSession\<close> and
  \<open>SessionProtocolVersion\<close> of \<open>src/http/StreamableHttpServerTransport.cpp\<close>.  Times are milliseconds; a call reads the
  clock once.  The 16 random bytes of a new identifier are an argument.  A session store, where one is configured, is the
  in-memory one.
\<close>

record http_session =
  hn_version :: string
  hn_last_seen :: int

record http_sessions =
  hs_map :: "(string, http_session) amap"
  hs_store :: "session_store option"

definition make_session_id :: "string \<Rightarrow> string" where
  "make_session_id bytes = ''sess-'' @ hex_encode bytes"

text \<open>The entries that a sweep of the transport's own map keeps.\<close>

definition entry_idle :: "int \<Rightarrow> http_session \<Rightarrow> bool" where
  "entry_idle now e \<longleftrightarrow> session_idle_timeout < now - hn_last_seen e"

definition or_default :: "string \<Rightarrow> string" where
  "or_default version = (if version = [] then default_negotiated_version else version)"

text \<open>The new entry of a session that was found: seen now, and renamed by an \<open>initialize\<close>.\<close>

definition touched :: "int \<Rightarrow> bool \<Rightarrow> string \<Rightarrow> http_session \<Rightarrow> http_session" where
  "touched now is_init version e =
     (let e' = e\<lparr>hn_last_seen := now\<rparr> in if is_init \<and> version \<noteq> [] then e'\<lparr>hn_version := version\<rparr> else e')"

definition touch_session :: "int \<Rightarrow> string \<Rightarrow> bool \<Rightarrow> string \<Rightarrow> http_sessions \<Rightarrow> http_sessions \<times> bool" where
  "touch_session now sid is_init version st =
     (case hs_store st of
        Some store \<Rightarrow>
          (case load_session now sid store of
             (store', None) \<Rightarrow> (st\<lparr>hs_store := Some store', hs_map := amap_erase sid (hs_map st)\<rparr>, False)
           | (store', Some r) \<Rightarrow>
               (st\<lparr>hs_store := Some store',
                   hs_map := amap_put sid
                     (case amap_find sid (hs_map st) of
                        None \<Rightarrow> \<lparr>hn_version = or_default (sr_version r), hn_last_seen = now\<rparr>
                      | Some e \<Rightarrow> touched now is_init version e) (hs_map st)\<rparr>, True))
      | None \<Rightarrow>
          (case amap_find sid (hs_map st) of
             None \<Rightarrow> (st, False)
           | Some e \<Rightarrow>
               if entry_idle now e then (st\<lparr>hs_map := amap_erase sid (hs_map st)\<rparr>, False)
               else (st\<lparr>hs_map := amap_put sid (touched now is_init version e) (hs_map st)\<rparr>, True)))"

definition session_protocol_version :: "string \<Rightarrow> http_sessions \<Rightarrow> string" where
  "session_protocol_version sid st =
     (if sid = [] then default_negotiated_version
      else (case amap_find sid (hs_map st) of None \<Rightarrow> default_negotiated_version | Some e \<Rightarrow> or_default (hn_version e)))"

definition has_session :: "int \<Rightarrow> string \<Rightarrow> http_sessions \<Rightarrow> http_sessions \<times> bool" where
  "has_session now sid st =
     (let (st1, loaded) = (case hs_store st of
            None \<Rightarrow> (st, False)
          | Some store \<Rightarrow> (case load_session now sid store of (store', r) \<Rightarrow> (st\<lparr>hs_store := Some store'\<rparr>, r \<noteq> None)))
      in if loaded then (st1, True)
         else (case amap_find sid (hs_map st1) of
                 None \<Rightarrow> (st1, False)
               | Some e \<Rightarrow>
                   if hs_store st = None \<and> entry_idle now e then (st1\<lparr>hs_map := amap_erase sid (hs_map st1)\<rparr>, False)
                   else (st1, True)))"

definition respond_session_expired :: "http_response \<Rightarrow> http_response" where
  "respond_session_expired = respond_literal 404 ''Not Found'' (error_body SessionExpired ''Session expired'')"

definition respond_unavailable :: "string \<Rightarrow> http_response \<Rightarrow> http_response" where
  "respond_unavailable message = respond_literal 503 ''Service Unavailable'' (error_body ConnectionClosed message)"

text \<open>The session that is opened for an \<open>initialize\<close> without one.\<close>

definition open_session :: "int \<Rightarrow> string \<Rightarrow> string \<Rightarrow> http_sessions \<Rightarrow> http_response \<Rightarrow>
    http_sessions \<times> http_response \<times> string option" where
  "open_session now candidate protocol_version st resp =
     (let version = or_default protocol_version;
          record = \<lparr>sr_version = version, sr_created_at = now, sr_last_seen = now\<rparr>;
          (store, saved) = (case hs_store st of
             None \<Rightarrow> (None, True)
           | Some store \<Rightarrow> (case try_save now candidate record store of (store', ok) \<Rightarrow> (Some store', ok)))
      in if \<not> saved then (st\<lparr>hs_store := store\<rparr>, respond_unavailable ''session store is full'' resp, None)
         else (let swept = filter (\<lambda>(sid, e). \<not> entry_idle now e) (hs_map st)
               in if max_http_sessions \<le> length swept then
                    (st\<lparr>hs_store := map_option (remove_session candidate) store, hs_map := swept\<rparr>,
                     respond_unavailable ''session capacity exceeded'' resp, None)
                  else (st\<lparr>hs_store := store,
                           hs_map := amap_put candidate \<lparr>hn_version = version, hn_last_seen = now\<rparr> swept\<rparr>,
                        resp, Some candidate)))"

text \<open>The session of a request, the empty one included; \<open>None\<close> when the response refuses the request.\<close>

definition resolve_session ::
  "bool \<Rightarrow> int \<Rightarrow> string \<Rightarrow> http_request \<Rightarrow> bool \<Rightarrow> string \<Rightarrow> http_sessions \<Rightarrow> http_response \<Rightarrow>
   http_sessions \<times> http_response \<times> string option" where
  "resolve_session stateless now bytes req is_init protocol_version st resp =
     (if stateless then (st, resp, Some [])
      else (case get_mcp_header req ''mcp-session-id'' of
              Some sid \<Rightarrow>
                if sid \<noteq> [] then
                  (case touch_session now sid is_init protocol_version st of
                     (st', True) \<Rightarrow> (st', resp, Some sid)
                   | (st', False) \<Rightarrow> (st', respond_session_expired resp, None))
                else if is_init then open_session now (make_session_id bytes) protocol_version st resp
                else (st, resp, Some [])
            | None \<Rightarrow>
                if is_init then open_session now (make_session_id bytes) protocol_version st resp
                else (st, resp, Some [])))"

text \<open>The sessions after a \<open>DELETE\<close>: what \<open>EraseSession\<close> does to them, when \<open>HasSession\<close> finds the one that is named.\<close>

definition erase_entries :: "string \<Rightarrow> http_sessions \<Rightarrow> http_sessions" where
  "erase_entries sid st =
     \<lparr>hs_map = amap_erase sid (hs_map st), hs_store = map_option (remove_session sid) (hs_store st)\<rparr>"

definition end_session :: "int \<Rightarrow> string \<Rightarrow> http_sessions \<Rightarrow> http_sessions" where
  "end_session now sid st =
     (if sid = [] then st
      else (case has_session now sid st of (st', True) \<Rightarrow> erase_entries sid st' | (st', False) \<Rightarrow> st'))"

section \<open>A session store makes no difference\<close>

text \<open>The outcome of a request: the status as far as it is decided, the session, and its version.\<close>

type_synonym resolve_op = "int \<times> string \<times> http_request \<times> bool \<times> string"

definition resolve_op :: "resolve_op \<Rightarrow> http_sessions \<Rightarrow> http_sessions \<times> int \<times> string option \<times> string option" where
  "resolve_op op st =
     (case op of (now, bytes, req, is_init, version) \<Rightarrow>
        (case resolve_session False now bytes req is_init version st new_response of
           (st', resp, sid) \<Rightarrow> (st', hp_status resp, sid, map_option (\<lambda>s. session_protocol_version s st') sid)))"

definition op_now :: "resolve_op \<Rightarrow> int" where "op_now op = fst op"
definition op_candidate :: "resolve_op \<Rightarrow> string" where "op_candidate op = make_session_id (fst (snd op))"

text \<open>The requests of a run: a post or a stream that resolves its session, and the end of a session by a \<open>DELETE\<close> at some time.
  The outcomes are those of the posts and streams.\<close>

datatype session_op = Resolve resolve_op | EndSession int string

fun run_requests :: "session_op list \<Rightarrow> http_sessions \<Rightarrow> (int \<times> string option \<times> string option) list" where
  "run_requests [] st = []"
| "run_requests (Resolve op # ops) st = (case resolve_op op st of (st', out) \<Rightarrow> out # run_requests ops st')"
| "run_requests (EndSession now sid # ops) st = run_requests ops (end_session now sid st)"

fun request_time :: "session_op \<Rightarrow> int" where
  "request_time (Resolve op) = op_now op"
| "request_time (EndSession now sid) = now"

text \<open>The identifiers that the random bytes give.\<close>

fun candidates :: "session_op list \<Rightarrow> string list" where
  "candidates [] = []"
| "candidates (Resolve op # ops) = op_candidate op # candidates ops"
| "candidates (EndSession now sid # ops) = candidates ops"

definition mapv :: "('a \<Rightarrow> 'b) \<Rightarrow> ('k \<times> 'a) list \<Rightarrow> ('k \<times> 'b) list" where
  "mapv f m = map (\<lambda>(k, v). (k, f v)) m"

lemma mapv_find: "amap_find k (mapv f m) = map_option f (amap_find k m)"
  by (induction m) (auto simp: mapv_def)

lemma mapv_put: "mapv f (amap_put k v m) = amap_put k (f v) (mapv f m)"
  by (induction m) (auto simp: mapv_def)

lemma mapv_erase: "mapv f (amap_erase k m) = amap_erase k (mapv f m)"
  by (induction m) (auto simp: mapv_def)

lemma mapv_filter: "mapv f (filter (\<lambda>(k, v). P (f v)) m) = filter (\<lambda>(k, v). P v) (mapv f m)"
  by (induction m) (auto simp: mapv_def)

lemma mapv_length: "length (mapv f m) = length m"
  by (simp add: mapv_def)

text \<open>
  A transport with a store (\<open>st2\<close>) against one without (\<open>st1\<close>): the store holds the sessions of \<open>st1\<close>, seen at the
  same times; the map of \<open>st2\<close> may hold more, which the store has dropped because they were idle by the time \<open>t\<close>.
\<close>

definition mirrors :: "int \<Rightarrow> http_sessions \<Rightarrow> http_sessions \<Rightarrow> bool" where
  "mirrors t st1 st2 \<longleftrightarrow> hs_store st1 = None \<and> amap_ok (hs_map st1) \<and> amap_ok (hs_map st2) \<and>
     (\<exists>store. hs_store st2 = Some store \<and> mapv hn_last_seen (hs_map st1) = mapv sr_last_seen store) \<and>
     (\<forall>sid e. amap_find sid (hs_map st1) = Some e \<longrightarrow> 0 < hn_last_seen e \<and> amap_find sid (hs_map st2) = Some e) \<and>
     (\<forall>sid e. amap_find sid (hs_map st1) = None \<and> amap_find sid (hs_map st2) = Some e \<longrightarrow> entry_idle t e)"

lemma expired_iff: "0 < sr_last_seen r \<Longrightarrow> is_expired r now \<longleftrightarrow> session_idle_timeout < now - sr_last_seen r"
  by (simp add: is_expired_def effective_last_seen_def Let_def)

lemma mirrors_store:
  assumes "mirrors t st1 st2" "hs_store st2 = Some store"
  shows "(case amap_find sid (hs_map st1) of
      None \<Rightarrow> amap_find sid store = None
    | Some e \<Rightarrow> \<exists>r. amap_find sid store = Some r \<and> sr_last_seen r = hn_last_seen e \<and> is_expired r now = entry_idle now e)"
proof -
  have "map_option hn_last_seen (amap_find sid (hs_map st1)) = map_option sr_last_seen (amap_find sid store)"
    using assms by (auto simp: mirrors_def simp flip: mapv_find)
  moreover have "0 < hn_last_seen e" if "amap_find sid (hs_map st1) = Some e" for e
    using assms(1) that by (auto simp: mirrors_def)
  ultimately show ?thesis by (cases "amap_find sid store") (auto simp: expired_iff entry_idle_def split: option.splits)
qed

lemma touch_mirrors:
  assumes R: "mirrors t st1 st2" and "t \<le> now" "0 < now"
  shows "snd (touch_session now sid is_init v st1) = snd (touch_session now sid is_init v st2) \<and>
    mirrors now (fst (touch_session now sid is_init v st1)) (fst (touch_session now sid is_init v st2)) \<and>
    (snd (touch_session now sid is_init v st1) \<longrightarrow>
       session_protocol_version sid (fst (touch_session now sid is_init v st1)) =
       session_protocol_version sid (fst (touch_session now sid is_init v st2)))"
proof -
  obtain store where store: "hs_store st2 = Some store" "mapv hn_last_seen (hs_map st1) = mapv sr_last_seen store"
    using R by (auto simp: mirrors_def)
  have idle: "entry_idle t e \<Longrightarrow> entry_idle now e" for e using assms(2) by (simp add: entry_idle_def)
  show ?thesis
  proof (cases "amap_find sid (hs_map st1)")
    case None
    then have "amap_find sid store = None" using mirrors_store [OF R store(1), of sid] by simp
    then show ?thesis using R None store idle
      by (auto simp: touch_session_def load_session_def mirrors_def)
  next
    case (Some e)
    obtain r where r: "amap_find sid store = Some r" "sr_last_seen r = hn_last_seen e" "is_expired r now = entry_idle now e"
      using mirrors_store [OF R store(1), of sid now] Some by auto
    have e2: "amap_find sid (hs_map st2) = Some e" using R Some by (auto simp: mirrors_def)
    show ?thesis
    proof (cases "entry_idle now e")
      case True
      have "mapv hn_last_seen (amap_erase sid (hs_map st1)) = mapv sr_last_seen (amap_erase sid store)"
        using store(2) by (simp add: mapv_erase)
      then show ?thesis using R Some r True store idle
        by (auto simp: touch_session_def load_session_def mirrors_def amap_simps)
    next
      case False
      have "mapv hn_last_seen (amap_put sid (touched now is_init v e) (hs_map st1)) =
          mapv sr_last_seen (amap_put sid (r\<lparr>sr_last_seen := now\<rparr>) store)"
        using store(2) by (simp add: mapv_put touched_def Let_def)
      moreover have "0 < hn_last_seen (touched now is_init v e)" using assms(3) by (simp add: touched_def Let_def)
      ultimately show ?thesis using R Some r False store idle e2
        by (auto simp: touch_session_def load_session_def mirrors_def amap_simps Let_def session_protocol_version_def)
    qed
  qed
qed

lemma swept_mirrors:
  assumes R: "mirrors t st1 st2" and t: "t \<le> now" and store: "hs_store st2 = Some store"
  shows "filter (\<lambda>(sid, e). \<not> entry_idle now e) (hs_map st2) = filter (\<lambda>(sid, e). \<not> entry_idle now e) (hs_map st1)"
    and "mapv hn_last_seen (filter (\<lambda>(sid, e). \<not> entry_idle now e) (hs_map st1)) =
      mapv sr_last_seen (fst (sweep_expired now store))"
proof -
  have ok: "amap_ok (hs_map st1)" "amap_ok (hs_map st2)" using R by (simp_all add: mirrors_def)
  have idle: "entry_idle t e \<Longrightarrow> entry_idle now e" for e using t by (simp add: entry_idle_def)
  show "filter (\<lambda>(sid, e). \<not> entry_idle now e) (hs_map st2) = filter (\<lambda>(sid, e). \<not> entry_idle now e) (hs_map st1)"
  proof (rule amap_eqI)
    fix sid
    show "amap_find sid (filter (\<lambda>(sid, e). \<not> entry_idle now e) (hs_map st2)) =
        amap_find sid (filter (\<lambda>(sid, e). \<not> entry_idle now e) (hs_map st1))"
      using R idle by (cases "amap_find sid (hs_map st1)") (auto simp: amap_find_filtered ok mirrors_def split: option.split)
  qed (simp_all add: amap_filter_ok ok)
  have eq: "mapv hn_last_seen (hs_map st1) = mapv sr_last_seen store" using R store by (auto simp: mirrors_def)
  have "fst (sweep_expired now store) = filter (\<lambda>(sid, r). \<not> session_idle_timeout < now - sr_last_seen r) store"
  proof -
    have "0 < sr_last_seen r" if "(sid, r) \<in> set store" for sid r
    proof -
      have "(sid, sr_last_seen r) \<in> set (mapv hn_last_seen (hs_map st1))"
        unfolding eq using that by (force simp: mapv_def)
      then obtain e where "amap_find sid (hs_map st1) = Some e" "hn_last_seen e = sr_last_seen r"
        using ok(1) by (auto simp: mapv_def amap_find_in_iff)
      moreover from this(1) have "0 < hn_last_seen e" using R by (simp add: mirrors_def)
      ultimately show ?thesis by simp
    qed
    then show ?thesis by (auto simp: sweep_expired_def Let_def expired_iff intro!: filter_cong)
  qed
  then show "mapv hn_last_seen (filter (\<lambda>(sid, e). \<not> entry_idle now e) (hs_map st1)) =
      mapv sr_last_seen (fst (sweep_expired now store))"
    using eq mapv_filter [where f = hn_last_seen and P = "\<lambda>x. \<not> session_idle_timeout < now - x" and m = "hs_map st1"]
      mapv_filter [where f = sr_last_seen and P = "\<lambda>x. \<not> session_idle_timeout < now - x" and m = store]
    by (simp add: entry_idle_def)
qed

lemma open_mirrors:
  assumes R: "mirrors t st1 st2" and time: "t \<le> now" "0 < now" and fresh: "amap_find sid (hs_map st1) = None"
  shows "\<exists>st1' st2' resp1 resp2 out. open_session now sid v st1 resp = (st1', resp1, out) \<and>
    open_session now sid v st2 resp = (st2', resp2, out) \<and> hp_status resp1 = hp_status resp2 \<and> mirrors now st1' st2' \<and>
    (\<forall>s. out = Some s \<longrightarrow> session_protocol_version s st1' = session_protocol_version s st2')"
proof -
  obtain store where store: "hs_store st2 = Some store" using R by (auto simp: mirrors_def)
  let ?swept = "filter (\<lambda>(sid, e). \<not> entry_idle now e) (hs_map st1)"
  note sweep = swept_mirrors [OF R time(1) store]
  have len: "length (fst (sweep_expired now store)) = length ?swept"
    using arg_cong [OF sweep(2), of length] by (simp add: mapv_length)
  have ok: "amap_ok (hs_map st1)" "amap_ok (hs_map st2)" "hs_store st1 = None" using R by (simp_all add: mirrors_def)
  have "amap_find sid ?swept = None" using fresh ok by (simp add: amap_find_filtered)
  then have unsaved: "amap_find sid (fst (sweep_expired now store)) = None"
    using arg_cong [OF sweep(2), of "amap_find sid"] by (simp add: mapv_find)
  have pos: "0 < hn_last_seen e" "amap_find k (hs_map st2) = Some e" if "amap_find k (hs_map st1) = Some e" for k e
    using R that by (auto simp: mirrors_def)
  have gone: "entry_idle now e" if "amap_find k (hs_map st2) = Some e" "amap_find k (hs_map st1) = None" for k e
    using R that time(1) by (force simp: mirrors_def entry_idle_def)
  have same: "st1\<lparr>hs_store := None, hs_map := m\<rparr> = st1\<lparr>hs_map := m\<rparr>" for m using ok(3) by (cases st1) simp
  show ?thesis
  proof (cases "max_http_sessions \<le> length ?swept")
    case True
    have "mirrors now (st1\<lparr>hs_map := ?swept\<rparr>) (st2\<lparr>hs_store := Some (fst (sweep_expired now store))\<rparr>)"
      using ok pos gone sweep(2)
      by (auto simp: mirrors_def amap_filter_ok amap_find_filtered split: option.splits if_splits)
    with True show ?thesis
      by (simp add: open_session_def ok store try_save_def Let_def unsaved len same respond_unavailable_def respond_literal_def
          put_header_def)
  next
    case False
    let ?e = "\<lparr>hn_version = or_default v, hn_last_seen = now\<rparr>"
    let ?r = "\<lparr>sr_version = or_default v, sr_created_at = now, sr_last_seen = now\<rparr>"
    have "mapv hn_last_seen (amap_put sid ?e ?swept) = mapv sr_last_seen (amap_put sid ?r (fst (sweep_expired now store)))"
      using sweep(2) by (simp add: mapv_put)
    then have "mirrors now (st1\<lparr>hs_map := amap_put sid ?e ?swept\<rparr>)
        (st2\<lparr>hs_store := Some (amap_put sid ?r (fst (sweep_expired now store))), hs_map := amap_put sid ?e ?swept\<rparr>)"
      using ok pos time(2) by (auto simp: mirrors_def amap_filter_ok amap_find_filtered split: option.splits if_splits)
    with False sweep(1) time(2) show ?thesis
      by (auto simp: open_session_def ok store try_save_def Let_def unsaved len same session_protocol_version_def)
  qed
qed

lemma resolve_mirrors:
  assumes R: "mirrors t st1 st2" and time: "t \<le> op_now op" "0 < op_now op"
    and fresh: "amap_find (op_candidate op) (hs_map st1) = None"
  shows "\<exists>st1' st2' out. resolve_op op st1 = (st1', out) \<and> resolve_op op st2 = (st2', out) \<and> mirrors (op_now op) st1' st2'"
proof -
  obtain now bytes req is_init v where op: "op = (now, bytes, req, is_init, v)" by (metis prod_cases5)
  have weaken: "mirrors now st1 st2" using R time(1) by (force simp: mirrors_def entry_idle_def op op_now_def)
  have opened: "\<exists>st1' st2' resp1 resp2 out. open_session now (make_session_id bytes) v st1 new_response = (st1', resp1, out) \<and>
      open_session now (make_session_id bytes) v st2 new_response = (st2', resp2, out) \<and> hp_status resp1 = hp_status resp2 \<and>
      mirrors now st1' st2' \<and> (\<forall>s. out = Some s \<longrightarrow> session_protocol_version s st1' = session_protocol_version s st2')"
    using open_mirrors [OF R, of now "make_session_id bytes" v new_response] time fresh by (simp add: op op_now_def op_candidate_def)
  show ?thesis
  proof (cases "\<exists>sid. get_mcp_header req ''mcp-session-id'' = Some sid \<and> sid \<noteq> []")
    case True
    then obtain sid where sid: "get_mcp_header req ''mcp-session-id'' = Some sid" "sid \<noteq> []" by blast
    show ?thesis
      using touch_mirrors [OF R, of now sid is_init v] time
      by (auto simp: resolve_op_def op op_now_def resolve_session_def sid split: prod.splits bool.splits)
  next
    case False
    then have none: "resolve_session False now bytes req is_init v st resp =
        (if is_init then open_session now (make_session_id bytes) v st resp else (st, resp, Some []))" for st resp
      by (cases "get_mcp_header req ''mcp-session-id''") (simp_all add: resolve_session_def)
    show ?thesis
    proof (cases is_init)
      case True
      obtain st1' st2' resp1 resp2 out where o: "open_session now (make_session_id bytes) v st1 new_response = (st1', resp1, out)"
          "open_session now (make_session_id bytes) v st2 new_response = (st2', resp2, out)" "hp_status resp1 = hp_status resp2"
          "mirrors now st1' st2'" "\<forall>s. out = Some s \<longrightarrow> session_protocol_version s st1' = session_protocol_version s st2'"
        using opened by blast
      then show ?thesis using True none by (cases out) (simp_all add: resolve_op_def op op_now_def)
    next
      case False
      with none weaken show ?thesis by (simp add: resolve_op_def op op_now_def session_protocol_version_def)
    qed
  qed
qed

lemma erase_keys: "fst ` set (amap_erase k m) \<subseteq> fst ` set m"
  using amap_erase_subset by (rule image_mono)

lemma found_key: "amap_find k m = Some v \<Longrightarrow> k \<in> fst ` set m"
  using amap_find_None_iff [of k m] by auto

lemma touch_keys:
  "hs_store st = None \<Longrightarrow> fst ` set (hs_map (fst (touch_session now sid is_init v st))) \<subseteq> fst ` set (hs_map st)"
  using erase_keys [of sid "hs_map st"] found_key [of sid "hs_map st"] by (auto simp: touch_session_def split: option.split)

lemma open_keys:
  "hs_store st = None \<Longrightarrow>
     fst ` set (hs_map (fst (open_session now sid v st resp))) \<subseteq> insert sid (fst ` set (hs_map st))"
  by (auto simp: open_session_def Let_def)

lemma resolve_session_state:
  "fst (resolve_session False now bytes req is_init v st resp) = st \<or>
   fst (resolve_session False now bytes req is_init v st resp) = fst (open_session now (make_session_id bytes) v st resp) \<or>
   (\<exists>sid. fst (resolve_session False now bytes req is_init v st resp) = fst (touch_session now sid is_init v st))"
proof (cases "\<exists>sid. get_mcp_header req ''mcp-session-id'' = Some sid \<and> sid \<noteq> []")
  case True
  then obtain sid where sid: "get_mcp_header req ''mcp-session-id'' = Some sid" "sid \<noteq> []" by blast
  obtain st' ok where t: "touch_session now sid is_init v st = (st', ok)" by (cases "touch_session now sid is_init v st")
  then have "fst (resolve_session False now bytes req is_init v st resp) = fst (touch_session now sid is_init v st)"
    using sid by (cases ok) (simp_all add: resolve_session_def)
  then show ?thesis by blast
next
  case False
  then have "resolve_session False now bytes req is_init v st resp =
      (if is_init then open_session now (make_session_id bytes) v st resp else (st, resp, Some []))"
    by (cases "get_mcp_header req ''mcp-session-id''") (simp_all add: resolve_session_def)
  then show ?thesis by (cases is_init) simp_all
qed

lemma resolve_op_state:
  assumes "op = (now, bytes, req, is_init, v)"
  shows "fst (resolve_op op st) = st \<or>
    fst (resolve_op op st) = fst (open_session now (op_candidate op) v st new_response) \<or>
    (\<exists>sid. fst (resolve_op op st) = fst (touch_session now sid is_init v st))"
proof -
  have "fst (resolve_op op st) = fst (resolve_session False now bytes req is_init v st new_response)"
    by (simp add: resolve_op_def assms split: prod.split)
  then show ?thesis
    using resolve_session_state [of now bytes req is_init v st new_response] by (simp add: op_candidate_def assms)
qed

lemma resolve_keys:
  assumes "hs_store st = None"
  shows "fst ` set (hs_map (fst (resolve_op op st))) \<subseteq> insert (op_candidate op) (fst ` set (hs_map st))"
proof -
  obtain now bytes req is_init v where op: "op = (now, bytes, req, is_init, v)" by (metis prod_cases5)
  from resolve_op_state [OF op, of st] show ?thesis
  proof (elim disjE exE)
    fix sid assume "fst (resolve_op op st) = fst (touch_session now sid is_init v st)"
    then show ?thesis using touch_keys [OF assms, of now sid is_init v] by auto
  qed (use open_keys [OF assms] in auto)
qed

text \<open>The end of a session.  A session that is idle is found with a store and not without one, and is gone in both.\<close>

lemma mapv_ok: "amap_ok (mapv f m) = amap_ok m"
  by (simp add: amap_ok_def mapv_def case_prod_unfold comp_def)

lemma erase_put: "amap_ok m \<Longrightarrow> amap_erase k (amap_put k v m) = amap_erase k m"
  by (rule amap_eqI) (auto simp: amap_simps)

lemma mirrors_later: "mirrors t st1 st2 \<Longrightarrow> t \<le> now \<Longrightarrow> mirrors now st1 st2"
  by (force simp: mirrors_def entry_idle_def)

lemma erased_mirrors:
  assumes R: "mirrors t st1 st2" and "t \<le> now" and store: "hs_store st2 = Some store"
    and gone: "mapv hn_last_seen (amap_erase sid (hs_map st1)) = mapv sr_last_seen store'"
  shows "mirrors now (st1\<lparr>hs_map := amap_erase sid (hs_map st1)\<rparr>)
    \<lparr>hs_map = amap_erase sid (hs_map st2), hs_store = Some store'\<rparr>"
  using mirrors_later [OF R assms(2)] gone by (auto simp: mirrors_def amap_simps)

lemma end_mirrors:
  assumes R: "mirrors t st1 st2" and "t \<le> now"
  shows "mirrors now (end_session now sid st1) (end_session now sid st2)"
proof (cases "sid = []")
  case True
  then show ?thesis using mirrors_later [OF assms] by (simp add: end_session_def)
next
  case False
  obtain store where store: "hs_store st2 = Some store" "mapv hn_last_seen (hs_map st1) = mapv sr_last_seen store"
    using R by (auto simp: mirrors_def)
  have ok: "amap_ok (hs_map st1)" "hs_store st1 = None" using R by (simp_all add: mirrors_def)
  then have store_ok: "amap_ok store" using mapv_ok [of hn_last_seen "hs_map st1"] by (simp add: store(2) mapv_ok)
  have same: "st1 = \<lparr>hs_map = hs_map st1, hs_store = None\<rparr>" using ok(2) by (cases st1) simp
  have "mapv hn_last_seen (amap_erase sid (hs_map st1)) = mapv sr_last_seen (amap_erase sid store)"
    using store(2) by (simp add: mapv_erase)
  from erased_mirrors [OF assms store(1) this]
  have erased: "mirrors now \<lparr>hs_map = amap_erase sid (hs_map st1), hs_store = None\<rparr>
      \<lparr>hs_map = amap_erase sid (hs_map st2), hs_store = Some (amap_erase sid store)\<rparr>"
    using same by (metis http_sessions.update_convs(1))
  have end1: "end_session now sid st1 = \<lparr>hs_map = amap_erase sid (hs_map st1), hs_store = None\<rparr>"
    using False ok same
    by (auto simp: end_session_def has_session_def erase_entries_def Let_def split: option.split)
  have end2: "end_session now sid st2 = \<lparr>hs_map = amap_erase sid (hs_map st2), hs_store = Some (amap_erase sid store)\<rparr>"
    using False store store_ok
    by (auto simp: end_session_def has_session_def erase_entries_def load_session_def remove_session_def erase_put Let_def
        amap_simps split: option.split)
  show ?thesis unfolding end1 end2 by (rule erased)
qed

lemma end_keys:
  assumes "hs_store st = None"
  shows "fst ` set (hs_map (end_session now sid st)) \<subseteq> fst ` set (hs_map st)"
  using assms erase_keys [of sid "hs_map st"]
  by (auto simp: end_session_def has_session_def erase_entries_def Let_def split: option.split)

lemma runs_agree:
  assumes "mirrors t st1 st2" "sorted_wrt (\<le>) (t # map request_time ops)" "\<forall>op \<in> set ops. 0 < request_time op"
    "distinct (candidates ops)" "\<forall>c \<in> set (candidates ops). c \<notin> fst ` set (hs_map st1)"
  shows "run_requests ops st1 = run_requests ops st2"
  using assms
proof (induction ops arbitrary: t st1 st2)
  case (Cons op ops)
  show ?case
  proof (cases op)
    case (Resolve r)
    have "amap_find (op_candidate r) (hs_map st1) = None"
      using Cons.prems(5) by (simp add: Resolve amap_find_None_iff)
    then obtain st1' st2' out where step: "resolve_op r st1 = (st1', out)" "resolve_op r st2 = (st2', out)"
        "mirrors (op_now r) st1' st2'"
      using resolve_mirrors [OF Cons.prems(1), of r] Cons.prems(2,3) by (auto simp: Resolve)
    have "fst ` set (hs_map st1') \<subseteq> insert (op_candidate r) (fst ` set (hs_map st1))"
      using resolve_keys [of st1 r] Cons.prems(1) step(1) by (simp add: mirrors_def)
    then have old: "c \<in> fst ` set (hs_map st1') \<Longrightarrow> c = op_candidate r \<or> c \<in> fst ` set (hs_map st1)" for c by blast
    have "\<forall>c \<in> set (candidates ops). c \<notin> fst ` set (hs_map st1')"
    proof
      fix c assume c: "c \<in> set (candidates ops)"
      then have "c \<noteq> op_candidate r" using Cons.prems(4) by (auto simp: Resolve)
      moreover have "c \<notin> fst ` set (hs_map st1)" using Cons.prems(5) c by (simp add: Resolve)
      ultimately show "c \<notin> fst ` set (hs_map st1')" using old by blast
    qed
    then have "run_requests ops st1' = run_requests ops st2'"
      using Cons.prems(2-4) by (intro Cons.IH [OF step(3)]) (simp_all add: Resolve)
    with step show ?thesis by (simp add: Resolve)
  next
    case (EndSession now sid)
    have after: "mirrors now (end_session now sid st1) (end_session now sid st2)"
      using end_mirrors [OF Cons.prems(1)] Cons.prems(2) by (simp add: EndSession)
    have "\<forall>c \<in> set (candidates ops). c \<notin> fst ` set (hs_map (end_session now sid st1))"
      using end_keys [of st1 now sid] Cons.prems(1,5) by (auto simp: mirrors_def EndSession)
    then have "run_requests ops (end_session now sid st1) = run_requests ops (end_session now sid st2)"
      using Cons.prems(2-4) by (intro Cons.IH [OF after]) (simp_all add: EndSession)
    then show ?thesis by (simp add: EndSession)
  qed
qed simp

text \<open>C18: a transport that keeps its sessions in an in-memory session store resolves the session of every post and of
  every stream as one that keeps them only in its own map, with sessions ended by \<open>DELETE\<close> at any place between them: the
  same sessions are opened, found, refused and forgotten, with the same versions, as long as the clock does not run
  backwards and the random identifiers differ.  Only the answer to a \<open>DELETE\<close> itself may differ, for a session that has
  expired and is still in the map; the session is gone after it either way.\<close>

theorem session_store_transparent:
  assumes "sorted_wrt (\<le>) (map request_time ops)" "\<forall>op \<in> set ops. 0 < request_time op" "distinct (candidates ops)"
  shows "run_requests ops \<lparr>hs_map = [], hs_store = None\<rparr> = run_requests ops \<lparr>hs_map = [], hs_store = Some []\<rparr>"
proof -
  have "mirrors 0 \<lparr>hs_map = [], hs_store = None\<rparr> \<lparr>hs_map = [], hs_store = Some []\<rparr>"
    by (simp add: mirrors_def mapv_def)
  moreover have "sorted_wrt (\<le>) (0 # map request_time ops)" using assms(1,2) by auto
  ultimately show ?thesis using assms by (intro runs_agree) auto
qed

definition header_request :: "string \<Rightarrow> http_request" where
  "header_request sid = \<lparr>hq_method = ''POST'', hq_path = ''/mcp'', hq_headers = [(''mcp-session-id'', sid)], hq_body = []\<rparr>"

definition sample_requests :: "session_op list" where
  "sample_requests =
     [Resolve (10, ''a'', header_request [], True, ''2025-06-18''),
      Resolve (20, ''b'', header_request ''sess-61'', False, []),
      EndSession 30 ''sess-61'',
      Resolve (40, ''c'', header_request ''sess-61'', False, [])]"

lemma sample_literals:
  "to_lower ''mcp-session-id'' = ''mcp-session-id''" "make_session_id ''a'' = ''sess-61''" "make_session_id ''b'' = ''sess-62''"
  "make_session_id ''c'' = ''sess-63''"
  by code_simp+

theorem session_store_transparent_witness:
  "run_requests sample_requests \<lparr>hs_map = [], hs_store = Some []\<rparr> =
     [(200, Some ''sess-61'', Some ''2025-06-18''), (200, Some ''sess-61'', Some ''2025-06-18''), (404, None, None)]"
proof -
  have "run_requests sample_requests \<lparr>hs_map = [], hs_store = None\<rparr> =
     [(200, Some ''sess-61'', Some ''2025-06-18''), (200, Some ''sess-61'', Some ''2025-06-18''), (404, None, None)]"
    using sample_literals by (simp add: sample_requests_def resolve_op_def resolve_session_def open_session_def touch_session_def
        get_mcp_header_def header_request_def or_default_def session_protocol_version_def max_http_sessions_def
        touched_def entry_idle_def session_idle_timeout_def new_response_def end_session_def has_session_def erase_entries_def
        respond_session_expired_def respond_literal_def put_header_def)
  moreover have "distinct (candidates sample_requests)"
    using sample_literals by (simp add: sample_requests_def op_candidate_def)
  ultimately show ?thesis
    using session_store_transparent [of sample_requests] by (simp add: sample_requests_def op_now_def)
qed

section \<open>Bounded\<close>

text \<open>The transport's own map never holds more sessions than its bound, when it is the only place they are kept.\<close>

definition sessions_ok :: "http_sessions \<Rightarrow> bool" where
  "sessions_ok st \<longleftrightarrow> hs_store st = None \<and> amap_ok (hs_map st) \<and> length (hs_map st) \<le> max_http_sessions"

lemma touch_sessions_ok: "sessions_ok st \<Longrightarrow> sessions_ok (fst (touch_session now sid is_init v st))"
  using amap_erase_length_le [of sid "hs_map st"]
  by (auto simp: touch_session_def sessions_ok_def amap_put_length split: option.split)

lemma open_sessions_ok: "sessions_ok st \<Longrightarrow> sessions_ok (fst (open_session now sid v st resp))"
proof -
  assume st: "sessions_ok st"
  let ?swept = "filter (\<lambda>(sid, e). \<not> entry_idle now e) (hs_map st)"
  have "length ?swept \<le> max_http_sessions" "amap_ok ?swept"
    using st order_trans [OF length_filter_le] by (auto simp: sessions_ok_def amap_filter_ok)
  with st show ?thesis by (simp add: open_session_def sessions_ok_def amap_put_length Let_def)
qed

lemma sessions_bounded: "sessions_ok st \<Longrightarrow> sessions_ok (fst (resolve_op op st))"
  using resolve_op_state [of op _ _ _ _ _ st] touch_sessions_ok open_sessions_ok by (metis prod_cases5)

end
