(* ===== verification/Http_Streams.thy ===== *)
theory Http_Streams
  imports Http_Sessions Event_Store Message_Channel
begin

text \<open>
  The requests that wait for their answers in the HTTP server transport, the response streams that are held open, and the
  way an outgoing message takes (\<open>SendMessageAsync\<close>, \<open>TryBufferRequestStreamNotification\<close>, \<open>EraseSession\<close> of
  \<open>src/http/StreamableHttpServerTransport.cpp\<close>, \<open>BroadcastSse\<close> of \<open>src/http/HttpServerImpl.cpp\<close>).  A promise is a number;
  \<open>ht_settled\<close> is the list of the promises that got their value.  The unordered maps are sorted maps: no result depends on
  the order of an iteration.  The listening clients are those connected when the event is broadcast, after the wait for a
  first one.
\<close>

section \<open>State\<close>

record pending =
  pe_id :: request_id
  pe_promise :: nat

record http_streams =
  ht_pending :: "(string, pending) amap"
  ht_frames :: "(string, string list) amap"
  ht_routes :: "(string, string) amap"
  ht_hold :: "string list"
  ht_filters :: "(string, listen_filter) amap"
  ht_settled :: "(nat \<times> rpc_message) list"

record http_options =
  ho_stateless :: bool
  ho_listen_hold_open :: bool
  ho_endpoint :: string
  ho_max_body :: "nat option"
  ho_max_event :: "nat option"
  ho_max_replay :: "nat option"
  ho_bearer :: "bearer_config option"
  ho_resolve :: "(string \<Rightarrow> param_annotation list) option"
  ho_etag_cache :: bool

record http_transport =
  tp_sessions :: http_sessions
  tp_events :: event_store
  tp_streams :: http_streams
  tp_channel :: "channel option"
  tp_inflight :: nat
  tp_dpop :: dpop_state
  tp_promises :: nat

definition no_streams :: http_streams where
  "no_streams = \<lparr>ht_pending = [], ht_frames = [], ht_routes = [], ht_hold = [], ht_filters = [], ht_settled = []\<rparr>"

definition max_sse_event_bytes :: nat where "max_sse_event_bytes = 1024 * 1024"

definition sse_event_limit :: "http_options \<Rightarrow> nat" where
  "sse_event_limit opts = (case ho_max_event opts of Some n \<Rightarrow> n | None \<Rightarrow> max_sse_event_bytes)"

definition request_id_to_string :: "request_id \<Rightarrow> string" where
  "request_id_to_string i = (case i of IdInt n \<Rightarrow> dec_int (sint n) | IdString s \<Rightarrow> s)"

definition pending_key :: "string \<Rightarrow> string \<Rightarrow> string" where
  "pending_key session rid = dec_nat (length session) @ '':'' @ session @ rid"

definition has_prefix :: "string \<Rightarrow> string \<Rightarrow> bool" where
  "has_prefix p s \<longleftrightarrow> take (length p) s = p"

definition has_suffix :: "string \<Rightarrow> string \<Rightarrow> bool" where
  "has_suffix p s \<longleftrightarrow> length p \<le> length s \<and> drop (length s - length p) s = p"

section \<open>Events\<close>

definition sse_escape_data :: "string \<Rightarrow> string" where
  "sse_escape_data data = concat (map (\<lambda>c. if c = chr 10 then chr 10 # ''data: '' else [c]) data)"

definition sse_frame :: "string \<Rightarrow> string \<Rightarrow> string" where
  "sse_frame event data = ''event: '' @ event @ [chr 10] @ ''data: '' @ sse_escape_data data @ [chr 10, chr 10]"

definition sse_limit_error_frame :: string where
  "sse_limit_error_frame =
     ''event: message'' @ [chr 10] @ ''data: '' @ error_body ConnectionClosed ''event exceeds max_sse_event_bytes'' @
     [chr 10, chr 10]"

definition build_sse_event :: "nat \<Rightarrow> rpc_message \<Rightarrow> string mres" where
  "build_sse_event limit msg =
     rmap (\<lambda>text. let data = sse_frame ''message'' text in if limit < length data then sse_limit_error_frame else data)
       (serialize_message msg)"

definition message_session_id :: "rpc_message \<Rightarrow> string" where
  "message_session_id msg =
     (case msg of MsgRequest r \<Rightarrow> rq_session r | MsgNotification n \<Rightarrow> nt_session n | MsgResponse r \<Rightarrow> rs_session r
      | MsgError e \<Rightarrow> er_session e)"

definition set_message_session :: "string \<Rightarrow> rpc_message \<Rightarrow> rpc_message" where
  "set_message_session s msg =
     (case msg of
        MsgRequest r \<Rightarrow> MsgRequest (r\<lparr>rq_session := s\<rparr>) | MsgNotification n \<Rightarrow> MsgNotification (n\<lparr>nt_session := s\<rparr>)
      | MsgResponse r \<Rightarrow> MsgResponse (r\<lparr>rs_session := s\<rparr>) | MsgError e \<Rightarrow> MsgError (e\<lparr>er_session := s\<rparr>))"

section \<open>Requests that wait\<close>

text \<open>The key of the request an answer belongs to.  An answer without a session also takes the only key that ends with
  its identifier.\<close>

definition match_pending :: "string \<Rightarrow> request_id \<Rightarrow> http_streams \<Rightarrow> string option" where
  "match_pending session rid st =
     (let id_str = request_id_to_string rid; key = pending_key session id_str
      in if amap_find key (ht_pending st) \<noteq> None then Some key
         else if session \<noteq> [] then None
         else (case filter (has_suffix id_str) (map fst (ht_pending st)) of [k] \<Rightarrow> Some k | _ \<Rightarrow> None))"

text \<open>The answer goes to the waiting request, which is none of the waiting ones any more; \<open>None\<close> when there is none.\<close>

definition settle_pending :: "string \<Rightarrow> request_id \<Rightarrow> rpc_message \<Rightarrow> http_streams \<Rightarrow> http_streams option" where
  "settle_pending session rid msg st =
     (case match_pending session rid st of
        None \<Rightarrow> None
      | Some key \<Rightarrow>
          (case amap_find key (ht_pending st) of
             None \<Rightarrow> None
           | Some p \<Rightarrow> Some (st\<lparr>ht_pending := amap_erase key (ht_pending st),
               ht_settled := ht_settled st @ [(pe_promise p, msg)]\<rparr>)))"

definition answered_request :: "rpc_message \<Rightarrow> request_id option" where
  "answered_request msg = (case msg of MsgResponse r \<Rightarrow> Some (rs_id r) | MsgError e \<Rightarrow> er_id e | _ \<Rightarrow> None)"

definition erase_request_stream_state :: "string \<Rightarrow> http_streams \<Rightarrow> http_streams" where
  "erase_request_stream_state key st =
     st\<lparr>ht_hold := removeAll key (ht_hold st), ht_frames := amap_erase key (ht_frames st),
        ht_filters := amap_erase key (ht_filters st), ht_routes := filter (\<lambda>(token, k). k \<noteq> key) (ht_routes st)\<rparr>"

definition session_closed_error :: "string \<Rightarrow> pending \<Rightarrow> rpc_message" where
  "session_closed_error session p = MsgError \<lparr>er_jsonrpc = json_rpc_version, er_id = Some (pe_id p),
     er_error = \<lparr>ed_code = SessionExpired, ed_message = ''session closed'', ed_data = None\<rparr>, er_session = session\<rparr>"

definition erase_session_streams :: "string \<Rightarrow> http_streams \<Rightarrow> http_streams" where
  "erase_session_streams session st =
     (let own = has_prefix (pending_key session [])
      in st\<lparr>ht_pending := filter (\<lambda>(k, p). \<not> own k) (ht_pending st),
            ht_frames := filter (\<lambda>(k, fs). \<not> own k) (ht_frames st),
            ht_hold := filter (\<lambda>k. \<not> own k) (ht_hold st),
            ht_filters := filter (\<lambda>(k, f). \<not> own k) (ht_filters st),
            ht_routes := filter (\<lambda>(token, k). \<not> own k) (ht_routes st),
            ht_settled := ht_settled st @
              map (\<lambda>(k, p). (pe_promise p, session_closed_error session p)) (filter (\<lambda>(k, p). own k) (ht_pending st))\<rparr>)"

definition erase_session :: "string \<Rightarrow> http_transport \<Rightarrow> http_transport" where
  "erase_session session tp =
     tp\<lparr>tp_sessions := erase_entries session (tp_sessions tp),
        tp_events := clear_events session (tp_events tp),
        tp_streams := erase_session_streams session (tp_streams tp)\<rparr>"

section \<open>Notifications for open streams\<close>

definition frames_of :: "string \<Rightarrow> http_streams \<Rightarrow> string list" where
  "frames_of key st = (case amap_find key (ht_frames st) of Some fs \<Rightarrow> fs | None \<Rightarrow> [])"

definition append_frame :: "string \<Rightarrow> string \<Rightarrow> http_streams \<Rightarrow> http_streams" where
  "append_frame frame key st = st\<lparr>ht_frames := amap_put key (frames_of key st @ [frame]) (ht_frames st)\<rparr>"

text \<open>The frame is appended to each of the streams; without any nothing is built.\<close>

definition buffer_to :: "nat \<Rightarrow> rpc_message \<Rightarrow> string list \<Rightarrow> http_streams \<Rightarrow> http_streams mres" where
  "buffer_to limit msg keys st =
     (if keys = [] then Inr st else rmap (\<lambda>frame. fold (append_frame frame) keys st) (build_sse_event limit msg))"

definition belongs :: "string \<Rightarrow> string \<Rightarrow> bool" where
  "belongs session key \<longleftrightarrow> session = [] \<or> has_prefix (pending_key session []) key"

text \<open>The streams that a notification is for, and whether it is done with by that.\<close>

definition buffer_targets :: "rpc_notification \<Rightarrow> http_streams \<Rightarrow> string list \<times> bool" where
  "buffer_targets n st =
     (let m = nt_method n; own = belongs (nt_session n);
          listening = (\<lambda>wants. let keys = map fst (filter (\<lambda>(k, f). own k \<and> k \<in> set (ht_hold st) \<and> wants f) (ht_filters st))
            in (keys, keys \<noteq> []))
      in if ht_hold st = [] then ([], False)
         else if m = ''notifications/progress'' then
           (case notification_token_key n of
              None \<Rightarrow> ([], False)
            | Some token \<Rightarrow>
                (case amap_find token (ht_routes st) of
                   None \<Rightarrow> ([], False)
                 | Some route \<Rightarrow> if own route \<and> route \<in> set (ht_hold st) then ([route], True) else ([], False)))
         else if m = ''notifications/message'' \<or> m = ''notifications/subscriptions/acknowledged'' then
           (filter own (ht_hold st), True)
         else if m \<in> {''notifications/tools/list_changed'', ''notifications/prompts/list_changed'',
             ''notifications/resources/list_changed''} then listening (\<lambda>f. filter_wants f m None)
         else if m = ''notifications/resources/updated'' then
           (case updated_resource_uri n of None \<Rightarrow> ([], False) | Some uri \<Rightarrow> listening (\<lambda>f. filter_wants f m (Some uri)))
         else if is_task_stream_notification m then listening (\<lambda>f. True)
         else ([], False))"

definition try_buffer :: "nat \<Rightarrow> rpc_message \<Rightarrow> http_streams \<Rightarrow> (http_streams \<times> bool) mres" where
  "try_buffer limit msg st =
     (case msg of
        MsgNotification n \<Rightarrow>
          (case buffer_targets n st of (keys, done) \<Rightarrow> rmap (\<lambda>st'. (st', done)) (buffer_to limit msg keys st))
      | _ \<Rightarrow> Inr (st, False))"

section \<open>Outgoing messages\<close>

type_synonym sse_client = "nat \<times> string"

definition broadcast_sse :: "string \<Rightarrow> (string \<Rightarrow> bool) \<Rightarrow> sse_client list \<Rightarrow> (nat \<times> string) list" where
  "broadcast_sse event accepts clients =
     map (\<lambda>(cid, tag). (cid, take max_sse_event_bytes event)) (filter (\<lambda>(cid, tag). accepts tag) clients)"

definition broadcast_accepts :: "rpc_message \<Rightarrow> string \<Rightarrow> bool" where
  "broadcast_accepts msg tag =
     (case msg of
        MsgNotification n \<Rightarrow>
          tag_matches_session tag (message_session_id msg) \<and>
          (is_listen_filtered_notification (nt_method n) \<longrightarrow>
             listen_tag_accepts tag (nt_method n)
               (if nt_method n = ''notifications/resources/updated'' then updated_resource_uri n else None))
      | _ \<Rightarrow> tag_matches_session tag (message_session_id msg))"

definition event_id_prefix :: "64 word \<Rightarrow> string" where
  "event_id_prefix i = ''id: '' @ dec_nat (unat i) @ [chr 10]"

definition broadcast_message ::
  "http_options \<Rightarrow> sse_client list \<Rightarrow> rpc_message \<Rightarrow> http_transport \<Rightarrow> (http_transport \<times> (nat \<times> string) list) mres" where
  "broadcast_message opts clients msg tp =
     rbind (build_sse_event (sse_event_limit opts) msg) (\<lambda>event.
       if ho_stateless opts then Inr (tp, broadcast_sse event (broadcast_accepts msg) clients)
       else (case append_event (message_session_id msg) event (tp_events tp) of
               (events, i) \<Rightarrow>
                 (let full = (if sse_event_limit opts < length (event_id_prefix i) + length event
                              then event_id_prefix i @ sse_limit_error_frame else event_id_prefix i @ event)
                  in Inr (tp\<lparr>tp_events := events\<rparr>, broadcast_sse full (broadcast_accepts msg) clients))))"

definition send_message_async ::
  "http_options \<Rightarrow> sse_client list \<Rightarrow> rpc_message \<Rightarrow> http_transport \<Rightarrow> (http_transport \<times> (nat \<times> string) list) mres" where
  "send_message_async opts clients msg tp =
     (case (case answered_request msg of
              None \<Rightarrow> None
            | Some rid \<Rightarrow> settle_pending (message_session_id msg) rid msg (tp_streams tp)) of
        Some st \<Rightarrow> Inr (tp\<lparr>tp_streams := st\<rparr>, [])
      | None \<Rightarrow>
          rbind (try_buffer (sse_event_limit opts) msg (tp_streams tp)) (\<lambda>(st, done).
            if done then Inr (tp\<lparr>tp_streams := st\<rparr>, [])
            else broadcast_message opts clients msg (tp\<lparr>tp_streams := st\<rparr>)))"

section \<open>Keys\<close>

lemma colon_no_digit: "\<not> is_digit CHR '':''"
  by (simp add: is_digit_def byte_of_def)

lemma key_number: "takeWhile (\<lambda>c. c \<noteq> CHR '':'') (dec_nat n @ CHR '':'' # s) = dec_nat n"
  using colon_no_digit dec_nat_digits by (subst takeWhile_append2) auto

lemma has_prefix_append: "has_prefix p s \<longleftrightarrow> (\<exists>r. s = p @ r)"
  by (metis append_eq_conv_conj has_prefix_def append_take_drop_id)

lemma pending_key_inject [simp]: "pending_key s r = pending_key s' r' \<longleftrightarrow> s = s' \<and> r = r'"
proof
  assume eq: "pending_key s r = pending_key s' r'"
  have "dec_nat (length s) = dec_nat (length s')"
    using arg_cong [OF eq, of "takeWhile (\<lambda>c. c \<noteq> CHR '':'')"] by (simp add: pending_key_def key_number)
  with eq show "s = s' \<and> r = r'" by (simp add: pending_key_def)
qed simp

lemma own_key_iff: "has_prefix (pending_key s []) k \<longleftrightarrow> (\<exists>r. k = pending_key s r)"
  by (simp add: has_prefix_append pending_key_def)

lemma own_key [simp]: "has_prefix (pending_key s []) (pending_key s' r) \<longleftrightarrow> s = s'"
  by (auto simp: own_key_iff)

section \<open>Closing a session\<close>

definition streams_ok :: "http_streams \<Rightarrow> bool" where
  "streams_ok st \<longleftrightarrow> amap_ok (ht_pending st) \<and> amap_ok (ht_frames st) \<and> amap_ok (ht_filters st) \<and> amap_ok (ht_routes st)"

lemma filtered_find: "amap_ok m \<Longrightarrow> amap_find k (filter (\<lambda>(k, v). P k) m) = (if P k then amap_find k m else None)"
  by (simp add: amap_find_filtered split: option.split)

lemma erased_events: "amap_ok (ev_events ev) \<Longrightarrow>
    get_events_since (clear_events s ev) other i = (if other = s then [] else get_events_since ev other i)"
  by (simp add: get_events_since_def clear_events_def amap_simps)

lemma erased_routes: "amap_ok (ht_routes st) \<Longrightarrow>
    amap_find token (ht_routes (erase_session_streams session st)) =
      (case amap_find token (ht_routes st) of
         None \<Rightarrow> None | Some k \<Rightarrow> if \<exists>rid. k = pending_key session rid then None else Some k)"
  by (auto simp: erase_session_streams_def Let_def amap_find_filtered own_key_iff split: option.split)

lemma erased_store: "\<forall>store. hs_store (tp_sessions tp) = Some store \<longrightarrow> amap_ok store \<Longrightarrow>
    case hs_store (tp_sessions tp) of
      None \<Rightarrow> hs_store (tp_sessions (erase_session session tp)) = None
    | Some store \<Rightarrow> \<exists>store'. hs_store (tp_sessions (erase_session session tp)) = Some store' \<and>
        (\<forall>sid. amap_find sid store' = (if sid = session then None else amap_find sid store))"
  by (auto simp: erase_session_def erase_entries_def remove_session_def split: option.split)

text \<open>C8: closing a session settles exactly the requests that wait in it, each once and with the error "session closed"
  under its own identifier, and leaves nothing of it behind: its entry, its record in the session store, its waiting
  requests, buffered frames, filters, progress routes and events are gone.  Every other session keeps its entry and its
  record, and its requests, streams, routes and events are untouched.\<close>

theorem closed_session_settled:
  assumes "streams_ok (tp_streams tp)" "amap_ok (ev_events (tp_events tp))" "amap_ok (hs_map (tp_sessions tp))"
    and "\<forall>store. hs_store (tp_sessions tp) = Some store \<longrightarrow> amap_ok store"
  shows "let st = tp_streams tp; tp' = erase_session session tp; st' = tp_streams tp' in
    (\<forall>rid p. amap_find (pending_key session rid) (ht_pending st) = Some p \<longrightarrow>
      (pe_promise p, session_closed_error session p) \<in> set (ht_settled st')) \<and>
    ht_settled st' = ht_settled st @ map (\<lambda>(k, p). (pe_promise p, session_closed_error session p))
      (filter (\<lambda>(k, p). \<exists>rid. k = pending_key session rid) (ht_pending st)) \<and>
    (\<forall>sid. amap_find sid (hs_map (tp_sessions tp')) =
       (if sid = session then None else amap_find sid (hs_map (tp_sessions tp)))) \<and>
    (case hs_store (tp_sessions tp) of
       None \<Rightarrow> hs_store (tp_sessions tp') = None
     | Some store \<Rightarrow> \<exists>store'. hs_store (tp_sessions tp') = Some store' \<and>
         (\<forall>sid. amap_find sid store' = (if sid = session then None else amap_find sid store))) \<and>
    (\<forall>rid. amap_find (pending_key session rid) (ht_pending st') = None \<and> frames_of (pending_key session rid) st' = [] \<and>
       amap_find (pending_key session rid) (ht_filters st') = None \<and> pending_key session rid \<notin> set (ht_hold st')) \<and>
    (\<forall>other rid. other \<noteq> session \<longrightarrow>
       amap_find (pending_key other rid) (ht_pending st') = amap_find (pending_key other rid) (ht_pending st) \<and>
       frames_of (pending_key other rid) st' = frames_of (pending_key other rid) st \<and>
       amap_find (pending_key other rid) (ht_filters st') = amap_find (pending_key other rid) (ht_filters st) \<and>
       (pending_key other rid \<in> set (ht_hold st') \<longleftrightarrow> pending_key other rid \<in> set (ht_hold st))) \<and>
    (\<forall>token. amap_find token (ht_routes st') =
       (case amap_find token (ht_routes st) of
          None \<Rightarrow> None | Some k \<Rightarrow> if \<exists>rid. k = pending_key session rid then None else Some k)) \<and>
    (\<forall>other i. get_events_since (tp_events tp') other i =
       (if other = session then [] else get_events_since (tp_events tp) other i)) \<and>
    tp_channel tp' = tp_channel tp \<and> tp_inflight tp' = tp_inflight tp \<and> tp_dpop tp' = tp_dpop tp \<and>
    tp_promises tp' = tp_promises tp"
proof -
  define st where "st = tp_streams tp"
  have ok: "amap_ok (ht_pending st)" "amap_ok (ht_frames st)" "amap_ok (ht_filters st)" "amap_ok (ht_routes st)"
    using assms(1) by (simp_all add: streams_ok_def st_def)
  have settled: "(pe_promise p, session_closed_error session p) \<in> set (ht_settled (erase_session_streams session st))"
    if "amap_find (pending_key session rid) (ht_pending st) = Some p" for rid p
  proof -
    have "(pending_key session rid, p) \<in> set (filter (\<lambda>(k, p). has_prefix (pending_key session []) k) (ht_pending st))"
      using amap_find_Some_in [OF that] by simp
    then show ?thesis by (force simp: erase_session_streams_def Let_def)
  qed
  have rest: "amap_find k (ht_pending (erase_session_streams session st)) =
      (if has_prefix (pending_key session []) k then None else amap_find k (ht_pending st))"
    "frames_of k (erase_session_streams session st) = (if has_prefix (pending_key session []) k then [] else frames_of k st)"
    "amap_find k (ht_filters (erase_session_streams session st)) =
      (if has_prefix (pending_key session []) k then None else amap_find k (ht_filters st))"
    "k \<in> set (ht_hold (erase_session_streams session st)) \<longleftrightarrow> \<not> has_prefix (pending_key session []) k \<and> k \<in> set (ht_hold st)" for k
    by (auto simp: erase_session_streams_def Let_def filtered_find ok frames_of_def)
  have all: "ht_settled (erase_session_streams session st) =
      ht_settled st @ map (\<lambda>(k, p). (pe_promise p, session_closed_error session p))
        (filter (\<lambda>(k, p). \<exists>rid. k = pending_key session rid) (ht_pending st))"
    by (simp add: erase_session_streams_def Let_def own_key_iff)
  show ?thesis
    unfolding Let_def
    by (intro conjI erased_store assms(4))
      (use settled assms(2,3) in \<open>simp_all add: erase_session_def erase_entries_def rest all erased_routes ok erased_events flip: st_def\<close>)
qed

section \<open>A message stays in its session\<close>

lemma buffer_to_other:
  assumes "buffer_to limit msg keys st = Inr st'" "k \<notin> set keys"
  shows "frames_of k st' = frames_of k st"
proof -
  have "frames_of k (fold (append_frame frame) keys st) = frames_of k st" if "k \<notin> set keys" for frame keys st
    using that by (induction keys arbitrary: st) (simp_all add: append_frame_def frames_of_def)
  with assms show ?thesis by (auto simp: buffer_to_def res_simps split: if_splits)
qed

lemma buffer_to_rest:
  assumes "buffer_to limit msg keys st = Inr st'"
  shows "ht_pending st' = ht_pending st \<and> ht_settled st' = ht_settled st"
proof -
  have "ht_pending (fold (append_frame frame) keys st) = ht_pending st \<and>
      ht_settled (fold (append_frame frame) keys st) = ht_settled st" for frame keys st
    by (induction keys arbitrary: st) (simp_all add: append_frame_def)
  with assms show ?thesis by (auto simp: buffer_to_def res_simps split: if_splits)
qed

lemma buffer_targets_own:
  "k \<in> set (fst (buffer_targets n st)) \<Longrightarrow> belongs (nt_session n) k"
  by (auto simp: buffer_targets_def Let_def split: if_splits option.splits)

lemma try_buffer_own:
  assumes "try_buffer limit msg st = Inr (st', ok)" "message_session_id msg \<noteq> []"
  shows "ht_pending st' = ht_pending st \<and> ht_settled st' = ht_settled st \<and>
    (other \<noteq> message_session_id msg \<longrightarrow> frames_of (pending_key other rid) st' = frames_of (pending_key other rid) st)"
proof (cases msg)
  case (MsgNotification n)
  obtain keys fin where keys: "buffer_targets n st = (keys, fin)" by (cases "buffer_targets n st")
  with assms(1) MsgNotification have b: "buffer_to limit msg keys st = Inr st'"
    by (auto simp: try_buffer_def res_simps)
  have "pending_key other rid \<notin> set keys" if "other \<noteq> nt_session n"
    using buffer_targets_own [of "pending_key other rid" n st] that keys assms(2)
    by (auto simp: belongs_def message_session_id_def MsgNotification)
  then show ?thesis
    using buffer_to_rest [OF b] buffer_to_other [OF b] by (auto simp: message_session_id_def MsgNotification)
qed (use assms in \<open>auto simp: try_buffer_def\<close>)

lemma match_pending_own:
  "session \<noteq> [] \<Longrightarrow> match_pending session rid st = Some key \<Longrightarrow> key = pending_key session (request_id_to_string rid)"
  by (auto simp: match_pending_def Let_def split: if_splits)

lemma settle_pending_own:
  assumes "settle_pending session rid msg st = Some st'" "session \<noteq> []"
  shows "\<exists>p. amap_find (pending_key session (request_id_to_string rid)) (ht_pending st) = Some p \<and>
    st' = st\<lparr>ht_pending := amap_erase (pending_key session (request_id_to_string rid)) (ht_pending st),
      ht_settled := ht_settled st @ [(pe_promise p, msg)]\<rparr>"
  using assms match_pending_own by (fastforce simp: settle_pending_def split: option.splits)

lemma broadcast_own:
  assumes "broadcast_message opts clients msg tp = Inr (tp', out)"
  shows "tp_streams tp' = tp_streams tp \<and>
    (other \<noteq> message_session_id msg \<longrightarrow> events_of (tp_events tp') other = events_of (tp_events tp) other) \<and>
    (\<forall>(cid, data) \<in> set out. \<exists>tag. (cid, tag) \<in> set clients \<and> tag_matches_session tag (message_session_id msg))"
proof -
  have accepted: "tag_matches_session tag (message_session_id msg)" if "broadcast_accepts msg tag" for tag
    using that by (auto simp: broadcast_accepts_def split: rpc_message.splits)
  have reached: "\<exists>tag. (cid, tag) \<in> set clients \<and> tag_matches_session tag (message_session_id msg)"
    if "(cid, data) \<in> set (broadcast_sse event (broadcast_accepts msg) clients)" for cid data event
    using that accepted by (auto simp: broadcast_sse_def)
  show ?thesis
    using assms reached
    by (auto simp: broadcast_message_def res_simps append_event_def Let_def events_of_def
        split: if_splits prod.splits option.splits)
qed

text \<open>C7: a message that carries a session stays in it: it answers at most the waiting request of this session with
  its identifier, its frames go only to streams of this session, the events of no other session grow, and only
  listeners of this session receive it.\<close>

theorem message_stays_in_session:
  assumes "send_message_async opts clients msg tp = Inr (tp', out)" "message_session_id msg \<noteq> []"
    and "streams_ok (tp_streams tp)" "other \<noteq> message_session_id msg"
  shows "amap_find (pending_key other rid) (ht_pending (tp_streams tp')) =
      amap_find (pending_key other rid) (ht_pending (tp_streams tp)) \<and>
    (ht_settled (tp_streams tp') = ht_settled (tp_streams tp) \<or>
      (\<exists>own p. answered_request msg = Some own \<and>
         amap_find (pending_key (message_session_id msg) (request_id_to_string own)) (ht_pending (tp_streams tp)) = Some p \<and>
         ht_settled (tp_streams tp') = ht_settled (tp_streams tp) @ [(pe_promise p, msg)])) \<and>
    frames_of (pending_key other rid) (tp_streams tp') = frames_of (pending_key other rid) (tp_streams tp) \<and>
    events_of (tp_events tp') other = events_of (tp_events tp) other \<and>
    (\<forall>(cid, data) \<in> set out. \<exists>tag. (cid, tag) \<in> set clients \<and> tag_matches_session tag (message_session_id msg))"
proof (cases "case answered_request msg of None \<Rightarrow> None
    | Some rid \<Rightarrow> settle_pending (message_session_id msg) rid msg (tp_streams tp)")
  case None
  then obtain st ok where buffered: "try_buffer (sse_event_limit opts) msg (tp_streams tp) = Inr (st, ok)"
      and rest: "(if ok then Inr (tp\<lparr>tp_streams := st\<rparr>, [])
         else broadcast_message opts clients msg (tp\<lparr>tp_streams := st\<rparr>)) = Inr (tp', out)"
    using assms(1) by (auto simp: send_message_async_def res_simps)
  note own = try_buffer_own [OF buffered assms(2), of other rid]
  show ?thesis
  proof (cases ok)
    case True
    with rest own assms(4) show ?thesis by auto
  next
    case False
    with rest have "broadcast_message opts clients msg (tp\<lparr>tp_streams := st\<rparr>) = Inr (tp', out)" by simp
    from broadcast_own [OF this, of other] own assms(4) show ?thesis by simp
  qed
next
  case (Some st)
  then obtain own where own: "answered_request msg = Some own"
      "settle_pending (message_session_id msg) own msg (tp_streams tp) = Some st"
    by (auto split: option.splits)
  from settle_pending_own [OF own(2) assms(2)] obtain p where
    "amap_find (pending_key (message_session_id msg) (request_id_to_string own)) (ht_pending (tp_streams tp)) = Some p"
    "st = (tp_streams tp)\<lparr>ht_pending := amap_erase (pending_key (message_session_id msg) (request_id_to_string own))
        (ht_pending (tp_streams tp)), ht_settled := ht_settled (tp_streams tp) @ [(pe_promise p, msg)]\<rparr>"
    by blast
  with own(1) Some assms show ?thesis
    by (auto simp: send_message_async_def frames_of_def streams_ok_def amap_simps)
qed

section \<open>An answer without a session\<close>

text \<open>An answer without a session whose own request does not wait any more is given to another waiting request, with
  another identifier, when that is the only one whose key ends with the same digits.\<close>

theorem late_answer_misdelivered:
  assumes "answered_request msg = Some rid" "message_session_id msg = []"
    and "amap_find (pending_key [] (request_id_to_string rid)) (ht_pending (tp_streams tp)) = None"
    and "filter (has_suffix (request_id_to_string rid)) (map fst (ht_pending (tp_streams tp))) = [key]"
  shows "\<exists>p tp'. amap_find key (ht_pending (tp_streams tp)) = Some p \<and>
    send_message_async opts clients msg tp = Inr (tp', []) \<and>
    ht_settled (tp_streams tp') = ht_settled (tp_streams tp) @ [(pe_promise p, msg)]"
proof -
  have "key \<in> set (filter (has_suffix (request_id_to_string rid)) (map fst (ht_pending (tp_streams tp))))"
    by (simp add: assms(4))
  then have "key \<in> set (map fst (ht_pending (tp_streams tp)))" by simp
  then obtain p where "amap_find key (ht_pending (tp_streams tp)) = Some p"
    by (metis amap_find_None_iff not_None_eq set_map)
  with assms show ?thesis
    by (simp add: send_message_async_def settle_pending_def match_pending_def Let_def)
qed

definition plain_http_options :: http_options where
  "plain_http_options = \<lparr>ho_stateless = True, ho_listen_hold_open = False, ho_endpoint = ''/mcp'', ho_max_body = None,
     ho_max_event = None, ho_max_replay = None, ho_bearer = None, ho_resolve = None, ho_etag_cache = False\<rparr>"

definition sample_transport :: "(string \<times> pending) list \<Rightarrow> http_transport" where
  "sample_transport waiting = \<lparr>tp_sessions = \<lparr>hs_map = [], hs_store = None\<rparr>, tp_events = new_event_store,
     tp_streams = no_streams\<lparr>ht_pending := waiting\<rparr>, tp_channel = None, tp_inflight = 0, tp_dpop = new_dpop_state,
     tp_promises = length waiting\<rparr>"

definition sample_answer :: "string \<Rightarrow> rpc_message" where
  "sample_answer session = MsgResponse \<lparr>rs_jsonrpc = ''2.0'', rs_id = IdInt 1, rs_result = JNull, rs_session = session\<rparr>"

lemma one_text: "request_id_to_string (IdInt 1) = ''1''"
  by code_simp

theorem late_answer_misdelivered_witness:
  "\<exists>tp'. send_message_async plain_http_options [] (sample_answer [])
       (sample_transport [(''0:11'', \<lparr>pe_id = IdInt 11, pe_promise = 7\<rparr>)]) = Inr (tp', []) \<and>
     ht_settled (tp_streams tp') = [(7, sample_answer [])]"
proof -
  let ?tp = "sample_transport [(''0:11'', \<lparr>pe_id = IdInt 11, pe_promise = 7\<rparr>)]"
  have "answered_request (sample_answer []) = Some (IdInt 1)" "message_session_id (sample_answer []) = []"
    by (simp_all add: answered_request_def message_session_id_def sample_answer_def)
  moreover have "amap_find (pending_key [] (request_id_to_string (IdInt 1))) (ht_pending (tp_streams ?tp)) = None"
    "filter (has_suffix (request_id_to_string (IdInt 1))) (map fst (ht_pending (tp_streams ?tp))) = [''0:11'']"
    by (simp_all add: one_text sample_transport_def pending_key_def has_suffix_def)
  ultimately have "\<exists>p tp'. amap_find ''0:11'' (ht_pending (tp_streams ?tp)) = Some p \<and>
      send_message_async plain_http_options [] (sample_answer []) ?tp = Inr (tp', []) \<and>
      ht_settled (tp_streams tp') = ht_settled (tp_streams ?tp) @ [(pe_promise p, sample_answer [])]"
    by (rule late_answer_misdelivered)
  then show ?thesis by (auto simp: sample_transport_def no_streams_def)
qed

theorem message_stays_in_session_witness:
  "\<exists>tp'. send_message_async plain_http_options [] (sample_answer ''s'')
       (sample_transport [(''1:s1'', \<lparr>pe_id = IdInt 1, pe_promise = 7\<rparr>), (''1:t1'', \<lparr>pe_id = IdInt 1, pe_promise = 8\<rparr>)]) =
       Inr (tp', []) \<and>
     amap_find (pending_key ''t'' ''1'') (ht_pending (tp_streams tp')) = Some \<lparr>pe_id = IdInt 1, pe_promise = 8\<rparr>"
proof -
  let ?tp = "sample_transport [(''1:s1'', \<lparr>pe_id = IdInt 1, pe_promise = 7\<rparr>), (''1:t1'', \<lparr>pe_id = IdInt 1, pe_promise = 8\<rparr>)]"
  have keys: "pending_key ''s'' ''1'' = ''1:s1''" "pending_key ''t'' ''1'' = ''1:t1''" by code_simp+
  have "\<exists>tp'. send_message_async plain_http_options [] (sample_answer ''s'') ?tp = Inr (tp', [])"
    by (simp add: send_message_async_def sample_answer_def answered_request_def message_session_id_def settle_pending_def
        match_pending_def one_text keys sample_transport_def)
  then obtain tp' where sent: "send_message_async plain_http_options [] (sample_answer ''s'') ?tp = Inr (tp', [])" by blast
  have session: "message_session_id (sample_answer ''s'') = ''s''" by (simp add: message_session_id_def sample_answer_def)
  have "streams_ok (tp_streams ?tp)" by (simp add: streams_ok_def sample_transport_def no_streams_def amap_ok_def)
  with message_stays_in_session [OF sent, of "''t''" "''1''"] sent show ?thesis
    by (simp add: session keys) (simp add: sample_transport_def)
qed

theorem closed_session_settled_witness:
  "let tp' = erase_session ''s'' (sample_transport [(''1:s1'', \<lparr>pe_id = IdInt 1, pe_promise = 7\<rparr>)]) in
     (7, session_closed_error ''s'' \<lparr>pe_id = IdInt 1, pe_promise = 7\<rparr>) \<in> set (ht_settled (tp_streams tp'))"
proof -
  let ?tp = "sample_transport [(''1:s1'', \<lparr>pe_id = IdInt 1, pe_promise = 7\<rparr>)]"
  have "pending_key ''s'' ''1'' = ''1:s1''" by code_simp
  then have "amap_find (pending_key ''s'' ''1'') (ht_pending (tp_streams ?tp)) = Some \<lparr>pe_id = IdInt 1, pe_promise = 7\<rparr>"
    by (simp add: sample_transport_def)
  moreover have "streams_ok (tp_streams ?tp)" "amap_ok (ev_events (tp_events ?tp))" "amap_ok (hs_map (tp_sessions ?tp))"
      "\<forall>store. hs_store (tp_sessions ?tp) = Some store \<longrightarrow> amap_ok store"
    by (simp_all add: streams_ok_def sample_transport_def no_streams_def new_event_store_def)
  ultimately show ?thesis
    using closed_session_settled [of ?tp "''s''", unfolded Let_def, THEN conjunct1, rule_format, of "''1''"]
    unfolding Let_def by simp
qed

end
