(* ===== verification/Http_Transport.thy ===== *)
theory Http_Transport
  imports Http_Streams Std_Numbers
begin

text \<open>
  The handlers of the HTTP server transport: \<open>HandlePost\<close>, \<open>HandleGet\<close>, the handler of \<open>DELETE\<close>, \<open>Close\<close> and the
  metadata document (\<open>src/http/StreamableHttpServerTransport.cpp\<close>).  \<open>HandlePost\<close> blocks while the server works: it is
  cut there into \<open>handle_post\<close>, which answers at once or leaves a waiting request, and \<open>finish_post\<close>, which takes the value
  of the promise, or nothing after the timeout.  A step returns the state and an exception or a result.
\<close>

section \<open>Reading a request\<close>

record http_env =
  he_auth :: auth_env
  he_now :: int
  he_session_bytes :: string

definition given_version :: "http_request \<Rightarrow> string option" where
  "given_version req =
     (case get_mcp_header req ''mcp-protocol-version'' of Some v \<Rightarrow> if v = [] then None else Some v | None \<Rightarrow> None)"

definition max_http_body_bytes :: nat where "max_http_body_bytes = 4 * 1024 * 1024"

definition unsupported_version :: "http_request \<Rightarrow> string option" where
  "unsupported_version req =
     (case given_version req of Some v \<Rightarrow> if is_supported_protocol_version v then None else Some v | None \<Rightarrow> None)"

text \<open>The message of the body, or the refusal.\<close>

definition read_post :: "http_options \<Rightarrow> http_request \<Rightarrow> http_response \<Rightarrow> http_response + rpc_message" where
  "read_post opts req resp =
     (case unsupported_version req of
        Some v \<Rightarrow> Inl (respond_unsupported_version v (probe_request_id (hq_body req)) resp)
      | None \<Rightarrow>
          if (case ho_max_body opts of Some n \<Rightarrow> n | None \<Rightarrow> max_http_body_bytes) < length (hq_body req) then
            Inl (respond_literal 413 ''Payload Too Large''
              (error_body ParseError ''Message size exceeds maximum allowed size'') resp)
          else (case deserialize_message (hq_body req) of
                  Inl e \<Rightarrow> Inl (respond_literal 400 ''Bad Request'' (error_body ParseError ''Parse error'') resp)
                | Inr msg \<Rightarrow> Inr msg))"

definition post_body_value :: "rpc_message \<Rightarrow> json" where
  "post_body_value msg =
     (case msg of
        MsgRequest r \<Rightarrow> build_object [put ''method'' (JString (rq_method r)), put_opt ''params'' (\<lambda>x. x) (rq_params r)]
      | MsgNotification n \<Rightarrow> build_object [put ''method'' (JString (nt_method n)), put_opt ''params'' (\<lambda>x. x) (nt_params n)]
      | _ \<Rightarrow> JNull)"

definition header_or_empty :: "http_request \<Rightarrow> string \<Rightarrow> string" where
  "header_or_empty req name = (case get_mcp_header req name of Some v \<Rightarrow> v | None \<Rightarrow> [])"

definition modern_request :: "http_request \<Rightarrow> bool" where
  "modern_request req \<longleftrightarrow> (case given_version req of Some v \<Rightarrow> is_modern_protocol_version v | None \<Rightarrow> False)"

text \<open>What is wrong with the headers, if anything.\<close>

definition header_error :: "http_request \<Rightarrow> rpc_message \<Rightarrow> string option" where
  "header_error req msg =
     (let body = post_body_value msg
      in if modern_request req \<and> get_mcp_header req ''mcp-method'' = None then Some ''missing required Mcp-Method header''
         else if modern_request req \<and> requires_mcp_name_header (string_member ''method'' (Some body)) \<and>
           get_mcp_header req ''mcp-name'' = None then Some ''missing required Mcp-Name header''
         else validate_mcp_headers (header_or_empty req ''mcp-method'') (header_or_empty req ''mcp-name'') body)"

definition is_initialize :: "rpc_message \<Rightarrow> bool" where
  "is_initialize msg = (case msg of MsgRequest r \<Rightarrow> rq_method r = ''initialize'' | _ \<Rightarrow> False)"

definition requested_version :: "http_request \<Rightarrow> rpc_message \<Rightarrow> string" where
  "requested_version req msg =
     (let asked = (case msg of
            MsgRequest r \<Rightarrow> if rq_method r = ''initialize'' then string_member ''protocolVersion'' (rq_params r) else []
          | _ \<Rightarrow> [])
      in if asked = [] then (case given_version req of Some v \<Rightarrow> v | None \<Rightarrow> []) else asked)"

text \<open>Requests that a transport without sessions refuses.\<close>

definition version_mismatch :: "http_request \<Rightarrow> rpc_request \<Rightarrow> string option" where
  "version_mismatch req r =
     (case (given_version req, declared_meta_version r) of
        (Some v, Some m) \<Rightarrow>
          if v \<noteq> m then Some (''Mcp-Protocol-Version header '' @ apostrophed v @
            '' does not match request _meta protocolVersion '' @ apostrophed m)
          else None
      | _ \<Rightarrow> None)"

definition stateless_refusal :: "http_request \<Rightarrow> rpc_request \<Rightarrow> http_response \<Rightarrow> http_response option" where
  "stateless_refusal req r resp =
     (if given_version req \<noteq> None \<and> \<not> modern_request req then None
      else if is_removed_stateless_method (rq_method r) \<and> (rq_method r = ''initialize'' \<longrightarrow> modern_request req) then
        Some (respond_stateless_error 404 ''Not Found'' MethodNotFound (''method not found: '' @ rq_method r)
          (Some (rq_id r)) None resp)
      else (case version_mismatch req r of
              Some err \<Rightarrow> Some (respond_stateless_error 400 ''Bad Request'' HeaderMismatch err (Some (rq_id r)) None resp)
            | None \<Rightarrow>
                if rq_method r = ''server/discover'' \<and> \<not> has_required_stateless_meta r then
                  Some (respond_stateless_error 400 ''Bad Request'' InvalidParams
                    ''stateless requests must carry _meta with protocolVersion and clientCapabilities''
                    (Some (rq_id r)) None resp)
                else None))"

definition response_version :: "http_request \<Rightarrow> string \<Rightarrow> http_sessions \<Rightarrow> string" where
  "response_version req session st =
     (case given_version req of
        Some v \<Rightarrow> v
      | None \<Rightarrow> if session \<noteq> [] then session_protocol_version session st else default_negotiated_version)"

definition put_header_if :: "string \<Rightarrow> string option \<Rightarrow> http_response \<Rightarrow> http_response" where
  "put_header_if name value resp = (case value of Some v \<Rightarrow> put_header name v resp | None \<Rightarrow> resp)"

definition echo_headers :: "http_request \<Rightarrow> string \<Rightarrow> http_response \<Rightarrow> http_response" where
  "echo_headers req version resp =
     put_header_if ''mcp-name'' (get_mcp_header req ''mcp-name'')
       (put_header_if ''mcp-method'' (get_mcp_header req ''mcp-method'')
         (put_header ''mcp-protocol-version'' version resp))"

text \<open>The parameter headers travel to the handler inside the metadata of the request.\<close>

definition param_header_members :: "(string \<times> string) list \<Rightarrow> members" where
  "param_header_members headers =
     amap_of_list (map (\<lambda>(k, v). (drop 10 k, JString v)) (filter (\<lambda>(k, v). take 10 (to_lower k) = ''mcp-param-'') headers))"

definition attach_param_headers :: "http_request \<Rightarrow> rpc_request \<Rightarrow> rpc_request mres" where
  "attach_param_headers req r =
     (let m = param_header_members (hq_headers req)
      in if m = [] then Inr r
         else rmap (\<lambda>meta. r\<lparr>rq_meta := Some meta\<rparr>)
           (json_set ''x-mcp-headers'' (JObject m) (case rq_meta r of Some meta \<Rightarrow> meta | None \<Rightarrow> JObject [])))"

section \<open>Posting\<close>

record post_wait =
  pw_key :: string
  pw_id :: string
  pw_promise :: nat
  pw_hold_open :: bool
  pw_tag :: "string option"
  pw_response :: http_response

datatype post_result = Answered http_response | Waiting post_wait

type_synonym 'a http_step = "http_transport \<times> 'a mres"

abbreviation answer_now :: "http_transport \<Rightarrow> http_response \<Rightarrow> post_result http_step" where
  "answer_now tp resp \<equiv> (tp, Inr (Answered resp))"

definition channel_open :: "http_transport \<Rightarrow> bool" where
  "channel_open tp \<longleftrightarrow> (case tp_channel tp of Some c \<Rightarrow> is_open c | None \<Rightarrow> False)"

definition max_stateless_inflight :: nat where "max_stateless_inflight = 8"

definition channel_try_send :: "rpc_message \<Rightarrow> http_transport \<Rightarrow> http_transport \<times> bool" where
  "channel_try_send msg tp =
     (case tp_channel tp of
        None \<Rightarrow> (tp, False)
      | Some c \<Rightarrow> (case try_send msg c of (c', ok) \<Rightarrow> (tp\<lparr>tp_channel := Some c'\<rparr>, ok)))"

text \<open>The bookkeeping for a request that is about to wait.\<close>

definition register_waiting :: "http_options \<Rightarrow> string \<Rightarrow> string \<Rightarrow> rpc_request \<Rightarrow> nat \<Rightarrow> http_streams \<Rightarrow> http_streams" where
  "register_waiting opts version key r promise st =
     (let hold_open = is_modern_protocol_version version;
          st1 = st\<lparr>ht_pending := amap_put key \<lparr>pe_id = rq_id r, pe_promise = promise\<rparr> (ht_pending st)\<rparr>;
          st2 = (if hold_open then st1\<lparr>ht_hold := List.insert key (ht_hold st1)\<rparr> else st1);
          st3 = (case (hold_open, request_token_key r) of
                   (True, Some token) \<Rightarrow> st2\<lparr>ht_routes := amap_put token key (ht_routes st2)\<rparr>
                 | _ \<Rightarrow> st2)
      in if hold_open \<and> ho_listen_hold_open opts \<and> rq_method r = ''subscriptions/listen''
         then st3\<lparr>ht_filters := amap_put key (parse_listen_filter r) (ht_filters st3)\<rparr> else st3)"

definition unregister_waiting :: "string \<Rightarrow> http_streams \<Rightarrow> http_streams" where
  "unregister_waiting key st = erase_request_stream_state key (st\<lparr>ht_pending := amap_erase key (ht_pending st)\<rparr>)"

definition listen_tag_of :: "http_options \<Rightarrow> string \<Rightarrow> rpc_request \<Rightarrow> string option" where
  "listen_tag_of opts version r =
     (if is_modern_protocol_version version \<and> ho_listen_hold_open opts \<and> rq_method r = ''subscriptions/listen''
      then Some (encode_listen_tag (parse_listen_filter r) (rq_session r)) else None)"

definition post_request ::
  "http_options \<Rightarrow> string \<Rightarrow> rpc_request \<Rightarrow> http_response \<Rightarrow> http_transport \<Rightarrow> post_result http_step" where
  "post_request opts version r resp tp =
     (if \<not> channel_open tp then answer_now tp (respond_unavailable ''server closed'' resp)
      else if ho_stateless opts \<and> max_stateless_inflight \<le> tp_inflight tp then
        answer_now tp (respond_unavailable ''server busy'' resp)
      else (let id_str = request_id_to_string (rq_id r);
                key = pending_key (rq_session r) id_str;
                promise = tp_promises tp;
                tp1 = tp\<lparr>tp_promises := promise + 1,
                  tp_streams := register_waiting opts version key r promise (tp_streams tp)\<rparr>
            in case channel_try_send (MsgRequest r) tp1 of
                 (tp2, True) \<Rightarrow>
                   (tp2\<lparr>tp_inflight := tp_inflight tp2 + (if ho_stateless opts then 1 else 0)\<rparr>,
                    Inr (Waiting \<lparr>pw_key = key, pw_id = id_str, pw_promise = promise,
                      pw_hold_open = is_modern_protocol_version version, pw_tag = listen_tag_of opts version r,
                      pw_response = resp\<rparr>))
               | (tp2, False) \<Rightarrow>
                   answer_now (tp2\<lparr>tp_streams := unregister_waiting key (tp_streams tp2)\<rparr>)
                     (respond_unavailable ''server closed'' resp)))"

text \<open>Everything else that can be posted is answered at once.\<close>

definition post_message :: "rpc_message \<Rightarrow> http_response \<Rightarrow> http_transport \<Rightarrow> post_result http_step" where
  "post_message msg resp tp =
     (case (if channel_open tp then channel_try_send msg tp else (tp, False)) of
        (tp', True) \<Rightarrow> answer_now tp' (respond_literal 202 ''Accepted'' ''{}'' resp)
      | (tp', False) \<Rightarrow> answer_now tp' (respond_unavailable ''server closed'' resp))"

text \<open>The part of \<open>HandlePost\<close> after the session is resolved.\<close>

definition dispatch_post ::
  "http_options \<Rightarrow> http_request \<Rightarrow> string \<Rightarrow> rpc_message \<Rightarrow> http_response \<Rightarrow> http_transport \<Rightarrow> post_result http_step" where
  "dispatch_post opts req session msg0 resp0 tp =
     (let msg = set_message_session session msg0;
          resp = (if is_initialize msg \<and> session \<noteq> [] then put_header ''mcp-session-id'' session resp0 else resp0);
          version = response_version req session (tp_sessions tp);
          resp' = echo_headers req version resp
      in case msg of
           MsgRequest r \<Rightarrow>
             (case (if ho_stateless opts then stateless_refusal req r resp else None) of
                Some refusal \<Rightarrow> answer_now tp refusal
              | None \<Rightarrow>
                  (case attach_param_headers req r of
                     Inl e \<Rightarrow> (tp, Inl e)
                   | Inr r' \<Rightarrow>
                       (case validate_param_headers (ho_resolve opts) (hq_headers req) (rq_method r') (rq_params r') of
                          Inl e \<Rightarrow> (tp, Inl e)
                        | Inr (Some err) \<Rightarrow> answer_now tp (respond_header_mismatch err (Some (rq_id r')) resp')
                        | Inr None \<Rightarrow> post_request opts version r' resp' tp)))
         | _ \<Rightarrow> post_message msg resp' tp)"

definition handle_post :: "http_options \<Rightarrow> http_env \<Rightarrow> http_request \<Rightarrow> http_transport \<Rightarrow> post_result http_step" where
  "handle_post opts env req tp =
     (case authorize_request (he_auth env) (ho_bearer opts) req (tp_dpop tp) new_response of
        Inl e \<Rightarrow> (tp, Inl e)
      | Inr (dpop, resp, ok) \<Rightarrow>
          (let tp1 = tp\<lparr>tp_dpop := dpop\<rparr>
           in if \<not> ok then answer_now tp1 resp
              else (case read_post opts req resp of
                 Inl refusal \<Rightarrow> answer_now tp1 refusal
               | Inr msg \<Rightarrow>
                   (case header_error req msg of
                      Some err \<Rightarrow> answer_now tp1 (respond_header_mismatch err (message_request_id msg) resp)
                    | None \<Rightarrow>
                        (case resolve_session (ho_stateless opts) (he_now env) (he_session_bytes env) req
                                (is_initialize msg) (requested_version req msg) (tp_sessions tp1) resp of
                           (sessions, resp', None) \<Rightarrow> answer_now (tp1\<lparr>tp_sessions := sessions\<rparr>) resp'
                         | (sessions, resp', Some session) \<Rightarrow>
                             dispatch_post opts req session msg resp' (tp1\<lparr>tp_sessions := sessions\<rparr>))))))"

section \<open>The answer to a post\<close>

definition timeout_body :: "string \<Rightarrow> string" where
  "timeout_body rid = dump (- 1) (build_object [put ''jsonrpc'' (JString ''2.0''),
     put ''error'' (build_object [put ''code'' (JInt (- 32000)),
       put ''message'' (JString (''Request timeout for request '' @ rid))])])"

text \<open>The headers that a result asks for in its metadata.\<close>

definition result_headers :: "rpc_message \<Rightarrow> (string \<times> string) list" where
  "result_headers msg =
     (case msg of
        MsgResponse r \<Rightarrow>
          (case json_find ''_meta'' (rs_result r) of
             Some (JObject meta) \<Rightarrow>
               (case amap_find ''x-mcp-header'' meta of
                  Some (JObject m) \<Rightarrow>
                    map (\<lambda>(k, v). (''mcp-param-'' @ k, case v of JString s \<Rightarrow> s | _ \<Rightarrow> dump (- 1) v)) m
                | _ \<Rightarrow> [])
           | _ \<Rightarrow> [])
      | _ \<Rightarrow> [])"

definition put_headers :: "(string \<times> string) list \<Rightarrow> http_response \<Rightarrow> http_response" where
  "put_headers hs resp = foldl (\<lambda>resp (k, v). put_header k v resp) resp hs"

definition etag_unchanged :: "http_request \<Rightarrow> string \<Rightarrow> bool" where
  "etag_unchanged req etag =
     (case get_mcp_header req ''if-none-match'' of
        Some inm \<Rightarrow> normalize_etag_value inm = normalize_etag_value etag | None \<Rightarrow> False)"

definition error_status :: "rpc_message \<Rightarrow> int option" where
  "error_status msg = (case msg of MsgError e \<Rightarrow> map_request_error_http_status (ed_code (er_error e)) | _ \<Rightarrow> None)"

definition sse_response :: "http_options \<Rightarrow> post_wait \<Rightarrow> string list \<Rightarrow> rpc_message \<Rightarrow> http_response \<Rightarrow> http_response mres" where
  "sse_response opts w frames msg resp =
     (let resp' = put_headers [(''content-type'', ''text/event-stream''), (''cache-control'', ''no-cache''), (''x-accel-buffering'', ''no'')]
            (resp\<lparr>hp_status := 200, hp_status_text := ''OK'', hp_is_sse := True, hp_close_after_write := pw_tag w = None,
                  hp_client_tag := (case pw_tag w of Some tag \<Rightarrow> tag | None \<Rightarrow> hp_client_tag resp)\<rparr>);
          finish = (\<lambda>final. let body = concat frames @ final
            in resp'\<lparr>hp_body := (if sse_event_limit opts < length body then sse_limit_error_frame else body)\<rparr>)
      in if pw_tag w = None \<or> \<not> is_response msg
         then rmap finish (build_sse_event (sse_event_limit opts) msg) else Inr (finish []))"

definition answer_post ::
  "http_options \<Rightarrow> http_request \<Rightarrow> post_wait \<Rightarrow> string list \<Rightarrow> rpc_message \<Rightarrow> http_response mres" where
  "answer_post opts req w frames msg =
     (case error_status msg of
        Some status \<Rightarrow>
          rmap (\<lambda>body. respond_literal status (if status = 404 then ''Not Found'' else ''Bad Request'') body (pw_response w))
            (serialize_message msg)
      | None \<Rightarrow>
          (let resp = put_headers (result_headers msg) (pw_response w)
           in case (if ho_etag_cache opts then result_etag_value msg else None) of
                Some etag \<Rightarrow>
                  if etag_unchanged req etag then
                    Inr ((put_header ''etag'' etag resp)\<lparr>hp_status := 304, hp_status_text := ''Not Modified'', hp_body := [],
                      hp_is_sse := False\<rparr>)
                  else sse_response opts w frames msg (put_header ''etag'' etag resp)
              | None \<Rightarrow> sse_response opts w frames msg resp))"

definition finish_post ::
  "http_options \<Rightarrow> http_request \<Rightarrow> post_wait \<Rightarrow> rpc_message option \<Rightarrow> http_transport \<Rightarrow> http_response http_step" where
  "finish_post opts req w result tp0 =
     (let tp = tp0\<lparr>tp_inflight := tp_inflight tp0 - (if ho_stateless opts then 1 else 0)\<rparr>; st = tp_streams tp
      in case result of
           None \<Rightarrow>
             (tp\<lparr>tp_streams := unregister_waiting (pw_key w) st\<rparr>,
              Inr (respond_literal 504 ''Gateway Timeout'' (timeout_body (pw_id w)) (pw_response w)))
         | Some msg \<Rightarrow>
             ((if pw_hold_open w then tp\<lparr>tp_streams := erase_request_stream_state (pw_key w) st\<rparr> else tp),
              answer_post opts req w (if pw_hold_open w then frames_of (pw_key w) st else []) msg))"

section \<open>Streams, endings and documents\<close>

definition max_sse_replay_events :: nat where "max_sse_replay_events = 512"

definition replay_frame :: "64 word \<times> string \<Rightarrow> string" where
  "replay_frame = (\<lambda>(i, data). event_id_prefix i @ data)"

text \<open>The loop that walks back over the events: how many of the newest ones fit; the argument is the reversed list.\<close>

fun replay_count :: "nat \<Rightarrow> nat \<Rightarrow> nat \<Rightarrow> (64 word \<times> string) list \<Rightarrow> nat" where
  "replay_count budget bytes taken [] = taken"
| "replay_count budget bytes taken (e # older) =
     (if taken < max_sse_replay_events \<and> bytes + length (replay_frame e) \<le> budget
      then replay_count budget (bytes + length (replay_frame e)) (taken + 1) older else taken)"

definition replayed :: "nat \<Rightarrow> (64 word \<times> string) list \<Rightarrow> (64 word \<times> string) list" where
  "replayed budget events = drop (length events - replay_count budget 0 0 (rev events)) events"

definition replay_text :: "http_options \<Rightarrow> string \<Rightarrow> http_request \<Rightarrow> event_store \<Rightarrow> string" where
  "replay_text opts session req events =
     (if ho_stateless opts then []
      else (case get_mcp_header req ''last-event-id'' of
              None \<Rightarrow> []
            | Some last_id \<Rightarrow>
                if last_id = [] then []
                else (case stoul last_id of
                        StoOk from rest \<Rightarrow>
                          concat (map replay_frame (replayed (case ho_max_replay opts of Some n \<Rightarrow> n | None \<Rightarrow> max_sse_event_bytes)
                            (get_events_since events session (of_nat from))))
                      | _ \<Rightarrow> [])))"

definition handle_get :: "http_options \<Rightarrow> http_env \<Rightarrow> http_request \<Rightarrow> http_transport \<Rightarrow> http_response http_step" where
  "handle_get opts env req tp =
     (case authorize_request (he_auth env) (ho_bearer opts) req (tp_dpop tp) new_response of
        Inl e \<Rightarrow> (tp, Inl e)
      | Inr (dpop, resp, ok) \<Rightarrow>
          (let tp1 = tp\<lparr>tp_dpop := dpop\<rparr>
           in if \<not> ok then (tp1, Inr resp)
              else (case resolve_session (ho_stateless opts) (he_now env) (he_session_bytes env) req False []
                           (tp_sessions tp1) resp of
                 (sessions, resp', None) \<Rightarrow> (tp1\<lparr>tp_sessions := sessions\<rparr>, Inr resp')
               | (sessions, resp', Some session) \<Rightarrow>
                   (tp1\<lparr>tp_sessions := sessions\<rparr>,
                    Inr (case unsupported_version req of
                           Some v \<Rightarrow> respond_unsupported_version v None resp'
                         | None \<Rightarrow>
                             (put_headers [(''mcp-protocol-version'', response_version req session sessions),
                                (''content-type'', ''text/event-stream''), (''cache-control'', ''no-cache'')] resp')
                             \<lparr>hp_is_sse := True,
                              hp_client_tag := (if session \<noteq> [] then encode_sse_stream_tag session else hp_client_tag resp'),
                              hp_body := sse_frame ''endpoint'' (ho_endpoint opts) @ replay_text opts session req (tp_events tp)\<rparr>)))))"

definition handle_delete :: "http_options \<Rightarrow> http_env \<Rightarrow> http_request \<Rightarrow> http_transport \<Rightarrow> http_transport \<times> http_response" where
  "handle_delete opts env req tp =
     (if ho_stateless opts then
        (tp, respond_literal 405 ''Method Not Allowed'' (error_body MethodNotFound ''method not found'') new_response)
      else (case get_mcp_header req ''mcp-session-id'' of
              Some session \<Rightarrow>
                if session \<noteq> [] then
                  (case has_session (he_now env) session (tp_sessions tp) of
                     (sessions, False) \<Rightarrow> (tp\<lparr>tp_sessions := sessions\<rparr>, respond_session_expired new_response)
                   | (sessions, True) \<Rightarrow>
                       (erase_session session (tp\<lparr>tp_sessions := sessions\<rparr>), respond_literal 200 ''OK'' ''{}'' new_response))
                else (tp, respond_literal 200 ''OK'' ''{}'' new_response)
            | None \<Rightarrow> (tp, respond_literal 200 ''OK'' ''{}'' new_response)))"

definition close_transport :: "http_transport \<Rightarrow> http_transport" where
  "close_transport tp =
     tp\<lparr>tp_sessions := (tp_sessions tp)\<lparr>hs_map := []\<rparr>,
        tp_events := fold clear_events (map fst (hs_map (tp_sessions tp))) (tp_events tp),
        tp_streams := (tp_streams tp)\<lparr>ht_pending := []\<rparr>,
        tp_channel := map_option close_channel (tp_channel tp)\<rparr>"

definition handle_metadata_request :: "bearer_config \<Rightarrow> http_response \<Rightarrow> http_response" where
  "handle_metadata_request c resp =
     respond_literal 200 ''OK''
       (dump (- 1) (build_object [
          put ''resource'' (JString (resource_url_from_metadata_url (bc_metadata_url c))),
          put_vector ''authorization_servers'' JString (bc_authorization_servers c),
          put_vector ''scopes_supported'' JString (bc_scopes_supported c),
          put ''bearer_methods_supported'' (JArray [JString ''header''])])) resp"

text \<open>What a \<open>DELETE\<close> does to the sessions.\<close>

lemma delete_ends_session:
  "\<not> ho_stateless opts \<Longrightarrow> tp_sessions (fst (handle_delete opts env req tp)) =
     end_session (he_now env) (header_or_empty req ''mcp-session-id'') (tp_sessions tp)"
  by (simp add: handle_delete_def header_or_empty_def end_session_def erase_session_def split: option.split prod.split bool.split)

section \<open>What reaches the server\<close>

text \<open>The messages that wait for the server.\<close>

definition queued :: "http_transport \<Rightarrow> rpc_message list" where
  "queued tp = (case tp_channel tp of Some c \<Rightarrow> ch_queue c | None \<Rightarrow> [])"

lemma channel_try_send_queued:
  "channel_try_send msg tp = (tp', ok) \<Longrightarrow> queued tp' = queued tp @ (if ok then [msg] else []) \<and>
     tp_streams tp' = tp_streams tp \<and> tp_inflight tp' = tp_inflight tp"
  by (auto simp: channel_try_send_def queued_def try_send_def split: option.splits prod.splits if_splits)

lemma post_request_cases:
  assumes "post_request opts version r resp tp = (tp', res)"
  shows "(\<exists>resp'. res = Inr (Answered resp') \<and> queued tp' = queued tp) \<or>
    (\<exists>w. res = Inr (Waiting w) \<and> queued tp' = queued tp @ [MsgRequest r] \<and>
       pw_key w = pending_key (rq_session r) (request_id_to_string (rq_id r)) \<and> pw_promise w = tp_promises tp \<and>
       tp_streams tp' = register_waiting opts version (pw_key w) r (tp_promises tp) (tp_streams tp))"
proof -
  let ?tp1 = "tp\<lparr>tp_promises := tp_promises tp + 1, tp_streams := register_waiting opts version
      (pending_key (rq_session r) (request_id_to_string (rq_id r))) r (tp_promises tp) (tp_streams tp)\<rparr>"
  obtain tp2 ok where sent: "channel_try_send (MsgRequest r) ?tp1 = (tp2, ok)" by (cases "channel_try_send (MsgRequest r) ?tp1")
  have "queued ?tp1 = queued tp" by (simp add: queued_def)
  with channel_try_send_queued [OF sent] assms sent show ?thesis
    by (cases ok) (auto simp: post_request_def Let_def queued_def split: if_splits)
qed

lemma post_message_cases:
  "post_message msg resp tp = (tp', res) \<Longrightarrow>
     \<exists>resp'. res = Inr (Answered resp') \<and> (queued tp' = queued tp \<or> queued tp' = queued tp @ [msg])"
  by (auto simp: post_message_def split: if_splits prod.splits bool.splits dest: channel_try_send_queued)

lemma attach_session: "attach_param_headers req r = Inr r' \<Longrightarrow> rq_session r' = rq_session r \<and> rq_id r' = rq_id r \<and>
    rq_method r' = rq_method r \<and> rq_params r' = rq_params r"
  by (auto simp: attach_param_headers_def Let_def res_simps split: if_splits)

text \<open>What the server gets for a message: its session, and for a request the parameter headers in its metadata.\<close>

definition forwarded :: "http_request \<Rightarrow> string \<Rightarrow> rpc_message \<Rightarrow> rpc_message mres" where
  "forwarded req session msg =
     (case set_message_session session msg of
        MsgRequest r \<Rightarrow> rmap MsgRequest (attach_param_headers req r) | m \<Rightarrow> Inr m)"

definition param_headers_ok :: "http_options \<Rightarrow> http_request \<Rightarrow> rpc_message \<Rightarrow> bool" where
  "param_headers_ok opts req msg \<longleftrightarrow>
     (case msg of MsgRequest r \<Rightarrow> validate_param_headers (ho_resolve opts) (hq_headers req) (rq_method r) (rq_params r) = Inr None
      | _ \<Rightarrow> True)"

lemma dispatch_post_cases:
  assumes "dispatch_post opts req session msg resp tp = (tp', res)"
  shows "(queued tp' = queued tp \<and> (\<forall>w. res \<noteq> Inr (Waiting w))) \<or>
    (\<exists>m. forwarded req session msg = Inr m \<and> param_headers_ok opts req msg \<and> queued tp' = queued tp @ [m])"
proof (cases "set_message_session session msg")
  case (MsgRequest r)
  have ok: "param_headers_ok opts req msg"
    if "attach_param_headers req r = Inr r'" "validate_param_headers (ho_resolve opts) (hq_headers req) (rq_method r') (rq_params r') = Inr None" for r'
    using MsgRequest that attach_session [OF that(1)]
    by (auto simp: param_headers_ok_def set_message_session_def split: rpc_message.splits)
  show ?thesis
    using assms MsgRequest ok
    by (auto simp: dispatch_post_def Let_def forwarded_def split: option.splits sum.splits dest!: post_request_cases)
next
  case (MsgNotification n)
  with assms show ?thesis
    by (auto simp: dispatch_post_def Let_def forwarded_def param_headers_ok_def set_message_session_def
        split: rpc_message.splits dest!: post_message_cases)
next
  case (MsgResponse r)
  with assms show ?thesis
    by (auto simp: dispatch_post_def Let_def forwarded_def param_headers_ok_def set_message_session_def
        split: rpc_message.splits dest!: post_message_cases)
next
  case (MsgError e)
  with assms show ?thesis
    by (auto simp: dispatch_post_def Let_def forwarded_def param_headers_ok_def set_message_session_def
        split: rpc_message.splits dest!: post_message_cases)
qed

text \<open>C5: a post hands the server at most one message, and only when the request is authorized, its body is small enough
  and holds this message, its protocol version is supported, its headers agree with the body and with the annotations of
  the tool, and its session is one the transport accepts, whose identifier the message then carries.\<close>

theorem posted_message_checked:
  assumes "handle_post opts env req tp = (tp', res)" "queued tp' \<noteq> queued tp"
  shows "\<exists>dpop resp msg sessions resp' session m.
    authorize_request (he_auth env) (ho_bearer opts) req (tp_dpop tp) new_response = Inr (dpop, resp, True) \<and>
    unsupported_version req = None \<and>
    length (hq_body req) \<le> (case ho_max_body opts of Some n \<Rightarrow> n | None \<Rightarrow> max_http_body_bytes) \<and>
    deserialize_message (hq_body req) = Inr msg \<and> header_error req msg = None \<and>
    resolve_session (ho_stateless opts) (he_now env) (he_session_bytes env) req (is_initialize msg)
      (requested_version req msg) (tp_sessions tp) resp = (sessions, resp', Some session) \<and>
    param_headers_ok opts req msg \<and> forwarded req session msg = Inr m \<and> message_session_id m = session \<and>
    queued tp' = queued tp @ [m]"
proof -
  have queued: "queued (tp\<lparr>tp_dpop := d\<rparr>) = queued tp" "queued (tp\<lparr>tp_dpop := d, tp_sessions := s\<rparr>) = queued tp" for d s
    by (simp_all add: queued_def)
  obtain dpop resp where auth: "authorize_request (he_auth env) (ho_bearer opts) req (tp_dpop tp) new_response = Inr (dpop, resp, True)"
  proof (cases "authorize_request (he_auth env) (ho_bearer opts) req (tp_dpop tp) new_response")
    case (Inr v)
    obtain dpop resp ok where v: "v = (dpop, resp, ok)" by (cases v)
    then have ok using assms Inr by (cases ok) (auto simp: handle_post_def Let_def queued)
    with that Inr v show ?thesis by simp
  qed (use assms in \<open>simp add: handle_post_def\<close>)
  obtain msg where msg: "read_post opts req resp = Inr msg" "header_error req msg = None"
    using assms auth by (auto simp: handle_post_def Let_def queued split: sum.splits option.splits)
  obtain sessions resp' session where session: "resolve_session (ho_stateless opts) (he_now env) (he_session_bytes env) req
      (is_initialize msg) (requested_version req msg) (tp_sessions tp) resp = (sessions, resp', Some session)"
      and dispatched: "dispatch_post opts req session msg resp' (tp\<lparr>tp_dpop := dpop, tp_sessions := sessions\<rparr>) = (tp', res)"
    using assms auth msg by (auto simp: handle_post_def Let_def queued split: prod.splits option.splits)
  obtain m where m: "forwarded req session msg = Inr m" "param_headers_ok opts req msg" "queued tp' = queued tp @ [m]"
    using dispatch_post_cases [OF dispatched] assms(2) by (auto simp: queued)
  have "message_session_id m = session"
    using m(1) by (auto simp: forwarded_def set_message_session_def message_session_id_def res_simps dest: attach_session
        split: rpc_message.splits)
  moreover have "unsupported_version req = None" "deserialize_message (hq_body req) = Inr msg"
      "length (hq_body req) \<le> (case ho_max_body opts of Some n \<Rightarrow> n | None \<Rightarrow> max_http_body_bytes)"
    using msg(1) by (auto simp: read_post_def split: option.splits if_splits sum.splits)
  ultimately show ?thesis using auth msg(2) session m by blast
qed

section \<open>The answer finds its request\<close>

lemma registered: "amap_find key (ht_pending (register_waiting opts version key r promise st)) =
    Some \<lparr>pe_id = rq_id r, pe_promise = promise\<rparr>"
  by (auto simp: register_waiting_def Let_def split: option.splits bool.splits)

lemma dispatch_waiting:
  assumes "dispatch_post opts req session msg resp tp = (tp', Inr (Waiting w))"
  shows "\<exists>r version resp'. post_request opts version r resp' tp = (tp', Inr (Waiting w))"
  using assms
  by (cases "set_message_session session msg")
     (auto simp: dispatch_post_def Let_def split: option.splits sum.splits dest!: post_message_cases)

lemma handle_post_waiting:
  assumes "handle_post opts env req tp = (tp', Inr (Waiting w))"
  shows "\<exists>r version. queued tp' = queued tp @ [MsgRequest r] \<and>
    pw_key w = pending_key (rq_session r) (request_id_to_string (rq_id r)) \<and> pw_promise w = tp_promises tp \<and>
    tp_streams tp' = register_waiting opts version (pw_key w) r (tp_promises tp) (tp_streams tp) \<and>
    tp_promises tp' = tp_promises tp + 1"
proof -
  obtain dpop resp ok where auth: "authorize_request (he_auth env) (ho_bearer opts) req (tp_dpop tp) new_response = Inr (dpop, resp, ok)"
    using assms by (auto simp: handle_post_def split: sum.splits)
  with assms have ok by (cases ok) (auto simp: handle_post_def Let_def)
  obtain msg where msg: "read_post opts req resp = Inr msg" "header_error req msg = None"
    using assms auth \<open>ok\<close> by (auto simp: handle_post_def Let_def split: sum.splits option.splits)
  obtain sessions resp' session where
      "dispatch_post opts req session msg resp' (tp\<lparr>tp_dpop := dpop, tp_sessions := sessions\<rparr>) = (tp', Inr (Waiting w))"
    using assms auth \<open>ok\<close> msg by (auto simp: handle_post_def Let_def split: prod.splits option.splits)
  then obtain r version resp'' where posted:
      "post_request opts version r resp'' (tp\<lparr>tp_dpop := dpop, tp_sessions := sessions\<rparr>) = (tp', Inr (Waiting w))"
    using dispatch_waiting by blast
  have "tp_promises tp' = tp_promises tp + 1"
    using posted by (auto simp: post_request_def Let_def channel_try_send_def split: if_splits prod.splits bool.splits option.splits)
  with post_request_cases [OF posted] show ?thesis by (auto simp: queued_def)
qed

lemma answer_settles:
  assumes "amap_find (pending_key session (request_id_to_string rid)) (ht_pending (tp_streams tp)) = Some p"
    "answered_request msg = Some rid" "message_session_id msg = session"
  shows "\<exists>tp'. send_message_async opts clients msg tp = Inr (tp', []) \<and>
    ht_settled (tp_streams tp') = ht_settled (tp_streams tp) @ [(pe_promise p, msg)] \<and>
    ht_pending (tp_streams tp') = amap_erase (pending_key session (request_id_to_string rid)) (ht_pending (tp_streams tp))"
  using assms by (simp add: send_message_async_def settle_pending_def match_pending_def Let_def)

text \<open>The key under which a post would wait, if it is a request of a session that the transport accepts.\<close>

definition post_key :: "http_options \<Rightarrow> http_env \<Rightarrow> http_request \<Rightarrow> http_transport \<Rightarrow> string option" where
  "post_key opts env req tp =
     (case deserialize_message (hq_body req) of
        Inr (MsgRequest r) \<Rightarrow>
          (case resolve_session (ho_stateless opts) (he_now env) (he_session_bytes env) req (is_initialize (MsgRequest r))
                  (requested_version req (MsgRequest r)) (tp_sessions tp) new_response of
             (sessions, resp, Some session) \<Rightarrow> Some (pending_key session (request_id_to_string (rq_id r)))
           | _ \<Rightarrow> None)
      | _ \<Rightarrow> None)"

text \<open>The steps of the transport that leave the waiting request \<open>rid\<close> of a session alone: other posts and their ends, streams,
  \<open>DELETE\<close> of other sessions, messages of the server that do not answer this request, and whatever happens to the queue of
  the messages for the server.  What they leave out: a post under the same key, the timeout of this request, the end of its
  session, an answer for it, and the end of the transport.\<close>

inductive undisturbed :: "http_options \<Rightarrow> string \<Rightarrow> request_id \<Rightarrow> http_transport \<Rightarrow> http_transport \<Rightarrow> bool"
  for opts session rid where
  other_post: "handle_post opts env req tp = (tp', res) \<Longrightarrow>
    post_key opts env req tp \<noteq> Some (pending_key session (request_id_to_string rid)) \<Longrightarrow> undisturbed opts session rid tp tp'"
| other_end: "finish_post opts req w result tp = (tp', res) \<Longrightarrow>
    result \<noteq> None \<or> pw_key w \<noteq> pending_key session (request_id_to_string rid) \<Longrightarrow> undisturbed opts session rid tp tp'"
| any_stream: "handle_get opts env req tp = (tp', res) \<Longrightarrow> undisturbed opts session rid tp tp'"
| other_delete: "handle_delete opts env req tp = (tp', resp) \<Longrightarrow>
    session = [] \<or> header_or_empty req ''mcp-session-id'' \<noteq> session \<Longrightarrow> undisturbed opts session rid tp tp'"
| other_message: "send_message_async opts clients msg tp = Inr (tp', out) \<Longrightarrow>
    (\<And>own. answered_request msg = Some own \<Longrightarrow>
      match_pending (message_session_id msg) own (tp_streams tp) \<noteq> Some (pending_key session (request_id_to_string rid))) \<Longrightarrow>
    undisturbed opts session rid tp tp'"
| any_queue: "undisturbed opts session rid tp (tp\<lparr>tp_channel := c\<rparr>)"

lemma erase_other: "k \<noteq> k' \<Longrightarrow> amap_find k (amap_erase k' m) = amap_find k m"
  by (induction m) auto

lemma filter_other: "P k \<Longrightarrow> amap_find k (filter (\<lambda>(k, v). P k) m) = amap_find k m"
  by (induction m) auto

lemma register_other: "k \<noteq> key \<Longrightarrow>
    amap_find k (ht_pending (register_waiting opts version key r promise st)) = amap_find k (ht_pending st)"
  by (auto simp: register_waiting_def Let_def split: option.splits bool.splits)

lemma unregister_other: "k \<noteq> key \<Longrightarrow> amap_find k (ht_pending (unregister_waiting key st)) = amap_find k (ht_pending st)"
  by (simp add: unregister_waiting_def erase_request_stream_state_def erase_other)

lemma post_request_other:
  assumes "post_request opts version r resp tp = (tp', res)" "k \<noteq> pending_key (rq_session r) (request_id_to_string (rq_id r))"
  shows "amap_find k (ht_pending (tp_streams tp')) = amap_find k (ht_pending (tp_streams tp))"
proof -
  let ?tp1 = "tp\<lparr>tp_promises := tp_promises tp + 1, tp_streams := register_waiting opts version
      (pending_key (rq_session r) (request_id_to_string (rq_id r))) r (tp_promises tp) (tp_streams tp)\<rparr>"
  obtain tp2 ok where sent: "channel_try_send (MsgRequest r) ?tp1 = (tp2, ok)" by (cases "channel_try_send (MsgRequest r) ?tp1")
  have "tp_streams tp2 = tp_streams ?tp1" using channel_try_send_queued [OF sent] by blast
  with assms sent show ?thesis
    by (cases ok) (auto simp: post_request_def Let_def register_other unregister_other split: if_splits)
qed

lemma post_message_streams: "post_message msg resp tp = (tp', res) \<Longrightarrow> tp_streams tp' = tp_streams tp"
  by (auto simp: post_message_def split: if_splits prod.splits bool.splits dest: channel_try_send_queued)

lemma dispatch_other:
  assumes "dispatch_post opts req session msg resp tp = (tp', res)"
    and "\<And>r. msg = MsgRequest r \<Longrightarrow> k \<noteq> pending_key session (request_id_to_string (rq_id r))"
  shows "amap_find k (ht_pending (tp_streams tp')) = amap_find k (ht_pending (tp_streams tp))"
proof (cases msg)
  case (MsgRequest r)
  have own: "k \<noteq> pending_key (rq_session r') (request_id_to_string (rq_id r'))"
    if "attach_param_headers req (r\<lparr>rq_session := session\<rparr>) = Inr r'" for r'
    using attach_session [OF that] assms(2) [OF MsgRequest] by simp
  show ?thesis
    using assms(1) own
    by (auto simp: dispatch_post_def Let_def MsgRequest set_message_session_def
        split: option.splits sum.splits dest!: post_request_other [where k = k])
qed (use assms(1) in \<open>auto simp: dispatch_post_def Let_def set_message_session_def dest!: post_message_streams\<close>)

lemma resolved_session: "snd (snd (resolve_session stateless now bytes req is_init version st resp)) =
    snd (snd (resolve_session stateless now bytes req is_init version st resp'))"
  by (auto simp: resolve_session_def open_session_def Let_def split: option.split prod.split bool.split)

lemma handle_post_other:
  assumes "handle_post opts env req tp = (tp', res)" "post_key opts env req tp \<noteq> Some k"
  shows "amap_find k (ht_pending (tp_streams tp')) = amap_find k (ht_pending (tp_streams tp))"
proof (cases "tp_streams tp' = tp_streams tp")
  case False
  obtain dpop resp where auth: "authorize_request (he_auth env) (ho_bearer opts) req (tp_dpop tp) new_response = Inr (dpop, resp, True)"
  proof (cases "authorize_request (he_auth env) (ho_bearer opts) req (tp_dpop tp) new_response")
    case (Inr v)
    obtain dpop resp ok where v: "v = (dpop, resp, ok)" by (cases v)
    then have ok using assms(1) False Inr by (cases ok) (auto simp: handle_post_def Let_def)
    with that Inr v show ?thesis by simp
  qed (use assms(1) False in \<open>simp add: handle_post_def\<close>)
  obtain msg where msg: "read_post opts req resp = Inr msg" "header_error req msg = None"
    using assms(1) False auth by (auto simp: handle_post_def Let_def split: sum.splits option.splits)
  obtain sessions resp' session where session: "resolve_session (ho_stateless opts) (he_now env) (he_session_bytes env) req
      (is_initialize msg) (requested_version req msg) (tp_sessions tp) resp = (sessions, resp', Some session)"
      and dispatched: "dispatch_post opts req session msg resp' (tp\<lparr>tp_dpop := dpop, tp_sessions := sessions\<rparr>) = (tp', res)"
    using assms(1) False auth msg by (auto simp: handle_post_def Let_def split: prod.splits option.splits)
  have body: "deserialize_message (hq_body req) = Inr msg"
    using msg(1) by (auto simp: read_post_def split: option.splits if_splits sum.splits)
  have "k \<noteq> pending_key session (request_id_to_string (rq_id r))" if "msg = MsgRequest r" for r
  proof -
    have "snd (snd (resolve_session (ho_stateless opts) (he_now env) (he_session_bytes env) req
        (is_initialize msg) (requested_version req msg) (tp_sessions tp) new_response)) = Some session"
      using resolved_session [of "ho_stateless opts" "he_now env" "he_session_bytes env" req "is_initialize msg"
        "requested_version req msg" "tp_sessions tp" new_response resp] session by simp
    then show ?thesis
      using assms(2) that by (auto simp: post_key_def body split: prod.splits)
  qed
  from dispatch_other [OF dispatched this] show ?thesis by simp
qed simp

lemma finish_post_other:
  assumes "finish_post opts req w result tp = (tp', res)" "result \<noteq> None \<or> pw_key w \<noteq> k"
  shows "amap_find k (ht_pending (tp_streams tp')) = amap_find k (ht_pending (tp_streams tp))"
  using assms
  by (auto simp: finish_post_def Let_def unregister_other erase_request_stream_state_def split: option.splits if_splits)

lemma handle_get_streams: "handle_get opts env req tp = (tp', res) \<Longrightarrow> tp_streams tp' = tp_streams tp"
  by (auto simp: handle_get_def Let_def split: sum.splits prod.splits if_splits option.splits)

lemma handle_delete_other:
  assumes "handle_delete opts env req tp = (tp', resp)" "session = [] \<or> header_or_empty req ''mcp-session-id'' \<noteq> session"
  shows "amap_find (pending_key session rid) (ht_pending (tp_streams tp')) =
    amap_find (pending_key session rid) (ht_pending (tp_streams tp))"
proof -
  have kept: "amap_find (pending_key session rid) (ht_pending (erase_session_streams other st)) =
      amap_find (pending_key session rid) (ht_pending st)" if "other \<noteq> session" for other st
    using that by (simp add: erase_session_streams_def Let_def filter_other)
  show ?thesis
    using assms kept
    by (auto simp: handle_delete_def header_or_empty_def erase_session_def split: if_splits option.splits prod.splits bool.splits)
qed

lemma sent_other:
  assumes "send_message_async opts clients msg tp = Inr (tp', out)"
    and "\<And>own. answered_request msg = Some own \<Longrightarrow> match_pending (message_session_id msg) own (tp_streams tp) \<noteq> Some k"
  shows "amap_find k (ht_pending (tp_streams tp')) = amap_find k (ht_pending (tp_streams tp))"
proof (cases "case answered_request msg of None \<Rightarrow> None
    | Some rid \<Rightarrow> settle_pending (message_session_id msg) rid msg (tp_streams tp)")
  case None
  then obtain st ok where buffered: "try_buffer (sse_event_limit opts) msg (tp_streams tp) = Inr (st, ok)"
      and rest: "(if ok then Inr (tp\<lparr>tp_streams := st\<rparr>, [])
         else broadcast_message opts clients msg (tp\<lparr>tp_streams := st\<rparr>)) = Inr (tp', out)"
    using assms(1) by (auto simp: send_message_async_def res_simps)
  have "ht_pending st = ht_pending (tp_streams tp)"
    using buffered buffer_to_rest by (cases msg) (auto simp: try_buffer_def res_simps split: prod.splits)
  moreover have "tp_streams tp' = st" using rest broadcast_own by (fastforce split: if_splits)
  ultimately show ?thesis by simp
next
  case (Some st)
  then obtain own where own: "answered_request msg = Some own"
      "settle_pending (message_session_id msg) own msg (tp_streams tp) = Some st"
    by (auto split: option.splits)
  then have "amap_find k (ht_pending st) = amap_find k (ht_pending (tp_streams tp))"
    using assms(2) [OF own(1)] by (auto simp: settle_pending_def erase_other split: option.splits)
  with Some assms(1) show ?thesis by (auto simp: send_message_async_def)
qed

lemma undisturbed_keeps:
  assumes "undisturbed opts session rid tp tp'"
  shows "amap_find (pending_key session (request_id_to_string rid)) (ht_pending (tp_streams tp')) =
    amap_find (pending_key session (request_id_to_string rid)) (ht_pending (tp_streams tp))"
  using assms
proof (cases rule: undisturbed.cases)
  case other_post
  then show ?thesis by (intro handle_post_other)
next
  case other_end
  then show ?thesis by (intro finish_post_other)
next
  case any_stream
  then show ?thesis by (simp add: handle_get_streams)
next
  case other_delete
  then show ?thesis by (intro handle_delete_other)
next
  case other_message
  then show ?thesis by (intro sent_other)
next
  case any_queue
  then show ?thesis by simp
qed

lemma undisturbed_run_keeps:
  "(undisturbed opts session rid)\<^sup>*\<^sup>* tp tp' \<Longrightarrow>
     amap_find (pending_key session (request_id_to_string rid)) (ht_pending (tp_streams tp')) =
     amap_find (pending_key session (request_id_to_string rid)) (ht_pending (tp_streams tp))"
  by (induction rule: rtranclp_induct) (simp_all add: undisturbed_keeps)

text \<open>C6: a request that is left waiting has been handed to the server, and whatever the transport does in between - other
  posts, streams, messages, timeouts and endings of sessions - the answer the server sends for it, under its session and
  identifier, becomes the value of the promise that this request waits for.  This is so until the same session posts the
  same identifier again, the request times out, its session or the transport ends, or another answer has taken it.\<close>

theorem posted_answer_returns:
  assumes "handle_post opts env req tp = (tp1, Inr (Waiting w))"
  shows "\<exists>r. queued tp1 = queued tp @ [MsgRequest r] \<and>
    (\<forall>tp2 clients msg. (undisturbed opts (rq_session r) (rq_id r))\<^sup>*\<^sup>* tp1 tp2 \<and>
         answered_request msg = Some (rq_id r) \<and> message_session_id msg = rq_session r \<longrightarrow>
       (\<exists>tp3. send_message_async opts clients msg tp2 = Inr (tp3, []) \<and>
          ht_settled (tp_streams tp3) = ht_settled (tp_streams tp2) @ [(pw_promise w, msg)]))"
proof -
  obtain r version where r: "queued tp1 = queued tp @ [MsgRequest r]"
      "pw_key w = pending_key (rq_session r) (request_id_to_string (rq_id r))" "pw_promise w = tp_promises tp"
      "tp_streams tp1 = register_waiting opts version (pw_key w) r (tp_promises tp) (tp_streams tp)"
    using handle_post_waiting [OF assms] by blast
  have "amap_find (pending_key (rq_session r) (request_id_to_string (rq_id r))) (ht_pending (tp_streams tp2)) =
      Some \<lparr>pe_id = rq_id r, pe_promise = pw_promise w\<rparr>"
    if "(undisturbed opts (rq_session r) (rq_id r))\<^sup>*\<^sup>* tp1 tp2" for tp2
    using r(2,3) registered by (simp add: undisturbed_run_keeps [OF that] r(4))
  from answer_settles [OF this] r(1) show ?thesis by fastforce
qed

text \<open>C38: two requests under one session and one identifier - in a transport without sessions all clients share the empty
  session - get in each other's way: the answer to the first becomes the answer of the second, and the first waits in
  vain.\<close>

theorem colliding_request_gets_foreign_answer:
  assumes "handle_post opts env req tp = (tp1, Inr (Waiting w1))" "handle_post opts env' req' tp1 = (tp2, Inr (Waiting w2))"
    and "pw_key w1 = pw_key w2" "queued tp1 = queued tp @ [MsgRequest r1]"
    and "answered_request msg = Some (rq_id r1)" "message_session_id msg = rq_session r1"
  shows "pw_promise w1 \<noteq> pw_promise w2 \<and>
    (\<exists>tp3. send_message_async opts clients msg tp2 = Inr (tp3, []) \<and>
       ht_settled (tp_streams tp3) = ht_settled (tp_streams tp2) @ [(pw_promise w2, msg)] \<and>
       ht_pending (tp_streams tp3) = amap_erase (pw_key w1) (ht_pending (tp_streams tp2)))"
proof -
  obtain r version where first: "queued tp1 = queued tp @ [MsgRequest r]"
      "pw_key w1 = pending_key (rq_session r) (request_id_to_string (rq_id r))" "pw_promise w1 = tp_promises tp"
      "tp_promises tp1 = tp_promises tp + 1"
    using handle_post_waiting [OF assms(1)] by blast
  then have r: "r = r1" using assms(4) by simp
  obtain r2 version2 where second: "pw_promise w2 = tp_promises tp1"
      "tp_streams tp2 = register_waiting opts version2 (pw_key w2) r2 (tp_promises tp1) (tp_streams tp1)"
    using handle_post_waiting [OF assms(2)] by blast
  have "amap_find (pending_key (rq_session r1) (request_id_to_string (rq_id r1))) (ht_pending (tp_streams tp2)) =
      Some \<lparr>pe_id = rq_id r2, pe_promise = pw_promise w2\<rparr>"
    using first(2) r assms(3) registered by (simp add: second)
  from answer_settles [OF this assms(5,6)] first r second(1) show ?thesis by auto
qed

section \<open>Replays\<close>

definition replay_size :: "(64 word \<times> string) list \<Rightarrow> nat" where
  "replay_size events = sum_list (map (\<lambda>e. length (replay_frame e)) events)"

lemma replay_size_simps [simp]:
  "replay_size [] = 0" "replay_size (e # es) = length (replay_frame e) + replay_size es" "replay_size (rev es) = replay_size es"
  by (simp_all add: replay_size_def rev_map [symmetric] sum_list_rev)

lemma replay_count_spec:
  assumes "taken \<le> max_sse_replay_events" "bytes \<le> budget"
  shows "\<exists>k. replay_count budget bytes taken older = taken + k \<and> k \<le> length older \<and> taken + k \<le> max_sse_replay_events \<and>
    bytes + replay_size (take k older) \<le> budget \<and>
    (k = length older \<or> taken + k = max_sse_replay_events \<or> budget < bytes + replay_size (take (Suc k) older))"
  using assms
proof (induction older arbitrary: bytes taken)
  case (Cons e older)
  show ?case
  proof (cases "taken < max_sse_replay_events \<and> bytes + length (replay_frame e) \<le> budget")
    case True
    then have "taken + 1 \<le> max_sse_replay_events" "bytes + length (replay_frame e) \<le> budget" by simp_all
    from Cons.IH [OF this] obtain k where
        "replay_count budget (bytes + length (replay_frame e)) (taken + 1) older = taken + 1 + k"
        "k \<le> length older" "taken + 1 + k \<le> max_sse_replay_events"
        "bytes + length (replay_frame e) + replay_size (take k older) \<le> budget"
        "k = length older \<or> taken + 1 + k = max_sse_replay_events \<or>
          budget < bytes + length (replay_frame e) + replay_size (take (Suc k) older)"
      by blast
    with True show ?thesis by (intro exI [of _ "Suc k"]) (simp add: add.assoc)
  next
    case False
    with Cons.prems show ?thesis by (intro exI [of _ 0]) auto
  qed
qed simp

lemma replayed_window:
  "\<exists>skipped. events = skipped @ replayed budget events \<and> length (replayed budget events) \<le> max_sse_replay_events \<and>
     replay_size (replayed budget events) \<le> budget \<and>
     (skipped = [] \<or> length (replayed budget events) = max_sse_replay_events \<or>
       budget < length (replay_frame (last skipped)) + replay_size (replayed budget events))"
proof -
  obtain k where k: "replay_count budget 0 0 (rev events) = k" "k \<le> length events" "k \<le> max_sse_replay_events"
      "replay_size (take k (rev events)) \<le> budget"
      "k = length events \<or> k = max_sse_replay_events \<or> budget < replay_size (take (Suc k) (rev events))"
    using replay_count_spec [of 0 0 budget "rev events"] by auto
  define m where "m = length events - k"
  have sent: "replayed budget events = drop m events" by (simp add: replayed_def k(1) m_def)
  have size: "replay_size (take k (rev events)) = replay_size (drop m events)" by (simp add: take_rev m_def)
  have last: "replay_size (take (Suc k) (rev events)) = length (replay_frame (last (take m events))) + replay_size (drop m events)"
    if more: "k < length events"
  proof -
    obtain m' where m': "m = Suc m'" using more by (cases m) (simp_all add: m_def)
    then have "m' < length events" "length events - Suc k = m'" using more by (simp_all add: m_def)
    then have "take (Suc k) (rev events) = rev (events ! m' # drop m events)"
      by (simp add: take_rev m' Cons_nth_drop_Suc)
    moreover have "last (take m events) = events ! m'"
      using \<open>m' < length events\<close> by (simp add: m' take_Suc_conv_app_nth)
    ultimately show ?thesis by (simp del: rev.simps)
  qed
  have "length (drop m events) = k" using k(2) by (simp add: m_def)
  with k(3-5) last size show ?thesis
    by (intro exI [of _ "take m events"]) (auto simp: sent m_def)
qed

lemma respond_not_sse [simp]:
  "hp_is_sse (respond_literal status text body resp) = hp_is_sse resp" "hp_is_sse (put_header k v resp) = hp_is_sse resp"
  by (simp_all add: respond_literal_def put_header_def)

lemma refusal_not_sse [simp]:
  "hp_is_sse (respond_unauthorized url invalid scopes resp) = hp_is_sse resp"
  "hp_is_sse (respond_insufficient_scope required resp) = hp_is_sse resp"
  "hp_is_sse (respond_session_expired resp) = hp_is_sse resp"
  "hp_is_sse (respond_unsupported_version v rid resp) = hp_is_sse resp"
  by (simp_all add: respond_unauthorized_def respond_insufficient_scope_def respond_session_expired_def Let_def
      respond_unsupported_version_def respond_stateless_error_def)

lemma dpop_answer_sse: "dpop_answer env st resp ok = Inr (st', resp', ok') \<Longrightarrow> hp_is_sse resp' = hp_is_sse resp"
  by (auto simp: dpop_answer_def res_simps)

lemma authorize_sse: "authorize_request env c req st resp = Inr (st', resp', ok) \<Longrightarrow> hp_is_sse resp' = hp_is_sse resp"
  by (auto simp: authorize_request_def authorize_dpop_def authorize_bearer_def dpop_fail_unauthorized_def Let_def res_simps
      split: option.splits if_splits dest!: dpop_answer_sse)

lemma get_stream_body:
  assumes "handle_get opts env req tp = (tp', Inr resp)" "hp_is_sse resp" "\<not> ho_stateless opts"
  shows "hp_body resp = sse_frame ''endpoint'' (ho_endpoint opts) @
    replay_text opts (header_or_empty req ''mcp-session-id'') req (tp_events tp)"
proof -
  obtain dpop resp0 ok where auth: "authorize_request (he_auth env) (ho_bearer opts) req (tp_dpop tp) new_response = Inr (dpop, resp0, ok)"
    using assms(1) by (auto simp: handle_get_def split: sum.splits)
  have plain: "\<not> hp_is_sse resp0" using authorize_sse [OF auth] by (simp add: new_response_def)
  with assms(1,2) auth have ok by (cases ok) (auto simp: handle_get_def Let_def)
  obtain sessions resp1 session where session: "resolve_session False (he_now env) (he_session_bytes env) req False []
      (tp_sessions tp) resp0 = (sessions, resp1, session)"
    by (metis prod_cases3)
  have resolved: "(session = Some (header_or_empty req ''mcp-session-id'') \<or> session = None) \<and> \<not> hp_is_sse resp1"
    using session plain
    by (auto simp: resolve_session_def header_or_empty_def split: option.splits if_splits prod.splits bool.splits)
  with assms auth \<open>ok\<close> session show ?thesis
    by (cases "unsupported_version req") (auto simp: handle_get_def Let_def)
qed

text \<open>C19: a client that resumes its stream gets, after the event that names the endpoint, the newest events of its session
  since the one it names, in order and under their identifiers: at most 512, within the budget of bytes, and an older
  one is left out only when one of the two bounds is reached.\<close>

theorem resumed_stream_exact:
  assumes "handle_get opts env req tp = (tp', Inr resp)" "hp_is_sse resp" "\<not> ho_stateless opts"
    and "get_mcp_header req ''last-event-id'' = Some (dec_nat n)" "n < 2 ^ 64"
    and "budget = (case ho_max_replay opts of Some b \<Rightarrow> b | None \<Rightarrow> max_sse_event_bytes)"
  shows "\<exists>session skipped sent.
    session = header_or_empty req ''mcp-session-id'' \<and>
    get_events_since (tp_events tp) session (of_nat n) = skipped @ sent \<and>
    hp_body resp = sse_frame ''endpoint'' (ho_endpoint opts) @ concat (map replay_frame sent) \<and>
    length sent \<le> 512 \<and> replay_size sent \<le> budget \<and>
    (skipped = [] \<or> length sent = 512 \<or> budget < length (replay_frame (last skipped)) + replay_size sent)"
proof -
  let ?session = "header_or_empty req ''mcp-session-id''"
  have body: "hp_body resp = sse_frame ''endpoint'' (ho_endpoint opts) @ replay_text opts ?session req (tp_events tp)"
    using assms(1-3) by (rule get_stream_body)
  let ?events = "get_events_since (tp_events tp) ?session (of_nat n)"
  have "replay_text opts ?session req (tp_events tp) = concat (map replay_frame (replayed budget ?events))"
    using assms(3-6) by (simp add: replay_text_def stoul_dec_nat)
  with body replayed_window [of ?events budget] show ?thesis
    by (auto simp: max_sse_replay_events_def)
qed

section \<open>A ping is posted\<close>

definition plain_env :: http_env where
  "plain_env = \<lparr>he_auth = sample_env 0, he_now = 1, he_session_bytes = []\<rparr>"

lemma plain_fields:
  "ho_stateless plain_http_options" "\<not> ho_listen_hold_open plain_http_options" "ho_max_body plain_http_options = None"
  "ho_bearer plain_http_options = None" "ho_resolve plain_http_options = None" "ho_endpoint plain_http_options = ''/mcp''"
  by (simp_all add: plain_http_options_def)

definition ping_request :: http_request where
  "ping_request = \<lparr>hq_method = ''POST'', hq_path = ''/mcp'',
     hq_headers = [(''mcp-protocol-version'', ''2025-06-18'')], hq_body = ping_text\<rparr>"

definition open_transport :: http_transport where
  "open_transport = (sample_transport [])\<lparr>tp_channel := Some (new_channel 8)\<rparr>"

lemma header_names:
  "to_lower ''mcp-protocol-version'' = ''mcp-protocol-version''" "to_lower ''mcp-method'' = ''mcp-method''"
  "to_lower ''mcp-name'' = ''mcp-name''" "to_lower ''mcp-session-id'' = ''mcp-session-id''"
  "to_lower ''last-event-id'' = ''last-event-id''"
  by code_simp+

lemma ping_headers:
  "get_mcp_header ping_request ''mcp-protocol-version'' = Some ''2025-06-18''"
  "get_mcp_header ping_request ''mcp-method'' = None" "get_mcp_header ping_request ''mcp-name'' = None"
  by (simp_all add: get_mcp_header_def ping_request_def header_names)

lemma ping_version:
  "given_version ping_request = Some ''2025-06-18''" "\<not> modern_request ping_request" "unsupported_version ping_request = None"
proof -
  show v: "given_version ping_request = Some ''2025-06-18''" by (simp add: given_version_def ping_headers)
  have "\<not> is_modern_protocol_version ''2025-06-18''" by code_simp
  with v show "\<not> modern_request ping_request" by (simp add: modern_request_def)
  from v show "unsupported_version ping_request = None"
    by (simp add: unsupported_version_def is_supported_protocol_version_def protocol_versions_def)
qed

lemma ping_read: "read_post plain_http_options ping_request resp = Inr ping_message"
proof -
  have "deserialize_message ping_text = Inr ping_message" by code_simp
  moreover have "length ping_text = 40" by code_simp
  ultimately show ?thesis
    by (simp add: read_post_def ping_version plain_http_options_def max_http_body_bytes_def) (simp add: ping_request_def)
qed

lemma ping_header_error: "header_error ping_request ping_message = None"
  by (simp add: header_error_def Let_def ping_version header_or_empty_def ping_headers validate_mcp_headers_def)

lemma ping_posted:
  assumes "tp_channel tp = Some c" "is_open c" "length (ch_queue c) < ch_max_buffer c" "tp_inflight tp < 8"
  shows "\<exists>tp' w. handle_post plain_http_options plain_env ping_request tp = (tp', Inr (Waiting w)) \<and>
    pw_key w = ''0:1'' \<and> queued tp' = queued tp @ [ping_message] \<and> tp_inflight tp' = tp_inflight tp + 1 \<and>
    tp_channel tp' = Some (c\<lparr>ch_queue := ch_queue c @ [ping_message]\<rparr>)"
proof -
  have key: "pending_key [] (request_id_to_string (IdInt 1)) = ''0:1''" by code_simp
  have attach: "attach_param_headers ping_request r = Inr r" for r
  proof -
    have "to_lower ''mcp-protocol-version'' = ''mcp-protocol-version''" by (rule header_names)
    then show ?thesis
      by (simp add: attach_param_headers_def param_header_members_def ping_request_def amap_of_list_def)
  qed
  have "handle_post plain_http_options plain_env ping_request tp =
      dispatch_post plain_http_options ping_request [] ping_message new_response tp"
    by (simp add: handle_post_def authorize_request_def plain_fields ping_read ping_header_error resolve_session_def Let_def)
  then show ?thesis
    using assms
    by (auto simp: dispatch_post_def plain_fields ping_message_def set_message_session_def stateless_refusal_def ping_version
        attach validate_param_headers_def post_request_def channel_open_def max_stateless_inflight_def key
        channel_try_send_def try_send_def is_open_def queued_def Let_def)
qed

lemma open_transport_ready:
  "tp_channel open_transport = Some (new_channel 8)" "is_open (new_channel 8)" "length (ch_queue (new_channel 8)) < ch_max_buffer (new_channel 8)"
  "tp_inflight open_transport < 8" "queued open_transport = []" "tp_inflight open_transport = 0" "ch_queue (new_channel 8) = []"
  by (simp_all add: open_transport_def sample_transport_def new_channel_def is_open_def queued_def)

theorem posted_message_checked_witness:
  "\<exists>tp'. queued tp' = [ping_message] \<and> (\<exists>res. handle_post plain_http_options plain_env ping_request open_transport = (tp', res)) \<and>
     (\<exists>msg. deserialize_message (hq_body ping_request) = Inr msg \<and> header_error ping_request msg = None)"
proof -
  obtain tp' w where posted: "handle_post plain_http_options plain_env ping_request open_transport = (tp', Inr (Waiting w))"
      "queued tp' = [ping_message]"
    using ping_posted [OF open_transport_ready(1-4)] by (auto simp: open_transport_ready)
  then have "queued tp' \<noteq> queued open_transport" by (simp add: open_transport_ready)
  from posted_message_checked [OF posted(1) this] posted show ?thesis by blast
qed

lemma queue_emptied:
  "(undisturbed plain_http_options [] (IdInt 1))\<^sup>*\<^sup>* tp (tp\<lparr>tp_channel := Some (new_channel 8)\<rparr>)"
  by (rule r_into_rtranclp) (rule any_queue)

theorem posted_answer_returns_witness:
  "\<exists>tp1 w tp3. handle_post plain_http_options plain_env ping_request open_transport = (tp1, Inr (Waiting w)) \<and>
     send_message_async plain_http_options [] (sample_answer []) (tp1\<lparr>tp_channel := Some (new_channel 8)\<rparr>) = Inr (tp3, []) \<and>
     (pw_promise w, sample_answer []) \<in> set (ht_settled (tp_streams tp3))"
proof -
  obtain tp1 w where posted: "handle_post plain_http_options plain_env ping_request open_transport = (tp1, Inr (Waiting w))"
      "queued tp1 = [ping_message]"
    using ping_posted [OF open_transport_ready(1-4)] by (auto simp: open_transport_ready)
  obtain r where r: "queued tp1 = queued open_transport @ [MsgRequest r]"
      "\<forall>tp2 clients msg. (undisturbed plain_http_options (rq_session r) (rq_id r))\<^sup>*\<^sup>* tp1 tp2 \<and>
         answered_request msg = Some (rq_id r) \<and> message_session_id msg = rq_session r \<longrightarrow>
       (\<exists>tp3. send_message_async plain_http_options clients msg tp2 = Inr (tp3, []) \<and>
          ht_settled (tp_streams tp3) = ht_settled (tp_streams tp2) @ [(pw_promise w, msg)])"
    using posted_answer_returns [OF posted(1)] by blast
  have "MsgRequest r = ping_message" using r(1) posted(2) by (simp add: open_transport_ready)
  then have "rq_id r = IdInt 1" "rq_session r = []" by (auto simp: ping_message_def)
  moreover from this have "answered_request (sample_answer []) = Some (rq_id r) \<and> message_session_id (sample_answer []) = rq_session r"
    by (simp add: sample_answer_def answered_request_def message_session_id_def)
  moreover have "(undisturbed plain_http_options (rq_session r) (rq_id r))\<^sup>*\<^sup>* tp1 (tp1\<lparr>tp_channel := Some (new_channel 8)\<rparr>)"
    using calculation queue_emptied by simp
  ultimately obtain tp3 where
      "send_message_async plain_http_options [] (sample_answer []) (tp1\<lparr>tp_channel := Some (new_channel 8)\<rparr>) = Inr (tp3, [])"
      "ht_settled (tp_streams tp3) = ht_settled (tp_streams (tp1\<lparr>tp_channel := Some (new_channel 8)\<rparr>)) @ [(pw_promise w, sample_answer [])]"
    using r(2) by blast
  with posted(1) show ?thesis by fastforce
qed

theorem colliding_request_gets_foreign_answer_witness:
  "\<exists>tp1 w1 tp2 w2 tp3. handle_post plain_http_options plain_env ping_request open_transport = (tp1, Inr (Waiting w1)) \<and>
     handle_post plain_http_options plain_env ping_request tp1 = (tp2, Inr (Waiting w2)) \<and> pw_promise w1 \<noteq> pw_promise w2 \<and>
     send_message_async plain_http_options [] (sample_answer []) tp2 = Inr (tp3, []) \<and>
     (pw_promise w2, sample_answer []) \<in> set (ht_settled (tp_streams tp3))"
proof -
  obtain tp1 w1 where first: "handle_post plain_http_options plain_env ping_request open_transport = (tp1, Inr (Waiting w1))"
      "pw_key w1 = ''0:1''" "queued tp1 = [ping_message]" "tp_inflight tp1 = 1"
      "tp_channel tp1 = Some ((new_channel 8)\<lparr>ch_queue := [ping_message]\<rparr>)"
    using ping_posted [OF open_transport_ready(1-4)]
    by (auto simp: open_transport_ready)
  obtain tp2 w2 where second: "handle_post plain_http_options plain_env ping_request tp1 = (tp2, Inr (Waiting w2))"
      "pw_key w2 = ''0:1''"
    using ping_posted [OF first(5)] first(4) by (auto simp: new_channel_def is_open_def)
  have queue: "queued tp1 = queued open_transport @ [MsgRequest \<lparr>rq_jsonrpc = ''2.0'', rq_id = IdInt 1, rq_method = ''ping'',
      rq_params = None, rq_meta = None, rq_session = []\<rparr>]"
    using first(3) by (simp add: open_transport_ready ping_message_def)
  have "answered_request (sample_answer []) = Some (IdInt 1)" "message_session_id (sample_answer []) = []"
    by (simp_all add: sample_answer_def answered_request_def message_session_id_def)
  then have "pw_promise w1 \<noteq> pw_promise w2 \<and> (\<exists>tp3. send_message_async plain_http_options [] (sample_answer []) tp2 = Inr (tp3, []) \<and>
       ht_settled (tp_streams tp3) = ht_settled (tp_streams tp2) @ [(pw_promise w2, sample_answer [])] \<and>
       ht_pending (tp_streams tp3) = amap_erase (pw_key w1) (ht_pending (tp_streams tp2)))"
    by (intro colliding_request_gets_foreign_answer [OF first(1) second(1) _ queue]) (simp_all add: first(2) second(2))
  with first(1) second(1) show ?thesis by fastforce
qed

definition resume_request :: http_request where
  "resume_request = \<lparr>hq_method = ''GET'', hq_path = ''/mcp'', hq_headers = [(''last-event-id'', ''1'')], hq_body = []\<rparr>"

definition resumable_transport :: http_transport where
  "resumable_transport = (sample_transport [])\<lparr>tp_events :=
     fst (append_event [] ''b'' (fst (append_event [] ''a'' new_event_store)))\<rparr>"

theorem resumed_stream_exact_witness:
  "\<exists>tp' resp. handle_get (plain_http_options\<lparr>ho_stateless := False\<rparr>) plain_env resume_request resumable_transport = (tp', Inr resp) \<and>
     hp_is_sse resp \<and> (\<exists>sent. length sent \<le> 512 \<and>
       hp_body resp = sse_frame ''endpoint'' ''/mcp'' @ concat (map replay_frame sent))"
proof -
  let ?opts = "plain_http_options\<lparr>ho_stateless := False\<rparr>"
  have one: "dec_nat 1 = ''1''" by code_simp
  have headers: "get_mcp_header resume_request ''mcp-session-id'' = None" "get_mcp_header resume_request ''mcp-protocol-version'' = None"
      "get_mcp_header resume_request ''last-event-id'' = Some ''1''"
    by (simp_all add: get_mcp_header_def resume_request_def header_names)
  have "\<exists>tp' resp. handle_get ?opts plain_env resume_request resumable_transport = (tp', Inr resp) \<and> hp_is_sse resp"
    by (simp add: handle_get_def authorize_request_def plain_fields resolve_session_def headers unsupported_version_def
        given_version_def Let_def)
  then obtain tp' resp where got: "handle_get ?opts plain_env resume_request resumable_transport = (tp', Inr resp)" "hp_is_sse resp"
    by blast
  have "get_mcp_header resume_request ''last-event-id'' = Some (dec_nat 1)" using headers one by simp
  from resumed_stream_exact [OF got _ this _ refl] got show ?thesis by (fastforce simp: plain_fields)
qed

end
