(* ===== verification/Url.thy ===== *)
theory Url
  imports Http_Access
begin

text \<open>
  \<open>include/mcp/transport/detail/Url.hpp\<close>: the parts of a URL, and where a redirect leads.  A thrown
  \<open>std::invalid_argument\<close> is its text.
\<close>

section \<open>Searching\<close>

text \<open>\<open>std::string::find\<close>: the position of the first occurrence of a pattern.\<close>

fun find_pos :: "string \<Rightarrow> string \<Rightarrow> nat option" where
  "find_pos p s =
     (if take (length p) s = p then Some 0
      else (case s of [] \<Rightarrow> None | c # s' \<Rightarrow> map_option Suc (find_pos p s')))"

declare find_pos.simps [simp del]

lemma find_pos_here: "find_pos p (p @ s) = Some 0"
  by (subst find_pos.simps) simp

lemma find_pos_Cons: "take (length p) (c # s) \<noteq> p \<Longrightarrow> find_pos p (c # s) = map_option Suc (find_pos p s)"
  by (subst find_pos.simps) simp

lemma find_char: "find_pos [x] s = (if x \<in> set s then Some (length (takeWhile (\<lambda>c. c \<noteq> x) s)) else None)"
proof (induction s)
  case (Cons c s)
  then show ?case by (subst find_pos.simps) auto
qed (subst find_pos.simps, simp)

lemma find_pos_split: "find_pos p s = Some n \<Longrightarrow> s = take n s @ p @ drop (n + length p) s \<and> n + length p \<le> length s"
proof (induction s arbitrary: n)
  case Nil
  then show ?case by (subst (asm) find_pos.simps) (auto split: if_splits)
next
  case (Cons c s)
  show ?case
  proof (cases "take (length p) (c # s) = p")
    case True
    then have "n = 0" using Cons.prems by (subst (asm) find_pos.simps) simp
    with True show ?thesis by (metis add_0 append.left_neutral append_take_drop_id length_take min.bounded_iff nle_le take_0)
  next
    case False
    with Cons obtain m where "find_pos p s = Some m" "n = Suc m" by (auto simp: find_pos_Cons)
    with Cons.IH show ?thesis by simp
  qed
qed

section \<open>Parts\<close>

record url_parts =
  ur_scheme :: string
  ur_host :: string
  ur_port :: nat
  ur_path :: string

definition parse_port :: "string \<Rightarrow> string \<Rightarrow> string + nat" where
  "parse_port port_str url =
     (if port_str = [] \<or> \<not> list_all is_digit port_str then Inl (''invalid port in URL: '' @ url)
      else (case stoul port_str of
              StoOk n rest \<Rightarrow> if 65535 < n then Inl (''port out of range in URL: '' @ url) else Inr n
            | StoRange \<Rightarrow> Inl (''port out of range in URL: '' @ url)
            | StoInvalid \<Rightarrow> Inl ''stoul''))"

definition default_port_of :: "string \<Rightarrow> nat" where
  "default_port_of scheme = (if scheme = ''https'' \<or> scheme = ''wss'' then 443 else 80)"

text \<open>The host and the port.\<close>

definition parse_host_port :: "string \<Rightarrow> nat \<Rightarrow> string \<Rightarrow> string + string \<times> nat" where
  "parse_host_port host_port port url =
     (if host_port \<noteq> [] \<and> hd host_port = CHR ''['' then
        (case find_pos '']'' host_port of
           None \<Rightarrow> Inl (''unterminated IPv6 host in URL: '' @ url)
         | Some close \<Rightarrow>
             (let host = take (close - 1) (tl host_port)
              in if close + 1 < length host_port then
                   (if host_port ! (close + 1) \<noteq> CHR '':'' then Inl (''invalid port in URL: '' @ url)
                    else rmap (Pair host) (parse_port (drop (close + 2) host_port) url))
                 else Inr (host, port)))
      else (case find_pos '':'' host_port of
              Some colon \<Rightarrow> rmap (Pair (take colon host_port)) (parse_port (drop (colon + 1) host_port) url)
            | None \<Rightarrow> Inr (host_port, port)))"

definition no_url :: url_parts where
  "no_url = \<lparr>ur_scheme = [], ur_host = [], ur_port = 0, ur_path = []\<rparr>"

definition parse_url :: "string \<Rightarrow> string + url_parts" where
  "parse_url url =
     (case find_pos ''://'' url of
        None \<Rightarrow> Inr no_url
      | Some n \<Rightarrow>
          (let scheme = take n url; rest = drop (n + 3) url;
               host_port = takeWhile (\<lambda>c. c \<noteq> CHR ''/'') rest;
               path = (if CHR ''/'' \<in> set rest then dropWhile (\<lambda>c. c \<noteq> CHR ''/'') rest else ''/'')
           in rmap (\<lambda>(host, port). \<lparr>ur_scheme = scheme, ur_host = host, ur_port = port, ur_path = path\<rparr>)
                (parse_host_port host_port (default_port_of scheme) url)))"

text \<open>Hosts compare without regard to the case of ASCII letters.\<close>

definition equal_url_host :: "string \<Rightarrow> string \<Rightarrow> bool" where
  "equal_url_host a b \<longleftrightarrow> length a = length b \<and> list_all2 (\<lambda>x y. ascii_lower_char x = ascii_lower_char y) a b"

definition is_same_origin_redirect :: "string \<Rightarrow> string \<Rightarrow> string + bool" where
  "is_same_origin_redirect from_url to_url =
     rbind (parse_url from_url) (\<lambda>a. rmap (\<lambda>b.
       if ur_host a = [] \<or> ur_host b = [] then False
       else if \<not> equal_url_host (ur_host a) (ur_host b) then False
       else if ur_scheme a = ur_scheme b then ur_port a = ur_port b
       else ur_scheme a = ''http'' \<and> ur_scheme b = ''https'') (parse_url to_url))"

definition strip_url_fragment :: "string \<Rightarrow> string" where
  "strip_url_fragment url = takeWhile (\<lambda>c. c \<noteq> CHR ''#'') url"

text \<open>Scheme, host and port as text; the host of an IPv6 address is bracketed and a default port is left out.\<close>

definition origin_text :: "url_parts \<Rightarrow> string" where
  "origin_text u =
     ur_scheme u @ ''://'' @ (if CHR '':'' \<in> set (ur_host u) then ''['' @ ur_host u @ '']'' else ur_host u) @
     (if ur_scheme u = ''https'' \<and> ur_port u = 443 \<or> ur_scheme u = ''http'' \<and> ur_port u = 80 then []
      else '':'' @ dec_nat (ur_port u))"

text \<open>The path up to and with its last slash.\<close>

definition directory_of :: "string \<Rightarrow> string" where
  "directory_of path = (if CHR ''/'' \<in> set path then rev (dropWhile (\<lambda>c. c \<noteq> CHR ''/'') (rev path)) else ''/'')"


definition resolve_redirect_url :: "string \<Rightarrow> string \<Rightarrow> string + string" where
  "resolve_redirect_url base_url location =
     (let loc = trim_in_place location
      in if loc = [] then Inl ''empty redirect location''
         else if chr 13 \<in> set loc \<or> chr 10 \<in> set loc then Inl ''invalid redirect location''
         else if find_pos ''://'' loc \<noteq> None then Inr (strip_url_fragment loc)
         else rbind (parse_url base_url) (\<lambda>base.
           if ur_host base = [] \<or> ur_scheme base \<noteq> ''http'' \<and> ur_scheme base \<noteq> ''https''
           then Inl (''invalid base URL for redirect: '' @ base_url)
           else if hd loc = CHR ''/'' then Inr (origin_text base @ strip_url_fragment loc)
           else Inr (origin_text base @ directory_of (ur_path base) @ strip_url_fragment loc)))"

definition is_redirect_status :: "int \<Rightarrow> bool" where
  "is_redirect_status status \<longleftrightarrow> status \<in> {301, 302, 303, 307, 308}"

section \<open>A relative redirect stays where it is\<close>

lemma take_while_notin: "n \<le> length (takeWhile (\<lambda>c. c \<noteq> x) s) \<Longrightarrow> x \<notin> set (take n s)"
  by (induction s arbitrary: n) (auto simp: take_Cons split: if_splits nat.splits)

text \<open>A host that starts with a bracket itself, as in \<open>http://[[a]\<close>.\<close>

definition has_bracket :: "string \<Rightarrow> bool" where
  "has_bracket host \<longleftrightarrow> host \<noteq> [] \<and> hd host = CHR ''[''"

lemma parse_port_dec: "n \<le> 65535 \<Longrightarrow> parse_port (dec_nat n) url = Inr n"
  by (simp add: parse_port_def stoul_dec_nat list_all_iff)

lemma parse_port_bound: "parse_port s url = Inr n \<Longrightarrow> n \<le> 65535"
  by (auto simp: parse_port_def split: if_splits sto_result.splits)

lemma parsed_host:
  assumes "parse_host_port hp port url = Inr (host, p)" "port \<le> 65535"
  shows "set host \<subseteq> set hp \<and> p \<le> 65535 \<and> (CHR '':'' \<in> set host \<longrightarrow> CHR '']'' \<notin> set host)"
proof (cases "hp \<noteq> [] \<and> hd hp = CHR ''[''")
  case True
  then obtain close where close: "find_pos '']'' hp = Some close"
    using assms(1) by (auto simp: parse_host_port_def split: option.splits)
  obtain rest where hp: "hp = CHR ''['' # rest" using True by (cases hp) auto
  have "host = take (close - 1) rest" "p \<le> 65535"
    using assms True close by (auto simp: parse_host_port_def hp Let_def res_simps dest: parse_port_bound split: if_splits)
  moreover have "close - 1 = length (takeWhile (\<lambda>c. c \<noteq> CHR '']'') rest)"
    using close by (auto simp: hp find_char split: if_splits)
  ultimately show ?thesis
    using take_while_notin [of "close - 1" "CHR '']''" rest] set_take_subset [of "close - 1" rest] by (auto simp: hp)
next
  case False
  show ?thesis
  proof (cases "find_pos '':'' hp")
    case None
    with False assms show ?thesis by (auto simp: parse_host_port_def find_char split: if_splits)
  next
    case (Some colon)
    then have "host = take colon hp" "p \<le> 65535"
      using False assms by (auto simp: parse_host_port_def res_simps dest: parse_port_bound)
    moreover have "colon = length (takeWhile (\<lambda>c. c \<noteq> CHR '':'') hp)" using Some by (auto simp: find_char split: if_splits)
    ultimately show ?thesis
      using take_while_notin [of colon "CHR '':''" hp] set_take_subset [of colon hp] by auto
  qed
qed

lemma takeWhile_up_to: "x \<notin> set s \<Longrightarrow> takeWhile (\<lambda>c. c \<noteq> x) (s @ x # t) = s"
  by (induction s) auto

lemma reparsed_host:
  assumes "p \<le> 65535" "CHR '':'' \<in> set host \<Longrightarrow> CHR '']'' \<notin> set host" "host \<noteq> []" "hd host \<noteq> CHR ''[''"
  shows "parse_host_port ((if CHR '':'' \<in> set host then ''['' @ host @ '']'' else host) @ '':'' @ dec_nat p) d url = Inr (host, p)"
    and "parse_host_port (if CHR '':'' \<in> set host then ''['' @ host @ '']'' else host) d url = Inr (host, d)"
proof -
  have close: "find_pos '']'' (CHR ''['' # host @ CHR '']'' # t) = Some (Suc (length host))" if "CHR '']'' \<notin> set host" for t
    using that by (simp add: find_char takeWhile_up_to)
  have bracket: "parse_host_port (CHR ''['' # host @ CHR '']'' # CHR '':'' # dec_nat p) d url = Inr (host, p)"
    "parse_host_port (CHR ''['' # host @ [CHR '']'']) d url = Inr (host, d)" if "CHR '']'' \<notin> set host"
    using assms(1) close [OF that] by (simp_all add: parse_host_port_def nth_append parse_port_dec Let_def)
  have plain: "parse_host_port (host @ CHR '':'' # dec_nat p) d url = Inr (host, p)" "parse_host_port host d url = Inr (host, d)"
    if "CHR '':'' \<notin> set host"
    using assms that by (simp_all add: parse_host_port_def find_char takeWhile_up_to parse_port_dec)
  show "parse_host_port ((if CHR '':'' \<in> set host then ''['' @ host @ '']'' else host) @ '':'' @ dec_nat p) d url = Inr (host, p)"
    "parse_host_port (if CHR '':'' \<in> set host then ''['' @ host @ '']'' else host) d url = Inr (host, d)"
    using bracket plain assms(2) by auto
qed

lemma find_scheme: "scheme = ''http'' \<or> scheme = ''https'' \<Longrightarrow> find_pos ''://'' (scheme @ ''://'' @ s) = Some (length scheme)"
  by (elim disjE) (simp_all add: find_pos.simps)

lemma reparsed_origin:
  assumes u: "ur_scheme u = ''http'' \<or> ur_scheme u = ''https''" "ur_host u \<noteq> []" "hd (ur_host u) \<noteq> CHR ''[''"
    "ur_port u \<le> 65535" "CHR ''/'' \<notin> set (ur_host u)" "CHR '':'' \<in> set (ur_host u) \<longrightarrow> CHR '']'' \<notin> set (ur_host u)"
  shows "\<exists>path'. parse_url (origin_text u @ CHR ''/'' # path) = Inr (u\<lparr>ur_path := path'\<rparr>)"
proof -
  define host where "host = (if CHR '':'' \<in> set (ur_host u) then ''['' @ ur_host u @ '']'' else ur_host u)"
  define port where "port = (if ur_scheme u = ''https'' \<and> ur_port u = 443 \<or> ur_scheme u = ''http'' \<and> ur_port u = 80 then []
      else '':'' @ dec_nat (ur_port u))"
  have whole: "origin_text u @ CHR ''/'' # path = ur_scheme u @ ''://'' @ host @ port @ CHR ''/'' # path"
    by (simp add: origin_text_def host_def port_def)
  have "\<not> is_digit CHR ''/''" by (simp add: is_digit_def byte_of_def)
  then have "CHR ''/'' \<notin> set (host @ port)" using u(5) dec_nat_digits by (auto simp: host_def port_def)
  then have up: "takeWhile (\<lambda>c. c \<noteq> CHR ''/'') ((host @ port) @ CHR ''/'' # path) = host @ port" by (rule takeWhile_up_to)
  have slashed: "dropWhile (\<lambda>c. c \<noteq> CHR ''/'') (host @ port @ CHR ''/'' # path) = CHR ''/'' # path"
    using up by (metis append.assoc append_same_eq same_append_eq takeWhile_dropWhile_id)
  have "parse_host_port (host @ port) (default_port_of (ur_scheme u)) url = Inr (ur_host u, ur_port u)" for url
    using u reparsed_host [of "ur_port u" "ur_host u"] by (auto simp: host_def port_def default_port_of_def)
  moreover have "find_pos ''://'' (origin_text u @ CHR ''/'' # path) = Some (length (ur_scheme u))"
    unfolding whole using u(1) by (rule find_scheme)
  moreover have "take (length (ur_scheme u)) (origin_text u @ CHR ''/'' # path) = ur_scheme u"
    "drop (length (ur_scheme u) + 3) (origin_text u @ CHR ''/'' # path) = (host @ port) @ CHR ''/'' # path"
    unfolding whole by simp_all
  ultimately have "parse_url (origin_text u @ CHR ''/'' # path) =
      Inr \<lparr>ur_scheme = ur_scheme u, ur_host = ur_host u, ur_port = ur_port u, ur_path = CHR ''/'' # path\<rparr>"
    using up slashed by (simp add: parse_url_def Let_def res_simps)
  moreover have "\<lparr>ur_scheme = ur_scheme u, ur_host = ur_host u, ur_port = ur_port u, ur_path = CHR ''/'' # path\<rparr> =
      u\<lparr>ur_path := CHR ''/'' # path\<rparr>" by (rule url_parts.equality) simp_all
  ultimately show ?thesis by metis
qed

lemma base_parts:
  assumes "parse_url base = Inr b" "ur_host b \<noteq> []"
  shows "ur_port b \<le> 65535 \<and> CHR ''/'' \<notin> set (ur_host b) \<and>
    (CHR '':'' \<in> set (ur_host b) \<longrightarrow> CHR '']'' \<notin> set (ur_host b)) \<and> (\<exists>p. ur_path b = CHR ''/'' # p)"
proof -
  obtain n where n: "find_pos ''://'' base = Some n" using assms by (auto simp: parse_url_def no_url_def split: option.splits)
  define rest where "rest = drop (n + 3) base"
  obtain host port where hp: "parse_host_port (takeWhile (\<lambda>c. c \<noteq> CHR ''/'') rest) (default_port_of (take n base)) base = Inr (host, port)"
      and b: "b = \<lparr>ur_scheme = take n base, ur_host = host, ur_port = port,
        ur_path = (if CHR ''/'' \<in> set rest then dropWhile (\<lambda>c. c \<noteq> CHR ''/'') rest else ''/'')\<rparr>"
    using assms(1) n by (auto simp: parse_url_def Let_def rest_def res_simps)
  have "default_port_of (take n base) \<le> 65535" by (simp add: default_port_of_def)
  note host = parsed_host [OF hp this]
  have "CHR ''/'' \<notin> set (takeWhile (\<lambda>c. c \<noteq> CHR ''/'') rest)" by (auto dest: set_takeWhileD)
  moreover have "\<exists>p. dropWhile (\<lambda>c. c \<noteq> CHR ''/'') rest = CHR ''/'' # p" if "CHR ''/'' \<in> set rest"
  proof -
    have "dropWhile (\<lambda>c. c \<noteq> CHR ''/'') rest \<noteq> []" using that by auto
    moreover from this have "hd (dropWhile (\<lambda>c. c \<noteq> CHR ''/'') rest) = CHR ''/''"
      using hd_dropWhile [of "\<lambda>c. c \<noteq> CHR ''/''" rest] by blast
    ultimately show ?thesis by (cases "dropWhile (\<lambda>c. c \<noteq> CHR ''/'') rest") auto
  qed
  ultimately show ?thesis using host by (auto simp: b)
qed

lemma directory_slash: "\<exists>d. directory_of (CHR ''/'' # p) = CHR ''/'' # d"
  by (auto simp: directory_of_def dropWhile_append) (metis rev_rev_ident)

lemma strip_slash: "strip_url_fragment (CHR ''/'' # s) = CHR ''/'' # strip_url_fragment s"
  by (simp add: strip_url_fragment_def)

lemma redirect_path:
  assumes "resolve_redirect_url base location = Inr u" "find_pos ''://'' (trim_in_place location) = None"
  shows "\<exists>b path. parse_url base = Inr b \<and> ur_host b \<noteq> [] \<and> (ur_scheme b = ''http'' \<or> ur_scheme b = ''https'') \<and>
    u = origin_text b @ CHR ''/'' # path"
proof -
  define loc where "loc = trim_in_place location"
  obtain b where b: "parse_url base = Inr b" "ur_host b \<noteq> []" "ur_scheme b = ''http'' \<or> ur_scheme b = ''https''" "loc \<noteq> []"
    and u: "u = (if hd loc = CHR ''/'' then origin_text b @ strip_url_fragment loc
       else origin_text b @ directory_of (ur_path b) @ strip_url_fragment loc)"
    using assms by (auto simp: resolve_redirect_url_def Let_def loc_def rbind_eq_Inr_iff split: if_splits)
  show ?thesis
  proof (cases "hd loc = CHR ''/''")
    case True
    with b(4) obtain s where "loc = CHR ''/'' # s" by (cases loc) auto
    with b True u show ?thesis by (auto simp: strip_slash)
  next
    case False
    obtain p where p: "ur_path b = CHR ''/'' # p" using base_parts [OF b(1,2)] by blast
    obtain d where "directory_of (CHR ''/'' # p) = CHR ''/'' # d" using directory_slash by blast
    with b False u p show ?thesis by auto
  qed
qed

lemma equal_host_refl [simp]: "equal_url_host h h"
  by (simp add: equal_url_host_def list_all2_refl)

text \<open>C17: a redirect to a location that has no "://" never leaves the origin of the request, whose host is written without
  a bracket: the URL it leads to is parsed to the scheme, host and port of the request, only the path is new, and it passes
  for a redirect within the same origin.\<close>

theorem relative_redirect_same_origin:
  assumes "resolve_redirect_url base location = Inr u" "find_pos ''://'' (trim_in_place location) = None"
    and "\<forall>b. parse_url base = Inr b \<longrightarrow> \<not> has_bracket (ur_host b)"
  shows "\<exists>b path. parse_url base = Inr b \<and> parse_url u = Inr (b\<lparr>ur_path := path\<rparr>) \<and>
    is_same_origin_redirect base u = Inr True"
proof -
  obtain b path where b: "parse_url base = Inr b" "ur_host b \<noteq> []" "ur_scheme b = ''http'' \<or> ur_scheme b = ''https''"
    "u = origin_text b @ CHR ''/'' # path"
    using redirect_path [OF assms(1,2)] by blast
  moreover have "hd (ur_host b) \<noteq> CHR ''[''" using assms(3) b by (simp add: has_bracket_def)
  ultimately obtain path' where "parse_url u = Inr (b\<lparr>ur_path := path'\<rparr>)"
    using reparsed_origin [of b path] base_parts [OF b(1,2)] by auto
  with b show ?thesis by (auto simp: is_same_origin_redirect_def intro!: exI [of _ path'])
qed

theorem relative_redirect_same_origin_witness:
  "\<exists>path. parse_url ''http://h/a/c'' = Inr \<lparr>ur_scheme = ''http'', ur_host = ''h'', ur_port = 80, ur_path = path\<rparr>"
proof -
  have base: "parse_url ''http://h/a/b'' =
      Inr \<lparr>ur_scheme = ''http'', ur_host = ''h'', ur_port = 80, ur_path = ''/a/b''\<rparr>"
    by code_simp
  have "resolve_redirect_url ''http://h/a/b'' ''c#x'' = Inr ''http://h/a/c''"
    "find_pos ''://'' (trim_in_place ''c#x'') = None"
    by code_simp+
  moreover have "\<forall>b. parse_url ''http://h/a/b'' = Inr b \<longrightarrow> \<not> has_bracket (ur_host b)"
    by (simp add: base has_bracket_def)
  ultimately have "\<exists>b path. parse_url ''http://h/a/b'' = Inr b \<and>
      parse_url ''http://h/a/c'' = Inr (b\<lparr>ur_path := path\<rparr>) \<and>
      is_same_origin_redirect ''http://h/a/b'' ''http://h/a/c'' = Inr True"
    by (rule relative_redirect_same_origin)
  with base show ?thesis by auto
qed

text \<open>A location with a query that contains a URL counts as absolute, although it is relative.\<close>

lemma query_taken_for_scheme:
  "resolve_redirect_url ''http://h/'' ''/login?next=http://x/'' = Inr ''/login?next=http://x/''" by code_simp

end
