(* ===== verification/Sse_Client.thy ===== *)
theory Sse_Client
  imports Url Http_Streams
begin

text \<open>
  The client of a stream of server-sent events: the lines of \<open>include/mcp/detail/SseEventParser.hpp\<close> and the reading
  side of \<open>src/transport/SseClientTransport.cpp\<close>.  What arrives is a sequence of connections, each a sequence of
  chunks; the messages handed to the channel are kept in order.
\<close>

section \<open>Lines and fields\<close>

definition drop_cr :: "string \<Rightarrow> string" where
  "drop_cr line = (if line \<noteq> [] \<and> last line = chr 13 then butlast line else line)"

text \<open>The lines of a block; nothing follows a line break at its end.\<close>

function sse_lines :: "string \<Rightarrow> string list" where
  "sse_lines block =
     (if block = [] then []
      else drop_cr (takeWhile (\<lambda>c. c \<noteq> chr 10) block) # sse_lines (drop 1 (dropWhile (\<lambda>c. c \<noteq> chr 10) block)))"
  by auto
termination
proof (relation "measure length")
  fix block :: string
  assume "block \<noteq> []"
  have "length (dropWhile (\<lambda>c. c \<noteq> chr 10) block) \<le> length block" by (rule length_dropWhile_le)
  then have "length (drop 1 (dropWhile (\<lambda>c. c \<noteq> chr 10) block)) < length block"
    using length_greater_0_conv [of block] \<open>block \<noteq> []\<close> unfolding length_drop by arith
  then show "(drop 1 (dropWhile (\<lambda>c. c \<noteq> chr 10) block), block) \<in> measure length" unfolding in_measure .
qed simp

declare sse_lines.simps [simp del]

record sse_field =
  sf_name :: string
  sf_value :: string
  sf_has_payload :: bool

definition parse_sse_field_line :: "string \<Rightarrow> sse_field option" where
  "parse_sse_field_line line =
     (if line = [] \<or> hd line = CHR '':'' \<or> CHR '':'' \<notin> set line then None
      else (let rest = drop 1 (dropWhile (\<lambda>c. c \<noteq> CHR '':'') line)
            in Some \<lparr>sf_name = takeWhile (\<lambda>c. c \<noteq> CHR '':'') line, sf_value = dropWhile is_blank rest,
                 sf_has_payload = rest \<noteq> []\<rparr>))"

definition append_sse_data :: "string \<Rightarrow> string \<Rightarrow> string" where
  "append_sse_data data value = (if data = [] then value else data @ chr 10 # value)"

section \<open>Events\<close>

record sse_event =
  se_type :: string
  se_data :: string
  se_id :: string
  se_retry :: "nat option"

definition sse_event_field :: "string \<Rightarrow> sse_event \<Rightarrow> sse_event" where
  "sse_event_field line evt =
     (case parse_sse_field_line line of
        None \<Rightarrow> evt
      | Some f \<Rightarrow>
          if \<not> sf_has_payload f then evt
          else if sf_name f = ''event'' then evt\<lparr>se_type := sf_value f\<rparr>
          else if sf_name f = ''data'' then evt\<lparr>se_data := append_sse_data (se_data evt) (sf_value f)\<rparr>
          else if sf_name f = ''id'' then evt\<lparr>se_id := sf_value f\<rparr>
          else if sf_name f = ''retry'' \<and> sf_value f \<noteq> [] \<and> list_all is_digit (sf_value f) then
            (case stoul (sf_value f) of StoOk n rest \<Rightarrow> evt\<lparr>se_retry := Some n\<rparr> | _ \<Rightarrow> evt)
          else evt)"

definition parse_sse_event :: "string \<Rightarrow> sse_event" where
  "parse_sse_event block =
     fold sse_event_field (sse_lines block) \<lparr>se_type = ''message'', se_data = [], se_id = [], se_retry = None\<rparr>"

text \<open>The end of the first block, and the length of what separates it from the next one.\<close>

definition find_sse_block_boundary :: "string \<Rightarrow> (nat \<times> nat) option" where
  "find_sse_block_boundary buffer =
     (case (find_pos [chr 10, chr 10] buffer, find_pos [chr 13, chr 10, chr 13, chr 10] buffer) of
        (None, None) \<Rightarrow> None
      | (None, Some crlf) \<Rightarrow> Some (crlf, 4)
      | (Some lf, None) \<Rightarrow> Some (lf, 2)
      | (Some lf, Some crlf) \<Rightarrow> if crlf < lf then Some (crlf, 4) else Some (lf, 2))"

section \<open>The client\<close>

record sse_options =
  so_server_url :: string
  so_max_event :: "nat option"

record sse_client_state =
  sl_buffer :: string
  sl_last_id :: string
  sl_retry :: "nat option"
  sl_endpoint :: string
  sl_received :: "rpc_message list"
  sl_errors :: "string list"
  sl_running :: bool
  sl_attempts :: nat

definition new_sse_client :: sse_client_state where
  "new_sse_client = \<lparr>sl_buffer = [], sl_last_id = [], sl_retry = None, sl_endpoint = [], sl_received = [],
     sl_errors = [], sl_running = True, sl_attempts = 0\<rparr>"

definition exceeds_event_limit :: "sse_options \<Rightarrow> nat \<Rightarrow> bool" where
  "exceeds_event_limit opts n \<longleftrightarrow> (case so_max_event opts of Some limit \<Rightarrow> limit < n | None \<Rightarrow> False)"

definition notify_error :: "string \<Rightarrow> sse_client_state \<Rightarrow> sse_client_state" where
  "notify_error e st = st\<lparr>sl_errors := sl_errors st @ [e]\<rparr>"

text \<open>\<open>ResolveEndpoint\<close>; its \<open>std::invalid_argument\<close> is a text.\<close>

definition resolve_endpoint :: "string \<Rightarrow> string \<Rightarrow> string + string" where
  "resolve_endpoint server_url endpoint =
     (if find_pos ''://'' endpoint \<noteq> None then Inr endpoint
      else rmap (\<lambda>srv.
        origin_text srv @
        (if endpoint = [] \<or> hd endpoint = CHR ''/'' then endpoint else directory_of (ur_path srv) @ endpoint))
        (parse_url server_url))"

definition note_event :: "sse_event \<Rightarrow> sse_client_state \<Rightarrow> sse_client_state" where
  "note_event evt st =
     (let st1 = (if se_retry evt \<noteq> None then st\<lparr>sl_retry := se_retry evt\<rparr> else st)
      in if se_id evt \<noteq> [] then st1\<lparr>sl_last_id := se_id evt\<rparr> else st1)"

definition deliver_event :: "sse_options \<Rightarrow> sse_event \<Rightarrow> sse_client_state \<Rightarrow> sse_client_state" where
  "deliver_event opts evt st =
     (if se_type evt = ''endpoint'' then
        (case resolve_endpoint (so_server_url opts) (se_data evt) of
           Inr url \<Rightarrow> st\<lparr>sl_endpoint := url\<rparr>
         | Inl e \<Rightarrow> notify_error (''invalid endpoint URL: '' @ e) st)
      else if se_type evt = ''message'' \<and> se_data evt \<noteq> [] then
        (if exceeds_event_limit opts (length (se_data evt)) then
           notify_error ''SSE event size exceeds maximum allowed size'' st
         else (case deserialize_message (se_data evt) of
                 Inr msg \<Rightarrow> st\<lparr>sl_received := sl_received st @ [msg]\<rparr>
               | Inl e \<Rightarrow> notify_error (''SSE parse error: '' @ what e) st))
      else st)"

text \<open>An event with nothing in it returns early in the source; here neither step does anything with it.\<close>

definition dispatch_sse_event :: "sse_options \<Rightarrow> string \<Rightarrow> sse_client_state \<Rightarrow> sse_client_state" where
  "dispatch_sse_event opts block st =
     (let evt = parse_sse_event block in deliver_event opts evt (note_event evt st))"

definition boundary_ok :: "string \<Rightarrow> nat \<times> nat \<Rightarrow> bool" where
  "boundary_ok buffer = (\<lambda>(pos, n). 2 \<le> n \<and> pos + n \<le> length buffer)"

lemma boundary_inside: "find_sse_block_boundary buffer = Some b \<Longrightarrow> boundary_ok buffer b"
  by (auto simp: find_sse_block_boundary_def boundary_ok_def split: option.splits if_splits dest: find_pos_split)

text \<open>The complete blocks of the buffer are dispatched; what is left of it stays.\<close>

function drain_blocks :: "sse_options \<Rightarrow> string \<Rightarrow> sse_client_state \<Rightarrow> string \<times> sse_client_state" where
  "drain_blocks opts buffer st =
     (case find_sse_block_boundary buffer of
        None \<Rightarrow> (buffer, st)
      | Some (pos, n) \<Rightarrow> drain_blocks opts (drop (pos + n) buffer) (dispatch_sse_event opts (take pos buffer) st))"
  by auto
termination
  by (relation "measure (\<lambda>(opts, buffer, st). length buffer)") (auto simp: boundary_ok_def dest!: boundary_inside)

declare drain_blocks.simps [simp del]

definition receive_chunk :: "sse_options \<Rightarrow> string \<Rightarrow> sse_client_state \<Rightarrow> sse_client_state" where
  "receive_chunk opts chunk st =
     (if chunk = [] then st
      else (let buffer = sl_buffer st @ chunk; st1 = st\<lparr>sl_attempts := 0\<rparr>
            in if exceeds_event_limit opts (length buffer) then
                 notify_error ''SSE event size exceeds maximum allowed size'' (st1\<lparr>sl_buffer := [], sl_running := False\<rparr>)
               else (case drain_blocks opts buffer st1 of (rest, st2) \<Rightarrow> st2\<lparr>sl_buffer := rest\<rparr>)))"

definition resumable_line :: "string \<Rightarrow> bool" where
  "resumable_line line \<longleftrightarrow>
     (case parse_sse_field_line line of
        None \<Rightarrow> False | Some f \<Rightarrow> sf_has_payload f \<and> (sf_name f = ''id'' \<or> sf_name f = ''retry''))"

text \<open>\<open>FlushSseBuffer\<close>: at the end of a connection the complete lines of an unfinished block are dispatched, if one of
  them has an identifier or a waiting time.\<close>

definition flush_sse_buffer :: "sse_options \<Rightarrow> sse_client_state \<Rightarrow> sse_client_state" where
  "flush_sse_buffer opts st =
     (let pending = sl_buffer st; st1 = st\<lparr>sl_buffer := []\<rparr>
      in if pending = [] \<or> chr 10 \<notin> set pending then st1
         else (let complete = rev (drop 1 (dropWhile (\<lambda>c. c \<noteq> chr 10) (rev pending)))
               in if list_ex resumable_line (sse_lines complete) then dispatch_sse_event opts complete st1 else st1))"

section \<open>Connections\<close>

text \<open>\<open>ReconnectDelayForAttempt\<close>, in milliseconds.\<close>

definition reconnect_delay :: "nat \<Rightarrow> nat option \<Rightarrow> nat" where
  "reconnect_delay attempt retry =
     (let backoff = ((\<lambda>wait. min (wait * 3 div 2) 30000) ^^ (attempt - 1)) 1000;
          wait = (case retry of
            None \<Rightarrow> backoff
          | Some raw \<Rightarrow> if raw \<le> 450 then 450 else if 1000 \<le> raw then 1000 else raw)
      in if wait < 450 then 450 else if 1000 < wait then 1000 else wait)"

text \<open>A connection ends with its chunks, or when the client stops because of one; what was received before counts.\<close>

fun receive_chunks :: "sse_options \<Rightarrow> string list \<Rightarrow> sse_client_state \<Rightarrow> sse_client_state" where
  "receive_chunks opts [] st = st"
| "receive_chunks opts (chunk # chunks) st =
     (if sl_running st then receive_chunks opts chunks (receive_chunk opts chunk st) else st)"

definition max_reconnect_attempts :: nat where "max_reconnect_attempts = 2"

text \<open>\<open>SseReadLoop\<close>: the requests it makes, each with the identifier it resumes from and the time it has waited, and the
  state in the end.  The answers are the chunks of each connection.\<close>

fun sse_read_loop :: "sse_options \<Rightarrow> string list list \<Rightarrow> nat \<Rightarrow> sse_client_state \<Rightarrow> (string \<times> nat) list \<times> sse_client_state" where
  "sse_read_loop opts [] waited st = ([], st)"
| "sse_read_loop opts (chunks # later) waited st =
     (if \<not> sl_running st then ([], st)
      else (let st1 = flush_sse_buffer opts (receive_chunks opts chunks st)
            in if \<not> sl_running st1 \<or> max_reconnect_attempts \<le> sl_attempts st1 then ([(sl_last_id st, waited)], st1)
               else (let st2 = st1\<lparr>sl_attempts := sl_attempts st1 + 1\<rparr>
                     in case sse_read_loop opts later (reconnect_delay (sl_attempts st2) (sl_retry st2)) st2 of
                          (requests, st3) \<Rightarrow> ((sl_last_id st, waited) # requests, st3))))"

section \<open>Where a block ends\<close>

lemma cr_lf [simp]: "chr 13 \<noteq> chr 10" "chr 10 \<noteq> chr 13"
  by code_simp+

definition occurs :: "string \<Rightarrow> string \<Rightarrow> nat \<Rightarrow> bool" where
  "occurs p s n \<longleftrightarrow> n + length p \<le> length s \<and> take (length p) (drop n s) = p"

lemma find_pos_occurs: "find_pos p s = Some n \<longleftrightarrow> occurs p s n \<and> (\<forall>m < n. \<not> occurs p s m)"
proof (induction s arbitrary: n)
  case Nil
  show ?case by (subst find_pos.simps) (auto simp: occurs_def)
next
  case (Cons c s)
  have shift: "occurs p (c # s) (Suc m) = occurs p s m" for m by (simp add: occurs_def)
  show ?case
  proof (cases "take (length p) (c # s) = p")
    case True
    then have "length p \<le> Suc (length s)" by (metis length_Cons length_take min.cobounded1)
    with True have "occurs p (c # s) 0" by (simp add: occurs_def)
    moreover have "find_pos p (c # s) = Some 0" using True by (subst find_pos.simps) simp
    ultimately show ?thesis by (cases n) auto
  next
    case False
    then have "\<not> occurs p (c # s) 0" by (simp add: occurs_def)
    moreover have "(\<forall>m < Suc k. \<not> occurs p (c # s) m) \<longleftrightarrow> \<not> occurs p (c # s) 0 \<and> (\<forall>m < k. \<not> occurs p s m)" for k
      by (simp add: All_less_Suc2 shift)
    ultimately show ?thesis
      using Cons.IH False by (cases n) (auto simp: find_pos_Cons shift)
  qed
qed

lemma find_pos_None: "find_pos p s = None \<longleftrightarrow> (\<forall>n. \<not> occurs p s n)"
proof
  assume none: "find_pos p s = None"
  show "\<forall>n. \<not> occurs p s n"
  proof (rule ccontr)
    assume "\<not> (\<forall>n. \<not> occurs p s n)"
    then have "\<exists>n. occurs p s n \<and> (\<forall>m < n. \<not> occurs p s m)" using exists_least_iff [of "occurs p s"] by blast
    with none find_pos_occurs [of p s] show False by auto
  qed
qed (metis find_pos_occurs not_None_eq)

lemma occurs_append: "n + length p \<le> length b \<Longrightarrow> occurs p (b @ c) n = occurs p b n"
  by (simp add: occurs_def)

lemma occurs_nth: "occurs p s n \<Longrightarrow> i < length p \<Longrightarrow> s ! (n + i) = p ! i"
  unfolding occurs_def by (metis add_leD1 nth_drop nth_take)

abbreviation lf_lf :: string where "lf_lf \<equiv> [chr 10, chr 10]"
abbreviation crlf_crlf :: string where "crlf_crlf \<equiv> [chr 13, chr 10, chr 13, chr 10]"

lemma first_unique: "P m \<Longrightarrow> \<forall>i < m. \<not> P i \<Longrightarrow> P n \<Longrightarrow> \<forall>i < n. \<not> P i \<Longrightarrow> (m :: nat) = n"
  by (metis linorder_neqE_nat)

lemma first_iff: "P m \<Longrightarrow> \<forall>i < m. \<not> P i \<Longrightarrow> (P n \<and> (\<forall>i < n. \<not> P i)) = ((n :: nat) = m)"
  by (metis linorder_neqE_nat)

lemma boundary_iff:
  "find_sse_block_boundary s = Some (pos, n) \<longleftrightarrow>
     n = 2 \<and> occurs lf_lf s pos \<and> (\<forall>m < pos. \<not> occurs lf_lf s m \<and> \<not> occurs crlf_crlf s m) \<or>
     n = 4 \<and> occurs crlf_crlf s pos \<and> (\<forall>m \<le> pos. \<not> occurs lf_lf s m) \<and> (\<forall>m < pos. \<not> occurs crlf_crlf s m)"
  (is "?L = ?R")
proof -
  show ?thesis
  proof (cases "find_pos lf_lf s")
    case no_lf: None
    then have none: "\<forall>m. \<not> occurs lf_lf s m" by (simp add: find_pos_None)
    show ?thesis
    proof (cases "find_pos crlf_crlf s")
      case no_crlf: None
      then have "\<forall>m. \<not> occurs crlf_crlf s m" by (simp add: find_pos_None)
      moreover have "find_sse_block_boundary s = None" using no_lf no_crlf by (simp add: find_sse_block_boundary_def)
      ultimately show ?thesis using none by simp
    next
      case crlf: (Some k)
      then have "occurs crlf_crlf s k" "\<forall>m < k. \<not> occurs crlf_crlf s m" by (simp_all add: find_pos_occurs)
      from first_iff [of "occurs crlf_crlf s", OF this] have "?R \<longleftrightarrow> n = 4 \<and> pos = k" using none by simp
      moreover have "find_sse_block_boundary s = Some (k, 4)" using no_lf crlf by (simp add: find_sse_block_boundary_def)
      ultimately show ?thesis by auto
    qed
  next
    case lf: (Some l)
    then have l: "occurs lf_lf s l" "\<forall>m < l. \<not> occurs lf_lf s m" by (simp_all add: find_pos_occurs)
    show ?thesis
    proof (cases "find_pos crlf_crlf s")
      case no_crlf: None
      then have "\<forall>m. \<not> occurs crlf_crlf s m" by (simp add: find_pos_None)
      with first_iff [of "occurs lf_lf s", OF l] have "?R \<longleftrightarrow> n = 2 \<and> pos = l" by simp
      moreover have "find_sse_block_boundary s = Some (l, 2)" using lf no_crlf by (simp add: find_sse_block_boundary_def)
      ultimately show ?thesis by auto
    next
      case crlf: (Some k)
      then have k: "occurs crlf_crlf s k" "\<forall>m < k. \<not> occurs crlf_crlf s m" by (simp_all add: find_pos_occurs)
      show ?thesis
      proof (cases "k < l")
        case True
        then have "find_sse_block_boundary s = Some (k, 4)" using lf crlf by (simp add: find_sse_block_boundary_def)
        have "(pos, n) = (k, 4)" if ?R using that
        proof (elim disjE conjE)
          assume "occurs lf_lf s pos" "\<forall>m < pos. \<not> occurs lf_lf s m \<and> \<not> occurs crlf_crlf s m"
          then have "\<not> k < pos" "\<not> pos < l" using k(1) l(2) by blast+
          with True show ?thesis by simp
        next
          assume "n = 4" "occurs crlf_crlf s pos" "\<forall>m < pos. \<not> occurs crlf_crlf s m"
          with first_unique [of "occurs crlf_crlf s", OF _ _ k(1) k(2)] show ?thesis by simp
        qed
        moreover have ?R if "(pos, n) = (k, 4)"
        proof -
          have "\<forall>m \<le> k. \<not> occurs lf_lf s m" using True l(2) by auto
          moreover have "pos = k" "n = 4" using that by simp_all
          ultimately show ?thesis using k by blast
        qed
        moreover have "?L \<longleftrightarrow> (pos, n) = (k, 4)"
          using \<open>find_sse_block_boundary s = Some (k, 4)\<close> by auto
        ultimately show ?thesis by blast
      next
        case False
        then have "find_sse_block_boundary s = Some (l, 2)" using lf crlf by (simp add: find_sse_block_boundary_def)
        have "(pos, n) = (l, 2)" if ?R using that
        proof (elim disjE conjE)
          assume "occurs crlf_crlf s pos" "\<forall>m \<le> pos. \<not> occurs lf_lf s m" "\<forall>m < pos. \<not> occurs crlf_crlf s m"
          then have "\<not> pos < k" "\<not> l \<le> pos" using k(2) l(1) by blast+
          with False show ?thesis using k(1) \<open>\<forall>m < pos. \<not> occurs crlf_crlf s m\<close> by auto
        next
          assume "n = 2" "occurs lf_lf s pos" "\<forall>m < pos. \<not> occurs lf_lf s m \<and> \<not> occurs crlf_crlf s m"
          with first_unique [of "occurs lf_lf s", OF _ _ l(1) l(2)] show ?thesis by simp
        qed
        moreover have ?R if "(pos, n) = (l, 2)"
        proof -
          have "\<forall>m < l. \<not> occurs crlf_crlf s m" using False k(2) by auto
          moreover have "pos = l" "n = 2" using that by simp_all
          ultimately show ?thesis using l by blast
        qed
        moreover have "?L \<longleftrightarrow> (pos, n) = (l, 2)"
          using \<open>find_sse_block_boundary s = Some (l, 2)\<close> by auto
        ultimately show ?thesis by blast
      qed
    qed
  qed
qed

text \<open>What follows a block does not change where it ends.\<close>

lemma boundary_append:
  assumes "find_sse_block_boundary b = Some (pos, n)"
  shows "find_sse_block_boundary (b @ c) = Some (pos, n)"
  using assms unfolding boundary_iff
proof (elim disjE conjE)
  assume lf: "n = 2" "occurs lf_lf b pos" "\<forall>m < pos. \<not> occurs lf_lf b m \<and> \<not> occurs crlf_crlf b m"
  then have inside: "pos + 2 \<le> length b" by (simp add: occurs_def)
  have "\<not> occurs crlf_crlf (b @ c) m" if "m < pos" for m
  proof
    assume occ: "occurs crlf_crlf (b @ c) m"
    have "length b < m + 4"
    proof (rule ccontr)
      assume "\<not> length b < m + 4"
      then have "occurs crlf_crlf b m" using occ occurs_append [of m crlf_crlf b c] by simp
      with lf(3) that show False by blast
    qed
    with inside that have "m + 1 = pos \<or> m + 2 = pos \<or> m + 1 < pos" by auto
    then consider "pos = m + 1" | "pos = m + 2" | "m + 3 \<le> pos" by linarith
    then show False
      using occurs_nth [OF occ, of 0] occurs_nth [OF occ, of 2] occurs_nth [OF occ, of 1] occurs_nth [of lf_lf b pos 0]
        occurs_nth [of lf_lf b pos 1] lf(2) inside \<open>length b < m + 4\<close>
      by cases (simp_all add: nth_append)
  qed
  moreover have "\<not> occurs lf_lf (b @ c) m" if "m < pos" for m
    using lf(3) that inside occurs_append [of m lf_lf b c] by auto
  moreover have "occurs lf_lf (b @ c) pos" using lf(2) inside occurs_append [of pos lf_lf b c] by simp
  ultimately show "n = 2 \<and> occurs lf_lf (b @ c) pos \<and> (\<forall>m < pos. \<not> occurs lf_lf (b @ c) m \<and> \<not> occurs crlf_crlf (b @ c) m) \<or>
     n = 4 \<and> occurs crlf_crlf (b @ c) pos \<and> (\<forall>m \<le> pos. \<not> occurs lf_lf (b @ c) m) \<and> (\<forall>m < pos. \<not> occurs crlf_crlf (b @ c) m)"
    using lf(1) by blast
next
  assume crlf: "n = 4" "occurs crlf_crlf b pos" "\<forall>m \<le> pos. \<not> occurs lf_lf b m" "\<forall>m < pos. \<not> occurs crlf_crlf b m"
  then have inside: "pos + 4 \<le> length b" by (simp add: occurs_def)
  have "occurs crlf_crlf (b @ c) pos" "\<forall>m \<le> pos. \<not> occurs lf_lf (b @ c) m" "\<forall>m < pos. \<not> occurs crlf_crlf (b @ c) m"
    using crlf(2-4) inside by (simp_all add: occurs_append)
  with crlf(1) show "n = 2 \<and> occurs lf_lf (b @ c) pos \<and> (\<forall>m < pos. \<not> occurs lf_lf (b @ c) m \<and> \<not> occurs crlf_crlf (b @ c) m) \<or>
     n = 4 \<and> occurs crlf_crlf (b @ c) pos \<and> (\<forall>m \<le> pos. \<not> occurs lf_lf (b @ c) m) \<and> (\<forall>m < pos. \<not> occurs crlf_crlf (b @ c) m)"
    by blast
qed

section \<open>Frames in chunks\<close>

text \<open>A block that ends at its own end, whatever follows it.\<close>

definition block_frame :: "string \<Rightarrow> string" where "block_frame body = body @ [chr 10, chr 10]"

definition one_block :: "string \<Rightarrow> bool" where
  "one_block body \<longleftrightarrow> find_sse_block_boundary (block_frame body) = Some (length body, 2)"

lemma first_block:
  assumes "one_block body"
  shows "find_sse_block_boundary (block_frame body @ s) = Some (length body, 2)"
    and "drain_blocks opts (block_frame body @ s) st = drain_blocks opts s (dispatch_sse_event opts body st)"
proof -
  show b: "find_sse_block_boundary (block_frame body @ s) = Some (length body, 2)"
    using assms boundary_append by (simp add: one_block_def)
  show "drain_blocks opts (block_frame body @ s) st = drain_blocks opts s (dispatch_sse_event opts body st)"
    by (subst drain_blocks.simps) (simp add: b, simp add: block_frame_def)
qed

lemma part_of_block:
  assumes "one_block body" "block_frame body @ t = part @ rest" "length part < length (block_frame body)"
  shows "find_sse_block_boundary part = None"
proof (rule ccontr)
  assume "find_sse_block_boundary part \<noteq> None"
  then obtain pos n where b: "find_sse_block_boundary part = Some (pos, n)" by auto
  then have "find_sse_block_boundary (part @ rest) = Some (pos, n)" by (rule boundary_append)
  with first_block(1) [OF assms(1), of t] assms(2) have "pos = length body \<and> n = 2" by simp
  with boundary_inside [OF b] assms(3) show False by (simp add: boundary_ok_def block_frame_def)
qed

text \<open>The complete frames of a buffer are dispatched; less than a frame stays.\<close>

lemma drain_frames:
  assumes "list_all one_block bodies" "buffer @ rest = concat (map block_frame bodies)"
  shows "\<exists>now later part. bodies = now @ later \<and> drain_blocks opts buffer st = (part, fold (dispatch_sse_event opts) now st) \<and>
    part @ rest = concat (map block_frame later) \<and> (later = [] \<or> length part < length (block_frame (hd later)))"
  using assms
proof (induction bodies arbitrary: buffer st)
  case Nil
  have "find_sse_block_boundary [] = None" by code_simp
  then have "drain_blocks opts [] st = ([], st)" by (subst drain_blocks.simps) simp
  with Nil show ?case by simp
next
  case (Cons body bodies)
  show ?case
  proof (cases "length buffer < length (block_frame body)")
    case True
    have "block_frame body @ concat (map block_frame bodies) = buffer @ rest" using Cons.prems(2) by simp
    with part_of_block [of body _ buffer rest] Cons.prems(1) True have "find_sse_block_boundary buffer = None" by auto
    then have "drain_blocks opts buffer st = (buffer, st)" by (subst drain_blocks.simps) simp
    with True Cons.prems(2) show ?thesis by (intro exI [of _ "[]"] exI [of _ "body # bodies"] exI [of _ buffer]) simp
  next
    case False
    define buffer' where "buffer' = drop (length (block_frame body)) buffer"
    have "take (length (block_frame body)) (buffer @ rest) = block_frame body" using Cons.prems(2) by simp
    then have split: "buffer = block_frame body @ buffer'"
      using False unfolding buffer'_def by (metis append_take_drop_id diff_is_0_eq not_le_imp_less order_less_imp_le
        take_append append.right_neutral take_0)
    with Cons.prems(2) have "buffer' @ rest = concat (map block_frame bodies)" by simp
    with Cons.IH [of buffer' "dispatch_sse_event opts body st"] Cons.prems(1) obtain now later part
      where "bodies = now @ later" "drain_blocks opts buffer' (dispatch_sse_event opts body st) =
          (part, fold (dispatch_sse_event opts) now (dispatch_sse_event opts body st))"
        "part @ rest = concat (map block_frame later)" "later = [] \<or> length part < length (block_frame (hd later))"
      by auto
    moreover have "one_block body" using Cons.prems(1) by simp
    ultimately show ?thesis
      by (intro exI [of _ "body # now"] exI [of _ later] exI [of _ part]) (simp add: split first_block(2))
  qed
qed

lemma note_simps:
  "sl_buffer (note_event evt st) = sl_buffer st" "sl_running (note_event evt st) = sl_running st"
  "note_event evt (st\<lparr>sl_buffer := b, sl_attempts := a\<rparr>) = (note_event evt st)\<lparr>sl_buffer := b, sl_attempts := a\<rparr>"
  by (simp_all add: note_event_def Let_def)

lemma deliver_simps:
  "sl_buffer (deliver_event opts evt st) = sl_buffer st" "sl_running (deliver_event opts evt st) = sl_running st"
  "deliver_event opts evt (st\<lparr>sl_buffer := b, sl_attempts := a\<rparr>) =
     (deliver_event opts evt st)\<lparr>sl_buffer := b, sl_attempts := a\<rparr>"
  by (simp_all add: deliver_event_def notify_error_def split: sum.split)

lemma dispatch_simps:
  "sl_buffer (dispatch_sse_event opts block st) = sl_buffer st"
  "sl_running (dispatch_sse_event opts block st) = sl_running st"
  "dispatch_sse_event opts block (st\<lparr>sl_buffer := b, sl_attempts := a\<rparr>) =
     (dispatch_sse_event opts block st)\<lparr>sl_buffer := b, sl_attempts := a\<rparr>"
  by (simp_all add: dispatch_sse_event_def Let_def note_simps deliver_simps)

text \<open>What the client keeps of the stream, without the bookkeeping of its buffer.\<close>

definition stream_view :: "sse_client_state \<Rightarrow> sse_client_state" where
  "stream_view st = st\<lparr>sl_buffer := [], sl_attempts := 0\<rparr>"

lemma view_dispatch: "stream_view (dispatch_sse_event opts block st) = dispatch_sse_event opts block (stream_view st)"
  by (simp add: stream_view_def dispatch_simps)

lemma view_fold: "stream_view (fold (dispatch_sse_event opts) bodies st) = fold (dispatch_sse_event opts) bodies (stream_view st)"
  by (induction bodies arbitrary: st) (simp_all add: view_dispatch)

lemma fold_running: "sl_running (fold (dispatch_sse_event opts) bodies st) = sl_running st"
  by (induction bodies arbitrary: st) (simp_all add: dispatch_simps)

text \<open>However the frames are cut into chunks, the client sees one block after the other.\<close>

lemma chunks_received:
  assumes "list_all one_block bodies" "sl_buffer st @ concat chunks = concat (map block_frame bodies)" "sl_running st"
    and "bodies = [] \<or> length (sl_buffer st) < length (block_frame (hd bodies))"
    and "\<And>limit c b. so_max_event opts = Some limit \<Longrightarrow> c \<in> set chunks \<Longrightarrow> b \<in> set bodies \<Longrightarrow>
      length c + length (block_frame b) \<le> limit"
  shows "stream_view (receive_chunks opts chunks st) = fold (dispatch_sse_event opts) bodies (stream_view st) \<and>
    sl_buffer (receive_chunks opts chunks st) = []"
  using assms
proof (induction chunks arbitrary: st bodies)
  case Nil
  have "bodies = []"
  proof (cases bodies)
    case (Cons b bs)
    with Nil(2) have "length (block_frame b) \<le> length (sl_buffer st)" by simp
    with Nil(4) Cons show ?thesis by simp
  qed simp
  with Nil(2) show ?case by simp
next
  case (Cons c chunks)
  show ?case
  proof (cases "c = []")
    case True
    then have "receive_chunks opts (c # chunks) st = receive_chunks opts chunks st"
      using Cons.prems(3) by (simp add: receive_chunk_def)
    moreover have "stream_view (receive_chunks opts chunks st) = fold (dispatch_sse_event opts) bodies (stream_view st) \<and>
        sl_buffer (receive_chunks opts chunks st) = []"
    proof (rule Cons.IH)
      show "sl_buffer st @ concat chunks = concat (map block_frame bodies)" using Cons.prems(2) True by simp
      show "length c + length (block_frame b) \<le> limit"
        if "so_max_event opts = Some limit" "c \<in> set chunks" "b \<in> set bodies" for limit c b
        using Cons.prems(5) that by simp
    qed (use Cons.prems in auto)
    ultimately show ?thesis by simp
  next
    case False
    have "bodies \<noteq> []" using Cons.prems(2) False by auto
    have fits: "\<not> exceeds_event_limit opts (length (sl_buffer st @ c))"
    proof (cases "so_max_event opts")
      case (Some limit)
      have "length c + length (block_frame (hd bodies)) \<le> limit"
        using Cons.prems(5) [OF Some] \<open>bodies \<noteq> []\<close> by simp
      with Cons.prems(4) \<open>bodies \<noteq> []\<close> Some show ?thesis by (simp add: exceeds_event_limit_def)
    qed (simp add: exceeds_event_limit_def)
    define st1 where "st1 = st\<lparr>sl_attempts := 0\<rparr>"
    have "(sl_buffer st @ c) @ concat chunks = concat (map block_frame bodies)" using Cons.prems(2) by simp
    from drain_frames [OF Cons.prems(1) this, of opts st1] obtain now later part where d: "bodies = now @ later"
      "drain_blocks opts (sl_buffer st @ c) st1 = (part, fold (dispatch_sse_event opts) now st1)"
      "part @ concat chunks = concat (map block_frame later)" "later = [] \<or> length part < length (block_frame (hd later))"
      by blast
    define st2 where "st2 = (fold (dispatch_sse_event opts) now st1)\<lparr>sl_buffer := part\<rparr>"
    have step: "receive_chunk opts c st = st2"
      using False fits d(2) by (simp add: receive_chunk_def Let_def st2_def flip: st1_def)
    have view: "stream_view st2 = fold (dispatch_sse_event opts) now (stream_view st)"
    proof -
      have "stream_view st2 = stream_view (fold (dispatch_sse_event opts) now st1)" by (simp add: st2_def stream_view_def)
      moreover have "stream_view st1 = stream_view st" by (simp add: st1_def stream_view_def)
      ultimately show ?thesis by (simp add: view_fold)
    qed
    have "stream_view (receive_chunks opts chunks st2) = fold (dispatch_sse_event opts) later (stream_view st2) \<and>
        sl_buffer (receive_chunks opts chunks st2) = []"
    proof (rule Cons.IH)
      show "length c + length (block_frame b) \<le> limit"
        if "so_max_event opts = Some limit" "c \<in> set chunks" "b \<in> set later" for limit c b
        using Cons.prems(5) that d(1) by simp
    qed (use Cons.prems d in \<open>auto simp: st2_def st1_def fold_running\<close>)
    then show ?thesis using Cons.prems(3) by (simp add: step view d(1))
  qed
qed

section \<open>The frames of the server\<close>

definition id_line :: "64 word option \<Rightarrow> string list" where
  "id_line i = (case i of None \<Rightarrow> [] | Some k \<Rightarrow> [''id: '' @ dec_nat (unat k)])"

text \<open>The lines of an event with a message, and a text of such lines.\<close>

definition event_lines :: "64 word option \<Rightarrow> string \<Rightarrow> string list" where
  "event_lines i data = id_line i @ [''event: message'', ''data: '' @ data]"

definition joined :: "string list \<Rightarrow> string" where
  "joined ls = concat (map (\<lambda>l. l @ [chr 10]) ls)"

definition plain_line :: "string \<Rightarrow> bool" where
  "plain_line l \<longleftrightarrow> l \<noteq> [] \<and> chr 10 \<notin> set l \<and> hd l \<noteq> chr 13 \<and> last l \<noteq> chr 13"

lemma joined_simps: "joined [] = []" "joined (l # ls) = l @ chr 10 # joined ls"
  by (simp_all add: joined_def)

lemma joined_hd: "list_all plain_line ls \<Longrightarrow> ls \<noteq> [] \<Longrightarrow> (joined ls @ s) ! 0 \<noteq> chr 10 \<and> (joined ls @ s) ! 0 \<noteq> chr 13"
  by (cases ls; cases "hd ls") (auto simp: joined_simps plain_line_def)

lemma after_break:
  assumes "list_all plain_line ls" "k < length (joined ls)" "(joined ls @ s) ! k = chr 10"
  shows "Suc k = length (joined ls) \<or> (joined ls @ s) ! Suc k \<noteq> chr 10 \<and> (joined ls @ s) ! Suc k \<noteq> chr 13"
  using assms
proof (induction ls arbitrary: k)
  case (Cons l ls)
  consider "k < length l" | "k = length l" | j where "k = Suc (length l) + j"
    by (metis less_imp_Suc_add linorder_neqE_nat add_Suc)
  then show ?case
  proof cases
    case 1
    then have "l ! k = chr 10" using Cons.prems(3) by (simp add: joined_simps nth_append)
    with 1 Cons.prems(1) show ?thesis by (auto simp: plain_line_def dest: nth_mem)
  next
    case 2
    show ?thesis
    proof (cases "ls = []")
      case False
      then show ?thesis using joined_hd [of ls s] Cons.prems(1) 2 by (simp add: joined_simps nth_append)
    qed (simp add: 2 joined_simps)
  next
    case 3
    with Cons.prems have "j < length (joined ls)" "(joined ls @ s) ! j = chr 10"
      by (simp_all add: joined_simps nth_append)
    with Cons.IH [of j] Cons.prems(1) 3 show ?thesis by (simp add: joined_simps nth_append)
  qed
qed (simp add: joined_simps)

lemma joined_block:
  assumes "list_all plain_line ls" "ls \<noteq> []" "joined ls = body @ [chr 10]"
  shows "one_block body"
proof -
  define s where "s = block_frame body"
  have s: "s = joined ls @ [chr 10]" by (simp add: s_def block_frame_def assms(3))
  have len: "length (joined ls) = Suc (length body)" by (simp add: assms(3))
  note break = after_break [OF assms(1), of _ "[chr 10]", folded s, unfolded len]
  have "occurs lf_lf s (length body)" by (simp add: occurs_def s_def block_frame_def)
  moreover have "\<not> occurs lf_lf s m" if "m < length body" for m
    using break [of m] that occurs_nth [of lf_lf s m 0] occurs_nth [of lf_lf s m 1] by auto
  moreover have "\<not> occurs crlf_crlf s m" if "m < length body" for m
  proof
    assume occ: "occurs crlf_crlf s m"
    then have "s ! Suc m = chr 10" "s ! Suc (Suc m) = chr 13"
      using occurs_nth [OF occ, of 1] occurs_nth [OF occ, of 2] by simp_all
    with break [of "Suc m"] that have "Suc m = length body" by auto
    then have "s ! Suc (Suc m) = chr 10" by (simp add: s_def block_frame_def nth_append)
    with \<open>s ! Suc (Suc m) = chr 13\<close> show False by simp
  qed
  ultimately show ?thesis unfolding one_block_def boundary_iff s_def by simp
qed

lemma joined_lines:
  assumes "list_all plain_line ls"
  shows "sse_lines (joined ls) = ls" and "joined ls = body @ [chr 10] \<Longrightarrow> sse_lines body = ls"
proof -
  have plain: "drop_cr l = l" if "plain_line l" for l using that by (simp add: drop_cr_def plain_line_def)
  have line: "sse_lines (l @ chr 10 # t) = l # sse_lines t" if "plain_line l" for l t
  proof -
    have "takeWhile (\<lambda>c. c \<noteq> chr 10) (l @ chr 10 # t) = l" using that by (simp add: takeWhile_up_to plain_line_def)
    moreover have "dropWhile (\<lambda>c. c \<noteq> chr 10) (l @ chr 10 # t) = chr 10 # t"
      using that by (induction l) (auto simp: plain_line_def dropWhile_append)
    ultimately show ?thesis using plain [OF that] by (subst sse_lines.simps) simp
  qed
  have nil: "sse_lines [] = []" by (subst sse_lines.simps) simp
  show "sse_lines (joined ls) = ls" using assms by (induction ls) (simp_all add: joined_simps nil line)
  have last: "sse_lines l = [l]" if "plain_line l" for l
  proof -
    have whole: "takeWhile (\<lambda>c. c \<noteq> chr 10) l = l" "dropWhile (\<lambda>c. c \<noteq> chr 10) l = []"
      using that by (auto simp: plain_line_def)
    have "l \<noteq> []" using that by (simp add: plain_line_def)
    then show ?thesis by (subst sse_lines.simps) (simp add: whole nil plain [OF that])
  qed
  show "joined ls = body @ [chr 10] \<Longrightarrow> sse_lines body = ls"
    using assms
  proof (induction ls arbitrary: body)
    case (Cons l ls)
    show ?case
    proof (cases "ls = []")
      case True
      with Cons.prems show ?thesis by (simp add: joined_simps last)
    next
      case False
      then obtain body' where b: "joined ls = body' @ [chr 10]"
        by (cases ls rule: rev_cases) (simp_all add: joined_def)
      with Cons.prems(1) have "body = l @ chr 10 # body'" by (simp add: joined_simps)
      with Cons.IH [OF b] Cons.prems(2) line show ?thesis by simp
    qed
  qed (simp add: joined_simps)
qed

lemma event_frame:
  assumes "chr 10 \<notin> set data"
  shows "\<exists>body. joined (event_lines i data) = body @ [chr 10] \<and>
    block_frame body = (case i of None \<Rightarrow> [] | Some k \<Rightarrow> event_id_prefix k) @ sse_frame ''message'' data"
proof -
  have "sse_escape_data data = data" using assms by (induction data) (auto simp: sse_escape_data_def)
  then show ?thesis
    by (intro exI [of _ "(case i of None \<Rightarrow> [] | Some k \<Rightarrow> event_id_prefix k) @ ''event: message'' @ chr 10 # ''data: '' @ data"])
      (simp add: event_lines_def id_line_def joined_def block_frame_def sse_frame_def event_id_prefix_def split: option.split)
qed

text \<open>The text of a message: printed on one line, between braces.\<close>

definition braced :: "string \<Rightarrow> bool" where
  "braced data \<longleftrightarrow> chr 10 \<notin> set data \<and> (\<exists>mid. data = CHR ''{'' # mid @ ''}'')"

lemma control_neq: "CHR ''i'' \<noteq> chr 13" "CHR ''e'' \<noteq> chr 13" "CHR ''d'' \<noteq> chr 13" "CHR ''}'' \<noteq> chr 13" "\<not> is_digit (chr 13)"
  "chr 10 \<notin> set ''id: ''" "chr 10 \<notin> set ''event: message''" "chr 10 \<notin> set ''data: ''" "\<not> is_digit (chr 10)"
  "CHR ''e'' \<noteq> chr 13" "\<not> is_blank (CHR ''{'')" "\<not> is_blank (CHR ''m'')"  "is_blank (CHR '' '')" "last ''event: message'' \<noteq> chr 13"
  by code_simp+

lemma dec_nat_ends: "last (dec_nat n) \<noteq> chr 13" "chr 10 \<notin> set (dec_nat n)" "is_digit (hd (dec_nat n))"
  using dec_nat_digits [of _ n] control_neq last_in_set [of "dec_nat n"] hd_in_set [of "dec_nat n"] dec_nat_not_Nil by metis+

lemma event_lines_plain: "braced data \<Longrightarrow> list_all plain_line (event_lines i data)"
  using control_neq dec_nat_ends
  by (auto simp: event_lines_def id_line_def plain_line_def braced_def split: option.split)

lemma digit_not_blank: "is_digit c \<Longrightarrow> \<not> is_blank c"
  by (simp add: is_digit_def is_blank_def)

lemma field_lines:
  "parse_sse_field_line (''id: '' @ dec_nat n) = Some \<lparr>sf_name = ''id'', sf_value = dec_nat n, sf_has_payload = True\<rparr>"
  "parse_sse_field_line ''event: message'' = Some \<lparr>sf_name = ''event'', sf_value = ''message'', sf_has_payload = True\<rparr>"
  "parse_sse_field_line (''data: '' @ CHR ''{'' # rest) = Some \<lparr>sf_name = ''data'', sf_value = CHR ''{'' # rest, sf_has_payload = True\<rparr>"
proof -
  obtain c cs where c: "dec_nat n = c # cs" by (cases "dec_nat n") auto
  then have "\<not> is_blank c" using dec_nat_ends(3) [of n] digit_not_blank by simp
  then show "parse_sse_field_line (''id: '' @ dec_nat n) = Some \<lparr>sf_name = ''id'', sf_value = dec_nat n, sf_has_payload = True\<rparr>"
    using control_neq by (simp add: parse_sse_field_line_def c)
  show "parse_sse_field_line ''event: message'' = Some \<lparr>sf_name = ''event'', sf_value = ''message'', sf_has_payload = True\<rparr>"
    by code_simp
  show "parse_sse_field_line (''data: '' @ CHR ''{'' # rest) = Some \<lparr>sf_name = ''data'', sf_value = CHR ''{'' # rest, sf_has_payload = True\<rparr>"
    using control_neq by (simp add: parse_sse_field_line_def)
qed

lemma field_effects:
  "sse_event_field (''id: '' @ dec_nat n) evt = evt\<lparr>se_id := dec_nat n\<rparr>"
  "sse_event_field ''event: message'' evt = evt\<lparr>se_type := ''message''\<rparr>"
  "sse_event_field (''data: '' @ CHR ''{'' # rest) evt = evt\<lparr>se_data := append_sse_data (se_data evt) (CHR ''{'' # rest)\<rparr>"
  unfolding sse_event_field_def field_lines by simp_all

definition id_text :: "64 word option \<Rightarrow> string" where
  "id_text i = (case i of None \<Rightarrow> [] | Some k \<Rightarrow> dec_nat (unat k))"

lemma event_parsed:
  assumes "braced data" "joined (event_lines i data) = body @ [chr 10]"
  shows "parse_sse_event body = \<lparr>se_type = ''message'', se_data = data, se_id = id_text i, se_retry = None\<rparr>"
proof -
  obtain mid where data: "data = CHR ''{'' # mid" using assms(1) by (auto simp: braced_def)
  have "sse_lines body = event_lines i data" using joined_lines(2) [OF event_lines_plain [OF assms(1)] assms(2)] .
  then show ?thesis
    by (cases i; simp only: parse_sse_event_def event_lines_def id_line_def option.case append.simps(1) fold_Cons fold_Nil
        comp_apply id_apply fold_append data field_effects id_text_def; simp add: append_sse_data_def)
qed

lemma event_dispatched:
  assumes "braced data" "joined (event_lines i data) = body @ [chr 10]" "deserialize_message data = Inr msg"
    and "\<not> exceeds_event_limit opts (length data)"
  shows "dispatch_sse_event opts body st =
    st\<lparr>sl_last_id := (if i = None then sl_last_id st else id_text i), sl_received := sl_received st @ [msg]\<rparr>"
proof -
  have "data \<noteq> []" using assms(1) by (auto simp: braced_def)
  then show ?thesis using assms
    by (cases i) (simp_all add: dispatch_sse_event_def event_parsed note_event_def deliver_event_def id_text_def)
qed

lemma object_text: "is_object j \<Longrightarrow> braced (dump (- 1) j)"
proof (cases j)
  case (JObject m)
  have "chr 10 \<notin> set (dump (- 1) j)" using dump_no_line_break by (simp add: line_break_def)
  moreover have "\<exists>mid. dump (- 1) j = CHR ''{'' # mid @ ''}''"
  proof (cases "m = []")
    case False
    then obtain w w' cw e where "dump_value (- 1) 0 (JObject m) =
        CHR ''{'' # sep_items (member_text (- 1) e (CHR '':'' # cw)) w m @ w' @ ''}''"
      using dump_object_shape [of m "- 1" 0] by blast
    then show ?thesis
      by (intro exI [of _ "sep_items (member_text (- 1) e (CHR '':'' # cw)) w m @ w'"]) (simp add: dump_def JObject)
  qed (simp add: dump_def JObject)
  ultimately show ?thesis by (simp add: braced_def)
qed simp_all

lemma with_meta_object: "with_meta meta (JObject m) = Inr j \<Longrightarrow> is_object j"
  by (auto simp: with_meta_def res_simps json_set_def split: option.splits json.splits prod.splits)

lemma message_object: "message_to_json msg = Inr j \<Longrightarrow> is_object j"
  by (cases msg) (auto simp: serialize_request_def serialize_notification_def serialize_response_def
      serialize_error_response_def build_object_def dest: with_meta_object)

lemma event_text:
  assumes "build_sse_event limit msg = Inr e" "e \<noteq> sse_limit_error_frame"
  shows "\<exists>data. serialize_message msg = Inr data \<and> braced data \<and> e = sse_frame ''message'' data"
proof -
  obtain j where j: "message_to_json msg = Inr j" "serialize_message msg = Inr (dump (- 1) j)"
    using assms(1) by (auto simp: build_sse_event_def serialize_message_def res_simps)
  with assms have "e = sse_frame ''message'' (dump (- 1) j)" by (auto simp: build_sse_event_def Let_def split: if_splits)
  with j object_text message_object show ?thesis by blast
qed

section \<open>What the server sends is what the client receives\<close>

definition with_id :: "64 word option \<Rightarrow> string \<Rightarrow> string" where
  "with_id i e = (case i of None \<Rightarrow> [] | Some k \<Rightarrow> event_id_prefix k) @ e"

text \<open>The frames the server writes for messages, each with or without an identifier.\<close>

definition frames_written :: "nat \<Rightarrow> (64 word option \<times> rpc_message) list \<Rightarrow> string list \<Rightarrow> bool" where
  "frames_written limit sent frames \<longleftrightarrow>
     list_all2 (\<lambda>(i, m) f. \<exists>e. build_sse_event limit m = Inr e \<and> e \<noteq> sse_limit_error_frame \<and> f = with_id i e) sent frames"

definition last_id_after :: "(64 word option \<times> rpc_message) list \<Rightarrow> string \<Rightarrow> string" where
  "last_id_after sent old = fold (\<lambda>(i, m) old. case i of None \<Rightarrow> old | Some k \<Rightarrow> dec_nat (unat k)) sent old"

lemma frames_blocks:
  assumes "frames_written limit sent frames" "\<forall>(i, m) \<in> set sent. message_wf m"
    and "\<forall>f \<in> set frames. \<not> exceeds_event_limit opts (length f)"
  shows "\<exists>bodies. list_all one_block bodies \<and> frames = map block_frame bodies \<and>
    (\<forall>st. fold (dispatch_sse_event opts) bodies st =
      st\<lparr>sl_last_id := last_id_after sent (sl_last_id st), sl_received := sl_received st @ map (normal_message \<circ> snd) sent\<rparr>)"
  using assms
proof (induction sent arbitrary: frames)
  case Nil
  then show ?case by (intro exI [of _ "[]"]) (simp add: frames_written_def last_id_after_def)
next
  case (Cons im sent)
  obtain i m where im: "im = (i, m)" by (cases im)
  then obtain e frames' where f: "frames = with_id i e # frames'" "build_sse_event limit m = Inr e" "e \<noteq> sse_limit_error_frame"
      "frames_written limit sent frames'"
    using Cons.prems(1) by (auto simp: frames_written_def list_all2_Cons1)
  obtain bodies where b: "list_all one_block bodies" "frames' = map block_frame bodies" "\<And>st. fold (dispatch_sse_event opts) bodies st =
      st\<lparr>sl_last_id := last_id_after sent (sl_last_id st), sl_received := sl_received st @ map (normal_message \<circ> snd) sent\<rparr>"
    using Cons.IH [OF f(4)] Cons.prems(2,3) f(1) by auto
  obtain data where d: "serialize_message m = Inr data" "braced data" "e = sse_frame ''message'' data"
    using event_text [OF f(2,3)] by blast
  then have "chr 10 \<notin> set data" by (simp add: braced_def)
  from event_frame [OF this, of i] obtain body where body: "joined (event_lines i data) = body @ [chr 10]"
      "block_frame body = with_id i e"
    by (auto simp: with_id_def d(3))
  have one: "one_block body"
    using joined_block [OF event_lines_plain [OF d(2)] _ body(1)] by (simp add: event_lines_def)
  have "deserialize_message data = Inr (normal_message m)"
    using message_text_roundtrip [of m] Cons.prems(2) d(1) by (auto simp: im)
  moreover have "\<not> exceeds_event_limit opts (length data)"
  proof -
    have "length data \<le> length (block_frame body)"
      using arg_cong [OF body(1), of length] by (simp add: block_frame_def event_lines_def joined_def)
    moreover have "\<not> exceeds_event_limit opts (length (with_id i e))" using Cons.prems(3) f(1) by simp
    ultimately show ?thesis by (simp add: body(2) exceeds_event_limit_def split: option.splits)
  qed
  ultimately have "dispatch_sse_event opts body st =
      st\<lparr>sl_last_id := (if i = None then sl_last_id st else id_text i), sl_received := sl_received st @ [normal_message m]\<rparr>" for st
    using event_dispatched [OF d(2) body(1)] by blast
  with one b f(1) body(2) show ?case
    by (intro exI [of _ "body # bodies"]) (auto simp: im last_id_after_def id_text_def split: option.split)
qed

text \<open>C16: however the network cuts the stream of a server into chunks, the client receives exactly the messages the server
  has sent, in order, and remembers the identifier of the last one that had any, as long as a frame and a chunk together
  do not exceed its limit.\<close>

theorem stream_received_as_sent:
  assumes "frames_written limit sent frames" "\<forall>(i, m) \<in> set sent. message_wf m" "concat chunks = concat frames"
    and "\<forall>bound c f. so_max_event opts = Some bound \<and> c \<in> set chunks \<and> f \<in> set frames \<longrightarrow> length c + length f \<le> bound"
    and "sl_running st" "sl_buffer st = []"
  shows "let st' = receive_chunks opts chunks st in
    sl_received st' = sl_received st @ map (normal_message \<circ> snd) sent \<and> sl_errors st' = sl_errors st \<and>
    sl_last_id st' = last_id_after sent (sl_last_id st) \<and> sl_running st' \<and> sl_buffer st' = []"
proof -
  have "\<forall>f \<in> set frames. \<not> exceeds_event_limit opts (length f)"
  proof
    fix f assume f: "f \<in> set frames"
    show "\<not> exceeds_event_limit opts (length f)"
    proof (cases "chunks = []")
      case True
      then have "f = []" using f assms(3) by auto
      then show ?thesis by (simp add: exceeds_event_limit_def split: option.split)
    next
      case False
      then have "hd chunks \<in> set chunks" by simp
      show ?thesis
      proof (cases "so_max_event opts")
        case (Some bound)
        then have "length (hd chunks) + length f \<le> bound" using assms(4) f \<open>hd chunks \<in> set chunks\<close> by blast
        with Some show ?thesis by (simp add: exceeds_event_limit_def)
      qed (simp add: exceeds_event_limit_def)
    qed
  qed
  from frames_blocks [OF assms(1,2) this] obtain bodies where b: "list_all one_block bodies" "frames = map block_frame bodies"
    "\<And>st. fold (dispatch_sse_event opts) bodies st =
      st\<lparr>sl_last_id := last_id_after sent (sl_last_id st), sl_received := sl_received st @ map (normal_message \<circ> snd) sent\<rparr>"
    by blast
  have "stream_view (receive_chunks opts chunks st) = fold (dispatch_sse_event opts) bodies (stream_view st) \<and>
      sl_buffer (receive_chunks opts chunks st) = []"
  proof (rule chunks_received)
    show "bodies = [] \<or> length (sl_buffer st) < length (block_frame (hd bodies))" using assms(6) by (simp add: block_frame_def)
    show "length c + length (block_frame b) \<le> bound"
      if "so_max_event opts = Some bound" "c \<in> set chunks" "b \<in> set bodies" for bound c b
      using assms(4) that b(2) by simp
  qed (use assms b in simp_all)
  then have view: "stream_view (receive_chunks opts chunks st) = (stream_view st)\<lparr>sl_last_id := last_id_after sent (sl_last_id st),
      sl_received := sl_received st @ map (normal_message \<circ> snd) sent\<rparr>" and empty: "sl_buffer (receive_chunks opts chunks st) = []"
    by (simp_all add: b(3)) (simp_all add: stream_view_def)
  show ?thesis
    using arg_cong [OF view, of sl_received] arg_cong [OF view, of sl_errors] arg_cong [OF view, of sl_last_id]
      arg_cong [OF view, of sl_running] empty assms(5)
    by (simp add: stream_view_def Let_def)
qed

definition sample_notice :: rpc_message where
  "sample_notice = MsgNotification \<lparr>nt_jsonrpc = ''2.0'', nt_method = ''ping'', nt_params = None, nt_meta = None, nt_session = []\<rparr>"

definition sample_sse_options :: sse_options where
  "sample_sse_options = \<lparr>so_server_url = ''http://h/sse'', so_max_event = Some 1000\<rparr>"

lemma sample_notice_written:
  "\<exists>e. build_sse_event 1000 sample_notice = Inr e \<and> e \<noteq> sse_limit_error_frame \<and> length e < 100"
proof -
  have "serialize_message sample_notice = Inr (dump (- 1) (JObject [(''jsonrpc'', JString ''2.0''), (''method'', JString ''ping'')]))"
    by code_simp
  moreover define t where "t = ''{'' @ quoted ''jsonrpc'' @ '':'' @ quoted ''2.0'' @ '','' @ quoted ''method'' @ '':'' @ quoted ''ping'' @ ''}''"
  moreover have "dump (- 1) (JObject [(''jsonrpc'', JString ''2.0''), (''method'', JString ''ping'')]) = t"
    unfolding t_def by code_simp
  moreover have "sse_frame ''message'' t = ''event: message'' @ chr 10 # ''data: '' @ t @ [chr 10, chr 10]"
    unfolding t_def by code_simp
  ultimately have "build_sse_event 1000 sample_notice = Inr (''event: message'' @ chr 10 # ''data: '' @ t @ [chr 10, chr 10])"
    by (simp add: build_sse_event_def quoted_def)
  then show ?thesis
    by (simp add: t_def sse_limit_error_frame_def error_body_def quoted_def)
qed

theorem stream_received_as_sent_witness:
  "\<exists>e. sl_received (receive_chunks sample_sse_options (map (\<lambda>c. [c]) (event_id_prefix 7 @ e)) new_sse_client) =
     [normal_message sample_notice] \<and> build_sse_event 1000 sample_notice = Inr e"
proof -
  obtain e where e: "build_sse_event 1000 sample_notice = Inr e" "e \<noteq> sse_limit_error_frame" "length e < 100"
    using sample_notice_written by blast
  have id: "length (event_id_prefix 7) < 10" by code_simp
  have "let st' = receive_chunks sample_sse_options (map (\<lambda>c. [c]) (event_id_prefix 7 @ e)) new_sse_client in
    sl_received st' = sl_received new_sse_client @ map (normal_message \<circ> snd) [(Some (7 :: 64 word), sample_notice)] \<and>
    sl_errors st' = sl_errors new_sse_client \<and>
    sl_last_id st' = last_id_after [(Some 7, sample_notice)] (sl_last_id new_sse_client) \<and> sl_running st' \<and> sl_buffer st' = []"
  proof (rule stream_received_as_sent)
    show "frames_written 1000 [(Some 7, sample_notice)] [event_id_prefix 7 @ e]"
      using e by (simp add: frames_written_def with_id_def)
    show "concat (map (\<lambda>c. [c]) (event_id_prefix 7 @ e)) = concat [event_id_prefix 7 @ e]" by (simp only: concat_map_singleton) simp
    show "\<forall>(i, m) \<in> set [(Some 7, sample_notice)]. message_wf m"
    proof -
      have "utf8_valid ''ping''" by (rule utf8_ascii) (simp add: byte_of_def)
      then show ?thesis by (simp add: sample_notice_def)
    qed
    show "\<forall>bound c f. so_max_event sample_sse_options = Some bound \<and> c \<in> set (map (\<lambda>c. [c]) (event_id_prefix 7 @ e)) \<and>
        f \<in> set [event_id_prefix 7 @ e] \<longrightarrow> length c + length f \<le> bound"
      using e(3) id by (auto simp: sample_sse_options_def)
  qed (simp_all add: new_sse_client_def)
  with e(1) show ?thesis by (auto simp: Let_def new_sse_client_def)
qed

section \<open>A connection that breaks inside an event\<close>

lemma complete_lines:
  assumes "chr 10 \<notin> set tail"
  shows "rev (drop 1 (dropWhile (\<lambda>c. c \<noteq> chr 10) (rev (front @ chr 10 # tail)))) = front"
proof -
  have "dropWhile (\<lambda>c. c \<noteq> chr 10) (rev tail @ chr 10 # rev front) = chr 10 # rev front"
    using assms by (subst dropWhile_append2) auto
  then show ?thesis by simp
qed

text \<open>The part of an event before the end of its data, behind the line of its identifier.\<close>

lemma cut_lines:
  assumes "part @ after = ''event: message'' @ chr 10 # d" "chr 10 \<notin> set d"
  shows "chr 10 \<notin> set part \<or> (\<exists>tail. part = ''event: message'' @ chr 10 # tail \<and> chr 10 \<notin> set tail)"
proof -
  have free: "chr 10 \<notin> set ''event: message''" by (rule control_neq)
  from assms(1) obtain us where "part = ''event: message'' @ us \<and> us @ after = chr 10 # d \<or>
      part @ us = ''event: message'' \<and> after = us @ chr 10 # d"
    unfolding append_eq_append_conv2 by blast
  then show ?thesis
  proof (elim disjE conjE)
    assume us: "part = ''event: message'' @ us" "us @ after = chr 10 # d"
    then show ?thesis
    proof (cases us)
      case (Cons c tail)
      with us assms(2) show ?thesis by auto
    qed (use free in simp)
  next
    assume "part @ us = ''event: message''"
    with free show ?thesis by (metis Un_iff set_append)
  qed
qed

lemma id_line_noted:
  assumes "sse_lines complete = (''id: '' @ dec_nat n) # ls" "ls = [] \<or> ls = [''event: message'']"
  shows "list_ex resumable_line (sse_lines complete)"
    and "dispatch_sse_event opts complete st = st\<lparr>sl_last_id := dec_nat n\<rparr>"
proof -
  show "list_ex resumable_line (sse_lines complete)"
  proof -
    have "resumable_line (''id: '' @ dec_nat n)" unfolding resumable_line_def field_lines by simp
    then show ?thesis by (auto simp: list_ex_iff assms(1))
  qed
  have "parse_sse_event complete = \<lparr>se_type = ''message'', se_data = [], se_id = dec_nat n, se_retry = None\<rparr>"
    unfolding parse_sse_event_def assms(1) using assms(2)
    by (elim disjE; simp only: fold_Cons fold_Nil comp_apply id_apply field_effects; simp)
  then show "dispatch_sse_event opts complete st = st\<lparr>sl_last_id := dec_nat n\<rparr>"
    by (simp add: dispatch_sse_event_def note_event_def deliver_event_def)
qed

text \<open>C39: when the connection breaks after the line with the identifier of an event and before its data are complete, the
  client takes the event for received: no message comes out of it, but the next request resumes behind it, and the server
  never sends it again.\<close>

theorem cut_event_never_resent:
  assumes "build_sse_event limit msg = Inr e" "e \<noteq> sse_limit_error_frame" "e = part @ missing" "2 \<le> length missing"
    and "sl_buffer st = []" "\<not> exceeds_event_limit opts (length (event_id_prefix i @ part))"
  shows "let st' = flush_sse_buffer opts (receive_chunk opts (event_id_prefix i @ part) st) in
    sl_received st' = sl_received st \<and> sl_last_id st' = dec_nat (unat i) \<and>
    stoul (sl_last_id st') = StoOk (unat i) [] \<and>
    (\<forall>events session data. (i, data) \<notin> set (get_events_since events session (of_nat (unat i))))"
proof -
  obtain data where d: "braced data" "e = sse_frame ''message'' data" using event_text [OF assms(1,2)] by blast
  then have free: "chr 10 \<notin> set (''data: '' @ data)" "chr 10 \<notin> set data" using control_neq by (simp_all add: braced_def)
  obtain body where body: "joined (event_lines (Some i) data) = body @ [chr 10]"
      "block_frame body = event_id_prefix i @ sse_frame ''message'' data"
    using event_frame [OF free(2), of "Some i"] by auto
  have one: "one_block body"
    using joined_block [OF event_lines_plain [OF d(1)] _ body(1)] by (simp add: event_lines_def)
  define chunk where "chunk = event_id_prefix i @ part"
  have "block_frame body @ [] = chunk @ missing" by (simp add: body(2) chunk_def assms(3) flip: d(2))
  moreover have "length chunk < length (block_frame body)"
    using assms(3,4) by (cases missing) (simp_all add: body(2) chunk_def flip: d(2))
  ultimately have "find_sse_block_boundary chunk = None" using part_of_block [OF one] by blast
  then have "drain_blocks opts chunk s = (chunk, s)" for s by (subst drain_blocks.simps) simp
  moreover have "chunk \<noteq> []" by (simp add: chunk_def event_id_prefix_def)
  ultimately have received: "receive_chunk opts chunk st = st\<lparr>sl_attempts := 0, sl_buffer := chunk\<rparr>"
    using assms(5,6) by (simp add: receive_chunk_def Let_def flip: chunk_def)
  have chunk: "chunk = (''id: '' @ dec_nat (unat i)) @ chr 10 # part" by (simp add: chunk_def event_id_prefix_def)
  have "sse_escape_data data = data" using free(2) by (induction data) (auto simp: sse_escape_data_def)
  then have "part @ missing = (''event: message'' @ chr 10 # ''data: '' @ data) @ [chr 10, chr 10]"
    using assms(3) d(2) by (simp add: sse_frame_def)
  moreover have "part @ take (length missing - 2) missing = take (length (part @ missing) - 2) (part @ missing)"
    using assms(4) by simp
  ultimately have "part @ take (length missing - 2) missing = ''event: message'' @ chr 10 # ''data: '' @ data" by simp
  note part = cut_lines [OF this free(1)]
  have plain: "plain_line (''id: '' @ dec_nat (unat i))" "plain_line ''event: message''"
    using event_lines_plain [OF d(1), of "Some i"] by (simp_all only: event_lines_def id_line_def option.case list_all_append list.pred_inject)
  obtain complete ls where c: "rev (drop 1 (dropWhile (\<lambda>c. c \<noteq> chr 10) (rev chunk))) = complete"
    "sse_lines complete = (''id: '' @ dec_nat (unat i)) # ls" "ls = [] \<or> ls = [''event: message'']"
  proof (cases "chr 10 \<in> set part")
    case False
    have "sse_lines (''id: '' @ dec_nat (unat i)) = [''id: '' @ dec_nat (unat i)]"
      using joined_lines(2) [of "[''id: '' @ dec_nat (unat i)]"] plain(1) by (simp only: joined_simps list.pred_inject)
    with that [of _ "[]"] complete_lines [OF False, of "''id: '' @ dec_nat (unat i)"] chunk show thesis by (simp only:) blast
  next
    case True
    then obtain tail where tail: "part = ''event: message'' @ chr 10 # tail" "chr 10 \<notin> set tail" using part by blast
    have "sse_lines ((''id: '' @ dec_nat (unat i)) @ chr 10 # ''event: message'') = [''id: '' @ dec_nat (unat i), ''event: message'']"
      using joined_lines(2) [of "[''id: '' @ dec_nat (unat i), ''event: message'']"] plain
      by (simp only: joined_simps list.pred_inject) simp
    moreover have "chunk = ((''id: '' @ dec_nat (unat i)) @ chr 10 # ''event: message'') @ chr 10 # tail"
      by (simp add: chunk tail(1))
    ultimately show thesis
      using that [of _ "[''event: message'']"] complete_lines [OF tail(2), of "(''id: '' @ dec_nat (unat i)) @ chr 10 # ''event: message''"]
      by (simp only:) blast
  qed
  have "chr 10 \<in> set chunk" by (simp add: chunk)
  then have "flush_sse_buffer opts (receive_chunk opts chunk st) = st\<lparr>sl_attempts := 0, sl_buffer := [], sl_last_id := dec_nat (unat i)\<rparr>"
    using \<open>chunk \<noteq> []\<close> id_line_noted [OF c(2,3)] by (simp add: flush_sse_buffer_def received Let_def c(1) [unfolded One_nat_def])
  moreover have "unat i < 2 ^ 64" using unsigned_less [of i] by simp
  moreover have "(i, dat) \<notin> set (get_events_since events session (of_nat (unat i)))" for events session dat
    by (auto simp: get_events_since_def split: option.split)
  ultimately show ?thesis unfolding chunk_def [symmetric] Let_def by (simp add: stoul_dec_nat)
qed

theorem cut_event_never_resent_witness:
  "\<exists>e. build_sse_event 1000 sample_notice = Inr e \<and>
     sl_last_id (flush_sse_buffer sample_sse_options
       (receive_chunk sample_sse_options (event_id_prefix 7 @ take 20 e) new_sse_client)) = ''7''"
proof -
  obtain e where e: "build_sse_event 1000 sample_notice = Inr e" "e \<noteq> sse_limit_error_frame" "length e < 100"
    using sample_notice_written by blast
  obtain data where "e = sse_frame ''message'' data" using event_text [OF e(1,2)] by blast
  then have "22 \<le> length e" by (simp add: sse_frame_def)
  moreover have "length (event_id_prefix 7) < 10" "dec_nat (unat (7 :: 64 word)) = ''7''" by code_simp+
  ultimately show ?thesis
    using cut_event_never_resent [OF e(1,2), of "take 20 e" "drop 20 e" new_sse_client sample_sse_options 7] e(1,3)
    by (auto simp: new_sse_client_def sample_sse_options_def exceeds_event_limit_def Let_def)
qed

section \<open>Waiting before the next connection\<close>

lemma reconnect_delay_bounds: "450 \<le> reconnect_delay attempt retry \<and> reconnect_delay attempt retry \<le> 1000"
  by (simp add: reconnect_delay_def Let_def)

text \<open>The backoff starts at the ceiling of the waiting time, so it never shows.\<close>

lemma backoff_without_effect: "reconnect_delay attempt None = 1000"
proof -
  have "1000 \<le> ((\<lambda>wait. min (wait * 3 div 2) 30000) ^^ n) (1000 :: nat)" for n
  proof (induction n)
    case (Suc n)
    define w :: nat where "w = ((\<lambda>wait. min (wait * 3 div 2) 30000) ^^ n) 1000"
    have "1000 \<le> w" using Suc by (simp add: w_def)
    then have "1000 \<le> min (w * 3 div 2) 30000" by simp
    then show ?case by (simp add: w_def)
  qed simp
  then have "1000 \<le> ((\<lambda>wait. min (wait * 3 div 2) 30000) ^^ (attempt - 1)) (1000 :: nat)" .
  then show ?thesis unfolding reconnect_delay_def Let_def option.case by auto
qed

text \<open>The limit is compared with the whole buffer, so several small events in one chunk can end the stream.\<close>

lemma burst_ends_stream:
  assumes "so_max_event opts = Some limit" "limit < length (sl_buffer st) + length chunk" "chunk \<noteq> []"
  shows "\<not> sl_running (receive_chunk opts chunk st)"
  using assms by (simp add: receive_chunk_def exceeds_event_limit_def notify_error_def Let_def)

end
