(* ===== verification/Spec2Isabelle.thy ===== *)
theory Spec2Isabelle
  imports Wire_Types Session_Run Subscriptions Event_Store Session_Store Response_Cache Message_Filter
    Message_Channel Request_State Uri_Template Task_Journal File_Event_Store Param_Headers Server_Listings
    Http_Transport Sse_Client
begin

text \<open>
  A model of the C++ SDK for the Model Context Protocol.

  \<^bold>\<open>The program.\<close>  A transport hands messages to a session handler, which parses and validates them, keeps the requests
  it has sent and the answers it owes, and calls the handlers a server or a client has installed.  A server keeps a
  registry of tools, resources, prompts and skills, and a store of tasks; its HTTP transport checks who may come in, keeps
  sessions, streams, and events for clients that resume one, and checks headers.  A client lists page by page, caches answers and repeats tool
  parameters in headers.

  \<^bold>\<open>The JSON layer.\<close>  \<open>Json_Value\<close> is \<open>JsonValue\<close> with its accessors and the errors of \<open>McpError\<close>; \<open>Json_Parser\<close> is
  \<open>src/core/JsonParser.cpp\<close> step by step, with the explicit stack of \<open>ParseContainer\<close>; \<open>Json_Dump\<close> is
  \<open>JsonValue::Dump\<close>.  \<open>Float64\<close> and \<open>Float_Text\<close> read and print IEEE doubles as \<open>std::from_chars\<close> and
  \<open>std::to_chars\<close> do, \<open>Std_Numbers\<close> reads numbers as \<open>std::stoul\<close> and its kin do, \<open>Utf8\<close> holds the checks of bytes.
  \<open>Json_Roundtrip\<close> and \<open>Json_Lines\<close> show that printing and parsing are inverse, what a parsed value satisfies, and that
  a torn line of a file is recognised.

  \<^bold>\<open>Types of the protocol.\<close>  \<open>Json_Fields\<close> is \<open>src/detail/JsonSerializer.hpp\<close>; \<open>Json_Rpc\<close>, \<open>Meta\<close>, \<open>Content\<close>, \<open>Tools\<close>,
  \<open>Params\<close>, \<open>Results\<close>, \<open>Tasks\<close> and \<open>Skills\<close> are the types and serializers of \<open>src/core\<close>, gathered by \<open>Wire_Types\<close>.
  The locales \<open>json_encoder\<close> and \<open>json_codec\<close> state the contract of a serializer with its deserializer; each type is an
  interpretation, so optional fields and vectors of it need no proof of their own.

  \<^bold>\<open>Sessions.\<close>  \<open>Wire_Codec\<close> is \<open>src/protocol/WireCodec.cpp\<close>: the two eras of the protocol, interpretations of the locale
  \<open>wire_codec\<close>.  \<open>Session_State\<close>, \<open>Outgoing_Requests\<close>, \<open>Incoming_Requests\<close> and \<open>Subscriptions\<close> are
  \<open>src/protocol/McpSessionHandler.cpp\<close>, every operation a function from state to state under its mutex;
  \<open>Session_Run\<close> lets its threads interleave as an inductive step relation with invariants by rule induction.
  \<open>Message_Filter\<close> and \<open>Message_Channel\<close> are the pipeline and the bounded queue beside it.

  \<^bold>\<open>Stores.\<close>  \<open>Event_Store\<close>, \<open>File_Event_Store\<close>, \<open>Session_Store\<close>, \<open>Response_Cache\<close>, \<open>Task_Store\<close> with \<open>Task_Journal\<close>; the
  event stores refine an abstract log, the journal of tasks is followed through crashes.

  \<^bold>\<open>Texts.\<close>  \<open>Sha256\<close>, \<open>Base64_Url\<close> and \<open>Request_State\<close> mint and verify the state of a request; \<open>Uri_Template\<close> expands
  and matches; \<open>Param_Annotations\<close>, \<open>Header_Values\<close> and \<open>Param_Headers\<close> carry tool parameters through headers, from the
  listing of the tools to the check of \<open>src/http/StreamableHttpServerTransport.cpp\<close>; \<open>Json_Schema\<close> is the validator of
  \<open>src/detail/JsonSchemaValidator.hpp\<close>.

  \<^bold>\<open>The server\<close> (\<open>src/server/McpServer.cpp\<close>).  \<open>Server_State\<close>: its state, registration, the capabilities and wired
  methods derived from it, notifications.  \<open>Server_Handlers\<close>: listings, reading, prompts, completion.
  \<open>Server_Sessions\<close>: the handshake, log level, progress, subscriptions, extensions.  \<open>Server_Skills\<close>: skills and their
  directories.  \<open>Server_Tasks\<close>: the requests about tasks.  \<open>File_Input\<close>: files as arguments.  \<open>Server_Calls\<close>: a call of
  a tool in its three forms, answered directly, as a task in the background, or as a finished task.  \<open>Server_Serve\<close>: a
  message from its checks to the queue of answers.  \<open>Server_Listings\<close> with \<open>Listing\<close>: the server's pages against the
  client's loop of \<open>src/client/McpClient.cpp\<close>, through the locale \<open>paged_listing\<close>, interpreted on the server's own
  handlers.

  \<^bold>\<open>The HTTP server\<close> (\<open>src/http/StreamableHttpServerTransport.cpp\<close>).  \<open>Dpop\<close> is \<open>src/ext/DPoP.cpp\<close>: making and
  checking proofs of possession, the cache of replays.  \<open>Http_Access\<close>: requests and responses, who is let in.
  \<open>Http_Filters\<close>: the filters of listening streams, their tags, the headers against the body.  \<open>Http_Sessions\<close>: opening,
  finding and forgetting sessions, with and without a session store.  \<open>Http_Streams\<close>: requests that wait, frames for open
  streams, what happens to an outgoing message.  \<open>Http_Transport\<close>: the handlers of \<open>POST\<close>, \<open>GET\<close> and \<open>DELETE\<close>; a post is
  two steps, \<open>handle_post\<close> until the request waits and \<open>finish_post\<close> when its promise is settled or the time is up, so
  the steps of other threads can come between them.

  \<^bold>\<open>Receiving a stream.\<close>  \<open>Url\<close> is \<open>include/mcp/transport/detail/Url.hpp\<close>.  \<open>Sse_Client\<close> has the lines of
  \<open>include/mcp/detail/SseEventParser.hpp\<close> and the reading side of \<open>src/transport/SseClientTransport.cpp\<close>, and joins it to
  the frames the server writes: they arrive as sent, however they are cut, and an event that is cut off is lost.

  \<^bold>\<open>What the lemmas show.\<close>  Round trips of JSON, messages and types; refinement of the event stores; invariants of the
  session handler in every interleaving (each request settled at most once, none lost while it is open, slots counted
  exactly); exact bounds of queue, subscriptions, stores and file ranges; the server answers or queues every request,
  keeps sessions apart from the tasks of others, refuses invalid arguments before a tool sees them, and ends what it
  runs in the background; the HTTP server lets in who is entitled to it, hands on what it has checked, returns answers to
  the requests that wait for them, keeps messages in their sessions and replays streams.  Lemmas about gaps of the code
  say so in the text before them.

  \<^bold>\<open>Bounds.\<close>  The parser takes 1000 nested containers, the validator 32 levels of schema (a recursion on the levels that
  are left: no fuel can run out, for the code checks the same number).  A session has 64 subscriptions, a
  store 10000 events of a session and 10000 sessions; a journal is compacted after 64 records and twice its tasks; a
  client reads 64 pages of 100.  A file range has at most 8 MB, an inlined one 256 KB.  Fewer than \<open>2 ^ 63 - 1\<close>
  requests are numbered in a run and fewer than \<open>2 ^ 64 - 1\<close> events; the capacity of the queue of answers and
  the limit of the total time of a request do not change during a run.

  \<^bold>\<open>What is an argument.\<close>  The clocks; random identifiers and bytes; signing and checking of elliptic curve
  signatures, and the application's check of a token; the outcome of each access to the file system; the search of a
  regular expression; user code, as a function to the outcome of its call, exceptions included.  Unordered maps are
  walked in the order of their keys, one of the orders the code may take.

  \<^bold>\<open>Not modelled.\<close>  Sockets, TLS, WebSocket, processes and the threads that drive the transports; the HTTP client and the
  rest of the client, and OAuth, which are exchanges with them;
  \<open>Elicit\<close> and \<open>ElicitUrl\<close> with their pending promises; triggers, the server card and other extensions; spans, logging
  and observation callbacks.  Their logic is calls of the system and of the network, or optional.
\<close>

end
